(* ===== verification/Core_Prelude.thy ===== *)
theory Core_Prelude
  imports Main "HOL-Library.Word" "HOL-Library.AList" "HOL-Library.List_Lexorder"
    "HOL-Library.Char_ord"
begin

text \<open>
  Prelude of the TjuaeCore development: the machine integers of the Rust sources (\<open>u32\<close>,
  \<open>u64\<close> and their saturating operations), the string operations of \<open>str\<close>, the finite maps (\<open>HashMap\<close> and \<open>BTreeMap\<close>) as
  association lists with the laws the components use, the outcome type of fallible and
  panicking operations, and the interfaces shared by the components: a state machine
  with an invariant, a keyed store whose terminal entries absorb later updates, and the extensions
  of a state along a loop.

  A \<open>HashMap\<close> or \<open>BTreeMap\<close> is a list of key/value pairs with distinct keys. The order of
  that list stands for the iteration order of a \<open>HashMap\<close>, which Rust leaves unspecified:
  results collected in hash order are described by their sets or counts, and the one property
  about that order shows that a result depends on it. Where the code iterates over a \<open>BTreeMap\<close> or a
  \<open>BTreeSet\<close> the keys are sorted first, in the byte order of Rust's \<open>String\<close>.
\<close>

named_theorems alist_simps \<open>rewrite rules for the association lists that model Rust maps\<close>
named_theorems view_simps \<open>rewrite rules for the derived views of a state\<close>

type_synonym u16 = "16 word"
type_synonym u32 = "32 word"
type_synonym u64 = "64 word"
type_synonym TimestampMs = int

section \<open>Strings\<close>

text \<open>Rust's \<open>str::contains\<close>.\<close>

primrec contains :: "string \<Rightarrow> string \<Rightarrow> bool" where
  "contains [] pat \<longleftrightarrow> pat = []"
| "contains (c # s) pat \<longleftrightarrow> take (length pat) (c # s) = pat \<or> contains s pat"

lemma contains_iff: "contains s pat \<longleftrightarrow> (\<exists>xs ys. s = xs @ pat @ ys)"
proof (induction s)
  case Nil
  then show ?case by auto
next
  case (Cons c s)
  show ?case
  proof
    assume "contains (c # s) pat"
    then consider "take (length pat) (c # s) = pat" | "contains s pat" by auto
    then show "\<exists>xs ys. c # s = xs @ pat @ ys"
    proof cases
      case 1
      then have "c # s = [] @ pat @ drop (length pat) (c # s)"
        by (metis append_Nil append_take_drop_id)
      then show ?thesis by blast
    next
      case 2
      then show ?thesis using Cons.IH by (metis append_Cons)
    qed
  next
    assume "\<exists>xs ys. c # s = xs @ pat @ ys"
    then obtain xs ys where eq: "c # s = xs @ pat @ ys" by blast
    show "contains (c # s) pat"
    proof (cases xs)
      case Nil
      with eq have "take (length pat) (c # s) = pat" by simp
      then show ?thesis by simp
    next
      case (Cons x xs')
      with eq have "s = xs' @ pat @ ys" by simp
      then show ?thesis using Cons.IH by auto
    qed
  qed
qed

text \<open>\<open>str::trim\<close>, over ASCII text.\<close>

definition is_whitespace :: "char \<Rightarrow> bool" where
  "is_whitespace ch \<longleftrightarrow> of_char ch \<in> {9, 10, 11, 12, 13, 32 :: nat}"

definition trim :: "string \<Rightarrow> string" where
  "trim s = rev (dropWhile is_whitespace (rev (dropWhile is_whitespace s)))"

text \<open>\<open>str::to_ascii_lowercase\<close>.\<close>

definition to_ascii_lowercase :: "string \<Rightarrow> string" where
  "to_ascii_lowercase = map (\<lambda>ch. let n = of_char ch :: nat in if 65 \<le> n \<and> n \<le> 90 then char_of (n + 32) else ch)"

section \<open>Saturating arithmetic\<close>

text \<open>\<open>saturating_add(1)\<close> and \<open>saturating_sub(1)\<close> of an unsigned integer.\<close>

definition sat_inc :: "'a::len word \<Rightarrow> 'a word" where
  "sat_inc w = (if w = - 1 then w else w + 1)"

definition sat_dec :: "'a::len word \<Rightarrow> 'a word" where
  "sat_dec w = (if w = 0 then w else w - 1)"

lemma unat_max_word: "unat (- 1 :: 'a::len word) = 2 ^ LENGTH('a) - 1"
  by (simp only: unsigned_minus_1_eq_mask mask_eq_exp_minus_1)

lemma unat_sat_inc:
  "unat (sat_inc w) = min (unat w + 1) (2 ^ LENGTH('a) - 1)" for w :: "'a::len word"
proof (cases "w = - 1")
  case True
  then show ?thesis by (simp add: sat_inc_def unat_max_word)
next
  case False
  then have "unat w \<noteq> 2 ^ LENGTH('a) - 1"
    using unat_max_word by (metis word_eq_iff_unsigned)
  moreover have "unat w < 2 ^ LENGTH('a)" by (rule unsigned_less)
  ultimately have lt: "unat w + 1 < 2 ^ LENGTH('a)" by linarith
  then have "unat (w + 1) = unat w + 1" by (simp add: unat_word_ariths)
  with False lt show ?thesis by (simp add: sat_inc_def)
qed

lemma unat_sat_dec: "unat (sat_dec w) = unat w - 1" for w :: "'a::len word"
  by (simp add: sat_dec_def unat_minus_one)

lemma sat_dec_inc: "w \<noteq> - 1 \<Longrightarrow> sat_dec (sat_inc w) = w" for w :: "'a::len word"
  by (auto simp: sat_dec_def sat_inc_def) (metis add.commute add_diff_cancel_left' diff_0)

lemma sat_inc_pos: "sat_inc w \<noteq> 0" for w :: "'a::len word"
  by (auto simp: sat_inc_def eq_neg_iff_add_eq_0)

text \<open>\<open>i64::saturating_sub\<close>\<close>

definition i64_saturating_sub :: "int \<Rightarrow> int \<Rightarrow> int" where
  "i64_saturating_sub a b = max (- (2 ^ 63)) (min (2 ^ 63 - 1) (a - b))"

text \<open>\<open>i64::saturating_add\<close>\<close>

definition i64_saturating_add :: "int \<Rightarrow> int \<Rightarrow> int" where
  "i64_saturating_add a b = max (- (2 ^ 63)) (min (2 ^ 63 - 1) (a + b))"

section \<open>Finite maps\<close>

text \<open>
  Insertion, removal and in-place modification are \<open>AList.update\<close>, \<open>AList.delete\<close> and
  \<open>AList.map_entry\<close>; \<open>entry(k).or_insert_with(|| v)\<close> inserts only where the key is absent.
\<close>

definition entry_or_insert :: "'k \<Rightarrow> 'v \<Rightarrow> ('k \<times> 'v) list \<Rightarrow> ('k \<times> 'v) list" where
  "entry_or_insert k v m = (case map_of m k of None \<Rightarrow> AList.update k v m | Some _ \<Rightarrow> m)"

text \<open>
  The entry \<open>entry(k).or_insert_with(|| d)\<close> refers to, for code that changes it in place.
\<close>

definition or_default :: "'v \<Rightarrow> 'v option \<Rightarrow> 'v" where
  "or_default d x = (case x of None \<Rightarrow> d | Some v \<Rightarrow> v)"

lemma or_default_simps [simp]: "or_default d None = d" "or_default d (Some v) = v"
  by (simp_all add: or_default_def)

definition keyed :: "('k \<times> 'v) list \<Rightarrow> bool" where
  "keyed m \<longleftrightarrow> distinct (map fst m)"

lemma keyed_Nil [simp]: "keyed []"
  by (simp add: keyed_def)

lemma keyed_update [simp]: "keyed m \<Longrightarrow> keyed (AList.update k v m)"
  by (simp add: keyed_def distinct_update)

lemma keyed_delete [simp]: "keyed m \<Longrightarrow> keyed (AList.delete k m)"
  by (simp add: keyed_def distinct_delete)

lemma keyed_map_entry [simp]: "keyed m \<Longrightarrow> keyed (AList.map_entry k f m)"
  by (simp add: keyed_def distinct_map_entry)

lemma keyed_entry_or_insert [simp]: "keyed m \<Longrightarrow> keyed (entry_or_insert k v m)"
  by (simp add: entry_or_insert_def split: option.split)

lemma map_of_entry_or_insert [alist_simps]:
  "map_of (entry_or_insert k v m) =
     (case map_of m k of None \<Rightarrow> (map_of m)(k \<mapsto> v) | Some _ \<Rightarrow> map_of m)"
  by (simp add: entry_or_insert_def update_conv' split: option.split)

declare update_conv' [alist_simps] delete_conv' [alist_simps] map_of_map_entry [alist_simps]

lemma update_same: "map_of m k = Some v \<Longrightarrow> AList.update k v m = m"
  by (induction m) auto

lemma map_of_map_values [alist_simps]:
  "map_of (map (\<lambda>(k, v). (k, f k v)) m) k = map_option (f k) (map_of m k)"
  by (induction m) auto

lemma keyed_map_values [simp]: "keyed (map (\<lambda>(k, v). (k, f k v)) m) = keyed m"
  by (simp add: keyed_def comp_def case_prod_beta)

lemma keyed_filter [simp]: "keyed m \<Longrightarrow> keyed (filter P m)"
  by (induction m) (auto simp: keyed_def)

lemma map_of_filter_keyed [alist_simps]:
  "keyed m \<Longrightarrow> map_of (filter (\<lambda>(k, v). P k v) m) k =
     (case map_of m k of None \<Rightarrow> None | Some v \<Rightarrow> if P k v then Some v else None)"
proof (induction m)
  case Nil
  then show ?case by simp
next
  case (Cons p m)
  obtain k' v' where p: "p = (k', v')" by (cases p)
  from Cons.prems p have "keyed m" and fresh: "k' \<notin> fst ` set m"
    by (auto simp: keyed_def)
  moreover have "map_of m k' = None"
    using fresh by (simp add: map_of_eq_None_iff)
  ultimately show ?case using Cons.IH p by (auto split: option.split)
qed

lemma values_iff:
  "keyed m \<Longrightarrow> v \<in> set (map snd m) \<longleftrightarrow> (\<exists>k. map_of m k = Some v)"
  by (force simp: keyed_def dest: map_of_SomeD)

lemma ex_value_iff:
  "keyed m \<Longrightarrow> (\<exists>v \<in> set (map snd m). P v) \<longleftrightarrow> (\<exists>k v. map_of m k = Some v \<and> P v)"
  by (metis values_iff)

lemma filter_values_Nil_iff:
  "keyed m \<Longrightarrow> filter P (map snd m) = [] \<longleftrightarrow> (\<forall>k v. map_of m k = Some v \<longrightarrow> \<not> P v)"
  using ex_value_iff [of m P] by (simp only: filter_empty_conv) blast

section \<open>Collections and loops\<close>

text \<open>
  Iteration over a \<open>BTreeSet\<close> collected from a sequence, the first hit of an
  \<open>Iterator::find_map\<close>, pushing a value that is not there yet, and a loop whose body can
  panic (\<open>None\<close>), for instance by an \<open>expect\<close> on a missing map entry.
\<close>

definition btree_set :: "'a::linorder list \<Rightarrow> 'a list" where
  "btree_set xs = sort (remdups xs)"

primrec find_map :: "('a \<Rightarrow> 'b option) \<Rightarrow> 'a list \<Rightarrow> 'b option" where
  "find_map f [] = None"
| "find_map f (x # xs) = (case f x of Some y \<Rightarrow> Some y | None \<Rightarrow> find_map f xs)"

definition push_new :: "'a \<Rightarrow> 'a list \<Rightarrow> 'a list" where
  "push_new x xs = (if x \<in> set xs then xs else xs @ [x])"

primrec fold_expect :: "('x \<Rightarrow> 's \<Rightarrow> 's option) \<Rightarrow> 'x list \<Rightarrow> 's \<Rightarrow> 's option" where
  "fold_expect f [] s = Some s"
| "fold_expect f (x # xs) s = (case f x s of None \<Rightarrow> None | Some s' \<Rightarrow> fold_expect f xs s')"

lemma set_btree_set [simp]: "set (btree_set xs) = set xs"
  by (simp add: btree_set_def)

lemma distinct_btree_set [simp]: "distinct (btree_set xs)"
  by (simp add: btree_set_def)

lemma set_push_new [simp]: "set (push_new x xs) = insert x (set xs)"
  by (auto simp: push_new_def)

lemma fold_expect_induct [consumes 2, case_names step]:
  assumes "P xs s"
    and "\<And>s. P [] s \<Longrightarrow> Q s"
    and "\<And>x xs s. P (x # xs) s \<Longrightarrow> \<exists>s'. f x s = Some s' \<and> P xs s'"
  shows "\<exists>s'. fold_expect f xs s = Some s' \<and> Q s'"
  using assms(1)
proof (induction xs arbitrary: s)
  case Nil
  with assms(2) show ?case by simp
next
  case (Cons x xs)
  with assms(3) obtain s' where "f x s = Some s'" and "P xs s'" by blast
  with Cons.IH show ?case by simp
qed

lemma map_filter_Nil: "List.map_filter f xs = [] \<longleftrightarrow> (\<forall>x \<in> set xs. f x = None)"
  by (induction xs) (auto simp: List.map_filter_simps split: option.split)

text \<open>\<open>get_mut\<close> in a loop over keys, with the same change for each.\<close>

definition map_entries :: "'k list \<Rightarrow> ('v \<Rightarrow> 'v) \<Rightarrow> ('k \<times> 'v) list \<Rightarrow> ('k \<times> 'v) list" where
  "map_entries ks f m = fold (\<lambda>k. AList.map_entry k f) ks m"

lemma keyed_map_entries [simp]: "keyed m \<Longrightarrow> keyed (map_entries ks f m)"
  unfolding map_entries_def by (induction ks arbitrary: m) auto

lemma map_of_map_entries [alist_simps]:
  assumes "\<And>v. f (f v) = f v"
  shows "map_of (map_entries ks f m) k =
    (if k \<in> set ks then map_option f (map_of m k) else map_of m k)"
  unfolding map_entries_def
proof (induction ks arbitrary: m)
  case Nil
  then show ?case by simp
next
  case (Cons a ks)
  show ?case
    by (simp only: fold_Cons comp_def Cons.IH)
      (auto simp: map_of_map_entry assms option.map_comp comp_def split: option.split)
qed

section \<open>Reachable states and invariants\<close>

text \<open>
  The states a component can get into, from its initial states by the steps it can take.
  A component with a step relation interprets \<open>machine\<close> with its invariant, and gets the
  invariant for every reachable state.
\<close>

inductive reach :: "('s \<Rightarrow> bool) \<Rightarrow> ('s \<Rightarrow> 's \<Rightarrow> bool) \<Rightarrow> 's \<Rightarrow> bool" for init trans where
  reach_init: "init s \<Longrightarrow> reach init trans s"
| reach_step: "reach init trans s \<Longrightarrow> trans s s' \<Longrightarrow> reach init trans s'"

locale machine =
  fixes init :: "'s \<Rightarrow> bool"
    and trans :: "'s \<Rightarrow> 's \<Rightarrow> bool"
    and inv :: "'s \<Rightarrow> bool"
  assumes init_inv: "init s \<Longrightarrow> inv s"
    and trans_inv: "inv s \<Longrightarrow> trans s s' \<Longrightarrow> inv s'"
begin

lemma reach_inv: "reach init trans s \<Longrightarrow> inv s"
  by (induction rule: reach.induct) (auto intro: init_inv trans_inv)

text \<open>
  A property of states that every step from a state with the invariant keeps is never lost
  again, once a reachable state has it.
\<close>

lemma stable_from_reach:
  assumes "reach init trans s" and "trans\<^sup>*\<^sup>* s t" and "P s"
    and keep: "\<And>u v. inv u \<Longrightarrow> P u \<Longrightarrow> trans u v \<Longrightarrow> P v"
  shows "P t"
proof -
  have "reach init trans t \<and> P t"
    using assms(2)
  proof (induction rule: rtranclp_induct)
    case base
    from assms(1,3) show ?case by blast
  next
    case (step u v)
    then show ?case by (blast intro: reach_step keep reach_inv)
  qed
  then show ?thesis by blast
qed

end

section \<open>Stores whose terminal entries absorb updates\<close>

text \<open>
  Both rosters of the session layer promise the same: an update overwrites the status of
  its key, except that a terminal status is not overwritten by a non-terminal one.
\<close>

locale absorbing_store =
  fixes status :: "'m \<Rightarrow> 'k \<Rightarrow> 's option"
    and upsert :: "'u \<Rightarrow> 'm \<Rightarrow> 'm"
    and key :: "'u \<Rightarrow> 'k"
    and new_status :: "'u \<Rightarrow> 's"
    and terminal :: "'s \<Rightarrow> bool"
  assumes status_same: "status (upsert u m) (key u) =
      (case status m (key u) of
         None \<Rightarrow> Some (new_status u)
       | Some t \<Rightarrow> if terminal t \<and> \<not> terminal (new_status u) then Some t else Some (new_status u))"
    and status_other: "k \<noteq> key u \<Longrightarrow> status (upsert u m) k = status m k"
begin

lemma terminal_upsert:
  assumes "status m k = Some t" and "terminal t"
  shows "\<exists>t'. status (upsert u m) k = Some t' \<and> terminal t'"
  using assms status_same [of u m] status_other [of k u m]
  by (cases "k = key u") auto

lemma terminal_absorbs:
  "status m k = Some t \<Longrightarrow> terminal t \<Longrightarrow>
   \<exists>t'. status (fold upsert us m) k = Some t' \<and> terminal t'"
proof (induction us arbitrary: m t)
  case Nil
  then show ?case by simp
next
  case (Cons u us)
  obtain t' where "status (upsert u m) k = Some t'" and "terminal t'"
    using terminal_upsert [OF Cons.prems] by blast
  then show ?case using Cons.IH by simp
qed

text \<open>
  Without a terminal entry the store is last-write-wins: the status of a key is that of the
  latest update for it.
\<close>

lemma last_write_wins:
  assumes "status (fold upsert us m) (key u) = None \<or> status (fold upsert us m) (key u) = Some t"
    and "terminal (new_status u) \<or> \<not> terminal t"
  shows "status (fold upsert (us @ [u]) m) (key u) = Some (new_status u)"
  using assms status_same [of u "fold upsert us m"] by auto

end

section \<open>Extensions of a state\<close>

text \<open>
  A relation that says how a state may be extended: by appending to a log, by storing under known
  ids. Steps that extend the state do so along a loop.
\<close>

locale extension =
  fixes ext :: "'s \<Rightarrow> 's \<Rightarrow> bool"
  assumes ext_refl: "ext a a"
    and ext_trans: "ext a b \<Longrightarrow> ext b c \<Longrightarrow> ext a c"
begin

lemma fold_ext: "(\<And>x s. ext (g s) (g (f x s))) \<Longrightarrow> ext (g s) (g (fold f xs s))"
  by (induction xs arbitrary: s) (auto intro: ext_refl ext_trans)

end

end
