(* ===== verification/Session_Event.thy ===== *)
theory Session_Event
  imports Core_Prelude
begin

text \<open>
  The canonical event vocabulary of the session layer (\<open>tjuaeui-session/src/event.rs\<close>): the
  events every backend adapter emits and the orchestrator lowers, their supporting types, and
  the persistence classifier. The opaque JSON payloads (\<open>serde_json::Value\<close>) are a type
  parameter \<open>'j\<close> of the event type: nothing in the modelled code inspects them. A cost in
  \<open>f64\<close>, which is never inspected either, is its 64-bit pattern. The constructors carry the
  fields of the source's variants in the source's order.
\<close>

section \<open>Supporting types\<close>

datatype ToolResultContent =
    TextContent string
  | FilePath string "string option" "string option" "string option"
  | ImageContent string "8 word list"

datatype SubagentKind = Inline | Spawned string | Workflow

datatype PermissionKind = Tool | Auth

datatype PlanStatus = Pending | InProgress | Completed

datatype PlanPriority = High | Medium | Low

record PlanEntry =
  pe_content :: string
  pe_status :: PlanStatus
  pe_priority :: "PlanPriority option"

datatype SubagentStatus = PendingInit | Running | Interrupted | Completed | Errored | Shutdown

definition subagent_is_terminal :: "SubagentStatus \<Rightarrow> bool" where
  "subagent_is_terminal s \<longleftrightarrow>
     s = SubagentStatus.Interrupted \<or> s = SubagentStatus.Completed \<or>
     s = SubagentStatus.Errored \<or> s = SubagentStatus.Shutdown"

datatype TruncationKind = MaxTokens | ContextWindow | MaxTurns | Budget | TruncatedWire

datatype StopReason = EndTurn | Truncated TruncationKind | Refused "string option"

datatype CancelReason = UserCancel | BargeIn | SocketAbort | ToolDenyChain

datatype TurnOutcome =
    Completed StopReason
  | Cancelled CancelReason
  | Failed
  | EndTurn

datatype ProvisioningPhase =
    Injecting
  | ToolsWaiting
  | ToolsReady
  | Degraded string
  | LoadFailed string

datatype NoticeLevel = Info | Warning

datatype ItemKind = Text | Thinking | ToolItem | Image

record TruncationInfo =
  ti_kind :: TruncationKind
  ti_partial_text :: "string option"

record FinalizedMessage =
  fm_item_id :: string
  fm_kind :: ItemKind
  fm_content :: string
  fm_truncation :: "TruncationInfo option"
  fm_seq :: u64

record CheckpointEntry =
  ce_id :: string
  ce_label :: "string option"
  ce_turn_gen :: "u64 option"

record ContextUsageCategory =
  cu_name :: string
  cu_tokens :: u64

record ContextUsage =
  cu_used :: u64
  cu_max :: u64
  cu_categories :: "ContextUsageCategory list"

record ExitStatusLite =
  exit_code :: "int option"
  exit_signal :: "int option"

datatype Outcome = Crashed | CleanNoResult | FollowResult

datatype WorkflowLoopState = Start | Progress | Done

record SlashCommandInfo =
  sc_name :: string
  sc_description :: "string option"

record ModelInfo =
  mi_id :: string
  mi_name :: string
  mi_description :: "string option"
  mi_reasoning_efforts :: "string list"

record ModeInfo =
  mo_id :: string
  mo_name :: string
  mo_description :: "string option"

section \<open>Session events\<close>

datatype 'j SessionEvent =
    TurnStarted u64
  | Cancel
  | MessageDelta string string
  | ThoughtDelta string string
  | ToolCall string string SubagentKind 'j "string option"
  | ToolResult string bool "ToolResultContent list" "string option"
  | Heartbeat
  | TurnResult bool "u16 option" string u64 TurnOutcome
  | Detached "ExitStatusLite option" "string option"
  | AdapterSpecific string 'j
  | Plan "PlanEntry list" "string option"
  | Permission string PermissionKind "'j option" "string option" "'j option"
  | PermissionResolved string PermissionKind
  | PromptAccepted string
  | UsageDelta u64 u64 u64 "u64 option"
  | Provisioning ProvisioningPhase
  | Rewound u64
  | ConfigChanged "string option" "string option"
  | CatalogUpdated "ModelInfo list" "ModeInfo list" "SlashCommandInfo list"
  | SubagentUpdate string "string option" SubagentStatus "string option"
  | SubagentDetail string "string option" "string option" "WorkflowLoopState option"
      "string option" "u64 option" "u64 option" "string option"
  | Notice NoticeLevel string
  | ToolOutputDelta string string
  | TurnDiffUpdated string
  | ItemStarted string ItemKind
  | ItemCompleted string "TruncationInfo option"
  | MessageFinalized FinalizedMessage
  | Snapshot string u64
  | Lagged u64
  | BackendSuspended
  | CheckpointList "CheckpointEntry list"
  | SessionInfo "ContextUsage option" "string option"
  | BackendBound "string option"

section \<open>Persistence classes\<close>

datatype EventClass = BackendProduced | OrchestrationLowered

definition classify :: "'j SessionEvent \<Rightarrow> EventClass" where
  "classify ev = (case ev of
     TurnStarted _ \<Rightarrow> OrchestrationLowered
   | Cancel \<Rightarrow> OrchestrationLowered
   | Heartbeat \<Rightarrow> OrchestrationLowered
   | Snapshot _ _ \<Rightarrow> OrchestrationLowered
   | Lagged _ \<Rightarrow> OrchestrationLowered
   | BackendBound _ \<Rightarrow> OrchestrationLowered
   | BackendSuspended \<Rightarrow> OrchestrationLowered
   | _ \<Rightarrow> BackendProduced)"

datatype PersistTier = Ephemeral | Display | State | DisplayAndState

definition is_raw_timing :: "string \<Rightarrow> bool" where
  "is_raw_timing tag \<longleftrightarrow> tag = ''ttft_ms'' \<or> tag = ''elapsed'' \<or> tag = ''latency''"

definition persist_tier :: "'j SessionEvent \<Rightarrow> PersistTier" where
  "persist_tier ev = (case classify ev of
     OrchestrationLowered \<Rightarrow> Ephemeral
   | BackendProduced \<Rightarrow> (case ev of
       MessageDelta _ _ \<Rightarrow> Ephemeral
     | ThoughtDelta _ _ \<Rightarrow> Ephemeral
     | ToolOutputDelta _ _ \<Rightarrow> Ephemeral
     | TurnDiffUpdated _ \<Rightarrow> Ephemeral
     | ItemStarted _ _ \<Rightarrow> Ephemeral
     | ItemCompleted _ _ \<Rightarrow> Ephemeral
     | CheckpointList _ \<Rightarrow> Ephemeral
     | CatalogUpdated _ _ _ \<Rightarrow> Ephemeral
     | SessionInfo _ _ \<Rightarrow> Ephemeral
     | SubagentDetail _ _ _ _ _ _ _ _ \<Rightarrow> Ephemeral
     | Plan _ _ \<Rightarrow> Ephemeral
     | ToolCall _ _ _ _ _ \<Rightarrow> Display
     | ToolResult _ _ _ _ \<Rightarrow> Display
     | UsageDelta _ _ _ _ \<Rightarrow> Display
     | Provisioning _ \<Rightarrow> Display
     | ConfigChanged _ _ \<Rightarrow> Display
     | Notice _ _ \<Rightarrow> Display
     | MessageFinalized _ \<Rightarrow> Display
     | TurnResult _ _ _ _ _ \<Rightarrow> DisplayAndState
     | Permission _ _ _ _ _ \<Rightarrow> DisplayAndState
     | PermissionResolved _ _ \<Rightarrow> DisplayAndState
     | Detached _ _ \<Rightarrow> DisplayAndState
     | PromptAccepted _ \<Rightarrow> DisplayAndState
     | SubagentUpdate _ _ _ _ \<Rightarrow> DisplayAndState
     | Rewound _ \<Rightarrow> State
     | AdapterSpecific tag _ \<Rightarrow> if is_raw_timing tag then Ephemeral else Display
     | TurnStarted _ \<Rightarrow> Ephemeral
     | Cancel \<Rightarrow> Ephemeral
     | Heartbeat \<Rightarrow> Ephemeral
     | Snapshot _ _ \<Rightarrow> Ephemeral
     | Lagged _ \<Rightarrow> Ephemeral
     | BackendBound _ \<Rightarrow> Ephemeral
     | BackendSuspended \<Rightarrow> Ephemeral))"

end
