(* ===== verification/Session_State.thy ===== *)
theory Session_State
  imports Session_Event
begin

text \<open>
  The server-authoritative session state (\<open>tjuaeui-session/src/state.rs\<close>): the four-variant
  state machine state, the ref-counted requires-action set, the two rosters' entries, and the
  derived views the user interface reads (\<open>can_send_message\<close>, \<open>can_queue_message\<close>,
  \<open>can_cancel\<close>, \<open>is_requires_action\<close>, \<open>has_foreground_activity\<close>, \<open>background_active\<close>) with
  their truth tables.
\<close>

section \<open>State\<close>

record RequiresActionSet =
  waiting_on_approval :: u32
  waiting_on_auth :: u32

definition no_requires_action :: RequiresActionSet where
  "no_requires_action = \<lparr>waiting_on_approval = 0, waiting_on_auth = 0\<rparr>"

record SubagentState =
  sa_ref :: string
  sa_label :: "string option"
  sa_status :: SubagentStatus
  sa_parent_ref :: "string option"

datatype ErrorReason = Crashed | EmptyTurn | Backend "u16 option" string

datatype SessionState =
    Starting
  | Running (since_epoch: u64) (saw_substantive_output: bool) (terminal_result_seen: bool)
      (requires_action: RequiresActionSet) (subagents: "SubagentState list")
  | Error ErrorReason
  | Idle

datatype WorkflowTaskStatus = Running | Completed | Failed | Stopped

definition workflow_is_terminal :: "WorkflowTaskStatus \<Rightarrow> bool" where
  "workflow_is_terminal s \<longleftrightarrow> s \<noteq> WorkflowTaskStatus.Running"

record WorkflowAgentState =
  wa_ref_id :: string
  wa_task_status :: WorkflowTaskStatus
  wa_has_lifecycle :: bool
  wa_retain :: "bool option"
  wa_label :: "string option"
  wa_state :: "WorkflowLoopState option"
  wa_model :: "string option"
  wa_last_tool_name :: "string option"
  wa_tokens :: "u64 option"
  wa_tool_calls :: "u64 option"

type_synonym workflow_roster = "(string \<times> WorkflowAgentState) list"

section \<open>Derived views\<close>

definition background_active :: "workflow_roster \<Rightarrow> bool" where
  "background_active roster \<longleftrightarrow>
     list_ex (\<lambda>w. wa_has_lifecycle w \<and> \<not> workflow_is_terminal (wa_task_status w)) (map snd roster)"

definition can_send_message :: "SessionState \<Rightarrow> bool" where
  "can_send_message st \<longleftrightarrow> st = Idle"

definition is_requires_action :: "SessionState \<Rightarrow> bool" where
  "is_requires_action st \<longleftrightarrow> (case st of
     SessionState.Running _ _ _ ra _ \<Rightarrow> waiting_on_approval ra > 0 \<or> waiting_on_auth ra > 0
   | _ \<Rightarrow> False)"

definition can_queue_message :: "SessionState \<Rightarrow> bool \<Rightarrow> bool" where
  "can_queue_message st accepts_proactive_input \<longleftrightarrow>
     accepts_proactive_input \<and> is_Running st \<and> \<not> is_requires_action st"

definition can_cancel :: "SessionState \<Rightarrow> bool" where
  "can_cancel st \<longleftrightarrow> st = Starting \<or> is_Running st"

definition any_subagent_active :: "SubagentState list \<Rightarrow> bool" where
  "any_subagent_active subs \<longleftrightarrow>
     list_ex (\<lambda>s. sa_status s = PendingInit \<or> sa_status s = SubagentStatus.Running) subs"

definition has_foreground_activity :: "SessionState \<Rightarrow> bool" where
  "has_foreground_activity st \<longleftrightarrow> (case st of
     Starting \<Rightarrow> True
   | SessionState.Running _ _ _ _ subs \<Rightarrow> \<not> is_requires_action st \<or> any_subagent_active subs
   | Error _ \<Rightarrow> False
   | Idle \<Rightarrow> False)"

section \<open>Unrecoverable resume errors\<close>

definition is_unrecoverable_resume_error :: "ErrorReason \<Rightarrow> bool" where
  "is_unrecoverable_resume_error reason \<longleftrightarrow> (case reason of
     Backend _ message \<Rightarrow>
       contains message ''No conversation found'' \<or> contains message ''error_during_execution'' \<or>
       contains message ''no rollout found for thread id'' \<or> contains message ''thread not found:''
   | _ \<Rightarrow> False)"

section \<open>Truth tables\<close>

lemma requires_action_Running [view_simps]:
  "is_requires_action (SessionState.Running e saw seen ra subs) \<longleftrightarrow>
     waiting_on_approval ra \<noteq> 0 \<or> waiting_on_auth ra \<noteq> 0"
  by (auto simp: is_requires_action_def word_neq_0_conv)

lemma requires_action_others [view_simps]:
  "\<not> is_requires_action Starting" "\<not> is_requires_action (Error r)" "\<not> is_requires_action Idle"
  by (simp_all add: is_requires_action_def)

lemma foreground_activity_cases [view_simps]:
  "has_foreground_activity Starting"
  "has_foreground_activity (SessionState.Running e saw seen ra subs) \<longleftrightarrow>
     (waiting_on_approval ra = 0 \<and> waiting_on_auth ra = 0) \<or> any_subagent_active subs"
  "\<not> has_foreground_activity (Error r)"
  "\<not> has_foreground_activity Idle"
  by (auto simp: has_foreground_activity_def requires_action_Running)

lemma any_subagent_active_iff:
  "any_subagent_active subs \<longleftrightarrow> (\<exists>s \<in> set subs. \<not> subagent_is_terminal (sa_status s))"
proof -
  have "(st = PendingInit \<or> st = SubagentStatus.Running) \<longleftrightarrow> \<not> subagent_is_terminal st" for st
    by (cases st) (simp_all add: subagent_is_terminal_def)
  then show ?thesis by (simp add: any_subagent_active_def list_ex_iff)
qed

end
