(* ===== verification/Session_Reducer.thy ===== *)
theory Session_Reducer
  imports Session_State
begin

text \<open>
  The pure session reducer (\<open>tjuaeui-session/src/reducer.rs\<close>): \<open>step\<close> with one definition
  per arm of the source's \<open>match\<close>, in the source's order, and \<open>crash_outcome\<close>. The lemmas
  show when a step emits a \<open>Transition\<close>, that the terminal states absorb everything but a
  new turn, the epoch guards, the output-presence rule, the reference counting of pending
  permissions, and the roster of subagents.
\<close>

section \<open>Transitions\<close>

record Transition =
  tr_from :: SessionState
  tr_to :: SessionState
  tr_epoch :: u64

datatype ExternalPhase = StartingPhase | RunningPhase | RequiresActionPhase | ErrorPhase | IdlePhase

definition external_phase :: "SessionState \<Rightarrow> ExternalPhase" where
  "external_phase s = (case s of
     Starting \<Rightarrow> StartingPhase
   | SessionState.Running _ _ _ _ _ \<Rightarrow>
       if is_requires_action s then RequiresActionPhase else RunningPhase
   | Error _ \<Rightarrow> ErrorPhase
   | Idle \<Rightarrow> IdlePhase)"

definition settle ::
  "SessionState \<Rightarrow> SessionState \<Rightarrow> u64 \<Rightarrow> SessionState \<times> Transition list" where
  "settle from to epoch =
     (to, if external_phase from \<noteq> external_phase to
          then [\<lparr>tr_from = from, tr_to = to, tr_epoch = epoch\<rparr>] else [])"

definition anchor_epoch :: "SessionState \<Rightarrow> u64" where
  "anchor_epoch s = (case s of SessionState.Running e _ _ _ _ \<Rightarrow> e | _ \<Rightarrow> 0)"

section \<open>The arms of the reducer\<close>

definition crash_outcome :: "bool \<Rightarrow> ExitStatusLite option \<Rightarrow> Outcome" where
  "crash_outcome result_seen exit =
     (if result_seen then FollowResult
      else case exit of
        Some e \<Rightarrow>
          if exit_code e = Some 0 \<and> exit_signal e = None then CleanNoResult else Outcome.Crashed
      | None \<Rightarrow> Outcome.Crashed)"

definition step_turn_started :: "SessionState \<Rightarrow> u64 \<Rightarrow> SessionState \<times> Transition list" where
  "step_turn_started st epoch =
     (if (case st of SessionState.Running e _ _ _ _ \<Rightarrow> epoch \<le> e | _ \<Rightarrow> False)
      then (st, [])
      else settle st (SessionState.Running epoch False False no_requires_action []) epoch)"

definition step_starting :: "SessionState \<Rightarrow> 'j SessionEvent \<Rightarrow> SessionState \<times> Transition list" where
  "step_starting st ev = (case ev of
     Detached _ _ \<Rightarrow> settle st (Error ErrorReason.Crashed) (anchor_epoch st)
   | TurnResult is_error status text _ _ \<Rightarrow>
       if is_error then settle st (Error (Backend status text)) (anchor_epoch st) else (st, [])
   | _ \<Rightarrow> (st, []))"

definition mark_substantive :: "SessionState \<Rightarrow> SessionState" where
  "mark_substantive st = (case st of
     SessionState.Running e _ seen ra subs \<Rightarrow> SessionState.Running e True seen ra subs
   | _ \<Rightarrow> st)"

definition step_turn_result ::
  "SessionState \<Rightarrow> bool \<Rightarrow> u16 option \<Rightarrow> string \<Rightarrow> u64 \<Rightarrow> TurnOutcome \<Rightarrow>
   SessionState \<times> Transition list" where
  "step_turn_result st is_error status text result_epoch outcome =
     (if (case st of SessionState.Running e _ _ _ _ \<Rightarrow> result_epoch \<noteq> 0 \<and> result_epoch < e
          | _ \<Rightarrow> False)
      then (st, [])
      else
        let saw = (case st of SessionState.Running _ saw _ _ _ \<Rightarrow> saw | _ \<Rightarrow> False);
            refused = (case outcome of
              TurnOutcome.Completed (Refused _) \<Rightarrow> True
            | _ \<Rightarrow> False);
            to = (if is_error then Error (Backend status text)
                  else if \<not> saw \<and> text = [] \<and> \<not> refused then Error EmptyTurn
                  else Idle)
        in settle st to (anchor_epoch st))"

definition step_detached ::
  "SessionState \<Rightarrow> ExitStatusLite option \<Rightarrow> SessionState \<times> Transition list" where
  "step_detached st exit =
     (let seen = (case st of SessionState.Running _ _ seen _ _ \<Rightarrow> seen | _ \<Rightarrow> False)
      in case crash_outcome seen exit of
           Outcome.Crashed \<Rightarrow> settle st (Error ErrorReason.Crashed) (anchor_epoch st)
         | CleanNoResult \<Rightarrow> settle st (Error EmptyTurn) (anchor_epoch st)
         | FollowResult \<Rightarrow> (st, []))"

definition bump_action ::
  "(u32 \<Rightarrow> u32) \<Rightarrow> PermissionKind \<Rightarrow> RequiresActionSet \<Rightarrow> RequiresActionSet" where
  "bump_action f kind ra = (case kind of
     Tool \<Rightarrow> ra\<lparr>waiting_on_approval := f (waiting_on_approval ra)\<rparr>
   | Auth \<Rightarrow> ra\<lparr>waiting_on_auth := f (waiting_on_auth ra)\<rparr>)"

definition map_requires_action ::
  "(RequiresActionSet \<Rightarrow> RequiresActionSet) \<Rightarrow> SessionState \<Rightarrow> SessionState" where
  "map_requires_action f st = (case st of
     SessionState.Running e saw seen ra subs \<Rightarrow> SessionState.Running e saw seen (f ra) subs
   | _ \<Rightarrow> st)"

definition step_permission ::
  "SessionState \<Rightarrow> PermissionKind \<Rightarrow> SessionState \<times> Transition list" where
  "step_permission st kind =
     settle st (map_requires_action (bump_action sat_inc kind) st) (anchor_epoch st)"

definition step_permission_resolved ::
  "SessionState \<Rightarrow> PermissionKind \<Rightarrow> SessionState \<times> Transition list" where
  "step_permission_resolved st kind =
     settle st (map_requires_action (bump_action sat_dec kind) st) (anchor_epoch st)"

primrec upsert_subagent :: "SubagentState \<Rightarrow> SubagentState list \<Rightarrow> SubagentState list" where
  "upsert_subagent new [] = [new]"
| "upsert_subagent new (s # ss) =
     (if sa_ref s = sa_ref new then
        (if subagent_is_terminal (sa_status s) \<and> \<not> subagent_is_terminal (sa_status new)
         then s else new) # ss
      else s # upsert_subagent new ss)"

definition step_subagent_update ::
  "SessionState \<Rightarrow> string \<Rightarrow> string option \<Rightarrow> SubagentStatus \<Rightarrow> string option \<Rightarrow>
   SessionState \<times> Transition list" where
  "step_subagent_update st ref label status parent = (case st of
     SessionState.Running e saw seen ra subs \<Rightarrow>
       (SessionState.Running e saw seen ra
          (upsert_subagent
             \<lparr>sa_ref = ref, sa_label = label, sa_status = status, sa_parent_ref = parent\<rparr> subs), [])
   | _ \<Rightarrow> (st, []))"

definition step_running :: "SessionState \<Rightarrow> 'j SessionEvent \<Rightarrow> SessionState \<times> Transition list" where
  "step_running st ev = (case ev of
     MessageDelta _ text \<Rightarrow> (if text \<noteq> [] then mark_substantive st else st, [])
   | ToolResult _ _ _ _ \<Rightarrow> (mark_substantive st, [])
   | TurnResult is_error status text epoch outcome \<Rightarrow>
       step_turn_result st is_error status text epoch outcome
   | Detached exit _ \<Rightarrow> step_detached st exit
   | Permission _ kind _ _ _ \<Rightarrow> step_permission st kind
   | PermissionResolved _ kind \<Rightarrow> step_permission_resolved st kind
   | SubagentUpdate ref label status parent \<Rightarrow> step_subagent_update st ref label status parent
   | _ \<Rightarrow> (st, []))"

definition is_settled :: "SessionState \<Rightarrow> bool" where
  "is_settled st \<longleftrightarrow> (case st of Idle \<Rightarrow> True | Error _ \<Rightarrow> True | _ \<Rightarrow> False)"

definition step :: "SessionState \<Rightarrow> 'j SessionEvent \<Rightarrow> SessionState \<times> Transition list" where
  "step st ev = (case ev of
     TurnStarted epoch \<Rightarrow> step_turn_started st epoch
   | _ \<Rightarrow>
       if is_settled st then (st, [])
       else (case ev of
         Cancel \<Rightarrow> settle st Idle (anchor_epoch st)
       | _ \<Rightarrow> if st = Starting then step_starting st ev else step_running st ev))"

text \<open>The state after a sequence of events, with the transitions dropped.\<close>

definition step_list :: "SessionState \<Rightarrow> 'j SessionEvent list \<Rightarrow> SessionState" where
  "step_list st evs = foldl (\<lambda>s ev. fst (step s ev)) st evs"

section \<open>Facts about single steps\<close>

lemmas step_arms = step_turn_started_def step_starting_def step_turn_result_def step_detached_def
  step_permission_def step_permission_resolved_def step_subagent_update_def step_running_def

lemma step_TurnStarted: "step st (TurnStarted e) = step_turn_started st e"
  by (simp add: step_def)

lemma step_Idle: "(\<forall>e. ev \<noteq> TurnStarted e) \<Longrightarrow> step Idle ev = (Idle, [])"
  by (cases ev) (simp_all add: step_def is_settled_def)

lemma step_Error: "(\<forall>e. ev \<noteq> TurnStarted e) \<Longrightarrow> step (Error r) ev = (Error r, [])"
  by (cases ev) (simp_all add: step_def is_settled_def)

lemma step_Cancel: "\<not> is_settled st \<Longrightarrow> step st Cancel = settle st Idle (anchor_epoch st)"
  by (simp add: step_def)

lemma step_Starting:
  "(\<forall>e. ev \<noteq> TurnStarted e) \<Longrightarrow> ev \<noteq> Cancel \<Longrightarrow> step Starting ev = step_starting Starting ev"
  by (cases ev) (simp_all add: step_def is_settled_def)

lemma step_Running:
  "(\<forall>e. ev \<noteq> TurnStarted e) \<Longrightarrow> ev \<noteq> Cancel \<Longrightarrow>
   step (SessionState.Running e saw seen ra subs) ev =
     step_running (SessionState.Running e saw seen ra subs) ev"
  by (cases ev) (simp_all add: step_def is_settled_def)

lemma external_phase_cases [view_simps]:
  "external_phase Starting = StartingPhase"
  "external_phase (SessionState.Running e saw seen ra subs) =
     (if waiting_on_approval ra \<noteq> 0 \<or> waiting_on_auth ra \<noteq> 0
      then RequiresActionPhase else RunningPhase)"
  "external_phase (Error r) = ErrorPhase"
  "external_phase Idle = IdlePhase"
  by (simp_all add: external_phase_def requires_action_Running)

definition broadcasts :: "SessionState \<Rightarrow> u64 \<Rightarrow> SessionState \<times> Transition list \<Rightarrow> bool" where
  "broadcasts st epoch r \<longleftrightarrow> r = settle st (fst r) epoch"

lemma broadcasts_settle [simp]: "broadcasts st epoch (settle st to epoch)"
  by (simp add: broadcasts_def settle_def)

lemma broadcasts_silent: "external_phase st = external_phase to \<Longrightarrow> broadcasts st epoch (to, [])"
  by (simp add: broadcasts_def settle_def)

lemma mark_substantive_phase [view_simps]: "external_phase (mark_substantive st) = external_phase st"
  by (cases st) (simp_all add: mark_substantive_def view_simps)

lemma step_broadcasts_running:
  "broadcasts st (anchor_epoch st) (step_running st ev)"
proof (cases ev)
  case (TurnResult b s t e out)
  then show ?thesis
    by (simp add: step_running_def step_turn_result_def Let_def broadcasts_silent)
next
  case (Detached exit s)
  then show ?thesis
    by (simp add: step_running_def step_detached_def Let_def broadcasts_silent split: Outcome.split)
next
  case (SubagentUpdate r l s p)
  then show ?thesis
    by (cases st) (simp_all add: step_running_def step_subagent_update_def broadcasts_silent view_simps)
qed (simp_all add: step_running_def step_permission_def step_permission_resolved_def
       broadcasts_silent view_simps)

lemma step_broadcasts_starting:
  "broadcasts st (anchor_epoch st) (step_starting st ev)"
  by (cases ev) (simp_all add: step_starting_def broadcasts_silent)

lemma step_broadcasts_turn_started: "broadcasts st e (step_turn_started st e)"
  by (simp add: step_turn_started_def broadcasts_silent)

lemma step_settles:
  "step st ev = settle st (fst (step st ev))
     (case ev of TurnStarted e \<Rightarrow> e | _ \<Rightarrow> anchor_epoch st)"
proof (cases "\<exists>e. ev = TurnStarted e")
  case True
  then obtain e where ev: "ev = TurnStarted e" by blast
  show ?thesis
    using step_broadcasts_turn_started [of st e]
    unfolding ev step_TurnStarted broadcasts_def by simp
next
  case False
  have "broadcasts st (anchor_epoch st) (step st ev)"
  proof (cases "is_settled st \<or> ev = Cancel")
    case True
    with False show ?thesis by (cases ev) (auto simp: step_def broadcasts_silent)
  next
    case ns: False
    with False have "step st ev = (if st = Starting then step_starting st ev else step_running st ev)"
      by (cases ev) (simp_all add: step_def)
    then show ?thesis by (simp add: step_broadcasts_running step_broadcasts_starting)
  qed
  moreover from False have "(case ev of TurnStarted e \<Rightarrow> e | _ \<Rightarrow> anchor_epoch st) = anchor_epoch st"
    by (cases ev) simp_all
  ultimately show ?thesis unfolding broadcasts_def by simp
qed

lemma step_broadcasts:
  "snd (step st ev) =
     (if external_phase st \<noteq> external_phase (fst (step st ev))
      then [\<lparr>tr_from = st, tr_to = fst (step st ev),
             tr_epoch = (case ev of TurnStarted e \<Rightarrow> e | _ \<Rightarrow> anchor_epoch st)\<rparr>]
      else [])"
proof -
  have "snd (step st ev) = snd (settle st (fst (step st ev))
      (case ev of TurnStarted e \<Rightarrow> e | _ \<Rightarrow> anchor_epoch st))"
    by (rule arg_cong [where f = snd, OF step_settles])
  then show ?thesis by (simp only: settle_def snd_conv)
qed

lemma step_terminal_absorbing:
  assumes "is_settled st" and "\<forall>e. ev \<noteq> TurnStarted e"
  shows "step st ev = (st, [])"
  using assms by (cases ev) (simp_all add: step_def)

lemma step_list_Nil [simp]: "step_list st [] = st"
  by (simp add: step_list_def)

lemma step_list_Cons [simp]: "step_list st (ev # evs) = step_list (fst (step st ev)) evs"
  by (simp add: step_list_def)

lemma step_list_append [simp]: "step_list st (xs @ ys) = step_list (step_list st xs) ys"
  by (simp add: step_list_def)

lemma step_list_settled:
  "is_settled st \<Longrightarrow> (\<And>e. TurnStarted e \<notin> set evs) \<Longrightarrow> step_list st evs = st"
proof (induction evs)
  case (Cons ev evs)
  then have "fst (step st ev) = st"
    by (cases ev) (auto simp: step_def)
  with Cons show ?case by simp
qed simp

lemma turn_result_settles:
  assumes "result_epoch = 0 \<or> e \<le> result_epoch"
  shows "fst (step (SessionState.Running e saw seen ra subs)
           (TurnResult is_error status text result_epoch outcome)) =
     (if is_error then Error (Backend status text)
      else if saw \<or> text \<noteq> [] \<or> (\<exists>cat. outcome = TurnOutcome.Completed (Refused cat)) then Idle
      else Error EmptyTurn)"
proof -
  have "(case outcome of TurnOutcome.Completed (Refused _) \<Rightarrow> True | _ \<Rightarrow> False) \<longleftrightarrow>
      (\<exists>cat. outcome = TurnOutcome.Completed (Refused cat))"
    by (auto split: TurnOutcome.split StopReason.split)
  moreover from assms have "\<not> (result_epoch \<noteq> 0 \<and> result_epoch < e)" by auto
  ultimately show ?thesis
    by (auto simp: step_Running step_running_def step_turn_result_def settle_def Let_def)
qed

lemma stale_result_dropped:
  assumes "result_epoch \<noteq> 0" and "result_epoch < e"
  shows "step (SessionState.Running e saw seen ra subs)
           (TurnResult is_error status text result_epoch outcome) =
         (SessionState.Running e saw seen ra subs, [])"
  using assms by (simp add: step_Running step_running_def step_turn_result_def)

lemma map_requires_action_Running [view_simps]:
  "map_requires_action f (SessionState.Running e saw seen ra subs) =
     SessionState.Running e saw seen (f ra) subs"
  by (simp add: map_requires_action_def)

lemma mark_substantive_Running [view_simps]:
  "mark_substantive (SessionState.Running e saw seen ra subs) = SessionState.Running e True seen ra subs"
  by (simp add: mark_substantive_def)

text \<open>what a step can do to a running turn\<close>
lemma step_from_Running:
  assumes "fst (step (SessionState.Running e saw seen ra subs) ev) = SessionState.Running e' saw' seen' ra' subs'"
  shows "(e' = e \<and> (saw \<longrightarrow> saw') \<and> seen' = seen) \<or> (ev = TurnStarted e' \<and> e < e' \<and> \<not> saw' \<and> \<not> seen' \<and>
     ra' = no_requires_action \<and> subs' = [])"
proof (cases ev)
  case (TurnResult b s t re out)
  with assms show ?thesis
    by (auto simp: step_Running step_running_def step_turn_result_def settle_def Let_def split: if_splits)
next
  case (Detached x s)
  with assms show ?thesis
    by (auto simp: step_Running step_running_def step_detached_def settle_def split: if_splits Outcome.splits)
next
  case (TurnStarted x)
  with assms show ?thesis
    by (auto simp: step_TurnStarted step_turn_started_def settle_def split: if_splits)
next
  case Cancel
  with assms show ?thesis by (simp add: step_def is_settled_def settle_def)
qed (use assms in \<open>auto simp: step_Running step_running_def step_permission_def step_permission_resolved_def
       step_subagent_update_def settle_def view_simps split: if_splits\<close>)

lemma step_to_Running:
  assumes "fst (step st ev) = SessionState.Running e' saw' seen' ra' subs'" and "\<not> is_Running st"
  shows "ev = TurnStarted e' \<and> \<not> saw' \<and> \<not> seen'"
proof (cases "\<exists>x. ev = TurnStarted x")
  case True
  with assms show ?thesis
    by (cases st) (auto simp: step_TurnStarted step_turn_started_def settle_def)
next
  case False
  then have "\<not> is_Running (fst (step st ev))"
    using assms(2)
    by (cases st; cases ev) (simp_all add: step_def is_settled_def step_starting_def settle_def)
  with assms(1) show ?thesis by simp
qed

text \<open>The result flag is never set\<close>
lemma terminal_result_never_seen_step:
  assumes "\<not> (is_Running st \<and> terminal_result_seen st)"
  shows "\<not> (is_Running (fst (step st ev)) \<and> terminal_result_seen (fst (step st ev)))"
proof
  assume *: "is_Running (fst (step st ev)) \<and> terminal_result_seen (fst (step st ev))"
  then obtain e' saw' ra' subs' where eq: "fst (step st ev) = SessionState.Running e' saw' True ra' subs'"
    by (cases "fst (step st ev)") auto
  show False
  proof (cases "is_Running st")
    case True
    then obtain e saw seen ra subs where st: "st = SessionState.Running e saw seen ra subs"
      by (cases st) auto
    from step_from_Running [OF eq [unfolded st]] assms st show False by auto
  next
    case False
    from step_to_Running [OF eq False] show False by simp
  qed
qed

lemma terminal_result_never_seen:
  "\<not> (is_Running st \<and> terminal_result_seen st) \<Longrightarrow>
   \<not> (is_Running (step_list st evs) \<and> terminal_result_seen (step_list st evs))"
proof (induction evs arbitrary: st)
  case (Cons ev evs)
  show ?case
    unfolding step_list_Cons by (intro Cons.IH terminal_result_never_seen_step Cons.prems)
qed simp

lemma step_Detached_unsettled:
  assumes "\<not> is_settled st" and "\<not> (is_Running st \<and> terminal_result_seen st)"
  shows "fst (step st (Detached exit summary)) =
    (if is_Running st \<and> (\<exists>x. exit = Some x \<and> exit_code x = Some 0 \<and> exit_signal x = None)
     then Error EmptyTurn else Error ErrorReason.Crashed)"
  using assms
  by (cases st; cases exit)
     (auto simp: step_Running step_Starting step_starting_def step_running_def step_detached_def
        crash_outcome_def settle_def is_settled_def)

lemma step_not_Starting: "st \<noteq> Starting \<Longrightarrow> fst (step st ev) \<noteq> Starting"
  by (cases st; cases ev)
     (simp_all add: step_def is_settled_def step_turn_started_def step_running_def step_turn_result_def
        step_detached_def step_permission_def step_permission_resolved_def step_subagent_update_def
        settle_def Let_def view_simps split: Outcome.split)

lemma step_list_not_Starting: "st \<noteq> Starting \<Longrightarrow> step_list st evs \<noteq> Starting"
  by (induction evs arbitrary: st) (simp_all add: step_not_Starting)

section \<open>Permissions\<close>

definition pending :: "PermissionKind \<Rightarrow> RequiresActionSet \<Rightarrow> u32" where
  "pending kind ra = (case kind of Tool \<Rightarrow> waiting_on_approval ra | Auth \<Rightarrow> waiting_on_auth ra)"

lemma pending_bump: "pending k (bump_action f k ra) = f (pending k ra)"
  by (cases k) (simp_all add: pending_def bump_action_def)

lemma step_Permission:
  "fst (step (SessionState.Running e saw seen ra subs) (Permission r k m t i)) =
     SessionState.Running e saw seen (bump_action sat_inc k ra) subs"
  by (simp add: step_Running step_running_def step_permission_def settle_def view_simps)

lemma step_PermissionResolved:
  "fst (step (SessionState.Running e saw seen ra subs) (PermissionResolved r k)) =
     SessionState.Running e saw seen (bump_action sat_dec k ra) subs"
  by (simp add: step_Running step_running_def step_permission_resolved_def settle_def view_simps)

lemma step_list_permissions:
  "step_list (SessionState.Running e saw seen ra subs) (replicate n (Permission r k m t i)) =
     SessionState.Running e saw seen (((bump_action sat_inc k) ^^ n) ra) subs"
  by (induction n arbitrary: ra) (simp_all add: step_Permission funpow_swap1)

lemma step_list_resolved:
  "step_list (SessionState.Running e saw seen ra subs) (replicate n (PermissionResolved r k)) =
     SessionState.Running e saw seen (((bump_action sat_dec k) ^^ n) ra) subs"
  by (induction n arbitrary: ra) (simp_all add: step_PermissionResolved funpow_swap1)

lemma bump_dec_inc: "pending k ra \<noteq> - 1 \<Longrightarrow> bump_action sat_dec k (bump_action sat_inc k ra) = ra"
  by (cases k) (simp_all add: bump_action_def pending_def sat_dec_inc)

lemma unat_pending_incs:
  "unat (pending k ra) + n < 2 ^ 32 \<Longrightarrow>
   unat (pending k (((bump_action sat_inc k) ^^ n) ra)) = unat (pending k ra) + n"
  by (induction n) (simp_all add: pending_bump unat_sat_inc)

lemma bump_dec_incs:
  assumes "unat (pending k ra) + n < 2 ^ 32" and "j \<le> n"
  shows "((bump_action sat_dec k) ^^ j) (((bump_action sat_inc k) ^^ n) ra) = ((bump_action sat_inc k) ^^ (n - j)) ra"
  using assms(2)
proof (induction j)
  case 0
  then show ?case by simp
next
  case (Suc j)
  define m where "m = n - Suc j"
  from Suc.prems have nj: "n - j = Suc m" by (simp add: m_def)
  have lt: "unat (pending k ra) + m < 2 ^ 32 - 1" using assms(1) Suc.prems by (simp add: m_def)
  then have "unat (pending k (((bump_action sat_inc k) ^^ m) ra)) < 2 ^ 32 - 1"
    by (simp add: unat_pending_incs)
  then have "pending k (((bump_action sat_inc k) ^^ m) ra) \<noteq> - 1"
    using unat_max_word [where 'a = 32] by auto
  then show ?case using Suc.IH Suc.prems nj
    by (simp add: bump_dec_inc m_def)
qed

lemma requires_action_pending [view_simps]:
  "is_requires_action (SessionState.Running e saw seen ra subs) \<longleftrightarrow> pending Tool ra \<noteq> 0 \<or> pending Auth ra \<noteq> 0"
  by (simp add: view_simps pending_def)

lemma pending_bump_other: "k' \<noteq> k \<Longrightarrow> pending k' (((bump_action f k) ^^ n) ra) = pending k' ra"
  by (induction n) (cases k; cases k'; simp add: pending_def bump_action_def)+

lemma bump_incs_requires_action:
  assumes "unat (pending k ra) + d < 2 ^ 32"
  shows "is_requires_action (SessionState.Running e saw seen (((bump_action sat_inc k) ^^ d) ra) subs) \<longleftrightarrow>
     0 < d \<or> is_requires_action (SessionState.Running e saw seen ra subs)"
proof -
  have "pending k (((bump_action sat_inc k) ^^ d) ra) \<noteq> 0 \<longleftrightarrow> 0 < d \<or> pending k ra \<noteq> 0"
    using unat_pending_incs [OF assms] by (metis add_is_0 gr0I unat_eq_zero less_irrefl)
  moreover have "pending k' (((bump_action sat_inc k) ^^ d) ra) = pending k' ra" if "k' \<noteq> k" for k'
    using that by (rule pending_bump_other)
  ultimately show ?thesis by (cases k) (auto simp: requires_action_pending simp del: requires_action_Running)
qed

section \<open>The roster of subagents\<close>

definition subagent_status :: "SubagentState list \<Rightarrow> string \<Rightarrow> SubagentStatus option" where
  "subagent_status subs ref = map_option sa_status (find (\<lambda>s. sa_ref s = ref) subs)"

lemma subagent_status_upsert_same:
  "subagent_status (upsert_subagent new subs) (sa_ref new) =
     (case subagent_status subs (sa_ref new) of
        None \<Rightarrow> Some (sa_status new)
      | Some t \<Rightarrow> if subagent_is_terminal t \<and> \<not> subagent_is_terminal (sa_status new) then Some t
                  else Some (sa_status new))"
  by (induction subs) (auto simp: subagent_status_def)

lemma subagent_status_upsert_other:
  "ref \<noteq> sa_ref new \<Longrightarrow> subagent_status (upsert_subagent new subs) ref = subagent_status subs ref"
  by (induction subs) (auto simp: subagent_status_def)

interpretation foreground: absorbing_store subagent_status upsert_subagent sa_ref sa_status
  subagent_is_terminal
  by unfold_locales (simp_all add: subagent_status_upsert_same subagent_status_upsert_other)

lemma upsert_subagent_refs:
  "sa_ref ` set (upsert_subagent new subs) = insert (sa_ref new) (sa_ref ` set subs)"
  by (induction subs) auto

lemma upsert_subagent_distinct:
  "distinct (map sa_ref subs) \<Longrightarrow> distinct (map sa_ref (upsert_subagent new subs))"
proof (induction subs)
  case (Cons s subs)
  then show ?case
    using upsert_subagent_refs [of new subs] by (auto simp: image_iff)
qed simp

definition roster_of :: "SessionState \<Rightarrow> SubagentState list" where
  "roster_of st = (case st of SessionState.Running _ _ _ _ subs \<Rightarrow> subs | _ \<Rightarrow> [])"

lemma roster_of_step:
  "roster_of (fst (step st ev)) = [] \<or> roster_of (fst (step st ev)) = roster_of st \<or>
   (\<exists>new. roster_of (fst (step st ev)) = upsert_subagent new (roster_of st))"
  by (cases st; cases ev)
     (auto simp: step_def is_settled_def step_turn_started_def step_starting_def step_running_def
        step_turn_result_def step_detached_def step_permission_def step_permission_resolved_def
        step_subagent_update_def settle_def Let_def view_simps roster_of_def split: Outcome.split)

lemma roster_refs_distinct:
  "distinct (map sa_ref (roster_of st)) \<Longrightarrow> distinct (map sa_ref (roster_of (step_list st evs)))"
proof (induction evs arbitrary: st)
  case (Cons ev evs)
  then have "distinct (map sa_ref (roster_of (fst (step st ev))))"
    using roster_of_step [of st ev] by (metis distinct.simps(1) list.map(1) upsert_subagent_distinct)
  then show ?case using Cons.IH by simp
qed simp

end
