(* ===== verification/Session_Orchestrator.thy ===== *)
theory Session_Orchestrator
  imports Session_Reducer
begin

text \<open>
  The orchestrator fold loop (\<open>tjuaeui-session/src/backend/orchestrator.rs\<close>) and the seam types
  it carries (\<open>backend/types.rs\<close>). One record holds what the source keeps in the
  \<open>Orchestrator\<close> and in the local variables of \<open>run\<close>: the per-session state machines and
  background rosters, the \<open>latest\<close> and \<open>last_terminal\<close> caches, the queue of lowered
  events, and what was sent on the two broadcast channels, oldest first. A broadcast receiver
  is modelled by what \<open>recv\<close> returns: a value, a lag, or the end of the channel. Logging has
  no model. The receipt a backend's \<open>dispatch\<close> returns, and the debug rendering of a state,
  are arguments.
\<close>

section \<open>Seam types\<close>

record 'j SessionEnvelope =
  env_session_id :: string
  env_turn_gen :: u64
  env_event :: "'j SessionEvent"

datatype TransitionReason =
    Started
  | Completed StopReason
  | Errored ErrorReason
  | Cancelled CancelReason
  | PermissionRequested PermissionKind
  | PermissionResolved

record StateSnapshot =
  sn_session_id :: string
  sn_state :: SessionState
  sn_can_send :: bool
  sn_has_activity :: bool
  sn_can_queue :: bool
  sn_can_cancel :: bool
  sn_turn_gen :: u64
  sn_last_reason :: "TransitionReason option"

datatype Admission = AdmissionStarted | AdmissionQueued | AdmissionNoTurn

record CommandReceipt =
  rc_accepted :: bool
  rc_admission :: Admission
  rc_turn_gen :: u64

datatype BackendError =
    CommandNotSupported string
  | Transport string
  | WorkspaceUnavailable string
  | SessionNotFound string
  | SetupRejected string
  | HandshakeTimeout string

record 'j Orchestrator =
  event_tx :: "'j SessionEnvelope list"
  state_tx :: "StateSnapshot list"
  lowered :: "'j SessionEnvelope list"
  latest :: "string \<Rightarrow> StateSnapshot option"
  last_terminal :: "string \<Rightarrow> (u64 \<times> TransitionReason) option"
  fsms :: "string \<Rightarrow> SessionState option"
  rosters :: "string \<Rightarrow> workflow_roster option"

definition new_orchestrator :: "'j Orchestrator" where
  "new_orchestrator =
     \<lparr>event_tx = [], state_tx = [], lowered = [], latest = Map.empty, last_terminal = Map.empty,
      fsms = Map.empty, rosters = Map.empty\<rparr>"

section \<open>Folding one envelope\<close>

definition restamp_epoch :: "'j SessionEnvelope \<Rightarrow> 'j SessionEnvelope" where
  "restamp_epoch env = (case env_event env of
     TurnResult is_error status text epoch outcome \<Rightarrow>
       if epoch = 0
       then env\<lparr>env_event := TurnResult is_error status text (env_turn_gen env) outcome\<rparr>
       else env
   | _ \<Rightarrow> env)"

definition prune_terminal_subagents_on_boundary :: "SessionState \<Rightarrow> SessionState" where
  "prune_terminal_subagents_on_boundary next = (case next of
     SessionState.Running e saw seen ra subs \<Rightarrow>
       SessionState.Running e saw seen ra
         (filter (\<lambda>s. \<not> (sa_status s = SubagentStatus.Completed \<or>
            sa_status s = SubagentStatus.Errored \<or> sa_status s = SubagentStatus.Shutdown)) subs)
   | _ \<Rightarrow> next)"

definition detail_entry :: "string \<Rightarrow> WorkflowAgentState" where
  "detail_entry ref =
     \<lparr>wa_ref_id = ref, wa_task_status = WorkflowTaskStatus.Running, wa_has_lifecycle = False,
      wa_retain = None, wa_label = None, wa_state = None, wa_model = None,
      wa_last_tool_name = None, wa_tokens = None, wa_tool_calls = None\<rparr>"

text \<open>\<open>if x.is_some() { slot.x = x }\<close>\<close>

definition or_keep :: "'a option \<Rightarrow> 'a option \<Rightarrow> 'a option" where
  "or_keep new old = (case new of None \<Rightarrow> old | Some _ \<Rightarrow> new)"

definition roster_detail ::
  "string \<Rightarrow> string option \<Rightarrow> WorkflowLoopState option \<Rightarrow> string option \<Rightarrow> u64 option \<Rightarrow>
   u64 option \<Rightarrow> string option \<Rightarrow> workflow_roster \<Rightarrow> workflow_roster" where
  "roster_detail ref label loop_state model tokens tool_calls last_tool roster =
     AList.map_entry ref (\<lambda>slot. slot
       \<lparr>wa_label := or_keep label (wa_label slot), wa_state := or_keep loop_state (wa_state slot),
        wa_model := or_keep model (wa_model slot), wa_tokens := or_keep tokens (wa_tokens slot),
        wa_tool_calls := or_keep tool_calls (wa_tool_calls slot),
        wa_last_tool_name := or_keep last_tool (wa_last_tool_name slot)\<rparr>)
       (entry_or_insert ref (detail_entry ref) roster)"

definition task_status_of :: "SubagentStatus \<Rightarrow> WorkflowTaskStatus" where
  "task_status_of s = (case s of
     PendingInit \<Rightarrow> WorkflowTaskStatus.Running
   | SubagentStatus.Running \<Rightarrow> WorkflowTaskStatus.Running
   | SubagentStatus.Completed \<Rightarrow> WorkflowTaskStatus.Completed
   | SubagentStatus.Errored \<Rightarrow> WorkflowTaskStatus.Failed
   | Interrupted \<Rightarrow> Stopped
   | Shutdown \<Rightarrow> Stopped)"

definition roster_upsert ::
  "string \<times> string option \<times> WorkflowTaskStatus \<Rightarrow> workflow_roster \<Rightarrow> workflow_roster" where
  "roster_upsert u roster = (case u of (ref, label, task_status) \<Rightarrow>
     (case map_of roster ref of
        Some slot \<Rightarrow>
          if workflow_is_terminal (wa_task_status slot) \<and> \<not> workflow_is_terminal task_status
          then roster
          else AList.update ref (slot\<lparr>wa_task_status := task_status, wa_has_lifecycle := True,
                 wa_label := or_keep label (wa_label slot)\<rparr>) roster
      | None \<Rightarrow>
          AList.update ref ((detail_entry ref)\<lparr>wa_task_status := task_status,
            wa_has_lifecycle := True, wa_label := label\<rparr>) roster))"

definition update_roster :: "'j SessionEvent \<Rightarrow> workflow_roster \<Rightarrow> workflow_roster" where
  "update_roster ev roster = (case ev of
     SubagentDetail ref _ label loop_state model tokens tool_calls last_tool \<Rightarrow>
       roster_detail ref label loop_state model tokens tool_calls last_tool roster
   | SubagentUpdate ref label status _ \<Rightarrow> roster_upsert (ref, label, task_status_of status) roster
   | _ \<Rightarrow> roster)"

definition fold_roster :: "'j SessionEvent \<Rightarrow> workflow_roster \<Rightarrow> workflow_roster" where
  "fold_roster ev roster = (case ev of
     BackendSuspended \<Rightarrow> []
   | Detached _ _ \<Rightarrow> []
   | _ \<Rightarrow> update_roster ev roster)"

definition derive_reason ::
  "Transition option \<Rightarrow> 'j SessionEvent \<Rightarrow> TransitionReason option" where
  "derive_reason tr ev = (case tr of
     None \<Rightarrow> None
   | Some t \<Rightarrow>
       if is_requires_action (tr_to t) \<and> \<not> is_requires_action (tr_from t) \<and>
          (case ev of Permission _ _ _ _ _ \<Rightarrow> True | _ \<Rightarrow> False)
       then (case ev of Permission _ kind _ _ _ \<Rightarrow> Some (PermissionRequested kind) | _ \<Rightarrow> None)
       else Some (case tr_to t of
           SessionState.Running _ _ _ _ _ \<Rightarrow>
             (case ev of
                SessionEvent.PermissionResolved _ _ \<Rightarrow> TransitionReason.PermissionResolved
              | _ \<Rightarrow> Started)
         | Idle \<Rightarrow>
             (case ev of
                Cancel \<Rightarrow> TransitionReason.Cancelled UserCancel
              | TurnResult _ _ _ _ outcome \<Rightarrow>
                  (case outcome of
                     TurnOutcome.Cancelled reason \<Rightarrow> TransitionReason.Cancelled reason
                   | TurnOutcome.Completed stop_reason \<Rightarrow> TransitionReason.Completed stop_reason
                   | _ \<Rightarrow> TransitionReason.Completed StopReason.EndTurn)
              | _ \<Rightarrow> TransitionReason.Completed StopReason.EndTurn)
         | Error reason \<Rightarrow> Errored reason
         | Starting \<Rightarrow> Started))"

definition fsm_of :: "'j Orchestrator \<Rightarrow> string \<Rightarrow> SessionState" where
  "fsm_of orc sid = (case fsms orc sid of None \<Rightarrow> Idle | Some st \<Rightarrow> st)"

definition session_roster :: "'j Orchestrator \<Rightarrow> string \<Rightarrow> workflow_roster" where
  "session_roster orc sid = (case rosters orc sid of None \<Rightarrow> [] | Some r \<Rightarrow> r)"

definition make_snapshot ::
  "string \<Rightarrow> SessionState \<Rightarrow> bool \<Rightarrow> bool \<Rightarrow> u64 \<Rightarrow> TransitionReason option \<Rightarrow> StateSnapshot" where
  "make_snapshot sid st has_activity accepts_proactive_input turn_gen reason =
     \<lparr>sn_session_id = sid, sn_state = st, sn_can_send = can_send_message st,
      sn_has_activity = has_activity, sn_can_queue = can_queue_message st accepts_proactive_input,
      sn_can_cancel = can_cancel st, sn_turn_gen = turn_gen, sn_last_reason = reason\<rparr>"

text \<open>The last block of \<open>fold_one\<close>: cache, sticky terminal, self-heal, broadcast.\<close>

definition push_snapshot :: "StateSnapshot \<Rightarrow> 'j Orchestrator \<Rightarrow> 'j Orchestrator" where
  "push_snapshot snap orc =
     (let sid = sn_session_id snap; st = sn_state snap; gen = sn_turn_gen snap;
          o1 = orc\<lparr>latest := (latest orc)(sid \<mapsto> snap)\<rparr>;
          o2 = (case sn_last_reason snap of
                  Some reason \<Rightarrow>
                    if is_settled st
                    then o1\<lparr>last_terminal := (last_terminal o1)(sid \<mapsto> (gen, reason))\<rparr> else o1
                | None \<Rightarrow> o1);
          o3 = (case st of
                  Error reason \<Rightarrow>
                    if is_unrecoverable_resume_error reason
                    then o2\<lparr>event_tx := event_tx o2 @
                      [\<lparr>env_session_id = sid, env_turn_gen = gen, env_event = BackendBound None\<rparr>]\<rparr>
                    else o2
                | _ \<Rightarrow> o2)
      in o3\<lparr>state_tx := state_tx o3 @ [snap]\<rparr>)"

definition fold_one ::
  "bool \<Rightarrow> 'j SessionEnvelope \<Rightarrow> 'j Orchestrator \<Rightarrow> 'j Orchestrator" where
  "fold_one accepts_proactive_input env0 orc =
     (let env = restamp_epoch env0; sid = env_session_id env; ev = env_event env;
          roster = session_roster orc sid;
          bg_before = background_active roster;
          roster' = fold_roster ev roster;
          bg_after = background_active roster';
          prev = fsm_of orc sid;
          stepped = step prev ev;
          transitions = snd stepped;
          st = prune_terminal_subagents_on_boundary (fst stepped);
          orc' = orc\<lparr>event_tx := event_tx orc @ [env], rosters := (rosters orc)(sid \<mapsto> roster'),
                 fsms := (fsms orc)(sid \<mapsto> st)\<rparr>;
          has_activity = (has_foreground_activity st \<or> bg_after);
          prev_has_activity = (has_foreground_activity prev \<or> bg_before)
      in if transitions \<noteq> [] \<or> prev_has_activity \<noteq> has_activity
         then push_snapshot (make_snapshot sid st has_activity accepts_proactive_input
                (env_turn_gen env)
                (derive_reason (if transitions = [] then None else Some (last transitions)) ev)) orc'
         else orc')"

section \<open>Commands, reads and subscriptions\<close>

definition send ::
  "BackendError + CommandReceipt \<Rightarrow> string \<Rightarrow> 'j Orchestrator \<Rightarrow>
   (BackendError + CommandReceipt) \<times> 'j Orchestrator" where
  "send dispatched sid orc = (case dispatched of
     Inl e \<Rightarrow> (Inl e, orc)
   | Inr receipt \<Rightarrow>
       (Inr receipt,
        if rc_admission receipt = AdmissionStarted
        then orc\<lparr>lowered := lowered orc @
          [\<lparr>env_session_id = sid, env_turn_gen = rc_turn_gen receipt,
            env_event = TurnStarted (rc_turn_gen receipt)\<rparr>]\<rparr>
        else orc))"

definition cancel ::
  "BackendError + CommandReceipt \<Rightarrow> string \<Rightarrow> 'j Orchestrator \<Rightarrow>
   (BackendError + CommandReceipt) \<times> 'j Orchestrator" where
  "cancel dispatched sid orc = (case dispatched of
     Inl e \<Rightarrow> (Inl e, orc)
   | Inr receipt \<Rightarrow>
       (Inr receipt,
        orc\<lparr>lowered := lowered orc @
          [\<lparr>env_session_id = sid, env_turn_gen = rc_turn_gen receipt, env_event = Cancel\<rparr>]\<rparr>))"

definition latest_snapshot :: "'j Orchestrator \<Rightarrow> string \<Rightarrow> StateSnapshot option" where
  "latest_snapshot orc sid = latest orc sid"

definition latest_terminal :: "'j Orchestrator \<Rightarrow> string \<Rightarrow> (u64 \<times> TransitionReason) option" where
  "latest_terminal orc sid = last_terminal orc sid"

text \<open>What a broadcast receiver's \<open>recv\<close> returns, and what a subscription does with it.\<close>

datatype 'a recv = RecvOk 'a | RecvLagged u64 | RecvClosed

datatype 'a stream_step = Emit 'a | Skip | End

definition subscribe_events_step ::
  "string \<Rightarrow> 'j SessionEnvelope recv \<Rightarrow> 'j SessionEnvelope stream_step" where
  "subscribe_events_step me r = (case r of
     RecvOk env \<Rightarrow> if env_session_id env = me then Emit env else Skip
   | RecvLagged n \<Rightarrow> Emit \<lparr>env_session_id = me, env_turn_gen = 0, env_event = Lagged n\<rparr>
   | RecvClosed \<Rightarrow> End)"

definition initial_snapshot :: "string \<Rightarrow> StateSnapshot" where
  "initial_snapshot me =
     \<lparr>sn_session_id = me, sn_state = Idle, sn_can_send = True, sn_has_activity = False,
      sn_can_queue = False, sn_can_cancel = False, sn_turn_gen = 0, sn_last_reason = None\<rparr>"

text \<open>
  \<open>subscribe_state\<close> seeds the stream with the snapshot cached when it subscribes and hands that
  out first; \<open>orc\<close> is the orchestrator when the receiver is polled.
\<close>

definition subscribe_state_step ::
  "StateSnapshot option \<Rightarrow> 'j Orchestrator \<Rightarrow> string \<Rightarrow> StateSnapshot recv \<Rightarrow> StateSnapshot stream_step" where
  "subscribe_state_step seed orc me r = (case seed of
     Some s \<Rightarrow> Emit s
   | None \<Rightarrow> (case r of
       RecvOk s \<Rightarrow> if sn_session_id s = me then Emit s else Skip
     | RecvLagged _ \<Rightarrow>
         (case latest orc me of Some s \<Rightarrow> Emit s | None \<Rightarrow> Emit (initial_snapshot me))
     | RecvClosed \<Rightarrow> End))"

definition subscribe_unlock_step ::
  "StateSnapshot option \<Rightarrow> 'j Orchestrator \<Rightarrow> string \<Rightarrow> StateSnapshot recv \<Rightarrow> bool stream_step" where
  "subscribe_unlock_step seed orc me r = (case subscribe_state_step seed orc me r of
     Emit s \<Rightarrow> Emit (sn_can_send s)
   | Skip \<Rightarrow> Skip
   | End \<Rightarrow> End)"

definition reconnect :: "(SessionState \<Rightarrow> string) \<Rightarrow> string \<Rightarrow> 'j Orchestrator \<Rightarrow> 'j Orchestrator" where
  "reconnect debug sid orc = (case latest orc sid of
     None \<Rightarrow> orc
   | Some snap \<Rightarrow>
       orc\<lparr>event_tx := event_tx orc @
           [\<lparr>env_session_id = sid, env_turn_gen = sn_turn_gen snap,
             env_event = Snapshot (debug (sn_state snap)) (sn_turn_gen snap)\<rparr>],
         state_tx := state_tx orc @ [snap]\<rparr>)"

text \<open>
  One turn of the loop of \<open>run\<close>: the \<open>biased\<close> select takes a lowered event if there is one,
  and the backend's next event otherwise.
\<close>

definition run_once :: "bool \<Rightarrow> 'j SessionEnvelope \<Rightarrow> 'j Orchestrator \<Rightarrow> 'j Orchestrator \<times> bool" where
  "run_once accepts_proactive_input backend_env orc = (case lowered orc of
     env # rest \<Rightarrow> (fold_one accepts_proactive_input env (orc\<lparr>lowered := rest\<rparr>), False)
   | [] \<Rightarrow> (fold_one accepts_proactive_input backend_env orc, True))"

text \<open>After the backend's stream has ended \<open>run\<close> folds what is left of the lowered events.\<close>

definition drain_lowered :: "bool \<Rightarrow> 'j Orchestrator \<Rightarrow> 'j Orchestrator" where
  "drain_lowered accepts_proactive_input orc =
     fold (fold_one accepts_proactive_input) (lowered orc) (orc\<lparr>lowered := []\<rparr>)"

section \<open>What one fold does\<close>

definition folded_event :: "'j SessionEnvelope \<Rightarrow> 'j SessionEvent" where
  "folded_event env = env_event (restamp_epoch env)"

definition folded_state :: "'j SessionEnvelope \<Rightarrow> 'j Orchestrator \<Rightarrow> SessionState" where
  "folded_state env orc =
     prune_terminal_subagents_on_boundary (fst (step (fsm_of orc (env_session_id env)) (folded_event env)))"

definition folded_roster :: "'j SessionEnvelope \<Rightarrow> 'j Orchestrator \<Rightarrow> workflow_roster" where
  "folded_roster env orc = fold_roster (folded_event env) (session_roster orc (env_session_id env))"

definition folded_transitions :: "'j SessionEnvelope \<Rightarrow> 'j Orchestrator \<Rightarrow> Transition list" where
  "folded_transitions env orc = snd (step (fsm_of orc (env_session_id env)) (folded_event env))"

definition activity :: "'j Orchestrator \<Rightarrow> string \<Rightarrow> bool" where
  "activity orc sid \<longleftrightarrow> has_foreground_activity (fsm_of orc sid) \<or> background_active (session_roster orc sid)"

definition folded_reason :: "'j SessionEnvelope \<Rightarrow> 'j Orchestrator \<Rightarrow> TransitionReason option" where
  "folded_reason env orc = (let ts = folded_transitions env orc in
     derive_reason (if ts = [] then None else Some (last ts)) (folded_event env))"

definition folded_activity :: "'j SessionEnvelope \<Rightarrow> 'j Orchestrator \<Rightarrow> bool" where
  "folded_activity env orc \<longleftrightarrow>
     has_foreground_activity (folded_state env orc) \<or> background_active (folded_roster env orc)"

definition fold_pushes :: "'j SessionEnvelope \<Rightarrow> 'j Orchestrator \<Rightarrow> bool" where
  "fold_pushes env orc \<longleftrightarrow>
     folded_transitions env orc \<noteq> [] \<or> activity orc (env_session_id env) \<noteq> folded_activity env orc"

lemmas folded_defs = folded_event_def folded_state_def folded_roster_def folded_transitions_def
  folded_reason_def folded_activity_def activity_def

lemma restamp_epoch_simps [simp]:
  "env_session_id (restamp_epoch env) = env_session_id env"
  "env_turn_gen (restamp_epoch env) = env_turn_gen env"
  by (simp_all add: restamp_epoch_def split: SessionEvent.split)

lemma push_snapshot_fields [simp]:
  "latest (push_snapshot snap orc) = (latest orc)(sn_session_id snap \<mapsto> snap)"
  "fsms (push_snapshot snap orc) = fsms orc"
  "rosters (push_snapshot snap orc) = rosters orc"
  "lowered (push_snapshot snap orc) = lowered orc"
  "state_tx (push_snapshot snap orc) = state_tx orc @ [snap]"
  "last_terminal (push_snapshot snap orc) =
     (if is_settled (sn_state snap) \<and> sn_last_reason snap \<noteq> None
      then (last_terminal orc)(sn_session_id snap \<mapsto> (sn_turn_gen snap, the (sn_last_reason snap)))
      else last_terminal orc)"
  by (simp_all add: push_snapshot_def Let_def split: option.split SessionState.split)

lemma make_snapshot_fields [simp]:
  "sn_session_id (make_snapshot sid st act acc gen reason) = sid"
  "sn_state (make_snapshot sid st act acc gen reason) = st"
  "sn_turn_gen (make_snapshot sid st act acc gen reason) = gen"
  "sn_last_reason (make_snapshot sid st act acc gen reason) = reason"
  "sn_can_send (make_snapshot sid st act acc gen reason) = can_send_message st"
  "sn_can_queue (make_snapshot sid st act acc gen reason) = can_queue_message st acc"
  "sn_can_cancel (make_snapshot sid st act acc gen reason) = can_cancel st"
  "sn_has_activity (make_snapshot sid st act acc gen reason) = act"
  by (simp_all add: make_snapshot_def)

definition fold_snapshot :: "bool \<Rightarrow> 'j SessionEnvelope \<Rightarrow> 'j Orchestrator \<Rightarrow> StateSnapshot" where
  "fold_snapshot acc env orc =
     make_snapshot (env_session_id env) (folded_state env orc) (folded_activity env orc) acc
       (env_turn_gen env) (folded_reason env orc)"

lemma fold_one_unfold:
  "fold_one acc env orc =
     (let sid = env_session_id env;
          orc' = orc\<lparr>event_tx := event_tx orc @ [restamp_epoch env],
                     rosters := (rosters orc)(sid \<mapsto> folded_roster env orc),
                     fsms := (fsms orc)(sid \<mapsto> folded_state env orc)\<rparr>
      in if fold_pushes env orc then push_snapshot (fold_snapshot acc env orc) orc' else orc')"
  by (simp only: fold_one_def fold_pushes_def fold_snapshot_def folded_defs Let_def restamp_epoch_simps)

lemma fold_one_fsm:
  "fsm_of (fold_one acc env orc) sid =
     (if sid = env_session_id env then folded_state env orc else fsm_of orc sid)"
  by (simp add: fold_one_unfold fsm_of_def Let_def)

lemma fold_one_roster:
  "session_roster (fold_one acc env orc) sid =
     (if sid = env_session_id env then folded_roster env orc else session_roster orc sid)"
  by (simp add: fold_one_unfold session_roster_def Let_def)

lemma fold_one_latest:
  "latest (fold_one acc env orc) sid =
     (if sid = env_session_id env \<and> fold_pushes env orc then Some (fold_snapshot acc env orc)
      else latest orc sid)"
  by (simp add: fold_one_unfold fold_snapshot_def Let_def)

lemma fold_one_last_terminal:
  "last_terminal (fold_one acc env orc) sid =
     (if sid = env_session_id env \<and> fold_pushes env orc \<and> is_settled (folded_state env orc) \<and>
         folded_reason env orc \<noteq> None
      then Some (env_turn_gen env, the (folded_reason env orc)) else last_terminal orc sid)"
  by (auto simp: fold_one_unfold fold_snapshot_def Let_def)

lemma fold_one_state_tx:
  "state_tx (fold_one acc env orc) =
     state_tx orc @ (if fold_pushes env orc then [fold_snapshot acc env orc] else [])"
  by (simp add: fold_one_unfold Let_def)

lemma fold_one_lowered: "lowered (fold_one acc env orc) = lowered orc"
  by (simp add: fold_one_unfold Let_def)

lemma fold_one_activity:
  "activity (fold_one acc env orc) (env_session_id env) = folded_activity env orc"
  by (simp add: activity_def fold_one_fsm fold_one_roster folded_activity_def)

lemmas fold_one_simps = fold_one_fsm fold_one_roster fold_one_latest fold_one_last_terminal
  fold_one_state_tx fold_one_lowered

section \<open>Phases\<close>

lemma prune_phase [view_simps]:
  "external_phase (prune_terminal_subagents_on_boundary st) = external_phase st"
  "is_settled (prune_terminal_subagents_on_boundary st) = is_settled st"
  "is_Running (prune_terminal_subagents_on_boundary st) = is_Running st"
  "prune_terminal_subagents_on_boundary st = Idle \<longleftrightarrow> st = Idle"
  "prune_terminal_subagents_on_boundary st = Starting \<longleftrightarrow> st = Starting"
  "prune_terminal_subagents_on_boundary st = Error r \<longleftrightarrow> st = Error r"
  by (cases st; simp add: prune_terminal_subagents_on_boundary_def view_simps is_settled_def)+

lemma prune_seen:
  "is_Running st \<Longrightarrow>
   terminal_result_seen (prune_terminal_subagents_on_boundary st) = terminal_result_seen st"
  by (cases st) (simp_all add: prune_terminal_subagents_on_boundary_def)

lemma views_of_phase:
  "can_send_message st \<longleftrightarrow> external_phase st = IdlePhase"
  "can_cancel st \<longleftrightarrow> external_phase st \<in> {StartingPhase, RunningPhase, RequiresActionPhase}"
  "can_queue_message st acc \<longleftrightarrow> acc \<and> external_phase st = RunningPhase"
  by (cases st; simp add: can_send_message_def can_cancel_def can_queue_message_def view_simps)+

lemma no_transition_same_phase:
  "folded_transitions env orc = [] \<Longrightarrow>
   external_phase (folded_state env orc) = external_phase (fsm_of orc (env_session_id env))"
  using step_broadcasts [of "fsm_of orc (env_session_id env)" "folded_event env"]
  by (auto simp: folded_transitions_def folded_state_def view_simps split: if_splits)

section \<open>The orchestrator's invariant\<close>

lemma step_refs_distinct:
  "distinct (map sa_ref (roster_of st)) \<Longrightarrow> distinct (map sa_ref (roster_of (fst (step st ev))))"
  using roster_of_step [of st ev] by (metis distinct.simps(1) list.map(1) upsert_subagent_distinct)

definition snapshot_agrees ::
  "bool \<Rightarrow> 'j Orchestrator \<Rightarrow> string \<Rightarrow> StateSnapshot \<Rightarrow> bool" where
  "snapshot_agrees acc orc sid s \<longleftrightarrow>
     sn_session_id s = sid \<and>
     sn_can_send s = can_send_message (fsm_of orc sid) \<and>
     sn_can_queue s = can_queue_message (fsm_of orc sid) acc \<and>
     sn_can_cancel s = can_cancel (fsm_of orc sid) \<and>
     sn_has_activity s = activity orc sid \<and>
     external_phase (sn_state s) = external_phase (fsm_of orc sid)"

definition terminal_recorded :: "'j Orchestrator \<Rightarrow> string \<Rightarrow> bool" where
  "terminal_recorded orc sid \<longleftrightarrow> (case fsm_of orc sid of
     Error r \<Rightarrow> \<exists>gen. last_terminal orc sid = Some (gen, Errored r)
   | Idle \<Rightarrow> last_terminal orc sid = None \<or>
       (\<exists>gen reason. last_terminal orc sid = Some (gen, reason) \<and>
          ((\<exists>sr. reason = TransitionReason.Completed sr) \<or> (\<exists>cr. reason = TransitionReason.Cancelled cr)))
   | _ \<Rightarrow> True)"

definition orch_inv :: "bool \<Rightarrow> 'j Orchestrator \<Rightarrow> bool" where
  "orch_inv acc orc \<longleftrightarrow> (\<forall>sid.
     fsm_of orc sid \<noteq> Starting \<and>
     prune_terminal_subagents_on_boundary (fsm_of orc sid) = fsm_of orc sid \<and>
     distinct (map sa_ref (roster_of (fsm_of orc sid))) \<and>
     \<not> (is_Running (fsm_of orc sid) \<and> terminal_result_seen (fsm_of orc sid)) \<and>
     (case latest orc sid of
        None \<Rightarrow> fsm_of orc sid = Idle \<and> \<not> activity orc sid
      | Some s \<Rightarrow> snapshot_agrees acc orc sid s) \<and>
     terminal_recorded orc sid)"

lemma orch_inv_new: "orch_inv acc new_orchestrator"
  by (simp add: orch_inv_def new_orchestrator_def fsm_of_def session_roster_def activity_def
      terminal_recorded_def background_active_def view_simps roster_of_def)

lemma prune_idem [simp]:
  "prune_terminal_subagents_on_boundary (prune_terminal_subagents_on_boundary st) =
     prune_terminal_subagents_on_boundary st"
  by (cases st) (simp_all add: prune_terminal_subagents_on_boundary_def)

lemma roster_of_prune:
  "distinct (map sa_ref (roster_of st)) \<Longrightarrow>
   distinct (map sa_ref (roster_of (prune_terminal_subagents_on_boundary st)))"
  by (cases st) (auto simp: roster_of_def prune_terminal_subagents_on_boundary_def intro: distinct_map_filter)

lemma folded_refs_distinct:
  "distinct (map sa_ref (roster_of (fsm_of orc (env_session_id env)))) \<Longrightarrow>
   distinct (map sa_ref (roster_of (folded_state env orc)))"
  unfolding folded_state_def by (intro roster_of_prune step_refs_distinct)

lemma folded_not_Starting:
  "fsm_of orc (env_session_id env) \<noteq> Starting \<Longrightarrow> folded_state env orc \<noteq> Starting"
  by (simp add: folded_state_def view_simps step_not_Starting)

lemma folded_not_seen:
  assumes "\<not> (is_Running (fsm_of orc (env_session_id env)) \<and> terminal_result_seen (fsm_of orc (env_session_id env)))"
  shows "\<not> (is_Running (folded_state env orc) \<and> terminal_result_seen (folded_state env orc))"
  using terminal_result_never_seen_step [OF assms, of "folded_event env"]
  by (auto simp: folded_state_def view_simps prune_seen)

lemma agrees_other:
  "sid \<noteq> env_session_id env \<Longrightarrow>
   snapshot_agrees acc (fold_one acc env orc) sid s = snapshot_agrees acc orc sid s"
  by (simp add: snapshot_agrees_def fold_one_simps activity_def)

lemma agrees_pushed:
  "snapshot_agrees acc (fold_one acc env orc) (env_session_id env) (fold_snapshot acc env orc)"
  by (simp add: snapshot_agrees_def fold_one_fsm fold_one_activity fold_snapshot_def)

lemma agrees_quiet:
  assumes "\<not> fold_pushes env orc" and "snapshot_agrees acc orc (env_session_id env) s"
  shows "snapshot_agrees acc (fold_one acc env orc) (env_session_id env) s"
proof -
  from assms(1) have "external_phase (folded_state env orc) = external_phase (fsm_of orc (env_session_id env))"
    by (simp add: fold_pushes_def no_transition_same_phase)
  moreover from assms(1) have "folded_activity env orc = activity orc (env_session_id env)"
    by (auto simp: fold_pushes_def)
  ultimately show ?thesis
    using assms(2) by (simp add: snapshot_agrees_def views_of_phase fold_one_fsm fold_one_activity)
qed

lemma idle_of_phase: "external_phase st = IdlePhase \<longleftrightarrow> st = Idle"
  by (cases st) (simp_all add: view_simps)

lemma settled_step_same:
  assumes "folded_transitions env orc = []" and "is_settled (folded_state env orc)"
  shows "folded_state env orc = fsm_of orc (env_session_id env)"
proof -
  let ?st = "fsm_of orc (env_session_id env)"
  have ph: "external_phase (folded_state env orc) = external_phase ?st"
    using assms(1) by (rule no_transition_same_phase)
  then have settled: "is_settled ?st"
    using assms(2) by (cases ?st; cases "folded_state env orc") (auto simp: view_simps is_settled_def split: if_splits)
  show ?thesis
  proof (cases "\<exists>e. folded_event env = TurnStarted e")
    case True
    then show ?thesis
      using settled ph by (cases ?st) (auto simp: folded_state_def step_TurnStarted step_turn_started_def
          settle_def is_settled_def view_simps no_requires_action_def prune_terminal_subagents_on_boundary_def)
  next
    case False
    then have "fst (step ?st (folded_event env)) = ?st"
      using step_terminal_absorbing [OF settled, of "folded_event env"] by simp
    then show ?thesis
      using settled by (cases ?st) (simp_all add: folded_state_def prune_terminal_subagents_on_boundary_def is_settled_def)
  qed
qed

lemma folded_reason_settled:
  assumes "folded_transitions env orc \<noteq> []"
  shows "folded_state env orc = Error r \<Longrightarrow> folded_reason env orc = Some (Errored r)"
    and "folded_state env orc = Idle \<Longrightarrow>
      \<exists>reason. folded_reason env orc = Some reason \<and>
        ((\<exists>sr. reason = TransitionReason.Completed sr) \<or> (\<exists>cr. reason = TransitionReason.Cancelled cr))"
proof -
  let ?st = "fsm_of orc (env_session_id env)"
  from assms have "last (folded_transitions env orc) = \<lparr>tr_from = ?st, tr_to = fst (step ?st (folded_event env)),
       tr_epoch = (case folded_event env of TurnStarted e \<Rightarrow> e | _ \<Rightarrow> anchor_epoch ?st)\<rparr>"
    using step_broadcasts [of ?st "folded_event env"] by (simp add: folded_transitions_def split: if_splits)
  then have to: "tr_to (last (folded_transitions env orc)) = fst (step ?st (folded_event env))" by simp
  have reason: "folded_reason env orc = derive_reason (Some (last (folded_transitions env orc))) (folded_event env)"
    using assms by (simp add: folded_reason_def Let_def)
  show "folded_state env orc = Error r \<Longrightarrow> folded_reason env orc = Some (Errored r)"
    by (simp add: folded_state_def reason derive_reason_def to view_simps)
  assume "folded_state env orc = Idle"
  then have "fst (step ?st (folded_event env)) = Idle" by (simp add: folded_state_def view_simps)
  then show "\<exists>reason. folded_reason env orc = Some reason \<and>
        ((\<exists>sr. reason = TransitionReason.Completed sr) \<or> (\<exists>cr. reason = TransitionReason.Cancelled cr))"
    by (simp add: reason derive_reason_def to view_simps split: SessionEvent.split TurnOutcome.split)
qed

lemma terminal_recorded_fold:
  assumes "terminal_recorded orc sid"
  shows "terminal_recorded (fold_one acc env orc) sid"
proof (cases "sid = env_session_id env")
  case False
  then have same: "last_terminal (fold_one acc env orc) sid = last_terminal orc sid"
      "fsm_of (fold_one acc env orc) sid = fsm_of orc sid"
    by (simp_all add: fold_one_simps)
  show ?thesis using assms unfolding terminal_recorded_def same .
next
  case sid: True
  show ?thesis
  proof (cases "is_settled (folded_state env orc)")
    case False
    then show ?thesis
      by (cases "folded_state env orc") (simp_all add: sid terminal_recorded_def fold_one_fsm is_settled_def)
  next
    case settled: True
    show ?thesis
    proof (cases "folded_transitions env orc = []")
      case True
      then have "folded_reason env orc = None" by (simp add: folded_reason_def derive_reason_def)
      then have same: "last_terminal (fold_one acc env orc) sid = last_terminal orc sid"
          "fsm_of (fold_one acc env orc) sid = fsm_of orc sid"
        using settled_step_same [OF True settled] by (simp_all add: sid fold_one_simps)
      show ?thesis using assms unfolding terminal_recorded_def same .
    next
      case False
      then have "fold_pushes env orc" by (simp add: fold_pushes_def)
      with settled folded_reason_settled [OF False] show ?thesis
        by (cases "folded_state env orc")
           (auto simp: sid terminal_recorded_def fold_one_fsm fold_one_last_terminal is_settled_def)
    qed
  qed
qed

lemma orch_inv_fold:
  assumes inv: "orch_inv acc orc"
  shows "orch_inv acc (fold_one acc env orc)"
  unfolding orch_inv_def
proof
  fix sid
  let ?orc' = "fold_one acc env orc"
  from inv have old: "fsm_of orc sid \<noteq> Starting"
      "\<not> (is_Running (fsm_of orc sid) \<and> terminal_result_seen (fsm_of orc sid))"
      "case latest orc sid of None \<Rightarrow> fsm_of orc sid = Idle \<and> \<not> activity orc sid
       | Some s \<Rightarrow> snapshot_agrees acc orc sid s"
      "terminal_recorded orc sid"
    by (auto simp: orch_inv_def)
  have snap: "case latest ?orc' sid of None \<Rightarrow> fsm_of ?orc' sid = Idle \<and> \<not> activity ?orc' sid
       | Some s \<Rightarrow> snapshot_agrees acc ?orc' sid s"
  proof (cases "sid = env_session_id env")
    case False
    with old(3) show ?thesis
      by (simp add: fold_one_simps agrees_other activity_def view_simps split: option.splits)
  next
    case sid: True
    show ?thesis
    proof (cases "fold_pushes env orc")
      case True
      then show ?thesis by (simp add: sid fold_one_latest agrees_pushed)
    next
      case False
      then have "folded_activity env orc = activity orc sid"
        and "external_phase (folded_state env orc) = external_phase (fsm_of orc sid)"
        by (auto simp: fold_pushes_def sid no_transition_same_phase)
      with False old(3) show ?thesis
        using idle_of_phase [of "folded_state env orc"]
        by (auto simp: sid fold_one_latest fold_one_fsm fold_one_activity view_simps intro: agrees_quiet
            split: option.splits)
    qed
  qed
  have "fsm_of ?orc' sid \<noteq> Starting"
    using old(1) folded_not_Starting by (auto simp: fold_one_fsm)
  moreover have "\<not> (is_Running (fsm_of ?orc' sid) \<and> terminal_result_seen (fsm_of ?orc' sid))"
    using old(2) folded_not_seen by (auto simp: fold_one_fsm)
  moreover have "prune_terminal_subagents_on_boundary (fsm_of ?orc' sid) = fsm_of ?orc' sid"
    using inv by (simp add: fold_one_fsm folded_state_def orch_inv_def)
  moreover have "distinct (map sa_ref (roster_of (fsm_of ?orc' sid)))"
    using inv folded_refs_distinct by (auto simp: fold_one_fsm orch_inv_def)
  ultimately show "fsm_of ?orc' sid \<noteq> Starting \<and>
     prune_terminal_subagents_on_boundary (fsm_of ?orc' sid) = fsm_of ?orc' sid \<and>
     distinct (map sa_ref (roster_of (fsm_of ?orc' sid))) \<and>
     \<not> (is_Running (fsm_of ?orc' sid) \<and> terminal_result_seen (fsm_of ?orc' sid)) \<and>
     (case latest ?orc' sid of None \<Rightarrow> fsm_of ?orc' sid = Idle \<and> \<not> activity ?orc' sid
      | Some s \<Rightarrow> snapshot_agrees acc ?orc' sid s) \<and> terminal_recorded ?orc' sid"
    using snap terminal_recorded_fold [OF old(4)] by blast
qed

section \<open>Runs of the orchestrator\<close>

inductive orch_step :: "bool \<Rightarrow> 'j Orchestrator \<Rightarrow> 'j Orchestrator \<Rightarrow> bool" for acc where
  send: "orch_step acc orc (snd (send dispatched sid orc))"
| cancel: "orch_step acc orc (snd (cancel dispatched sid orc))"
| reconnect: "orch_step acc orc (reconnect debug sid orc)"
| run: "orch_step acc orc (fst (run_once acc env orc))"
| drain: "orch_step acc orc (drain_lowered acc orc)"

inductive_cases orch_stepE: "orch_step acc orc orc'"

lemma orch_inv_cong:
  assumes "latest orc' = latest orc" and "fsms orc' = fsms orc" and "rosters orc' = rosters orc"
    and "last_terminal orc' = last_terminal orc"
  shows "orch_inv acc orc' = orch_inv acc orc"
proof -
  have eqs: "fsm_of orc' = fsm_of orc" "session_roster orc' = session_roster orc"
    using assms by (auto simp: fsm_of_def session_roster_def)
  then have act: "activity orc' = activity orc" by (simp add: activity_def fun_eq_iff)
  show ?thesis
    unfolding orch_inv_def snapshot_agrees_def terminal_recorded_def eqs act assms ..
qed

lemma orch_inv_lowered [simp]: "orch_inv acc (orc\<lparr>lowered := ls\<rparr>) = orch_inv acc orc"
  by (rule orch_inv_cong) simp_all

lemma orch_inv_folds: "orch_inv acc orc \<Longrightarrow> orch_inv acc (fold (fold_one acc) envs orc)"
  by (induction envs arbitrary: orc) (simp_all add: orch_inv_fold)

lemma orch_inv_step:
  assumes "orch_inv acc orc" and "orch_step acc orc orc'"
  shows "orch_inv acc orc'"
  using assms(2)
proof cases
  case (send dispatched sid)
  with assms(1) show ?thesis by (simp add: send_def split: sum.split)
next
  case (cancel dispatched sid)
  with assms(1) show ?thesis by (simp add: cancel_def split: sum.split)
next
  case (reconnect debug sid)
  then have "orch_inv acc orc' = orch_inv acc orc"
    by (intro orch_inv_cong) (simp_all add: reconnect_def split: option.split)
  with assms(1) show ?thesis by simp
next
  case (run env)
  with assms(1) show ?thesis by (simp add: run_once_def orch_inv_fold split: list.split)
next
  case drain
  with assms(1) show ?thesis by (simp add: drain_lowered_def orch_inv_folds)
qed

lemma orch_inv_None: "orch_inv acc orc \<Longrightarrow> latest orc sid = None \<Longrightarrow> fsm_of orc sid = Idle \<and> \<not> activity orc sid"
  by (drule orch_inv_def [THEN iffD1, THEN spec, of _ _ sid]) simp

lemma orch_inv_Some: "orch_inv acc orc \<Longrightarrow> latest orc sid = Some s \<Longrightarrow> snapshot_agrees acc orc sid s"
  by (drule orch_inv_def [THEN iffD1, THEN spec, of _ _ sid]) simp

abbreviation orch_reach :: "bool \<Rightarrow> 'j Orchestrator \<Rightarrow> bool" where
  "orch_reach acc \<equiv> reach (\<lambda>orc. orc = new_orchestrator) (orch_step acc)"

interpretation orch: machine "\<lambda>orc. orc = new_orchestrator" "orch_step acc" "orch_inv acc"
  by unfold_locales (auto intro: orch_inv_new orch_inv_step)

section \<open>The two rosters\<close>

definition task_status :: "workflow_roster \<Rightarrow> string \<Rightarrow> WorkflowTaskStatus option" where
  "task_status roster ref = map_option wa_task_status (map_of roster ref)"

interpretation background: absorbing_store task_status roster_upsert fst "\<lambda>u. snd (snd u)"
  workflow_is_terminal
  by unfold_locales
     (auto simp: task_status_def roster_upsert_def update_conv' split: option.split prod.split)

lemma roster_detail_status:
  "task_status (roster_detail r l ls m t c lt roster) ref =
     (if ref = r \<and> task_status roster r = None then Some WorkflowTaskStatus.Running
      else task_status roster ref)"
  by (auto simp: task_status_def roster_detail_def map_of_map_entry map_of_entry_or_insert detail_entry_def
      split: option.split)

text \<open>foreground\<close>
definition update_of :: "SubagentState \<Rightarrow> 'j SessionEvent" where
  "update_of u = SubagentUpdate (sa_ref u) (sa_label u) (sa_status u) (sa_parent_ref u)"

lemma step_update_of:
  "fst (step (SessionState.Running e saw seen ra subs) (update_of u)) =
     SessionState.Running e saw seen ra (upsert_subagent u subs)"
  by (cases u) (simp add: update_of_def step_Running step_running_def step_subagent_update_def)

lemma step_list_updates:
  "step_list (SessionState.Running e saw seen ra subs) (map update_of us) =
     SessionState.Running e saw seen ra (fold upsert_subagent us subs)"
  by (induction us arbitrary: subs) (simp_all add: step_update_of)

definition unfinished :: "SubagentState \<Rightarrow> bool" where
  "unfinished s \<longleftrightarrow> \<not> (sa_status s = SubagentStatus.Completed \<or> sa_status s = SubagentStatus.Errored \<or>
     sa_status s = SubagentStatus.Shutdown)"

lemma prune_Running:
  "prune_terminal_subagents_on_boundary (SessionState.Running e saw seen ra subs) =
     SessionState.Running e saw seen ra (filter unfinished subs)"
  by (simp add: prune_terminal_subagents_on_boundary_def unfinished_def [abs_def])

lemma upsert_new: "sa_ref new \<notin> sa_ref ` set subs \<Longrightarrow> upsert_subagent new subs = subs @ [new]"
  by (induction subs) auto

lemma pruned_ref_gone:
  assumes "distinct (map sa_ref subs)" and "sa_status new = SubagentStatus.Completed"
  shows "sa_ref new \<notin> sa_ref ` set (filter unfinished (upsert_subagent new subs))"
  using assms
  by (induction subs) (auto simp: unfinished_def subagent_is_terminal_def image_iff)

lemma fold_update_Running:
  assumes "fsm_of orc sid = SessionState.Running e saw seen ra subs"
  shows "fsm_of (fold_one acc \<lparr>env_session_id = sid, env_turn_gen = gen, env_event = update_of u\<rparr> orc) sid =
    SessionState.Running e saw seen ra (filter unfinished (upsert_subagent u subs))"
  by (simp add: fold_one_fsm folded_state_def folded_event_def restamp_epoch_def assms)
     (simp add: update_of_def step_update_of [unfolded update_of_def] prune_Running)

end
