(* ===== verification/Session_Props.thy ===== *)
theory Session_Props
  imports Session_Orchestrator
begin

text \<open>
  The properties of the session layer: the reducer's (what a turn may do, and what a subscriber
  of its transitions sees) and the orchestrator's, over every state its commands and its loop
  reach (\<open>orch_reach\<close>).
\<close>

section \<open>Example states\<close>

text \<open>A session whose first turn runs, and the same session after its process was lost.\<close>

definition demo_receipt :: CommandReceipt where
  "demo_receipt = \<lparr>rc_accepted = True, rc_admission = AdmissionStarted, rc_turn_gen = 7\<rparr>"

definition demo_running :: "unit Orchestrator" where
  "demo_running = drain_lowered True (snd (send (Inr demo_receipt) ''s'' new_orchestrator))"

lemma demo_running_reach: "orch_reach True demo_running"
proof -
  have "orch_reach True (snd (send (Inr demo_receipt) ''s'' (new_orchestrator :: unit Orchestrator)))"
    by (rule reach_step, rule reach_init, rule refl, rule orch_step.send)
  then show ?thesis
    unfolding demo_running_def by (rule reach_step) (rule orch_step.drain)
qed

lemma demo_running_fsm:
  "fsm_of demo_running ''s'' = SessionState.Running 7 False False no_requires_action []"
  by (simp add: demo_running_def demo_receipt_def drain_lowered_def send_def new_orchestrator_def
      fold_one_fsm folded_state_def folded_event_def restamp_epoch_def step_TurnStarted
      step_turn_started_def settle_def prune_terminal_subagents_on_boundary_def)
     (simp add: fsm_of_def prune_terminal_subagents_on_boundary_def)

lemma demo_running_lowered: "lowered demo_running = []"
  by (simp add: demo_running_def drain_lowered_def demo_receipt_def send_def new_orchestrator_def
      fold_one_lowered)

lemma demo_running_latest: "\<exists>s. latest_snapshot demo_running ''s'' = Some s"
proof (rule ccontr)
  assume "\<not> ?thesis"
  then have "latest demo_running ''s'' = None" by (simp add: latest_snapshot_def)
  from orch_inv_None [OF orch.reach_inv [OF demo_running_reach] this] show False
    by (simp add: demo_running_fsm)
qed

definition demo_lost :: "unit SessionEnvelope" where
  "demo_lost = \<lparr>env_session_id = ''s'', env_turn_gen = 7, env_event = Detached None None\<rparr>"

definition demo_crashed :: "unit Orchestrator" where
  "demo_crashed = fst (run_once True demo_lost demo_running)"

lemma demo_crashed_reach: "orch_reach True demo_crashed"
  unfolding demo_crashed_def by (rule reach_step [OF demo_running_reach]) (rule orch_step.run)

lemma demo_crashed_eq: "demo_crashed = fold_one True demo_lost demo_running"
  by (simp add: demo_crashed_def run_once_def demo_running_lowered)

lemma demo_crashed_fsm: "fsm_of demo_crashed ''s'' = Error ErrorReason.Crashed"
  by (simp add: demo_crashed_eq fold_one_fsm folded_state_def folded_event_def restamp_epoch_def
      demo_lost_def demo_running_fsm step_Running step_running_def step_detached_def
      crash_outcome_def settle_def prune_terminal_subagents_on_boundary_def)

section \<open>The reducer\<close>

text \<open>
  A run of the reducer over a list of events: the states it goes through and the transitions it
  hands to the broadcast, in order.
\<close>

fun trajectory :: "SessionState \<Rightarrow> 'j SessionEvent list \<Rightarrow> SessionState list" where
  "trajectory st [] = [st]"
| "trajectory st (ev # evs) = st # trajectory (fst (step st ev)) evs"

fun emitted :: "SessionState \<Rightarrow> 'j SessionEvent list \<Rightarrow> Transition list" where
  "emitted st [] = []"
| "emitted st (ev # evs) = snd (step st ev) @ emitted (fst (step st ev)) evs"

lemma trajectory_hd: "\<exists>rest. trajectory st evs = st # rest"
  by (cases evs) simp_all

text \<open>
  C17: The transitions the reducer hands to the broadcast over any list of events are exactly
  the changes of the external phase: a subscriber that follows them sees the sequence of
  phases of the states with adjacent repetitions removed.
\<close>

theorem transitions_are_the_phase_changes:
  "external_phase st # map (\<lambda>tr. external_phase (tr_to tr)) (emitted st evs) =
     remdups_adj (map external_phase (trajectory st evs))"
proof (induction evs arbitrary: st)
  case (Cons ev evs)
  obtain rest where "trajectory (fst (step st ev)) evs = fst (step st ev) # rest"
    using trajectory_hd by blast
  with Cons.IH [of "fst (step st ev)"] show ?case by (simp add: step_broadcasts)
qed simp

theorem cancel_is_not_a_crash:
  fixes evs :: "'j SessionEvent list"
  assumes "\<forall>r. st \<noteq> Error r" and "\<forall>e. TurnStarted e \<notin> set evs"
  shows "step_list st (Cancel # evs) = Idle"
proof -
  have "fst (step st (Cancel :: 'j SessionEvent)) = Idle"
    using assms(1) by (cases st) (simp_all add: step_def is_settled_def settle_def)
  then show ?thesis
    using step_list_settled [of Idle evs] assms(2) by (simp add: is_settled_def)
qed

theorem cancel_is_not_a_crash_witness:
  "step_list (SessionState.Running 7 True False no_requires_action [])
     [Cancel :: unit SessionEvent, Detached None None, TurnResult True None ''late'' 7 TurnOutcome.EndTurn] = Idle"
  by (rule cancel_is_not_a_crash) simp_all

theorem detached_ends_the_turn:
  fixes evs :: "'j SessionEvent list"
  assumes "\<not> is_settled (step_list Idle evs)"
  shows "step_list Idle (evs @ [Detached exit summary]) =
    (if \<exists>x. exit = Some x \<and> exit_code x = Some 0 \<and> exit_signal x = None
     then Error EmptyTurn else Error ErrorReason.Crashed)"
proof -
  have run: "is_Running (step_list Idle evs)"
    using assms step_list_not_Starting [of Idle evs] by (cases "step_list Idle evs") (auto simp: is_settled_def)
  have "\<not> (is_Running (step_list Idle evs) \<and> terminal_result_seen (step_list Idle evs))"
    by (rule terminal_result_never_seen) simp
  then show ?thesis by (simp add: step_Detached_unsettled [OF assms] run)
qed

theorem detached_ends_the_turn_witness:
  "step_list Idle ([TurnStarted 7 :: unit SessionEvent] @ [Detached None (Some ''lost'')]) =
     Error ErrorReason.Crashed"
  by (subst detached_ends_the_turn)
     (simp_all add: step_TurnStarted step_turn_started_def settle_def is_settled_def)

theorem epoch_never_goes_back:
  assumes "fst (step (SessionState.Running e saw seen ra subs) ev) = SessionState.Running e' saw' seen' ra' subs'"
  shows "e \<le> e' \<and> (e < e' \<longleftrightarrow> ev = TurnStarted e' \<and> e' \<noteq> e) \<and> (e' = e \<longrightarrow> saw \<longrightarrow> saw')"
  using step_from_Running [OF assms] by auto

theorem epoch_never_goes_back_witness:
  "\<exists>saw seen ra subs. fst (step (SessionState.Running 7 True False no_requires_action [])
       (TurnStarted 9 :: unit SessionEvent)) = SessionState.Running 9 saw seen ra subs \<and> (7 :: u64) \<le> 9"
proof -
  have "fst (step (SessionState.Running 7 True False no_requires_action [])
      (TurnStarted 9 :: unit SessionEvent)) = SessionState.Running 9 False False no_requires_action []"
    by (simp add: step_TurnStarted step_turn_started_def settle_def)
  with epoch_never_goes_back [OF this] show ?thesis by blast
qed

theorem permissions_are_counted:
  assumes "unat (pending k ra) + n < 2 ^ 32" and "j \<le> n"
    and st: "st = SessionState.Running e saw seen ra subs"
    and st': "st' = step_list st (replicate n (Permission r k m t i) @ replicate j (SessionEvent.PermissionResolved r' k))"
  shows "(is_requires_action st' \<longleftrightarrow> j < n \<or> is_requires_action st) \<and> (j = n \<longrightarrow> st' = st)"
proof -
  have st'_eq: "st' = SessionState.Running e saw seen (((bump_action sat_inc k) ^^ (n - j)) ra) subs"
    by (simp add: st' st step_list_permissions step_list_resolved bump_dec_incs [OF assms(1,2)])
  have "unat (pending k ra) + (n - j) < 2 ^ 32" using assms(1) by linarith
  from bump_incs_requires_action [OF this] show ?thesis
    unfolding st'_eq st using assms(2) by auto
qed

theorem permissions_are_counted_witness:
  "is_requires_action (step_list (SessionState.Running 7 False False no_requires_action [])
     (replicate 2 (Permission ''r'' Tool None None None :: unit SessionEvent) @ replicate 1 (SessionEvent.PermissionResolved ''r'' Tool)))"
proof -
  have "unat (pending Tool no_requires_action) + 2 < 2 ^ 32"
    by (simp add: pending_def no_requires_action_def)
  from permissions_are_counted [OF this _ refl refl, of 1] show ?thesis by simp
qed

section \<open>The orchestrator\<close>

text \<open>
  C5: Whatever commands, backend events and reconnects happened, the cached snapshot of a
  session agrees with the live state machine and roster on can_send, can_queue, can_cancel and
  has_activity: a fold that does not push a snapshot has changed none of them.
\<close>

theorem latest_snapshot_never_stale:
  assumes "orch_reach acc orc" and "latest_snapshot orc sid = Some s"
  shows "sn_session_id s = sid \<and>
    sn_can_send s = can_send_message (fsm_of orc sid) \<and>
    sn_can_queue s = can_queue_message (fsm_of orc sid) acc \<and>
    sn_can_cancel s = can_cancel (fsm_of orc sid) \<and>
    sn_has_activity s =
      (has_foreground_activity (fsm_of orc sid) \<or> background_active (session_roster orc sid))"
proof -
  from assms(1) have "orch_inv acc orc" by (rule orch.reach_inv)
  with assms(2) have "snapshot_agrees acc orc sid s"
    by (simp add: latest_snapshot_def orch_inv_Some)
  then show ?thesis by (simp add: snapshot_agrees_def activity_def)
qed

theorem latest_snapshot_never_stale_witness:
  "\<exists>s. latest_snapshot demo_running ''s'' = Some s \<and> \<not> sn_can_send s \<and> sn_can_queue s \<and>
     sn_can_cancel s \<and> sn_has_activity s"
proof -
  obtain s where s: "latest_snapshot demo_running ''s'' = Some s" using demo_running_latest by blast
  from latest_snapshot_never_stale [OF demo_running_reach s] s show ?thesis
    by (simp add: demo_running_fsm can_send_message_def can_queue_message_def can_cancel_def
        view_simps no_requires_action_def)
qed

theorem lag_recovers_the_unlock:
  assumes "orch_reach acc orc"
  shows "subscribe_unlock_step None orc sid (RecvLagged n) = Emit (can_send_message (fsm_of orc sid))
    \<and> (latest_snapshot orc sid \<noteq> None \<longrightarrow>
        subscribe_unlock_step (latest_snapshot orc sid) orc sid r = Emit (can_send_message (fsm_of orc sid)))"
proof -
  from assms have inv: "orch_inv acc orc" by (rule orch.reach_inv)
  show ?thesis
  proof (cases "latest orc sid")
    case None
    with inv have "fsm_of orc sid = Idle" by (simp add: orch_inv_None)
    with None show ?thesis
      by (simp add: subscribe_unlock_step_def subscribe_state_step_def initial_snapshot_def
          can_send_message_def latest_snapshot_def)
  next
    case (Some s)
    with inv have "snapshot_agrees acc orc sid s" by (simp add: orch_inv_Some)
    with Some show ?thesis
      by (simp add: subscribe_unlock_step_def subscribe_state_step_def snapshot_agrees_def
          latest_snapshot_def)
  qed
qed

theorem lag_recovers_the_unlock_witness:
  "subscribe_unlock_step None demo_running ''s'' (RecvLagged 3) = Emit False"
  using lag_recovers_the_unlock [OF demo_running_reach, of "''s''" 3]
  by (simp add: demo_running_fsm can_send_message_def)

theorem terminal_oracle_agrees:
  assumes "orch_reach acc orc" and "fsm_of orc sid = Error r"
  shows "\<exists>gen. latest_terminal orc sid = Some (gen, Errored r)"
proof -
  from assms(1) have "terminal_recorded orc sid"
    using orch.reach_inv unfolding orch_inv_def by blast
  with assms(2) show ?thesis by (simp add: terminal_recorded_def latest_terminal_def)
qed

theorem terminal_oracle_agrees_witness:
  "\<exists>gen. latest_terminal demo_crashed ''s'' = Some (gen, Errored ErrorReason.Crashed)"
  by (rule terminal_oracle_agrees [OF demo_crashed_reach demo_crashed_fsm])

theorem process_loss_ends_activity:
  assumes "orch_reach acc orc" and "env_event env = Detached exit summary"
  shows "\<not> activity (fold_one acc env orc) (env_session_id env) \<and>
    is_settled (fsm_of (fold_one acc env orc) (env_session_id env))"
proof -
  let ?sid = "env_session_id env"
  from assms(1) have "orch_inv acc orc" by (rule orch.reach_inv)
  then have "fsm_of orc ?sid \<noteq> Starting"
    and seen: "\<not> (is_Running (fsm_of orc ?sid) \<and> terminal_result_seen (fsm_of orc ?sid))"
    by (auto simp: orch_inv_def)
  have ev: "folded_event env = Detached exit summary"
    using assms(2) by (simp add: folded_event_def restamp_epoch_def)
  have settled: "is_settled (fst (step (fsm_of orc ?sid) (folded_event env)))"
  proof (cases "is_settled (fsm_of orc ?sid)")
    case True
    then show ?thesis by (simp add: step_terminal_absorbing ev)
  next
    case False
    show ?thesis unfolding ev step_Detached_unsettled [OF False seen] by (simp add: is_settled_def)
  qed
  then have fs: "is_settled (folded_state env orc)" by (simp add: folded_state_def view_simps)
  moreover have "\<not> has_foreground_activity (folded_state env orc)"
    using fs by (cases "folded_state env orc") (simp_all add: is_settled_def view_simps)
  moreover have "folded_roster env orc = []"
    by (simp add: folded_roster_def fold_roster_def ev)
  ultimately show ?thesis
    by (simp add: fold_one_activity folded_activity_def fold_one_fsm background_active_def)
qed

theorem process_loss_ends_activity_witness:
  "activity demo_running ''s'' \<and> \<not> activity (fold_one True demo_lost demo_running) ''s''"
proof -
  have "activity demo_running ''s''"
    by (simp add: activity_def demo_running_fsm view_simps no_requires_action_def)
  moreover have "env_event demo_lost = Detached None None" and "env_session_id demo_lost = ''s''"
    by (simp_all add: demo_lost_def)
  ultimately show ?thesis using process_loss_ends_activity [OF demo_running_reach] by metis
qed

theorem sessions_do_not_interfere:
  assumes "sid \<noteq> env_session_id env"
  shows "fsm_of (fold_one acc env orc) sid = fsm_of orc sid \<and>
    session_roster (fold_one acc env orc) sid = session_roster orc sid \<and>
    latest_snapshot (fold_one acc env orc) sid = latest_snapshot orc sid \<and>
    latest_terminal (fold_one acc env orc) sid = latest_terminal orc sid"
  using assms by (simp add: fold_one_simps latest_snapshot_def latest_terminal_def)

theorem sessions_do_not_interfere_witness:
  "fsm_of (fold_one True (demo_lost\<lparr>env_session_id := ''other''\<rparr>) demo_running) ''s'' =
     fsm_of demo_running ''s''"
proof -
  have "''s'' \<noteq> env_session_id (demo_lost\<lparr>env_session_id := ''other''\<rparr>)" by simp
  from sessions_do_not_interfere [OF this] show ?thesis by blast
qed

text \<open>
  C16: A terminal result that carries no epoch and arrives late, stamped with the generation
  of an earlier turn, neither ends the turn that is running nor broadcasts a snapshot.
\<close>

theorem cancelled_turn_cannot_settle_the_next:
  assumes "orch_reach acc orc"
    and "fsm_of orc sid = SessionState.Running e saw seen ra subs"
    and "env = \<lparr>env_session_id = sid, env_turn_gen = gen,
                 env_event = TurnResult is_error status text 0 outcome\<rparr>"
    and "gen \<noteq> 0" and "gen < e"
  shows "fsm_of (fold_one acc env orc) sid = fsm_of orc sid \<and>
         state_tx (fold_one acc env orc) = state_tx orc"
proof -
  have ev: "folded_event env = TurnResult is_error status text gen outcome"
    and sid: "env_session_id env = sid"
    using assms(3) by (simp_all add: folded_event_def restamp_epoch_def)
  have step: "step (fsm_of orc sid) (folded_event env) = (fsm_of orc sid, [])"
    by (simp add: ev assms(2,4,5) stale_result_dropped)
  have "prune_terminal_subagents_on_boundary (fsm_of orc sid) = fsm_of orc sid"
    using orch.reach_inv [OF assms(1)] by (simp add: orch_inv_def)
  then have state: "folded_state env orc = fsm_of orc sid"
    by (simp add: folded_state_def sid step)
  moreover have "folded_roster env orc = session_roster orc sid"
    by (simp add: folded_roster_def sid ev fold_roster_def update_roster_def)
  ultimately have "\<not> fold_pushes env orc"
    by (simp add: fold_pushes_def folded_transitions_def sid step folded_activity_def activity_def)
  with state show ?thesis by (simp add: fold_one_fsm fold_one_state_tx sid)
qed

theorem cancelled_turn_cannot_settle_the_next_witness:
  "fsm_of (fold_one True \<lparr>env_session_id = ''s'', env_turn_gen = 6,
       env_event = TurnResult True None ''late'' 0 TurnOutcome.EndTurn\<rparr> demo_running) ''s'' =
     fsm_of demo_running ''s''"
  using cancelled_turn_cannot_settle_the_next [OF demo_running_reach demo_running_fsm refl] by simp

theorem finished_workflow_stays_finished:
  assumes "task_status roster ref = Some t" and "workflow_is_terminal t"
    and "\<forall>ev \<in> set evs. ev \<noteq> BackendSuspended \<and> (\<forall>x s. ev \<noteq> Detached x s)"
  shows "\<exists>t'. task_status (fold fold_roster evs roster) ref = Some t' \<and> workflow_is_terminal t'"
  using assms
proof (induction evs arbitrary: roster t)
  case (Cons ev evs)
  have "\<exists>t'. task_status (fold_roster ev roster) ref = Some t' \<and> workflow_is_terminal t'"
    using Cons.prems background.terminal_upsert [OF Cons.prems(1,2)]
    by (cases ev) (auto simp: fold_roster_def update_roster_def roster_detail_status)
  then show ?case using Cons.IH Cons.prems(3) by auto
qed simp

theorem finished_workflow_stays_finished_witness:
  "\<exists>t'. task_status (fold fold_roster
      [SubagentUpdate ''w'' None SubagentStatus.Running None :: unit SessionEvent, Cancel]
      (roster_upsert (''w'', None, WorkflowTaskStatus.Completed) [])) ''w'' = Some t' \<and> workflow_is_terminal t'"
proof (rule finished_workflow_stays_finished)
  show "task_status (roster_upsert (''w'', None, WorkflowTaskStatus.Completed) []) ''w'' =
      Some WorkflowTaskStatus.Completed"
    by (simp add: task_status_def roster_upsert_def)
qed (simp_all add: workflow_is_terminal_def)

theorem finished_subagent_stays_finished:
  assumes "subagent_status subs ref = Some t" and "subagent_is_terminal t"
  shows "\<exists>t'. subagent_status (roster_of (step_list (SessionState.Running e saw seen ra subs) (map update_of us))) ref
      = Some t' \<and> subagent_is_terminal t'"
  using foreground.terminal_absorbs [OF assms, of us] by (simp add: step_list_updates roster_of_def)

theorem finished_subagent_stays_finished_witness:
  "\<exists>t'. subagent_status (roster_of (step_list (SessionState.Running 7 False False no_requires_action
        [\<lparr>sa_ref = ''a'', sa_label = None, sa_status = SubagentStatus.Completed, sa_parent_ref = None\<rparr>])
      (map (update_of :: SubagentState \<Rightarrow> unit SessionEvent)
        [\<lparr>sa_ref = ''a'', sa_label = None, sa_status = SubagentStatus.Running, sa_parent_ref = None\<rparr>]))) ''a'' =
      Some t' \<and> subagent_is_terminal t'"
  by (rule finished_subagent_stays_finished [where t = SubagentStatus.Completed])
     (simp_all add: subagent_status_def subagent_is_terminal_def)

theorem late_progress_resurrects_subagent:
  assumes "orch_reach acc orc" and "fsm_of orc sid = SessionState.Running e saw seen ra subs"
    and "sa_status finished = SubagentStatus.Completed"
    and "late = finished\<lparr>sa_status := SubagentStatus.Running\<rparr>"
  shows "late \<in> set (roster_of (fsm_of
      (fold_one acc \<lparr>env_session_id = sid, env_turn_gen = gen, env_event = update_of late\<rparr>
        (fold_one acc \<lparr>env_session_id = sid, env_turn_gen = gen, env_event = update_of finished\<rparr> orc)) sid))"
proof -
  have "distinct (map sa_ref subs)"
    using orch.reach_inv [OF assms(1)] assms(2) by (auto simp: orch_inv_def roster_of_def dest: spec [where x = sid])
  then have "sa_ref late \<notin> sa_ref ` set (filter unfinished (upsert_subagent finished subs))"
    using pruned_ref_gone [of subs finished] assms(3,4) by simp
  then have "upsert_subagent late (filter unfinished (upsert_subagent finished subs)) =
      filter unfinished (upsert_subagent finished subs) @ [late]"
    by (rule upsert_new)
  moreover have "unfinished late" by (simp add: assms(4) unfinished_def)
  ultimately show ?thesis
    by (simp add: fold_update_Running [OF fold_update_Running [OF assms(2)]] roster_of_def)
qed

definition demo_finished :: SubagentState where
  "demo_finished = \<lparr>sa_ref = ''a'', sa_label = None, sa_status = SubagentStatus.Completed,
     sa_parent_ref = None\<rparr>"

theorem late_progress_resurrects_subagent_witness:
  "demo_finished\<lparr>sa_status := SubagentStatus.Running\<rparr> \<in> set (roster_of (fsm_of
      (fold_one True \<lparr>env_session_id = ''s'', env_turn_gen = 7,
           env_event = update_of (demo_finished\<lparr>sa_status := SubagentStatus.Running\<rparr>)\<rparr>
        (fold_one True \<lparr>env_session_id = ''s'', env_turn_gen = 7, env_event = update_of demo_finished\<rparr>
          demo_running)) ''s''))"
  by (rule late_progress_resurrects_subagent [OF demo_running_reach demo_running_fsm])
     (simp_all add: demo_finished_def)

theorem send_starts_the_turn:
  assumes "lowered orc = []" and "rc_admission receipt = AdmissionStarted"
    and "is_Running (fsm_of orc sid) \<Longrightarrow> since_epoch (fsm_of orc sid) < rc_turn_gen receipt"
  shows "\<exists>orc'. run_once acc backend_env (snd (send (Inr receipt) sid orc)) = (orc', False) \<and>
    fsm_of orc' sid = SessionState.Running (rc_turn_gen receipt) False False no_requires_action [] \<and>
    lowered orc' = []"
proof -
  let ?env = "\<lparr>env_session_id = sid, env_turn_gen = rc_turn_gen receipt,
               env_event = TurnStarted (rc_turn_gen receipt)\<rparr> :: 'a SessionEnvelope"
  have "run_once acc backend_env (snd (send (Inr receipt) sid orc)) = (fold_one acc ?env orc, False)"
    using assms(1,2) by (cases orc) (simp add: run_once_def send_def)
  moreover have "folded_state ?env orc =
      SessionState.Running (rc_turn_gen receipt) False False no_requires_action []"
    using assms(3)
    by (cases "fsm_of orc sid")
       (auto simp: folded_state_def folded_event_def restamp_epoch_def step_TurnStarted
          step_turn_started_def settle_def prune_terminal_subagents_on_boundary_def)
  ultimately show ?thesis using assms(1) by (simp add: fold_one_fsm fold_one_lowered)
qed

theorem send_starts_the_turn_witness:
  "\<exists>orc'. run_once True demo_lost (snd (send (Inr demo_receipt) ''s'' new_orchestrator)) = (orc', False) \<and>
     fsm_of orc' ''s'' = SessionState.Running 7 False False no_requires_action []"
  using send_starts_the_turn [of "new_orchestrator :: unit Orchestrator" demo_receipt "''s''" True demo_lost]
  by (auto simp: new_orchestrator_def demo_receipt_def fsm_of_def)

theorem phase_changes_are_persisted_as_state:
  assumes "classify ev = BackendProduced" and "external_phase (fst (step st ev)) \<noteq> external_phase st"
  shows "persist_tier ev = State \<or> persist_tier ev = DisplayAndState"
proof (rule ccontr)
  assume "\<not> ?thesis"
  with assms(1) have "external_phase (fst (step st ev)) = external_phase st"
    by (cases st; cases ev)
       (simp_all add: classify_def persist_tier_def step_def is_settled_def step_starting_def
          step_running_def step_subagent_update_def view_simps)
  with assms(2) show False by simp
qed

theorem phase_changes_are_persisted_as_state_witness:
  "persist_tier (Detached None None :: unit SessionEvent) = State \<or>
   persist_tier (Detached None None :: unit SessionEvent) = DisplayAndState"
proof (rule phase_changes_are_persisted_as_state)
  show "external_phase (fst (step (SessionState.Running 7 False False no_requires_action [])
      (Detached None None :: unit SessionEvent))) \<noteq>
      external_phase (SessionState.Running 7 False False no_requires_action [])"
    by (simp add: step_Running step_running_def step_detached_def crash_outcome_def settle_def
        external_phase_def view_simps no_requires_action_def)
qed (simp add: classify_def)

end
