(* ===== verification/Team_Work_Model.thy ===== *)
theory Team_Work_Model
  imports Core_Prelude
begin

text \<open>
  Data model of the team work coordinator: \<open>crates/tjuaeui-team/src/work_source.rs\<close> (where a
  piece of work comes from, and what follows from that) and
  \<open>crates/tjuaeui-team/src/work_coordinator/model.rs\<close> (intents, leases, batches, snapshots,
  summaries and the port to the team run). Strings that only classify a log line or a failure
  are kept as strings; \<open>usize\<close> counts of in-memory collections are natural numbers.

  The port trait \<open>RunCausalityPort\<close> is a record of functions over a port state, so that the
  coordinator is a definition over any port; the team run manager provides the real one.
\<close>

section \<open>Sources and priorities of work\<close>

datatype WorkPriority = Foreground | Control | Background

datatype WorkSource = UserMessage | UserIntervention | McpSendMessage | McpShutdownRequest
  | SpawnWelcome | TeamMembershipChanged | SpawnAttachFailure | IdleNotification
  | InterruptedNotification | ShutdownRejected | RecoveryDrain

fun work_priority :: "WorkSource \<Rightarrow> WorkPriority" where
  "work_priority UserMessage = Foreground"
| "work_priority UserIntervention = Foreground"
| "work_priority McpShutdownRequest = Control"
| "work_priority ShutdownRejected = Control"
| "work_priority McpSendMessage = Background"
| "work_priority SpawnWelcome = Background"
| "work_priority TeamMembershipChanged = Background"
| "work_priority SpawnAttachFailure = Background"
| "work_priority IdleNotification = Background"
| "work_priority InterruptedNotification = Background"
| "work_priority RecoveryDrain = Background"

definition resumes_paused_slot :: "WorkSource \<Rightarrow> bool" where
  "resumes_paused_slot src \<longleftrightarrow> src = UserMessage \<or> src = UserIntervention"

definition requires_mailbox_message :: "WorkSource \<Rightarrow> bool" where
  "requires_mailbox_message src \<longleftrightarrow>
     (case src of UserMessage \<Rightarrow> True | UserIntervention \<Rightarrow> True | McpSendMessage \<Rightarrow> True
      | McpShutdownRequest \<Rightarrow> True | SpawnWelcome \<Rightarrow> True | SpawnAttachFailure \<Rightarrow> True
      | InterruptedNotification \<Rightarrow> True | ShutdownRejected \<Rightarrow> True | RecoveryDrain \<Rightarrow> True
      | _ \<Rightarrow> False)"

fun work_source_display :: "WorkSource \<Rightarrow> string" where
  "work_source_display UserMessage = ''user_message''"
| "work_source_display UserIntervention = ''user_intervention''"
| "work_source_display McpSendMessage = ''mcp_send_message''"
| "work_source_display McpShutdownRequest = ''mcp_shutdown_request''"
| "work_source_display SpawnWelcome = ''spawn_welcome''"
| "work_source_display TeamMembershipChanged = ''team_membership_changed''"
| "work_source_display SpawnAttachFailure = ''spawn_attach_failure''"
| "work_source_display IdleNotification = ''idle_notification''"
| "work_source_display InterruptedNotification = ''interrupted_notification''"
| "work_source_display ShutdownRejected = ''shutdown_rejected''"
| "work_source_display RecoveryDrain = ''recovery_drain''"

text \<open>The order in which the coordinator serves the queues: foreground first.\<close>

instantiation WorkPriority :: linorder
begin

fun rank_WorkPriority :: "WorkPriority \<Rightarrow> nat" where
  "rank_WorkPriority Foreground = 0"
| "rank_WorkPriority Control = 1"
| "rank_WorkPriority Background = 2"

definition less_eq_WorkPriority :: "WorkPriority \<Rightarrow> WorkPriority \<Rightarrow> bool" where
  "less_eq_WorkPriority p q \<longleftrightarrow> rank_WorkPriority p \<le> rank_WorkPriority q"

definition less_WorkPriority :: "WorkPriority \<Rightarrow> WorkPriority \<Rightarrow> bool" where
  "less_WorkPriority p q \<longleftrightarrow> rank_WorkPriority p < rank_WorkPriority q"

instance
proof
  fix p q :: WorkPriority
  show "p \<le> q \<Longrightarrow> q \<le> p \<Longrightarrow> p = q"
    by (cases p; cases q) (simp_all add: less_eq_WorkPriority_def)
qed (auto simp: less_eq_WorkPriority_def less_WorkPriority_def)

end

section \<open>Intents, leases and batches\<close>

datatype TeamRunTargetRole = Lead | Teammate

datatype RuntimeConstraint =
    Ready
  | Starting (rc_operation_id: u64)
  | Failed (rc_operation_id: u64) (rc_classification: string)
  | Removing (rc_operation_id: u64)
  | SessionStopped

datatype SlotPhase = Idle | Queued | Starting | Running | Paused | Blocked

datatype WorkIntentState =
    Queued
  | Starting (is_batch_id: string) (is_operation_id: u64)
  | Running (is_batch_id: string) (is_operation_id: u64) (is_turn_id: string)
  | Completed
  | Failed (is_classification: string)
  | Cancelled (is_classification: string)

definition intent_is_terminal :: "WorkIntentState \<Rightarrow> bool" where
  "intent_is_terminal st \<longleftrightarrow>
     (case st of WorkIntentState.Completed \<Rightarrow> True | WorkIntentState.Failed _ \<Rightarrow> True
      | WorkIntentState.Cancelled _ \<Rightarrow> True | _ \<Rightarrow> False)"

definition intent_is_cancelled :: "WorkIntentState \<Rightarrow> bool" where
  "intent_is_cancelled st \<longleftrightarrow> (case st of WorkIntentState.Cancelled _ \<Rightarrow> True | _ \<Rightarrow> False)"

record WorkIntent =
  wi_intent_id :: string
  wi_session_generation :: string
  wi_slot_id :: string
  wi_role :: TeamRunTargetRole
  wi_source :: WorkSource
  wi_priority :: WorkPriority
  wi_mailbox_message_id :: "string option"
  wi_team_run_id :: "string option"
  wi_created_at_ms :: TimestampMs
  wi_state :: WorkIntentState

datatype CausalBinding =
    UserVisible
  | InheritRunningBatch (caller_slot_id: string)
  | ActiveRunOrBackground
  | Background
  | SystemInitiated (inherit_from: "string option")

record EnqueueRequest =
  rq_slot_id :: string
  rq_role :: TeamRunTargetRole
  rq_source :: WorkSource
  rq_binding :: CausalBinding

record EnqueueLease =
  el_lease_id :: string
  el_session_generation :: string
  el_slot_id :: string
  el_role :: TeamRunTargetRole
  el_source :: WorkSource
  el_team_run_id :: "string option"

record WorkBatch =
  wb_batch_id :: string
  wb_session_generation :: string
  wb_slot_id :: string
  wb_intent_ids :: "string list"
  wb_mailbox_message_ids :: "string list"
  wb_highest_priority :: WorkPriority
  wb_team_run_ids :: "string list"
  wb_operation_id :: u64

datatype ReconcileDecision =
    Claim WorkBatch
  | WaitingForCompletion
  | Blocked RuntimeConstraint
  | SettleSignals "string list"
  | Quiescent

datatype CommitResult = Committed | StaleOwner | Rejected

datatype StartCommitResult = Accepted | CancelImmediately | StaleOwner

datatype EnqueueDisposition = Accepted | Queued | BlockedRuntimeStarting

section \<open>Views and results\<close>

record SlotWorkSnapshot =
  sn_slot_id :: string
  sn_role :: TeamRunTargetRole
  sn_state :: SlotPhase
  sn_queued_foreground_count :: nat
  sn_queued_background_count :: nat
  sn_active_batch :: "WorkBatch option"
  sn_active_turn_id :: "string option"
  sn_active_turn_started_at_ms :: "TimestampMs option"
  sn_runtime_constraint :: RuntimeConstraint
  sn_team_run_id :: "string option"

record EnqueueCommit =
  ec_intent_id :: string
  ec_team_run_id :: "string option"
  ec_disposition :: EnqueueDisposition
  ec_slot :: SlotWorkSnapshot

record RunWorkSummary =
  su_team_run_id :: string
  su_queued_intent_count :: nat
  su_starting_batch_count :: nat
  su_running_batch_count :: nat
  su_active_enqueue_lease_count :: nat
  su_paused_intent_count :: nat
  su_failed_intent_count :: nat
  su_slots :: "SlotWorkSnapshot list"

record CoordinatorSnapshot =
  co_session_generation :: string
  co_slots :: "SlotWorkSnapshot list"
  co_active_run_summary :: "RunWorkSummary option"

record ReconcileProjection =
  created_recovery_intent_ids :: "string list"
  retained_intent_ids :: "string list"
  cleared_stale_intent_ids :: "string list"

record BatchCancelTarget =
  ct_batch :: WorkBatch
  ct_turn_id :: "string option"

record PauseWorkResult =
  pw_cancel_target :: "BatchCancelTarget option"
  pw_slot :: SlotWorkSnapshot

record RemoveWorkResult =
  rw_cancel_target :: "BatchCancelTarget option"
  rw_terminal_message_ids :: "string list"
  rw_affected_run_summaries :: "RunWorkSummary list"

record CancelRunWorkResult =
  cr_cancel_targets :: "BatchCancelTarget list"
  cr_terminal_message_ids :: "string list"
  cr_summary :: RunWorkSummary

record RuntimeConstraintUpdate =
  ru_slot :: SlotWorkSnapshot
  ru_terminal_message_ids :: "string list"
  ru_affected_run_summaries :: "RunWorkSummary list"

record RunBinding =
  rb_team_run_id :: "string option"
  rb_created_new_run :: bool
  rb_user_intervention :: bool

section \<open>Errors and the port\<close>

text \<open>
  The variants of \<open>TeamError\<close> the coordinator and the run manager return. The message of an
  \<open>InvalidRequest\<close> is kept as the template it is formatted from, with its arguments.
\<close>

datatype RequestFault =
    LeaseNoLongerActive
  | LeaseOwnerStale
  | RequiresMailboxMessage WorkSource
  | SlotRemoved string
  | SlotRuntimeFailed string string
  | SlotBeingRemoved string
  | SessionStoppedForSlot string
  | RunNotActive string

datatype TeamError = AgentNotFound string | InvalidRequest RequestFault

text \<open>
  The port to the team run: the two binding calls return a binding and may open a run; the
  other calls only change the port's state.
\<close>

record 'p RunCausalityPort =
  port_bind_enqueue :: "EnqueueRequest \<Rightarrow> 'p \<Rightarrow> RunBinding \<times> 'p"
  port_bind_system_enqueue :: "EnqueueRequest \<Rightarrow> 'p \<Rightarrow> RunBinding \<times> 'p"
  port_abort_binding :: "RunBinding \<Rightarrow> 'p \<Rightarrow> 'p"
  port_apply_work_summary :: "RunWorkSummary \<Rightarrow> 'p \<Rightarrow> 'p"
  port_publish_slot_work :: "SlotWorkSnapshot \<Rightarrow> 'p \<Rightarrow> 'p"

text \<open>
  What an operation asks of the port after it has released its lock, in order.
\<close>

datatype PortCall =
    AbortBinding RunBinding
  | ApplyWorkSummary RunWorkSummary
  | PublishSlotWork SlotWorkSnapshot

fun port_call :: "'p RunCausalityPort \<Rightarrow> PortCall \<Rightarrow> 'p \<Rightarrow> 'p" where
  "port_call port (AbortBinding b) p = port_abort_binding port b p"
| "port_call port (ApplyWorkSummary su) p = port_apply_work_summary port su p"
| "port_call port (PublishSlotWork sn) p = port_publish_slot_work port sn p"

definition run_port_calls :: "'p RunCausalityPort \<Rightarrow> PortCall list \<Rightarrow> 'p \<Rightarrow> 'p" where
  "run_port_calls port calls p = fold (port_call port) calls p"

section \<open>Facts about sources\<close>

text \<open>
  A source that resumes a paused slot always carries a mailbox message and is served in the
  foreground; the two notification sources without a message are background work.
\<close>

lemma resuming_sources:
  "resumes_paused_slot src \<longleftrightarrow> work_priority src = Foreground"
  "resumes_paused_slot src \<Longrightarrow> requires_mailbox_message src"
  "\<not> requires_mailbox_message src \<Longrightarrow> work_priority src = WorkPriority.Background"
  by (cases src; simp add: resumes_paused_slot_def requires_mailbox_message_def)+

lemma work_source_display_inject:
  "work_source_display a = work_source_display b \<Longrightarrow> a = b"
  by (cases a; cases b; simp)

lemma priority_le_simps [simp]:
  "Foreground \<le> p" "p \<le> WorkPriority.Background"
  by (cases p; simp add: less_eq_WorkPriority_def)+

lemma priority_less_cases:
  "p < Control \<longleftrightarrow> p = Foreground" "p < WorkPriority.Background \<longleftrightarrow> p \<noteq> WorkPriority.Background"
  "\<not> p < Foreground"
  by (cases p; simp add: less_WorkPriority_def)+

lemma intent_is_terminal_simps [simp]:
  "\<not> intent_is_terminal WorkIntentState.Queued"
  "\<not> intent_is_terminal (WorkIntentState.Starting b n)"
  "\<not> intent_is_terminal (WorkIntentState.Running b n t)"
  "intent_is_terminal WorkIntentState.Completed"
  "intent_is_terminal (WorkIntentState.Failed c)"
  "intent_is_terminal (WorkIntentState.Cancelled c)"
  by (simp_all add: intent_is_terminal_def)

end
