(* ===== verification/Team_Coordinator.thy ===== *)
theory Team_Coordinator
  imports Team_Work_Model "HOL-Library.Monad_Syntax" "HOL-Library.Product_Lexorder"
begin

text \<open>
  The slot work coordinator of a team session:
  \<open>crates/tjuaeui-team/src/work_coordinator/coordinator.rs\<close> and \<open>snapshot.rs\<close>.

  Every operation of \<open>SlotWorkCoordinator\<close> runs under one mutex, so it is a function from the
  coordinator state to a result, the new state and the port calls it makes after releasing the
  mutex. \<open>generate_id\<close> and \<open>now_ms\<close> are arguments (the operation that may draw several gets a
  supply of them). A panic (\<open>expect\<close>, \<open>unreachable!\<close>) is \<open>None\<close>. The fixed fields of the
  coordinator are arguments too: \<open>gen\<close> is \<open>session_generation\<close>; \<open>team_id\<close> is only logged.
\<close>

section \<open>State\<close>

record EnqueueLeaseRecord =
  lr_lease :: EnqueueLease
  lr_binding :: RunBinding

record ActiveBatch =
  ab_batch :: WorkBatch
  ab_turn_id :: "string option"
  ab_started_at_ms :: "TimestampMs option"

record SlotState =
  ss_role :: TeamRunTargetRole
  ss_foreground :: "string list"
  ss_control :: "string list"
  ss_background :: "string list"
  ss_active :: "ActiveBatch option"
  ss_paused :: bool
  ss_runtime_constraint :: RuntimeConstraint
  ss_known_unread_message_ids :: "string set"
  ss_removed :: bool

definition new_slot_state :: "TeamRunTargetRole \<Rightarrow> SlotState" where
  "new_slot_state role = \<lparr>
     ss_role = role, ss_foreground = [], ss_control = [], ss_background = [], ss_active = None,
     ss_paused = False, ss_runtime_constraint = RuntimeConstraint.Starting 0,
     ss_known_unread_message_ids = {}, ss_removed = False \<rparr>"

fun queue :: "SlotState \<Rightarrow> WorkPriority \<Rightarrow> string list" where
  "queue sl Foreground = ss_foreground sl"
| "queue sl Control = ss_control sl"
| "queue sl WorkPriority.Background = ss_background sl"

fun queue_mut :: "WorkPriority \<Rightarrow> (string list \<Rightarrow> string list) \<Rightarrow> SlotState \<Rightarrow> SlotState" where
  "queue_mut Foreground f sl = sl\<lparr>ss_foreground := f (ss_foreground sl)\<rparr>"
| "queue_mut Control f sl = sl\<lparr>ss_control := f (ss_control sl)\<rparr>"
| "queue_mut WorkPriority.Background f sl = sl\<lparr>ss_background := f (ss_background sl)\<rparr>"

definition queued_ids :: "SlotState \<Rightarrow> string list" where
  "queued_ids sl = ss_foreground sl @ ss_control sl @ ss_background sl"

definition remove_queued :: "string \<Rightarrow> SlotState \<Rightarrow> SlotState" where
  "remove_queued intent_id sl = sl\<lparr>
     ss_foreground := filter (\<lambda>candidate. candidate \<noteq> intent_id) (ss_foreground sl),
     ss_control := filter (\<lambda>candidate. candidate \<noteq> intent_id) (ss_control sl),
     ss_background := filter (\<lambda>candidate. candidate \<noteq> intent_id) (ss_background sl)\<rparr>"

record CoordinatorState =
  cs_slots :: "(string \<times> SlotState) list"
  cs_intents :: "(string \<times> WorkIntent) list"
  cs_enqueue_leases :: "(string \<times> EnqueueLeaseRecord) list"
  cs_next_operation_id :: u64

definition new_coordinator_state :: CoordinatorState where
  "new_coordinator_state =
     \<lparr> cs_slots = [], cs_intents = [], cs_enqueue_leases = [], cs_next_operation_id = 0 \<rparr>"

type_synonym 'r op_result = "'r \<times> CoordinatorState \<times> PortCall list"

abbreviation set_state :: "WorkIntentState \<Rightarrow> WorkIntent \<Rightarrow> WorkIntent" where
  "set_state st i \<equiv> i\<lparr>wi_state := st\<rparr>"

abbreviation upd_slot :: "string \<Rightarrow> (SlotState \<Rightarrow> SlotState) \<Rightarrow> CoordinatorState \<Rightarrow> CoordinatorState" where
  "upd_slot sid f s \<equiv> s\<lparr>cs_slots := AList.map_entry sid f (cs_slots s)\<rparr>"

abbreviation put_slot :: "string \<Rightarrow> SlotState \<Rightarrow> CoordinatorState \<Rightarrow> CoordinatorState" where
  "put_slot sid sl s \<equiv> s\<lparr>cs_slots := AList.update sid sl (cs_slots s)\<rparr>"

abbreviation set_states :: "string list \<Rightarrow> WorkIntentState \<Rightarrow> CoordinatorState \<Rightarrow> CoordinatorState" where
  "set_states ids st s \<equiv> s\<lparr>cs_intents := map_entries ids (set_state st) (cs_intents s)\<rparr>"

text \<open>\<open>state.slots.entry(slot_id).or_insert_with(|| SlotState::new(role))\<close>\<close>

definition slot_entry :: "TeamRunTargetRole \<Rightarrow> string \<Rightarrow> CoordinatorState \<Rightarrow> SlotState" where
  "slot_entry role sid s = or_default (new_slot_state role) (map_of (cs_slots s) sid)"

section \<open>Snapshots and summaries\<close>

definition slot_phase :: "SlotState \<Rightarrow> SlotPhase" where
  "slot_phase sl =
     (if ss_paused sl then Paused
      else if Option.bind (ss_active sl) ab_turn_id \<noteq> None then SlotPhase.Running
      else if ss_active sl \<noteq> None then SlotPhase.Starting
      else if ss_runtime_constraint sl \<noteq> Ready then SlotPhase.Blocked
      else if queued_ids sl \<noteq> [] then SlotPhase.Queued
      else Idle)"

definition active_run_id :: "SlotState \<Rightarrow> string option" where
  "active_run_id sl =
     (case ss_active sl of None \<Rightarrow> None
      | Some a \<Rightarrow> (case wb_team_run_ids (ab_batch a) of [] \<Rightarrow> None | r # _ \<Rightarrow> Some r))"

definition slot_run_id :: "CoordinatorState \<Rightarrow> SlotState \<Rightarrow> string option" where
  "slot_run_id s sl =
     (case active_run_id sl of
        Some r \<Rightarrow> Some r
      | None \<Rightarrow> find_map (\<lambda>intent_id. Option.bind (map_of (cs_intents s) intent_id) wi_team_run_id)
                  (queued_ids sl))"

definition slot_snapshot_locked :: "CoordinatorState \<Rightarrow> string \<Rightarrow> SlotWorkSnapshot option" where
  "slot_snapshot_locked s slot_id =
     (case map_of (cs_slots s) slot_id of None \<Rightarrow> None | Some sl \<Rightarrow> Some \<lparr>
        sn_slot_id = slot_id,
        sn_role = ss_role sl,
        sn_state = slot_phase sl,
        sn_queued_foreground_count = length (ss_foreground sl),
        sn_queued_background_count = length (ss_control sl) + length (ss_background sl),
        sn_active_batch = map_option ab_batch (ss_active sl),
        sn_active_turn_id = Option.bind (ss_active sl) ab_turn_id,
        sn_active_turn_started_at_ms = Option.bind (ss_active sl) ab_started_at_ms,
        sn_runtime_constraint = ss_runtime_constraint sl,
        sn_team_run_id = slot_run_id s sl \<rparr>)"

definition associated :: "CoordinatorState \<Rightarrow> string \<Rightarrow> WorkIntent list" where
  "associated s team_run_id =
     filter (\<lambda>i. wi_team_run_id i = Some team_run_id) (map snd (cs_intents s))"

definition run_leases :: "CoordinatorState \<Rightarrow> string \<Rightarrow> EnqueueLease list" where
  "run_leases s team_run_id =
     filter (\<lambda>l. el_team_run_id l = Some team_run_id) (map (lr_lease \<circ> snd) (cs_enqueue_leases s))"

fun starting_batch :: "WorkIntentState \<Rightarrow> string option" where
  "starting_batch (WorkIntentState.Starting batch_id _) = Some batch_id"
| "starting_batch _ = None"

fun running_batch :: "WorkIntentState \<Rightarrow> string option" where
  "running_batch (WorkIntentState.Running batch_id _ _) = Some batch_id"
| "running_batch _ = None"

definition slot_is_paused :: "CoordinatorState \<Rightarrow> string \<Rightarrow> bool" where
  "slot_is_paused s slot_id \<longleftrightarrow>
     (case map_of (cs_slots s) slot_id of Some sl \<Rightarrow> ss_paused sl | None \<Rightarrow> False)"

definition is_failed_state :: "WorkIntentState \<Rightarrow> bool" where
  "is_failed_state st \<longleftrightarrow> (case st of WorkIntentState.Failed _ \<Rightarrow> True | _ \<Rightarrow> False)"

definition run_summary_locked :: "CoordinatorState \<Rightarrow> string \<Rightarrow> RunWorkSummary" where
  "run_summary_locked s team_run_id =
     (let assoc = associated s team_run_id;
          leases = run_leases s team_run_id
      in \<lparr>
        su_team_run_id = team_run_id,
        su_queued_intent_count =
          length (filter (\<lambda>i. wi_state i = WorkIntentState.Queued) assoc),
        su_starting_batch_count =
          length (remdups (List.map_filter (starting_batch \<circ> wi_state) assoc)),
        su_running_batch_count =
          length (remdups (List.map_filter (running_batch \<circ> wi_state) assoc)),
        su_active_enqueue_lease_count = length leases,
        su_paused_intent_count =
          length (filter (\<lambda>i. wi_state i = WorkIntentState.Queued \<and> slot_is_paused s (wi_slot_id i)) assoc),
        su_failed_intent_count = length (filter (is_failed_state \<circ> wi_state) assoc),
        su_slots = List.map_filter (slot_snapshot_locked s)
          (btree_set (map wi_slot_id assoc @ map el_slot_id leases)) \<rparr>)"

definition run_summaries_locked :: "CoordinatorState \<Rightarrow> string list \<Rightarrow> RunWorkSummary list" where
  "run_summaries_locked s run_ids = map (run_summary_locked s) (btree_set run_ids)"

definition all_run_ids :: "CoordinatorState \<Rightarrow> string list" where
  "all_run_ids s = btree_set
     (List.map_filter wi_team_run_id (map snd (cs_intents s)) @
      List.map_filter (el_team_run_id \<circ> lr_lease) (map snd (cs_enqueue_leases s)))"

definition publish_run_summaries :: "RunWorkSummary list \<Rightarrow> PortCall list" where
  "publish_run_summaries summaries = map ApplyWorkSummary summaries"

definition publish_slot_work_snapshot :: "SlotWorkSnapshot option \<Rightarrow> PortCall list" where
  "publish_slot_work_snapshot sn = (case sn of None \<Rightarrow> [] | Some x \<Rightarrow> [PublishSlotWork x])"

definition slot_snapshot :: "CoordinatorState \<Rightarrow> string \<Rightarrow> SlotWorkSnapshot option" where
  "slot_snapshot s slot_id = slot_snapshot_locked s slot_id"

definition has_live_work :: "RunWorkSummary \<Rightarrow> bool" where
  "has_live_work su \<longleftrightarrow>
     su_queued_intent_count su > 0 \<or> su_starting_batch_count su > 0 \<or> su_running_batch_count su > 0
     \<or> su_active_enqueue_lease_count su > 0 \<or> su_paused_intent_count su > 0"

definition snapshot :: "string \<Rightarrow> CoordinatorState \<Rightarrow> CoordinatorSnapshot" where
  "snapshot gen s = \<lparr>
     co_session_generation = gen,
     co_slots = List.map_filter (slot_snapshot_locked s) (btree_set (map fst (cs_slots s))),
     co_active_run_summary = List.find has_live_work (map (run_summary_locked s) (all_run_ids s)) \<rparr>"

section \<open>Enqueueing work\<close>

definition validate_enqueue_constraint :: "string \<Rightarrow> SlotState \<Rightarrow> TeamError + unit" where
  "validate_enqueue_constraint slot_id sl =
     (if ss_removed sl then Inl (InvalidRequest (SlotRemoved slot_id))
      else case ss_runtime_constraint sl of
        Ready \<Rightarrow> Inr ()
      | RuntimeConstraint.Starting _ \<Rightarrow> Inr ()
      | RuntimeConstraint.Failed _ classification \<Rightarrow>
          Inl (InvalidRequest (SlotRuntimeFailed classification slot_id))
      | Removing _ \<Rightarrow> Inl (InvalidRequest (SlotBeingRemoved slot_id))
      | SessionStopped \<Rightarrow> Inl (InvalidRequest (SessionStoppedForSlot slot_id)))"

abbreviation no_binding :: "string option \<Rightarrow> RunBinding" where
  "no_binding run \<equiv> \<lparr> rb_team_run_id = run, rb_created_new_run = False, rb_user_intervention = False \<rparr>"

definition inherited_run :: "CoordinatorState \<Rightarrow> string \<Rightarrow> string option" where
  "inherited_run s slot_id = Option.bind (map_of (cs_slots s) slot_id) active_run_id"

definition resolve_binding ::
  "'p RunCausalityPort \<Rightarrow> CoordinatorState \<Rightarrow> EnqueueRequest \<Rightarrow> 'p \<Rightarrow> RunBinding \<times> 'p" where
  "resolve_binding port s request p =
     (case rq_binding request of
        CausalBinding.Background \<Rightarrow> (no_binding None, p)
      | InheritRunningBatch caller \<Rightarrow> (no_binding (inherited_run s caller), p)
      | UserVisible \<Rightarrow> port_bind_enqueue port request p
      | ActiveRunOrBackground \<Rightarrow> port_bind_enqueue port request p
      | SystemInitiated from \<Rightarrow>
          (case Option.bind from (inherited_run s) of
             Some run \<Rightarrow> (no_binding (Some run), p)
           | None \<Rightarrow> port_bind_system_enqueue port request p))"

definition acquire_enqueue ::
  "string \<Rightarrow> 'p RunCausalityPort \<Rightarrow> string \<Rightarrow> EnqueueRequest \<Rightarrow> CoordinatorState \<Rightarrow> 'p
     \<Rightarrow> (TeamError + EnqueueLease) \<times> CoordinatorState \<times> 'p" where
  "acquire_enqueue gen port lease_id request s p =
     (let sid = rq_slot_id request;
          sl = (slot_entry (rq_role request) sid s)\<lparr>ss_role := rq_role request\<rparr>;
          s1 = put_slot sid sl s
      in case validate_enqueue_constraint sid sl of
          Inl e \<Rightarrow> (Inl e, s1, p)
        | Inr _ \<Rightarrow>
            (case resolve_binding port s1 request p of (binding, p') \<Rightarrow>
               let lease = \<lparr> el_lease_id = lease_id, el_session_generation = gen, el_slot_id = sid,
                     el_role = rq_role request, el_source = rq_source request,
                     el_team_run_id = rb_team_run_id binding \<rparr>
               in (Inr lease,
                   s1\<lparr>cs_enqueue_leases := AList.update lease_id
                        \<lparr> lr_lease = lease, lr_binding = binding \<rparr> (cs_enqueue_leases s1)\<rparr>,
                   p')))"

definition enqueue_disposition :: "SlotState \<Rightarrow> EnqueueDisposition option" where
  "enqueue_disposition sl =
     (case ss_runtime_constraint sl of
        RuntimeConstraint.Starting _ \<Rightarrow> Some BlockedRuntimeStarting
      | Ready \<Rightarrow> if ss_active sl = None \<and> queued_ids sl = [] then Some EnqueueDisposition.Accepted
                 else Some EnqueueDisposition.Queued
      | _ \<Rightarrow> None)"

definition commit_intent ::
  "string \<Rightarrow> string \<Rightarrow> TimestampMs \<Rightarrow> EnqueueLease \<Rightarrow> string option \<Rightarrow> WorkIntent" where
  "commit_intent gen intent_id now lease message_id = \<lparr>
     wi_intent_id = intent_id, wi_session_generation = gen, wi_slot_id = el_slot_id lease,
     wi_role = el_role lease, wi_source = el_source lease,
     wi_priority = work_priority (el_source lease), wi_mailbox_message_id = message_id,
     wi_team_run_id = el_team_run_id lease, wi_created_at_ms = now,
     wi_state = WorkIntentState.Queued \<rparr>"

definition commit_slot :: "EnqueueLease \<Rightarrow> string option \<Rightarrow> WorkIntent \<Rightarrow> SlotState \<Rightarrow> SlotState" where
  "commit_slot lease message_id intent sl =
     (let sl1 = (if resumes_paused_slot (el_source lease) then sl\<lparr>ss_paused := False\<rparr> else sl);
          sl2 = (case message_id of None \<Rightarrow> sl1
                 | Some m \<Rightarrow> sl1\<lparr>ss_known_unread_message_ids := insert m (ss_known_unread_message_ids sl1)\<rparr>)
      in queue_mut (wi_priority intent) (\<lambda>q. q @ [wi_intent_id intent]) sl2)"

definition commit_enqueue ::
  "string \<Rightarrow> string \<Rightarrow> TimestampMs \<Rightarrow> EnqueueLease \<Rightarrow> string option \<Rightarrow> CoordinatorState
     \<Rightarrow> (TeamError + EnqueueCommit) op_result option" where
  "commit_enqueue gen intent_id now lease message_id s =
     (case map_of (cs_enqueue_leases s) (el_lease_id lease) of
        None \<Rightarrow> Some (Inl (InvalidRequest LeaseNoLongerActive), s, [])
      | Some rec \<Rightarrow>
          if lr_lease rec \<noteq> lease \<or> el_session_generation lease \<noteq> gen
          then Some (Inl (InvalidRequest LeaseOwnerStale), s, [])
          else if requires_mailbox_message (el_source lease) \<and> message_id = None
          then Some (Inl (InvalidRequest (RequiresMailboxMessage (el_source lease))), s, [])
          else case map_of (cs_slots s) (el_slot_id lease) of
            None \<Rightarrow> Some (Inl (AgentNotFound (el_slot_id lease)), s, [])
          | Some sl \<Rightarrow>
              (case validate_enqueue_constraint (el_slot_id lease) sl of
                 Inl e \<Rightarrow> Some (Inl e, s, [])
               | Inr _ \<Rightarrow> do {
                   disposition \<leftarrow> enqueue_disposition sl;
                   let intent = commit_intent gen intent_id now lease message_id;
                   let s1 = s\<lparr>cs_enqueue_leases := AList.delete (el_lease_id lease) (cs_enqueue_leases s),
                              cs_intents := AList.update intent_id intent (cs_intents s)\<rparr>;
                   _ \<leftarrow> map_of (cs_slots s1) (el_slot_id lease);
                   let s2 = upd_slot (el_slot_id lease) (commit_slot lease message_id intent) s1;
                   slot \<leftarrow> slot_snapshot_locked s2 (el_slot_id lease);
                   Some (Inr \<lparr> ec_intent_id = intent_id, ec_team_run_id = el_team_run_id lease,
                               ec_disposition = disposition, ec_slot = slot \<rparr>,
                         s2,
                         publish_run_summaries
                           (run_summaries_locked s2 (case el_team_run_id lease of None \<Rightarrow> [] | Some r \<Rightarrow> [r]))
                         @ publish_slot_work_snapshot (Some slot))
                 }))"

definition run_is_empty :: "CoordinatorState \<Rightarrow> string \<Rightarrow> bool" where
  "run_is_empty s run \<longleftrightarrow> associated s run = [] \<and> run_leases s run = []"

definition abort_enqueue :: "string \<Rightarrow> EnqueueLease \<Rightarrow> CoordinatorState \<Rightarrow> CommitResult op_result" where
  "abort_enqueue gen lease s =
     (case map_of (cs_enqueue_leases s) (el_lease_id lease) of
        None \<Rightarrow> (CommitResult.StaleOwner, s, [])
      | Some rec \<Rightarrow>
          let s1 = s\<lparr>cs_enqueue_leases := AList.delete (el_lease_id lease) (cs_enqueue_leases s)\<rparr>
          in if lr_lease rec \<noteq> lease \<or> el_session_generation lease \<noteq> gen
             then (CommitResult.StaleOwner,
                   s1\<lparr>cs_enqueue_leases :=
                        AList.update (el_lease_id (lr_lease rec)) rec (cs_enqueue_leases s1)\<rparr>, [])
             else (Committed, s1,
               (case el_team_run_id lease of
                  None \<Rightarrow> []
                | Some run \<Rightarrow> if run_is_empty s1 run then [AbortBinding (lr_binding rec)] else [])
               @ publish_run_summaries
                   (run_summaries_locked s1 (case el_team_run_id lease of None \<Rightarrow> [] | Some r \<Rightarrow> [r]))
               @ publish_slot_work_snapshot (slot_snapshot_locked s1 (el_slot_id lease))))"

section \<open>Reconciling with the mailbox\<close>

text \<open>
  The first loop sorts the queued intents into those whose message is still unread (or that
  have none) and those to clear; the second creates a recovery intent for every unread message
  that no live intent of the slot owns. The supply \<open>ids\<close>, \<open>nows\<close> gives the id and the time
  drawn for the n-th message.
\<close>

definition keeps_intent :: "string list \<Rightarrow> WorkIntent \<Rightarrow> bool" where
  "keeps_intent unread i \<longleftrightarrow>
     (case wi_mailbox_message_id i of None \<Rightarrow> True | Some m \<Rightarrow> m \<in> set unread)"

definition owns_message :: "string \<Rightarrow> string \<Rightarrow> WorkIntent \<Rightarrow> bool" where
  "owns_message slot_id message_id i \<longleftrightarrow>
     wi_slot_id i = slot_id \<and> wi_mailbox_message_id i = Some message_id
     \<and> \<not> intent_is_terminal (wi_state i)"

definition recovery_intent ::
  "string \<Rightarrow> string \<Rightarrow> TimestampMs \<Rightarrow> string \<Rightarrow> TeamRunTargetRole \<Rightarrow> string \<Rightarrow> WorkIntent" where
  "recovery_intent gen intent_id now slot_id role message_id = \<lparr>
     wi_intent_id = intent_id, wi_session_generation = gen, wi_slot_id = slot_id, wi_role = role,
     wi_source = RecoveryDrain, wi_priority = WorkPriority.Background,
     wi_mailbox_message_id = Some message_id, wi_team_run_id = None, wi_created_at_ms = now,
     wi_state = WorkIntentState.Queued \<rparr>"

fun recover_messages ::
  "string \<Rightarrow> string \<Rightarrow> TeamRunTargetRole \<Rightarrow> (string \<times> string \<times> TimestampMs) list
     \<Rightarrow> CoordinatorState \<times> string list \<Rightarrow> (CoordinatorState \<times> string list) option" where
  "recover_messages gen slot_id role [] (s, created) = Some (s, created)"
| "recover_messages gen slot_id role ((message_id, intent_id, now) # rest) (s, created) =
     (if \<exists>i \<in> set (map snd (cs_intents s)). owns_message slot_id message_id i
      then recover_messages gen slot_id role rest (s, created)
      else case map_of (cs_slots s) slot_id of
        None \<Rightarrow> None
      | Some _ \<Rightarrow> recover_messages gen slot_id role rest
          (upd_slot slot_id (\<lambda>sl. sl\<lparr>ss_background := ss_background sl @ [intent_id]\<rparr>)
             (s\<lparr>cs_intents := AList.update intent_id
                  (recovery_intent gen intent_id now slot_id role message_id) (cs_intents s)\<rparr>),
           created @ [intent_id]))"

definition reconcile_mailbox ::
  "string \<Rightarrow> (nat \<Rightarrow> string) \<Rightarrow> (nat \<Rightarrow> TimestampMs) \<Rightarrow> string \<Rightarrow> string list \<Rightarrow> TeamRunTargetRole
     \<Rightarrow> CoordinatorState \<Rightarrow> (ReconcileProjection \<times> CoordinatorState) option" where
  "reconcile_mailbox gen ids nows slot_id unread role s = do {
     let sl = (slot_entry role slot_id s)\<lparr>ss_role := role, ss_known_unread_message_ids := set unread\<rparr>;
     let s1 = put_slot slot_id sl s;
     let candidates = filter (\<lambda>k. map_of (cs_intents s1) k \<noteq> None) (queued_ids sl);
     let keeps = (\<lambda>k. case map_of (cs_intents s1) k of None \<Rightarrow> False | Some i \<Rightarrow> keeps_intent unread i);
     let retained = filter keeps candidates;
     let cleared = filter (\<lambda>k. \<not> keeps k) candidates;
     let s2 = upd_slot slot_id (fold remove_queued cleared) (set_states cleared WorkIntentState.Completed s1);
     (s3, created) \<leftarrow> recover_messages gen slot_id role
        (zip unread (map (\<lambda>n. (ids n, nows n)) [0..<length unread])) (s2, []);
     Some (\<lparr> created_recovery_intent_ids = created, retained_intent_ids = retained,
             cleared_stale_intent_ids = cleared \<rparr>, s3)
   }"

section \<open>Claiming and starting a batch\<close>

definition has_message :: "CoordinatorState \<Rightarrow> string \<Rightarrow> bool" where
  "has_message s intent_id \<longleftrightarrow>
     (case map_of (cs_intents s) intent_id of None \<Rightarrow> False
      | Some i \<Rightarrow> wi_mailbox_message_id i \<noteq> None)"

definition claim_intent ::
  "string \<Rightarrow> u64 \<Rightarrow> string \<Rightarrow> (string \<times> WorkIntent) list \<times> string list \<times> string list
     \<Rightarrow> ((string \<times> WorkIntent) list \<times> string list \<times> string list) option" where
  "claim_intent batch_id operation_id intent_id acc =
     (case acc of (intents, messages, runs) \<Rightarrow> do {
        i \<leftarrow> map_of intents intent_id;
        Some (AList.map_entry intent_id (set_state (WorkIntentState.Starting batch_id operation_id)) intents,
              (case wi_mailbox_message_id i of None \<Rightarrow> messages | Some m \<Rightarrow> messages @ [m]),
              (case wi_team_run_id i of None \<Rightarrow> runs | Some r \<Rightarrow> push_new r runs))
      })"

definition selected_priority :: "SlotState \<Rightarrow> WorkPriority option" where
  "selected_priority sl =
     List.find (\<lambda>p. queue sl p \<noteq> []) [Foreground, Control, WorkPriority.Background]"

definition claim_batch ::
  "string \<Rightarrow> string \<Rightarrow> string \<Rightarrow> WorkPriority \<Rightarrow> string list \<Rightarrow> CoordinatorState
     \<Rightarrow> ReconcileDecision op_result option" where
  "claim_batch gen batch_id slot_id priority message_intent_ids s = do {
     let operation_id = sat_inc (cs_next_operation_id s);
     (intents, messages, runs) \<leftarrow>
        fold_expect (claim_intent batch_id operation_id) message_intent_ids (cs_intents s, [], []);
     let batch = \<lparr> wb_batch_id = batch_id, wb_session_generation = gen, wb_slot_id = slot_id,
           wb_intent_ids = message_intent_ids, wb_mailbox_message_ids = messages,
           wb_highest_priority = priority, wb_team_run_ids = runs, wb_operation_id = operation_id \<rparr>;
     _ \<leftarrow> map_of (cs_slots s) slot_id;
     let s2 = upd_slot slot_id
           (\<lambda>sl. (fold remove_queued message_intent_ids sl)
                \<lparr>ss_active := Some \<lparr> ab_batch = batch, ab_turn_id = None, ab_started_at_ms = None \<rparr>\<rparr>)
           (s\<lparr>cs_intents := intents, cs_next_operation_id := operation_id\<rparr>);
     Some (Claim batch, s2,
       publish_run_summaries (run_summaries_locked s2 runs)
       @ publish_slot_work_snapshot (slot_snapshot_locked s2 slot_id))
   }"

definition next_work ::
  "string \<Rightarrow> string \<Rightarrow> string \<Rightarrow> CoordinatorState \<Rightarrow> ReconcileDecision op_result option" where
  "next_work gen batch_id slot_id s =
     (case map_of (cs_slots s) slot_id of
        None \<Rightarrow> Some (Quiescent, s, [])
      | Some sl \<Rightarrow>
          if ss_active sl \<noteq> None then Some (WaitingForCompletion, s, [])
          else if ss_runtime_constraint sl \<noteq> Ready
          then Some (ReconcileDecision.Blocked (ss_runtime_constraint sl), s, [])
          else if ss_paused sl then Some (Quiescent, s, [])
          else case selected_priority sl of
            None \<Rightarrow> Some (Quiescent, s, [])
          | Some priority \<Rightarrow>
              let message_intent_ids = filter (has_message s) (queue sl priority)
              in if message_intent_ids = [] then Some (SettleSignals (queue sl priority), s, [])
                 else claim_batch gen batch_id slot_id priority message_intent_ids s)"

definition is_current_batch :: "string \<Rightarrow> CoordinatorState \<Rightarrow> WorkBatch \<Rightarrow> bool" where
  "is_current_batch gen s batch \<longleftrightarrow>
     wb_session_generation batch = gen
     \<and> (case Option.bind (map_of (cs_slots s) (wb_slot_id batch)) ss_active of
          None \<Rightarrow> False
        | Some a \<Rightarrow> wb_batch_id (ab_batch a) = wb_batch_id batch
            \<and> wb_operation_id (ab_batch a) = wb_operation_id batch
            \<and> wb_session_generation (ab_batch a) = wb_session_generation batch)"

definition batch_was_cancelled :: "CoordinatorState \<Rightarrow> WorkBatch \<Rightarrow> bool" where
  "batch_was_cancelled s batch \<longleftrightarrow>
     (\<forall>k \<in> set (wb_intent_ids batch).
        case map_of (cs_intents s) k of None \<Rightarrow> False | Some i \<Rightarrow> intent_is_cancelled (wi_state i))"

definition publish_batch :: "WorkBatch \<Rightarrow> CoordinatorState \<Rightarrow> PortCall list" where
  "publish_batch batch s =
     publish_run_summaries (run_summaries_locked s (wb_team_run_ids batch))
     @ publish_slot_work_snapshot (slot_snapshot_locked s (wb_slot_id batch))"

definition mark_started ::
  "string \<Rightarrow> TimestampMs \<Rightarrow> WorkBatch \<Rightarrow> string \<Rightarrow> CoordinatorState \<Rightarrow> StartCommitResult op_result" where
  "mark_started gen now batch turn_id s =
     (if \<not> is_current_batch gen s batch
      then (if batch_was_cancelled s batch then CancelImmediately else StartCommitResult.StaleOwner, s, [])
      else
        let cancel_immediately =
              (case map_of (cs_slots s) (wb_slot_id batch) of None \<Rightarrow> False
               | Some sl \<Rightarrow> ss_paused sl \<or> ss_runtime_constraint sl \<noteq> Ready);
            s1 = set_states (wb_intent_ids batch)
              (WorkIntentState.Running (wb_batch_id batch) (wb_operation_id batch) turn_id) s;
            s2 = upd_slot (wb_slot_id batch)
              (\<lambda>sl. sl\<lparr>ss_active := map_option
                  (\<lambda>a. a\<lparr>ab_turn_id := Some turn_id, ab_started_at_ms := Some now\<rparr>) (ss_active sl)\<rparr>) s1
        in (if cancel_immediately then CancelImmediately else StartCommitResult.Accepted, s2,
            publish_batch batch s2))"

definition retry_start :: "string \<Rightarrow> WorkBatch \<Rightarrow> CoordinatorState \<Rightarrow> CommitResult op_result option" where
  "retry_start gen batch s =
     (if \<not> is_current_batch gen s batch then Some (CommitResult.StaleOwner, s, [])
      else do {
        let s1 = set_states (wb_intent_ids batch) WorkIntentState.Queued s;
        _ \<leftarrow> map_of (cs_slots s1) (wb_slot_id batch);
        let s2 = upd_slot (wb_slot_id batch)
              (\<lambda>sl. fold (\<lambda>k. queue_mut (wb_highest_priority batch) (\<lambda>q. k # q)) (rev (wb_intent_ids batch))
                 (sl\<lparr>ss_active := None\<rparr>)) s1;
        Some (Committed, s2, publish_batch batch s2)
      })"

section \<open>Ending work\<close>

definition terminalize_batch ::
  "string \<Rightarrow> WorkBatch \<Rightarrow> WorkIntentState \<Rightarrow> CoordinatorState \<Rightarrow> CommitResult op_result option" where
  "terminalize_batch gen batch terminal_state s =
     (if \<not> is_current_batch gen s batch then Some (CommitResult.StaleOwner, s, [])
      else do {
        let s1 = set_states (wb_intent_ids batch) terminal_state s;
        _ \<leftarrow> map_of (cs_slots s1) (wb_slot_id batch);
        let s2 = upd_slot (wb_slot_id batch) (\<lambda>sl. sl\<lparr>ss_active := None\<rparr>) s1;
        Some (Committed, s2, publish_batch batch s2)
      })"

definition complete_batch :: "string \<Rightarrow> WorkBatch \<Rightarrow> CoordinatorState \<Rightarrow> CommitResult op_result option" where
  "complete_batch gen batch s = terminalize_batch gen batch WorkIntentState.Completed s"

definition fail_batch ::
  "string \<Rightarrow> WorkBatch \<Rightarrow> string \<Rightarrow> CoordinatorState \<Rightarrow> CommitResult op_result option" where
  "fail_batch gen batch classification s =
     terminalize_batch gen batch (WorkIntentState.Failed classification) s"

definition cancel_batch ::
  "string \<Rightarrow> WorkBatch \<Rightarrow> string \<Rightarrow> CoordinatorState \<Rightarrow> CommitResult op_result option" where
  "cancel_batch gen batch classification s =
     terminalize_batch gen batch (WorkIntentState.Cancelled classification) s"

text \<open>
  Cancelling a run: the active batches that hold work of the run lose that work and give the
  rest back to the front of its queues; then the queued intents and the leases of the run go.
\<close>

definition in_run :: "CoordinatorState \<Rightarrow> string \<Rightarrow> string \<Rightarrow> bool" where
  "in_run s team_run_id intent_id \<longleftrightarrow>
     (case map_of (cs_intents s) intent_id of None \<Rightarrow> False
      | Some i \<Rightarrow> wi_team_run_id i = Some team_run_id)"

definition run_active_slots :: "string \<Rightarrow> CoordinatorState \<Rightarrow> (string \<times> ActiveBatch) list" where
  "run_active_slots team_run_id s =
     List.map_filter (\<lambda>slot_id. do {
         sl \<leftarrow> map_of (cs_slots s) slot_id;
         a \<leftarrow> ss_active sl;
         if \<exists>k \<in> set (wb_intent_ids (ab_batch a)). in_run s team_run_id k then Some (slot_id, a) else None
       }) (btree_set (map fst (cs_slots s)))"

definition push_message :: "WorkIntent \<Rightarrow> string list \<Rightarrow> string list" where
  "push_message i messages =
     (case wi_mailbox_message_id i of None \<Rightarrow> messages | Some m \<Rightarrow> messages @ [m])"

definition cancel_or_retain ::
  "string \<Rightarrow> string \<Rightarrow> (string \<times> WorkIntent) list \<times> string list \<times> (WorkPriority \<times> string) list
     \<Rightarrow> ((string \<times> WorkIntent) list \<times> string list \<times> (WorkPriority \<times> string) list) option" where
  "cancel_or_retain team_run_id intent_id acc =
     (case acc of (intents, messages, retained) \<Rightarrow> do {
        i \<leftarrow> map_of intents intent_id;
        if wi_team_run_id i = Some team_run_id
        then Some (AList.map_entry intent_id (set_state (WorkIntentState.Cancelled ''run_cancelled'')) intents,
                   push_message i messages, retained)
        else Some (AList.map_entry intent_id (set_state WorkIntentState.Queued) intents,
                   messages, retained @ [(wi_priority i, intent_id)])
      })"

definition push_front_all :: "(WorkPriority \<times> string) list \<Rightarrow> SlotState \<Rightarrow> SlotState" where
  "push_front_all retained sl = fold (\<lambda>(p, k). queue_mut p (\<lambda>q. k # q)) (rev retained) sl"

definition cancel_active ::
  "string \<Rightarrow> string \<times> ActiveBatch \<Rightarrow> CoordinatorState \<times> BatchCancelTarget list \<times> string list
     \<Rightarrow> (CoordinatorState \<times> BatchCancelTarget list \<times> string list) option" where
  "cancel_active team_run_id slot_active acc =
     (case slot_active of (slot_id, a) \<Rightarrow> case acc of (s, targets, messages) \<Rightarrow> do {
        (intents, messages', retained) \<leftarrow>
          fold_expect (cancel_or_retain team_run_id) (wb_intent_ids (ab_batch a)) (cs_intents s, messages, []);
        _ \<leftarrow> map_of (cs_slots s) slot_id;
        Some (upd_slot slot_id (\<lambda>sl. push_front_all retained (sl\<lparr>ss_active := None\<rparr>)) (s\<lparr>cs_intents := intents\<rparr>),
              targets @ [\<lparr> ct_batch = ab_batch a, ct_turn_id = ab_turn_id a \<rparr>], messages')
      })"

definition cancel_queued ::
  "string \<Rightarrow> CoordinatorState \<times> string list \<Rightarrow> (CoordinatorState \<times> string list) option" where
  "cancel_queued intent_id acc =
     (case acc of (s, messages) \<Rightarrow> do {
        i \<leftarrow> map_of (cs_intents s) intent_id;
        Some (upd_slot (wi_slot_id i) (remove_queued intent_id)
                (s\<lparr>cs_intents := AList.map_entry intent_id
                     (set_state (WorkIntentState.Cancelled ''run_cancelled'')) (cs_intents s)\<rparr>),
              push_message i messages)
      })"

definition run_queued_ids :: "string \<Rightarrow> CoordinatorState \<Rightarrow> string list" where
  "run_queued_ids team_run_id s =
     map wi_intent_id (filter (\<lambda>i. wi_team_run_id i = Some team_run_id
       \<and> wi_state i = WorkIntentState.Queued) (map snd (cs_intents s)))"

definition cancel_run ::
  "string \<Rightarrow> CoordinatorState \<Rightarrow> CancelRunWorkResult op_result option" where
  "cancel_run team_run_id s = do {
     (s1, targets, messages) \<leftarrow>
        fold_expect (cancel_active team_run_id) (run_active_slots team_run_id s) (s, [], []);
     (s2, messages') \<leftarrow> fold_expect cancel_queued (run_queued_ids team_run_id s1) (s1, messages);
     let lease_ids = map el_lease_id (run_leases s2 team_run_id);
     let s3 = s2\<lparr>cs_enqueue_leases := fold AList.delete lease_ids (cs_enqueue_leases s2)\<rparr>;
     let summary = run_summary_locked s3 team_run_id;
     Some (\<lparr> cr_cancel_targets = targets, cr_terminal_message_ids = messages', cr_summary = summary \<rparr>,
           s3, [ApplyWorkSummary summary])
   }"

definition is_settlable :: "string \<Rightarrow> CoordinatorState \<Rightarrow> string \<Rightarrow> bool" where
  "is_settlable slot_id s intent_id \<longleftrightarrow>
     (case map_of (cs_intents s) intent_id of None \<Rightarrow> False
      | Some i \<Rightarrow> wi_slot_id i = slot_id \<and> wi_mailbox_message_id i = None
          \<and> wi_state i = WorkIntentState.Queued)"

definition settle_signal :: "string \<Rightarrow> string \<Rightarrow> CoordinatorState \<Rightarrow> CoordinatorState" where
  "settle_signal slot_id intent_id s =
     upd_slot slot_id (remove_queued intent_id) (set_states [intent_id] WorkIntentState.Completed s)"

definition complete_signals ::
  "string \<Rightarrow> string list \<Rightarrow> CoordinatorState \<Rightarrow> CommitResult op_result" where
  "complete_signals slot_id intent_ids s =
     (if \<not> (\<forall>k \<in> set intent_ids. is_settlable slot_id s k) then (Rejected, s, [])
      else
        let run_ids = List.map_filter (\<lambda>k. Option.bind (map_of (cs_intents s) k) wi_team_run_id) intent_ids;
            s1 = fold (settle_signal slot_id) intent_ids s
        in (Committed, s1, publish_run_summaries (run_summaries_locked s1 run_ids)))"

section \<open>Slot lifecycle\<close>

abbreviation cancel_target_of :: "SlotState \<Rightarrow> BatchCancelTarget option" where
  "cancel_target_of sl \<equiv>
     map_option (\<lambda>a. \<lparr> ct_batch = ab_batch a, ct_turn_id = ab_turn_id a \<rparr>) (ss_active sl)"

definition pause_slot :: "string \<Rightarrow> CoordinatorState \<Rightarrow> (PauseWorkResult \<times> CoordinatorState) option" where
  "pause_slot slot_id s = do {
     let sl = (slot_entry Teammate slot_id s)\<lparr>ss_paused := True\<rparr>;
     let s1 = put_slot slot_id sl s;
     sn \<leftarrow> slot_snapshot_locked s1 slot_id;
     Some (\<lparr> pw_cancel_target = cancel_target_of sl, pw_slot = sn \<rparr>, s1)
   }"

definition clear_work :: "SlotState \<Rightarrow> SlotState" where
  "clear_work sl = sl\<lparr>ss_foreground := [], ss_control := [], ss_background := [], ss_active := None\<rparr>"

text \<open>
  One round of the loop of \<open>set_runtime_constraint\<close>: an intent outside every run survives a
  failed runtime and is queued again; every other one ends.
\<close>

definition fail_intent ::
  "RuntimeConstraint \<Rightarrow> string \<Rightarrow> string
     \<Rightarrow> (string \<times> WorkIntent) list \<times> string list \<times> string list \<times> (WorkPriority \<times> string) list
     \<Rightarrow> ((string \<times> WorkIntent) list \<times> string list \<times> string list \<times> (WorkPriority \<times> string) list) option" where
  "fail_intent constraint classification intent_id acc =
     (case acc of (intents, messages, runs, requeue) \<Rightarrow> do {
        i \<leftarrow> map_of intents intent_id;
        if wi_team_run_id i = None \<and> constraint \<noteq> SessionStopped
        then Some (AList.map_entry intent_id (set_state WorkIntentState.Queued) intents,
                   messages, runs, requeue @ [(wi_priority i, intent_id)])
        else Some (AList.map_entry intent_id
                     (set_state (if constraint = SessionStopped
                        then WorkIntentState.Cancelled classification
                        else WorkIntentState.Failed classification)) intents,
                   push_message i messages,
                   (case wi_team_run_id i of None \<Rightarrow> runs | Some r \<Rightarrow> r # runs),
                   requeue)
      })"

definition live_intent_ids :: "string \<Rightarrow> CoordinatorState \<Rightarrow> string list" where
  "live_intent_ids slot_id s =
     map wi_intent_id (filter (\<lambda>i. wi_slot_id i = slot_id \<and> \<not> intent_is_terminal (wi_state i))
       (map snd (cs_intents s)))"

definition push_back_all :: "(WorkPriority \<times> string) list \<Rightarrow> SlotState \<Rightarrow> SlotState" where
  "push_back_all requeue sl = fold (\<lambda>(p, k). queue_mut p (\<lambda>q. q @ [k])) requeue sl"

definition end_constrained_work ::
  "string \<Rightarrow> RuntimeConstraint \<Rightarrow> string \<Rightarrow> CoordinatorState
     \<Rightarrow> (CoordinatorState \<times> string list \<times> string list) option" where
  "end_constrained_work slot_id constraint classification s = do {
     (intents, messages, runs, requeue) \<leftarrow>
        fold_expect (fail_intent constraint classification) (live_intent_ids slot_id s)
          (cs_intents s, [], [], []);
     _ \<leftarrow> map_of (cs_slots s) slot_id;
     Some (upd_slot slot_id (\<lambda>sl. push_back_all requeue (clear_work sl)) (s\<lparr>cs_intents := intents\<rparr>),
           messages, runs)
   }"

definition set_runtime_constraint ::
  "string \<Rightarrow> RuntimeConstraint \<Rightarrow> CoordinatorState \<Rightarrow> RuntimeConstraintUpdate op_result option" where
  "set_runtime_constraint slot_id constraint s = do {
     let s1 = put_slot slot_id ((slot_entry Teammate slot_id s)\<lparr>ss_runtime_constraint := constraint\<rparr>) s;
     (s2, messages, runs) \<leftarrow>
        (case constraint of
           RuntimeConstraint.Failed _ classification \<Rightarrow>
             end_constrained_work slot_id constraint classification s1
         | SessionStopped \<Rightarrow> end_constrained_work slot_id constraint ''session_stopped'' s1
         | _ \<Rightarrow> Some (s1, [], []));
     let summaries = run_summaries_locked s2 runs;
     sn \<leftarrow> slot_snapshot_locked s2 slot_id;
     Some (\<lparr> ru_slot = sn, ru_terminal_message_ids = messages, ru_affected_run_summaries = summaries \<rparr>,
           s2, publish_run_summaries summaries @ publish_slot_work_snapshot (Some sn))
   }"

definition remove_intent ::
  "string \<Rightarrow> (string \<times> WorkIntent) list \<times> string list \<times> string list
     \<Rightarrow> ((string \<times> WorkIntent) list \<times> string list \<times> string list) option" where
  "remove_intent intent_id acc =
     (case acc of (intents, messages, runs) \<Rightarrow> do {
        i \<leftarrow> map_of intents intent_id;
        Some (AList.map_entry intent_id (set_state (WorkIntentState.Cancelled ''slot_removed'')) intents,
              push_message i messages,
              (case wi_team_run_id i of None \<Rightarrow> runs | Some r \<Rightarrow> r # runs))
      })"

definition slot_work_ids :: "SlotState option \<Rightarrow> string list" where
  "slot_work_ids slot =
     (case slot of None \<Rightarrow> []
      | Some sl \<Rightarrow> (case ss_active sl of None \<Rightarrow> [] | Some a \<Rightarrow> wb_intent_ids (ab_batch a)) @ queued_ids sl)"

definition remaining_ids :: "string \<Rightarrow> string list \<Rightarrow> CoordinatorState \<Rightarrow> string list" where
  "remaining_ids slot_id already s =
     map wi_intent_id (sort_key (\<lambda>i. (wi_created_at_ms i, wi_intent_id i))
       (filter (\<lambda>i. wi_slot_id i = slot_id \<and> \<not> intent_is_terminal (wi_state i)
            \<and> wi_intent_id i \<notin> set already) (map snd (cs_intents s))))"

definition remove_slot :: "string \<Rightarrow> CoordinatorState \<Rightarrow> RemoveWorkResult op_result option" where
  "remove_slot slot_id s = do {
     let slot = map_of (cs_slots s) slot_id;
     let ordered = slot_work_ids slot;
     let intent_ids = ordered @ remaining_ids slot_id ordered s;
     (intents, messages, runs) \<leftarrow> fold_expect remove_intent intent_ids (cs_intents s, [], []);
     let s1 = upd_slot slot_id (\<lambda>sl. (clear_work sl)\<lparr>ss_removed := True\<rparr>) (s\<lparr>cs_intents := intents\<rparr>);
     let summaries = run_summaries_locked s1 runs;
     Some (\<lparr> rw_cancel_target = Option.bind slot cancel_target_of,
             rw_terminal_message_ids = messages, rw_affected_run_summaries = summaries \<rparr>,
           s1, publish_run_summaries summaries)
   }"

definition stop :: "CoordinatorState \<Rightarrow> RunWorkSummary list op_result" where
  "stop s =
     (let run_ids = all_run_ids s;
          s1 = s\<lparr>
            cs_intents := map (\<lambda>(k, i). (k, if intent_is_terminal (wi_state i) then i
              else set_state (WorkIntentState.Cancelled ''session_stopped'') i)) (cs_intents s),
            cs_slots := map (\<lambda>(k, sl). (k, (clear_work sl)\<lparr>ss_runtime_constraint := SessionStopped\<rparr>))
              (cs_slots s),
            cs_enqueue_leases := []\<rparr>;
          summaries = map (run_summary_locked s1) run_ids
      in (summaries, s1, publish_run_summaries summaries))"

section \<open>What the coordinator relies on\<close>

text \<open>
  The contract of the port as \<open>model.rs\<close> documents it: a system enqueue attaches to the active run
  or opens one, and never counts as a user intervention; a user enqueue does the same and counts
  as an intervention exactly when it joins a run; an opportunistic enqueue takes the active run as
  it is. The client is \<open>acquire_enqueue\<close>.
\<close>

locale run_causality_port =
  fixes port :: "'p RunCausalityPort"
    and active :: "'p \<Rightarrow> string option"
    and fresh :: string
  assumes system_binding: "port_bind_system_enqueue port rq p = (b, p') \<Longrightarrow>
      rb_team_run_id b = Some (or_default fresh (active p)) \<and> rb_created_new_run b = (active p = None)
      \<and> \<not> rb_user_intervention b \<and> active p' = rb_team_run_id b"
    and user_binding: "rq_binding rq = UserVisible \<Longrightarrow> port_bind_enqueue port rq p = (b, p') \<Longrightarrow>
      rb_team_run_id b = Some (or_default fresh (active p)) \<and> rb_created_new_run b = (active p = None)
      \<and> rb_user_intervention b = (active p \<noteq> None) \<and> active p' = rb_team_run_id b"
    and opportunistic_binding: "rq_binding rq = ActiveRunOrBackground \<Longrightarrow>
      port_bind_enqueue port rq p = (b, p') \<Longrightarrow>
      rb_team_run_id b = active p \<and> \<not> rb_created_new_run b \<and> p' = p"
begin

lemma acquired_lease:
  assumes "acquire_enqueue gen port lid rq s p = (Inr lease, s', p')"
  shows "\<exists>b s1. resolve_binding port s1 rq p = (b, p') \<and> el_team_run_id lease = rb_team_run_id b"
  using assms by (fastforce simp: acquire_enqueue_def Let_def split: sum.splits prod.splits)

text \<open>A system enqueue is never without a run; nor is a user enqueue, which joins the active one.\<close>

lemma system_lease_has_run:
  assumes "acquire_enqueue gen port lid rq s p = (Inr lease, s', p')" "rq_binding rq = SystemInitiated from"
  shows "el_team_run_id lease \<noteq> None"
proof -
  obtain b s1 where b: "resolve_binding port s1 rq p = (b, p')" "el_team_run_id lease = rb_team_run_id b"
    using acquired_lease [OF assms(1)] by blast
  show ?thesis
  proof (cases "Option.bind from (inherited_run s1)")
    case None
    with b assms(2) have "port_bind_system_enqueue port rq p = (b, p')" by (simp add: resolve_binding_def)
    with b(2) system_binding show ?thesis by simp
  next
    case (Some r)
    with b assms(2) show ?thesis by (auto simp: resolve_binding_def)
  qed
qed

lemma user_lease_joins_active_run:
  assumes "acquire_enqueue gen port lid rq s p = (Inr lease, s', p')" "rq_binding rq = UserVisible"
  shows "el_team_run_id lease = Some (or_default fresh (active p)) \<and> active p' = el_team_run_id lease"
proof -
  obtain b s1 where "resolve_binding port s1 rq p = (b, p')" "el_team_run_id lease = rb_team_run_id b"
    using acquired_lease [OF assms(1)] by blast
  with assms(2) user_binding show ?thesis by (simp add: resolve_binding_def)
qed

end

end
