(* ===== verification/Team_Work_Invariant.thy ===== *)
theory Team_Work_Invariant
  imports Team_Coordinator
begin

text \<open>
  The invariant of the coordinator state. An intent that has not ended is in exactly one place:
  a queued intent is in the queue of its own slot and priority, once; an intent that is starting
  or running is in the active batch of its slot, with the batch's owner written in its state;
  and nothing else is in a queue or in an active batch. The intents are viewed as a map, so that
  the slots are described by sets: \<open>queued_in\<close> and \<open>active_in\<close> are what a slot has to hold.
\<close>

section \<open>The invariant\<close>

definition is_active_state :: "WorkIntentState \<Rightarrow> bool" where
  "is_active_state st \<longleftrightarrow>
     (case st of WorkIntentState.Starting _ _ \<Rightarrow> True | WorkIntentState.Running _ _ _ \<Rightarrow> True | _ \<Rightarrow> False)"

lemma is_active_state_simps [simp]:
  "\<not> is_active_state WorkIntentState.Queued"
  "is_active_state (WorkIntentState.Starting b n)"
  "is_active_state (WorkIntentState.Running b n t)"
  "\<not> is_active_state WorkIntentState.Completed"
  "\<not> is_active_state (WorkIntentState.Failed c)"
  "\<not> is_active_state (WorkIntentState.Cancelled c)"
  by (simp_all add: is_active_state_def)

lemma live_state_iff: "\<not> intent_is_terminal st \<longleftrightarrow> st = WorkIntentState.Queued \<or> is_active_state st"
  by (cases st) simp_all

type_synonym intent_map = "string \<Rightarrow> WorkIntent option"

definition queued_in :: "intent_map \<Rightarrow> string \<Rightarrow> WorkPriority \<Rightarrow> string set" where
  "queued_in I sid p = {k. \<exists>i. I k = Some i \<and> wi_slot_id i = sid \<and> wi_priority i = p
     \<and> wi_state i = WorkIntentState.Queued}"

definition active_in :: "intent_map \<Rightarrow> string \<Rightarrow> string set" where
  "active_in I sid = {k. \<exists>i. I k = Some i \<and> wi_slot_id i = sid \<and> is_active_state (wi_state i)}"

definition batch_ids :: "SlotState \<Rightarrow> string list" where
  "batch_ids sl = (case ss_active sl of None \<Rightarrow> [] | Some a \<Rightarrow> wb_intent_ids (ab_batch a))"

definition batch_state :: "ActiveBatch \<Rightarrow> WorkIntentState" where
  "batch_state a =
     (case ab_turn_id a of
        None \<Rightarrow> WorkIntentState.Starting (wb_batch_id (ab_batch a)) (wb_operation_id (ab_batch a))
      | Some t \<Rightarrow> WorkIntentState.Running (wb_batch_id (ab_batch a)) (wb_operation_id (ab_batch a)) t)"

definition batch_inv :: "string \<Rightarrow> intent_map \<Rightarrow> string \<Rightarrow> ActiveBatch \<Rightarrow> bool" where
  "batch_inv gen I sid a \<longleftrightarrow>
     wb_slot_id (ab_batch a) = sid \<and> wb_session_generation (ab_batch a) = gen
     \<and> wb_intent_ids (ab_batch a) \<noteq> [] \<and> distinct (wb_intent_ids (ab_batch a))
     \<and> (\<forall>k \<in> set (wb_intent_ids (ab_batch a)). \<exists>i. I k = Some i \<and> wi_slot_id i = sid
          \<and> wi_priority i = wb_highest_priority (ab_batch a) \<and> wi_mailbox_message_id i \<noteq> None
          \<and> wi_state i = batch_state a)"

definition slot_inv :: "string \<Rightarrow> intent_map \<Rightarrow> string \<Rightarrow> SlotState \<Rightarrow> bool" where
  "slot_inv gen I sid sl \<longleftrightarrow>
     (\<forall>p. distinct (queue sl p) \<and> set (queue sl p) = queued_in I sid p)
     \<and> set (batch_ids sl) = active_in I sid
     \<and> (\<forall>a. ss_active sl = Some a \<longrightarrow> batch_inv gen I sid a)"

definition intent_inv :: "string \<Rightarrow> string \<Rightarrow> WorkIntent \<Rightarrow> bool" where
  "intent_inv gen k i \<longleftrightarrow>
     wi_intent_id i = k \<and> wi_session_generation i = gen
     \<and> wi_priority i = work_priority (wi_source i)
     \<and> (requires_mailbox_message (wi_source i) \<longrightarrow> wi_mailbox_message_id i \<noteq> None)"

definition lease_inv :: "string \<Rightarrow> string \<Rightarrow> EnqueueLeaseRecord \<Rightarrow> bool" where
  "lease_inv gen k r \<longleftrightarrow>
     el_lease_id (lr_lease r) = k \<and> el_session_generation (lr_lease r) = gen
     \<and> el_team_run_id (lr_lease r) = rb_team_run_id (lr_binding r)"

definition work_inv :: "string \<Rightarrow> CoordinatorState \<Rightarrow> bool" where
  "work_inv gen s \<longleftrightarrow>
     keyed (cs_slots s) \<and> keyed (cs_intents s) \<and> keyed (cs_enqueue_leases s)
     \<and> (\<forall>k i. map_of (cs_intents s) k = Some i \<longrightarrow> intent_inv gen k i)
     \<and> (\<forall>k r. map_of (cs_enqueue_leases s) k = Some r \<longrightarrow> lease_inv gen k r)
     \<and> (\<forall>sid. slot_inv gen (map_of (cs_intents s)) sid (slot_entry Teammate sid s))"

section \<open>Queues\<close>

lemma queue_simps [simp]:
  "queue (sl\<lparr>ss_role := r\<rparr>) p = queue sl p"
  "queue (sl\<lparr>ss_active := a\<rparr>) p = queue sl p"
  "queue (sl\<lparr>ss_paused := b\<rparr>) p = queue sl p"
  "queue (sl\<lparr>ss_runtime_constraint := c\<rparr>) p = queue sl p"
  "queue (sl\<lparr>ss_known_unread_message_ids := m\<rparr>) p = queue sl p"
  "queue (sl\<lparr>ss_removed := b\<rparr>) p = queue sl p"
  "queue (new_slot_state role) p = []"
  "queue (clear_work sl) p = []"
  by (cases p; simp add: new_slot_state_def clear_work_def)+

lemma ss_active_clear_work [simp]: "ss_active (clear_work sl) = None"
  by (simp add: clear_work_def)

lemma queue_queue_mut [simp]:
  "queue (queue_mut p f sl) q = (if p = q then f (queue sl q) else queue sl q)"
  by (cases p; cases q) simp_all

lemma queue_mut_other [simp]:
  "ss_active (queue_mut p f sl) = ss_active sl"
  "ss_paused (queue_mut p f sl) = ss_paused sl"
  "ss_runtime_constraint (queue_mut p f sl) = ss_runtime_constraint sl"
  "ss_removed (queue_mut p f sl) = ss_removed sl"
  by (cases p; simp)+

lemma queue_remove_queued [simp]:
  "queue (remove_queued k sl) p = filter (\<lambda>c. c \<noteq> k) (queue sl p)"
  by (cases p) (simp_all add: remove_queued_def)

lemma remove_queued_other [simp]:
  "ss_active (remove_queued k sl) = ss_active sl"
  "ss_paused (remove_queued k sl) = ss_paused sl"
  "ss_runtime_constraint (remove_queued k sl) = ss_runtime_constraint sl"
  "ss_removed (remove_queued k sl) = ss_removed sl"
  by (simp_all add: remove_queued_def)

lemma queue_fold_remove_queued [simp]:
  "queue (fold remove_queued ks sl) p = filter (\<lambda>c. c \<notin> set ks) (queue sl p)"
  by (induction ks arbitrary: sl) (auto intro!: filter_cong)

lemma fold_remove_queued_other [simp]:
  "ss_active (fold remove_queued ks sl) = ss_active sl"
  "ss_paused (fold remove_queued ks sl) = ss_paused sl"
  "ss_runtime_constraint (fold remove_queued ks sl) = ss_runtime_constraint sl"
  "ss_removed (fold remove_queued ks sl) = ss_removed sl"
  by (induction ks arbitrary: sl) simp_all

lemma queue_push_front_all [simp]:
  "queue (push_front_all xs sl) p = map snd (filter (\<lambda>x. fst x = p) xs) @ queue sl p"
  unfolding push_front_all_def
  by (induction xs arbitrary: sl) auto

lemma push_front_all_other [simp]:
  "ss_active (push_front_all xs sl) = ss_active sl"
  "ss_runtime_constraint (push_front_all xs sl) = ss_runtime_constraint sl"
  unfolding push_front_all_def by (induction xs) auto

lemma queue_push_back_all [simp]:
  "queue (push_back_all xs sl) p = queue sl p @ map snd (filter (\<lambda>x. fst x = p) xs)"
  unfolding push_back_all_def
  by (induction xs arbitrary: sl) auto

lemma push_back_all_other [simp]:
  "ss_active (push_back_all xs sl) = ss_active sl"
  "ss_runtime_constraint (push_back_all xs sl) = ss_runtime_constraint sl"
  unfolding push_back_all_def by (induction xs arbitrary: sl) auto

lemma queue_fold_push_front [simp]:
  "queue (fold (\<lambda>k. queue_mut p (\<lambda>q. k # q)) (rev ks) sl) q =
     (if p = q then ks @ queue sl q else queue sl q)"
  by (induction ks) auto

lemma fold_push_front_active [simp]:
  "ss_active (fold (\<lambda>k. queue_mut p (\<lambda>q. k # q)) ks sl) = ss_active sl"
  by (induction ks arbitrary: sl) auto

lemma mem_queued_ids: "k \<in> set (queued_ids sl) \<longleftrightarrow> (\<exists>p. k \<in> set (queue sl p))"
proof
  assume "k \<in> set (queued_ids sl)"
  then have "k \<in> set (queue sl Foreground) \<or> k \<in> set (queue sl Control)
      \<or> k \<in> set (queue sl WorkPriority.Background)"
    by (simp add: queued_ids_def)
  then show "\<exists>p. k \<in> set (queue sl p)" by blast
next
  assume "\<exists>p. k \<in> set (queue sl p)"
  then obtain p where "k \<in> set (queue sl p)" ..
  then show "k \<in> set (queued_ids sl)" by (cases p) (simp_all add: queued_ids_def)
qed

lemma batch_ids_simps [simp]:
  "ss_active sl = None \<Longrightarrow> batch_ids sl = []"
  "ss_active sl = Some a \<Longrightarrow> batch_ids sl = wb_intent_ids (ab_batch a)"
  by (simp_all add: batch_ids_def)

section \<open>Changing the state of intents\<close>

definition upd_state :: "intent_map \<Rightarrow> string set \<Rightarrow> WorkIntentState \<Rightarrow> intent_map" where
  "upd_state I K st k = (if k \<in> K then map_option (set_state st) (I k) else I k)"

lemma map_of_set_states [alist_simps]:
  "map_of (map_entries ks (set_state st) m) = upd_state (map_of m) (set ks) st"
  by (rule ext) (simp add: map_of_map_entries upd_state_def)

lemma map_of_map_entry_state [alist_simps]:
  "map_of (AList.map_entry k (set_state st) m) = upd_state (map_of m) {k} st"
  by (rule ext) (auto simp: map_of_map_entry upd_state_def split: option.split)

lemma queued_in_upd_state:
  "st \<noteq> WorkIntentState.Queued \<Longrightarrow> queued_in (upd_state I K st) sid p = queued_in I sid p - K"
  by (auto simp: queued_in_def upd_state_def split: if_splits)

lemma active_in_upd_state:
  "\<not> is_active_state st \<Longrightarrow> active_in (upd_state I K st) sid = active_in I sid - K"
  by (auto simp: active_in_def upd_state_def split: if_splits)

lemma queued_in_requeue:
  "queued_in (upd_state I K WorkIntentState.Queued) sid p =
     queued_in I sid p \<union> {k \<in> K. \<exists>i. I k = Some i \<and> wi_slot_id i = sid \<and> wi_priority i = p}"
  by (auto simp: queued_in_def upd_state_def split: if_splits)

lemma active_in_activate:
  "is_active_state st \<Longrightarrow> active_in (upd_state I K st) sid =
     active_in I sid \<union> {k \<in> K. \<exists>i. I k = Some i \<and> wi_slot_id i = sid}"
  by (auto simp: active_in_def upd_state_def split: if_splits)

lemma queued_active_disjoint: "queued_in I sid p \<inter> active_in I sid' = {}"
  by (auto simp: queued_in_def active_in_def)

lemma intent_inv_upd_state:
  "upd_state I K st k = Some i \<Longrightarrow> (\<And>k i. I k = Some i \<Longrightarrow> intent_inv gen k i) \<Longrightarrow> intent_inv gen k i"
  by (auto simp: upd_state_def intent_inv_def split: if_splits)

lemma slot_inv_cong:
  assumes "\<And>k i. wi_slot_id i = sid \<Longrightarrow> I' k = Some i \<longleftrightarrow> I k = Some i"
  shows "slot_inv gen I' sid sl = slot_inv gen I sid sl"
proof -
  have "queued_in I' sid = queued_in I sid" "active_in I' sid = active_in I sid"
    using assms by (auto simp: queued_in_def active_in_def fun_eq_iff)
  moreover have "batch_inv gen I' sid a = batch_inv gen I sid a" for a
  proof -
    have "(\<exists>i. I' k = Some i \<and> wi_slot_id i = sid \<and> Q i) \<longleftrightarrow>
        (\<exists>i. I k = Some i \<and> wi_slot_id i = sid \<and> Q i)" for k Q
      using assms by blast
    then show ?thesis by (simp add: batch_inv_def)
  qed
  ultimately show ?thesis by (simp add: slot_inv_def)
qed

lemma upd_state_empty [simp]: "upd_state I {} st = I"
  by (simp add: upd_state_def fun_eq_iff)

lemma upd_state_fields [simp]:
  "Option.bind (upd_state I K st k) wi_mailbox_message_id = Option.bind (I k) wi_mailbox_message_id"
  "Option.bind (upd_state I K st k) wi_team_run_id = Option.bind (I k) wi_team_run_id"
  "upd_state I K st k = None \<longleftrightarrow> I k = None"
  by (cases "I k"; simp add: upd_state_def)+

section \<open>Local changes\<close>

lemma work_invD:
  assumes "work_inv gen s"
  shows "keyed (cs_slots s)" "keyed (cs_intents s)" "keyed (cs_enqueue_leases s)"
    "map_of (cs_intents s) k = Some i \<Longrightarrow> intent_inv gen k i"
    "map_of (cs_enqueue_leases s) k = Some r \<Longrightarrow> lease_inv gen k r"
    "slot_inv gen (map_of (cs_intents s)) sid (slot_entry Teammate sid s)"
  using assms by (simp_all add: work_inv_def)

lemma slot_entry_Some:
  "map_of (cs_slots s) sid = Some sl \<Longrightarrow> slot_entry role sid s = sl"
  by (simp add: slot_entry_def)

text \<open>
  A change that touches one slot and only intents of that slot has to re-establish the
  invariant of that slot; a change of the leases does not matter to the slots.
\<close>

lemma work_inv_local:
  assumes "work_inv gen s"
    and "keyed (cs_slots s')" "keyed (cs_intents s')" "keyed (cs_enqueue_leases s')"
    and "\<And>k i. map_of (cs_intents s') k = Some i \<Longrightarrow> intent_inv gen k i"
    and "\<And>k r. map_of (cs_enqueue_leases s') k = Some r \<Longrightarrow> lease_inv gen k r"
    and "\<And>k i. wi_slot_id i \<noteq> sid \<Longrightarrow>
           map_of (cs_intents s') k = Some i \<longleftrightarrow> map_of (cs_intents s) k = Some i"
    and "\<And>k. k \<noteq> sid \<Longrightarrow> map_of (cs_slots s') k = map_of (cs_slots s) k"
    and "slot_inv gen (map_of (cs_intents s')) sid (slot_entry Teammate sid s')"
  shows "work_inv gen s'"
proof -
  have "slot_inv gen (map_of (cs_intents s')) k (slot_entry Teammate k s')" for k
  proof (cases "k = sid")
    case True
    with assms(9) show ?thesis by simp
  next
    case False
    then have "slot_entry Teammate k s' = slot_entry Teammate k s"
      using assms(8) by (simp add: slot_entry_def)
    moreover have "slot_inv gen (map_of (cs_intents s')) k sl = slot_inv gen (map_of (cs_intents s)) k sl" for sl
      using False assms(7) by (intro slot_inv_cong) blast
    ultimately show ?thesis using work_invD(6) [OF assms(1)] by simp
  qed
  with assms show ?thesis by (simp add: work_inv_def)
qed

lemma upd_state_other_slot:
  assumes "\<And>k i. k \<in> K \<Longrightarrow> I k = Some i \<Longrightarrow> wi_slot_id i = sid" and "wi_slot_id i \<noteq> sid"
  shows "upd_state I K st k = Some i \<longleftrightarrow> I k = Some i"
  using assms by (auto simp: upd_state_def)

section \<open>Slot invariants under the operations\<close>

lemma slot_invD:
  assumes "slot_inv gen I sid sl"
  shows "distinct (queue sl p)" "set (queue sl p) = queued_in I sid p"
    "set (batch_ids sl) = active_in I sid"
    "ss_active sl = Some a \<Longrightarrow> batch_inv gen I sid a"
  using assms by (simp_all add: slot_inv_def)

lemma slot_invI:
  assumes "\<And>p. distinct (queue sl p)" "\<And>p. set (queue sl p) = queued_in I sid p"
    "set (batch_ids sl) = active_in I sid"
    "\<And>a. ss_active sl = Some a \<Longrightarrow> batch_inv gen I sid a"
  shows "slot_inv gen I sid sl"
  using assms by (simp add: slot_inv_def)

text \<open>Only the queues and the active batch of a slot matter.\<close>

lemma slot_inv_same:
  assumes "slot_inv gen I sid sl" "\<And>p. queue sl' p = queue sl p" "ss_active sl' = ss_active sl"
  shows "slot_inv gen I sid sl'"
  using assms by (simp add: slot_inv_def batch_ids_def)

lemma batch_invD:
  assumes "batch_inv gen I sid a"
  shows "wb_slot_id (ab_batch a) = sid" "wb_session_generation (ab_batch a) = gen"
    "wb_intent_ids (ab_batch a) \<noteq> []" "distinct (wb_intent_ids (ab_batch a))"
    "k \<in> set (wb_intent_ids (ab_batch a)) \<Longrightarrow> \<exists>i. I k = Some i \<and> wi_slot_id i = sid
       \<and> wi_priority i = wb_highest_priority (ab_batch a) \<and> wi_mailbox_message_id i \<noteq> None
       \<and> wi_state i = batch_state a"
  using assms by (auto simp: batch_inv_def)

lemma batch_inv_keep:
  assumes "batch_inv gen I sid a" "\<And>k. k \<in> set (wb_intent_ids (ab_batch a)) \<Longrightarrow> I' k = I k"
  shows "batch_inv gen I' sid a"
  using assms by (simp add: batch_inv_def)

text \<open>A new intent is queued at the back of its queue.\<close>

lemma slot_inv_push:
  assumes inv: "slot_inv gen I sid sl" and fresh: "I k = None"
    and i: "wi_slot_id i = sid" "wi_state i = WorkIntentState.Queued"
  shows "slot_inv gen (I(k \<mapsto> i)) sid (queue_mut (wi_priority i) (\<lambda>q. q @ [k]) sl)"
proof (rule slot_invI)
  have new: "k \<notin> queued_in I sid p" "k \<notin> active_in I sid" for p
    using fresh by (simp_all add: queued_in_def active_in_def)
  have q: "queued_in (I(k \<mapsto> i)) sid p =
      (if p = wi_priority i then insert k (queued_in I sid p) else queued_in I sid p)" for p
    using i fresh by (auto simp: queued_in_def)
  have a: "active_in (I(k \<mapsto> i)) sid = active_in I sid"
    using i fresh by (auto simp: active_in_def)
  fix p
  show "distinct (queue (queue_mut (wi_priority i) (\<lambda>q. q @ [k]) sl) p)"
    using slot_invD(1,2) [OF inv] new by simp
  show "set (queue (queue_mut (wi_priority i) (\<lambda>q. q @ [k]) sl) p) = queued_in (I(k \<mapsto> i)) sid p"
    using slot_invD(2) [OF inv] q by auto
  show "set (batch_ids (queue_mut (wi_priority i) (\<lambda>q. q @ [k]) sl)) = active_in (I(k \<mapsto> i)) sid"
    using slot_invD(3) [OF inv] a by (simp add: batch_ids_def)
next
  fix b assume "ss_active (queue_mut (wi_priority i) (\<lambda>q. q @ [k]) sl) = Some b"
  then have b: "batch_inv gen I sid b" using slot_invD(4) [OF inv] by simp
  then show "batch_inv gen (I(k \<mapsto> i)) sid b"
    using fresh batch_invD(5) [OF b] by (intro batch_inv_keep [OF b]) force
qed

text \<open>Queued intents end and leave their queues.\<close>

lemma slot_inv_drop_queued:
  assumes inv: "slot_inv gen I sid sl" and st: "intent_is_terminal st"
    and K: "set ks \<inter> active_in I sid = {}"
  shows "slot_inv gen (upd_state I (set ks) st) sid (fold remove_queued ks sl)"
proof (rule slot_invI)
  have st': "st \<noteq> WorkIntentState.Queued" "\<not> is_active_state st"
    using st live_state_iff [of st] by auto
  fix p
  show "distinct (queue (fold remove_queued ks sl) p)"
    using slot_invD(1) [OF inv] by simp
  show "set (queue (fold remove_queued ks sl) p) = queued_in (upd_state I (set ks) st) sid p"
    using slot_invD(2) [OF inv] st' by (auto simp: queued_in_upd_state)
  show "set (batch_ids (fold remove_queued ks sl)) = active_in (upd_state I (set ks) st) sid"
    using slot_invD(3) [OF inv] st' K by (auto simp: active_in_upd_state batch_ids_def)
next
  fix b assume "ss_active (fold remove_queued ks sl) = Some b"
  then have b: "ss_active sl = Some b" by simp
  have "set (wb_intent_ids (ab_batch b)) \<inter> set ks = {}"
    using slot_invD(3) [OF inv] b K by auto
  then show "batch_inv gen (upd_state I (set ks) st) sid b"
    using slot_invD(4) [OF inv b] by (elim batch_inv_keep) (auto simp: upd_state_def)
qed

text \<open>Queued intents of one priority become the active batch.\<close>

lemma slot_inv_claim:
  assumes inv: "slot_inv gen I sid sl" and idle: "ss_active sl = None"
    and ks: "ks = filter f (queue sl p)" "ks \<noteq> []"
    and msg: "\<And>k i. k \<in> set ks \<Longrightarrow> I k = Some i \<Longrightarrow> wi_mailbox_message_id i \<noteq> None"
    and b: "wb_slot_id b = sid" "wb_session_generation b = gen" "wb_intent_ids b = ks"
      "wb_highest_priority b = p"
  shows "slot_inv gen (upd_state I (set ks) (WorkIntentState.Starting (wb_batch_id b) (wb_operation_id b)))
     sid ((fold remove_queued ks sl)\<lparr>ss_active := Some \<lparr>ab_batch = b, ab_turn_id = None, ab_started_at_ms = t\<rparr>\<rparr>)"
    (is "slot_inv gen ?I sid ?sl")
proof (rule slot_invI)
  have sub: "set ks \<subseteq> queued_in I sid p"
    using ks slot_invD(2) [OF inv] by auto
  fix q
  show "distinct (queue ?sl q)" using slot_invD(1) [OF inv] by simp
  show "set (queue ?sl q) = queued_in ?I sid q"
    using slot_invD(2) [OF inv] by (auto simp: queued_in_upd_state)
  have "active_in I sid = {}" using slot_invD(3) [OF inv] idle by simp
  then show "set (batch_ids ?sl) = active_in ?I sid"
    using sub b by (auto simp: active_in_activate queued_in_def)
next
  fix a assume "ss_active ?sl = Some a"
  then have a: "a = \<lparr>ab_batch = b, ab_turn_id = None, ab_started_at_ms = t\<rparr>" by simp
  have "\<exists>i. I k = Some i \<and> wi_slot_id i = sid \<and> wi_priority i = p \<and> wi_mailbox_message_id i \<noteq> None"
    if "k \<in> set ks" for k
    using that msg ks slot_invD(2) [OF inv, of p] by (auto simp: queued_in_def)
  then show "batch_inv gen ?I sid a"
    using a b ks slot_invD(1) [OF inv, of p]
    by (fastforce simp: batch_inv_def batch_state_def upd_state_def)
qed

text \<open>The active batch starts its turn.\<close>

lemma slot_inv_start:
  assumes inv: "slot_inv gen I sid sl" and act: "ss_active sl = Some a"
  shows "slot_inv gen
     (upd_state I (set (wb_intent_ids (ab_batch a)))
        (WorkIntentState.Running (wb_batch_id (ab_batch a)) (wb_operation_id (ab_batch a)) turn))
     sid (sl\<lparr>ss_active := Some (a\<lparr>ab_turn_id := Some turn, ab_started_at_ms := t\<rparr>)\<rparr>)"
    (is "slot_inv gen ?I sid ?sl")
proof (rule slot_invI)
  let ?K = "set (wb_intent_ids (ab_batch a))"
  have K: "?K = active_in I sid" using slot_invD(3) [OF inv] act by simp
  fix p
  show "distinct (queue ?sl p)" using slot_invD(1) [OF inv] by simp
  show "set (queue ?sl p) = queued_in ?I sid p"
    using slot_invD(2) [OF inv] K queued_active_disjoint [of I sid p sid]
    by (auto simp: queued_in_upd_state)
  show "set (batch_ids ?sl) = active_in ?I sid"
    using K unfolding active_in_activate [OF is_active_state_simps(3)]
    by (auto simp: active_in_def)
next
  fix b assume "ss_active ?sl = Some b"
  then have b: "b = a\<lparr>ab_turn_id := Some turn, ab_started_at_ms := t\<rparr>" by simp
  show "batch_inv gen ?I sid b"
    using slot_invD(4) [OF inv act] unfolding b
    by (fastforce simp: batch_inv_def batch_state_def upd_state_def)
qed

text \<open>
  The active batch is given up: some of its intents end, the others go back to the front of
  the queue they came from.
\<close>

lemma slot_inv_release:
  assumes inv: "slot_inv gen I sid sl" and act: "ss_active sl = Some a"
    and D: "D \<subseteq> set (wb_intent_ids (ab_batch a))" and st: "intent_is_terminal st"
    and ks: "ks = filter (\<lambda>k. k \<notin> D) (wb_intent_ids (ab_batch a))"
    and queue: "\<And>p. queue sl' p =
      (if p = wb_highest_priority (ab_batch a) then ks @ queue sl p else queue sl p)"
    and none: "ss_active sl' = None"
  shows "slot_inv gen (upd_state (upd_state I D st) (set ks) WorkIntentState.Queued) sid sl'"
    (is "slot_inv gen ?I sid sl'")
proof (rule slot_invI)
  let ?K = "set (wb_intent_ids (ab_batch a))" and ?p = "wb_highest_priority (ab_batch a)"
  have b: "batch_inv gen I sid a" using slot_invD(4) [OF inv act] .
  have K: "?K = active_in I sid" using slot_invD(3) [OF inv] act by simp
  have set_ks: "set ks = ?K - D" using ks by auto
  have st': "st \<noteq> WorkIntentState.Queued" "\<not> is_active_state st"
    using st live_state_iff [of st] by auto
  have disj: "queued_in I sid p \<inter> ?K = {}" for p
    using K queued_active_disjoint by simp
  have at: "(\<exists>i. upd_state I D st k = Some i \<and> wi_slot_id i = sid \<and> wi_priority i = p) \<longleftrightarrow> p = ?p"
    if "k \<in> set ks" for k p
    using that set_ks batch_invD(5) [OF b, of k] by (auto simp: upd_state_def)
  fix p
  show "distinct (queue sl' p)"
    using slot_invD(1,2) [OF inv, of p] batch_invD(4) [OF b] queue ks disj [of p] by auto
  have "queued_in ?I sid p = (queued_in I sid p - D) \<union> {k \<in> set ks. p = ?p}"
    unfolding queued_in_requeue queued_in_upd_state [OF st'(1)] using at by blast
  then show "set (queue sl' p) = queued_in ?I sid p"
    using slot_invD(2) [OF inv, of p] queue disj [of p] D by auto
  have "active_in ?I sid = (active_in I sid - D) - set ks"
    using st'(2) by (simp add: active_in_upd_state)
  then show "set (batch_ids sl') = active_in ?I sid"
    using none K set_ks by auto
next
  fix b assume "ss_active sl' = Some b"
  with none show "batch_inv gen ?I sid b" by simp
qed

text \<open>All live work of a slot is taken away; part of it may be queued anew.\<close>

lemma slot_inv_reset:
  assumes live: "\<And>k i. I k = Some i \<Longrightarrow> wi_slot_id i = sid \<Longrightarrow> \<not> intent_is_terminal (wi_state i)
      \<Longrightarrow> k \<in> D \<or> k \<in> R"
    and st: "intent_is_terminal st" and disj: "D \<inter> R = {}"
    and queue: "\<And>p. distinct (queue sl p)"
      "\<And>p. set (queue sl p) = {k \<in> R. \<exists>i. I k = Some i \<and> wi_slot_id i = sid \<and> wi_priority i = p}"
    and none: "ss_active sl = None"
  shows "slot_inv gen (upd_state (upd_state I D st) R WorkIntentState.Queued) sid sl"
    (is "slot_inv gen ?I sid sl")
proof (rule slot_invI)
  have st': "st \<noteq> WorkIntentState.Queued" "\<not> is_active_state st"
    using st live_state_iff [of st] by auto
  fix p
  show "distinct (queue sl p)" by (rule queue(1))
  have "queued_in I sid p \<subseteq> D \<union> R" using live by (force simp: queued_in_def)
  then show "set (queue sl p) = queued_in ?I sid p"
    unfolding queue(2) queued_in_requeue queued_in_upd_state [OF st'(1)]
    using disj by (auto simp: upd_state_def queued_in_def)
  have "active_in I sid \<subseteq> D \<union> R" using live live_state_iff by (force simp: active_in_def)
  then show "set (batch_ids sl) = active_in ?I sid"
    using none st'(2) by (auto simp: active_in_upd_state)
next
  fix b assume "ss_active sl = Some b"
  with none show "batch_inv gen ?I sid b" by simp
qed

section \<open>How intents evolve\<close>

text \<open>
  No operation forgets an intent or changes anything of it but its state, and an intent that
  has ended keeps its state for good.
\<close>

definition evolves :: "intent_map \<Rightarrow> intent_map \<Rightarrow> bool" where
  "evolves I I' \<longleftrightarrow> (\<forall>k i. I k = Some i \<longrightarrow>
     (\<exists>st. I' k = Some (set_state st i) \<and> (intent_is_terminal (wi_state i) \<longrightarrow> st = wi_state i)))"

lemma evolves_refl [simp]: "evolves I I"
  by (force simp: evolves_def)

lemma evolves_trans: "evolves I J \<Longrightarrow> evolves J K \<Longrightarrow> evolves I K"
  unfolding evolves_def by fastforce

lemma evolves_two:
  assumes "\<And>k i. k \<in> D \<union> R \<Longrightarrow> I k = Some i \<Longrightarrow> \<not> intent_is_terminal (wi_state i)"
  shows "evolves I (upd_state (upd_state I D st) R st')"
  unfolding evolves_def
proof (intro allI impI)
  fix k i assume I: "I k = Some i"
  show "\<exists>st''. upd_state (upd_state I D st) R st' k = Some (set_state st'' i)
      \<and> (intent_is_terminal (wi_state i) \<longrightarrow> st'' = wi_state i)"
    using I assms [of k i]
    by (cases "k \<in> D \<union> R") (auto simp: upd_state_def intro: exI [of _ "wi_state i"])
qed

lemma evolves_fresh: "I k = None \<Longrightarrow> evolves I (I(k \<mapsto> i))"
  by (force simp: evolves_def)

text \<open>A step of the coordinator: the invariant holds again, and the intents have evolved.\<close>

definition work_step :: "string \<Rightarrow> CoordinatorState \<Rightarrow> CoordinatorState \<Rightarrow> bool" where
  "work_step gen s s' \<longleftrightarrow>
     work_inv gen s' \<and> evolves (map_of (cs_intents s)) (map_of (cs_intents s'))"

lemma work_stepD:
  "work_step gen s s' \<Longrightarrow> work_inv gen s'"
  "work_step gen s s' \<Longrightarrow> evolves (map_of (cs_intents s)) (map_of (cs_intents s'))"
  by (simp_all add: work_step_def)

lemma work_step_refl: "work_inv gen s \<Longrightarrow> work_step gen s s"
  by (simp add: work_step_def)

lemma work_step_trans: "work_step gen s t \<Longrightarrow> work_step gen t u \<Longrightarrow> work_step gen s u"
  unfolding work_step_def by (blast intro: evolves_trans)

section \<open>Changing one slot\<close>

lemma slot_entry_role [simp]:
  "NO_MATCH Teammate r \<Longrightarrow> queue (slot_entry r sid s) p = queue (slot_entry Teammate sid s) p"
  "NO_MATCH Teammate r \<Longrightarrow> ss_active (slot_entry r sid s) = ss_active (slot_entry Teammate sid s)"
  by (cases "map_of (cs_slots s) sid"; simp add: slot_entry_def; simp add: new_slot_state_def)+

lemma slot_entry_other_fields [simp]:
  "slot_entry r sid (s\<lparr>cs_intents := m\<rparr>) = slot_entry r sid s"
  "slot_entry r sid (s\<lparr>cs_enqueue_leases := l\<rparr>) = slot_entry r sid s"
  "slot_entry r sid (s\<lparr>cs_next_operation_id := n\<rparr>) = slot_entry r sid s"
  by (simp_all add: slot_entry_def)

lemma slot_entry_put [simp]: "slot_entry r sid (put_slot sid sl s) = sl"
  by (simp add: slot_entry_def update_conv')

lemma work_inv_view:
  assumes "work_inv gen s" "cs_slots s' = cs_slots s" "cs_intents s' = cs_intents s"
    "cs_enqueue_leases s' = cs_enqueue_leases s"
  shows "work_inv gen s'"
  using assms by (simp add: work_inv_def slot_entry_def)

lemma work_inv_leases:
  assumes "work_inv gen s" "keyed l" "\<And>k r. map_of l k = Some r \<Longrightarrow> lease_inv gen k r"
  shows "work_inv gen (s\<lparr>cs_enqueue_leases := l\<rparr>)"
  using assms by (simp add: work_inv_def)

lemma work_inv_delete_lease:
  assumes "work_inv gen s"
  shows "work_inv gen (s\<lparr>cs_enqueue_leases := AList.delete k (cs_enqueue_leases s)\<rparr>)"
  using assms work_invD(3,5) [OF assms]
  by (intro work_inv_leases) (auto simp: delete_conv' split: if_splits)

lemma work_inv_insert_lease:
  assumes "work_inv gen s" "lease_inv gen k r"
  shows "work_inv gen (s\<lparr>cs_enqueue_leases := AList.update k r (cs_enqueue_leases s)\<rparr>)"
  using assms work_invD(3,5) [OF assms(1)]
  by (intro work_inv_leases) (auto simp: update_conv' split: if_splits)

lemma work_inv_put_same:
  assumes inv: "work_inv gen s"
    and "\<And>p. queue sl p = queue (slot_entry Teammate sid s) p"
    and "ss_active sl = ss_active (slot_entry Teammate sid s)"
  shows "work_inv gen (put_slot sid sl s)"
proof (rule work_inv_local [OF inv, where sid = sid])
  show "slot_inv gen (map_of (cs_intents (put_slot sid sl s))) sid (slot_entry Teammate sid (put_slot sid sl s))"
    using slot_inv_same [OF work_invD(6) [OF inv]] assms by simp
qed (use work_invD [OF inv] in \<open>auto simp: update_conv'\<close>)

lemma work_inv_upd_slot:
  assumes inv: "work_inv gen s" and sl: "map_of (cs_slots s) sid = Some sl"
    and keyed: "keyed m"
    and I': "\<And>k i. map_of m k = Some i \<Longrightarrow> intent_inv gen k i"
      "\<And>k i. wi_slot_id i \<noteq> sid \<Longrightarrow> map_of m k = Some i \<longleftrightarrow> map_of (cs_intents s) k = Some i"
    and slot: "slot_inv gen (map_of m) sid (f sl)"
  shows "work_inv gen (upd_slot sid f (s\<lparr>cs_intents := m\<rparr>))"
proof (rule work_inv_local [OF inv, where sid = sid])
  show "slot_inv gen (map_of (cs_intents (upd_slot sid f (s\<lparr>cs_intents := m\<rparr>)))) sid
      (slot_entry Teammate sid (upd_slot sid f (s\<lparr>cs_intents := m\<rparr>)))"
    using slot sl by (simp add: slot_entry_def map_of_map_entry)
qed (use work_invD [OF inv] keyed I' in \<open>auto simp: map_of_map_entry\<close>)

lemma work_inv_slotD:
  "work_inv gen s \<Longrightarrow> map_of (cs_slots s) sid = Some sl \<Longrightarrow> slot_inv gen (map_of (cs_intents s)) sid sl"
  using work_invD(6) [of gen s sid] by (simp add: slot_entry_Some)

lemma upd_slot_twice [simp]:
  "AList.map_entry sid f (AList.map_entry sid g m) = AList.map_entry sid (f \<circ> g) m"
  by (induction m) auto

text \<open>The state of intents of one slot changes, and the slot with them.\<close>

lemma work_inv_set_states:
  assumes inv: "work_inv gen s" and sl: "map_of (cs_slots s) sid = Some sl"
    and m: "keyed m" "map_of m = upd_state (upd_state (map_of (cs_intents s)) D st) R st'"
    and K: "\<And>k i. k \<in> D \<union> R \<Longrightarrow> map_of (cs_intents s) k = Some i \<Longrightarrow>
       wi_slot_id i = sid \<and> \<not> intent_is_terminal (wi_state i)"
    and slot: "slot_inv gen (upd_state (upd_state (map_of (cs_intents s)) D st) R st') sid (f sl)"
  shows "work_step gen s (upd_slot sid f (s\<lparr>cs_intents := m\<rparr>))"
proof -
  have "work_inv gen (upd_slot sid f (s\<lparr>cs_intents := m\<rparr>))"
  proof (rule work_inv_upd_slot [OF inv sl m(1)])
    fix k i
    show "map_of m k = Some i \<Longrightarrow> intent_inv gen k i"
      unfolding m(2) using work_invD(4) [OF inv] by (blast intro: intent_inv_upd_state)
    assume other: "wi_slot_id i \<noteq> sid"
    show "map_of m k = Some i \<longleftrightarrow> map_of (cs_intents s) k = Some i"
      unfolding m(2) using K [of k] other
      by (cases "map_of (cs_intents s) k") (auto simp: upd_state_def split: if_splits)
  next
    show "slot_inv gen (map_of m) sid (f sl)" unfolding m(2) by (rule slot)
  qed
  moreover have "evolves (map_of (cs_intents s)) (map_of m)"
    unfolding m(2) using K by (intro evolves_two) blast
  ultimately show ?thesis by (simp add: work_step_def)
qed

end
