(* ===== verification/Team_Coordinator_Steps.thy ===== *)
theory Team_Coordinator_Steps
  imports Team_Work_Invariant
begin

text \<open>
  Every operation of the coordinator is a step: from a state with the invariant it does not
  panic, it re-establishes the invariant, it loses no intent and never changes one that has
  ended (\<open>work_step\<close>). The lemmas also describe the state each operation leaves, in the closed
  form the properties use. Loops over intents with a body that can panic are described once, by
  \<open>fold_split_state\<close>, for removal, failure and cancellation.
\<close>

section \<open>Operations of the enqueue path\<close>

lemma acquire_enqueue_inv:
  assumes inv: "work_inv gen s" and res: "acquire_enqueue gen port lease_id request s p = (r, s', p')"
  shows "work_step gen s s'"
proof -
  let ?sid = "rq_slot_id request"
  let ?sl = "(slot_entry (rq_role request) ?sid s)\<lparr>ss_role := rq_role request\<rparr>"
  have 1: "work_inv gen (put_slot ?sid ?sl s)"
    using inv by (rule work_inv_put_same) simp_all
  show ?thesis
  proof (cases "validate_enqueue_constraint ?sid ?sl")
    case (Inl e)
    with res 1 show ?thesis by (auto simp: acquire_enqueue_def Let_def work_step_def)
  next
    case (Inr u)
    obtain b p2 where b: "resolve_binding port (put_slot ?sid ?sl s) request p = (b, p2)"
      by fastforce
    let ?lease = "\<lparr>el_lease_id = lease_id, el_session_generation = gen, el_slot_id = ?sid,
      el_role = rq_role request, el_source = rq_source request, el_team_run_id = rb_team_run_id b\<rparr>"
    have "lease_inv gen lease_id \<lparr>lr_lease = ?lease, lr_binding = b\<rparr>"
      by (simp add: lease_inv_def)
    from work_inv_insert_lease [OF 1 this] res Inr b show ?thesis
      by (auto simp: acquire_enqueue_def Let_def work_step_def)
  qed
qed

lemma commit_slot_queue [simp]:
  "queue (commit_slot lease m i sl) p =
     (if p = wi_priority i then queue sl p @ [wi_intent_id i] else queue sl p)"
  "ss_active (commit_slot lease m i sl) = ss_active sl"
  by (auto simp: commit_slot_def Let_def split: option.split)

lemma enqueue_disposition_total:
  "validate_enqueue_constraint sid sl = Inr u \<Longrightarrow> \<exists>d. enqueue_disposition sl = Some d"
  by (auto simp: validate_enqueue_constraint_def enqueue_disposition_def
      split: if_splits RuntimeConstraint.splits)

lemma slot_snapshot_total:
  "map_of (cs_slots s) sid = Some sl \<Longrightarrow> \<exists>sn. slot_snapshot_locked s sid = Some sn"
  by (simp add: slot_snapshot_locked_def)

text \<open>The state a successful commit leaves.\<close>

definition committed_state ::
  "EnqueueLease \<Rightarrow> string option \<Rightarrow> WorkIntent \<Rightarrow> CoordinatorState \<Rightarrow> CoordinatorState" where
  "committed_state lease m i s = upd_slot (el_slot_id lease) (commit_slot lease m i)
     (s\<lparr>cs_enqueue_leases := AList.delete (el_lease_id lease) (cs_enqueue_leases s),
        cs_intents := AList.update (wi_intent_id i) i (cs_intents s)\<rparr>)"

lemma commit_enqueue_cases:
  "(\<exists>e. commit_enqueue gen k now lease m s = Some (Inl e, s, []))
   \<or> (\<exists>rec sl d sn calls. let i = commit_intent gen k now lease m; s' = committed_state lease m i s in
        map_of (cs_enqueue_leases s) (el_lease_id lease) = Some rec \<and> lr_lease rec = lease
        \<and> el_session_generation lease = gen
        \<and> (requires_mailbox_message (el_source lease) \<longrightarrow> m \<noteq> None)
        \<and> map_of (cs_slots s) (el_slot_id lease) = Some sl
        \<and> validate_enqueue_constraint (el_slot_id lease) sl = Inr ()
        \<and> enqueue_disposition sl = Some d \<and> slot_snapshot_locked s' (el_slot_id lease) = Some sn
        \<and> commit_enqueue gen k now lease m s =
            Some (Inr \<lparr>ec_intent_id = k, ec_team_run_id = el_team_run_id lease,
                       ec_disposition = d, ec_slot = sn\<rparr>, s', calls))"
proof -
  let ?i = "commit_intent gen k now lease m"
  have sn: "\<exists>sn. slot_snapshot_locked (committed_state lease m ?i s) (el_slot_id lease) = Some sn"
    if "map_of (cs_slots s) (el_slot_id lease) = Some sl" for sl
    using that by (intro slot_snapshot_total) (simp add: committed_state_def map_of_map_entry)
  show ?thesis
    using sn enqueue_disposition_total
    by (auto simp: commit_enqueue_def committed_state_def Let_def commit_intent_def
        split: option.splits sum.splits if_splits) 
qed

lemma commit_enqueue_inv:
  assumes inv: "work_inv gen s" and fresh: "map_of (cs_intents s) k = None"
  shows "\<exists>r s' calls. commit_enqueue gen k now lease m s = Some (r, s', calls) \<and> work_step gen s s'"
  using commit_enqueue_cases [of gen k now lease m s]
proof (elim disjE exE)
  fix e assume "commit_enqueue gen k now lease m s = Some (Inl e, s, [])"
  with inv show ?thesis using work_step_refl by blast
next
  fix rec sl d sn calls
  let ?i = "commit_intent gen k now lease m"
  let ?s1 = "s\<lparr>cs_enqueue_leases := AList.delete (el_lease_id lease) (cs_enqueue_leases s)\<rparr>"
  assume *: "let i = ?i; s' = committed_state lease m i s in
        map_of (cs_enqueue_leases s) (el_lease_id lease) = Some rec \<and> lr_lease rec = lease
        \<and> el_session_generation lease = gen
        \<and> (requires_mailbox_message (el_source lease) \<longrightarrow> m \<noteq> None)
        \<and> map_of (cs_slots s) (el_slot_id lease) = Some sl
        \<and> validate_enqueue_constraint (el_slot_id lease) sl = Inr ()
        \<and> enqueue_disposition sl = Some d \<and> slot_snapshot_locked s' (el_slot_id lease) = Some sn
        \<and> commit_enqueue gen k now lease m s =
            Some (Inr \<lparr>ec_intent_id = k, ec_team_run_id = el_team_run_id lease,
                       ec_disposition = d, ec_slot = sn\<rparr>, s', calls)"
  then have sl: "map_of (cs_slots s) (el_slot_id lease) = Some sl"
    and msg: "requires_mailbox_message (el_source lease) \<longrightarrow> m \<noteq> None"
    and res: "commit_enqueue gen k now lease m s = Some (Inr \<lparr>ec_intent_id = k,
        ec_team_run_id = el_team_run_id lease, ec_disposition = d, ec_slot = sn\<rparr>,
        committed_state lease m ?i s, calls)"
    by (simp_all add: Let_def)
  have i: "wi_intent_id ?i = k" "wi_slot_id ?i = el_slot_id lease" "wi_state ?i = WorkIntentState.Queued"
    by (simp_all add: commit_intent_def)
  have "slot_inv gen ((map_of (cs_intents s))(k \<mapsto> ?i)) (el_slot_id lease)
      (queue_mut (wi_priority ?i) (\<lambda>q. q @ [k]) sl)"
    using work_inv_slotD [OF inv sl] fresh i by (intro slot_inv_push) simp_all
  then have "slot_inv gen ((map_of (cs_intents s))(k \<mapsto> ?i)) (el_slot_id lease) (commit_slot lease m ?i sl)"
    by (rule slot_inv_same) (simp_all add: i)
  then have "work_inv gen (upd_slot (el_slot_id lease) (commit_slot lease m ?i)
      (?s1\<lparr>cs_intents := AList.update k ?i (cs_intents ?s1)\<rparr>))"
    using work_inv_delete_lease [OF inv] sl msg work_invD(2,4) [OF inv] fresh i
    by (intro work_inv_upd_slot [where sl = sl])
      (auto simp: update_conv' intent_inv_def commit_intent_def split: if_splits)
  with res i evolves_fresh [of "map_of (cs_intents s)", OF fresh] show ?thesis
    by (simp add: committed_state_def work_step_def update_conv')
qed

lemma abort_enqueue_inv:
  assumes inv: "work_inv gen s" and res: "abort_enqueue gen lease s = (r, s', calls)"
  shows "work_step gen s s'"
proof (cases "map_of (cs_enqueue_leases s) (el_lease_id lease)")
  case None
  with inv res show ?thesis by (simp add: abort_enqueue_def work_step_refl)
next
  case (Some rec)
  let ?s1 = "s\<lparr>cs_enqueue_leases := AList.delete (el_lease_id lease) (cs_enqueue_leases s)\<rparr>"
  have 1: "work_inv gen ?s1" by (rule work_inv_delete_lease [OF inv])
  have rec: "lease_inv gen (el_lease_id lease) rec" by (rule work_invD(5) [OF inv Some])
  then have "el_lease_id (lr_lease rec) = el_lease_id lease" by (simp add: lease_inv_def)
  with Some res 1 work_inv_insert_lease [OF 1 rec] show ?thesis
    by (auto simp: abort_enqueue_def Let_def work_step_def split: if_splits)
qed

section \<open>Mailbox reconciliation\<close>

lemma recover_messages_inv:
  assumes "work_inv gen s" "map_of (cs_slots s) sid \<noteq> None"
    and "distinct (map (fst \<circ> snd) xs)" "\<And>k. k \<in> set (map (fst \<circ> snd) xs) \<Longrightarrow> map_of (cs_intents s) k = None"
  shows "\<exists>s' c'. recover_messages gen sid role xs (s, c) = Some (s', c') \<and> work_step gen s s'"
  using assms
proof (induction xs arbitrary: s c)
  case Nil
  then show ?case by (simp add: work_step_refl)
next
  case (Cons x xs)
  obtain msg k now where x: "x = (msg, k, now)" by (metis prod_cases3)
  show ?case
  proof (cases "\<exists>i \<in> set (map snd (cs_intents s)). owns_message sid msg i")
    case True
    with Cons.IH [of s c] Cons.prems x show ?thesis by simp
  next
    case False
    obtain sl where sl: "map_of (cs_slots s) sid = Some sl" using Cons.prems(2) by blast
    let ?i = "recovery_intent gen k now sid role msg"
    let ?s = "upd_slot sid (\<lambda>sl. sl\<lparr>ss_background := ss_background sl @ [k]\<rparr>)
       (s\<lparr>cs_intents := AList.update k ?i (cs_intents s)\<rparr>)"
    have fresh: "map_of (cs_intents s) k = None" using Cons.prems(4) x by simp
    have "slot_inv gen ((map_of (cs_intents s))(k \<mapsto> ?i)) sid (queue_mut (wi_priority ?i) (\<lambda>q. q @ [k]) sl)"
      by (rule slot_inv_push [OF work_inv_slotD [OF Cons.prems(1) sl] fresh])
        (simp_all add: recovery_intent_def)
    moreover have "queue_mut (wi_priority ?i) (\<lambda>q. q @ [k]) sl = sl\<lparr>ss_background := ss_background sl @ [k]\<rparr>"
      by (simp add: recovery_intent_def)
    ultimately have inv: "work_inv gen ?s"
      using work_invD(2,4) [OF Cons.prems(1)] fresh
      by (intro work_inv_upd_slot [OF Cons.prems(1) sl])
        (auto simp: update_conv' intent_inv_def recovery_intent_def split: if_splits)
    have "map_of (cs_slots ?s) sid \<noteq> None" using sl by (simp add: map_of_map_entry)
    moreover have "map_of (cs_intents ?s) k' = None" if "k' \<in> set (map (fst \<circ> snd) xs)" for k'
      using that Cons.prems(3,4) x by (auto simp: update_conv')
    ultimately obtain s' c' where IH: "recover_messages gen sid role xs (?s, c @ [k]) = Some (s', c')"
        "work_step gen ?s s'"
      using Cons.IH [of ?s "c @ [k]"] Cons.prems(3) inv x by auto
    moreover have "work_step gen s ?s"
      using inv evolves_fresh [of "map_of (cs_intents s)", OF fresh] by (simp add: work_step_def update_conv')
    ultimately show ?thesis
      using x False sl work_step_trans by auto
  qed
qed

definition stale_ids :: "string list \<Rightarrow> SlotState \<Rightarrow> CoordinatorState \<Rightarrow> string list" where
  "stale_ids unread sl s = filter (\<lambda>k. case map_of (cs_intents s) k of None \<Rightarrow> False
     | Some i \<Rightarrow> \<not> keeps_intent unread i) (queued_ids sl)"

text \<open>The state after the stale intents are cleared and before messages are recovered.\<close>

definition cleared_state ::
  "string \<Rightarrow> string list \<Rightarrow> TeamRunTargetRole \<Rightarrow> CoordinatorState \<Rightarrow> CoordinatorState" where
  "cleared_state sid unread role s =
     (let sl = (slot_entry role sid s)\<lparr>ss_role := role, ss_known_unread_message_ids := set unread\<rparr>;
          ks = stale_ids unread sl s
      in upd_slot sid (fold remove_queued ks)
           (set_states ks WorkIntentState.Completed (put_slot sid sl s)))"

lemma reconcile_mailbox_eq:
  "reconcile_mailbox gen ids nows sid unread role s =
     (case recover_messages gen sid role (zip unread (map (\<lambda>n. (ids n, nows n)) [0..<length unread]))
        (cleared_state sid unread role s, []) of
      None \<Rightarrow> None
    | Some (s', created) \<Rightarrow>
        let sl = (slot_entry role sid s)\<lparr>ss_role := role, ss_known_unread_message_ids := set unread\<rparr> in
        Some (\<lparr>created_recovery_intent_ids = created,
           retained_intent_ids = filter (\<lambda>k. case map_of (cs_intents s) k of None \<Rightarrow> False
              | Some i \<Rightarrow> keeps_intent unread i) (queued_ids sl),
           cleared_stale_intent_ids = stale_ids unread sl s\<rparr>, s'))"
proof -
  have "filter (\<lambda>k. \<not> (case map_of (cs_intents s) k of None \<Rightarrow> False | Some i \<Rightarrow> keeps_intent unread i))
       (filter (\<lambda>k. map_of (cs_intents s) k \<noteq> None) ks) =
     filter (\<lambda>k. case map_of (cs_intents s) k of None \<Rightarrow> False | Some i \<Rightarrow> \<not> keeps_intent unread i) ks" for ks
    by (auto intro!: filter_cong split: option.split)
  moreover have "filter (\<lambda>k. case map_of (cs_intents s) k of None \<Rightarrow> False | Some i \<Rightarrow> keeps_intent unread i)
       (filter (\<lambda>k. map_of (cs_intents s) k \<noteq> None) ks) =
     filter (\<lambda>k. case map_of (cs_intents s) k of None \<Rightarrow> False | Some i \<Rightarrow> keeps_intent unread i) ks" for ks
    by (auto intro!: filter_cong split: option.split)
  ultimately show ?thesis
    by (simp add: reconcile_mailbox_def cleared_state_def stale_ids_def Let_def
        split: option.split)
qed

lemma cleared_state_inv:
  assumes inv: "work_inv gen s"
  shows "work_step gen s (cleared_state sid unread role s)"
proof -
  let ?sl = "(slot_entry role sid s)\<lparr>ss_role := role, ss_known_unread_message_ids := set unread\<rparr>"
  let ?ks = "stale_ids unread ?sl s"
  have 1: "work_inv gen (put_slot sid ?sl s)" using inv by (rule work_inv_put_same) simp_all
  have sl: "map_of (cs_slots (put_slot sid ?sl s)) sid = Some ?sl" by (simp add: update_conv')
  note slot = work_inv_slotD [OF 1 sl, simplified]
  have ks: "set ?ks \<subseteq> (\<Union>p. queued_in (map_of (cs_intents s)) sid p)"
    using slot_invD(2) [OF slot] by (fastforce simp: stale_ids_def mem_queued_ids)
  have "work_step gen (put_slot sid ?sl s) (upd_slot sid (fold remove_queued ?ks)
      (put_slot sid ?sl s\<lparr>cs_intents := map_entries ?ks (set_state WorkIntentState.Completed) (cs_intents s)\<rparr>))"
  proof (rule work_inv_set_states [OF 1 sl, where D = "set ?ks" and R = "{}" and st = WorkIntentState.Completed])
    show "slot_inv gen (upd_state (upd_state (map_of (cs_intents (put_slot sid ?sl s))) (set ?ks)
        WorkIntentState.Completed) {} undefined) sid (fold remove_queued ?ks ?sl)"
      using slot ks queued_active_disjoint by (simp, intro slot_inv_drop_queued) (auto, blast)
  qed (use work_invD(2) [OF inv] ks in \<open>auto simp: map_of_set_states queued_in_def\<close>)
  then show ?thesis by (simp add: cleared_state_def Let_def work_step_def)
qed

lemma reconcile_mailbox_inv:
  assumes inv: "work_inv gen s"
    and fresh: "\<And>n. n < length unread \<Longrightarrow> map_of (cs_intents s) (ids n) = None"
      "inj_on ids {..< length unread}"
  shows "\<exists>r s'. reconcile_mailbox gen ids nows sid unread role s = Some (r, s') \<and> work_step gen s s'"
proof -
  let ?xs = "zip unread (map (\<lambda>n. (ids n, nows n)) [0..<length unread])"
  have xs: "map (fst \<circ> snd) ?xs = map ids [0..<length unread]"
    by (simp flip: map_map) (simp add: comp_def)
  have "distinct (map (fst \<circ> snd) ?xs)" unfolding xs
    using fresh(2) by (simp add: distinct_map lessThan_atLeast0 [symmetric])
  moreover have "map_of (cs_intents (cleared_state sid unread role s)) k = None"
    if "k \<in> set (map (fst \<circ> snd) ?xs)" for k
    using that fresh(1) unfolding xs by (auto simp: cleared_state_def Let_def map_of_set_states)
  moreover have "map_of (cs_slots (cleared_state sid unread role s)) sid \<noteq> None"
    by (simp add: cleared_state_def Let_def map_of_map_entry update_conv')
  ultimately obtain s' c where "recover_messages gen sid role ?xs (cleared_state sid unread role s, []) = Some (s', c)"
    and "work_step gen (cleared_state sid unread role s) s'"
    using recover_messages_inv [OF work_stepD(1) [OF cleared_state_inv [OF inv]], where xs = ?xs] by blast
  with work_step_trans [OF cleared_state_inv [OF inv]] show ?thesis by (simp add: reconcile_mailbox_eq Let_def)
qed

section \<open>Batches\<close>

lemma map_entries_Cons: "map_entries (k # ks) f m = map_entries ks f (AList.map_entry k f m)"
  by (simp add: map_entries_def)

definition messages_of :: "intent_map \<Rightarrow> string list \<Rightarrow> string list" where
  "messages_of I ks = List.map_filter (\<lambda>k. Option.bind (I k) wi_mailbox_message_id) ks"

definition runs_of :: "intent_map \<Rightarrow> string list \<Rightarrow> string list" where
  "runs_of I ks = List.map_filter (\<lambda>k. Option.bind (I k) wi_team_run_id) ks"

lemma messages_runs_of_Cons:
  "messages_of I (k # ks) = (case Option.bind (I k) wi_mailbox_message_id of None \<Rightarrow> [] | Some m \<Rightarrow> [m])
     @ messages_of I ks"
  "runs_of I (k # ks) = (case Option.bind (I k) wi_team_run_id of None \<Rightarrow> [] | Some m \<Rightarrow> [m]) @ runs_of I ks"
  by (simp_all add: messages_of_def runs_of_def List.map_filter_simps split: option.split)

lemma messages_runs_of_upd_state [simp]:
  "messages_of (upd_state I K st) ks = messages_of I ks"
  "runs_of (upd_state I K st) ks = runs_of I ks"
  by (simp_all add: messages_of_def runs_of_def)

lemma fold_claim_intent:
  assumes "\<And>k. k \<in> set ks \<Longrightarrow> map_of m k \<noteq> None"
  shows "fold_expect (claim_intent b n) ks (m, msgs, runs) =
     Some (map_entries ks (set_state (WorkIntentState.Starting b n)) m,
           msgs @ messages_of (map_of m) ks, fold push_new (runs_of (map_of m) ks) runs)"
  using assms
proof (induction ks arbitrary: m msgs runs)
  case Nil
  then show ?case by (simp add: map_entries_def messages_of_def runs_of_def List.map_filter_simps)
next
  case (Cons k ks)
  from Cons.prems obtain i where i: "map_of m k = Some i" by fastforce
  let ?m = "AList.map_entry k (set_state (WorkIntentState.Starting b n)) m"
  have "map_of ?m k' \<noteq> None" if "k' \<in> set ks" for k'
    using that Cons.prems by (simp add: map_of_map_entry_state)
  from Cons.IH [OF this] show ?case
    using i by (simp add: claim_intent_def map_entries_Cons messages_runs_of_Cons map_of_map_entry_state
        split: option.split)
qed

text \<open>A state in which the owner of an active batch is the batch that was handed out.\<close>

definition owns :: "string \<Rightarrow> CoordinatorState \<Rightarrow> WorkBatch \<Rightarrow> bool" where
  "owns gen s b \<longleftrightarrow> (is_current_batch gen s b \<longrightarrow>
     (\<exists>sl a. map_of (cs_slots s) (wb_slot_id b) = Some sl \<and> ss_active sl = Some a \<and> ab_batch a = b))"

lemma ownsE:
  assumes "owns gen s b" "is_current_batch gen s b"
  obtains sl a where "map_of (cs_slots s) (wb_slot_id b) = Some sl" "ss_active sl = Some a" "ab_batch a = b"
  using assms by (auto simp: owns_def)

lemma selected_priority_Some:
  assumes "selected_priority sl = Some p"
  shows "queue sl p \<noteq> []" "\<And>q. q < p \<Longrightarrow> queue sl q = []"
proof -
  show "queue sl p \<noteq> []"
    using assms by (auto simp: selected_priority_def split: if_splits)
  fix q assume "q < p"
  then show "queue sl q = []"
    using assms by (cases p; cases q)
      (auto simp: selected_priority_def less_WorkPriority_def split: if_splits)
qed

lemma selected_priority_None: "selected_priority sl = None \<longleftrightarrow> queued_ids sl = []"
  by (auto simp: selected_priority_def queued_ids_def)

definition the_claim :: "string \<Rightarrow> string \<Rightarrow> string \<Rightarrow> WorkPriority \<Rightarrow> string list \<Rightarrow> CoordinatorState \<Rightarrow> WorkBatch" where
  "the_claim gen batch_id sid p ks s = \<lparr>
     wb_batch_id = batch_id, wb_session_generation = gen, wb_slot_id = sid, wb_intent_ids = ks,
     wb_mailbox_message_ids = messages_of (map_of (cs_intents s)) ks, wb_highest_priority = p,
     wb_team_run_ids = fold push_new (runs_of (map_of (cs_intents s)) ks) [],
     wb_operation_id = sat_inc (cs_next_operation_id s) \<rparr>"

definition claimed_state :: "WorkBatch \<Rightarrow> CoordinatorState \<Rightarrow> CoordinatorState" where
  "claimed_state b s = upd_slot (wb_slot_id b)
     (\<lambda>sl. (fold remove_queued (wb_intent_ids b) sl)
        \<lparr>ss_active := Some \<lparr>ab_batch = b, ab_turn_id = None, ab_started_at_ms = None\<rparr>\<rparr>)
     (s\<lparr>cs_intents := map_entries (wb_intent_ids b)
          (set_state (WorkIntentState.Starting (wb_batch_id b) (wb_operation_id b))) (cs_intents s),
        cs_next_operation_id := wb_operation_id b\<rparr>)"

lemma claim_batch_eq:
  assumes "map_of (cs_slots s) sid = Some sl" "\<And>k. k \<in> set ks \<Longrightarrow> map_of (cs_intents s) k \<noteq> None"
  shows "claim_batch gen batch_id sid p ks s =
     (let b = the_claim gen batch_id sid p ks s in
      Some (Claim b, claimed_state b s, publish_batch b (claimed_state b s)))"
  using fold_claim_intent [OF assms(2)] assms(1)
  by (simp add: claim_batch_def Let_def the_claim_def claimed_state_def publish_batch_def)

text \<open>Every outcome of \<open>next\<close>, with the guard that leads to it.\<close>

lemma next_work_cases:
  obtains (missing) "map_of (cs_slots s) sid = None" "next_work gen bid sid s = Some (Quiescent, s, [])"
  | (waiting) sl a where "map_of (cs_slots s) sid = Some sl" "ss_active sl = Some a"
      "next_work gen bid sid s = Some (WaitingForCompletion, s, [])"
  | (blocked) sl where "map_of (cs_slots s) sid = Some sl" "ss_active sl = None"
      "ss_runtime_constraint sl \<noteq> Ready"
      "next_work gen bid sid s = Some (ReconcileDecision.Blocked (ss_runtime_constraint sl), s, [])"
  | (quiescent) sl where "map_of (cs_slots s) sid = Some sl" "ss_active sl = None"
      "ss_runtime_constraint sl = Ready" "ss_paused sl \<or> queued_ids sl = []"
      "next_work gen bid sid s = Some (Quiescent, s, [])"
  | (signals) sl p where "map_of (cs_slots s) sid = Some sl" "ss_active sl = None"
      "ss_runtime_constraint sl = Ready" "\<not> ss_paused sl" "selected_priority sl = Some p"
      "filter (has_message s) (queue sl p) = []"
      "next_work gen bid sid s = Some (SettleSignals (queue sl p), s, [])"
  | (claim) sl p b where "map_of (cs_slots s) sid = Some sl" "ss_active sl = None"
      "ss_runtime_constraint sl = Ready" "\<not> ss_paused sl" "selected_priority sl = Some p"
      "filter (has_message s) (queue sl p) \<noteq> []"
      "b = the_claim gen bid sid p (filter (has_message s) (queue sl p)) s"
      "next_work gen bid sid s = Some (Claim b, claimed_state b s, publish_batch b (claimed_state b s))"
proof (cases "map_of (cs_slots s) sid")
  case None
  then show thesis by (intro missing) (simp_all add: next_work_def)
next
  case (Some sl)
  show thesis
  proof (cases "ss_active sl = None \<and> ss_runtime_constraint sl = Ready \<and> \<not> ss_paused sl")
    case False
    with Some waiting blocked quiescent show thesis
      by (cases "ss_active sl") (auto simp: next_work_def split: if_splits)
  next
    case idle: True
    show thesis
    proof (cases "selected_priority sl")
      case None
      with Some idle selected_priority_None [of sl] show thesis
        by (intro quiescent [of sl]) (auto simp: next_work_def)
    next
      case (Some p)
      let ?ks = "filter (has_message s) (queue sl p)"
      show thesis
      proof (cases "?ks = []")
        case True
        with \<open>map_of (cs_slots s) sid = Some sl\<close> Some idle show thesis
          by (intro signals [of sl p]) (auto simp: next_work_def Let_def)
      next
        case False
        have "\<And>k. k \<in> set ?ks \<Longrightarrow> map_of (cs_intents s) k \<noteq> None"
          by (auto simp: has_message_def split: option.splits)
        from claim_batch_eq [where ks = ?ks and gen = gen and batch_id = bid and p = p,
            OF \<open>map_of (cs_slots s) sid = Some sl\<close> this] show thesis
          using \<open>map_of (cs_slots s) sid = Some sl\<close> Some idle False
          by (intro claim [OF _ _ _ _ _ _ refl]) (auto simp: next_work_def Let_def)
      qed
    qed
  qed
qed

lemma next_work_inv:
  assumes inv: "work_inv gen s"
  shows "\<exists>r s' calls. next_work gen bid sid s = Some (r, s', calls) \<and> work_step gen s s'"
proof (cases rule: next_work_cases [of s sid gen bid])
  case (claim sl p b)
  let ?ks = "filter (has_message s) (queue sl p)"
  let ?st = "WorkIntentState.Starting (wb_batch_id b) (wb_operation_id b)"
  note slot = work_inv_slotD [OF inv claim(1)]
  have b: "wb_slot_id b = sid" "wb_session_generation b = gen" "wb_intent_ids b = ?ks"
    "wb_highest_priority b = p"
    by (simp_all add: claim(7) the_claim_def)
  have "slot_inv gen (upd_state (map_of (cs_intents s)) (set ?ks) ?st) sid
     ((fold remove_queued ?ks sl)\<lparr>ss_active := Some \<lparr>ab_batch = b, ab_turn_id = None, ab_started_at_ms = None\<rparr>\<rparr>)"
    by (rule slot_inv_claim [OF slot claim(2) refl claim(6) _ b])
      (auto simp: has_message_def split: option.splits)
  then have 1: "work_step gen s (upd_slot sid (\<lambda>sl. (fold remove_queued ?ks sl)
      \<lparr>ss_active := Some \<lparr>ab_batch = b, ab_turn_id = None, ab_started_at_ms = None\<rparr>\<rparr>)
      (s\<lparr>cs_intents := map_entries ?ks (set_state ?st) (cs_intents s)\<rparr>))"
    using work_invD(2) [OF inv] slot_invD(2) [OF slot]
    by (intro work_inv_set_states [OF inv claim(1), where D = "set ?ks" and R = "{}" and st = ?st])
      (auto simp: map_of_set_states queued_in_def)
  from work_stepD(1) [OF 1] have "work_inv gen (claimed_state b s)"
    by (rule work_inv_view) (simp_all add: claimed_state_def b)
  moreover have "evolves (map_of (cs_intents s)) (map_of (cs_intents (claimed_state b s)))"
    using work_stepD(2) [OF 1] by (simp add: claimed_state_def b)
  ultimately show ?thesis using claim(8) by (simp add: work_step_def)
qed (use work_step_refl [OF inv] in auto)

lemma batch_slotD:
  assumes inv: "work_inv gen s" and sl: "map_of (cs_slots s) sid = Some sl" "ss_active sl = Some a"
    and k: "k \<in> set (wb_intent_ids (ab_batch a))" and i: "map_of (cs_intents s) k = Some i"
  shows "wi_slot_id i = sid \<and> \<not> intent_is_terminal (wi_state i)" "wi_state i = batch_state a"
    "wi_priority i = wb_highest_priority (ab_batch a)"
  using batch_invD(5) [OF slot_invD(4) [OF work_inv_slotD [OF inv sl(1)] sl(2)] k] i
  by (auto simp: batch_state_def split: option.splits)

lemma mark_started_inv:
  assumes inv: "work_inv gen s" and own: "owns gen s b"
    and res: "mark_started gen now b turn s = (r, s', calls)"
  shows "work_step gen s s'"
proof (cases "is_current_batch gen s b")
  case False
  with work_step_refl [OF inv] res show ?thesis by (simp add: mark_started_def split: if_splits)
next
  case True
  from own True obtain sl a where sl: "map_of (cs_slots s) (wb_slot_id b) = Some sl"
    and a: "ss_active sl = Some a" "ab_batch a = b" by (rule ownsE)
  let ?st = "WorkIntentState.Running (wb_batch_id b) (wb_operation_id b) turn"
  let ?f = "\<lambda>sl. sl\<lparr>ss_active := map_option
     (\<lambda>a. a\<lparr>ab_turn_id := Some turn, ab_started_at_ms := Some now\<rparr>) (ss_active sl)\<rparr>"
  have "slot_inv gen (upd_state (map_of (cs_intents s)) (set (wb_intent_ids b)) ?st) (wb_slot_id b) (?f sl)"
    using slot_inv_start [OF work_inv_slotD [OF inv sl] a(1)] a by simp
  then have "work_step gen s (upd_slot (wb_slot_id b) ?f (set_states (wb_intent_ids b) ?st s))"
    using work_invD(2) [OF inv] batch_slotD(1) [OF inv sl a(1)] a(2)
    by (intro work_inv_set_states [OF inv sl, where D = "set (wb_intent_ids b)" and R = "{}" and st = ?st])
      (auto simp: map_of_set_states)
  moreover have "s' = upd_slot (wb_slot_id b) ?f (set_states (wb_intent_ids b) ?st s)"
    using res True by (simp add: mark_started_def Let_def)
  ultimately show ?thesis by simp
qed

text \<open>Giving a batch up: the common part of retrying and ending it.\<close>

lemma release_batch_inv:
  assumes inv: "work_inv gen s" and sl: "map_of (cs_slots s) sid = Some sl" "ss_active sl = Some a"
    and D: "D \<subseteq> set (wb_intent_ids (ab_batch a))" and st: "intent_is_terminal st"
    and ks: "ks = filter (\<lambda>k. k \<notin> D) (wb_intent_ids (ab_batch a))"
    and m: "keyed m" "map_of m = upd_state (upd_state (map_of (cs_intents s)) D st) (set ks) WorkIntentState.Queued"
    and f: "\<And>p. queue (f sl) p =
      (if p = wb_highest_priority (ab_batch a) then ks @ queue sl p else queue sl p)"
      "ss_active (f sl) = None"
  shows "work_step gen s (upd_slot sid f (s\<lparr>cs_intents := m\<rparr>))"
  using slot_inv_release [OF work_inv_slotD [OF inv sl(1)] sl(2) D st ks f] D ks
    batch_slotD(1) [OF inv sl]
  by (intro work_inv_set_states [OF inv sl(1) m]) auto

lemma retry_start_inv:
  assumes inv: "work_inv gen s" and own: "owns gen s b"
  shows "\<exists>r s' calls. retry_start gen b s = Some (r, s', calls) \<and> work_step gen s s'"
proof (cases "is_current_batch gen s b")
  case False
  with work_step_refl [OF inv] show ?thesis by (simp add: retry_start_def)
next
  case True
  from own True obtain sl a where sl: "map_of (cs_slots s) (wb_slot_id b) = Some sl"
    and a: "ss_active sl = Some a" "ab_batch a = b" by (rule ownsE)
  let ?f = "\<lambda>sl. fold (\<lambda>k. queue_mut (wb_highest_priority b) (\<lambda>q. k # q)) (rev (wb_intent_ids b))
     (sl\<lparr>ss_active := None\<rparr>)"
  have "work_step gen s (upd_slot (wb_slot_id b) ?f (set_states (wb_intent_ids b) WorkIntentState.Queued s))"
    using a work_invD(2) [OF inv]
    by (intro release_batch_inv [OF inv sl a(1), where D = "{}" and ks = "wb_intent_ids b"
          and st = WorkIntentState.Completed])
      (auto simp: map_of_set_states)
  with True sl show ?thesis by (simp add: retry_start_def Let_def)
qed

lemma terminalize_batch_inv:
  assumes inv: "work_inv gen s" and own: "owns gen s b" and st: "intent_is_terminal st"
  shows "\<exists>r s' calls. terminalize_batch gen b st s = Some (r, s', calls) \<and> work_step gen s s'"
proof (cases "is_current_batch gen s b")
  case False
  with work_step_refl [OF inv] show ?thesis by (simp add: terminalize_batch_def)
next
  case True
  from own True obtain sl a where sl: "map_of (cs_slots s) (wb_slot_id b) = Some sl"
    and a: "ss_active sl = Some a" "ab_batch a = b" by (rule ownsE)
  have "work_step gen s (upd_slot (wb_slot_id b) (\<lambda>sl. sl\<lparr>ss_active := None\<rparr>) (set_states (wb_intent_ids b) st s))"
    using a st work_invD(2) [OF inv]
    by (intro release_batch_inv [OF inv sl a(1), where D = "set (wb_intent_ids b)" and ks = "[]" and st = st])
      (auto simp: map_of_set_states)
  with True sl show ?thesis by (simp add: terminalize_batch_def Let_def)
qed

section \<open>Signals and pauses\<close>

lemma map_entry_id [simp]: "AList.map_entry k (\<lambda>x. x) m = m"
  by (induction m) auto

lemma fold_settle_signal:
  "fold (settle_signal sid) ks s =
     upd_slot sid (fold remove_queued ks) (set_states ks WorkIntentState.Completed s)"
proof (induction ks arbitrary: s)
  case Nil
  then show ?case by (simp add: map_entries_def id_def)
next
  case (Cons k ks)
  show ?case by (simp add: Cons.IH) (simp add: settle_signal_def map_entries_def comp_def)
qed

lemma complete_signals_inv:
  assumes inv: "work_inv gen s" and res: "complete_signals sid ks s = (r, s', calls)"
  shows "work_step gen s s'"
proof (cases "(\<forall>k \<in> set ks. is_settlable sid s k) \<and> ks \<noteq> []")
  case False
  with work_step_refl [OF inv] res show ?thesis by (auto simp: complete_signals_def Let_def split: if_splits)
next
  case True
  have sub: "set ks \<subseteq> (\<Union>p. queued_in (map_of (cs_intents s)) sid p)"
    using True by (force simp: is_settlable_def queued_in_def split: option.splits)
  obtain sl where sl: "map_of (cs_slots s) sid = Some sl"
  proof (cases "map_of (cs_slots s) sid")
    case None
    then have "queued_in (map_of (cs_intents s)) sid p = {}" for p
      using slot_invD(2) [OF work_invD(6) [OF inv, of sid], of p] by (simp add: slot_entry_def)
    with sub True show thesis by auto
  qed (rule that)
  have "slot_inv gen (upd_state (map_of (cs_intents s)) (set ks) WorkIntentState.Completed) sid
      (fold remove_queued ks sl)"
    using sub queued_active_disjoint
    by (intro slot_inv_drop_queued [OF work_inv_slotD [OF inv sl]]) (auto, blast)
  then have "work_step gen s (upd_slot sid (fold remove_queued ks) (set_states ks WorkIntentState.Completed s))"
    using work_invD(2) [OF inv] sub
    by (intro work_inv_set_states [OF inv sl, where D = "set ks" and R = "{}" and st = WorkIntentState.Completed])
      (auto simp: map_of_set_states queued_in_def)
  with res True show ?thesis by (simp add: complete_signals_def fold_settle_signal Let_def)
qed

lemma pause_slot_inv:
  assumes inv: "work_inv gen s"
  shows "\<exists>r s'. pause_slot sid s = Some (r, s') \<and> work_step gen s s'"
proof -
  have "work_inv gen (put_slot sid ((slot_entry Teammate sid s)\<lparr>ss_paused := True\<rparr>) s)"
    using inv by (rule work_inv_put_same) simp_all
  then show ?thesis by (simp add: pause_slot_def Let_def slot_snapshot_locked_def update_conv' work_step_def)
qed

section \<open>Ending all work of a slot\<close>

lemma upd_state_swap:
  "D \<inter> R = {} \<Longrightarrow> upd_state (upd_state I R st') D st = upd_state (upd_state I D st) R st'"
  by (auto simp: upd_state_def fun_eq_iff)

text \<open>
  The loops that end or requeue a list of intents all look the entry up, give it a new state
  and collect something; the map they leave depends only on the new states.
\<close>

definition split_state :: "intent_map \<Rightarrow> (WorkIntent \<Rightarrow> bool) \<Rightarrow> string set \<Rightarrow> WorkIntentState \<Rightarrow> intent_map" where
  "split_state I ends K st =
     upd_state (upd_state I {k \<in> K. \<exists>i. I k = Some i \<and> ends i} st)
       {k \<in> K. \<exists>i. I k = Some i \<and> \<not> ends i} WorkIntentState.Queued"

lemma split_state_apply:
  "split_state I ends K st k =
     (if k \<in> K then map_option (\<lambda>i. set_state (if ends i then st else WorkIntentState.Queued) i) (I k) else I k)"
  by (cases "I k") (auto simp: split_state_def upd_state_def)

definition kept :: "intent_map \<Rightarrow> (WorkIntent \<Rightarrow> bool) \<Rightarrow> string list \<Rightarrow> (WorkPriority \<times> string) list" where
  "kept I ends ks = List.map_filter (\<lambda>k. case I k of None \<Rightarrow> None
     | Some i \<Rightarrow> if ends i then None else Some (wi_priority i, k)) ks"

definition keeps_static :: "(WorkIntent \<Rightarrow> bool) \<Rightarrow> bool" where
  "keeps_static ends \<longleftrightarrow> (\<forall>i st. ends (set_state st i) = ends i)"

lemma kept_upd_state:
  "keeps_static ends \<Longrightarrow> kept (upd_state I K st) ends ks = kept I ends ks"
  unfolding kept_def
  by (induction ks) (auto simp: List.map_filter_simps upd_state_def keeps_static_def split: option.split)

lemma split_state_Cons:
  assumes "keeps_static ends" "I k = Some i"
  shows "split_state (upd_state I {k} (if ends i then st else WorkIntentState.Queued)) ends (set ks) st =
     split_state I ends (set (k # ks)) st"
  using assms by (auto simp: split_state_apply upd_state_def keeps_static_def fun_eq_iff split: option.split)

lemma snd_kept_filter:
  "map snd (filter (\<lambda>x. fst x = p) (kept I ends ks)) =
     filter (\<lambda>k. \<exists>i. I k = Some i \<and> \<not> ends i \<and> wi_priority i = p) ks"
  unfolding kept_def
  by (induction ks) (auto simp: List.map_filter_simps split: option.split)

text \<open>
  One loop for all of them: the body changes the entry's state and extends the list of kept
  intents, which \<open>rq\<close> reads off the rest of the loop's variables.
\<close>

lemma fold_split_state:
  assumes static: "keeps_static ends"
    and body: "\<And>k m i rest. map_of m k = Some i \<Longrightarrow> \<exists>rest'.
       f k (m, rest) = Some (AList.map_entry k (set_state (if ends i then st else WorkIntentState.Queued)) m, rest')
       \<and> rq rest' = rq rest @ kept (map_of m) ends [k]"
    and "\<And>k. k \<in> set ks \<Longrightarrow> map_of m k \<noteq> None" "keyed m"
  shows "\<exists>m' rest'. fold_expect f ks (m, rest) = Some (m', rest') \<and> keyed m'
     \<and> map_of m' = split_state (map_of m) ends (set ks) st
     \<and> rq rest' = rq rest @ kept (map_of m) ends ks"
  using assms(3,4)
proof (induction ks arbitrary: m rest)
  case Nil
  then show ?case by (simp add: kept_def List.map_filter_simps split_state_def)
next
  case (Cons k ks)
  from Cons.prems obtain i where i: "map_of m k = Some i" by fastforce
  let ?m = "AList.map_entry k (set_state (if ends i then st else WorkIntentState.Queued)) m"
  from body [OF i] obtain r1 where step: "f k (m, rest) = Some (?m, r1)"
    and r1: "rq r1 = rq rest @ kept (map_of m) ends [k]" by blast
  have "map_of ?m k' \<noteq> None" if "k' \<in> set ks" for k'
    using that Cons.prems(1) by (simp add: map_of_map_entry_state)
  with Cons.IH [of ?m r1] Cons.prems(2) obtain m' r' where
    IH: "fold_expect f ks (?m, r1) = Some (m', r')" "keyed m'"
      "map_of m' = split_state (map_of ?m) ends (set ks) st"
      "rq r' = rq r1 @ kept (map_of ?m) ends ks" by auto
  have "kept (map_of m) ends [k] @ kept (map_of ?m) ends ks = kept (map_of m) ends (k # ks)"
    by (simp add: map_of_map_entry_state kept_upd_state [OF static])
      (simp add: kept_def List.map_filter_simps split: option.split)
  then have "rq r' = rq rest @ kept (map_of m) ends (k # ks)"
    using r1 IH(4) by simp
  with step IH split_state_Cons [OF static, where I = "map_of m", OF i] show ?case
    by (simp add: map_of_map_entry_state)
qed

lemma ids_of_values:
  assumes "keyed m" "\<And>k i. map_of m k = Some i \<Longrightarrow> wi_intent_id i = k"
  shows "distinct (map wi_intent_id (filter P (map snd m)))"
    "set (map wi_intent_id (filter P (map snd m))) = {k. \<exists>i. map_of m k = Some i \<and> P i}"
proof -
  have key: "wi_intent_id i = k" if "(k, i) \<in> set m" for k i
    using that assms by (metis keyed_def map_of_eq_Some_iff)
  have "map wi_intent_id (filter P (map snd m)) = map fst (filter (P \<circ> snd) m)"
    using key by (auto simp: filter_map intro!: map_cong)
  then show "distinct (map wi_intent_id (filter P (map snd m)))"
    using assms(1) by (simp add: keyed_def distinct_map_filter)
  show "set (map wi_intent_id (filter P (map snd m))) = {k. \<exists>i. map_of m k = Some i \<and> P i}"
    using assms(1) key by (force simp: keyed_def map_of_eq_Some_iff)
qed

lemma live_intent_ids:
  assumes inv: "work_inv gen s"
  shows "distinct (live_intent_ids sid s)"
    "set (live_intent_ids sid s) = {k. \<exists>i. map_of (cs_intents s) k = Some i \<and> wi_slot_id i = sid
       \<and> \<not> intent_is_terminal (wi_state i)}"
  using ids_of_values [OF work_invD(2) [OF inv],
      of "\<lambda>i. wi_slot_id i = sid \<and> \<not> intent_is_terminal (wi_state i)"] work_invD(4) [OF inv]
  by (auto simp: live_intent_ids_def intent_inv_def)

lemma work_inv_end_all:
  assumes inv: "work_inv gen s" and sl: "map_of (cs_slots s) sid = Some sl"
    and ks: "distinct ks" "set ks = set (live_intent_ids sid s)"
    and st: "intent_is_terminal st" and m: "keyed m" "map_of m = split_state (map_of (cs_intents s)) ends (set ks) st"
    and queue: "\<And>p. queue (f sl) p = map snd (filter (\<lambda>x. fst x = p) (kept (map_of (cs_intents s)) ends ks))"
    and none: "ss_active (f sl) = None"
  shows "work_step gen s (upd_slot sid f (s\<lparr>cs_intents := m\<rparr>))"
proof (rule work_inv_set_states [OF inv sl m [unfolded split_state_def]])
  let ?I = "map_of (cs_intents s)"
  show "wi_slot_id i = sid \<and> \<not> intent_is_terminal (wi_state i)"
    if "k \<in> {k \<in> set ks. \<exists>i. ?I k = Some i \<and> ends i} \<union> {k \<in> set ks. \<exists>i. ?I k = Some i \<and> \<not> ends i}"
      "?I k = Some i" for k i
    using that live_intent_ids(2) [OF inv] ks(2) by auto
  show "slot_inv gen (upd_state (upd_state ?I {k \<in> set ks. \<exists>i. ?I k = Some i \<and> ends i} st)
      {k \<in> set ks. \<exists>i. ?I k = Some i \<and> \<not> ends i} WorkIntentState.Queued) sid (f sl)"
  proof (rule slot_inv_reset [OF _ st _ _ _ none])
    fix p
    show "distinct (queue (f sl) p)" using ks(1) by (simp add: queue snd_kept_filter)
    show "set (queue (f sl) p) = {k \<in> {k \<in> set ks. \<exists>i. ?I k = Some i \<and> \<not> ends i}.
        \<exists>i. ?I k = Some i \<and> wi_slot_id i = sid \<and> wi_priority i = p}"
      unfolding queue snd_kept_filter using live_intent_ids(2) [OF inv, of sid] ks(2) by auto
  qed (use live_intent_ids(2) [OF inv, of sid] ks(2) in auto)
qed

lemma kept_none: "kept I (\<lambda>_. True) ks = []"
  unfolding kept_def by (induction ks) (auto simp: List.map_filter_simps split: option.split)

subsection \<open>Runtime constraints\<close>

lemma fold_fail_intent:
  fixes cl defines "ends c \<equiv> \<lambda>i. \<not> (wi_team_run_id i = None \<and> c \<noteq> SessionStopped)"
    and "st c \<equiv> (if c = SessionStopped then WorkIntentState.Cancelled cl else WorkIntentState.Failed cl)"
  assumes "\<And>k. k \<in> set ks \<Longrightarrow> map_of m k \<noteq> None" "keyed m"
  shows "\<exists>m' msgs' runs'. fold_expect (fail_intent c cl) ks (m, [], [], []) =
       Some (m', msgs', runs', kept (map_of m) (ends c) ks)
     \<and> keyed m' \<and> map_of m' = split_state (map_of m) (ends c) (set ks) (st c)"
proof -
  have "\<exists>rest'. fail_intent c cl k (m, rest) =
        Some (AList.map_entry k (set_state (if ends c i then st c else WorkIntentState.Queued)) m, rest')
      \<and> snd (snd rest') = snd (snd rest) @ kept (map_of m) (ends c) [k]" if "map_of m k = Some i" for k m i rest
    using that by (cases rest)
      (auto simp: fail_intent_def ends_def st_def kept_def List.map_filter_simps)
  moreover have "keeps_static (ends c)" by (simp add: keeps_static_def ends_def)
  ultimately show ?thesis
    using fold_split_state [of "ends c" "fail_intent c cl" "st c" "snd \<circ> snd" ks m "([], [], [])"] assms(3,4)
    by fastforce
qed

lemma end_constrained_work_inv:
  assumes inv: "work_inv gen s" and sl: "map_of (cs_slots s) sid = Some sl"
  shows "\<exists>s' msgs runs sl'. end_constrained_work sid c cl s = Some (s', msgs, runs) \<and> work_step gen s s'
     \<and> map_of (cs_slots s') sid = Some sl' \<and> ss_active sl' = None
     \<and> map_of (cs_intents s') = split_state (map_of (cs_intents s))
         (\<lambda>i. \<not> (wi_team_run_id i = None \<and> c \<noteq> SessionStopped)) (set (live_intent_ids sid s))
         (if c = SessionStopped then WorkIntentState.Cancelled cl else WorkIntentState.Failed cl)"
proof -
  let ?ks = "live_intent_ids sid s"
  have "\<And>k. k \<in> set ?ks \<Longrightarrow> map_of (cs_intents s) k \<noteq> None"
    using live_intent_ids(2) [OF inv] by auto
  from fold_fail_intent [where ks = ?ks and c = c and cl = cl, OF this work_invD(2) [OF inv]]
  obtain m msgs runs where f: "fold_expect (fail_intent c cl) ?ks (cs_intents s, [], [], []) =
      Some (m, msgs, runs, kept (map_of (cs_intents s)) (\<lambda>i. \<not> (wi_team_run_id i = None \<and> c \<noteq> SessionStopped)) ?ks)"
    and m: "keyed m" "map_of m = split_state (map_of (cs_intents s))
      (\<lambda>i. \<not> (wi_team_run_id i = None \<and> c \<noteq> SessionStopped)) (set ?ks)
      (if c = SessionStopped then WorkIntentState.Cancelled cl else WorkIntentState.Failed cl)"
    by blast
  have "work_step gen s (upd_slot sid (\<lambda>sl. push_back_all
      (kept (map_of (cs_intents s)) (\<lambda>i. \<not> (wi_team_run_id i = None \<and> c \<noteq> SessionStopped)) ?ks) (clear_work sl))
      (s\<lparr>cs_intents := m\<rparr>))"
    by (rule work_inv_end_all [OF inv sl live_intent_ids(1) [OF inv] refl _ m]) simp_all
  with f sl m(2) show ?thesis by (simp add: end_constrained_work_def map_of_map_entry)
qed

lemma set_runtime_constraint_inv:
  assumes inv: "work_inv gen s"
  shows "\<exists>r s' calls. set_runtime_constraint sid c s = Some (r, s', calls) \<and> work_step gen s s'"
proof -
  let ?sl = "(slot_entry Teammate sid s)\<lparr>ss_runtime_constraint := c\<rparr>"
  let ?s1 = "put_slot sid ?sl s"
  have 1: "work_inv gen ?s1" using inv by (rule work_inv_put_same) simp_all
  have sl: "map_of (cs_slots ?s1) sid = Some ?sl" by (simp add: update_conv')
  let ?body = "case c of RuntimeConstraint.Failed _ cl \<Rightarrow> end_constrained_work sid c cl ?s1
     | SessionStopped \<Rightarrow> end_constrained_work sid c ''session_stopped'' ?s1 | _ \<Rightarrow> Some (?s1, [], [])"
  have "\<exists>s' msgs runs. ?body = Some (s', msgs, runs) \<and> work_step gen ?s1 s' \<and> map_of (cs_slots s') sid \<noteq> None"
  proof (cases c)
    case (Failed n cl)
    with end_constrained_work_inv [OF 1 sl, of c cl] show ?thesis by auto
  next
    case SessionStopped
    with end_constrained_work_inv [OF 1 sl, of c "''session_stopped''"] show ?thesis by auto
  qed (use work_step_refl [OF 1] sl in auto)
  then obtain s' msgs runs where body: "?body = Some (s', msgs, runs)" "work_step gen ?s1 s'"
    and "map_of (cs_slots s') sid \<noteq> None" by blast
  then obtain sn where "slot_snapshot_locked s' sid = Some sn" using slot_snapshot_total by blast
  with body show ?thesis by (simp add: set_runtime_constraint_def Let_def work_step_def)
qed

subsection \<open>Removal\<close>

lemma fold_remove_intent:
  assumes "\<And>k. k \<in> set ks \<Longrightarrow> map_of m k \<noteq> None" "keyed m"
  shows "\<exists>m' msgs' runs'. fold_expect remove_intent ks (m, [], []) = Some (m', msgs', runs')
     \<and> keyed m' \<and> map_of m' = split_state (map_of m) (\<lambda>_. True) (set ks) (WorkIntentState.Cancelled ''slot_removed'')"
proof -
  have "\<exists>rest'. remove_intent k (m, rest) =
        Some (AList.map_entry k (set_state (if True then WorkIntentState.Cancelled ''slot_removed''
          else WorkIntentState.Queued)) m, rest')
      \<and> [] = [] @ kept (map_of m) (\<lambda>_. True) [k]" if "map_of m k = Some i" for k m i rest
    using that by (cases rest) (auto simp: remove_intent_def kept_none)
  from fold_split_state [where ends = "\<lambda>_. True" and f = remove_intent and rq = "\<lambda>_. []", OF _ this assms]
  show ?thesis by (fastforce simp: keeps_static_def)
qed

lemma slot_work_ids_live:
  assumes inv: "work_inv gen s" and sl: "map_of (cs_slots s) sid = Some sl"
  shows "distinct (slot_work_ids (Some sl))" "set (slot_work_ids (Some sl)) = set (live_intent_ids sid s)"
proof -
  note slot = work_inv_slotD [OF inv sl]
  have ids: "slot_work_ids (Some sl) = batch_ids sl @ queued_ids sl"
    by (simp add: slot_work_ids_def batch_ids_def)
  have q: "set (queued_ids sl) = (\<Union>p. queued_in (map_of (cs_intents s)) sid p)"
    using slot_invD(2) [OF slot] by (auto simp: mem_queued_ids)
  have "distinct (queued_ids sl)"
  proof -
    have "queued_in I sid p \<inter> queued_in I sid q = {}" if "p \<noteq> q" for I p q
      using that by (auto simp: queued_in_def)
    with slot_invD(1,2) [OF slot, of Foreground] slot_invD(1,2) [OF slot, of Control]
      slot_invD(1,2) [OF slot, of WorkPriority.Background]
    show ?thesis by (simp add: queued_ids_def Int_Un_distrib)
  qed
  moreover have "distinct (batch_ids sl)"
    using slot_invD(4) [OF slot] batch_invD(4) by (cases "ss_active sl") (auto simp: batch_ids_def)
  ultimately show "distinct (slot_work_ids (Some sl))"
    using slot_invD(3) [OF slot] q queued_active_disjoint unfolding ids by (auto, blast)
  show "set (slot_work_ids (Some sl)) = set (live_intent_ids sid s)"
    unfolding ids set_append q slot_invD(3) [OF slot] live_intent_ids(2) [OF inv] live_state_iff
    by (auto simp: queued_in_def active_in_def)
qed

lemma live_ids_no_slot:
  assumes inv: "work_inv gen s" and none: "map_of (cs_slots s) sid = None"
  shows "set (live_intent_ids sid s) = {}"
proof -
  have e: "slot_entry Teammate sid s = new_slot_state Teammate" using none by (simp add: slot_entry_def)
  have "queued_in (map_of (cs_intents s)) sid p = {}" for p
    using slot_invD(2) [OF work_invD(6) [OF inv, of sid], of p] e by simp
  moreover have "active_in (map_of (cs_intents s)) sid = {}"
    using slot_invD(3) [OF work_invD(6) [OF inv, of sid]] e by (simp add: new_slot_state_def)
  ultimately show ?thesis
    unfolding live_intent_ids(2) [OF inv] live_state_iff by (auto simp: queued_in_def active_in_def)
qed

lemma remaining_ids_empty:
  assumes inv: "work_inv gen s" and all: "set (live_intent_ids sid s) \<subseteq> set ks"
  shows "remaining_ids sid ks s = []"
proof -
  have "\<not> (wi_slot_id i = sid \<and> \<not> intent_is_terminal (wi_state i) \<and> wi_intent_id i \<notin> set ks)"
    if "i \<in> set (map snd (cs_intents s))" for i
    using that all unfolding live_intent_ids_def by auto
  then have "filter (\<lambda>i. wi_slot_id i = sid \<and> \<not> intent_is_terminal (wi_state i) \<and> wi_intent_id i \<notin> set ks)
      (map snd (cs_intents s)) = []"
    unfolding filter_empty_conv by blast
  then show ?thesis by (simp add: remaining_ids_def)
qed

lemma map_entry_missing: "map_of m k = None \<Longrightarrow> AList.map_entry k f m = m"
  by (induction m) (auto split: if_splits)

lemma remove_slot_inv:
  assumes inv: "work_inv gen s"
  shows "\<exists>r s' calls. remove_slot sid s = Some (r, s', calls) \<and> work_step gen s s'"
proof (cases "map_of (cs_slots s) sid")
  case None
  then have "remaining_ids sid [] s = []"
    using remaining_ids_empty [OF inv] live_ids_no_slot [OF inv None] by simp
  with None work_step_refl [OF inv] show ?thesis
    by (simp add: remove_slot_def slot_work_ids_def Let_def map_entry_missing)
next
  case (Some sl)
  let ?ks = "slot_work_ids (Some sl)"
  note ks = slot_work_ids_live [OF inv Some]
  have rest: "remaining_ids sid ?ks s = []" using ks by (intro remaining_ids_empty [OF inv]) simp
  have "\<And>k. k \<in> set ?ks \<Longrightarrow> map_of (cs_intents s) k \<noteq> None"
    using ks(2) live_intent_ids(2) [OF inv] by auto
  from fold_remove_intent [where ks = ?ks, OF this work_invD(2) [OF inv]]
  obtain m msgs runs where f: "fold_expect remove_intent ?ks (cs_intents s, [], []) = Some (m, msgs, runs)"
    and m: "keyed m" "map_of m = split_state (map_of (cs_intents s)) (\<lambda>_. True) (set ?ks)
      (WorkIntentState.Cancelled ''slot_removed'')" by blast
  have "work_step gen s (upd_slot sid (\<lambda>sl. (clear_work sl)\<lparr>ss_removed := True\<rparr>) (s\<lparr>cs_intents := m\<rparr>))"
    by (rule work_inv_end_all [OF inv Some ks _ m]) (simp_all add: kept_none)
  with f Some rest show ?thesis by (simp add: remove_slot_def Let_def)
qed

section \<open>Cancelling a run\<close>

abbreviation of_run :: "string \<Rightarrow> WorkIntent \<Rightarrow> bool" where
  "of_run run i \<equiv> wi_team_run_id i = Some run"

abbreviation run_cancelled :: WorkIntentState where
  "run_cancelled \<equiv> WorkIntentState.Cancelled ''run_cancelled''"

text \<open>
  What the cancellation of a run leaves alone: no intent is new, work of other runs stays alive,
  and work of the run keeps its state unless it is cancelled.
\<close>

definition spares :: "string \<Rightarrow> intent_map \<Rightarrow> intent_map \<Rightarrow> bool" where
  "spares run I I' \<longleftrightarrow> (\<forall>k. I k = None \<longrightarrow> I' k = None) \<and> (\<forall>k i i'. I k = Some i \<longrightarrow> I' k = Some i' \<longrightarrow>
     (if of_run run i then wi_state i' = wi_state i \<or> wi_state i' = run_cancelled
      else intent_is_terminal (wi_state i') = intent_is_terminal (wi_state i)))"

lemma spares_trans:
  assumes "evolves I J" "spares run I J" "spares run J K"
  shows "spares run I K"
  unfolding spares_def
proof (intro conjI allI impI)
  fix k assume "I k = None"
  with assms(2,3) show "K k = None" by (simp add: spares_def)
next
  fix k i i' assume I: "I k = Some i" "K k = Some i'"
  with assms(1) obtain st where J: "J k = Some (set_state st i)" by (force simp: evolves_def)
  have "if of_run run i then st = wi_state i \<or> st = run_cancelled
      else intent_is_terminal st = intent_is_terminal (wi_state i)"
    using assms(2) I(1) J unfolding spares_def by fastforce
  moreover have "if of_run run i then wi_state i' = st \<or> wi_state i' = run_cancelled
      else intent_is_terminal (wi_state i') = intent_is_terminal st"
    using assms(3) I(2) J unfolding spares_def by fastforce
  ultimately show "if of_run run i then wi_state i' = wi_state i \<or> wi_state i' = run_cancelled
      else intent_is_terminal (wi_state i') = intent_is_terminal (wi_state i)"
    by (auto split: if_splits)
qed

lemma spares_refl [simp]: "spares run I I"
  by (simp add: spares_def)

lemma fold_cancel_or_retain:
  assumes "\<And>k. k \<in> set ks \<Longrightarrow> map_of m k \<noteq> None" "keyed m"
  shows "\<exists>m' msgs'. fold_expect (cancel_or_retain run) ks (m, msgs, []) =
       Some (m', msgs', kept (map_of m) (of_run run) ks)
     \<and> keyed m' \<and> map_of m' = split_state (map_of m) (of_run run) (set ks) run_cancelled"
proof -
  have "\<exists>rest'. cancel_or_retain run k (m, rest) =
        Some (AList.map_entry k (set_state (if of_run run i then run_cancelled else WorkIntentState.Queued)) m, rest')
      \<and> snd rest' = snd rest @ kept (map_of m) (of_run run) [k]" if "map_of m k = Some i" for k m i rest
    using that by (cases rest) (auto simp: cancel_or_retain_def kept_def List.map_filter_simps)
  moreover have "keeps_static (of_run run)" by (simp add: keeps_static_def)
  ultimately show ?thesis
    using fold_split_state [of "of_run run" "cancel_or_retain run" run_cancelled snd ks m "(msgs, [])"] assms
    by fastforce
qed

lemma cancel_active_step:
  assumes inv: "work_inv gen s" and sl: "map_of (cs_slots s) sid = Some sl" "ss_active sl = Some a"
  shows "\<exists>s' msgs'. cancel_active run (sid, a) (s, ts, msgs) =
       Some (s', ts @ [\<lparr>ct_batch = ab_batch a, ct_turn_id = ab_turn_id a\<rparr>], msgs')
     \<and> work_step gen s s' \<and> spares run (map_of (cs_intents s)) (map_of (cs_intents s'))
     \<and> active_in (map_of (cs_intents s')) sid = {}
     \<and> (\<forall>k. k \<noteq> sid \<longrightarrow> map_of (cs_slots s') k = map_of (cs_slots s) k)
     \<and> cs_enqueue_leases s' = cs_enqueue_leases s"
proof -
  let ?I = "map_of (cs_intents s)" and ?ids = "wb_intent_ids (ab_batch a)" and ?p = "wb_highest_priority (ab_batch a)"
  note b = slot_invD(4) [OF work_inv_slotD [OF inv sl(1)] sl(2)]
  have ex: "\<And>k. k \<in> set ?ids \<Longrightarrow> ?I k \<noteq> None" using batch_invD(5) [OF b] by force
  obtain m msgs' where f: "fold_expect (cancel_or_retain run) ?ids (cs_intents s, msgs, []) =
      Some (m, msgs', kept ?I (of_run run) ?ids)"
    and m: "keyed m" "map_of m = split_state ?I (of_run run) (set ?ids) run_cancelled"
    using fold_cancel_or_retain [where ks = ?ids, OF ex work_invD(2) [OF inv]] by blast
  let ?D = "{k \<in> set ?ids. \<exists>i. ?I k = Some i \<and> of_run run i}"
  let ?ks = "filter (\<lambda>k. k \<notin> ?D) ?ids"
  let ?f = "\<lambda>sl. push_front_all (kept ?I (of_run run) ?ids) (sl\<lparr>ss_active := None\<rparr>)"
  let ?s = "upd_slot sid ?f (s\<lparr>cs_intents := m\<rparr>)"
  have R: "{k \<in> set ?ids. \<exists>i. ?I k = Some i \<and> \<not> of_run run i} = set ?ks" using ex by auto
  have "map snd (filter (\<lambda>x. fst x = p) (kept ?I (of_run run) ?ids)) = (if p = ?p then ?ks else [])" for p
    unfolding snd_kept_filter using ex batch_slotD(3) [OF inv sl]
    by (auto simp: filter_empty_conv intro!: filter_cong) blast
  then have step: "work_step gen s ?s"
    by (intro release_batch_inv [OF inv sl _ _ refl m(1) m(2) [unfolded split_state_def R]]) auto
  have "spares run ?I (map_of m)"
    using batch_slotD(1) [OF inv sl] by (auto simp: spares_def m(2) split_state_apply split: if_splits)
  moreover have "active_in (map_of (cs_intents ?s)) sid = {}"
    using slot_invD(3) [OF work_inv_slotD [OF work_stepD(1) [OF step], of sid "?f sl"]] sl
    by (simp add: map_of_map_entry)
  moreover have "cancel_active run (sid, a) (s, ts, msgs) =
      Some (?s, ts @ [\<lparr>ct_batch = ab_batch a, ct_turn_id = ab_turn_id a\<rparr>], msgs')"
    using f sl by (simp add: cancel_active_def)
  ultimately show ?thesis using step by (auto simp: map_of_map_entry)
qed

definition no_active :: "string \<Rightarrow> CoordinatorState \<Rightarrow> string \<Rightarrow> bool" where
  "no_active run s sid \<longleftrightarrow> (\<forall>k \<in> active_in (map_of (cs_intents s)) sid. \<not> in_run s run k)"

lemma in_run_evolves:
  assumes "evolves (map_of (cs_intents s)) (map_of (cs_intents s'))" "map_of (cs_intents s) k = Some i"
  shows "in_run s' run k = in_run s run k"
  using assms by (force simp: evolves_def in_run_def)

lemma no_active_keep:
  assumes "work_inv gen s" and step: "work_step gen s s'" and same: "map_of (cs_slots s') sid = map_of (cs_slots s) sid"
    and "no_active run s sid"
  shows "no_active run s' sid"
proof -
  have "active_in (map_of (cs_intents s')) sid = active_in (map_of (cs_intents s)) sid"
    using slot_invD(3) [OF work_invD(6) [OF assms(1), of sid]] same
      slot_invD(3) [OF work_invD(6) [OF work_stepD(1) [OF step], of sid]]
    by (simp add: slot_entry_def)
  moreover have "\<exists>i. map_of (cs_intents s) k = Some i" if "k \<in> active_in (map_of (cs_intents s)) sid" for k
    using that by (auto simp: active_in_def)
  ultimately show ?thesis
    using assms(4) in_run_evolves [OF work_stepD(2) [OF step]] by (metis no_active_def)
qed

definition loop1 :: "string \<Rightarrow> string \<Rightarrow> CoordinatorState \<Rightarrow> (string \<times> ActiveBatch) list
    \<Rightarrow> CoordinatorState \<times> BatchCancelTarget list \<times> string list \<Rightarrow> bool" where
  "loop1 gen run s0 xs acc \<longleftrightarrow>
     (case acc of (s, ts, msgs) \<Rightarrow>
        work_step gen s0 s \<and> spares run (map_of (cs_intents s0)) (map_of (cs_intents s))
        \<and> cs_enqueue_leases s = cs_enqueue_leases s0
        \<and> distinct (map fst xs)
        \<and> (\<forall>(sid, a) \<in> set xs. \<exists>sl. map_of (cs_slots s) sid = Some sl \<and> ss_active sl = Some a)
        \<and> (\<forall>sid. sid \<notin> fst ` set xs \<longrightarrow> no_active run s sid))"

lemma loop1_step:
  assumes "loop1 gen run s0 (x # xs) acc"
  shows "\<exists>acc'. cancel_active run x acc = Some acc' \<and> loop1 gen run s0 xs acc'"
proof -
  obtain sid a where x: "x = (sid, a)" by (cases x)
  obtain s ts msgs where acc: "acc = (s, ts, msgs)" by (cases acc)
  note L = assms [unfolded loop1_def acc x, simplified]
  from L obtain sl where sl: "map_of (cs_slots s) sid = Some sl" "ss_active sl = Some a" by blast
  from L have inv: "work_inv gen s" by (simp add: work_step_def)
  from cancel_active_step [OF inv sl, of run ts msgs]
  obtain s' msgs' where step: "cancel_active run (sid, a) (s, ts, msgs) =
        Some (s', ts @ [\<lparr>ct_batch = ab_batch a, ct_turn_id = ab_turn_id a\<rparr>], msgs')"
      "work_step gen s s'" "spares run (map_of (cs_intents s)) (map_of (cs_intents s'))"
      "active_in (map_of (cs_intents s')) sid = {}"
      "\<forall>k. k \<noteq> sid \<longrightarrow> map_of (cs_slots s') k = map_of (cs_slots s) k"
      "cs_enqueue_leases s' = cs_enqueue_leases s" by blast
  have "no_active run s' k" if "k \<notin> fst ` set xs" for k
  proof (cases "k = sid")
    case True
    with step(4) show ?thesis by (simp add: no_active_def)
  next
    case False
    with that L step(5) show ?thesis by (intro no_active_keep [OF inv step(2)]) auto
  qed
  moreover have "\<exists>sl. map_of (cs_slots s') k = Some sl \<and> ss_active sl = Some b" if "(k, b) \<in> set xs" for k b
  proof -
    from that L obtain sl where "map_of (cs_slots s) k = Some sl \<and> ss_active sl = Some b" by blast
    moreover have "k \<noteq> sid" using that L by force
    ultimately show ?thesis using step(5) by simp
  qed
  moreover have "spares run (map_of (cs_intents s0)) (map_of (cs_intents s'))"
    using L step(3) by (auto intro: spares_trans work_stepD)
  ultimately show ?thesis
    using L step(1,2,6) unfolding acc x loop1_def by (auto intro: work_step_trans)
qed

lemma loop1_init:
  assumes inv: "work_inv gen s"
  shows "loop1 gen run s (run_active_slots run s) (s, [], [])"
proof -
  let ?g = "\<lambda>sid. do {
         sl \<leftarrow> map_of (cs_slots s) sid;
         a \<leftarrow> ss_active sl;
         if \<exists>k \<in> set (wb_intent_ids (ab_batch a)). in_run s run k then Some (sid, a) else None }"
  have g: "?g sid = Some x \<Longrightarrow> fst x = sid \<and> (\<exists>sl. map_of (cs_slots s) sid = Some sl \<and> ss_active sl = Some (snd x))" for sid x
    by (auto split: option.splits if_splits bind_splits)
  have "distinct (map fst (List.map_filter ?g xs)) \<and> fst ` set (List.map_filter ?g xs) \<subseteq> set xs"
    if "distinct xs" for xs
    using that
  proof (induction xs)
    case (Cons x xs)
    then show ?case by (cases "?g x") (auto simp: List.map_filter_simps dest: g)
  qed (simp add: List.map_filter_simps)
  then have "distinct (map fst (run_active_slots run s))" by (simp add: run_active_slots_def)
  moreover have "\<exists>sl. map_of (cs_slots s) sid = Some sl \<and> ss_active sl = Some a"
    if "(sid, a) \<in> set (run_active_slots run s)" for sid a
    using that g unfolding run_active_slots_def List.map_filter_def by fastforce
  moreover have "no_active run s sid" if "sid \<notin> fst ` set (run_active_slots run s)" for sid
  proof (rule ccontr)
    assume "\<not> no_active run s sid"
    then obtain k where k: "k \<in> active_in (map_of (cs_intents s)) sid" "in_run s run k"
      by (auto simp: no_active_def)
    then have "k \<in> set (batch_ids (slot_entry Teammate sid s))"
      using slot_invD(3) [OF work_invD(6) [OF inv]] by blast
    then obtain sl a where sl: "map_of (cs_slots s) sid = Some sl" "ss_active sl = Some a"
        "k \<in> set (wb_intent_ids (ab_batch a))"
      by (cases "map_of (cs_slots s) sid"; cases "ss_active (slot_entry Teammate sid s)")
        (auto simp: slot_entry_def batch_ids_def new_slot_state_def)
    with k have "?g sid = Some (sid, a)" by auto
    moreover have "sid \<in> set (map fst (cs_slots s))" using sl(1) by (force dest: map_of_SomeD)
    ultimately have "(sid, a) \<in> set (run_active_slots run s)"
      unfolding run_active_slots_def List.map_filter_def by force
    with that show False by force
  qed
  ultimately show ?thesis using work_step_refl [OF inv] by (auto simp: loop1_def)
qed

definition loop2 :: "string \<Rightarrow> string \<Rightarrow> CoordinatorState \<Rightarrow> string list
    \<Rightarrow> CoordinatorState \<times> string list \<Rightarrow> bool" where
  "loop2 gen run s0 ks acc \<longleftrightarrow>
     (case acc of (s, msgs) \<Rightarrow>
        work_step gen s0 s \<and> spares run (map_of (cs_intents s0)) (map_of (cs_intents s))
        \<and> cs_enqueue_leases s = cs_enqueue_leases s0 \<and> distinct ks
        \<and> (\<forall>k i. map_of (cs_intents s) k = Some i \<longrightarrow> of_run run i \<longrightarrow>
              (if k \<in> set ks then wi_state i = WorkIntentState.Queued else intent_is_terminal (wi_state i)))
        \<and> (\<forall>k \<in> set ks. in_run s run k))"

lemma loop2_step:
  assumes "loop2 gen run s0 (k # ks) acc"
  shows "\<exists>acc'. cancel_queued k acc = Some acc' \<and> loop2 gen run s0 ks acc'"
proof -
  obtain s msgs where acc: "acc = (s, msgs)" by (cases acc)
  note L = assms [unfolded loop2_def acc, simplified]
  from L have inv: "work_inv gen s" by (simp add: work_step_def)
  from L obtain i where i: "map_of (cs_intents s) k = Some i" "of_run run i"
    by (auto simp: in_run_def split: option.splits)
  with L have q: "wi_state i = WorkIntentState.Queued" by simp
  let ?sid = "wi_slot_id i"
  let ?s = "upd_slot ?sid (remove_queued k)
     (s\<lparr>cs_intents := AList.map_entry k (set_state run_cancelled) (cs_intents s)\<rparr>)"
  have k: "k \<in> set (queue (slot_entry Teammate ?sid s) (wi_priority i))"
    using slot_invD(2) [OF work_invD(6) [OF inv, of ?sid], of "wi_priority i"] i q by (auto simp: queued_in_def)
  then obtain sl where sl: "map_of (cs_slots s) ?sid = Some sl"
    by (cases "map_of (cs_slots s) ?sid") (simp_all add: slot_entry_def)
  have "slot_inv gen (upd_state (map_of (cs_intents s)) (set [k]) run_cancelled) ?sid (fold remove_queued [k] sl)"
    using i q by (intro slot_inv_drop_queued [OF work_inv_slotD [OF inv sl]]) (auto simp: active_in_def)
  then have step: "work_step gen s ?s"
    using work_invD(2) [OF inv] i q
    by (intro work_inv_set_states [OF inv sl, where D = "{k}" and R = "{}" and st = run_cancelled])
      (auto simp: map_of_map_entry_state)
  have sp: "spares run (map_of (cs_intents s)) (map_of (cs_intents ?s))"
    using i by (auto simp: spares_def map_of_map_entry_state upd_state_def split: if_splits)
  have state: "map_of (cs_intents ?s) k' = Some j \<Longrightarrow> of_run run j \<Longrightarrow>
      (if k' \<in> set ks then wi_state j = WorkIntentState.Queued else intent_is_terminal (wi_state j))" for k' j
    using L i by (auto simp: map_of_map_entry_state upd_state_def split: if_splits)
  have runs: "in_run ?s run k'" if "k' \<in> set ks" for k'
    using that L by (auto simp: in_run_def map_of_map_entry_state upd_state_def split: option.splits)
  have "cancel_queued k acc = Some (?s, push_message i msgs)"
    using i by (simp add: cancel_queued_def acc)
  moreover have "loop2 gen run s0 ks (?s, push_message i msgs)"
    using L step state runs spares_trans [OF work_stepD(2) _ sp] work_step_trans [OF _ step]
    unfolding loop2_def by auto
  ultimately show ?thesis by blast
qed

lemma run_queued_ids:
  assumes inv: "work_inv gen s"
  shows "distinct (run_queued_ids run s)"
    "k \<in> set (run_queued_ids run s) \<longleftrightarrow>
       (\<exists>i. map_of (cs_intents s) k = Some i \<and> of_run run i \<and> wi_state i = WorkIntentState.Queued)"
  using ids_of_values [OF work_invD(2) [OF inv],
      of "\<lambda>i. of_run run i \<and> wi_state i = WorkIntentState.Queued"] work_invD(4) [OF inv]
  unfolding run_queued_ids_def by (auto simp: intent_inv_def)

lemma loop2_init:
  assumes "loop1 gen run s0 [] (s, ts, msgs)"
  shows "loop2 gen run s0 (run_queued_ids run s) (s, msgs)"
proof -
  note L = assms [unfolded loop1_def, simplified]
  from L have inv: "work_inv gen s" by (simp add: work_step_def)
  have st: "wi_state i = WorkIntentState.Queued \<or> intent_is_terminal (wi_state i)"
    if "map_of (cs_intents s) k = Some i" "of_run run i" for k i
  proof -
    have "no_active run s (wi_slot_id i)" using L by blast
    with that live_state_iff [of "wi_state i"] show ?thesis
      by (auto simp: no_active_def active_in_def in_run_def)
  qed
  from L run_queued_ids [OF inv] show ?thesis
    unfolding loop2_def by (auto simp: in_run_def) (use st in blast)
qed

lemma map_of_fold_delete:
  "map_of (fold AList.delete ks m) k = (if k \<in> set ks then None else map_of m k)"
  by (induction ks arbitrary: m) (auto simp: delete_conv')

lemma keyed_fold_delete: "keyed m \<Longrightarrow> keyed (fold AList.delete ks m)"
  by (induction ks arbitrary: m) auto

lemma run_leases_Nil:
  assumes "keyed (cs_enqueue_leases s)"
    and "\<And>k r. map_of (cs_enqueue_leases s) k = Some r \<Longrightarrow> el_team_run_id (lr_lease r) \<noteq> Some run"
  shows "run_leases s run = []"
proof -
  have "el_team_run_id (lr_lease r) \<noteq> Some run" if "r \<in> set (map snd (cs_enqueue_leases s))" for r
    using that assms(2) values_iff [OF assms(1)] by blast
  then show ?thesis by (auto simp: run_leases_def filter_empty_conv)
qed

lemma cancel_run_step:
  assumes inv: "work_inv gen s"
  shows "\<exists>r s'. cancel_run run s = Some (r, s', [ApplyWorkSummary (run_summary_locked s' run)])
     \<and> cr_summary r = run_summary_locked s' run \<and> work_step gen s s'
     \<and> spares run (map_of (cs_intents s)) (map_of (cs_intents s'))
     \<and> (\<forall>k i. map_of (cs_intents s') k = Some i \<longrightarrow> of_run run i \<longrightarrow> intent_is_terminal (wi_state i))
     \<and> run_leases s' run = []
     \<and> (\<forall>k r. el_team_run_id (lr_lease r) \<noteq> Some run \<longrightarrow>
          (map_of (cs_enqueue_leases s') k = Some r \<longleftrightarrow> map_of (cs_enqueue_leases s) k = Some r))"
proof -
  have "\<exists>acc. fold_expect (cancel_active run) (run_active_slots run s) (s, [], []) = Some acc
      \<and> loop1 gen run s [] acc"
    by (rule fold_expect_induct [where P = "loop1 gen run s" and Q = "loop1 gen run s []"])
      (use loop1_init [OF inv] loop1_step in blast)+
  then obtain s1 ts msgs where 1: "fold_expect (cancel_active run) (run_active_slots run s) (s, [], []) =
      Some (s1, ts, msgs)" "loop1 gen run s [] (s1, ts, msgs)"
    by (metis prod_cases3)
  have "\<exists>acc. fold_expect cancel_queued (run_queued_ids run s1) (s1, msgs) = Some acc
      \<and> loop2 gen run s [] acc"
    by (rule fold_expect_induct [where P = "loop2 gen run s" and Q = "loop2 gen run s []"])
      (use loop2_init [OF 1(2)] loop2_step in blast)+
  then obtain s2 msgs2 where 2: "fold_expect cancel_queued (run_queued_ids run s1) (s1, msgs) =
      Some (s2, msgs2)" "loop2 gen run s [] (s2, msgs2)"
    by (metis surj_pair)
  note L = 2(2) [unfolded loop2_def, simplified]
  from L have inv2: "work_inv gen s2" by (simp add: work_step_def)
  let ?ids = "map el_lease_id (run_leases s2 run)"
  let ?s = "s2\<lparr>cs_enqueue_leases := fold AList.delete ?ids (cs_enqueue_leases s2)\<rparr>"
  have ids: "k \<in> set ?ids \<longleftrightarrow> (\<exists>r. map_of (cs_enqueue_leases s2) k = Some r
      \<and> el_team_run_id (lr_lease r) = Some run)" for k
    using work_invD(3,5) [OF inv2]
    by (force simp: run_leases_def lease_inv_def keyed_def map_of_eq_Some_iff)
  have "work_inv gen ?s"
    using work_invD(3,5) [OF inv2]
    by (intro work_inv_leases [OF inv2]) (auto simp: map_of_fold_delete keyed_fold_delete split: if_splits)
  then have "work_step gen s ?s" using L by (simp add: work_step_def)
  moreover have none: "map_of (cs_enqueue_leases ?s) k = Some r \<Longrightarrow> el_team_run_id (lr_lease r) \<noteq> Some run" for k r
    using ids by (auto simp: map_of_fold_delete split: if_splits)
  have keyed: "keyed (cs_enqueue_leases ?s)"
    using keyed_fold_delete [OF work_invD(3) [OF inv2]] by simp
  have "run_leases ?s run = []" by (rule run_leases_Nil [OF keyed none])
  moreover have "map_of (cs_enqueue_leases ?s) k = Some r \<longleftrightarrow> map_of (cs_enqueue_leases s) k = Some r"
    if "el_team_run_id (lr_lease r) \<noteq> Some run" for k r
    using that ids L by (auto simp: map_of_fold_delete)
  moreover have "cancel_run run s = Some (\<lparr>cr_cancel_targets = ts, cr_terminal_message_ids = msgs2,
      cr_summary = run_summary_locked ?s run\<rparr>, ?s, [ApplyWorkSummary (run_summary_locked ?s run)])"
    using 1(1) 2(1) by (simp add: cancel_run_def Let_def)
  ultimately show ?thesis
    using L by (intro exI conjI) (assumption | simp)+
qed

section \<open>Stopping the session\<close>

lemma stop_step:
  assumes inv: "work_inv gen s" and res: "stop s = (r, s', calls)"
  shows "work_step gen s s'"
    "map_of (cs_intents s') k = Some i \<Longrightarrow> intent_is_terminal (wi_state i)"
    "cs_enqueue_leases s' = []"
    "map_of (cs_slots s') sid = Some sl \<Longrightarrow>
       ss_runtime_constraint sl = SessionStopped \<and> ss_active sl = None \<and> queued_ids sl = []"
proof -
  let ?g = "\<lambda>i. if intent_is_terminal (wi_state i) then i
      else set_state (WorkIntentState.Cancelled ''session_stopped'') i"
  let ?h = "\<lambda>sl. (clear_work sl)\<lparr>ss_runtime_constraint := SessionStopped\<rparr>"
  have s': "s' = s\<lparr>cs_intents := map (\<lambda>(k, i). (k, ?g i)) (cs_intents s),
      cs_slots := map (\<lambda>(k, sl). (k, ?h sl)) (cs_slots s), cs_enqueue_leases := []\<rparr>"
    using res by (simp add: stop_def Let_def)
  have I: "map_of (cs_intents s') k = map_option ?g (map_of (cs_intents s) k)" for k
    by (simp add: s' map_of_map_values [of "\<lambda>_. ?g"])
  have S: "map_of (cs_slots s') sid = map_option ?h (map_of (cs_slots s) sid)" for sid
    by (simp add: s' map_of_map_values [of "\<lambda>_. ?h"])
  have t: "intent_is_terminal (wi_state i)" if i: "map_of (cs_intents s') k = Some i" for k i
  proof -
    from i obtain j where "i = ?g j" by (auto simp: I)
    then show ?thesis by simp
  qed
  then show "map_of (cs_intents s') k = Some i \<Longrightarrow> intent_is_terminal (wi_state i)" .
  show "cs_enqueue_leases s' = []" by (simp add: s')
  show "map_of (cs_slots s') sid = Some sl \<Longrightarrow>
      ss_runtime_constraint sl = SessionStopped \<and> ss_active sl = None \<and> queued_ids sl = []" for sid sl
    by (auto simp: S clear_work_def queued_ids_def)
  have none: "queued_in (map_of (cs_intents s')) sid p = {}" "active_in (map_of (cs_intents s')) sid = {}" for sid p
    using t live_state_iff by (force simp: queued_in_def active_in_def)+
  have "ss_active (slot_entry Teammate sid s') = None \<and> queue (slot_entry Teammate sid s') p = []" for sid p
    by (cases "map_of (cs_slots s) sid") (simp_all add: slot_entry_def S, simp add: new_slot_state_def)
  then have "slot_inv gen (map_of (cs_intents s')) sid (slot_entry Teammate sid s')" for sid
    by (intro slot_invI) (simp_all add: none)
  moreover have "keyed (cs_slots s')" "keyed (cs_intents s')"
    using work_invD(1,2) [OF inv] keyed_map_values [of "\<lambda>_. ?g"] keyed_map_values [of "\<lambda>_. ?h"]
    by (simp_all add: s')
  moreover have "intent_inv gen k i" if "map_of (cs_intents s') k = Some i" for k i
    using that work_invD(4) [OF inv] by (auto simp: I intent_inv_def split: if_splits)
  ultimately have "work_inv gen s'" by (simp add: work_inv_def s')
  moreover have "evolves (map_of (cs_intents s)) (map_of (cs_intents s'))"
    by (force simp: evolves_def I)
  ultimately show "work_step gen s s'" by (simp add: work_step_def)
qed

end
