(* ===== verification/Team_Run_Manager.thy ===== *)
theory Team_Run_Manager
  imports Team_Coordinator
begin

text \<open>
  The team run manager, \<open>crates/tjuaeui-team/src/team_run/manager.rs\<close>, with the payloads it sends
  (\<open>crates/tjuaeui-api-types/src/team.rs\<close>) and the event names of
  \<open>crates/tjuaeui-team/src/events.rs\<close>. It keeps at most one run record, drives its status from
  the coordinator's work summaries, and is the coordinator's port.

  The broadcaster behind the emitter is the append-only log \<open>mg_events\<close> of what was sent. A call
  reads the clock once (\<open>now\<close>); the code reads it again for every slot of a payload.
\<close>

section \<open>Payloads and events\<close>

datatype TeamRunStatus = Accepted | Running | Cancelling | Completed | Cancelled | Failed

datatype TeamRunSource = UserMessage | SystemLifecycle

datatype TeamSlotWorkState = Idle | Queued | Starting | Running | Paused | Blocked

datatype TeamSlotBlockedReason = RuntimeStarting | RuntimeFailed | Removing | SessionStopped

record TeamSlotWorkPayload =
  sp_slot_id :: string
  sp_role :: TeamRunTargetRole
  sp_state :: TeamSlotWorkState
  sp_queued_foreground_count :: nat
  sp_queued_background_count :: nat
  sp_active_turn_id :: "string option"
  sp_active_turn_started_at_ms :: "TimestampMs option"
  sp_active_turn_elapsed_ms :: "u64 option"
  sp_active_turn_slow :: "bool option"
  sp_active_turn_slow_threshold_ms :: "u64 option"
  sp_blocked_reason :: "TeamSlotBlockedReason option"
  sp_team_run_id :: "string option"

record TeamRunPayload =
  rp_team_id :: string
  rp_team_run_id :: string
  rp_source :: TeamRunSource
  rp_has_user_intervention :: bool
  rp_target_slot_id :: string
  rp_target_role :: TeamRunTargetRole
  rp_status :: TeamRunStatus
  rp_queued_intent_count :: nat
  rp_starting_batch_count :: nat
  rp_running_batch_count :: nat
  rp_active_enqueue_lease_count :: nat
  rp_slot_work :: "TeamSlotWorkPayload list"

record TeamSlotWorkChangedPayload =
  sw_team_id :: string
  sw_slot_work :: TeamSlotWorkPayload

datatype TeamRunEventName =
    TEAM_RUN_ACCEPTED_EVENT
  | TEAM_RUN_STARTED_EVENT
  | TEAM_RUN_UPDATED_EVENT
  | TEAM_RUN_COMPLETED_EVENT
  | TEAM_RUN_CANCELLED_EVENT
  | TEAM_RUN_FAILED_EVENT

fun event_name_str :: "TeamRunEventName \<Rightarrow> string" where
  "event_name_str TEAM_RUN_ACCEPTED_EVENT = ''team.runAccepted''"
| "event_name_str TEAM_RUN_STARTED_EVENT = ''team.runStarted''"
| "event_name_str TEAM_RUN_UPDATED_EVENT = ''team.runUpdated''"
| "event_name_str TEAM_RUN_COMPLETED_EVENT = ''team.runCompleted''"
| "event_name_str TEAM_RUN_CANCELLED_EVENT = ''team.runCancelled''"
| "event_name_str TEAM_RUN_FAILED_EVENT = ''team.runFailed''"

datatype TeamEvent =
    TeamRun TeamRunEventName TeamRunPayload
  | SlotWorkChanged TeamSlotWorkChangedPayload

section \<open>State\<close>

record TeamRunRecord =
  tr_team_run_id :: string
  tr_source :: TeamRunSource
  tr_has_user_intervention :: bool
  tr_target_slot_id :: string
  tr_target_role :: TeamRunTargetRole
  tr_status :: TeamRunStatus
  tr_started_at_ms :: "TimestampMs option"
  tr_completed_at_ms :: "TimestampMs option"
  tr_cancel_reason :: "string option"
  tr_summary :: "RunWorkSummary option"
  tr_accepted_emitted :: bool

definition run_is_active :: "TeamRunRecord \<Rightarrow> bool" where
  "run_is_active run \<longleftrightarrow>
     (case tr_status run of TeamRunStatus.Accepted \<Rightarrow> True | TeamRunStatus.Running \<Rightarrow> True
      | Cancelling \<Rightarrow> True | _ \<Rightarrow> False)"

record TeamRunManager =
  mg_team_id :: string
  mg_run :: "TeamRunRecord option"
  mg_events :: "TeamEvent list"

definition new_manager :: "string \<Rightarrow> TeamRunManager" where
  "new_manager team_id = \<lparr> mg_team_id = team_id, mg_run = None, mg_events = [] \<rparr>"

definition broadcast_team_run :: "TeamRunEventName \<Rightarrow> TeamRunPayload \<Rightarrow> TeamRunManager \<Rightarrow> TeamRunManager" where
  "broadcast_team_run name payload mgr = mgr\<lparr>mg_events := mg_events mgr @ [TeamRun name payload]\<rparr>"

definition broadcast_slot_work :: "TeamSlotWorkChangedPayload \<Rightarrow> TeamRunManager \<Rightarrow> TeamRunManager" where
  "broadcast_slot_work payload mgr = mgr\<lparr>mg_events := mg_events mgr @ [SlotWorkChanged payload]\<rparr>"

section \<open>Payload construction\<close>

definition ACTIVE_TURN_SLOW_THRESHOLD_MS :: u64 where
  "ACTIVE_TURN_SLOW_THRESHOLD_MS = 10 * 60 * 1000"

definition active_turn_elapsed_ms :: "TimestampMs \<Rightarrow> TimestampMs \<Rightarrow> u64" where
  "active_turn_elapsed_ms now started_at = word_of_int (max (i64_saturating_sub now started_at) 0)"

fun slot_state_payload :: "SlotPhase \<Rightarrow> TeamSlotWorkState" where
  "slot_state_payload SlotPhase.Idle = TeamSlotWorkState.Idle"
| "slot_state_payload SlotPhase.Queued = TeamSlotWorkState.Queued"
| "slot_state_payload SlotPhase.Starting = TeamSlotWorkState.Starting"
| "slot_state_payload SlotPhase.Running = TeamSlotWorkState.Running"
| "slot_state_payload SlotPhase.Paused = TeamSlotWorkState.Paused"
| "slot_state_payload SlotPhase.Blocked = TeamSlotWorkState.Blocked"

fun blocked_reason :: "RuntimeConstraint \<Rightarrow> TeamSlotBlockedReason option" where
  "blocked_reason Ready = None"
| "blocked_reason (RuntimeConstraint.Starting _) = Some RuntimeStarting"
| "blocked_reason (RuntimeConstraint.Failed _ _) = Some RuntimeFailed"
| "blocked_reason (RuntimeConstraint.Removing _) = Some TeamSlotBlockedReason.Removing"
| "blocked_reason RuntimeConstraint.SessionStopped = Some TeamSlotBlockedReason.SessionStopped"

definition slot_payload :: "TimestampMs \<Rightarrow> SlotWorkSnapshot \<Rightarrow> TeamSlotWorkPayload" where
  "slot_payload now sn =
     (let elapsed = map_option (active_turn_elapsed_ms now) (sn_active_turn_started_at_ms sn)
      in \<lparr> sp_slot_id = sn_slot_id sn,
           sp_role = sn_role sn,
           sp_state = slot_state_payload (sn_state sn),
           sp_queued_foreground_count = sn_queued_foreground_count sn,
           sp_queued_background_count = sn_queued_background_count sn,
           sp_active_turn_id = sn_active_turn_id sn,
           sp_active_turn_started_at_ms = sn_active_turn_started_at_ms sn,
           sp_active_turn_elapsed_ms = elapsed,
           sp_active_turn_slow = map_option (\<lambda>e. e \<ge> ACTIVE_TURN_SLOW_THRESHOLD_MS) elapsed,
           sp_active_turn_slow_threshold_ms =
             map_option (\<lambda>_. ACTIVE_TURN_SLOW_THRESHOLD_MS) (sn_active_turn_id sn),
           sp_blocked_reason = blocked_reason (sn_runtime_constraint sn),
           sp_team_run_id = sn_team_run_id sn \<rparr>)"

definition payload_locked ::
  "string \<Rightarrow> TimestampMs \<Rightarrow> TeamRunRecord \<Rightarrow> RunWorkSummary \<Rightarrow> TeamRunPayload" where
  "payload_locked team_id now run su = \<lparr>
     rp_team_id = team_id,
     rp_team_run_id = tr_team_run_id run,
     rp_source = tr_source run,
     rp_has_user_intervention = tr_has_user_intervention run,
     rp_target_slot_id = tr_target_slot_id run,
     rp_target_role = tr_target_role run,
     rp_status = tr_status run,
     rp_queued_intent_count = su_queued_intent_count su,
     rp_starting_batch_count = su_starting_batch_count su,
     rp_running_batch_count = su_running_batch_count su,
     rp_active_enqueue_lease_count = su_active_enqueue_lease_count su,
     rp_slot_work = map (slot_payload now) (su_slots su) \<rparr>"

section \<open>Operations\<close>

definition new_run :: "string \<Rightarrow> TeamRunSource \<Rightarrow> string \<Rightarrow> TeamRunTargetRole \<Rightarrow> TeamRunRecord" where
  "new_run run_id source slot_id role = \<lparr>
     tr_team_run_id = run_id, tr_source = source, tr_has_user_intervention = False,
     tr_target_slot_id = slot_id, tr_target_role = role, tr_status = TeamRunStatus.Accepted,
     tr_started_at_ms = None, tr_completed_at_ms = None, tr_cancel_reason = None,
     tr_summary = None, tr_accepted_emitted = False \<rparr>"

definition active_run :: "TeamRunManager \<Rightarrow> TeamRunRecord option" where
  "active_run mgr =
     (case mg_run mgr of None \<Rightarrow> None | Some run \<Rightarrow> if run_is_active run then Some run else None)"

definition bind_user_enqueue ::
  "string \<Rightarrow> string \<Rightarrow> TeamRunTargetRole \<Rightarrow> TeamRunManager \<Rightarrow> RunBinding \<times> TeamRunManager" where
  "bind_user_enqueue run_id slot_id role mgr =
     (case active_run mgr of
        Some run \<Rightarrow>
          (\<lparr> rb_team_run_id = Some (tr_team_run_id run), rb_created_new_run = False,
             rb_user_intervention = True \<rparr>,
           mgr\<lparr>mg_run := Some (run\<lparr>tr_has_user_intervention := True\<rparr>)\<rparr>)
      | None \<Rightarrow>
          (\<lparr> rb_team_run_id = Some run_id, rb_created_new_run = True, rb_user_intervention = False \<rparr>,
           mgr\<lparr>mg_run := Some (new_run run_id TeamRunSource.UserMessage slot_id role)\<rparr>))"

definition bind_system_enqueue ::
  "string \<Rightarrow> string \<Rightarrow> TeamRunTargetRole \<Rightarrow> TeamRunManager \<Rightarrow> RunBinding \<times> TeamRunManager" where
  "bind_system_enqueue run_id slot_id role mgr =
     (case active_run mgr of
        Some run \<Rightarrow>
          (\<lparr> rb_team_run_id = Some (tr_team_run_id run), rb_created_new_run = False,
             rb_user_intervention = False \<rparr>, mgr)
      | None \<Rightarrow>
          (\<lparr> rb_team_run_id = Some run_id, rb_created_new_run = True, rb_user_intervention = False \<rparr>,
           mgr\<lparr>mg_run := Some (new_run run_id SystemLifecycle slot_id role)\<rparr>))"

definition current_active_run_id :: "TeamRunManager \<Rightarrow> string option" where
  "current_active_run_id mgr = map_option tr_team_run_id (active_run mgr)"

definition no_work :: "RunWorkSummary \<Rightarrow> bool" where
  "no_work su \<longleftrightarrow> su_queued_intent_count su = 0 \<and> su_starting_batch_count su = 0
     \<and> su_running_batch_count su = 0 \<and> su_active_enqueue_lease_count su = 0
     \<and> su_paused_intent_count su = 0"

definition summary_run :: "TimestampMs \<Rightarrow> RunWorkSummary \<Rightarrow> TeamRunRecord \<Rightarrow> TeamRunRecord" where
  "summary_run now su run0 =
     (let run = run0\<lparr>tr_summary := Some su\<rparr>
      in if su_failed_intent_count su > 0
         then run\<lparr>tr_status := TeamRunStatus.Failed, tr_completed_at_ms := Some now\<rparr>
         else if no_work su
         then run\<lparr>tr_status := (if tr_status run0 = Cancelling then TeamRunStatus.Cancelled
                                else TeamRunStatus.Completed),
                  tr_completed_at_ms := Some now\<rparr>
         else if su_running_batch_count su > 0
         then run\<lparr>tr_status := TeamRunStatus.Running,
                  tr_started_at_ms := Some (or_default now (tr_started_at_ms run))\<rparr>
         else run)"

definition transition_event :: "TeamRunStatus \<Rightarrow> TeamRunStatus \<Rightarrow> TeamRunEventName" where
  "transition_event previous status =
     (if status = TeamRunStatus.Failed \<and> previous \<noteq> TeamRunStatus.Failed then TEAM_RUN_FAILED_EVENT
      else if status = TeamRunStatus.Cancelled \<and> previous \<noteq> TeamRunStatus.Cancelled then TEAM_RUN_CANCELLED_EVENT
      else if status = TeamRunStatus.Completed \<and> previous \<noteq> TeamRunStatus.Completed then TEAM_RUN_COMPLETED_EVENT
      else if status = TeamRunStatus.Running \<and> previous \<noteq> TeamRunStatus.Running then TEAM_RUN_STARTED_EVENT
      else TEAM_RUN_UPDATED_EVENT)"

definition apply_work_summary :: "TimestampMs \<Rightarrow> RunWorkSummary \<Rightarrow> TeamRunManager \<Rightarrow> TeamRunManager" where
  "apply_work_summary now su mgr =
     (case mg_run mgr of
        None \<Rightarrow> mgr
      | Some run0 \<Rightarrow>
          if tr_team_run_id run0 \<noteq> su_team_run_id su then mgr
          else
            let run1 = summary_run now su run0;
                event = (if \<not> tr_accepted_emitted run1 then TEAM_RUN_ACCEPTED_EVENT
                         else transition_event (tr_status run0) (tr_status run1));
                run = run1\<lparr>tr_accepted_emitted := True\<rparr>
            in broadcast_team_run event (payload_locked (mg_team_id mgr) now run su) (mgr\<lparr>mg_run := Some run\<rparr>))"

definition begin_cancel ::
  "TimestampMs \<Rightarrow> string \<Rightarrow> string option \<Rightarrow> TeamRunManager \<Rightarrow> (TeamError + unit) \<times> TeamRunManager" where
  "begin_cancel now team_run_id reason mgr =
     (case mg_run mgr of
        None \<Rightarrow> (Inl (InvalidRequest (RunNotActive team_run_id)), mgr)
      | Some run0 \<Rightarrow>
          if \<not> (tr_team_run_id run0 = team_run_id \<and> run_is_active run0)
          then (Inl (InvalidRequest (RunNotActive team_run_id)), mgr)
          else
            let run = run0\<lparr>tr_status := Cancelling, tr_cancel_reason := reason\<rparr>;
                mgr1 = mgr\<lparr>mg_run := Some run\<rparr>
            in (Inr (),
                case tr_summary run of
                  None \<Rightarrow> mgr1
                | Some su \<Rightarrow> broadcast_team_run TEAM_RUN_UPDATED_EVENT
                    (payload_locked (mg_team_id mgr) now run su) mgr1))"

definition empty_summary :: "string \<Rightarrow> RunWorkSummary" where
  "empty_summary run_id = \<lparr> su_team_run_id = run_id, su_queued_intent_count = 0,
     su_starting_batch_count = 0, su_running_batch_count = 0, su_active_enqueue_lease_count = 0,
     su_paused_intent_count = 0, su_failed_intent_count = 0, su_slots = [] \<rparr>"

definition current_payload ::
  "TimestampMs \<Rightarrow> CoordinatorSnapshot \<Rightarrow> TeamRunManager \<Rightarrow> TeamRunPayload option" where
  "current_payload now co mgr =
     (case mg_run mgr of
        None \<Rightarrow> None
      | Some run \<Rightarrow>
          let su = (case tr_summary run of
                      Some su \<Rightarrow> su
                    | None \<Rightarrow> (case co_active_run_summary co of
                        Some su \<Rightarrow> if su_team_run_id su = tr_team_run_id run then su
                                   else empty_summary (tr_team_run_id run)
                      | None \<Rightarrow> empty_summary (tr_team_run_id run)))
          in Some (payload_locked (mg_team_id mgr) now run su))"

definition publish_snapshot_update ::
  "TimestampMs \<Rightarrow> CoordinatorSnapshot \<Rightarrow> TeamRunManager \<Rightarrow> TeamRunManager" where
  "publish_snapshot_update now co mgr =
     (case current_payload now co mgr of
        None \<Rightarrow> mgr
      | Some payload \<Rightarrow>
          if rp_status payload = TeamRunStatus.Accepted \<or> rp_status payload = TeamRunStatus.Running
          then broadcast_team_run TEAM_RUN_UPDATED_EVENT payload mgr else mgr)"

section \<open>The port\<close>

definition bind_enqueue :: "string \<Rightarrow> EnqueueRequest \<Rightarrow> TeamRunManager \<Rightarrow> RunBinding \<times> TeamRunManager" where
  "bind_enqueue run_id request mgr =
     (case rq_binding request of
        UserVisible \<Rightarrow> bind_user_enqueue run_id (rq_slot_id request) (rq_role request) mgr
      | ActiveRunOrBackground \<Rightarrow> (no_binding (current_active_run_id mgr), mgr)
      | InheritRunningBatch _ \<Rightarrow> (no_binding None, mgr)
      | CausalBinding.Background \<Rightarrow> (no_binding None, mgr)
      | SystemInitiated _ \<Rightarrow> bind_system_enqueue run_id (rq_slot_id request) (rq_role request) mgr)"

definition abort_binding :: "RunBinding \<Rightarrow> TeamRunManager \<Rightarrow> TeamRunManager" where
  "abort_binding binding mgr =
     (case mg_run mgr of
        None \<Rightarrow> mgr
      | Some run \<Rightarrow> if Some (tr_team_run_id run) = rb_team_run_id binding then mgr\<lparr>mg_run := None\<rparr> else mgr)"

definition publish_slot_work :: "TimestampMs \<Rightarrow> SlotWorkSnapshot \<Rightarrow> TeamRunManager \<Rightarrow> TeamRunManager" where
  "publish_slot_work now sn mgr = broadcast_slot_work
     \<lparr> sw_team_id = mg_team_id mgr, sw_slot_work = slot_payload now sn \<rparr> mgr"

text \<open>The manager as the coordinator's port, at a moment: with the id a new run would get and the time.\<close>

definition manager_port :: "string \<Rightarrow> TimestampMs \<Rightarrow> TeamRunManager RunCausalityPort" where
  "manager_port run_id now = \<lparr>
     port_bind_enqueue = bind_enqueue run_id,
     port_bind_system_enqueue = (\<lambda>request. bind_system_enqueue run_id (rq_slot_id request) (rq_role request)),
     port_abort_binding = abort_binding,
     port_apply_work_summary = apply_work_summary now,
     port_publish_slot_work = publish_slot_work now \<rparr>"

section \<open>Laws of the manager\<close>

lemma active_run_simps [simp]:
  "mg_run mgr = None \<Longrightarrow> active_run mgr = None"
  "mg_run mgr = Some run \<Longrightarrow> active_run mgr = (if run_is_active run then Some run else None)"
  by (simp_all add: active_run_def)

lemma run_is_active_new [simp]: "run_is_active (new_run r src sid role)"
  by (simp add: run_is_active_def new_run_def)

lemma run_is_active_intervention [simp]:
  "run_is_active (run\<lparr>tr_has_user_intervention := b\<rparr>) = run_is_active run"
  by (simp add: run_is_active_def)

lemma active_run_SomeD: "active_run mgr = Some run \<Longrightarrow> mg_run mgr = Some run \<and> run_is_active run"
  by (auto simp: active_run_def split: option.splits if_splits)

interpretation manager: run_causality_port "manager_port run_id now" current_active_run_id run_id
  for run_id now
proof
  fix rq p b p'
  show "port_bind_system_enqueue (manager_port run_id now) rq p = (b, p') \<Longrightarrow>
      rb_team_run_id b = Some (or_default run_id (current_active_run_id p))
      \<and> rb_created_new_run b = (current_active_run_id p = None)
      \<and> \<not> rb_user_intervention b \<and> current_active_run_id p' = rb_team_run_id b"
    by (cases "active_run p") (auto simp: manager_port_def bind_system_enqueue_def current_active_run_id_def,
        auto simp: new_run_def)
  show "rq_binding rq = UserVisible \<Longrightarrow> port_bind_enqueue (manager_port run_id now) rq p = (b, p') \<Longrightarrow>
      rb_team_run_id b = Some (or_default run_id (current_active_run_id p))
      \<and> rb_created_new_run b = (current_active_run_id p = None)
      \<and> rb_user_intervention b = (current_active_run_id p \<noteq> None) \<and> current_active_run_id p' = rb_team_run_id b"
    by (cases "active_run p")
      (auto simp: manager_port_def bind_enqueue_def bind_user_enqueue_def current_active_run_id_def
        dest: active_run_SomeD, auto simp: new_run_def)
  show "rq_binding rq = ActiveRunOrBackground \<Longrightarrow> port_bind_enqueue (manager_port run_id now) rq p = (b, p') \<Longrightarrow>
      rb_team_run_id b = current_active_run_id p \<and> \<not> rb_created_new_run b \<and> p' = p"
    by (auto simp: manager_port_def bind_enqueue_def)
qed

theorem system_work_always_has_a_run:
  assumes "acquire_enqueue gen (manager_port run_id now) lid rq s mgr = (Inr lease, s', mgr')"
    and "rq_binding rq = SystemInitiated from"
  shows "el_team_run_id lease \<noteq> None"
  using assms by (rule manager.system_lease_has_run)

definition demo_system_request :: EnqueueRequest where
  "demo_system_request = \<lparr>rq_slot_id = ''m'', rq_role = Teammate, rq_source = IdleNotification,
     rq_binding = SystemInitiated (Some ''lead'')\<rparr>"

theorem system_work_always_has_a_run_witness:
  "\<exists>lease s' mgr'. acquire_enqueue ''g'' (manager_port ''r'' 0) ''l'' demo_system_request new_coordinator_state (new_manager ''t'')
      = (Inr lease, s', mgr') \<and> el_team_run_id lease \<noteq> None"
proof -
  have "case acquire_enqueue ''g'' (manager_port ''r'' 0) ''l'' demo_system_request new_coordinator_state (new_manager ''t'')
      of (Inr _, _) \<Rightarrow> True | _ \<Rightarrow> False" by code_simp
  then obtain lease s' mgr' where r: "acquire_enqueue ''g'' (manager_port ''r'' 0) ''l'' demo_system_request
      new_coordinator_state (new_manager ''t'') = (Inr lease, s', mgr')" by (auto split: prod.splits sum.splits)
  with system_work_always_has_a_run [OF r] show ?thesis by (auto simp: demo_system_request_def)
qed

theorem elapsed_time_is_clamped:
  "uint (active_turn_elapsed_ms now started) = max 0 (min (2 ^ 63 - 1) (now - started))
   \<and> (active_turn_elapsed_ms now started \<ge> ACTIVE_TURN_SLOW_THRESHOLD_MS \<longleftrightarrow> now - started \<ge> 600000)"
proof -
  let ?e = "max (i64_saturating_sub now started) 0"
  have e: "?e = max 0 (min (2 ^ 63 - 1) (now - started))" by (simp add: i64_saturating_sub_def)
  have "uint (active_turn_elapsed_ms now started) = ?e mod 2 ^ 64"
    by (simp add: active_turn_elapsed_ms_def unsigned_of_int take_bit_eq_mod)
  also have "\<dots> = ?e" unfolding e by (intro mod_pos_pos_trivial) auto
  finally have u: "uint (active_turn_elapsed_ms now started) = ?e" .
  have "uint ACTIVE_TURN_SLOW_THRESHOLD_MS = 600000" by (simp add: ACTIVE_TURN_SLOW_THRESHOLD_MS_def)
  then show ?thesis using u e by (auto simp: word_le_def)
qed

section \<open>The events of a run\<close>

definition announced :: "string \<Rightarrow> TeamEvent list \<Rightarrow> bool" where
  "announced run es \<longleftrightarrow>
     (\<exists>payload \<in> set [payload. TeamRun TEAM_RUN_ACCEPTED_EVENT payload \<leftarrow> es]. rp_team_run_id payload = run)"

text \<open>
  An event may follow a log: a run is announced once, and its start and its end are reported
  only after it was announced.
\<close>

fun may_follow :: "TeamEvent list \<Rightarrow> TeamEvent \<Rightarrow> bool" where
  "may_follow es (TeamRun TEAM_RUN_ACCEPTED_EVENT payload) = (\<not> announced (rp_team_run_id payload) es)"
| "may_follow es (TeamRun TEAM_RUN_UPDATED_EVENT payload) = True"
| "may_follow es (TeamRun _ payload) = announced (rp_team_run_id payload) es"
| "may_follow es (SlotWorkChanged payload) = True"

definition log_ok :: "TeamEvent list \<Rightarrow> bool" where
  "log_ok es \<longleftrightarrow> (\<forall>xs e ys. es = xs @ e # ys \<longrightarrow> may_follow xs e)"

lemma log_ok_Nil [simp]: "log_ok []"
  by (simp add: log_ok_def)

lemma log_ok_snoc [simp]: "log_ok (es @ [e]) \<longleftrightarrow> log_ok es \<and> may_follow es e"
  unfolding log_ok_def
proof (intro iffI conjI allI impI)
  assume L: "\<forall>xs e' ys. es @ [e] = xs @ e' # ys \<longrightarrow> may_follow xs e'"
  then show "may_follow es e" by blast
  fix xs e' ys assume "es = xs @ e' # ys"
  with L [rule_format, of xs e' "ys @ [e]"] show "may_follow xs e'" by simp
next
  fix xs e' ys
  assume R: "(\<forall>xs e ys. es = xs @ e # ys \<longrightarrow> may_follow xs e) \<and> may_follow es e" and "es @ [e] = xs @ e' # ys"
  then show "may_follow xs e'" by (cases ys rule: rev_cases) auto
qed

lemma announced_snoc [simp]:
  "announced r (es @ [TeamRun n payload]) \<longleftrightarrow>
     announced r es \<or> n = TEAM_RUN_ACCEPTED_EVENT \<and> rp_team_run_id payload = r"
  "announced r (es @ [SlotWorkChanged w]) = announced r es"
  by (cases n; auto simp: announced_def)+

lemma announced_Nil [simp]: "\<not> announced r []"
  by (simp add: announced_def)

inductive manager_step :: "TeamRunManager \<Rightarrow> TeamRunManager \<Rightarrow> bool" where
  user: "\<not> announced run_id (mg_events m) \<Longrightarrow> manager_step m (snd (bind_user_enqueue run_id sid role m))"
| system: "\<not> announced run_id (mg_events m) \<Longrightarrow> manager_step m (snd (bind_system_enqueue run_id sid role m))"
| summary: "manager_step m (apply_work_summary now su m)"
| begin_cancel: "manager_step m (snd (begin_cancel now run_id reason m))"
| snapshot: "manager_step m (publish_snapshot_update now co m)"
| abort: "manager_step m (abort_binding b m)"
| slot_work: "manager_step m (publish_slot_work now sn m)"

inductive_cases manager_stepE: "manager_step m m'"

definition manager_inv :: "string \<Rightarrow> TeamRunManager \<Rightarrow> bool" where
  "manager_inv team m \<longleftrightarrow> mg_team_id m = team \<and> log_ok (mg_events m)
     \<and> (\<forall>run. mg_run m = Some run \<longrightarrow> announced (tr_team_run_id run) (mg_events m) = tr_accepted_emitted run)"

lemma summary_run_id [simp]:
  "tr_team_run_id (summary_run now su run) = tr_team_run_id run"
  "tr_accepted_emitted (summary_run now su run) = tr_accepted_emitted run"
  by (simp_all add: summary_run_def Let_def)

lemma payload_run_id [simp]: "rp_team_run_id (payload_locked team now run su) = tr_team_run_id run"
  by (simp add: payload_locked_def)

lemma may_follow_transition:
  "rp_team_run_id payload = r \<Longrightarrow> announced r es \<Longrightarrow> may_follow es (TeamRun (transition_event a b) payload)"
  by (auto simp: transition_event_def)

lemma apply_work_summary_inv:
  assumes inv: "manager_inv team m"
  shows "manager_inv team (apply_work_summary now su m)"
proof (cases "mg_run m")
  case None
  with inv show ?thesis by (simp add: apply_work_summary_def)
next
  case (Some run)
  show ?thesis
  proof (cases "tr_team_run_id run = su_team_run_id su")
    case False
    with Some inv show ?thesis by (simp add: apply_work_summary_def)
  next
    case True
    have "announced (tr_team_run_id run) (mg_events m) = tr_accepted_emitted run"
      using inv Some by (simp add: manager_inv_def)
    with inv Some True show ?thesis
      by (cases "tr_accepted_emitted run")
        (auto simp: manager_inv_def apply_work_summary_def broadcast_team_run_def Let_def
          intro!: may_follow_transition)
  qed
qed

lemma manager_step_inv:
  assumes inv: "manager_inv team m" and "manager_step m m'"
  shows "manager_inv team m'"
  using assms(2)
proof (cases rule: manager_step.cases)
  case (user run_id sid role)
  with inv show ?thesis
    by (cases "active_run m") (auto simp: bind_user_enqueue_def manager_inv_def new_run_def dest: active_run_SomeD)
next
  case (system run_id sid role)
  with inv show ?thesis
    by (cases "active_run m") (auto simp: bind_system_enqueue_def manager_inv_def new_run_def)
next
  case (summary now su)
  with apply_work_summary_inv [OF inv] show ?thesis by simp
next
  case (begin_cancel now run_id reason)
  with inv show ?thesis
    by (auto simp: begin_cancel_def manager_inv_def Let_def broadcast_team_run_def split: option.splits)
next
  case (snapshot now co)
  with inv show ?thesis
    by (auto simp: publish_snapshot_update_def manager_inv_def broadcast_team_run_def split: option.splits)
next
  case (abort b)
  with inv show ?thesis by (auto simp: abort_binding_def manager_inv_def split: option.splits)
next
  case (slot_work now sn)
  with inv show ?thesis by (auto simp: publish_slot_work_def broadcast_slot_work_def manager_inv_def)
qed

lemma manager_inv_new: "manager_inv team (new_manager team)"
  by (simp add: new_manager_def manager_inv_def)

interpretation run_log: machine "\<lambda>m. m = new_manager team" manager_step "manager_inv team" for team
  by unfold_locales (auto intro: manager_inv_new manager_step_inv)

theorem run_events_follow_the_announcement:
  assumes "reach (\<lambda>m. m = new_manager team) manager_step m" and "mg_events m = earlier @ e # later"
  shows "may_follow earlier e"
  using run_log.reach_inv [OF assms(1)] assms(2) by (simp add: manager_inv_def log_ok_def)

theorem run_events_follow_the_announcement_witness:
  "\<exists>e. mg_events (apply_work_summary 7 (empty_summary ''r'') (snd (bind_user_enqueue ''r'' ''s'' Lead (new_manager ''t'')))) = [e]
     \<and> may_follow [] e"
proof -
  let ?m0 = "new_manager ''t''"
  let ?m1 = "snd (bind_user_enqueue ''r'' ''s'' Lead ?m0)"
  let ?m2 = "apply_work_summary 7 (empty_summary ''r'') ?m1"
  have "reach (\<lambda>m. m = ?m0) manager_step ?m0" by (rule reach_init) simp
  moreover have "manager_step ?m0 ?m1" by (rule manager_step.user) (simp add: new_manager_def)
  ultimately have "reach (\<lambda>m. m = ?m0) manager_step ?m1" by (rule reach_step)
  then have r: "reach (\<lambda>m. m = ?m0) manager_step ?m2" using manager_step.summary by (rule reach_step)
  have "length (mg_events ?m2) = 1" by code_simp
  then obtain e where "mg_events ?m2 = [] @ e # []" by (auto simp: length_Suc_conv)
  with run_events_follow_the_announcement [OF r this] show ?thesis by simp
qed

end
