(* ===== verification/Team_System.thy ===== *)
theory Team_System
  imports Team_Coordinator_Steps Team_Run_Manager
begin

text \<open>
  The coordinator at work: a step relation over the coordinator, the batches it has handed out,
  the port calls in flight and the port's state, for any port. Its invariant follows from the
  operations' lemmas; the theory \<open>Team_Work_Props\<close> states what it means for the work of a team.
\<close>

section \<open>Active batches and operation ids\<close>

definition actives :: "CoordinatorState \<Rightarrow> WorkBatch set" where
  "actives s = {b. \<exists>sid sl a. map_of (cs_slots s) sid = Some sl \<and> ss_active sl = Some a \<and> ab_batch a = b}"

text \<open>An operation that claims no batch: no new owner, and the operation counter stands still.\<close>

definition no_claim :: "CoordinatorState \<Rightarrow> CoordinatorState \<Rightarrow> bool" where
  "no_claim s s' \<longleftrightarrow> actives s' \<subseteq> actives s \<and> cs_next_operation_id s' = cs_next_operation_id s"

lemma no_claim_refl [simp]: "no_claim s s"
  by (simp add: no_claim_def)

lemma no_claim_trans: "no_claim s t \<Longrightarrow> no_claim t u \<Longrightarrow> no_claim s u"
  by (auto simp: no_claim_def)

definition keeps_batch :: "(SlotState \<Rightarrow> SlotState) \<Rightarrow> bool" where
  "keeps_batch f \<longleftrightarrow> (\<forall>sl a. ss_active (f sl) = Some a \<longrightarrow>
     (\<exists>a'. ss_active sl = Some a' \<and> ab_batch a' = ab_batch a))"

lemma no_claim_upd:
  assumes "cs_slots s' = AList.map_entry sid f (cs_slots s)" "keeps_batch f"
    "cs_next_operation_id s' = cs_next_operation_id s"
  shows "no_claim s s'"
proof -
  have "actives s' \<subseteq> actives s"
  proof
    fix b assume "b \<in> actives s'"
    then obtain k sl a where *: "map_of (cs_slots s') k = Some sl" "ss_active sl = Some a" "ab_batch a = b"
      by (auto simp: actives_def)
    show "b \<in> actives s"
    proof (cases "k = sid")
      case False
      with * assms(1) show ?thesis by (auto simp: actives_def map_of_map_entry)
    next
      case True
      with * assms(1) obtain sl0 where "map_of (cs_slots s) sid = Some sl0" "sl = f sl0"
        by (auto simp: map_of_map_entry split: option.splits)
      with * assms(2) show ?thesis unfolding keeps_batch_def actives_def by blast
    qed
  qed
  with assms(3) show ?thesis by (simp add: no_claim_def)
qed

lemma no_claim_put:
  assumes "cs_slots s' = AList.update sid sl (cs_slots s)"
    "ss_active sl = ss_active (slot_entry Teammate sid s)"
    "cs_next_operation_id s' = cs_next_operation_id s"
  shows "no_claim s s'"
  using assms
  by (cases "map_of (cs_slots s) sid")
    (auto simp: no_claim_def actives_def update_conv' slot_entry_def new_slot_state_def split: if_splits)

lemma no_claim_same:
  "cs_slots s' = cs_slots s \<Longrightarrow> cs_next_operation_id s' = cs_next_operation_id s \<Longrightarrow> no_claim s s'"
  by (simp add: no_claim_def actives_def)

lemma acquire_no_claim:
  assumes "acquire_enqueue gen port lid rq s p = (r, s', p')"
  shows "no_claim s s'"
  using assms
  by (auto simp: acquire_enqueue_def Let_def split: sum.splits prod.splits
      intro!: no_claim_put [where sid = "rq_slot_id rq"
        and sl = "(slot_entry (rq_role rq) (rq_slot_id rq) s)\<lparr>ss_role := rq_role rq\<rparr>"])

lemma commit_no_claim:
  assumes "commit_enqueue gen k now lease m s = Some (r, s', calls)"
  shows "no_claim s s'"
proof -
  have "s' = s \<or> s' = committed_state lease m (commit_intent gen k now lease m) s"
    using commit_enqueue_cases [of gen k now lease m s] assms by (auto simp: Let_def)
  moreover have "no_claim s (committed_state lease m i s)" for i
    by (rule no_claim_upd [where sid = "el_slot_id lease" and f = "commit_slot lease m i"])
      (simp_all add: committed_state_def keeps_batch_def)
  ultimately show ?thesis by auto
qed

lemma abort_no_claim: "abort_enqueue gen lease s = (r, s', calls) \<Longrightarrow> no_claim s s'"
  by (auto simp: abort_enqueue_def Let_def split: option.splits if_splits intro!: no_claim_same)

lemma recover_no_claim:
  "recover_messages gen sid role xs (s, c) = Some (s', c') \<Longrightarrow> no_claim s s'"
proof (induction gen sid role xs "(s, c)" arbitrary: s c rule: recover_messages.induct)
  case (1 gen slot_id role)
  then show ?case by simp
next
  case (2 gen sid role msg k now xs s c)
  let ?s = "upd_slot sid (\<lambda>sl. sl\<lparr>ss_background := ss_background sl @ [k]\<rparr>)
       (s\<lparr>cs_intents := AList.update k (recovery_intent gen k now sid role msg) (cs_intents s)\<rparr>)"
  have "no_claim s ?s"
    by (rule no_claim_upd [where sid = sid and f = "\<lambda>sl. sl\<lparr>ss_background := ss_background sl @ [k]\<rparr>"])
      (auto simp: keeps_batch_def)
  with 2 show ?case by (auto split: if_splits option.splits intro: no_claim_trans)
qed

lemma reconcile_no_claim:
  assumes "reconcile_mailbox gen ids nows sid unread role s = Some (r, s')"
  shows "no_claim s s'"
proof -
  let ?sl = "(slot_entry role sid s)\<lparr>ss_role := role, ss_known_unread_message_ids := set unread\<rparr>"
  have "no_claim s (put_slot sid ?sl s)" by (rule no_claim_put [where sid = sid and sl = ?sl]) simp_all
  moreover have "no_claim (put_slot sid ?sl s) (cleared_state sid unread role s)"
    by (rule no_claim_upd [where sid = sid and f = "fold remove_queued (stale_ids unread ?sl s)"])
      (auto simp: cleared_state_def Let_def keeps_batch_def)
  moreover have "no_claim (cleared_state sid unread role s) s'"
    using assms by (auto simp: reconcile_mailbox_eq Let_def split: option.splits intro: recover_no_claim)
  ultimately show ?thesis by (blast intro: no_claim_trans)
qed

lemma next_claims:
  assumes "next_work gen bid sid s = Some (r, s', calls)"
  obtains (none) "s' = s" "\<And>b. r \<noteq> Claim b"
  | (claim) b where "r = Claim b" "s' = claimed_state b s" "wb_batch_id b = bid" "wb_slot_id b = sid"
      "wb_operation_id b = sat_inc (cs_next_operation_id s)" "actives s' \<subseteq> insert b (actives s)"
      "wb_session_generation b = gen"
proof (cases rule: next_work_cases [of s sid gen bid])
  case (claim sl p b)
  have "actives (claimed_state b s) \<subseteq> insert b (actives s)"
    by (auto simp: actives_def claimed_state_def map_of_map_entry split: if_splits option.splits)
  with claim assms that(2) show thesis by (simp add: the_claim_def)
qed (use assms that(1) in auto)

lemma mark_started_no_claim:
  assumes "mark_started gen now b turn s = (r, s', calls)"
  shows "no_claim s s'"
  using assms
  by (auto simp: mark_started_def Let_def keeps_batch_def split: if_splits
      intro!: no_claim_upd [where sid = "wb_slot_id b" and f = "\<lambda>sl. sl\<lparr>ss_active := map_option
         (\<lambda>a. a\<lparr>ab_turn_id := Some turn, ab_started_at_ms := Some now\<rparr>) (ss_active sl)\<rparr>"])

lemma retry_no_claim:
  assumes "retry_start gen b s = Some (r, s', calls)"
  shows "no_claim s s'"
  using assms
  by (auto simp: retry_start_def Let_def keeps_batch_def split: if_splits bind_splits
      intro!: no_claim_upd [where sid = "wb_slot_id b" and f = "\<lambda>sl.
        fold (\<lambda>k. queue_mut (wb_highest_priority b) (\<lambda>q. k # q)) (rev (wb_intent_ids b)) (sl\<lparr>ss_active := None\<rparr>)"])

lemma terminalize_no_claim:
  assumes "terminalize_batch gen b st s = Some (r, s', calls)"
  shows "no_claim s s'"
  using assms
  by (auto simp: terminalize_batch_def Let_def keeps_batch_def split: if_splits bind_splits
      intro!: no_claim_upd [where sid = "wb_slot_id b" and f = "\<lambda>sl. sl\<lparr>ss_active := None\<rparr>"])

lemma fold_expect_no_claim:
  assumes "\<And>x acc acc'. f x acc = Some acc' \<Longrightarrow> no_claim (fst acc) (fst acc')"
  shows "fold_expect f xs acc = Some acc' \<Longrightarrow> no_claim (fst acc) (fst acc')"
proof (induction xs arbitrary: acc)
  case (Cons x xs)
  then obtain acc1 where "f x acc = Some acc1" "fold_expect f xs acc1 = Some acc'"
    by (auto split: option.splits)
  with Cons.IH assms show ?case by (blast intro: no_claim_trans)
qed simp

lemma cancel_active_no_claim:
  "cancel_active run x acc = Some acc' \<Longrightarrow> no_claim (fst acc) (fst acc')"
proof -
  assume res: "cancel_active run x acc = Some acc'"
  obtain sid a s ts ms where x: "x = (sid, a)" "acc = (s, ts, ms)" by (metis prod_cases3 surj_pair)
  with res obtain m ms' rt where "fst acc' = upd_slot sid
      (\<lambda>sl. push_front_all rt (sl\<lparr>ss_active := None\<rparr>)) (s\<lparr>cs_intents := m\<rparr>)"
    by (auto simp: cancel_active_def split: bind_splits)
  with x show ?thesis
    by (auto simp: keeps_batch_def
        intro!: no_claim_upd [where sid = sid and f = "\<lambda>sl. push_front_all rt (sl\<lparr>ss_active := None\<rparr>)"])
qed

lemma cancel_queued_no_claim:
  "cancel_queued k acc = Some acc' \<Longrightarrow> no_claim (fst acc) (fst acc')"
  by (auto simp: cancel_queued_def keeps_batch_def split: bind_splits prod.splits
      intro!: no_claim_upd [where f = "remove_queued k"])

lemma cancel_run_no_claim:
  assumes "cancel_run run s = Some (r, s', calls)"
  shows "no_claim s s'"
proof -
  from assms obtain s1 ts ms s2 ms' where
    1: "fold_expect (cancel_active run) (run_active_slots run s) (s, [], []) = Some (s1, ts, ms)"
    and 2: "fold_expect cancel_queued (run_queued_ids run s1) (s1, ms) = Some (s2, ms')"
    and s': "cs_slots s' = cs_slots s2" "cs_next_operation_id s' = cs_next_operation_id s2"
    by (auto simp: cancel_run_def Let_def split: bind_splits)
  have "no_claim s s1"
    using fold_expect_no_claim [where f = "cancel_active run", OF cancel_active_no_claim, OF _ 1] by simp
  moreover have "no_claim s1 s2"
    using fold_expect_no_claim [where f = cancel_queued, OF cancel_queued_no_claim, OF _ 2] by simp
  ultimately show ?thesis using no_claim_same [OF s'] by (blast intro: no_claim_trans)
qed

lemma signals_no_claim:
  assumes "complete_signals sid ks s = (r, s', calls)"
  shows "no_claim s s'"
  using assms
  by (auto simp: complete_signals_def fold_settle_signal Let_def keeps_batch_def split: if_splits
      intro!: no_claim_upd [where sid = sid and f = "fold remove_queued ks"])

lemma pause_no_claim: "pause_slot sid s = Some (r, s') \<Longrightarrow> no_claim s s'"
  by (auto simp: pause_slot_def Let_def split: bind_splits
      intro!: no_claim_put [where sid = sid and sl = "(slot_entry Teammate sid s)\<lparr>ss_paused := True\<rparr>"])

lemma end_constrained_no_claim:
  "end_constrained_work sid c cl s = Some (s', ms, rs) \<Longrightarrow> no_claim s s'"
  by (auto simp: end_constrained_work_def keeps_batch_def split: bind_splits
      intro!: no_claim_upd [where sid = sid])

lemma runtime_no_claim:
  assumes "set_runtime_constraint sid c s = Some (r, s', calls)"
  shows "no_claim s s'"
proof -
  let ?sl = "(slot_entry Teammate sid s)\<lparr>ss_runtime_constraint := c\<rparr>"
  let ?s = "put_slot sid ?sl s"
  have "no_claim s ?s" by (rule no_claim_put [where sid = sid and sl = ?sl]) simp_all
  moreover have "no_claim ?s s'"
    using assms by (cases c)
      (auto simp: set_runtime_constraint_def Let_def split: bind_splits dest: end_constrained_no_claim)
  ultimately show ?thesis by (rule no_claim_trans)
qed

lemma remove_no_claim: "remove_slot sid s = Some (r, s', calls) \<Longrightarrow> no_claim s s'"
  by (auto simp: remove_slot_def Let_def keeps_batch_def split: bind_splits
      intro!: no_claim_upd [where sid = sid and f = "\<lambda>sl. (clear_work sl)\<lparr>ss_removed := True\<rparr>"])

lemma stop_no_claim: "stop s = (r, s', calls) \<Longrightarrow> no_claim s s'"
proof -
  let ?h = "\<lambda>sl. (clear_work sl)\<lparr>ss_runtime_constraint := RuntimeConstraint.SessionStopped\<rparr>"
  assume "stop s = (r, s', calls)"
  then have s': "cs_slots s' = map (\<lambda>(k, sl). (k, ?h sl)) (cs_slots s)"
      "cs_next_operation_id s' = cs_next_operation_id s"
    by (auto simp: stop_def Let_def)
  have "ss_active (?h sl) = None" for sl by simp
  with s' show ?thesis
    unfolding no_claim_def actives_def by (auto simp: map_of_map_values [of "\<lambda>_. ?h"])
qed

section \<open>The team system\<close>

text \<open>
  The coordinator and its port running concurrently: the coordinator's state, the batches handed
  out so far, for every call of an operation the port calls it has yet to make (they are made
  after the coordinator's lock is released, so those of different calls interleave), and the
  state of the port. \<open>ports\<close> are the port's methods at the moments they are called.
\<close>

record 'p TeamSystem =
  sy_coord :: CoordinatorState
  sy_issued :: "WorkBatch list"
  sy_pending :: "PortCall list list"
  sy_port :: 'p

abbreviation commit_to :: "CoordinatorState \<Rightarrow> PortCall list \<Rightarrow> 'p TeamSystem \<Rightarrow> 'p TeamSystem" where
  "commit_to s calls y \<equiv> y\<lparr>sy_coord := s, sy_pending := sy_pending y @ [calls]\<rparr>"

inductive team_step :: "string \<Rightarrow> 'p RunCausalityPort set \<Rightarrow> 'p TeamSystem \<Rightarrow> 'p TeamSystem \<Rightarrow> bool"
  for gen ports where
  acquire: "port \<in> ports \<Longrightarrow> map_of (cs_enqueue_leases (sy_coord y)) lease_id = None \<Longrightarrow>
    acquire_enqueue gen port lease_id request (sy_coord y) (sy_port y) = (r, s', p') \<Longrightarrow>
    team_step gen ports y (y\<lparr>sy_coord := s', sy_port := p'\<rparr>)"
| commit: "map_of (cs_intents (sy_coord y)) intent_id = None \<Longrightarrow>
    commit_enqueue gen intent_id now lease message_id (sy_coord y) = Some (r, s', calls) \<Longrightarrow>
    team_step gen ports y (commit_to s' calls y)"
| abort: "abort_enqueue gen lease (sy_coord y) = (res, s', calls) \<Longrightarrow>
    team_step gen ports y (commit_to s' calls y)"
| reconcile: "(\<forall>n < length unread. map_of (cs_intents (sy_coord y)) (ids n) = None) \<Longrightarrow>
    inj_on ids {..< length unread} \<Longrightarrow>
    reconcile_mailbox gen ids nows slot_id unread role (sy_coord y) = Some (proj, s') \<Longrightarrow>
    team_step gen ports y (y\<lparr>sy_coord := s'\<rparr>)"
| next_claim: "batch_id \<notin> wb_batch_id ` set (sy_issued y) \<Longrightarrow>
    next_work gen batch_id slot_id (sy_coord y) = Some (Claim b, s', calls) \<Longrightarrow>
    team_step gen ports y (commit_to s' calls (y\<lparr>sy_issued := b # sy_issued y\<rparr>))"
| next_other: "next_work gen batch_id slot_id (sy_coord y) = Some (d, s', calls) \<Longrightarrow>
    (\<And>b. d \<noteq> Claim b) \<Longrightarrow> team_step gen ports y (commit_to s' calls y)"
| start: "b \<in> set (sy_issued y) \<Longrightarrow> mark_started gen now b turn_id (sy_coord y) = (st, s', calls) \<Longrightarrow>
    team_step gen ports y (commit_to s' calls y)"
| retry: "b \<in> set (sy_issued y) \<Longrightarrow> retry_start gen b (sy_coord y) = Some (res, s', calls) \<Longrightarrow>
    team_step gen ports y (commit_to s' calls y)"
| complete: "b \<in> set (sy_issued y) \<Longrightarrow> complete_batch gen b (sy_coord y) = Some (res, s', calls) \<Longrightarrow>
    team_step gen ports y (commit_to s' calls y)"
| fail: "b \<in> set (sy_issued y) \<Longrightarrow> fail_batch gen b cl (sy_coord y) = Some (res, s', calls) \<Longrightarrow>
    team_step gen ports y (commit_to s' calls y)"
| cancel: "b \<in> set (sy_issued y) \<Longrightarrow> cancel_batch gen b cl (sy_coord y) = Some (res, s', calls) \<Longrightarrow>
    team_step gen ports y (commit_to s' calls y)"
| cancel_run: "cancel_run run (sy_coord y) = Some (cr, s', calls) \<Longrightarrow>
    team_step gen ports y (commit_to s' calls y)"
| signals: "complete_signals slot_id intent_ids (sy_coord y) = (res, s', calls) \<Longrightarrow>
    team_step gen ports y (commit_to s' calls y)"
| pause: "pause_slot slot_id (sy_coord y) = Some (pw, s') \<Longrightarrow>
    team_step gen ports y (y\<lparr>sy_coord := s'\<rparr>)"
| runtime: "set_runtime_constraint slot_id c (sy_coord y) = Some (ru, s', calls) \<Longrightarrow>
    team_step gen ports y (commit_to s' calls y)"
| remove: "remove_slot slot_id (sy_coord y) = Some (rw, s', calls) \<Longrightarrow>
    team_step gen ports y (commit_to s' calls y)"
| stop: "stop (sy_coord y) = (sus, s', calls) \<Longrightarrow> team_step gen ports y (commit_to s' calls y)"
| deliver: "port \<in> ports \<Longrightarrow> n < length (sy_pending y) \<Longrightarrow> sy_pending y ! n = c # cs \<Longrightarrow>
    team_step gen ports y
      (y\<lparr>sy_pending := (sy_pending y)[n := cs], sy_port := port_call port c (sy_port y)\<rparr>)"

definition team_init :: "'p \<Rightarrow> 'p TeamSystem \<Rightarrow> bool" where
  "team_init p y \<longleftrightarrow> sy_coord y = new_coordinator_state \<and> sy_issued y = [] \<and> sy_pending y = [] \<and> sy_port y = p"

definition coord_inv :: "string \<Rightarrow> CoordinatorState \<Rightarrow> WorkBatch list \<Rightarrow> bool" where
  "coord_inv gen s issued \<longleftrightarrow>
     work_inv gen s \<and> distinct (map wb_batch_id issued) \<and> actives s \<subseteq> set issued
     \<and> (\<forall>b \<in> set issued. wb_operation_id b \<le> cs_next_operation_id s \<and> wb_session_generation b = gen)"

lemma coord_inv_owns:
  assumes "coord_inv gen s issued" "b \<in> set issued"
  shows "owns gen s b"
  unfolding owns_def
proof
  assume "is_current_batch gen s b"
  then obtain sl a where a: "map_of (cs_slots s) (wb_slot_id b) = Some sl" "ss_active sl = Some a"
      "wb_batch_id (ab_batch a) = wb_batch_id b"
    by (auto simp: is_current_batch_def split: option.splits bind_splits)
  then have "ab_batch a \<in> set issued" using assms(1) by (auto simp: coord_inv_def actives_def)
  with assms a(3) have "ab_batch a = b" by (auto simp: coord_inv_def distinct_map dest: inj_onD)
  with a show "\<exists>sl a. map_of (cs_slots s) (wb_slot_id b) = Some sl \<and> ss_active sl = Some a \<and> ab_batch a = b"
    by blast
qed

lemma coord_inv_no_claim:
  "coord_inv gen s issued \<Longrightarrow> work_inv gen s' \<Longrightarrow> no_claim s s' \<Longrightarrow> coord_inv gen s' issued"
  by (auto simp: coord_inv_def no_claim_def)

lemma sat_inc_mono: "w \<le> sat_inc w" for w :: "'a::len word"
  by (simp add: word_le_nat_alt unat_sat_inc) (metis One_nat_def Suc_pred le_simps(2) min.cobounded2 unsigned_less zero_less_power zero_less_numeral)

lemma ex_resultD:
  "\<exists>r s' c. x = Some (r, s', c) \<and> P s' \<Longrightarrow> x = Some (r0, s0, c0) \<Longrightarrow> P s0"
  "\<exists>r s'. y = Some (r, s') \<and> P s' \<Longrightarrow> y = Some (r1, s1) \<Longrightarrow> P s1"
  by auto

definition coord_step :: "string \<Rightarrow> CoordinatorState \<Rightarrow> CoordinatorState \<Rightarrow> bool" where
  "coord_step gen s s' \<longleftrightarrow> work_step gen s s' \<and> no_claim s s'"

lemma coord_stepD:
  assumes "coord_step gen s s'" "coord_inv gen s issued"
  shows "coord_inv gen s' issued"
  using assms coord_inv_no_claim by (auto simp: coord_step_def work_step_def)

lemma coord_inv_work: "coord_inv gen s issued \<Longrightarrow> work_inv gen s"
  by (simp add: coord_inv_def)

lemma terminalize_coord_step:
  assumes inv: "coord_inv gen s issued" and "b \<in> set issued" "intent_is_terminal st"
    and res: "terminalize_batch gen b st s = Some (r, s', calls)"
  shows "coord_step gen s s'"
  using ex_resultD(1) [OF terminalize_batch_inv [OF coord_inv_work [OF inv] coord_inv_owns [OF inv]] res]
    terminalize_no_claim [OF res] assms by (simp add: coord_step_def)

text \<open>What a step of the system does to the coordinator.\<close>

lemma team_step_coord:
  assumes "team_step gen ports y y'" and inv: "coord_inv gen (sy_coord y) (sy_issued y)"
  shows "coord_step gen (sy_coord y) (sy_coord y') \<and> sy_issued y' = sy_issued y
     \<or> (\<exists>b bid sid calls. next_work gen bid sid (sy_coord y) = Some (Claim b, sy_coord y', calls)
          \<and> bid \<notin> wb_batch_id ` set (sy_issued y) \<and> sy_issued y' = b # sy_issued y)"
  using assms(1)
proof (cases rule: team_step.cases)
  case (acquire port lease_id request r s' p')
  then have "coord_step gen (sy_coord y) s'"
    using acquire_enqueue_inv [OF coord_inv_work [OF inv]] acquire_no_claim by (auto simp: coord_step_def)
  with acquire show ?thesis by simp
next
  case (commit intent_id now lease message_id r s' calls)
  then have "coord_step gen (sy_coord y) s'"
    using ex_resultD(1) [OF commit_enqueue_inv [OF coord_inv_work [OF inv]]] commit_no_claim by (auto simp: coord_step_def)
  with commit show ?thesis by simp
next
  case (abort lease res s' calls)
  then have "coord_step gen (sy_coord y) s'"
    using abort_enqueue_inv [OF coord_inv_work [OF inv]] abort_no_claim by (auto simp: coord_step_def)
  with abort show ?thesis by simp
next
  case (reconcile unread ids nows slot_id role proj s')
  then have "coord_step gen (sy_coord y) s'"
    using ex_resultD(2) [OF reconcile_mailbox_inv [OF coord_inv_work [OF inv], of unread ids]] reconcile_no_claim
    by (auto simp: coord_step_def)
  with reconcile show ?thesis by simp
next
  case (next_claim batch_id slot_id b s' calls)
  then show ?thesis by auto
next
  case (next_other batch_id slot_id d s' calls)
  then have "s' = sy_coord y" by (elim next_claims) auto
  with next_other work_step_refl [OF coord_inv_work [OF inv]] show ?thesis by (simp add: coord_step_def)
next
  case (start b now turn_id st s' calls)
  then have "coord_step gen (sy_coord y) s'"
    using mark_started_inv [OF coord_inv_work [OF inv] coord_inv_owns [OF inv]] mark_started_no_claim by (auto simp: coord_step_def)
  with start show ?thesis by simp
next
  case (retry b res s' calls)
  then have "coord_step gen (sy_coord y) s'"
    using ex_resultD(1) [OF retry_start_inv [OF coord_inv_work [OF inv] coord_inv_owns [OF inv]]] retry_no_claim by (auto simp: coord_step_def)
  with retry show ?thesis by simp
next
  case (complete b res s' calls)
  then have "coord_step gen (sy_coord y) s'"
    unfolding complete_batch_def by (intro terminalize_coord_step [OF inv]) simp_all
  with complete show ?thesis by simp
next
  case (fail b cl res s' calls)
  then have "coord_step gen (sy_coord y) s'"
    unfolding fail_batch_def by (intro terminalize_coord_step [OF inv]) simp_all
  with fail show ?thesis by simp
next
  case (cancel b cl res s' calls)
  then have "coord_step gen (sy_coord y) s'"
    unfolding cancel_batch_def by (intro terminalize_coord_step [OF inv]) simp_all
  with cancel show ?thesis by simp
next
  case (cancel_run run cr s' calls)
  then have "coord_step gen (sy_coord y) s'"
    using cancel_run_step [OF coord_inv_work [OF inv], of run] cancel_run_no_claim by (auto simp: coord_step_def)
  with cancel_run show ?thesis by simp
next
  case (signals slot_id intent_ids res s' calls)
  then have "coord_step gen (sy_coord y) s'"
    using complete_signals_inv [OF coord_inv_work [OF inv]] signals_no_claim by (auto simp: coord_step_def)
  with signals show ?thesis by simp
next
  case (pause slot_id pw s')
  then have "coord_step gen (sy_coord y) s'"
    using ex_resultD(2) [OF pause_slot_inv [OF coord_inv_work [OF inv]]] pause_no_claim by (auto simp: coord_step_def)
  with pause show ?thesis by simp
next
  case (runtime slot_id c ru s' calls)
  then have "coord_step gen (sy_coord y) s'"
    using ex_resultD(1) [OF set_runtime_constraint_inv [OF coord_inv_work [OF inv]]] runtime_no_claim by (auto simp: coord_step_def)
  with runtime show ?thesis by simp
next
  case (remove slot_id rw s' calls)
  then have "coord_step gen (sy_coord y) s'"
    using ex_resultD(1) [OF remove_slot_inv [OF coord_inv_work [OF inv]]] remove_no_claim by (auto simp: coord_step_def)
  with remove show ?thesis by simp
next
  case (stop sus s' calls)
  then have "coord_step gen (sy_coord y) s'"
    using stop_step(1) [OF coord_inv_work [OF inv]] stop_no_claim by (auto simp: coord_step_def)
  with stop show ?thesis by simp
next
  case (deliver port n c cs)
  with work_step_refl [OF coord_inv_work [OF inv]] show ?thesis by (simp add: coord_step_def)
qed

lemma coord_inv_claim:
  assumes inv: "coord_inv gen s issued" and fresh: "bid \<notin> wb_batch_id ` set issued"
    and res: "next_work gen bid sid s = Some (Claim b, s', calls)"
  shows "coord_inv gen s' (b # issued)"
  using res
proof (cases rule: next_claims)
  case (claim b')
  have "work_inv gen s'"
    using work_stepD(1) [OF ex_resultD(1) [OF next_work_inv res]] inv by (simp add: coord_inv_def)
  moreover have "cs_next_operation_id s' = wb_operation_id b" using claim by (simp add: claimed_state_def)
  ultimately show ?thesis
    using claim inv fresh sat_inc_mono [of "cs_next_operation_id s"]
    by (auto simp: coord_inv_def intro: order_trans)
qed auto

lemma team_step_inv:
  assumes "coord_inv gen (sy_coord y) (sy_issued y)" "team_step gen ports y y'"
  shows "coord_inv gen (sy_coord y') (sy_issued y')"
  using team_step_coord [OF assms(2,1)] coord_stepD [OF _ assms(1)] coord_inv_claim [OF assms(1)] by auto

lemma coord_inv_init: "coord_inv gen new_coordinator_state []"
  by (auto simp: coord_inv_def work_inv_def new_coordinator_state_def actives_def slot_entry_def slot_inv_def
      queued_in_def active_in_def batch_ids_def new_slot_state_def queue_simps(7) [unfolded new_slot_state_def])

abbreviation team_reach :: "string \<Rightarrow> 'p RunCausalityPort set \<Rightarrow> 'p \<Rightarrow> 'p TeamSystem \<Rightarrow> bool" where
  "team_reach gen ports p \<equiv> reach (team_init p) (team_step gen ports)"

interpretation team: machine "team_init p" "team_step gen ports"
    "\<lambda>y. coord_inv gen (sy_coord y) (sy_issued y)"
  for p :: 'p and gen ports
  by unfold_locales (auto simp: team_init_def coord_inv_init intro: team_step_inv)

lemma team_reach_work_inv: "team_reach gen ports p y \<Longrightarrow> work_inv gen (sy_coord y)"
  by (rule coord_inv_work [OF team.reach_inv])

lemma team_reach_owns: "team_reach gen ports p y \<Longrightarrow> b \<in> set (sy_issued y) \<Longrightarrow> owns gen (sy_coord y) b"
  by (rule coord_inv_owns [OF team.reach_inv])

text \<open>Runs of the system, for the concrete states below.\<close>

lemma team_reach_init:
  "team_reach gen ports p \<lparr>sy_coord = new_coordinator_state, sy_issued = [], sy_pending = [], sy_port = p\<rparr>"
  by (rule reach_init) (simp add: team_init_def)

lemma team_step_evolves:
  assumes "coord_inv gen (sy_coord y) (sy_issued y)" "team_step gen ports y z"
  shows "evolves (map_of (cs_intents (sy_coord y))) (map_of (cs_intents (sy_coord z)))"
  using team_step_coord [OF assms(2,1)]
proof (elim disjE exE conjE)
  fix b bid sid calls
  assume "next_work gen bid sid (sy_coord y) = Some (Claim b, sy_coord z, calls)"
  from work_stepD(2) [OF ex_resultD(1) [OF next_work_inv [OF coord_inv_work [OF assms(1)]] this]]
  show ?thesis .
qed (simp add: coord_step_def work_step_def)

lemma team_evolves:
  assumes "team_reach gen ports p y" "(team_step gen ports)\<^sup>*\<^sup>* y z"
  shows "evolves (map_of (cs_intents (sy_coord y))) (map_of (cs_intents (sy_coord z)))"
  by (rule team.stable_from_reach [OF assms])
    (auto intro: evolves_trans team_step_evolves)

text \<open>A batch that was handed out and is no longer active never becomes active again.\<close>

lemma given_up_forever:
  assumes "team_reach gen ports p y" "(team_step gen ports)\<^sup>*\<^sup>* y z"
    and "b \<in> set (sy_issued y)" "b \<notin> actives (sy_coord y)"
  shows "b \<in> set (sy_issued z) \<and> b \<notin> actives (sy_coord z)"
proof (rule team.stable_from_reach [OF assms(1,2)])
  show "b \<in> set (sy_issued y) \<and> b \<notin> actives (sy_coord y)" using assms(3,4) by blast
next
  fix u v :: "'a TeamSystem"
  assume inv: "coord_inv gen (sy_coord u) (sy_issued u)" and "team_step gen ports u v"
    and b: "b \<in> set (sy_issued u) \<and> b \<notin> actives (sy_coord u)"
  from team_step_coord [OF this(2) inv]
  show "b \<in> set (sy_issued v) \<and> b \<notin> actives (sy_coord v)"
  proof (elim disjE exE conjE)
    assume "coord_step gen (sy_coord u) (sy_coord v)" "sy_issued v = sy_issued u"
    with b show ?thesis by (auto simp: coord_step_def no_claim_def)
  next
    fix c bid sid calls
    assume c: "next_work gen bid sid (sy_coord u) = Some (Claim c, sy_coord v, calls)"
      "bid \<notin> wb_batch_id ` set (sy_issued u)" "sy_issued v = c # sy_issued u"
    from c(1) have "wb_batch_id c = bid \<and> actives (sy_coord v) \<subseteq> insert c (actives (sy_coord u))"
      by (rule next_claims) blast+
    with b c(2,3) show ?thesis by auto
  qed
qed

lemma current_in_actives:
  "owns gen s b \<Longrightarrow> is_current_batch gen s b \<Longrightarrow> b \<in> actives s"
  by (auto simp: owns_def actives_def)

lemma ended_not_active:
  assumes inv: "work_inv gen s" and own: "owns gen s b" and res: "terminalize_batch gen b st s = Some (Committed, s', calls)"
  shows "b \<notin> actives s'"
proof
  assume b: "b \<in> actives s'"
  from res have cur: "is_current_batch gen s b" by (auto simp: terminalize_batch_def split: if_splits)
  with own obtain sl a where sl: "map_of (cs_slots s) (wb_slot_id b) = Some sl" "ss_active sl = Some a" "ab_batch a = b"
    by (rule ownsE)
  with res cur have s': "s' = upd_slot (wb_slot_id b) (\<lambda>sl. sl\<lparr>ss_active := None\<rparr>) (set_states (wb_intent_ids b) st s)"
    by (simp add: terminalize_batch_def Let_def)
  from b obtain k sl' a' where *: "map_of (cs_slots s') k = Some sl'" "ss_active sl' = Some a'" "ab_batch a' = b"
    by (auto simp: actives_def)
  have "k \<noteq> wb_slot_id b" using * sl by (auto simp: s' map_of_map_entry)
  with *(1) have "map_of (cs_slots s) k = Some sl'" by (simp add: s' map_of_map_entry)
  from batch_invD(1) [OF slot_invD(4) [OF work_inv_slotD [OF inv this] *(2)]] *(3) \<open>k \<noteq> wb_slot_id b\<close>
  show False by simp
qed

lemma count_distinct: "distinct xs \<Longrightarrow> count_list xs x = (if x \<in> set xs then 1 else 0)"
  by (induction xs) auto

text \<open>What a summary counts.\<close>

lemma associated_iff:
  assumes "work_inv gen s"
  shows "i \<in> set (associated s run) \<longleftrightarrow> (\<exists>k. map_of (cs_intents s) k = Some i \<and> of_run run i)"
  using values_iff [OF work_invD(2) [OF assms], of i] by (auto simp: associated_def)

lemma has_live_work_iff:
  assumes inv: "work_inv gen s"
  shows "has_live_work (run_summary_locked s run) \<longleftrightarrow>
     (\<exists>k i. map_of (cs_intents s) k = Some i \<and> of_run run i \<and> \<not> intent_is_terminal (wi_state i))
     \<or> run_leases s run \<noteq> []"
proof -
  have st: "is_active_state st \<longleftrightarrow> starting_batch st \<noteq> None \<or> running_batch st \<noteq> None" for st
    by (cases st) simp_all
  have "has_live_work (run_summary_locked s run) \<longleftrightarrow>
      (\<exists>i \<in> set (associated s run). wi_state i = WorkIntentState.Queued \<or> is_active_state (wi_state i))
      \<or> run_leases s run \<noteq> []"
    by (auto simp: st has_live_work_def run_summary_locked_def Let_def filter_empty_conv map_filter_Nil)
  then show ?thesis using associated_iff [OF inv] live_state_iff by blast
qed

section \<open>Cancelling a team run\<close>

text \<open>
  The part of \<open>TeamSession::cancel_run\<close> (\<open>session.rs\<close>) before it awaits: it asks the manager for the
  active run, marks it as being cancelled, cancels its work in the coordinator, and the coordinator
  reports the summary back to the manager.
\<close>

definition session_cancel_run ::
  "TimestampMs \<Rightarrow> string \<Rightarrow> string option \<Rightarrow> CoordinatorState \<Rightarrow> TeamRunManager
     \<Rightarrow> ((TeamError + CancelRunWorkResult) \<times> CoordinatorState \<times> TeamRunManager) option" where
  "session_cancel_run now team_run_id reason s mgr =
     (if current_active_run_id mgr \<noteq> Some team_run_id
      then Some (Inl (InvalidRequest (RunNotActive team_run_id)), s, mgr)
      else case begin_cancel now team_run_id reason mgr of
        (Inl e, mgr1) \<Rightarrow> Some (Inl e, s, mgr1)
      | (Inr _, mgr1) \<Rightarrow>
          (case cancel_run team_run_id s of
             None \<Rightarrow> None
           | Some (r, s', calls) \<Rightarrow>
               Some (Inr r, s', run_port_calls (manager_port [] now) calls mgr1)))"

section \<open>A run of the system\<close>

text \<open>
  A concrete run with the team run manager as the port: the lead's runtime becomes ready, a user
  message is enqueued, and the batch is claimed. The states are the results of the operations.
\<close>

definition manager_ports :: "TeamRunManager RunCausalityPort set" where
  "manager_ports = {manager_port run_id now |run_id now. True}"

definition demo_request :: EnqueueRequest where
  "demo_request = \<lparr>rq_slot_id = ''lead'', rq_role = Lead, rq_source = WorkSource.UserMessage,
     rq_binding = UserVisible\<rparr>"

definition demo_ready :: CoordinatorState where
  "demo_ready = fst (snd (the (set_runtime_constraint ''lead'' Ready new_coordinator_state)))"

definition demo_lease :: EnqueueLease where
  "demo_lease = \<lparr>el_lease_id = ''lease-1'', el_session_generation = ''g'', el_slot_id = ''lead'',
     el_role = Lead, el_source = WorkSource.UserMessage, el_team_run_id = Some ''run-1''\<rparr>"

definition demo_acquired :: CoordinatorState where
  "demo_acquired = fst (snd (acquire_enqueue ''g'' (manager_port ''run-1'' 5) ''lease-1'' demo_request
     demo_ready (new_manager ''team'')))"

definition demo_manager :: TeamRunManager where
  "demo_manager = snd (snd (acquire_enqueue ''g'' (manager_port ''run-1'' 5) ''lease-1'' demo_request
     demo_ready (new_manager ''team'')))"

definition demo_queued :: CoordinatorState where
  "demo_queued = fst (snd (the (commit_enqueue ''g'' ''i1'' 6 demo_lease (Some ''m1'') demo_acquired)))"

definition demo_batch :: WorkBatch where
  "demo_batch = \<lparr>wb_batch_id = ''b1'', wb_session_generation = ''g'', wb_slot_id = ''lead'',
     wb_intent_ids = [''i1''], wb_mailbox_message_ids = [''m1''], wb_highest_priority = Foreground,
     wb_team_run_ids = [''run-1''], wb_operation_id = 1\<rparr>"

definition demo_claimed :: CoordinatorState where
  "demo_claimed = fst (snd (the (next_work ''g'' ''b1'' ''lead'' demo_queued)))"

section \<open>The concrete run is a run of the system\<close>

definition demo_sys_acquired :: "TeamRunManager TeamSystem" where
  "demo_sys_acquired = \<lparr>sy_coord = demo_acquired, sy_issued = [],
     sy_pending = [snd (snd (the (set_runtime_constraint ''lead'' Ready new_coordinator_state)))],
     sy_port = demo_manager\<rparr>"

definition demo_sys_queued :: "TeamRunManager TeamSystem" where
  "demo_sys_queued = \<lparr>sy_coord = demo_queued, sy_issued = [],
     sy_pending = [snd (snd (the (set_runtime_constraint ''lead'' Ready new_coordinator_state))),
       snd (snd (the (commit_enqueue ''g'' ''i1'' 6 demo_lease (Some ''m1'') demo_acquired)))],
     sy_port = demo_manager\<rparr>"

definition demo_sys :: "TeamRunManager TeamSystem" where
  "demo_sys = demo_sys_queued\<lparr>sy_coord := demo_claimed, sy_issued := [demo_batch],
     sy_pending := sy_pending demo_sys_queued @ [snd (snd (the (next_work ''g'' ''b1'' ''lead'' demo_queued)))]\<rparr>"

lemma the_result: "x \<noteq> None \<Longrightarrow> x = Some (fst (the x), fst (snd (the x)), snd (snd (the x)))"
  by auto

lemma demo_next: "next_work ''g'' ''b1'' ''lead'' demo_queued =
   Some (Claim demo_batch, demo_claimed, snd (snd (the (next_work ''g'' ''b1'' ''lead'' demo_queued))))"
proof -
  have "map_option fst (next_work ''g'' ''b1'' ''lead'' demo_queued) = Some (Claim demo_batch)" by code_simp
  then show ?thesis by (auto simp: demo_claimed_def)
qed

lemma demo_acquired_reach: "team_reach ''g'' manager_ports (new_manager ''team'') demo_sys_acquired"
proof -
  let ?p = "manager_port ''run-1'' 5"
  let ?y0 = "\<lparr>sy_coord = new_coordinator_state, sy_issued = [], sy_pending = [], sy_port = new_manager ''team''\<rparr>"
  let ?y1 = "\<lparr>sy_coord = demo_ready, sy_issued = [],
     sy_pending = [snd (snd (the (set_runtime_constraint ''lead'' Ready new_coordinator_state)))],
     sy_port = new_manager ''team''\<rparr>"
  have "set_runtime_constraint ''lead'' Ready new_coordinator_state \<noteq> None" by code_simp
  from team_step.runtime [of "''lead''" Ready ?y0, simplified, OF the_result [OF this]]
  have 1: "team_reach ''g'' manager_ports (new_manager ''team'') ?y1"
    by (intro reach_step [OF team_reach_init]) (simp add: demo_ready_def)
  have port: "?p \<in> manager_ports" by (auto simp: manager_ports_def)
  have "acquire_enqueue ''g'' ?p ''lease-1'' demo_request demo_ready (new_manager ''team'') =
      (fst (acquire_enqueue ''g'' ?p ''lease-1'' demo_request demo_ready (new_manager ''team'')),
       demo_acquired, demo_manager)"
    by (simp add: demo_acquired_def demo_manager_def)
  moreover have "map_of (cs_enqueue_leases demo_ready) ''lease-1'' = None" by code_simp
  ultimately show ?thesis
    using team_step.acquire [OF port, of ?y1 "''lease-1''" "''g''" demo_request]
    by (intro reach_step [OF 1]) (simp add: demo_sys_acquired_def)
qed

lemma demo_queued_reach: "team_reach ''g'' manager_ports (new_manager ''team'') demo_sys_queued"
proof -
  have "commit_enqueue ''g'' ''i1'' 6 demo_lease (Some ''m1'') demo_acquired \<noteq> None"
    "map_of (cs_intents demo_acquired) ''i1'' = None" by code_simp+
  then have "team_step ''g'' manager_ports demo_sys_acquired demo_sys_queued"
    using team_step.commit [of demo_sys_acquired "''i1''" "''g''" 6 demo_lease "Some ''m1''"]
    by (auto simp: demo_sys_acquired_def demo_sys_queued_def demo_queued_def)
  with demo_acquired_reach show ?thesis by (rule reach_step)
qed

lemma demo_step: "team_step ''g'' manager_ports demo_sys_queued demo_sys"
  using team_step.next_claim [of "''b1''" demo_sys_queued "''g''" "''lead''" demo_batch demo_claimed
      "snd (snd (the (next_work ''g'' ''b1'' ''lead'' demo_queued)))" manager_ports] demo_next
  by (simp add: demo_sys_def demo_sys_queued_def)

lemma demo_reach: "team_reach ''g'' manager_ports (new_manager ''team'') demo_sys"
  by (rule reach_step [OF demo_queued_reach demo_step])

lemma demo_sys_simps [simp]:
  "sy_coord demo_sys = demo_claimed" "sy_issued demo_sys = [demo_batch]"
  "sy_coord demo_sys_queued = demo_queued" "sy_issued demo_sys_queued = []"
  "sy_coord demo_sys_acquired = demo_acquired" "sy_issued demo_sys_acquired = []"
  by (simp_all add: demo_sys_def demo_sys_queued_def demo_sys_acquired_def)

lemma demo_current: "is_current_batch ''g'' demo_claimed demo_batch"
  by code_simp

end
