(* ===== verification/Team_Work_Props.thy ===== *)
theory Team_Work_Props
  imports Team_System
begin

text \<open>
  What the coordinator promises about the work of a team, for every state the team system can
  reach: no work is lost or done twice, ended work stays ended, stale owners change nothing, the
  queues are served by priority and in order, and the operations that end work leave none behind.
  Each property has a witness on the concrete run of \<open>Team_System\<close>.
\<close>

section \<open>No work is lost\<close>

text \<open>
  C1: In every reachable state of a team session a work intent that has not ended is in
  exactly one place: once in the work of its own slot (its queue or its active batch) and in
  no other slot; an ended or unknown intent is in none.
\<close>

theorem every_live_intent_is_held_once:
  assumes "team_reach gen ports p y"
  shows "count_list (slot_work_ids (map_of (cs_slots (sy_coord y)) slot_id)) intent_id =
    (case map_of (cs_intents (sy_coord y)) intent_id of
       None \<Rightarrow> 0
     | Some i \<Rightarrow> if wi_slot_id i = slot_id \<and> \<not> intent_is_terminal (wi_state i) then 1 else 0)"
proof -
  note inv = team_reach_work_inv [OF assms]
  have "distinct (slot_work_ids (map_of (cs_slots (sy_coord y)) slot_id))
      \<and> set (slot_work_ids (map_of (cs_slots (sy_coord y)) slot_id)) = set (live_intent_ids slot_id (sy_coord y))"
  proof (cases "map_of (cs_slots (sy_coord y)) slot_id")
    case None
    with live_ids_no_slot [OF inv] show ?thesis by (simp add: slot_work_ids_def)
  next
    case (Some sl)
    with slot_work_ids_live [OF inv Some] show ?thesis by simp
  qed
  then show ?thesis
    using live_intent_ids(2) [OF inv, of slot_id] by (auto simp: count_distinct split: option.split)
qed

theorem every_live_intent_is_held_once_witness:
  "count_list (slot_work_ids (map_of (cs_slots demo_claimed) ''lead'')) ''i1'' = 1"
proof -
  have "(case map_of (cs_intents demo_claimed) ''i1'' of None \<Rightarrow> 0
     | Some i \<Rightarrow> if wi_slot_id i = ''lead'' \<and> \<not> intent_is_terminal (wi_state i) then 1 else 0) = (1::nat)"
    by code_simp
  with every_live_intent_is_held_once [OF demo_reach, of "''lead''" "''i1''"] show ?thesis by simp
qed

text \<open>
  C6: Along every execution an intent is never dropped and only its state changes, and once it
  has completed, failed or been cancelled its state never changes again.
\<close>

theorem intents_are_final_once_ended:
  assumes "team_reach gen ports p y" and "(team_step gen ports)\<^sup>*\<^sup>* y z"
    and "map_of (cs_intents (sy_coord y)) k = Some i"
  shows "\<exists>st. map_of (cs_intents (sy_coord z)) k = Some (i\<lparr>wi_state := st\<rparr>)
     \<and> (intent_is_terminal (wi_state i) \<longrightarrow> st = wi_state i)"
  using team_evolves [OF assms(1,2)] assms(3) by (simp add: evolves_def)

theorem intents_are_final_once_ended_witness:
  "\<exists>i st. map_of (cs_intents demo_queued) ''i1'' = Some i
     \<and> map_of (cs_intents demo_claimed) ''i1'' = Some (i\<lparr>wi_state := st\<rparr>)"
proof -
  have "map_of (cs_intents demo_queued) ''i1'' \<noteq> None" by code_simp
  then obtain i where i: "map_of (cs_intents demo_queued) ''i1'' = Some i" by blast
  have "(team_step ''g'' manager_ports)\<^sup>*\<^sup>* demo_sys_queued demo_sys" by (rule r_into_rtranclp [where r = "team_step ''g'' manager_ports", OF demo_step])
  with intents_are_final_once_ended [OF demo_queued_reach this, of "''i1''" i] i show ?thesis by auto
qed

text \<open>
  C2: No operation of the coordinator reaches one of its expect or unreachable! calls: in
  every reachable state next, cancel_run, remove_slot, pause_slot and set_runtime_constraint
  return, commit_enqueue and reconcile_mailbox return when the ids they draw are fresh, and
  retry_start, complete_batch, fail_batch and cancel_batch return for every batch that was
  issued.
\<close>

theorem coordinator_never_panics:
  assumes "team_reach gen ports p y"
  shows "next_work gen bid sid (sy_coord y) \<noteq> None \<and> cancel_run run (sy_coord y) \<noteq> None
    \<and> remove_slot sid (sy_coord y) \<noteq> None \<and> pause_slot sid (sy_coord y) \<noteq> None
    \<and> set_runtime_constraint sid c (sy_coord y) \<noteq> None
    \<and> (map_of (cs_intents (sy_coord y)) iid = None \<longrightarrow>
         commit_enqueue gen iid now lease message (sy_coord y) \<noteq> None)
    \<and> ((\<forall>n < length unread. map_of (cs_intents (sy_coord y)) (ids n) = None) \<and> inj_on ids {..< length unread}
         \<longrightarrow> reconcile_mailbox gen ids nows sid unread role (sy_coord y) \<noteq> None)
    \<and> (b \<in> set (sy_issued y) \<longrightarrow> retry_start gen b (sy_coord y) \<noteq> None
         \<and> complete_batch gen b (sy_coord y) \<noteq> None
         \<and> fail_batch gen b cl (sy_coord y) \<noteq> None \<and> cancel_batch gen b cl (sy_coord y) \<noteq> None)"
proof -
  note inv = team_reach_work_inv [OF assms]
  have "b \<in> set (sy_issued y) \<Longrightarrow> retry_start gen b (sy_coord y) \<noteq> None
      \<and> complete_batch gen b (sy_coord y) \<noteq> None
      \<and> fail_batch gen b cl (sy_coord y) \<noteq> None \<and> cancel_batch gen b cl (sy_coord y) \<noteq> None"
    using retry_start_inv [OF inv team_reach_owns [OF assms], of b]
      terminalize_batch_inv [OF inv team_reach_owns [OF assms], of b WorkIntentState.Completed]
      terminalize_batch_inv [OF inv team_reach_owns [OF assms], of b "WorkIntentState.Failed cl"]
      terminalize_batch_inv [OF inv team_reach_owns [OF assms], of b "WorkIntentState.Cancelled cl"]
    by (auto simp: complete_batch_def fail_batch_def cancel_batch_def)
  moreover have "(\<forall>n < length unread. map_of (cs_intents (sy_coord y)) (ids n) = None) \<and> inj_on ids {..< length unread}
      \<longrightarrow> reconcile_mailbox gen ids nows sid unread role (sy_coord y) \<noteq> None"
    using reconcile_mailbox_inv [OF inv, of unread ids nows sid role] by auto
  moreover have "map_of (cs_intents (sy_coord y)) iid = None \<longrightarrow>
      commit_enqueue gen iid now lease message (sy_coord y) \<noteq> None"
    using commit_enqueue_inv [OF inv, of iid now lease message] by auto
  ultimately show ?thesis
    using next_work_inv [OF inv, of bid sid] cancel_run_step [OF inv, of run] remove_slot_inv [OF inv, of sid]
      pause_slot_inv [OF inv, of sid] set_runtime_constraint_inv [OF inv, of sid c]
    by auto
qed

theorem coordinator_never_panics_witness:
  "retry_start ''g'' demo_batch demo_claimed \<noteq> None \<and> next_work ''g'' ''b2'' ''lead'' demo_claimed \<noteq> None"
  using coordinator_never_panics [OF demo_reach, where b = demo_batch and bid = "''b2''" and sid = "''lead''"]
  by simp

text \<open>
  C13: Once a batch was completed, failed or cancelled, no later state accepts it again: a
  second terminal report or a retry for it is answered StaleOwner and changes nothing.
\<close>

theorem ended_batch_is_never_current_again:
  assumes y: "team_reach gen ports p y" and b: "b \<in> set (sy_issued y)"
    and "terminal_state \<in> {WorkIntentState.Completed, WorkIntentState.Failed cl, WorkIntentState.Cancelled cl}"
    and res: "terminalize_batch gen b terminal_state (sy_coord y) = Some (Committed, s', calls)"
    and z: "(team_step gen ports)\<^sup>*\<^sup>* (commit_to s' calls y) z"
  shows "\<not> is_current_batch gen (sy_coord z) b
    \<and> terminalize_batch gen b st (sy_coord z) = Some (CommitResult.StaleOwner, sy_coord z, [])
    \<and> retry_start gen b (sy_coord z) = Some (CommitResult.StaleOwner, sy_coord z, [])"
proof -
  have "complete_batch gen b (sy_coord y) = Some (Committed, s', calls)
      \<or> fail_batch gen b cl (sy_coord y) = Some (Committed, s', calls)
      \<or> cancel_batch gen b cl (sy_coord y) = Some (Committed, s', calls)"
    using assms(3) res by (auto simp: complete_batch_def fail_batch_def cancel_batch_def)
  then have "team_step gen ports y (commit_to s' calls y)"
    by (elim disjE) (blast intro: team_step.complete [OF b] team_step.fail [OF b] team_step.cancel [OF b])+
  from reach_step [OF y this] have y': "team_reach gen ports p (commit_to s' calls y)" .
  have "b \<notin> actives s'"
    by (rule ended_not_active [OF team_reach_work_inv [OF y] team_reach_owns [OF y b] res])
  then have *: "b \<in> set (sy_issued z)" "b \<notin> actives (sy_coord z)"
    using given_up_forever [OF y' z] b by simp_all
  have z': "team_reach gen ports p z"
    using z y' by (induction rule: rtranclp_induct) (auto intro: reach_step)
  from * have "\<not> is_current_batch gen (sy_coord z) b"
    using current_in_actives [OF team_reach_owns [OF z']] by blast
  then show ?thesis by (simp add: terminalize_batch_def retry_start_def)
qed

theorem ended_batch_is_never_current_again_witness:
  "\<exists>s' calls. terminalize_batch ''g'' demo_batch WorkIntentState.Completed demo_claimed = Some (Committed, s', calls)
     \<and> \<not> is_current_batch ''g'' s' demo_batch"
proof -
  have "map_option fst (terminalize_batch ''g'' demo_batch WorkIntentState.Completed demo_claimed) = Some Committed"
    by code_simp
  then obtain s' calls where r: "terminalize_batch ''g'' demo_batch WorkIntentState.Completed demo_claimed =
      Some (Committed, s', calls)" by auto
  with ended_batch_is_never_current_again [OF demo_reach, of demo_batch WorkIntentState.Completed "''x''" s' calls]
  show ?thesis by fastforce
qed

section \<open>Claiming work\<close>

lemma upd_state_requeue:
  assumes "\<And>k. k \<in> K \<Longrightarrow> \<exists>i. I k = Some i \<and> wi_state i = WorkIntentState.Queued"
  shows "upd_state (upd_state I K st) K WorkIntentState.Queued = I"
proof
  fix k
  show "upd_state (upd_state I K st) K WorkIntentState.Queued k = I k"
    using assms [of k] by (cases "k \<in> K") (auto simp: upd_state_def)
qed

lemma sat_inc_less: "w \<noteq> - 1 \<Longrightarrow> w < sat_inc w" for w :: "'a::len word"
  using sat_inc_mono [of w] sat_dec_inc [of w] by (metis order.not_eq_order_implies_strict sat_inc_def add_cancel_right_right one_neq_zero)

lemma claim_id_is_fresh:
  assumes "team_reach gen ports p y" "cs_next_operation_id (sy_coord y) \<noteq> - 1" "earlier \<in> set (sy_issued y)"
  shows "wb_operation_id earlier < sat_inc (cs_next_operation_id (sy_coord y))"
proof -
  have "wb_operation_id earlier \<le> cs_next_operation_id (sy_coord y)"
    using team.reach_inv [OF assms(1)] assms(3) by (auto simp: coord_inv_def)
  also have "\<dots> < sat_inc (cs_next_operation_id (sy_coord y))" by (rule sat_inc_less [OF assms(2)])
  finally show ?thesis .
qed

text \<open>
  C24: A batch that next claims is taken from the highest priority queue that is not empty, of
  a slot that is ready, not paused and without an active batch; it holds the intents of that
  queue that have a mailbox message, all of them and in order, they leave the queue, the batch
  becomes the slot's active one, and its runs and slot are published. Its operation id is the
  counter plus one, at most 2^64-1, and the counter is advanced to it; in a reachable state
  whose counter is below 2^64-1 it is larger than the id of every batch issued before.
\<close>

theorem next_claims_highest_priority_in_order:
  assumes "next_work gen bid sid s = Some (Claim b, s', calls)"
  shows "\<exists>sl p sl'. map_of (cs_slots s) sid = Some sl \<and> map_of (cs_slots s') sid = Some sl'
    \<and> ss_active sl = None \<and> ss_runtime_constraint sl = Ready \<and> \<not> ss_paused sl
    \<and> wb_highest_priority b = p \<and> (\<forall>q < p. queue sl q = [])
    \<and> wb_intent_ids b = filter (has_message s) (queue sl p) \<and> wb_intent_ids b \<noteq> []
    \<and> queue sl' p = filter (\<lambda>k. k \<notin> set (wb_intent_ids b)) (queue sl p)
    \<and> map_option ab_batch (ss_active sl') = Some b
    \<and> wb_operation_id b = sat_inc (cs_next_operation_id s) \<and> cs_next_operation_id s' = wb_operation_id b
    \<and> (\<forall>ports p y. team_reach gen ports p y \<and> sy_coord y = s \<and> cs_next_operation_id s \<noteq> - 1 \<longrightarrow>
         (\<forall>earlier \<in> set (sy_issued y). wb_operation_id earlier < wb_operation_id b))
    \<and> calls = publish_batch b s'"
  using assms
proof (cases rule: next_work_cases [of s sid gen bid])
  case (claim sl p b')
  with assms have b: "b' = b" "s' = claimed_state b s" "calls = publish_batch b s'" by auto
  have c: "wb_slot_id b = sid" "wb_intent_ids b = filter (has_message s) (queue sl p)"
      "wb_highest_priority b = p" "wb_operation_id b = sat_inc (cs_next_operation_id s)"
    using claim(7) b by (auto simp: the_claim_def)
  from claim b c selected_priority_Some [OF claim(5)]
  have "\<exists>sl'. map_of (cs_slots s') sid = Some sl' \<and> (\<forall>q < p. queue sl q = []) \<and> wb_intent_ids b \<noteq> []
      \<and> queue sl' p = filter (\<lambda>k. k \<notin> set (wb_intent_ids b)) (queue sl p)
      \<and> map_option ab_batch (ss_active sl') = Some b \<and> cs_next_operation_id s' = wb_operation_id b"
    by (auto simp: claimed_state_def map_of_map_entry)
  then obtain sl' where "map_of (cs_slots s') sid = Some sl'" "\<forall>q < p. queue sl q = []" "wb_intent_ids b \<noteq> []"
      "queue sl' p = filter (\<lambda>k. k \<notin> set (wb_intent_ids b)) (queue sl p)"
      "map_option ab_batch (ss_active sl') = Some b" "cs_next_operation_id s' = wb_operation_id b" by blast
  with claim(1-4) b(3) c show ?thesis
    by (intro exI conjI; (assumption | rule refl)?) (use claim_id_is_fresh in auto)
qed auto

theorem next_claims_highest_priority_in_order_witness:
  "wb_intent_ids demo_batch = [''i1''] \<and> cs_next_operation_id demo_claimed = 1 \<and> (\<exists>sl. map_of (cs_slots demo_queued) ''lead'' = Some sl
     \<and> filter (has_message demo_queued) (queue sl Foreground) = [''i1''])"
  using next_claims_highest_priority_in_order [OF demo_next] by (auto simp: demo_batch_def)

text \<open>
  C27: In every reachable state a slot that is ready, not paused, idle and has queued work is
  given something to do: next claims a non-empty batch, or it returns a non-empty list of
  signals that complete_signals then accepts and completes.
\<close>

theorem next_makes_progress:
  assumes y: "team_reach gen ports p y" and sl: "map_of (cs_slots (sy_coord y)) sid = Some sl"
    and idle: "ss_active sl = None" "ss_runtime_constraint sl = Ready" "\<not> ss_paused sl"
    and work: "queued_ids sl \<noteq> []"
  shows "(\<exists>b s' calls. next_work gen bid sid (sy_coord y) = Some (Claim b, s', calls) \<and> wb_intent_ids b \<noteq> [])
    \<or> (\<exists>ks s' calls. next_work gen bid sid (sy_coord y) = Some (SettleSignals ks, sy_coord y, []) \<and> ks \<noteq> []
         \<and> complete_signals sid ks (sy_coord y) = (Committed, s', calls)
         \<and> (\<forall>k \<in> set ks. \<exists>i. map_of (cs_intents s') k = Some i \<and> wi_state i = WorkIntentState.Completed))"
proof (cases rule: next_work_cases [of "sy_coord y" sid gen bid])
  case (signals sl' q)
  let ?s = "sy_coord y" and ?ks = "queue sl q"
  note inv = team_reach_work_inv [OF y]
  have sl': "sl' = sl" using signals(1) sl by simp
  have "is_settlable sid ?s k" if "k \<in> set ?ks" for k
  proof -
    from that slot_invD(2) [OF work_inv_slotD [OF inv sl], of q]
    obtain i where "map_of (cs_intents ?s) k = Some i" "wi_slot_id i = sid" "wi_state i = WorkIntentState.Queued"
      by (auto simp: queued_in_def)
    with that signals(6) sl' show ?thesis by (auto simp: is_settlable_def has_message_def filter_empty_conv)
  qed
  moreover from this have "\<exists>i. upd_state (map_of (cs_intents ?s)) (set ?ks) WorkIntentState.Completed k = Some i
      \<and> wi_state i = WorkIntentState.Completed" if "k \<in> set ?ks" for k
    using that by (force simp: is_settlable_def upd_state_def split: option.splits)
  ultimately show ?thesis
    using signals(7) selected_priority_Some(1) [OF signals(5)] sl'
    by (auto simp: complete_signals_def fold_settle_signal Let_def map_of_set_states)
next
  case (claim sl' q b)
  then show ?thesis by (auto simp: the_claim_def)
qed (use sl idle work in auto)

theorem next_makes_progress_witness:
  "\<exists>b s' calls. next_work ''g'' ''b7'' ''lead'' demo_queued = Some (Claim b, s', calls) \<and> wb_intent_ids b \<noteq> []"
proof -
  have "case map_of (cs_slots demo_queued) ''lead'' of None \<Rightarrow> False | Some sl \<Rightarrow>
      ss_active sl = None \<and> ss_runtime_constraint sl = Ready \<and> \<not> ss_paused sl \<and> queued_ids sl \<noteq> []"
    by code_simp
  then obtain sl where "map_of (cs_slots demo_queued) ''lead'' = Some sl"
    "ss_active sl = None" "ss_runtime_constraint sl = Ready" "\<not> ss_paused sl" "queued_ids sl \<noteq> []"
    by (auto split: option.splits)
  moreover have "case next_work ''g'' ''b7'' ''lead'' demo_queued of Some (SettleSignals _, _) \<Rightarrow> False | _ \<Rightarrow> True"
    by code_simp
  ultimately show ?thesis
    using next_makes_progress [OF demo_queued_reach, of "''lead''" sl "''b7''"] by auto
qed

text \<open>
  C28: Claiming a batch and giving it back with retry_start restores every intent and every
  other queue; the claimed queue gets its message intents back in their order, in front of the
  signals that were not claimed.
\<close>

theorem retry_gives_the_claim_back:
  assumes y: "team_reach gen ports p y" and fresh: "bid \<notin> wb_batch_id ` set (sy_issued y)"
    and claim: "next_work gen bid sid (sy_coord y) = Some (Claim b, s1, calls)"
  shows "\<exists>s2 sl sl2 calls'. retry_start gen b s1 = Some (Committed, s2, calls')
    \<and> map_of (cs_intents s2) = map_of (cs_intents (sy_coord y))
    \<and> map_of (cs_slots (sy_coord y)) sid = Some sl \<and> map_of (cs_slots s2) sid = Some sl2
    \<and> ss_active sl2 = None
    \<and> (\<forall>q. queue sl2 q = (if q = wb_highest_priority b
          then filter (has_message (sy_coord y)) (queue sl q) @ filter (\<lambda>k. \<not> has_message (sy_coord y) k) (queue sl q)
          else queue sl q))"
proof (cases rule: next_work_cases [of "sy_coord y" sid gen bid])
  case (claim sl p b')
  let ?s = "sy_coord y" and ?ks = "filter (has_message (sy_coord y)) (queue sl p)"
  note inv = team_reach_work_inv [OF y]
  note slot = work_inv_slotD [OF inv claim(1)]
  have b: "b' = b" "s1 = claimed_state b ?s" using assms(3) claim(8) by auto
  have bf: "wb_slot_id b = sid" "wb_intent_ids b = ?ks" "wb_highest_priority b = p"
      "wb_session_generation b = gen"
    using claim(7) b by (auto simp: the_claim_def)
  have cur: "is_current_batch gen s1 b"
    using claim(1) by (simp add: is_current_batch_def b(2) bf claimed_state_def map_of_map_entry)
  let ?sl1 = "(fold remove_queued ?ks sl)\<lparr>ss_active := Some \<lparr>ab_batch = b, ab_turn_id = None, ab_started_at_ms = None\<rparr>\<rparr>"
  let ?sl2 = "fold (\<lambda>k. queue_mut p (\<lambda>q. k # q)) (rev ?ks) (?sl1\<lparr>ss_active := None\<rparr>)"
  let ?s2 = "upd_slot sid (\<lambda>sl. fold (\<lambda>k. queue_mut p (\<lambda>q. k # q)) (rev ?ks) (sl\<lparr>ss_active := None\<rparr>))
      (set_states ?ks WorkIntentState.Queued s1)"
  have "retry_start gen b s1 = Some (Committed, ?s2, publish_batch b ?s2)"
    using cur claim(1) by (simp add: retry_start_def Let_def bf b(2) claimed_state_def map_of_map_entry)
  moreover have "map_of (cs_slots ?s2) sid = Some ?sl2"
    using claim(1) by (simp add: b(2) bf claimed_state_def map_of_map_entry)
  moreover have "map_of (cs_intents ?s2) = map_of (cs_intents ?s)"
    using slot_invD(2) [OF slot, of p]
    by (simp add: b(2) bf claimed_state_def map_of_set_states)
      (rule upd_state_requeue, auto simp: queued_in_def)
  moreover have "queue ?sl2 q = (if q = p
      then filter (has_message ?s) (queue sl q) @ filter (\<lambda>k. \<not> has_message ?s k) (queue sl q) else queue sl q)" for q
    using slot_invD(2) [OF slot, of q] slot_invD(2) [OF slot, of p]
    by (auto simp: filter_id_conv queued_in_def intro!: filter_cong)
  moreover have "ss_active ?sl2 = None" by simp
  ultimately show ?thesis using claim(1) unfolding bf(3) by blast
qed (use assms(3) in auto)

theorem retry_gives_the_claim_back_witness:
  "\<exists>s2 calls'. retry_start ''g'' demo_batch demo_claimed = Some (Committed, s2, calls')
     \<and> map_of (cs_intents s2) = map_of (cs_intents demo_queued)"
  using retry_gives_the_claim_back [OF demo_queued_reach, of "''b1''", simplified, OF demo_next] by auto

section \<open>Enqueueing\<close>

theorem lease_is_used_once:
  assumes y: "team_reach gen ports p y"
    and res: "commit_enqueue gen k now lease m (sy_coord y) = Some (Inr ec, s', calls)"
  shows "map_of (cs_enqueue_leases (sy_coord y)) (el_lease_id lease) \<noteq> None
    \<and> map_of (cs_enqueue_leases s') (el_lease_id lease) = None
    \<and> commit_enqueue gen k2 now2 lease m2 s' = Some (Inl (InvalidRequest LeaseNoLongerActive), s', [])
    \<and> abort_enqueue gen lease s' = (CommitResult.StaleOwner, s', [])"
proof -
  have l: "map_of (cs_enqueue_leases (sy_coord y)) (el_lease_id lease) \<noteq> None"
    and s': "s' = committed_state lease m (commit_intent gen k now lease m) (sy_coord y)"
    using commit_enqueue_cases [of gen k now lease m "sy_coord y"] res by (auto simp: Let_def)
  then have "map_of (cs_enqueue_leases s') (el_lease_id lease) = None"
    by (simp add: committed_state_def delete_conv')
  with l show ?thesis by (simp add: commit_enqueue_def abort_enqueue_def)
qed

theorem lease_is_used_once_witness:
  "\<exists>ec s' calls. commit_enqueue ''g'' ''i1'' 6 demo_lease (Some ''m1'') demo_acquired = Some (Inr ec, s', calls)
     \<and> abort_enqueue ''g'' demo_lease s' = (CommitResult.StaleOwner, s', [])"
proof -
  have "case commit_enqueue ''g'' ''i1'' 6 demo_lease (Some ''m1'') demo_acquired of
      Some (Inr ec, _) \<Rightarrow> True | _ \<Rightarrow> False" by code_simp
  then obtain ec s' calls where
    r: "commit_enqueue ''g'' ''i1'' 6 demo_lease (Some ''m1'') demo_acquired = Some (Inr ec, s', calls)"
    by (auto split: option.splits sum.splits)
  with lease_is_used_once [OF demo_acquired_reach, simplified, OF r] show ?thesis by blast
qed

theorem commit_appends_to_its_queue:
  assumes res: "commit_enqueue gen k now lease m s = Some (Inr ec, s', calls)"
  shows "\<exists>sl sl' i. map_of (cs_slots s) (el_slot_id lease) = Some sl
    \<and> map_of (cs_slots s') (el_slot_id lease) = Some sl' \<and> map_of (cs_intents s') k = Some i
    \<and> wi_state i = WorkIntentState.Queued \<and> wi_slot_id i = el_slot_id lease
    \<and> wi_mailbox_message_id i = m \<and> wi_team_run_id i = el_team_run_id lease
    \<and> (\<forall>q. queue sl' q = (if q = work_priority (el_source lease) then queue sl q @ [k] else queue sl q))
    \<and> (ss_paused sl' \<longleftrightarrow> ss_paused sl \<and> work_priority (el_source lease) \<noteq> Foreground)
    \<and> (requires_mailbox_message (el_source lease) \<longrightarrow> m \<noteq> None)
    \<and> (ec_disposition ec = EnqueueDisposition.Accepted \<longleftrightarrow>
         ss_runtime_constraint sl = Ready \<and> ss_active sl = None \<and> queued_ids sl = [])"
proof -
  let ?i = "commit_intent gen k now lease m"
  obtain sl d sn where sl: "map_of (cs_slots s) (el_slot_id lease) = Some sl"
    and s': "s' = committed_state lease m ?i s"
    and msg: "requires_mailbox_message (el_source lease) \<longrightarrow> m \<noteq> None"
    and d: "enqueue_disposition sl = Some d" "ec_disposition ec = d"
    using commit_enqueue_cases [of gen k now lease m s] res by (auto simp: Let_def)
  have p: "ss_paused (commit_slot lease m ?i sl) \<longleftrightarrow>
      ss_paused sl \<and> work_priority (el_source lease) \<noteq> Foreground"
    using resuming_sources(1) [of "el_source lease"]
    by (auto simp: commit_slot_def Let_def split: option.split)
  have "d = EnqueueDisposition.Accepted \<longleftrightarrow>
      ss_runtime_constraint sl = Ready \<and> ss_active sl = None \<and> queued_ids sl = []"
    using d(1) by (auto simp: enqueue_disposition_def split: RuntimeConstraint.splits if_splits)
  with sl msg d p show ?thesis
    by (auto simp: s' committed_state_def map_of_map_entry update_conv' commit_intent_def)
qed

theorem commit_appends_to_its_queue_witness:
  "\<exists>ec s' calls sl'. commit_enqueue ''g'' ''i1'' 6 demo_lease (Some ''m1'') demo_acquired = Some (Inr ec, s', calls)
     \<and> map_of (cs_slots s') ''lead'' = Some sl' \<and> (\<exists>q. queue sl' Foreground = q @ [''i1''])"
proof -
  have "case commit_enqueue ''g'' ''i1'' 6 demo_lease (Some ''m1'') demo_acquired of
      Some (Inr ec, _) \<Rightarrow> True | _ \<Rightarrow> False" by code_simp
  then obtain ec s' calls where
    r: "commit_enqueue ''g'' ''i1'' 6 demo_lease (Some ''m1'') demo_acquired = Some (Inr ec, s', calls)"
    by (auto split: option.splits sum.splits)
  from commit_appends_to_its_queue [OF r] obtain sl sl' where "map_of (cs_slots s') ''lead'' = Some sl'"
    and q: "\<forall>q. queue sl' q = (if q = Foreground then queue sl q @ [''i1''] else queue sl q)"
    by (auto simp: demo_lease_def)
  with r show ?thesis using q [rule_format, of Foreground] by auto
qed

section \<open>Ending work\<close>

text \<open>
  C30: Cancelling a run ends every intent of the run, drops its leases and reports a summary
  without work; an intent of another run or of none stays live if it was live, even when it
  shared a batch with the cancelled run.
\<close>

theorem cancel_run_leaves_nothing_of_the_run:
  assumes y: "team_reach gen ports p y"
  shows "\<exists>r s'. cancel_run run (sy_coord y) = Some (r, s', [ApplyWorkSummary (cr_summary r)])
    \<and> (\<forall>k i. map_of (cs_intents s') k = Some i \<and> wi_team_run_id i = Some run \<longrightarrow> intent_is_terminal (wi_state i))
    \<and> run_leases s' run = [] \<and> no_work (cr_summary r)
    \<and> (\<forall>k i. map_of (cs_intents (sy_coord y)) k = Some i \<and> wi_team_run_id i \<noteq> Some run \<longrightarrow>
         (\<exists>st. map_of (cs_intents s') k = Some (i\<lparr>wi_state := st\<rparr>)
            \<and> intent_is_terminal st = intent_is_terminal (wi_state i)))"
proof -
  note inv = team_reach_work_inv [OF y]
  obtain r s' where r: "cancel_run run (sy_coord y) = Some (r, s', [ApplyWorkSummary (run_summary_locked s' run)])"
      "cr_summary r = run_summary_locked s' run" "work_step gen (sy_coord y) s'"
      "spares run (map_of (cs_intents (sy_coord y))) (map_of (cs_intents s'))"
    and t: "\<forall>k i. map_of (cs_intents s') k = Some i \<longrightarrow> of_run run i \<longrightarrow> intent_is_terminal (wi_state i)"
    and l: "run_leases s' run = []"
    using cancel_run_step [OF inv, of run] by blast
  have "\<not> has_live_work (cr_summary r)"
    unfolding r(2) using has_live_work_iff [OF work_stepD(1) [OF r(3)], of run] t l by blast
  then have "no_work (cr_summary r)" by (simp add: no_work_def has_live_work_def)
  moreover have "\<exists>st. map_of (cs_intents s') k = Some (i\<lparr>wi_state := st\<rparr>)
      \<and> intent_is_terminal st = intent_is_terminal (wi_state i)"
    if i: "map_of (cs_intents (sy_coord y)) k = Some i" "\<not> of_run run i" for k i
  proof -
    obtain st where st: "map_of (cs_intents s') k = Some (i\<lparr>wi_state := st\<rparr>)"
      using work_stepD(2) [OF r(3)] i(1) unfolding evolves_def by blast
    with r(4) i have "intent_is_terminal (wi_state (i\<lparr>wi_state := st\<rparr>)) = intent_is_terminal (wi_state i)"
      unfolding spares_def by metis
    with st show ?thesis by auto
  qed
  ultimately show ?thesis using r t l by auto
qed

theorem cancel_run_leaves_nothing_of_the_run_witness:
  "\<exists>r s'. cancel_run ''run-1'' demo_claimed = Some (r, s', [ApplyWorkSummary (cr_summary r)])
     \<and> run_leases s' ''run-1'' = [] \<and> no_work (cr_summary r)"
  using cancel_run_leaves_nothing_of_the_run [OF demo_reach, of "''run-1''"] by auto

theorem stop_ends_the_session:
  assumes y: "team_reach gen ports p y" and res: "stop (sy_coord y) = (sus, s', calls)"
  shows "(\<forall>k i. map_of (cs_intents s') k = Some i \<longrightarrow> intent_is_terminal (wi_state i))
    \<and> cs_enqueue_leases s' = []
    \<and> (\<forall>sid sl. map_of (cs_slots s') sid = Some sl \<longrightarrow> slot_work_ids (Some sl) = []
         \<and> fst (acquire_enqueue gen port lid (rq\<lparr>rq_slot_id := sid\<rparr>) s' q) \<noteq> Inr lease
         \<and> (\<exists>d. next_work gen bid sid s' = Some (d, s', []) \<and> (\<forall>b. d \<noteq> Claim b)))
    \<and> (\<forall>su \<in> set sus. no_work su)"
proof -
  note inv = team_reach_work_inv [OF y]
  note st = stop_step [OF inv res]
  have slots: "slot_work_ids (Some sl) = []"
      "fst (acquire_enqueue gen port lid (rq\<lparr>rq_slot_id := sid\<rparr>) s' q) \<noteq> Inr lease"
      "\<exists>d. next_work gen bid sid s' = Some (d, s', []) \<and> (\<forall>b. d \<noteq> Claim b)"
    if "map_of (cs_slots s') sid = Some sl" for sid sl
    using st(4) [OF that] that
    by (auto simp: slot_work_ids_def acquire_enqueue_def Let_def slot_entry_def validate_enqueue_constraint_def
        next_work_def split: if_splits)
  have "no_work su" if "su \<in> set sus" for su
  proof -
    from that res obtain run where su: "su = run_summary_locked s' run"
      by (auto simp: stop_def Let_def)
    have "run_leases s' run = []" by (simp add: run_leases_def st(3))
    then have "\<not> has_live_work su"
      unfolding su using has_live_work_iff [OF work_stepD(1) [OF st(1)], of run] st(2) by blast
    then show ?thesis by (simp add: no_work_def has_live_work_def)
  qed
  with slots st(2,3) show ?thesis by blast
qed

theorem stop_ends_the_session_witness:
  "list_all no_work (fst (stop demo_claimed))"
proof -
  obtain sus s' calls where "stop demo_claimed = (sus, s', calls)" by (metis prod_cases3)
  with stop_ends_the_session [where port = "manager_port [] 0" and lid = "[]" and rq = demo_request
      and q = demo_manager and bid = "[]" and lease = demo_lease, OF demo_reach, simplified, OF this]
  show ?thesis by (simp add: list_all_iff)
qed

theorem removed_slot_is_empty_and_closed:
  assumes y: "team_reach gen ports p y" and res: "remove_slot sid (sy_coord y) = Some (r, s', calls)"
    and slot: "map_of (cs_slots (sy_coord y)) sid \<noteq> None"
  shows "(\<forall>k i. map_of (cs_intents s') k = Some i \<and> wi_slot_id i = sid \<longrightarrow> intent_is_terminal (wi_state i))
    \<and> slot_work_ids (map_of (cs_slots s') sid) = []
    \<and> fst (acquire_enqueue gen port lid (rq\<lparr>rq_slot_id := sid\<rparr>) s' q) = Inl (InvalidRequest (SlotRemoved sid))"
proof -
  note inv = team_reach_work_inv [OF y]
  have inv': "work_inv gen s'"
    using work_stepD(1) [OF ex_resultD(1) [OF remove_slot_inv [OF inv] res]] .
  obtain sl where sl: "map_of (cs_slots s') sid = Some ((clear_work sl)\<lparr>ss_removed := True\<rparr>)"
    using res slot by (auto simp: remove_slot_def Let_def map_of_map_entry split: bind_splits)
  then have "slot_work_ids (map_of (cs_slots s') sid) = []"
    by (simp add: slot_work_ids_def clear_work_def queued_ids_def)
  moreover from this have "\<forall>k i. map_of (cs_intents s') k = Some i \<and> wi_slot_id i = sid \<longrightarrow> intent_is_terminal (wi_state i)"
    using slot_work_ids_live(2) [OF inv' sl] live_intent_ids(2) [OF inv', of sid] sl by auto
  ultimately show ?thesis
    using sl by (simp add: acquire_enqueue_def Let_def slot_entry_def validate_enqueue_constraint_def)
qed

theorem removed_slot_is_empty_and_closed_witness:
  "\<exists>r s' calls. remove_slot ''lead'' demo_claimed = Some (r, s', calls)
     \<and> slot_work_ids (map_of (cs_slots s') ''lead'') = []"
proof -
  have "remove_slot ''lead'' demo_claimed \<noteq> None" "map_of (cs_slots demo_claimed) ''lead'' \<noteq> None" by code_simp+
  then obtain r s' calls where "remove_slot ''lead'' demo_claimed = Some (r, s', calls)"
    and "map_of (cs_slots demo_claimed) ''lead'' \<noteq> None" by auto
  with removed_slot_is_empty_and_closed [where port = "manager_port [] 0" and lid = "[]" and rq = demo_request
      and q = demo_manager, OF demo_reach, of "''lead''" r s' calls] show ?thesis by simp
qed

section \<open>Recovery from the mailbox\<close>

definition recovered :: "string \<Rightarrow> string set \<Rightarrow> intent_map \<Rightarrow> intent_map \<Rightarrow> bool" where
  "recovered sid M I I' \<longleftrightarrow>
     (\<forall>k i. I k = Some i \<longrightarrow> I' k = Some i)
     \<and> (\<forall>m \<in> M. \<exists>k i. I' k = Some i \<and> owns_message sid m i)
     \<and> (\<forall>k i. I' k = Some i \<longrightarrow> I k = Some i \<or> (\<exists>m \<in> M. wi_mailbox_message_id i = Some m))"

lemma recovered_owned:
  assumes "recovered sid M I I'" "I k = Some i" "owns_message sid m i"
  shows "recovered sid (insert m M) I I'"
proof -
  have "I' k = Some i" using assms(1,2) by (simp add: recovered_def)
  with assms show ?thesis unfolding recovered_def by blast
qed

lemma recovered_new:
  assumes r: "recovered sid M (I(k \<mapsto> i)) I'" and "I k = None" "owns_message sid m i"
  shows "recovered sid (insert m M) I I'"
proof -
  have "I' k = Some i" using r by (simp add: recovered_def)
  moreover have "I' k' = Some j" if "I k' = Some j" for k' j
  proof -
    have "k' \<noteq> k" using that assms(2) by auto
    with that have "(I(k \<mapsto> i)) k' = Some j" by simp
    with r show ?thesis unfolding recovered_def by blast
  qed
  moreover have "I k' = Some j \<or> (\<exists>m \<in> insert m M. wi_mailbox_message_id j = Some m)" if "I' k' = Some j" for k' j
  proof -
    have "(I(k \<mapsto> i)) k' = Some j \<or> (\<exists>m \<in> M. wi_mailbox_message_id j = Some m)"
      using r that unfolding recovered_def by blast
    with assms(3) show ?thesis by (auto simp: owns_message_def split: if_splits)
  qed
  ultimately show ?thesis using r assms(3) unfolding recovered_def by blast
qed

lemma recover_messages_spec:
  assumes "recover_messages gen sid role xs (s, c) = Some (s', c')"
    and "keyed (cs_intents s)"
    and "distinct (map (fst \<circ> snd) xs)" "\<And>k. k \<in> set (map (fst \<circ> snd) xs) \<Longrightarrow> map_of (cs_intents s) k = None"
  shows "recovered sid (fst ` set xs) (map_of (cs_intents s)) (map_of (cs_intents s'))"
  using assms
proof (induction xs arbitrary: s c)
  case Nil
  then show ?case by (simp add: recovered_def)
next
  case (Cons x xs)
  obtain msg k now where x: "x = (msg, k, now)" by (metis prod_cases3)
  show ?case
  proof (cases "\<exists>i \<in> set (map snd (cs_intents s)). owns_message sid msg i")
    case True
    then obtain k0 i0 where own: "map_of (cs_intents s) k0 = Some i0" "owns_message sid msg i0"
      unfolding ex_value_iff [OF Cons.prems(2)] by blast
    from True have "recover_messages gen sid role xs (s, c) = Some (s', c')" using Cons.prems(1) x by simp
    from recovered_owned [OF Cons.IH [OF this Cons.prems(2)] own] Cons.prems(3,4) x show ?thesis by simp
  next
    case False
    let ?i = "recovery_intent gen k now sid role msg"
    let ?s = "upd_slot sid (\<lambda>sl. sl\<lparr>ss_background := ss_background sl @ [k]\<rparr>)
       (s\<lparr>cs_intents := AList.update k ?i (cs_intents s)\<rparr>)"
    have "recover_messages gen sid role xs (?s, c @ [k]) = Some (s', c')"
      using Cons.prems(1) x False by (auto split: option.splits)
    moreover have "map_of (cs_intents ?s) k' = None" if "k' \<in> set (map (fst \<circ> snd) xs)" for k'
      using that Cons.prems(3,4) x by (auto simp: update_conv')
    ultimately have "recovered sid (fst ` set xs) (map_of (cs_intents ?s)) (map_of (cs_intents s'))"
      using Cons.prems(2,3) by (intro Cons.IH [of ?s "c @ [k]"]) auto
    then have "recovered sid (fst ` set xs) ((map_of (cs_intents s))(k \<mapsto> ?i)) (map_of (cs_intents s'))"
      by (simp add: update_conv' fun_upd_def)
    moreover have "map_of (cs_intents s) k = None" "owns_message sid msg ?i"
      using Cons.prems(4) x by (simp_all add: owns_message_def recovery_intent_def)
    ultimately show ?thesis using x recovered_new by fastforce
  qed
qed

lemma cleared_state_queued:
  assumes inv: "work_inv gen s"
    and k: "map_of (cs_intents (cleared_state sid unread role s)) k = Some i" "wi_slot_id i = sid"
      "wi_state i = WorkIntentState.Queued" "wi_mailbox_message_id i = Some m"
  shows "m \<in> set unread"
proof (rule ccontr)
  assume m: "m \<notin> set unread"
  let ?sl = "(slot_entry role sid s)\<lparr>ss_role := role, ss_known_unread_message_ids := set unread\<rparr>"
  have c: "map_of (cs_intents (cleared_state sid unread role s)) =
      upd_state (map_of (cs_intents s)) (set (stale_ids unread ?sl s)) WorkIntentState.Completed"
    by (simp add: cleared_state_def Let_def map_of_set_states)
  with k have k': "k \<notin> set (stale_ids unread ?sl s)" "map_of (cs_intents s) k = Some i"
    by (auto simp: upd_state_def split: if_splits)
  then have "k \<in> set (queue (slot_entry Teammate sid s) (wi_priority i))"
    using slot_invD(2) [OF work_invD(6) [OF inv, of sid], of "wi_priority i"] k by (auto simp: queued_in_def)
  then have "k \<in> set (queued_ids ?sl)" by (auto simp: mem_queued_ids)
  with k' k(4) m show False by (simp add: stale_ids_def keeps_intent_def)
qed

theorem reconcile_covers_exactly_the_unread:
  assumes y: "team_reach gen ports p y"
    and fresh: "\<forall>n < length unread. map_of (cs_intents (sy_coord y)) (ids n) = None"
      "inj_on ids {..< length unread}"
    and res: "reconcile_mailbox gen ids nows sid unread role (sy_coord y) = Some (r, s')"
  shows "(\<forall>m \<in> set unread. \<exists>k i. map_of (cs_intents s') k = Some i \<and> owns_message sid m i)
    \<and> (\<forall>k i m. map_of (cs_intents s') k = Some i \<and> wi_slot_id i = sid
         \<and> wi_state i = WorkIntentState.Queued \<and> wi_mailbox_message_id i = Some m \<longrightarrow> m \<in> set unread)"
proof -
  let ?s = "cleared_state sid unread role (sy_coord y)"
  let ?xs = "zip unread (map (\<lambda>n. (ids n, nows n)) [0..<length unread])"
  note inv = team_reach_work_inv [OF y]
  have xs: "map (fst \<circ> snd) ?xs = map ids [0..<length unread]" "fst ` set ?xs = set unread"
    by (simp flip: map_map, simp add: comp_def) (simp flip: set_map)
  obtain c where rec: "recover_messages gen sid role ?xs (?s, []) = Some (s', c)"
    using res by (auto simp: reconcile_mailbox_eq Let_def split: option.splits)
  have "distinct (map (fst \<circ> snd) ?xs)" unfolding xs
    using fresh(2) by (simp add: distinct_map lessThan_atLeast0 [symmetric])
  moreover have "map_of (cs_intents ?s) k = None" if "k \<in> set (map (fst \<circ> snd) ?xs)" for k
    using that fresh(1) unfolding xs by (auto simp: cleared_state_def Let_def map_of_set_states)
  ultimately have r: "recovered sid (set unread) (map_of (cs_intents ?s)) (map_of (cs_intents s'))"
    using recover_messages_spec [OF rec work_invD(2) [OF work_stepD(1) [OF cleared_state_inv [OF inv]]]]
    unfolding xs(2) by blast
  moreover have "m \<in> set unread"
    if "map_of (cs_intents s') k = Some i" "wi_slot_id i = sid" "wi_state i = WorkIntentState.Queued"
      "wi_mailbox_message_id i = Some m" for k i m
  proof (cases "map_of (cs_intents ?s) k = Some i")
    case True
    from cleared_state_queued [OF inv this that(2-4)] show ?thesis .
  next
    case False
    with r that(1) have "\<exists>m \<in> set unread. wi_mailbox_message_id i = Some m"
      unfolding recovered_def by blast
    with that(4) show ?thesis by simp
  qed
  ultimately show ?thesis unfolding recovered_def by blast
qed

theorem reconcile_covers_exactly_the_unread_witness:
  "\<exists>r s' k i. reconcile_mailbox ''g'' (\<lambda>n. replicate n CHR ''x'') (\<lambda>n. 0) ''lead'' [''m1'', ''m2''] Lead demo_claimed = Some (r, s')
     \<and> map_of (cs_intents s') k = Some i \<and> owns_message ''lead'' ''m2'' i"
proof -
  have "reconcile_mailbox ''g'' (\<lambda>n. replicate n CHR ''x'') (\<lambda>n. 0) ''lead'' [''m1'', ''m2''] Lead demo_claimed \<noteq> None"
    by code_simp
  then obtain r s' where r: "reconcile_mailbox ''g'' (\<lambda>n. replicate n CHR ''x'') (\<lambda>n. 0) ''lead''
      [''m1'', ''m2''] Lead demo_claimed = Some (r, s')" by auto
  have "map_of (cs_intents demo_claimed) (replicate 0 CHR ''x'') = None"
    "map_of (cs_intents demo_claimed) (replicate 1 CHR ''x'') = None" by code_simp+
  then have "\<forall>n < length [''m1'', ''m2'']. map_of (cs_intents (sy_coord demo_sys)) (replicate n CHR ''x'') = None"
    by (auto simp: less_Suc_eq)
  moreover have "inj_on (\<lambda>n. replicate n CHR ''x'') {..< length [''m1'', ''m2'']}"
    by (rule inj_onI) (metis length_replicate)
  ultimately show ?thesis
    using reconcile_covers_exactly_the_unread [OF demo_reach, of "[''m1'', ''m2'']"] r by fastforce
qed

theorem runtime_failure_ends_run_work:
  assumes y: "team_reach gen ports p y"
    and res: "set_runtime_constraint sid (RuntimeConstraint.Failed n cl) (sy_coord y) = Some (r, s', calls)"
    and i: "map_of (cs_intents (sy_coord y)) k = Some i"
  shows "map_of (cs_intents s') k = Some
    (if wi_slot_id i = sid \<and> \<not> intent_is_terminal (wi_state i)
     then i\<lparr>wi_state := (if wi_team_run_id i = None then WorkIntentState.Queued else WorkIntentState.Failed cl)\<rparr>
     else i)"
proof -
  let ?c = "RuntimeConstraint.Failed n cl"
  let ?sl = "(slot_entry Teammate sid (sy_coord y))\<lparr>ss_runtime_constraint := ?c\<rparr>"
  let ?s1 = "put_slot sid ?sl (sy_coord y)"
  note inv = team_reach_work_inv [OF y]
  have 1: "work_inv gen ?s1" using inv by (rule work_inv_put_same) simp_all
  have sl: "map_of (cs_slots ?s1) sid = Some ?sl" by (simp add: update_conv')
  from end_constrained_work_inv [OF 1 sl, of ?c cl] res
  have "map_of (cs_intents s') = split_state (map_of (cs_intents (sy_coord y)))
      (\<lambda>i. wi_team_run_id i \<noteq> None) (set (live_intent_ids sid (sy_coord y))) (WorkIntentState.Failed cl)"
    by (auto simp: set_runtime_constraint_def Let_def live_intent_ids_def split: bind_splits)
  moreover have "k \<in> set (live_intent_ids sid (sy_coord y)) \<longleftrightarrow>
      wi_slot_id i = sid \<and> \<not> intent_is_terminal (wi_state i)"
    using live_intent_ids(2) [OF inv] i by auto
  ultimately show ?thesis using i by (simp add: split_state_apply)
qed

theorem runtime_failure_ends_run_work_witness:
  "\<exists>r s' calls i. set_runtime_constraint ''lead'' (RuntimeConstraint.Failed 3 ''crash'') demo_claimed = Some (r, s', calls)
     \<and> map_of (cs_intents s') ''i1'' = Some (i\<lparr>wi_state := WorkIntentState.Failed ''crash''\<rparr>)"
proof -
  have "set_runtime_constraint ''lead'' (RuntimeConstraint.Failed 3 ''crash'') demo_claimed \<noteq> None" by code_simp
  then obtain r s' calls where
    r: "set_runtime_constraint ''lead'' (RuntimeConstraint.Failed 3 ''crash'') demo_claimed = Some (r, s', calls)"
    by auto
  have "case map_of (cs_intents demo_claimed) ''i1'' of None \<Rightarrow> False | Some i \<Rightarrow>
      wi_slot_id i = ''lead'' \<and> \<not> intent_is_terminal (wi_state i) \<and> wi_team_run_id i \<noteq> None" by code_simp
  then obtain i where "map_of (cs_intents demo_claimed) ''i1'' = Some i"
    "wi_slot_id i = ''lead''" "\<not> intent_is_terminal (wi_state i)" "wi_team_run_id i \<noteq> None"
    by (auto split: option.splits)
  with runtime_failure_ends_run_work [OF demo_reach, simplified, OF r] r show ?thesis by fastforce
qed

lemma mem_map_filter: "y \<in> set (List.map_filter f xs) \<longleftrightarrow> (\<exists>x \<in> set xs. f x = Some y)"
  by (induction xs) (auto simp: List.map_filter_simps split: option.split)

theorem snapshot_reports_live_runs:
  assumes y: "team_reach gen ports p y"
  shows "co_active_run_summary (snapshot gen (sy_coord y)) = None \<longleftrightarrow>
    (\<forall>k i. map_of (cs_intents (sy_coord y)) k = Some i \<and> wi_team_run_id i \<noteq> None \<longrightarrow> intent_is_terminal (wi_state i))
    \<and> (\<forall>k r. map_of (cs_enqueue_leases (sy_coord y)) k = Some r \<longrightarrow> el_team_run_id (lr_lease r) = None)"
    (is "?none \<longleftrightarrow> ?quiet")
proof -
  let ?s = "sy_coord y"
  note inv = team_reach_work_inv [OF y]
  have runs: "run \<in> set (all_run_ids ?s) \<longleftrightarrow> (\<exists>k i. map_of (cs_intents ?s) k = Some i \<and> of_run run i)
      \<or> (\<exists>k r. map_of (cs_enqueue_leases ?s) k = Some r \<and> el_team_run_id (lr_lease r) = Some run)" for run
    unfolding all_run_ids_def set_btree_set set_append Un_iff mem_map_filter
      ex_value_iff [OF work_invD(2) [OF inv]] ex_value_iff [OF work_invD(3) [OF inv]] by simp
  have leases: "run_leases ?s run = [] \<longleftrightarrow>
      (\<forall>k r. map_of (cs_enqueue_leases ?s) k = Some r \<longrightarrow> el_team_run_id (lr_lease r) \<noteq> Some run)" for run
    using filter_values_Nil_iff [OF work_invD(3) [OF inv], of "\<lambda>r. el_team_run_id (lr_lease r) = Some run"]
    by (simp add: run_leases_def filter_map comp_def)
  have "?none \<longleftrightarrow> (\<forall>run \<in> set (all_run_ids ?s). \<not> has_live_work (run_summary_locked ?s run))"
    by (auto simp: snapshot_def find_None_iff)
  also have "\<dots> \<longleftrightarrow> ?quiet"
  proof
    assume L: "\<forall>run \<in> set (all_run_ids ?s). \<not> has_live_work (run_summary_locked ?s run)"
    have "intent_is_terminal (wi_state i)" if "map_of (cs_intents ?s) k = Some i" "of_run run i" for k i run
      using that L runs has_live_work_iff [OF inv, of run] by blast
    moreover have "el_team_run_id (lr_lease r) \<noteq> Some run" if "map_of (cs_enqueue_leases ?s) k = Some r" for k r run
      using that L runs leases has_live_work_iff [OF inv, of run] by blast
    ultimately show ?quiet by (metis not_Some_eq)
  next
    assume Q: ?quiet
    show "\<forall>run \<in> set (all_run_ids ?s). \<not> has_live_work (run_summary_locked ?s run)"
      unfolding has_live_work_iff [OF inv] leases using Q by fastforce
  qed
  finally show ?thesis .
qed

theorem snapshot_reports_live_runs_witness:
  "co_active_run_summary (snapshot ''g'' demo_claimed) \<noteq> None"
proof -
  have "case map_of (cs_intents demo_claimed) ''i1'' of None \<Rightarrow> False | Some i \<Rightarrow>
      \<not> intent_is_terminal (wi_state i) \<and> wi_team_run_id i \<noteq> None" by code_simp
  then obtain i where "map_of (cs_intents demo_claimed) ''i1'' = Some i \<and> wi_team_run_id i \<noteq> None"
    "\<not> intent_is_terminal (wi_state i)" by (auto split: option.splits)
  with snapshot_reports_live_runs [OF demo_reach] show ?thesis unfolding demo_sys_simps by blast
qed

definition reorder_intent :: "string \<Rightarrow> WorkIntent" where
  "reorder_intent k = recovery_intent ''g'' k 0 ''lead'' Lead k"

definition reorder_state :: "string list \<Rightarrow> CoordinatorState" where
  "reorder_state hash_order = new_coordinator_state\<lparr>
     cs_slots := [(''lead'', (new_slot_state Lead)\<lparr>ss_runtime_constraint := Ready, ss_background := [''a'', ''b'']\<rparr>)],
     cs_intents := map (\<lambda>k. (k, reorder_intent k)) hash_order\<rparr>"

theorem failed_runtime_requeues_in_hash_order:
  "map_of (cs_intents (reorder_state [''a'', ''b''])) = map_of (cs_intents (reorder_state [''b'', ''a'']))
   \<and> cs_slots (reorder_state [''a'', ''b'']) = cs_slots (reorder_state [''b'', ''a''])
   \<and> map_option (\<lambda>(_, s, _). map_option ss_background (map_of (cs_slots s) ''lead''))
       (set_runtime_constraint ''lead'' (RuntimeConstraint.Failed 1 ''crash'') (reorder_state [''b'', ''a'']))
       = Some (Some [''b'', ''a''])"
proof (intro conjI)
  show "map_of (cs_intents (reorder_state [''a'', ''b''])) = map_of (cs_intents (reorder_state [''b'', ''a'']))"
    by (auto simp: reorder_state_def fun_eq_iff)
  show "cs_slots (reorder_state [''a'', ''b'']) = cs_slots (reorder_state [''b'', ''a''])"
    by (simp add: reorder_state_def)
  show "map_option (\<lambda>(_, s, _). map_option ss_background (map_of (cs_slots s) ''lead''))
       (set_runtime_constraint ''lead'' (RuntimeConstraint.Failed 1 ''crash'') (reorder_state [''b'', ''a'']))
       = Some (Some [''b'', ''a''])" by code_simp
qed

end
