(* ===== verification/Team_Run_Props.thy ===== *)
theory Team_Run_Props
  imports Team_Work_Props
begin

text \<open>
  The coordinator and the run manager together: cancelling a team run, and where
  the status of a run does not agree with its work.
\<close>

section \<open>Cancelling a run\<close>

lemma failed_count_zero_iff:
  assumes "work_inv gen s"
  shows "su_failed_intent_count (run_summary_locked s run) = 0 \<longleftrightarrow>
    (\<forall>k i. map_of (cs_intents s) k = Some i \<and> wi_team_run_id i = Some run \<longrightarrow> \<not> is_failed_state (wi_state i))"
  using associated_iff [OF assms, of _ run] by (auto simp: run_summary_locked_def Let_def filter_empty_conv)

lemma cancel_run_summary:
  assumes inv: "work_inv gen s"
    and ok: "\<And>k i. map_of (cs_intents s) k = Some i \<Longrightarrow> wi_team_run_id i = Some run \<Longrightarrow> \<not> is_failed_state (wi_state i)"
  shows "\<exists>r s' su. cancel_run run s = Some (r, s', [ApplyWorkSummary su])
     \<and> su_team_run_id su = run \<and> no_work su \<and> su_failed_intent_count su = 0"
proof -
  obtain r s' where r: "cancel_run run s = Some (r, s', [ApplyWorkSummary (run_summary_locked s' run)])"
      "work_step gen s s'" "spares run (map_of (cs_intents s)) (map_of (cs_intents s'))"
    and t: "\<forall>k i. map_of (cs_intents s') k = Some i \<longrightarrow> of_run run i \<longrightarrow> intent_is_terminal (wi_state i)"
    and l: "run_leases s' run = []"
    using cancel_run_step [OF inv, of run] by blast
  have "\<not> has_live_work (run_summary_locked s' run)"
    using has_live_work_iff [OF work_stepD(1) [OF r(2)], of run] t l by blast
  then have "no_work (run_summary_locked s' run)" by (simp add: no_work_def has_live_work_def)
  moreover have "su_failed_intent_count (run_summary_locked s' run) = 0"
    unfolding failed_count_zero_iff [OF work_stepD(1) [OF r(2)]]
  proof (intro allI impI, elim conjE)
    fix k i' assume i': "map_of (cs_intents s') k = Some i'" "of_run run i'"
    show "\<not> is_failed_state (wi_state i')"
    proof (cases "map_of (cs_intents s) k")
      case None
      with i' r(3) show ?thesis by (simp add: spares_def)
    next
      case (Some i)
      then obtain st where "map_of (cs_intents s') k = Some (set_state st i)"
        using work_stepD(2) [OF r(2)] unfolding evolves_def by blast
      with i' have run: "of_run run i" by auto
      with r(3) Some i'(1) have "wi_state i' = wi_state i \<or> wi_state i' = run_cancelled"
        unfolding spares_def by metis
      with ok [OF Some run] show ?thesis by (auto simp: is_failed_state_def)
    qed
  qed
  ultimately show ?thesis using r(1) by (auto simp: run_summary_locked_def Let_def)
qed

theorem session_cancel_ends_in_cancelled:
  assumes y: "team_reach gen ports p y"
    and active: "active_run mgr = Some run"
    and ok: "\<forall>k i. map_of (cs_intents (sy_coord y)) k = Some i \<and> wi_team_run_id i = Some (tr_team_run_id run)
      \<longrightarrow> \<not> is_failed_state (wi_state i)"
  shows "\<exists>r s' mgr' run' payload. session_cancel_run now (tr_team_run_id run) reason (sy_coord y) mgr = Some (Inr r, s', mgr')
    \<and> mg_run mgr' = Some run' \<and> tr_status run' = TeamRunStatus.Cancelled \<and> tr_cancel_reason run' = reason
    \<and> current_active_run_id mgr' = None
    \<and> last (mg_events mgr') = TeamRun (if tr_accepted_emitted run then TEAM_RUN_CANCELLED_EVENT
         else TEAM_RUN_ACCEPTED_EVENT) payload"
proof -
  obtain r s' su where c: "cancel_run (tr_team_run_id run) (sy_coord y) = Some (r, s', [ApplyWorkSummary su])"
    and su: "su_team_run_id su = tr_team_run_id run" "no_work su" "su_failed_intent_count su = 0"
    using cancel_run_summary [OF team_reach_work_inv [OF y], of "tr_team_run_id run"] ok by blast
  have m: "mg_run mgr = Some run" "run_is_active run" using active_run_SomeD [OF active] by auto
  let ?run1 = "run\<lparr>tr_status := Cancelling, tr_cancel_reason := reason\<rparr>"
  obtain mgr1 where b: "begin_cancel now (tr_team_run_id run) reason mgr = (Inr (), mgr1)"
    and m1: "mg_run mgr1 = Some ?run1"
    using m by (cases "tr_summary run") (auto simp: begin_cancel_def Let_def broadcast_team_run_def)
  have "session_cancel_run now (tr_team_run_id run) reason (sy_coord y) mgr =
      Some (Inr r, s', apply_work_summary now su mgr1)"
    using active b c by (simp add: session_cancel_run_def current_active_run_id_def run_port_calls_def manager_port_def)
  moreover have "\<exists>run' payload. mg_run (apply_work_summary now su mgr1) = Some run'
      \<and> tr_status run' = TeamRunStatus.Cancelled \<and> tr_cancel_reason run' = reason
      \<and> last (mg_events (apply_work_summary now su mgr1)) = TeamRun (if tr_accepted_emitted run
          then TEAM_RUN_CANCELLED_EVENT else TEAM_RUN_ACCEPTED_EVENT) payload"
    using m1 su by (auto simp: apply_work_summary_def summary_run_def broadcast_team_run_def Let_def transition_event_def)
  ultimately show ?thesis
    by (fastforce simp: current_active_run_id_def active_run_def run_is_active_def)
qed

theorem session_cancel_ends_in_cancelled_witness:
  "\<exists>r s' mgr' run'. session_cancel_run 9 ''run-1'' None demo_claimed demo_manager = Some (Inr r, s', mgr')
     \<and> mg_run mgr' = Some run' \<and> tr_status run' = TeamRunStatus.Cancelled"
proof -
  have "case active_run demo_manager of None \<Rightarrow> False | Some run \<Rightarrow> tr_team_run_id run = ''run-1''" by code_simp
  then obtain run where run: "active_run demo_manager = Some run" "tr_team_run_id run = ''run-1''"
    by (auto split: option.splits)
  have "\<forall>(k, i) \<in> set (cs_intents demo_claimed). \<not> is_failed_state (wi_state i)" by code_simp
  then have "\<forall>k i. map_of (cs_intents demo_claimed) k = Some i \<longrightarrow> \<not> is_failed_state (wi_state i)"
    by (auto dest: map_of_SomeD)
  then have "\<forall>k i. map_of (cs_intents (sy_coord demo_sys)) k = Some i \<and> wi_team_run_id i = Some (tr_team_run_id run)
      \<longrightarrow> \<not> is_failed_state (wi_state i)" unfolding demo_sys_simps by blast
  from session_cancel_ends_in_cancelled [OF demo_reach run(1) this, of 9 None] run(2) show ?thesis by auto
qed

section \<open>Where the status of a run goes wrong\<close>

theorem running_summary_undoes_cancelling:
  assumes "mg_run mgr = Some run" "tr_status run = Cancelling" "tr_accepted_emitted run"
    and "su_team_run_id late = tr_team_run_id run" "su_failed_intent_count late = 0" "su_running_batch_count late > 0"
    and "su_team_run_id final = tr_team_run_id run" "su_failed_intent_count final = 0" "no_work final"
  shows "\<exists>run' payload. let mgr' = apply_work_summary t2 final (apply_work_summary t1 late mgr) in
    mg_run mgr' = Some run' \<and> tr_status run' = TeamRunStatus.Completed
    \<and> last (mg_events mgr') = TeamRun TEAM_RUN_COMPLETED_EVENT payload"
  using assms
  by (auto simp: apply_work_summary_def summary_run_def broadcast_team_run_def Let_def transition_event_def no_work_def)

definition cancelling_manager :: TeamRunManager where
  "cancelling_manager = (new_manager ''t'')\<lparr>mg_run := Some ((new_run ''r'' TeamRunSource.UserMessage ''s'' Lead)
     \<lparr>tr_status := Cancelling, tr_accepted_emitted := True\<rparr>)\<rparr>"

theorem running_summary_undoes_cancelling_witness:
  "\<exists>run'. mg_run (apply_work_summary 2 (empty_summary ''r'')
      (apply_work_summary 1 ((empty_summary ''r'')\<lparr>su_running_batch_count := 1\<rparr>) cancelling_manager)) = Some run'
     \<and> tr_status run' = TeamRunStatus.Completed"
  using running_summary_undoes_cancelling [of cancelling_manager
      "(new_run ''r'' TeamRunSource.UserMessage ''s'' Lead)\<lparr>tr_status := Cancelling, tr_accepted_emitted := True\<rparr>"
      "(empty_summary ''r'')\<lparr>su_running_batch_count := 1\<rparr>" "empty_summary ''r''" 2 1]
  by (auto simp: cancelling_manager_def new_run_def empty_summary_def no_work_def Let_def)

definition demo_reported :: TeamRunManager where
  "demo_reported = run_port_calls (manager_port [] 7)
     (snd (snd (the (commit_enqueue ''g'' ''i1'' 6 demo_lease (Some ''m1'') demo_acquired)))) demo_manager"

definition run_status :: "TeamRunManager \<Rightarrow> TeamRunStatus option" where
  "run_status mgr = map_option tr_status (mg_run mgr)"

text \<open>After a stop the summary of a run shows no work, and failed work only if there was some before.\<close>

lemma stopped_summary:
  assumes inv: "work_inv gen s" and res: "stop s = (r, s', calls)"
    and ok: "\<And>k i. map_of (cs_intents s) k = Some i \<Longrightarrow> wi_team_run_id i = Some run \<Longrightarrow> \<not> is_failed_state (wi_state i)"
  shows "no_work (run_summary_locked s' run)" "su_failed_intent_count (run_summary_locked s' run) = 0"
proof -
  note st = stop_step [OF inv res]
  note inv' = work_stepD(1) [OF st(1)]
  have "run_leases s' run = []" using st(3) by (simp add: run_leases_def)
  then show "no_work (run_summary_locked s' run)"
    using has_live_work_iff [OF inv', of run] st(2) by (auto simp: no_work_def has_live_work_def)
  let ?g = "\<lambda>i. if intent_is_terminal (wi_state i) then i else set_state (WorkIntentState.Cancelled ''session_stopped'') i"
  have "cs_intents s' = map (\<lambda>(k, i). (k, ?g i)) (cs_intents s)" using res by (auto simp: stop_def Let_def)
  then have "map_of (cs_intents s') k = map_option ?g (map_of (cs_intents s) k)" for k
    by (simp add: map_of_map_values [of "\<lambda>_. ?g"])
  then show "su_failed_intent_count (run_summary_locked s' run) = 0"
    unfolding failed_count_zero_iff [OF inv'] using ok by (auto simp: is_failed_state_def split: if_splits)
qed

text \<open>Summaries without work and failures leave a run completed that is not being cancelled.\<close>

lemma summaries_complete:
  assumes "\<And>su. su \<in> set sus \<Longrightarrow> su_team_run_id su = run_id \<Longrightarrow> no_work su \<and> su_failed_intent_count su = 0"
    and "mg_run mgr = Some run" "tr_team_run_id run = run_id" "tr_status run \<noteq> Cancelling" "tr_accepted_emitted run"
    and "tr_status run \<noteq> TeamRunStatus.Completed \<Longrightarrow> \<exists>su \<in> set sus. su_team_run_id su = run_id"
  shows "run_status (run_port_calls (manager_port rid now) (map ApplyWorkSummary sus) mgr) = Some TeamRunStatus.Completed
    \<and> (\<exists>news. mg_events (run_port_calls (manager_port rid now) (map ApplyWorkSummary sus) mgr) = mg_events mgr @ news
        \<and> (tr_status run \<noteq> TeamRunStatus.Completed \<longrightarrow> (\<exists>payload. TeamRun TEAM_RUN_COMPLETED_EVENT payload \<in> set news)))"
  using assms
proof (induction sus arbitrary: mgr run)
  case Nil
  then show ?case by (auto simp: run_port_calls_def run_status_def)
next
  case (Cons su sus)
  show ?case
  proof (cases "su_team_run_id su = run_id")
    case False
    then have "apply_work_summary now su mgr = mgr" using Cons.prems by (simp add: apply_work_summary_def)
    then show ?thesis using Cons.IH [of mgr run] Cons.prems False by (auto simp: run_port_calls_def manager_port_def)
  next
    case True
    let ?run = "run\<lparr>tr_summary := Some su, tr_status := TeamRunStatus.Completed, tr_completed_at_ms := Some now\<rparr>"
    let ?mgr = "apply_work_summary now su mgr"
    have "no_work su" "su_failed_intent_count su = 0" using Cons.prems(1) True by auto
    then have mgr': "mg_run ?mgr = Some ?run" "\<exists>payload. mg_events ?mgr = mg_events mgr @
        [TeamRun (transition_event (tr_status run) TeamRunStatus.Completed) payload]"
      using Cons.prems True by (auto simp: apply_work_summary_def summary_run_def broadcast_team_run_def Let_def)
    have "tr_team_run_id ?run = run_id" "tr_status ?run = TeamRunStatus.Completed" "tr_accepted_emitted ?run"
      using Cons.prems by simp_all
    from Cons.IH [OF _ mgr'(1) this(1) _ this(3)] Cons.prems(1) mgr'(2) show ?thesis
      by (auto simp: run_port_calls_def manager_port_def transition_event_def)
  qed
qed

text \<open>
  C34: In every reachable state, when the manager's run is Cancelled and was announced, the
  coordinator still knows an intent of it and none of its intents has failed, then stopping
  the session reports the run as completed: stop publishes a summary of every run it knows,
  and once they are applied the status is Completed and a completion event was broadcast.
\<close>

theorem stop_reports_a_cancelled_run_as_completed:
  assumes y: "team_reach gen ports p y" and stop: "stop (sy_coord y) = (sus, s', calls)"
    and run: "mg_run mgr = Some run" "tr_status run = TeamRunStatus.Cancelled" "tr_accepted_emitted run"
    and known: "map_of (cs_intents (sy_coord y)) k = Some i" "wi_team_run_id i = Some (tr_team_run_id run)"
    and ok: "\<forall>k i. map_of (cs_intents (sy_coord y)) k = Some i \<and> wi_team_run_id i = Some (tr_team_run_id run)
      \<longrightarrow> \<not> is_failed_state (wi_state i)"
  shows "run_status (run_port_calls (manager_port rid now) calls mgr) = Some TeamRunStatus.Completed
    \<and> (\<exists>payload news. mg_events (run_port_calls (manager_port rid now) calls mgr) = mg_events mgr @ news
         \<and> TeamRun TEAM_RUN_COMPLETED_EVENT payload \<in> set news)"
proof -
  let ?s = "sy_coord y" and ?id = "tr_team_run_id run"
  have sus: "sus = map (run_summary_locked s') (all_run_ids ?s)" "calls = map ApplyWorkSummary sus"
    using stop by (auto simp: stop_def Let_def publish_run_summaries_def)
  have sum: "su_team_run_id (run_summary_locked s' r) = r" for r by (simp add: run_summary_locked_def Let_def)
  have "no_work su \<and> su_failed_intent_count su = 0" if "su \<in> set sus" "su_team_run_id su = ?id" for su
    using that sum stopped_summary [OF team_reach_work_inv [OF y] stop, of ?id] ok by (auto simp: sus(1))
  moreover have "?id \<in> set (all_run_ids ?s)"
    unfolding all_run_ids_def set_btree_set set_append Un_iff mem_map_filter using known map_of_SomeD [OF known(1)] by force
  then have "\<exists>su \<in> set sus. su_team_run_id su = ?id" using sum by (auto simp: sus(1))
  ultimately show ?thesis
    using summaries_complete [of sus ?id mgr run rid now] run by (auto simp: sus(2))
qed

theorem stop_reports_a_cancelled_run_as_completed_witness:
  "case session_cancel_run 9 ''run-1'' None demo_claimed demo_reported of
     Some (Inr _, s, mgr) \<Rightarrow> run_status mgr = Some TeamRunStatus.Cancelled
       \<and> run_status (run_port_calls (manager_port [] 10) (snd (snd (stop s))) mgr) = Some TeamRunStatus.Completed
   | _ \<Rightarrow> False"
proof -
  let ?x = "session_cancel_run 9 ''run-1'' None demo_claimed demo_reported"
  have c: "case ?x of Some (Inr _, s, mgr) \<Rightarrow>
      (case mg_run mgr of Some run \<Rightarrow> tr_status run = TeamRunStatus.Cancelled \<and> tr_accepted_emitted run \<and> tr_team_run_id run = ''run-1'' | None \<Rightarrow> False)
      \<and> map_option wi_team_run_id (map_of (cs_intents s) ''i1'') = Some (Some ''run-1'')
      \<and> list_all (\<lambda>(k, i). \<not> is_failed_state (wi_state i)) (cs_intents s) | _ \<Rightarrow> False"
    by code_simp
  obtain r s mgr where x: "?x = Some (Inr r, s, mgr)"
  proof (cases ?x)
    case (Some y)
    obtain res s mgr where "y = (res, s, mgr)" by (cases y)
    with Some c that show thesis by (cases res) auto
  qed (use c in simp)
  obtain run i where run: "mg_run mgr = Some run" "tr_status run = TeamRunStatus.Cancelled" "tr_accepted_emitted run" "tr_team_run_id run = ''run-1''"
    and i: "map_of (cs_intents s) ''i1'' = Some i" "wi_team_run_id i = Some ''run-1''"
    and ok: "list_all (\<lambda>(k, i). \<not> is_failed_state (wi_state i)) (cs_intents s)"
    using c unfolding x by (auto split: option.splits)
  have failed: "\<forall>k i. map_of (cs_intents s) k = Some i \<longrightarrow> \<not> is_failed_state (wi_state i)"
    using ok by (fastforce simp: list_all_iff dest: map_of_SomeD)
  obtain calls where "cancel_run ''run-1'' demo_claimed = Some (r, s, calls)"
    using x by (auto simp: session_cancel_run_def split: if_splits sum.splits option.splits prod.splits)
  then have reach: "team_reach ''g'' manager_ports (new_manager ''team'') (commit_to s calls demo_sys)"
    using reach_step [OF demo_reach team_step.cancel_run [of "''run-1''" demo_sys r s calls]] by simp
  obtain sus s' calls' where stop: "stop s = (sus, s', calls')" by (cases "stop s")
  have "run_status (run_port_calls (manager_port [] 10) calls' mgr) = Some TeamRunStatus.Completed"
    using stop_reports_a_cancelled_run_as_completed [OF reach, of sus s' calls' mgr run "''i1''" i "[]" 10] stop run i failed by auto
  then show ?thesis using x run stop by (simp add: run_status_def)
qed

definition demo_started :: CoordinatorState where
  "demo_started = fst (snd (mark_started ''g'' 8 demo_batch ''turn-1'' demo_claimed))"

definition demo_running_manager :: TeamRunManager where
  "demo_running_manager = run_port_calls (manager_port [] 8)
     (snd (snd (mark_started ''g'' 8 demo_batch ''turn-1'' demo_claimed))) demo_reported"

theorem late_summary_completes_a_run_with_queued_work:
  "case complete_batch ''g'' demo_batch demo_started of None \<Rightarrow> False
   | Some (_, s1, calls1) \<Rightarrow>
       (case acquire_enqueue ''g'' (manager_port ''run-2'' 9) ''lease-2'' demo_request s1 demo_running_manager of
          (Inl _, _) \<Rightarrow> False
        | (Inr lease, s2, mgr) \<Rightarrow>
            (case commit_enqueue ''g'' ''i2'' 9 lease (Some ''m2'') s2 of None \<Rightarrow> False
             | Some (_, s3, calls3) \<Rightarrow>
                 run_status (run_port_calls (manager_port [] 10) (calls3 @ calls1) mgr) = Some TeamRunStatus.Completed
                 \<and> el_team_run_id lease = Some ''run-1'' \<and> su_queued_intent_count (run_summary_locked s3 ''run-1'') = 1
                 \<and> run_status (run_port_calls (manager_port [] 10) (calls1 @ calls3) mgr) = Some TeamRunStatus.Completed))"
  by code_simp

end
