(* ===== verification/Extension_Dependency.thy ===== *)
theory Extension_Dependency
  imports Core_Prelude
begin

text \<open>
  The dependency checks of the extension registry
  (\<open>crates/tjuaeui-extension/src/dependency.rs\<close>): missing and mismatched dependencies, the load
  order by Kahn's algorithm, and the depth-first search that reports cycles.

  A manifest is modelled by the fields this module reads; \<open>em_rest\<close> and \<open>le_rest\<close> stand for the
  others. The keys of a \<open>HashMap\<close> or \<open>HashSet\<close> are listed in an arbitrary order where the code
  sorts them afterwards. The \<open>semver\<close> crate is a parameter: its two parsers and its matching.
  A panic (the \<open>expect\<close> on a degree, or a degree counted below zero) is \<open>None\<close>.
\<close>

section \<open>Data\<close>

record 'x ExtensionManifest =
  em_name :: string
  em_version :: string
  em_dependencies :: "(string \<times> string) list"
  em_rest :: 'x

record ('x, 'y) LoadedExtension =
  le_manifest :: "'x ExtensionManifest"
  le_rest :: 'y

text \<open>\<open>Missing extension dependency required\<close>, \<open>VersionMismatch extension dependency required actual\<close>\<close>

datatype DependencyIssue =
    Missing string string string
  | VersionMismatch string string string string
  | Circular "string list"

record DependencyValidationResult =
  dv_valid :: bool
  dv_issues :: "DependencyIssue list"
  dv_load_order :: "string list"

abbreviation ext_name :: "('x, 'y) LoadedExtension \<Rightarrow> string" where
  "ext_name ext \<equiv> em_name (le_manifest ext)"

abbreviation dep_names :: "('x, 'y) LoadedExtension \<Rightarrow> string list" where
  "dep_names ext \<equiv> map fst (em_dependencies (le_manifest ext))"

abbreviation known_names :: "('x, 'y) LoadedExtension list \<Rightarrow> string set" where
  "known_names exts \<equiv> set (map ext_name exts)"

type_synonym adjacency = "(string \<times> string list) list"

definition neighbors :: "adjacency \<Rightarrow> string \<Rightarrow> string list" where
  "neighbors adj node = or_default [] (map_of adj node)"

section \<open>Version matching\<close>

text \<open>The \<open>semver\<close> crate: \<open>Version::parse\<close>, \<open>VersionReq::parse\<close> and \<open>VersionReq::matches\<close>.\<close>

record ('v, 'r) semver =
  parse_version :: "string \<Rightarrow> 'v option"
  parse_req :: "string \<Rightarrow> 'r option"
  req_matches :: "'r \<Rightarrow> 'v \<Rightarrow> bool"

definition is_ascii_digit :: "char \<Rightarrow> bool" where
  "is_ascii_digit c \<longleftrightarrow> c \<in> set ''0123456789''"

definition version_matches :: "('v, 'r) semver \<Rightarrow> string \<Rightarrow> string \<Rightarrow> bool" where
  "version_matches sv requirement actual =
     (case parse_version sv actual of
        None \<Rightarrow> False
      | Some version \<Rightarrow>
          let req_str = (case requirement of
                c # _ \<Rightarrow> if is_ascii_digit c then ''='' @ requirement else requirement
              | [] \<Rightarrow> requirement)
          in (case parse_req sv req_str of
                None \<Rightarrow> False
              | Some req \<Rightarrow> req_matches sv req version))"

section \<open>Load order\<close>

definition add_dependency ::
  "string set \<Rightarrow> string \<Rightarrow> string \<Rightarrow> adjacency \<times> (string \<times> nat) list \<Rightarrow> adjacency \<times> (string \<times> nat) list" where
  "add_dependency known name dep_name g =
     (case g of (adj, in_degree) \<Rightarrow>
        if dep_name \<in> known
        then (AList.update dep_name (neighbors adj dep_name @ [name]) adj,
              AList.update name (or_default 0 (map_of in_degree name) + 1) in_degree)
        else (adj, in_degree))"

definition add_extension ::
  "string set \<Rightarrow> ('x, 'y) LoadedExtension \<Rightarrow> adjacency \<times> (string \<times> nat) list \<Rightarrow> adjacency \<times> (string \<times> nat) list" where
  "add_extension known ext g =
     (case g of (adj, in_degree) \<Rightarrow>
        fold (add_dependency known (ext_name ext)) (dep_names ext)
          (adj, entry_or_insert (ext_name ext) 0 in_degree))"

definition dependency_graph :: "('x, 'y) LoadedExtension list \<Rightarrow> adjacency \<times> (string \<times> nat) list" where
  "dependency_graph exts = fold (add_extension (known_names exts)) exts ([], [])"

definition seeds :: "(string \<times> nat) list \<Rightarrow> string list" where
  "seeds in_degree = sort (map fst (filter (\<lambda>(_, deg). deg = 0) in_degree))"

definition release_dependent ::
  "string \<Rightarrow> (string \<times> nat) list \<times> string list \<Rightarrow> ((string \<times> nat) list \<times> string list) option" where
  "release_dependent dep st =
     (case st of (in_degree, ready) \<Rightarrow>
        (case map_of in_degree dep of
           None \<Rightarrow> None
         | Some 0 \<Rightarrow> None
         | Some (Suc deg) \<Rightarrow>
             Some (AList.update dep deg in_degree, if deg = 0 then ready @ [dep] else ready)))"

text \<open>Each round emits a node, and a node enters the queue when its degree becomes zero.\<close>

definition waiting :: "(string \<times> nat) list \<Rightarrow> nat" where
  "waiting in_degree = length (filter (\<lambda>(_, deg). 0 < deg) in_degree)"

lemma waiting_update:
  "map_of m k = Some (Suc d) \<Longrightarrow> waiting (AList.update k d m) = (if d = 0 then waiting m - 1 else waiting m)"
  "map_of m k = Some (Suc d) \<Longrightarrow> 0 < waiting m"
  by (induction m) (auto simp: waiting_def split: if_splits)

lemma release_dependent_Suc:
  "map_of m d = Some (Suc deg) \<Longrightarrow>
   release_dependent d (m, ready) = Some (AList.update d deg m, if deg = 0 then ready @ [d] else ready)"
  by (simp add: release_dependent_def)

lemma release_dependent_SomeD:
  "release_dependent d (m, ready) = Some st \<Longrightarrow> \<exists>deg. map_of m d = Some (Suc deg)"
  by (auto simp: release_dependent_def split: option.splits nat.splits)

lemma release_waiting:
  "fold_expect release_dependent ds (m, ready) = Some (m', ready') \<Longrightarrow>
   length ready' + waiting m' = length ready + waiting m"
proof (induction ds arbitrary: m ready)
  case (Cons d ds)
  then obtain deg where deg: "map_of m d = Some (Suc deg)"
    by (auto split: option.splits dest: release_dependent_SomeD)
  from Cons.prems have
    "fold_expect release_dependent ds (AList.update d deg m, if deg = 0 then ready @ [d] else ready) = Some (m', ready')"
    by (simp add: release_dependent_Suc [OF deg])
  from Cons.IH [OF this] waiting_update [OF deg] show ?case by (auto split: if_splits)
qed simp

function kahn :: "adjacency \<Rightarrow> string list \<Rightarrow> (string \<times> nat) list \<Rightarrow> string list \<Rightarrow> string list option" where
  "kahn adj [] in_degree order = Some order"
| "kahn adj (node # queue) in_degree order =
     (case fold_expect release_dependent (neighbors adj node) (in_degree, []) of
        None \<Rightarrow> None
      | Some (in_degree', ready) \<Rightarrow> kahn adj (queue @ sort ready) in_degree' (order @ [node]))"
  by pat_completeness auto

termination
  by (relation "measure (\<lambda>(adj, queue, in_degree, order). length queue + waiting in_degree)")
     (auto dest!: release_waiting)

section \<open>Cycles\<close>

record DfsState =
  ds_visited :: "string set"
  ds_on_stack :: "string set"
  ds_path :: "string list"
  ds_cycles :: "string list list"

definition dfs_enter :: "string \<Rightarrow> DfsState \<Rightarrow> DfsState" where
  "dfs_enter node s = s\<lparr>ds_visited := insert node (ds_visited s),
     ds_on_stack := insert node (ds_on_stack s), ds_path := ds_path s @ [node]\<rparr>"

definition dfs_leave :: "string \<Rightarrow> DfsState \<Rightarrow> DfsState" where
  "dfs_leave node s = s\<lparr>ds_path := butlast (ds_path s), ds_on_stack := ds_on_stack s - {node}\<rparr>"

definition record_cycle :: "string \<Rightarrow> DfsState \<Rightarrow> DfsState" where
  "record_cycle next_node s =
     (if next_node \<in> set (ds_path s)
      then s\<lparr>ds_cycles := ds_cycles s @ [dropWhile (\<lambda>n. n \<noteq> next_node) (ds_path s) @ [next_node]]\<rparr>
      else s)"

function (domintros) dfs_neighbors :: "adjacency \<Rightarrow> string list \<Rightarrow> DfsState \<Rightarrow> DfsState" where
  "dfs_neighbors adj [] s = s"
| "dfs_neighbors adj (next_node # rest) s =
     dfs_neighbors adj rest
       (if next_node \<notin> ds_visited s
        then dfs_leave next_node (dfs_neighbors adj (neighbors adj next_node) (dfs_enter next_node s))
        else if next_node \<in> ds_on_stack s then record_cycle next_node s
        else s)"
  by pat_completeness auto

lemma dfs_visited_simps [simp]:
  "ds_visited (dfs_enter n s) = insert n (ds_visited s)"
  "ds_visited (dfs_leave n s) = ds_visited s"
  "ds_visited (record_cycle n s) = ds_visited s"
  by (simp_all add: dfs_enter_def dfs_leave_def record_cycle_def)

lemma dfs_visited_grows_dom:
  "dfs_neighbors_dom (adj, xs, s) \<Longrightarrow> ds_visited s \<subseteq> ds_visited (dfs_neighbors adj xs s)"
  by (induction adj xs s rule: dfs_neighbors.pinduct) (fastforce simp: dfs_neighbors.psimps split: if_splits)+

lemma neighbors_outside: "n \<notin> fst ` set adj \<Longrightarrow> neighbors adj n = []"
  by (simp add: neighbors_def map_of_eq_None_iff [THEN iffD2])

termination dfs_neighbors
proof (relation "inv_image (finite_psubset <*lex*> less_than)
    (\<lambda>(adj, xs, s). (fst ` set adj - ds_visited s, length xs))", goal_cases)
  case 1
  then show ?case by auto
next
  case (2 adj n rest s)
  then show ?case by (cases "n \<in> fst ` set adj") (auto simp: finite_psubset_def neighbors_outside)
next
  case (3 adj n rest s)
  then show ?case
    using dfs_visited_grows_dom [of adj "neighbors adj n" "dfs_enter n s"]
    by (auto simp: finite_psubset_def)
qed

definition dfs_find_cycles :: "string \<Rightarrow> adjacency \<Rightarrow> DfsState \<Rightarrow> DfsState" where
  "dfs_find_cycles node adj s = dfs_leave node (dfs_neighbors adj (neighbors adj node) (dfs_enter node s))"

definition cycle_graph :: "('x, 'y) LoadedExtension list \<Rightarrow> string set \<Rightarrow> adjacency" where
  "cycle_graph exts involved =
     fold (\<lambda>ext adj. if ext_name ext \<in> involved
         then AList.update (ext_name ext) (sort (filter (\<lambda>d. d \<in> involved) (dep_names ext))) adj
         else adj) exts []"

definition find_cycles :: "('x, 'y) LoadedExtension list \<Rightarrow> string list \<Rightarrow> string list list" where
  "find_cycles exts involved =
     (let adj = cycle_graph exts (set involved)
      in ds_cycles (fold (\<lambda>node s. if node \<notin> ds_visited s then dfs_find_cycles node adj s else s)
           (sort involved) \<lparr>ds_visited = {}, ds_on_stack = {}, ds_path = [], ds_cycles = []\<rparr>))"

section \<open>Validation\<close>

definition compute_topological_order ::
  "('x, 'y) LoadedExtension list \<Rightarrow> (string list \<times> string list list) option" where
  "compute_topological_order exts =
     (case dependency_graph exts of (adj, in_degree) \<Rightarrow>
        (case kahn adj (seeds in_degree) in_degree [] of
           None \<Rightarrow> None
         | Some order \<Rightarrow>
             let remaining = filter (\<lambda>n. n \<notin> set order) (remdups (map ext_name exts));
                 cycles = (if remaining = [] then [] else find_cycles exts remaining)
             in Some (order @ sort remaining, cycles)))"

definition topological_sort :: "('x, 'y) LoadedExtension list \<Rightarrow> string list option" where
  "topological_sort exts = map_option fst (compute_topological_order exts)"

text \<open>
  \<open>versions\<close> is collected into a \<open>HashMap\<close>: for a name that occurs twice the last version wins.
\<close>

definition versions :: "('x, 'y) LoadedExtension list \<Rightarrow> string \<Rightarrow> string option" where
  "versions exts = map_of (rev (map (\<lambda>ext. (ext_name ext, em_version (le_manifest ext))) exts))"

definition dependency_issues ::
  "('v, 'r) semver \<Rightarrow> (string \<Rightarrow> string option) \<Rightarrow> ('x, 'y) LoadedExtension \<Rightarrow> DependencyIssue list" where
  "dependency_issues sv vs ext =
     List.map_filter (\<lambda>(dep_name, dep_req).
       case vs dep_name of
         None \<Rightarrow> Some (Missing (ext_name ext) dep_name dep_req)
       | Some actual_version \<Rightarrow>
           if version_matches sv dep_req actual_version then None
           else Some (VersionMismatch (ext_name ext) dep_name dep_req actual_version))
       (em_dependencies (le_manifest ext))"

definition validate_dependencies ::
  "('v, 'r) semver \<Rightarrow> ('x, 'y) LoadedExtension list \<Rightarrow> DependencyValidationResult option" where
  "validate_dependencies sv exts =
     (case compute_topological_order exts of
        None \<Rightarrow> None
      | Some (load_order, cycles) \<Rightarrow>
          let issues = concat (map (dependency_issues sv (versions exts)) exts) @ map Circular cycles
          in Some \<lparr>dv_valid = (issues = []), dv_issues = issues, dv_load_order = load_order\<rparr>)"

end
