(* ===== verification/Extension_Dependency_Props.thy ===== *)
theory Extension_Dependency_Props
  imports Extension_Dependency
begin

text \<open>
  Correctness of the dependency checks: the load order holds every extension once and puts
  dependencies first wherever that is possible, the search for cycles finds one exactly when
  there is one, and validation accepts exactly the sets of extensions without a problem.
\<close>

section \<open>The dependency relation\<close>

definition depends :: "('x, 'y) LoadedExtension list \<Rightarrow> (string \<times> string) set" where
  "depends exts = {(ext_name ext, d) | ext d. ext \<in> set exts \<and> d \<in> set (dep_names ext) \<and> d \<in> known_names exts}"

definition ext_edges :: "string set \<Rightarrow> ('x, 'y) LoadedExtension \<Rightarrow> (string \<times> string) list" where
  "ext_edges known ext = map (\<lambda>d. (d, ext_name ext)) (filter (\<lambda>d. d \<in> known) (dep_names ext))"

definition edges :: "('x, 'y) LoadedExtension list \<Rightarrow> (string \<times> string) list" where
  "edges exts = concat (map (ext_edges (known_names exts)) exts)"

lemma set_edges: "set (edges exts) = (depends exts)\<inverse>"
  by (auto simp: edges_def ext_edges_def depends_def)

lemma depends_known: "(n, d) \<in> depends exts \<Longrightarrow> n \<in> known_names exts \<and> d \<in> known_names exts"
  by (auto simp: depends_def)

section \<open>The graph\<close>

definition in_count :: "(string \<times> string) list \<Rightarrow> string \<Rightarrow> nat" where
  "in_count E n = length (filter (\<lambda>e. snd e = n) E)"

definition graph_of :: "(string \<times> string) list \<Rightarrow> adjacency \<times> (string \<times> nat) list \<Rightarrow> bool" where
  "graph_of E g \<longleftrightarrow>
     (\<forall>d. neighbors (fst g) d = map snd (filter (\<lambda>e. fst e = d) E))
     \<and> (\<forall>n. or_default 0 (map_of (snd g) n) = in_count E n) \<and> keyed (snd g)"

lemma neighbors_update: "neighbors (AList.update k v adj) n = (if n = k then v else neighbors adj n)"
  by (simp add: neighbors_def update_conv')

lemma add_dependency_graph:
  assumes "graph_of E g"
  shows "graph_of (E @ (if d \<in> known then [(d, name)] else [])) (add_dependency known name d g)
    \<and> fst ` set (snd (add_dependency known name d g)) \<subseteq> insert name (fst ` set (snd g))
    \<and> fst ` set (snd g) \<subseteq> fst ` set (snd (add_dependency known name d g))"
  using assms
  by (cases g) (auto simp: graph_of_def add_dependency_def neighbors_update update_conv' in_count_def dom_update
      simp flip: dom_map_of_conv_image_fst)

lemma add_dependencies_graph:
  assumes "graph_of E g" and "name \<in> fst ` set (snd g)"
  shows "graph_of (E @ map (\<lambda>d. (d, name)) (filter (\<lambda>d. d \<in> known) ds)) (fold (add_dependency known name) ds g)
    \<and> fst ` set (snd (fold (add_dependency known name) ds g)) = fst ` set (snd g)"
  using assms
proof (induction ds arbitrary: E g)
  case (Cons d ds)
  note step = add_dependency_graph [OF Cons.prems(1), of d known name]
  from step Cons.prems(2) have same: "fst ` set (snd (add_dependency known name d g)) = fst ` set (snd g)"
    by blast
  from Cons.IH [OF conjunct1 [OF step]] Cons.prems(2) same show ?case by (cases "d \<in> known") simp_all
qed simp

lemma add_extension_graph:
  assumes "graph_of E g"
  shows "graph_of (E @ ext_edges known ext) (add_extension known ext g)
    \<and> fst ` set (snd (add_extension known ext g)) = insert (ext_name ext) (fst ` set (snd g))"
proof -
  obtain adj deg where g: "g = (adj, deg)" by (cases g)
  let ?g = "(adj, entry_or_insert (ext_name ext) 0 deg)"
  have "graph_of E ?g"
    using assms by (auto simp: graph_of_def g map_of_entry_or_insert split: option.splits)
      (metis or_default_simps(1))
  moreover have dom: "fst ` set (snd ?g) = insert (ext_name ext) (fst ` set deg)"
    by (auto simp: map_of_entry_or_insert split: option.splits simp flip: dom_map_of_conv_image_fst)
  ultimately show ?thesis
    using add_dependencies_graph [of E ?g "ext_name ext"] by (simp add: add_extension_def g ext_edges_def)
qed

lemma add_extensions_graph:
  "graph_of E g \<Longrightarrow>
   graph_of (E @ concat (map (ext_edges known) exts)) (fold (add_extension known) exts g)
   \<and> fst ` set (snd (fold (add_extension known) exts g)) = ext_name ` set exts \<union> fst ` set (snd g)"
proof (induction exts arbitrary: E g)
  case (Cons ext exts)
  note step = add_extension_graph [OF Cons.prems, of known ext]
  from Cons.IH [OF conjunct1 [OF step]] step show ?case by auto
qed simp

lemma dependency_graph_correct:
  "graph_of (edges exts) (dependency_graph exts)
   \<and> fst ` set (snd (dependency_graph exts)) = known_names exts"
proof -
  have "graph_of [] ([], [])" by (simp add: graph_of_def neighbors_def in_count_def)
  from add_extensions_graph [OF this] show ?thesis
    by (simp add: dependency_graph_def edges_def)
qed

section \<open>Kahn's algorithm\<close>

lemma release_all:
  assumes "keyed deg" and "\<forall>n \<in> set ds. \<exists>c. map_of deg n = Some c \<and> count_list ds n \<le> c"
  shows "\<exists>deg' released. fold_expect release_dependent ds (deg, ready) = Some (deg', ready @ released)
    \<and> keyed deg' \<and> (\<forall>n. map_of deg' n = map_option (\<lambda>c. c - count_list ds n) (map_of deg n))
    \<and> distinct released \<and> set released = {n \<in> set ds. map_of deg n = Some (count_list ds n)}"
  using assms
proof (induction ds arbitrary: deg ready)
  case Nil
  then show ?case by (simp add: option.map_ident)
next
  case (Cons d ds)
  from Cons.prems(2) obtain c0 where c0: "map_of deg d = Some c0" "Suc (count_list ds d) \<le> c0"
    by fastforce
  then obtain c where c: "map_of deg d = Some (Suc c)" "count_list ds d \<le> c"
    by (cases c0) simp_all
  let ?deg = "AList.update d c deg"
  let ?ready = "if c = 0 then ready @ [d] else ready"
  have "\<forall>n \<in> set ds. \<exists>c. map_of ?deg n = Some c \<and> count_list ds n \<le> c"
    using Cons.prems(2) c(2) by (auto simp: update_conv' split: if_splits)
  from Cons.IH [OF keyed_update [OF Cons.prems(1)] this, of ?ready] obtain deg' released where ih:
    "fold_expect release_dependent ds (?deg, ?ready) = Some (deg', ?ready @ released)" "keyed deg'"
    "\<forall>n. map_of deg' n = map_option (\<lambda>c. c - count_list ds n) (map_of ?deg n)"
    "distinct released" "set released = {n \<in> set ds. map_of ?deg n = Some (count_list ds n)}"
    by blast
  let ?released = "if c = 0 then d # released else released"
  have fresh: "c = 0 \<Longrightarrow> d \<notin> set ds" using c(2) by (simp add: count_list_0_iff)
  have mem: "n \<in> set released \<longleftrightarrow>
      n \<in> set ds \<and> (if n = d then c = count_list ds d else map_of deg n = Some (count_list ds n))" for n
    by (simp add: ih(5) update_conv')
  have "n \<in> set ?released \<longleftrightarrow> n \<in> set (d # ds) \<and> map_of deg n = Some (count_list (d # ds) n)" for n
    using c by (cases "n = d"; cases "d \<in> set ds") (simp_all add: mem fresh)
  then have "set ?released = {n \<in> set (d # ds). map_of deg n = Some (count_list (d # ds) n)}" by blast
  moreover have "distinct ?released" using ih(4) fresh by (simp add: mem)
  moreover have "fold_expect release_dependent (d # ds) (deg, ready) = Some (deg', ready @ ?released)"
    using ih(1) by (simp add: release_dependent_Suc [OF c(1)])
  moreover have "\<forall>n. map_of deg' n = map_option (\<lambda>c. c - count_list (d # ds) n) (map_of deg n)"
    using ih(3) c(1) by (auto simp: update_conv')
  ultimately show ?case using ih(2) by blast
qed

definition pending_edges :: "string list \<Rightarrow> (string \<times> string) list \<Rightarrow> (string \<times> string) list" where
  "pending_edges order E = filter (\<lambda>e. fst e \<notin> set order) E"

lemma in_count_emit:
  "node \<notin> set order \<Longrightarrow> in_count (pending_edges order E) n =
     count_list (map snd (filter (\<lambda>e. fst e = node) E)) n + in_count (pending_edges (order @ [node]) E) n"
  by (induction E) (auto simp: in_count_def pending_edges_def)

lemma count_list_pos: "0 < count_list xs x \<longleftrightarrow> x \<in> set xs"
  by (metis count_list_0_iff neq0_conv)

lemma in_count_0: "in_count E n = 0 \<longleftrightarrow> n \<notin> snd ` set E"
  by (auto simp: in_count_def filter_empty_conv)

definition dependencies_first :: "(string \<times> string) set \<Rightarrow> string list \<Rightarrow> bool" where
  "dependencies_first D order \<longleftrightarrow>
     (\<forall>xs n ys d. order = xs @ n # ys \<and> (n, d) \<in> D \<longrightarrow> d \<in> set xs)"

lemma dependencies_first_snoc:
  "dependencies_first D order \<Longrightarrow> (\<And>d. (n, d) \<in> D \<Longrightarrow> d \<in> set order) \<Longrightarrow> dependencies_first D (order @ [n])"
  unfolding dependencies_first_def
  by (auto simp: append_eq_append_conv2 append_eq_Cons_conv Cons_eq_append_conv)

definition kahn_inv ::
  "(string \<times> string) list \<Rightarrow> string set \<Rightarrow> string list \<Rightarrow> (string \<times> nat) list \<Rightarrow> string list \<Rightarrow> bool" where
  "kahn_inv E known queue deg order \<longleftrightarrow>
     distinct (order @ queue) \<and> keyed deg
     \<and> (\<forall>n. map_of deg n = (if n \<in> known then Some (in_count (pending_edges order E) n) else None))
     \<and> set (order @ queue) = {n \<in> known. in_count (pending_edges order E) n = 0}
     \<and> dependencies_first ((set E)\<inverse>) order"

lemma kahn_step:
  assumes inv: "kahn_inv E known (node # queue) deg order"
    and adj: "\<And>d. neighbors adj d = map snd (filter (\<lambda>e. fst e = d) E)"
    and E: "snd ` set E \<subseteq> known"
  shows "\<exists>deg' released. fold_expect release_dependent (neighbors adj node) (deg, []) = Some (deg', released)
    \<and> kahn_inv E known (queue @ sort released) deg' (order @ [node])"
proof -
  let ?ds = "neighbors adj node"
  let ?before = "\<lambda>n. in_count (pending_edges order E) n"
  let ?after = "\<lambda>n. in_count (pending_edges (order @ [node]) E) n"
  have node: "node \<notin> set order" "node \<notin> set queue" "?before node = 0"
    and known: "set (order @ node # queue) = {n \<in> known. ?before n = 0}"
    and dist: "distinct (order @ node # queue)"
    and deg: "map_of deg n = (if n \<in> known then Some (?before n) else None)" for n
    using inv by (auto simp: kahn_inv_def)
  have split: "?before n = count_list ?ds n + ?after n" for n
    by (simp add: in_count_emit [OF node(1)] adj)
  have ds: "set ?ds \<subseteq> known" using E by (auto simp: adj)
  then have "\<forall>n \<in> set ?ds. \<exists>c. map_of deg n = Some c \<and> count_list ?ds n \<le> c"
    by (auto simp: deg split)
  from release_all [OF _ this, of "[]"] inv obtain deg' released where rel:
    "fold_expect release_dependent ?ds (deg, []) = Some (deg', released)" "keyed deg'"
    "\<And>n. map_of deg' n = map_option (\<lambda>c. c - count_list ?ds n) (map_of deg n)"
    "distinct released" "set released = {n \<in> set ?ds. map_of deg n = Some (count_list ?ds n)}"
    by (auto simp: kahn_inv_def)
  have released: "set released = {n \<in> known. 0 < ?before n \<and> ?after n = 0}"
    using ds by (auto simp: rel(5) deg split count_list_pos)
  have "distinct ((order @ [node]) @ queue @ sort released)"
    using dist known rel(4) released by auto
  moreover have "map_of deg' n = (if n \<in> known then Some (?after n) else None)" for n
    by (simp add: rel(3) deg split)
  moreover have "set ((order @ [node]) @ queue @ sort released) = {n \<in> known. ?after n = 0}"
    using known released split by (auto simp: set_eq_iff)
  moreover have "dependencies_first ((set E)\<inverse>) (order @ [node])"
  proof (rule dependencies_first_snoc)
    show "d \<in> set order" if "(node, d) \<in> (set E)\<inverse>" for d
      using node(3) that by (force simp: in_count_0 pending_edges_def)
  qed (use inv in \<open>simp add: kahn_inv_def\<close>)
  ultimately have "kahn_inv E known (queue @ sort released) deg' (order @ [node])"
    using rel(2) unfolding kahn_inv_def by blast
  with rel(1) show ?thesis by blast
qed

lemma kahn_correct:
  assumes "kahn_inv E known queue deg order"
    and adj: "\<And>d. neighbors adj d = map snd (filter (\<lambda>e. fst e = d) E)"
    and E: "snd ` set E \<subseteq> known"
  shows "\<exists>order' deg'. kahn adj queue deg order = Some order' \<and> kahn_inv E known [] deg' order'"
  using assms(1,2)
proof (induction adj queue deg order rule: kahn.induct)
  case (1 adj in_degree order)
  then show ?case by auto
next
  case (2 adj node queue in_degree order)
  from kahn_step [OF 2(2,3) E] obtain deg' released where
    "fold_expect release_dependent (neighbors adj node) (in_degree, []) = Some (deg', released)"
    "kahn_inv E known (queue @ sort released) deg' (order @ [node])"
    by blast
  with 2(1) [of "(deg', released)"] 2(3) show ?case by simp
qed

section \<open>The depth-first search\<close>

definition chain :: "adjacency \<Rightarrow> string list \<Rightarrow> bool" where
  "chain adj path \<longleftrightarrow> successively (\<lambda>a b. b \<in> set (neighbors adj a)) path"

definition is_cycle :: "adjacency \<Rightarrow> string list \<Rightarrow> bool" where
  "is_cycle adj c \<longleftrightarrow> chain adj c \<and> 2 \<le> length c \<and> hd c = last c"

definition dfs_inv :: "DfsState \<Rightarrow> bool" where
  "dfs_inv s \<longleftrightarrow> ds_on_stack s = set (ds_path s) \<and> ds_on_stack s \<subseteq> ds_visited s \<and> distinct (ds_path s)"

lemma dfs_inv_enter: "dfs_inv s \<Longrightarrow> n \<notin> ds_visited s \<Longrightarrow> dfs_inv (dfs_enter n s)"
  by (auto simp: dfs_inv_def dfs_enter_def)

lemma dfs_inv_record: "dfs_inv s \<Longrightarrow> dfs_inv (record_cycle n s)"
  by (auto simp: dfs_inv_def record_cycle_def)

lemma dfs_fields [simp]:
  "ds_path (dfs_enter n s) = ds_path s @ [n]" "ds_cycles (dfs_enter n s) = ds_cycles s"
  "ds_on_stack (dfs_enter n s) = insert n (ds_on_stack s)"
  "ds_path (dfs_leave n s) = butlast (ds_path s)" "ds_cycles (dfs_leave n s) = ds_cycles s"
  "ds_on_stack (dfs_leave n s) = ds_on_stack s - {n}"
  "ds_path (record_cycle n s) = ds_path s" "ds_on_stack (record_cycle n s) = ds_on_stack s"
  by (simp_all add: dfs_enter_def dfs_leave_def record_cycle_def)

text \<open>One neighbour, whatever branch it takes.\<close>

definition dfs_visit :: "adjacency \<Rightarrow> string \<Rightarrow> DfsState \<Rightarrow> DfsState" where
  "dfs_visit adj n s =
     (if n \<notin> ds_visited s then dfs_leave n (dfs_neighbors adj (neighbors adj n) (dfs_enter n s))
      else if n \<in> ds_on_stack s then record_cycle n s else s)"

lemma dfs_neighbors_Cons: "dfs_neighbors adj (n # rest) s = dfs_neighbors adj rest (dfs_visit adj n s)"
  by (simp add: dfs_visit_def)

lemma dfs_frame:
  "dfs_inv s \<Longrightarrow> dfs_inv (dfs_neighbors adj xs s) \<and> ds_path (dfs_neighbors adj xs s) = ds_path s
     \<and> ds_visited s \<union> set xs \<subseteq> ds_visited (dfs_neighbors adj xs s)
     \<and> (\<exists>more. ds_cycles (dfs_neighbors adj xs s) = ds_cycles s @ more)"
proof (induction adj xs s rule: dfs_neighbors.induct)
  case (1 adj s)
  then show ?case by simp
next
  case (2 adj n rest s)
  let ?s = "dfs_visit adj n s"
  have "dfs_inv ?s \<and> ds_path ?s = ds_path s \<and> insert n (ds_visited s) \<subseteq> ds_visited ?s
     \<and> (\<exists>more. ds_cycles ?s = ds_cycles s @ more)"
  proof (cases "n \<in> ds_visited s")
    case True
    then show ?thesis using 2(3) dfs_inv_record by (auto simp: dfs_visit_def record_cycle_def)
  next
    case False
    from 2(1) [OF False dfs_inv_enter [OF 2(3) False]] False 2(3) show ?thesis
      by (auto simp: dfs_visit_def dfs_inv_def)
  qed
  moreover from this 2(2) have "dfs_inv (dfs_neighbors adj rest ?s) \<and> ds_path (dfs_neighbors adj rest ?s) = ds_path ?s
     \<and> ds_visited ?s \<union> set rest \<subseteq> ds_visited (dfs_neighbors adj rest ?s)
     \<and> (\<exists>more. ds_cycles (dfs_neighbors adj rest ?s) = ds_cycles ?s @ more)"
    by (simp add: dfs_visit_def)
  ultimately show ?case unfolding dfs_neighbors_Cons by force
qed

lemma dfs_stack: "dfs_inv s \<Longrightarrow> ds_on_stack (dfs_neighbors adj xs s) = ds_on_stack s"
  using dfs_frame [of s adj xs] by (metis dfs_inv_def)

lemma chain_snoc: "chain adj (path @ [n]) \<longleftrightarrow> chain adj path \<and> (path \<noteq> [] \<longrightarrow> n \<in> set (neighbors adj (last path)))"
  by (auto simp: chain_def successively_append_iff)

lemma chain_dropWhile: "chain adj path \<Longrightarrow> chain adj (dropWhile P path)"
  by (metis chain_def successively_append_iff takeWhile_dropWhile_id)

lemma closed_chain_is_cycle:
  assumes "chain adj path" "n \<in> set path" "n \<in> set (neighbors adj (last path))"
  shows "is_cycle adj (dropWhile (\<lambda>m. m \<noteq> n) path @ [n])"
proof -
  let ?c = "dropWhile (\<lambda>m. m \<noteq> n) path"
  have ne: "?c \<noteq> []" using assms(2) by (simp add: dropWhile_eq_Nil_conv)
  then have "hd ?c = n" using hd_dropWhile [OF ne] by simp
  moreover have "last ?c = last path" using ne by (metis last_append takeWhile_dropWhile_id)
  ultimately show ?thesis
    using ne chain_dropWhile [OF assms(1)] assms(3) by (simp add: is_cycle_def chain_snoc Suc_le_eq)
qed

lemma dfs_sound:
  "dfs_inv s \<Longrightarrow> chain adj (ds_path s) \<Longrightarrow> (ds_path s \<noteq> [] \<longrightarrow> set xs \<subseteq> set (neighbors adj (last (ds_path s))))
   \<Longrightarrow> \<forall>c \<in> set (ds_cycles s). is_cycle adj c \<Longrightarrow> \<forall>c \<in> set (ds_cycles (dfs_neighbors adj xs s)). is_cycle adj c"
proof (induction adj xs s rule: dfs_neighbors.induct)
  case (1 adj s)
  then show ?case by simp
next
  case (2 adj n rest s)
  let ?s = "dfs_visit adj n s"
  have frame: "dfs_inv ?s" "ds_path ?s = ds_path s"
    using dfs_frame [OF 2(3), of adj "[n]"] by (simp_all add: dfs_neighbors_Cons del: dfs_neighbors.simps(2))
  have "\<forall>c \<in> set (ds_cycles ?s). is_cycle adj c"
  proof (cases "n \<in> ds_visited s")
    case True
    have "is_cycle adj (dropWhile (\<lambda>m. m \<noteq> n) (ds_path s) @ [n])" if "n \<in> set (ds_path s)"
      using closed_chain_is_cycle [OF 2(4) that] 2(5) that by (cases "ds_path s") auto
    with 2(6) True show ?thesis by (auto simp: dfs_visit_def record_cycle_def)
  next
    case False
    from 2(1) [OF False dfs_inv_enter [OF 2(3) False]] 2(4,5,6) False show ?thesis
      by (auto simp: dfs_visit_def chain_snoc)
  qed
  with 2(2) 2(4,5) frame show ?case unfolding dfs_neighbors_Cons by (simp add: dfs_visit_def)
qed

text \<open>
  A search that records nothing new leaves the finished nodes in an order in which the
  neighbours of a node come before it.
\<close>

definition finish_order :: "adjacency \<Rightarrow> DfsState \<Rightarrow> string list \<Rightarrow> bool" where
  "finish_order adj s fin \<longleftrightarrow> set fin = ds_visited s - ds_on_stack s
     \<and> dependencies_first {(n, d). d \<in> set (neighbors adj n)} fin"

lemma dfs_complete:
  "dfs_inv s \<Longrightarrow> finish_order adj s fin \<Longrightarrow> ds_cycles (dfs_neighbors adj xs s) = ds_cycles s \<Longrightarrow>
   \<exists>fin'. finish_order adj (dfs_neighbors adj xs s) fin' \<and> set xs \<subseteq> set fin'"
proof (induction adj xs s arbitrary: fin rule: dfs_neighbors.induct)
  case (1 adj s)
  then show ?case by auto
next
  case (2 adj n rest s)
  let ?s = "dfs_visit adj n s"
  have inv: "dfs_inv ?s" and path: "ds_path ?s = ds_path s"
    using dfs_frame [OF 2(3), of adj "[n]"] by (simp_all add: dfs_neighbors_Cons del: dfs_neighbors.simps(2))
  obtain more more' where "ds_cycles ?s = ds_cycles s @ more"
      "ds_cycles (dfs_neighbors adj rest ?s) = ds_cycles ?s @ more'"
    using dfs_frame [OF 2(3), of adj "[n]"] dfs_frame [OF inv, of adj rest]
    by (auto simp: dfs_neighbors_Cons simp del: dfs_neighbors.simps(2))
  with 2(5) have same: "ds_cycles ?s = ds_cycles s" "ds_cycles (dfs_neighbors adj rest ?s) = ds_cycles ?s"
    unfolding dfs_neighbors_Cons by simp_all
  have "\<exists>fin'. finish_order adj ?s fin' \<and> n \<in> set fin'"
  proof (cases "n \<in> ds_visited s")
    case True
    then have "n \<notin> ds_on_stack s"
      using same(1) 2(3) by (auto simp: dfs_visit_def record_cycle_def dfs_inv_def)
    with True 2(4) show ?thesis by (auto simp: dfs_visit_def finish_order_def)
  next
    case False
    note enter = dfs_inv_enter [OF 2(3) False]
    have "n \<notin> ds_on_stack s" using False 2(3) by (auto simp: dfs_inv_def)
    with 2(4) False have "finish_order adj (dfs_enter n s) fin" by (simp add: finish_order_def)
    moreover have "ds_cycles (dfs_neighbors adj (neighbors adj n) (dfs_enter n s)) = ds_cycles (dfs_enter n s)"
      using same(1) False by (simp add: dfs_visit_def)
    ultimately obtain fin' where fin':
      "finish_order adj (dfs_neighbors adj (neighbors adj n) (dfs_enter n s)) fin'" "set (neighbors adj n) \<subseteq> set fin'"
      using 2(1) [OF False enter] by blast
    let ?t = "dfs_neighbors adj (neighbors adj n) (dfs_enter n s)"
    have "n \<in> ds_visited ?t" "ds_on_stack ?t = insert n (ds_on_stack s)"
      using dfs_frame [OF enter, of adj "neighbors adj n"] dfs_stack [OF enter] by auto
    then have "set (fin' @ [n]) = ds_visited ?t - (ds_on_stack ?t - {n})"
      using fin'(1) \<open>n \<notin> ds_on_stack s\<close> by (auto simp: finish_order_def)
    moreover have "dependencies_first {(n, d). d \<in> set (neighbors adj n)} (fin' @ [n])"
      using fin' by (intro dependencies_first_snoc) (auto simp: finish_order_def)
    ultimately have "finish_order adj ?s (fin' @ [n])" using False by (simp add: finish_order_def dfs_visit_def)
    then show ?thesis by force
  qed
  then obtain fin1 where fin1: "finish_order adj ?s fin1" "n \<in> set fin1" by blast
  obtain fin2 where fin2: "finish_order adj (dfs_neighbors adj rest ?s) fin2" "set rest \<subseteq> set fin2"
    using 2(2) [folded dfs_visit_def, OF inv fin1(1) same(2)] by blast
  have "set fin1 \<subseteq> set fin2"
    using fin1(1) fin2(1) dfs_frame [OF inv, of adj rest] dfs_stack [OF inv, of adj rest]
    by (auto simp: finish_order_def)
  with fin1(2) fin2 show ?case unfolding dfs_neighbors_Cons by auto
qed

lemma find_cycles_loop:
  assumes "dfs_inv s" "ds_path s = []"
  shows "fold (\<lambda>node s. if node \<notin> ds_visited s then dfs_find_cycles node adj s else s) xs s = dfs_neighbors adj xs s"
  using assms
proof (induction xs arbitrary: s)
  case (Cons n xs)
  have "(if n \<notin> ds_visited s then dfs_find_cycles n adj s else s) = dfs_visit adj n s"
    using Cons.prems by (simp add: dfs_visit_def dfs_find_cycles_def dfs_inv_def)
  moreover have "dfs_inv (dfs_visit adj n s)" "ds_path (dfs_visit adj n s) = []"
    using dfs_frame [OF Cons.prems(1), of adj "[n]"] Cons.prems(2)
    by (simp_all add: dfs_neighbors_Cons del: dfs_neighbors.simps(2))
  ultimately show ?case using Cons.IH by (simp add: dfs_neighbors_Cons del: dfs_neighbors.simps(2))
qed simp

abbreviation dfs_start :: DfsState where
  "dfs_start \<equiv> \<lparr>ds_visited = {}, ds_on_stack = {}, ds_path = [], ds_cycles = []\<rparr>"

lemma find_cycles_eq:
  "find_cycles exts involved = ds_cycles (dfs_neighbors (cycle_graph exts (set involved)) (sort involved) dfs_start)"
  by (simp add: find_cycles_def find_cycles_loop dfs_inv_def)

lemma cycle_graph_fold:
  assumes "distinct (map ext_name exts)"
  shows "neighbors (fold (\<lambda>ext adj. if ext_name ext \<in> I
      then AList.update (ext_name ext) (sort (filter (\<lambda>d. d \<in> I) (dep_names ext))) adj else adj) exts adj) n =
    (case find (\<lambda>ext. ext_name ext = n) exts of
       Some ext \<Rightarrow> if n \<in> I then sort (filter (\<lambda>d. d \<in> I) (dep_names ext)) else neighbors adj n
     | None \<Rightarrow> neighbors adj n)"
  using assms
proof (induction exts arbitrary: adj)
  case (Cons ext exts)
  have "find (\<lambda>e. ext_name e = ext_name ext) exts = None"
    using Cons.prems by (simp add: find_None_iff) (metis imageI)
  with Cons show ?case by (auto simp: neighbors_update split: option.split)
qed simp

lemma find_distinct_iff:
  assumes "distinct (map ext_name exts)"
  shows "find (\<lambda>ext. ext_name ext = n) exts = Some ext \<longleftrightarrow> ext \<in> set exts \<and> ext_name ext = n"
  using assms by (induction exts) auto

lemma cycle_graph_neighbors:
  assumes "distinct (map ext_name exts)" "involved \<subseteq> known_names exts"
  shows "d \<in> set (neighbors (cycle_graph exts involved) n) \<longleftrightarrow>
    n \<in> involved \<and> d \<in> involved \<and> (n, d) \<in> depends exts"
proof (cases "find (\<lambda>ext. ext_name ext = n) exts")
  case None
  then have "n \<notin> known_names exts" by (auto simp: find_None_iff)
  with None assms(2) show ?thesis
    by (auto simp: cycle_graph_def cycle_graph_fold [OF assms(1)] neighbors_def [of "[]"])
next
  case (Some ext)
  have uniq: "ext' = ext" if "ext' \<in> set exts" "ext_name ext' = n" for ext'
    using find_distinct_iff [OF assms(1), of n ext'] that Some by simp
  have ext: "ext \<in> set exts" "ext_name ext = n"
    using Some find_distinct_iff [OF assms(1), of n ext] by simp_all
  have "(n, d) \<in> depends exts \<longleftrightarrow> d \<in> set (dep_names ext) \<and> d \<in> known_names exts"
    using ext uniq unfolding depends_def by blast
  with Some assms(2) show ?thesis
    by (auto simp: cycle_graph_def cycle_graph_fold [OF assms(1)] neighbors_def [of "[]"] simp del: set_map)
qed

section \<open>Results\<close>

lemma dependencies_first_trancl:
  assumes first: "dependencies_first D order" and "(n, m) \<in> D\<^sup>+" and "order = xs @ n # ys"
  shows "m \<in> set xs"
  using assms(2)
proof (induction rule: trancl_induct)
  case (base d)
  with first assms(3) show ?case by (auto simp: dependencies_first_def)
next
  case (step d e)
  then obtain as bs where "xs = as @ d # bs" by (auto dest: split_list)
  then have "order = as @ d # (bs @ n # ys)" using assms(3) by simp
  with first step(2) have "e \<in> set as" unfolding dependencies_first_def by blast
  with \<open>xs = as @ d # bs\<close> show ?case by simp
qed

definition on_cycle_path :: "(string \<times> string) set \<Rightarrow> string \<Rightarrow> bool" where
  "on_cycle_path D n \<longleftrightarrow> (\<exists>m. (n, m) \<in> D\<^sup>* \<and> (m, m) \<in> D\<^sup>+)"

lemma no_cycle_path_in_order:
  assumes "dependencies_first D order" "distinct order" "n \<in> set order"
  shows "\<not> on_cycle_path D n"
proof
  assume "on_cycle_path D n"
  then obtain m where m: "(n, m) \<in> D\<^sup>*" "(m, m) \<in> D\<^sup>+" by (auto simp: on_cycle_path_def)
  obtain xs ys where n: "order = xs @ n # ys" using assms(3) by (auto dest: split_list)
  have "m \<in> set order"
    using m(1) dependencies_first_trancl [OF assms(1) _ n] n by (auto simp: rtrancl_eq_or_trancl)
  then obtain xs' ys' where m': "order = xs' @ m # ys'" by (auto dest: split_list)
  from dependencies_first_trancl [OF assms(1) m(2) m'] assms(2) m' show False by simp
qed

lemma cycle_path_if_successors:
  assumes "finite D" and "n \<in> R" and succ: "\<And>x. x \<in> R \<Longrightarrow> \<exists>y \<in> R. (x, y) \<in> D"
  shows "on_cycle_path D n"
proof (rule ccontr)
  assume none: "\<not> on_cycle_path D n"
  let ?A = "{m \<in> R. (n, m) \<in> D\<^sup>*}"
  let ?D = "D \<inter> ?A \<times> ?A"
  have "acyclic ?D"
  proof (rule acyclicI, rule allI, rule notI)
    fix x assume x: "(x, x) \<in> ?D\<^sup>+"
    then have "x \<in> ?A" by (auto dest: tranclD)
    moreover have "(x, x) \<in> D\<^sup>+" using x by (rule trancl_mono) blast
    ultimately show False using none by (auto simp: on_cycle_path_def)
  qed
  then have "wf (?D\<inverse>)" using assms(1) by (intro finite_acyclic_wf_converse) auto
  moreover have "n \<in> ?A" using assms(2) by simp
  ultimately obtain z where z: "z \<in> ?A" "\<And>y. (y, z) \<in> ?D\<inverse> \<Longrightarrow> y \<notin> ?A"
    by (metis (no_types, lifting) wfE_min)
  from z(1) succ obtain y where "y \<in> R" "(z, y) \<in> D" by blast
  with z show False by (auto intro: rtrancl_into_rtrancl)
qed

lemma finite_depends: "finite (depends exts)"
proof -
  have "depends exts = (set (edges exts))\<inverse>" by (simp add: set_edges)
  then show ?thesis by simp
qed

lemma kahn_result:
  "\<exists>order. kahn (fst (dependency_graph exts)) (seeds (snd (dependency_graph exts))) (snd (dependency_graph exts)) [] = Some order
    \<and> distinct order \<and> dependencies_first (depends exts) order
    \<and> set order = {n \<in> known_names exts. \<not> on_cycle_path (depends exts) n}
    \<and> (\<forall>n \<in> known_names exts - set order. \<exists>d \<in> known_names exts - set order. (n, d) \<in> depends exts)"
proof -
  obtain adj deg where g: "dependency_graph exts = (adj, deg)" by (cases "dependency_graph exts")
  let ?E = "edges exts" and ?K = "known_names exts"
  have graph: "graph_of ?E (adj, deg)" and dom: "fst ` set deg = ?K"
    using dependency_graph_correct [of exts] by (simp_all add: g)
  have keyed: "keyed deg" using graph by (simp add: graph_of_def)
  have deg: "map_of deg n = (if n \<in> ?K then Some (in_count ?E n) else None)" for n
  proof (cases "n \<in> ?K")
    case True
    then obtain c where "map_of deg n = Some c" using dom by (metis dom_map_of_conv_image_fst domD)
    with graph True show ?thesis by (auto simp: graph_of_def) (metis or_default_simps(2))
  next
    case False
    with dom show ?thesis by (metis map_of_eq_None_iff)
  qed
  have "set (seeds deg) = {n \<in> ?K. in_count ?E n = 0}"
  proof -
    have "n \<in> set (seeds deg) \<longleftrightarrow> map_of deg n = Some 0" for n
      using keyed by (simp add: seeds_def keyed_def map_of_eq_Some_iff) force
    moreover have "map_of deg n = Some 0 \<longleftrightarrow> n \<in> ?K \<and> in_count ?E n = 0" for n by (simp only: deg) simp
    ultimately show ?thesis by blast
  qed
  moreover have "distinct (seeds deg)"
    using keyed by (simp add: seeds_def keyed_def distinct_map_filter)
  ultimately have inv: "kahn_inv ?E ?K (seeds deg) deg []"
    using keyed deg by (simp add: kahn_inv_def pending_edges_def dependencies_first_def)
  have sub: "snd ` set ?E \<subseteq> ?K" by (auto simp: set_edges depends_def)
  have adj: "neighbors adj d = map snd (filter (\<lambda>e. fst e = d) ?E)" for d
    using graph by (simp add: graph_of_def)
  from kahn_correct [OF inv adj sub] obtain order deg' where
    order: "kahn adj (seeds deg) deg [] = Some order" "kahn_inv ?E ?K [] deg' order"
    by blast
  have first: "dependencies_first (depends exts) order" and dist: "distinct order"
    and set_order: "set order = {n \<in> ?K. in_count (pending_edges order ?E) n = 0}"
    using order(2) by (simp_all add: kahn_inv_def set_edges)
  have succ: "\<exists>d \<in> ?K - set order. (n, d) \<in> depends exts" if "n \<in> ?K - set order" for n
  proof -
    from that set_order have "n \<in> snd ` set (pending_edges order ?E)" by (simp add: in_count_0)
    then obtain d where "(n, d) \<in> depends exts" "d \<notin> set order"
      by (auto simp: pending_edges_def set_edges)
    with depends_known show ?thesis by blast
  qed
  have "set order = {n \<in> ?K. \<not> on_cycle_path (depends exts) n}"
    using no_cycle_path_in_order [OF first dist] set_order
      cycle_path_if_successors [OF finite_depends _ succ] by blast
  with order(1) dist first succ g show ?thesis by auto
qed

lemma compute_unfold:
  "\<exists>order. dependencies_first (depends exts) order \<and> distinct order
     \<and> set order = {n \<in> known_names exts. \<not> on_cycle_path (depends exts) n}
     \<and> (\<forall>n \<in> known_names exts - set order. \<exists>d \<in> known_names exts - set order. (n, d) \<in> depends exts)
     \<and> compute_topological_order exts =
        (let remaining = filter (\<lambda>n. n \<notin> set order) (remdups (map ext_name exts))
         in Some (order @ sort remaining, if remaining = [] then [] else find_cycles exts remaining))"
  using kahn_result [of exts]
  by (cases "dependency_graph exts") (auto simp: compute_topological_order_def Let_def)

lemma load_order_correct:
  "\<exists>order rest cycles. compute_topological_order exts = Some (order @ rest, cycles)
    \<and> distinct (order @ rest) \<and> set (order @ rest) = known_names exts
    \<and> dependencies_first (depends exts) order
    \<and> sorted rest \<and> set rest = {n \<in> known_names exts. on_cycle_path (depends exts) n}"
proof -
  obtain order where order: "dependencies_first (depends exts) order" "distinct order"
    "set order = {n \<in> known_names exts. \<not> on_cycle_path (depends exts) n}"
    and eq: "compute_topological_order exts =
        (let remaining = filter (\<lambda>n. n \<notin> set order) (remdups (map ext_name exts))
         in Some (order @ sort remaining, if remaining = [] then [] else find_cycles exts remaining))"
    using compute_unfold [of exts] by blast
  let ?rest = "sort (filter (\<lambda>n. n \<notin> set order) (remdups (map ext_name exts)))"
  have "set ?rest = {n \<in> known_names exts. on_cycle_path (depends exts) n}" using order(3) by auto
  moreover from this have "distinct (order @ ?rest)" "set (order @ ?rest) = known_names exts"
    using order(2,3) by auto
  moreover obtain cycles where "compute_topological_order exts = Some (order @ ?rest, cycles)"
    using eq by (simp add: Let_def)
  moreover have "sorted ?rest" by simp
  ultimately show ?thesis using order(1) by blast
qed

lemma acyclic_iff_no_cycle_path:
  "acyclic (depends exts) \<longleftrightarrow> (\<forall>n \<in> known_names exts. \<not> on_cycle_path (depends exts) n)"
proof
  assume *: "\<forall>n \<in> known_names exts. \<not> on_cycle_path (depends exts) n"
  show "acyclic (depends exts)"
  proof (rule acyclicI, rule allI, rule notI)
    fix x assume x: "(x, x) \<in> (depends exts)\<^sup>+"
    then have "x \<in> known_names exts" using depends_known by (metis tranclD)
    with * x show False by (auto simp: on_cycle_path_def)
  qed
qed (auto simp: on_cycle_path_def acyclic_def)

lemma find_cycles_finds:
  assumes dist: "distinct (map ext_name exts)" and sub: "set R \<subseteq> known_names exts" and ne: "R \<noteq> []"
    and succ: "\<forall>n \<in> set R. \<exists>d \<in> set R. (n, d) \<in> depends exts"
  shows "find_cycles exts R \<noteq> []"
proof
  let ?adj = "cycle_graph exts (set R)"
  assume "find_cycles exts R = []"
  then have "ds_cycles (dfs_neighbors ?adj (sort R) dfs_start) = ds_cycles dfs_start"
    by (simp add: find_cycles_eq)
  moreover have "dfs_inv dfs_start" "finish_order ?adj dfs_start []"
    by (simp_all add: dfs_inv_def finish_order_def dependencies_first_def)
  ultimately obtain fin where fin: "finish_order ?adj (dfs_neighbors ?adj (sort R) dfs_start) fin"
      "set (sort R) \<subseteq> set fin"
    using dfs_complete by blast
  then have "\<exists>n \<in> set fin. n \<in> set R" using ne by (metis hd_in_set set_sort subsetD)
  then obtain xs n ys where n: "fin = xs @ n # ys" "n \<in> set R" "\<forall>m \<in> set xs. m \<notin> set R"
    using split_list_first_prop [of fin "\<lambda>n. n \<in> set R"] by blast
  from succ n(2) obtain d where d: "d \<in> set R" "(n, d) \<in> depends exts" by blast
  then have "d \<in> set (neighbors ?adj n)" using n(2) cycle_graph_neighbors [OF dist sub] by blast
  then have "d \<in> set xs" using fin(1) n(1) by (auto simp: finish_order_def dependencies_first_def)
  with n(3) d(1) show False by blast
qed

lemma find_cycles_sound:
  assumes dist: "distinct (map ext_name exts)" and sub: "set R \<subseteq> known_names exts"
    and c: "c \<in> set (find_cycles exts R)"
  shows "2 \<le> length c \<and> hd c = last c \<and> successively (\<lambda>n d. (n, d) \<in> depends exts) c"
proof -
  have "is_cycle (cycle_graph exts (set R)) c"
    using c dfs_sound [of dfs_start "cycle_graph exts (set R)" "sort R"]
    by (auto simp: find_cycles_eq dfs_inv_def chain_def)
  then show ?thesis
    using cycle_graph_neighbors [OF dist sub]
    by (auto simp: is_cycle_def chain_def elim!: successively_mono)
qed

lemma cycles_correct:
  assumes dist: "distinct (map ext_name exts)"
    and res: "compute_topological_order exts = Some (load_order, cycles)"
  shows "(cycles = [] \<longleftrightarrow> acyclic (depends exts))
    \<and> (\<forall>c \<in> set cycles. 2 \<le> length c \<and> hd c = last c \<and> successively (\<lambda>n d. (n, d) \<in> depends exts) c)"
proof -
  obtain order where order: "set order = {n \<in> known_names exts. \<not> on_cycle_path (depends exts) n}"
      "\<forall>n \<in> known_names exts - set order. \<exists>d \<in> known_names exts - set order. (n, d) \<in> depends exts"
    and eq: "compute_topological_order exts =
        (let remaining = filter (\<lambda>n. n \<notin> set order) (remdups (map ext_name exts))
         in Some (order @ sort remaining, if remaining = [] then [] else find_cycles exts remaining))"
    using compute_unfold [of exts] by blast
  let ?R = "filter (\<lambda>n. n \<notin> set order) (remdups (map ext_name exts))"
  have R: "set ?R = known_names exts - set order" by auto
  have cycles: "cycles = (if ?R = [] then [] else find_cycles exts ?R)"
    using eq res by (simp add: Let_def)
  have "?R = [] \<longleftrightarrow> known_names exts \<subseteq> set order" by (auto simp: filter_empty_conv)
  then have "?R = [] \<longleftrightarrow> acyclic (depends exts)"
    unfolding acyclic_iff_no_cycle_path using order(1) by blast
  moreover have "find_cycles exts ?R \<noteq> []" if "?R \<noteq> []"
    using find_cycles_finds [OF dist _ that] order(2) R by blast
  ultimately have "cycles = [] \<longleftrightarrow> acyclic (depends exts)" using cycles by auto
  moreover have "2 \<le> length c \<and> hd c = last c \<and> successively (\<lambda>n d. (n, d) \<in> depends exts) c"
    if "c \<in> set cycles" for c
    using find_cycles_sound [OF dist, of ?R c] R that cycles by (auto split: if_splits)
  ultimately show ?thesis by blast
qed

lemma versions_distinct:
  assumes "distinct (map ext_name exts)"
  shows "versions exts d = Some v \<longleftrightarrow> (\<exists>ext \<in> set exts. ext_name ext = d \<and> em_version (le_manifest ext) = v)"
proof -
  have "distinct (map fst (rev (map (\<lambda>ext. (ext_name ext, em_version (le_manifest ext))) exts)))"
    using assms by (simp add: rev_map comp_def flip: rev_map)
  then show ?thesis unfolding versions_def by (subst map_of_eq_Some_iff) auto
qed

definition satisfied :: "('v, 'r) semver \<Rightarrow> ('x, 'y) LoadedExtension list \<Rightarrow> bool" where
  "satisfied sv exts \<longleftrightarrow>
     (\<forall>ext \<in> set exts. \<forall>(d, req) \<in> set (em_dependencies (le_manifest ext)).
        \<exists>dep \<in> set exts. ext_name dep = d \<and> version_matches sv req (em_version (le_manifest dep)))"

lemma no_issues_iff:
  assumes "distinct (map ext_name exts)"
  shows "concat (map (dependency_issues sv (versions exts)) exts) = [] \<longleftrightarrow> satisfied sv exts"
proof -
  have "(case versions exts d of
        None \<Rightarrow> Some (Missing n d req)
      | Some v \<Rightarrow> if version_matches sv req v then None else Some (VersionMismatch n d req v)) = None
    \<longleftrightarrow> (\<exists>v. versions exts d = Some v \<and> version_matches sv req v)" for n d req
    by (cases "versions exts d") auto
  moreover have "(\<exists>v. versions exts d = Some v \<and> version_matches sv req v)
    \<longleftrightarrow> (\<exists>dep \<in> set exts. ext_name dep = d \<and> version_matches sv req (em_version (le_manifest dep)))" for d req
    unfolding versions_distinct [OF assms] by auto
  ultimately show ?thesis by (simp add: dependency_issues_def map_filter_Nil satisfied_def case_prod_beta)
qed

text \<open>
  C25: The load order of the extensions is computed for every input without a panic: it lists
  every extension once, the extensions that are not on a path to a dependency cycle come
  first, each after its loaded dependencies, and the ones left over are exactly those on such
  a path, appended in the order of their names.
\<close>

theorem load_order_puts_dependencies_first:
  "\<exists>order rest cycles. compute_topological_order exts = Some (order @ rest, cycles)
    \<and> distinct (order @ rest) \<and> set (order @ rest) = known_names exts
    \<and> dependencies_first (depends exts) order
    \<and> sorted rest \<and> set rest = {n \<in> known_names exts. on_cycle_path (depends exts) n}"
  by (rule load_order_correct)

text \<open>
  C26: When the names are distinct, a cycle is reported exactly when the dependency graph of
  the loaded extensions has one, and every reported cycle is a closed chain of dependencies.
\<close>

theorem cycles_are_reported:
  assumes "distinct (map ext_name exts)"
    and "compute_topological_order exts = Some (load_order, cycles)"
  shows "(cycles = [] \<longleftrightarrow> acyclic (depends exts))
    \<and> (\<forall>c \<in> set cycles. 2 \<le> length c \<and> hd c = last c \<and> successively (\<lambda>n d. (n, d) \<in> depends exts) c)"
  by (rule cycles_correct [OF assms])

definition demo_ext :: "string \<Rightarrow> string list \<Rightarrow> (unit, unit) LoadedExtension" where
  "demo_ext name deps = \<lparr>le_manifest = \<lparr>em_name = name, em_version = ''1.0.0'',
     em_dependencies = map (\<lambda>d. (d, ''1.0.0'')) deps, em_rest = ()\<rparr>, le_rest = ()\<rparr>"

definition demo_cyclic :: "(unit, unit) LoadedExtension list" where
  "demo_cyclic = [demo_ext ''y'' [''x''], demo_ext ''x'' [''y''], demo_ext ''b'' [''a''], demo_ext ''a'' []]"

lemma demo_cyclic_order:
  "compute_topological_order demo_cyclic = Some ([''a'', ''b'', ''x'', ''y''], [[''x'', ''y'', ''x'']])"
  by code_simp

theorem cycles_are_reported_witness:
  "\<not> acyclic (depends demo_cyclic) \<and> successively (\<lambda>n d. (n, d) \<in> depends demo_cyclic) [''x'', ''y'', ''x'']"
proof -
  have "distinct (map ext_name demo_cyclic)" by (simp add: demo_cyclic_def demo_ext_def)
  from cycles_are_reported [OF this demo_cyclic_order] show ?thesis by simp
qed

definition demo_semver :: "(string, string) semver" where
  "demo_semver = \<lparr>parse_version = Some, parse_req = Some, req_matches = (\<lambda>r v. r = ''='' @ v)\<rparr>"

theorem validation_accepts_exactly_the_sound:
  assumes dist: "distinct (map ext_name exts)"
  shows "\<exists>res. validate_dependencies sv exts = Some res
    \<and> (dv_valid res \<longleftrightarrow> satisfied sv exts \<and> acyclic (depends exts))
    \<and> (dv_valid res \<longrightarrow> distinct (dv_load_order res) \<and> set (dv_load_order res) = known_names exts
         \<and> dependencies_first (depends exts) (dv_load_order res))"
proof -
  obtain order rest cycles where comp: "compute_topological_order exts = Some (order @ rest, cycles)"
    and o: "distinct (order @ rest)" "set (order @ rest) = known_names exts" "dependencies_first (depends exts) order"
      "set rest = {n \<in> known_names exts. on_cycle_path (depends exts) n}"
    using load_order_correct [of exts] by blast
  from cycles_correct [OF dist comp] have cyc: "cycles = [] \<longleftrightarrow> acyclic (depends exts)" by blast
  have "set rest = {}" if "acyclic (depends exts)"
    using acyclic_iff_no_cycle_path [THEN iffD1, OF that] by (auto simp: o(4))
  then have "acyclic (depends exts) \<Longrightarrow> rest = []" by simp
  moreover define issues where "issues = concat (map (dependency_issues sv (versions exts)) exts)"
  then have "validate_dependencies sv exts = Some \<lparr>dv_valid = (issues @ map Circular cycles = []),
      dv_issues = issues @ map Circular cycles, dv_load_order = order @ rest\<rparr>"
    by (simp add: validate_dependencies_def comp Let_def)
  moreover have "issues = [] \<longleftrightarrow> satisfied sv exts" unfolding issues_def by (rule no_issues_iff [OF dist])
  ultimately show ?thesis using o(1,2,3) cyc by (cases "acyclic (depends exts)") simp_all
qed

theorem validation_accepts_exactly_the_sound_witness:
  "\<exists>res. validate_dependencies demo_semver demo_cyclic = Some res \<and> satisfied demo_semver demo_cyclic
     \<and> \<not> dv_valid res"
proof -
  have dist: "distinct (map ext_name demo_cyclic)" by (simp add: demo_cyclic_def demo_ext_def)
  have "satisfied demo_semver demo_cyclic"
    by (simp add: satisfied_def demo_cyclic_def demo_ext_def version_matches_def demo_semver_def is_ascii_digit_def)
  moreover have "\<not> acyclic (depends demo_cyclic)"
    using cycles_correct [OF dist demo_cyclic_order] by simp
  ultimately show ?thesis using validation_accepts_exactly_the_sound [OF dist, of demo_semver] by blast
qed

end
