(* ===== verification/Conversation_Turns.thy ===== *)
theory Conversation_Turns
  imports Core_Prelude
begin

text \<open>
  The turn claims of the conversation runtime
  (\<open>crates/tjuaeui-conversation/src/runtime_state.rs\<close>) and the write policy that reads their
  lifecycle (\<open>runtime_persistence.rs\<close>).

  The service keeps its state under one mutex; every operation that finds the mutex poisoned
  takes its own error branch, so the service carries a \<open>poisoned\<close> flag. \<open>notify_waiters\<close> is
  counted. A \<open>TurnClaim\<close> refers to the service weakly: whether the service is still alive when
  the claim is released is an argument. Error texts are constructors.
\<close>

section \<open>State\<close>

record ConversationRuntimeState =
  active_turns :: "(string \<times> string) list"
  deleting_conversations :: "string set"
  cancelling_conversations :: "string set"
  shutting_down :: bool

record ConversationRuntimeStateService =
  rs_state :: ConversationRuntimeState
  rs_poisoned :: bool
  rs_release_notify :: nat

record TurnClaim =
  tc_conversation_id :: string
  tc_turn_id :: string
  tc_released :: bool

datatype RuntimeLifecycleState = Active | Deleting | Cancelling | ShuttingDown

datatype BusyReason = RuntimeClosing | ConversationDeleting string | ConversationRunning string

datatype ConversationError = Busy BusyReason | Internal

definition new_runtime_state :: ConversationRuntimeStateService where
  "new_runtime_state = \<lparr>rs_state = \<lparr>active_turns = [], deleting_conversations = {},
     cancelling_conversations = {}, shutting_down = False\<rparr>, rs_poisoned = False, rs_release_notify = 0\<rparr>"

section \<open>Operations\<close>

definition try_claim_turn ::
  "string \<Rightarrow> string \<Rightarrow> ConversationRuntimeStateService \<Rightarrow>
   (ConversationError + TurnClaim) \<times> ConversationRuntimeStateService" where
  "try_claim_turn conv turn svc =
     (let st = rs_state svc in
      if rs_poisoned svc then (Inl Internal, svc)
      else if shutting_down st then (Inl (Busy RuntimeClosing), svc)
      else if conv \<in> deleting_conversations st then (Inl (Busy (ConversationDeleting conv)), svc)
      else if map_of (active_turns st) conv \<noteq> None then (Inl (Busy (ConversationRunning conv)), svc)
      else (Inr \<lparr>tc_conversation_id = conv, tc_turn_id = turn, tc_released = False\<rparr>,
            svc\<lparr>rs_state := st\<lparr>active_turns := AList.update conv turn (active_turns st)\<rparr>\<rparr>))"

definition is_claimed :: "ConversationRuntimeStateService \<Rightarrow> string \<Rightarrow> bool" where
  "is_claimed svc conv \<longleftrightarrow> \<not> rs_poisoned svc \<and> map_of (active_turns (rs_state svc)) conv \<noteq> None"

definition active_turn_id_for :: "ConversationRuntimeStateService \<Rightarrow> string \<Rightarrow> string option" where
  "active_turn_id_for svc conv =
     (if rs_poisoned svc then None else map_of (active_turns (rs_state svc)) conv)"

definition mark_deleting ::
  "string \<Rightarrow> ConversationRuntimeStateService \<Rightarrow> bool \<times> ConversationRuntimeStateService" where
  "mark_deleting conv svc =
     (if rs_poisoned svc then (False, svc)
      else (map_of (active_turns (rs_state svc)) conv \<noteq> None,
            svc\<lparr>rs_state := (rs_state svc)
              \<lparr>deleting_conversations := insert conv (deleting_conversations (rs_state svc))\<rparr>\<rparr>))"

definition clear_deleting :: "string \<Rightarrow> ConversationRuntimeStateService \<Rightarrow> ConversationRuntimeStateService" where
  "clear_deleting conv svc =
     (if rs_poisoned svc then svc
      else svc\<lparr>rs_state := (rs_state svc)
        \<lparr>deleting_conversations := deleting_conversations (rs_state svc) - {conv}\<rparr>\<rparr>)"

definition is_deleting :: "ConversationRuntimeStateService \<Rightarrow> string \<Rightarrow> bool" where
  "is_deleting svc conv \<longleftrightarrow> \<not> rs_poisoned svc \<and> conv \<in> deleting_conversations (rs_state svc)"

definition mark_cancelling :: "string \<Rightarrow> ConversationRuntimeStateService \<Rightarrow> ConversationRuntimeStateService" where
  "mark_cancelling conv svc =
     (if rs_poisoned svc then svc
      else svc\<lparr>rs_state := (rs_state svc)
        \<lparr>cancelling_conversations := insert conv (cancelling_conversations (rs_state svc))\<rparr>\<rparr>)"

definition clear_cancelling :: "string \<Rightarrow> ConversationRuntimeStateService \<Rightarrow> ConversationRuntimeStateService" where
  "clear_cancelling conv svc =
     (if rs_poisoned svc then svc
      else svc\<lparr>rs_state := (rs_state svc)
        \<lparr>cancelling_conversations := cancelling_conversations (rs_state svc) - {conv}\<rparr>\<rparr>)"

definition is_cancelling :: "ConversationRuntimeStateService \<Rightarrow> string \<Rightarrow> bool" where
  "is_cancelling svc conv \<longleftrightarrow> \<not> rs_poisoned svc \<and> conv \<in> cancelling_conversations (rs_state svc)"

definition mark_shutting_down ::
  "ConversationRuntimeStateService \<Rightarrow> nat \<times> ConversationRuntimeStateService" where
  "mark_shutting_down svc =
     (if rs_poisoned svc then (0, svc)
      else (length (active_turns (rs_state svc)),
            svc\<lparr>rs_state := (rs_state svc)\<lparr>shutting_down := True\<rparr>\<rparr>))"

definition is_shutting_down :: "ConversationRuntimeStateService \<Rightarrow> bool" where
  "is_shutting_down svc \<longleftrightarrow> rs_poisoned svc \<or> shutting_down (rs_state svc)"

definition lifecycle_for :: "ConversationRuntimeStateService \<Rightarrow> string \<Rightarrow> RuntimeLifecycleState" where
  "lifecycle_for svc conv =
     (if rs_poisoned svc then ShuttingDown
      else if shutting_down (rs_state svc) then ShuttingDown
      else if conv \<in> deleting_conversations (rs_state svc) then Deleting
      else if conv \<in> cancelling_conversations (rs_state svc) then Cancelling
      else Active)"

datatype ConversationStatus = Pending | Running | Finished

datatype ConversationRuntimeStateKind =
    KindIdle | KindStarting | KindRunning | KindCancelling | KindWaitingConfirmation

record ConversationRuntimeSummary =
  cs_state :: ConversationRuntimeStateKind
  cs_can_send_message :: bool
  cs_has_task :: bool
  cs_task_status :: "ConversationStatus option"
  cs_is_processing :: bool
  cs_pending_confirmations :: nat
  cs_turn_id :: "string option"

definition summary_from_parts ::
  "ConversationRuntimeStateService \<Rightarrow> string \<Rightarrow> ConversationStatus option \<Rightarrow> bool \<Rightarrow> nat \<Rightarrow>
   ConversationRuntimeSummary" where
  "summary_from_parts svc conv task_status has_task pending_confirmations =
     (let active_turn_id = active_turn_id_for svc conv;
          cancelling = is_cancelling svc conv;
          claimed = (active_turn_id \<noteq> None);
          st = (if pending_confirmations > 0 then KindWaitingConfirmation
                else if cancelling then KindCancelling
                else if claimed \<and> task_status \<noteq> Some Running then KindStarting
                else if claimed \<or> task_status = Some Running then KindRunning
                else KindIdle);
          is_processing = (st \<noteq> KindIdle)
      in \<lparr>cs_state = st, cs_can_send_message = (\<not> is_processing), cs_has_task = has_task,
          cs_task_status = task_status, cs_is_processing = is_processing,
          cs_pending_confirmations = pending_confirmations, cs_turn_id = active_turn_id\<rparr>)"

definition free_conversation :: "string \<Rightarrow> ConversationRuntimeState \<Rightarrow> ConversationRuntimeState" where
  "free_conversation conv st = st\<lparr>active_turns := AList.delete conv (active_turns st),
     deleting_conversations := deleting_conversations st - {conv},
     cancelling_conversations := cancelling_conversations st - {conv}\<rparr>"

lemma free_conversation_simps [simp]:
  "active_turns (free_conversation c st) = AList.delete c (active_turns st)"
  "deleting_conversations (free_conversation c st) = deleting_conversations st - {c}"
  "cancelling_conversations (free_conversation c st) = cancelling_conversations st - {c}"
  "shutting_down (free_conversation c st) = shutting_down st"
  by (simp_all add: free_conversation_def)

definition release_turn ::
  "string \<Rightarrow> string \<Rightarrow> ConversationRuntimeStateService \<Rightarrow> bool \<times> ConversationRuntimeStateService" where
  "release_turn conv turn svc =
     (let st = rs_state svc in
      if rs_poisoned svc then (False, svc)
      else if map_of (active_turns st) conv \<noteq> Some turn then (False, svc)
      else (conv \<in> deleting_conversations st,
            svc\<lparr>rs_state := free_conversation conv st, rs_release_notify := rs_release_notify svc + 1\<rparr>))"

text \<open>\<open>TurnClaim\<close>: \<open>release\<close> and \<open>drop\<close> are \<open>release_inner\<close>.\<close>

definition release_inner ::
  "bool \<Rightarrow> TurnClaim \<Rightarrow> ConversationRuntimeStateService \<Rightarrow>
   bool \<times> TurnClaim \<times> ConversationRuntimeStateService" where
  "release_inner alive claim svc =
     (if tc_released claim then (False, claim, svc)
      else let (was_deleting, svc') =
             (if alive then release_turn (tc_conversation_id claim) (tc_turn_id claim) svc else (False, svc))
           in (was_deleting, claim\<lparr>tc_released := True\<rparr>, svc'))"

definition release_for_turn ::
  "bool \<Rightarrow> string \<Rightarrow> TurnClaim \<Rightarrow> ConversationRuntimeStateService \<Rightarrow>
   bool \<times> TurnClaim \<times> ConversationRuntimeStateService" where
  "release_for_turn alive turn claim svc =
     (if tc_turn_id claim \<noteq> turn then (False, claim, svc) else release_inner alive claim svc)"

text \<open>
  The guard of \<open>ConversationService::cancel\<close> (\<open>service.rs\<close>): a cancellation for a turn that is not
  the active one is ignored. The service looks up the agent and marks the conversation after
  this check, without holding the lock in between.
\<close>

definition cancel_applies :: "ConversationRuntimeStateService \<Rightarrow> string \<Rightarrow> string \<Rightarrow> bool" where
  "cancel_applies svc conv turn \<longleftrightarrow> active_turn_id_for svc conv = Some turn"

section \<open>Write policy\<close>

datatype RuntimeWriteKind =
    UserMessage | AssistantTextCreate | AssistantTextFlush | AssistantTextFinalize
  | AssistantThinkingFinalize | ToolCallPersist | AcpToolCallPersist | ToolGroupPersist
  | TerminalFinalize | ConversationFinished | SendFailureTip | SessionKey | AcpRecoveryCleanup
  | ResolvedWorkspace | StartupRecovery

datatype RuntimeWriteDecision = Allow | Skip RuntimeLifecycleState

definition decide :: "ConversationRuntimeStateService \<Rightarrow> string \<Rightarrow> RuntimeWriteKind \<Rightarrow> RuntimeWriteDecision" where
  "decide svc conv kind =
     (let lifecycle = lifecycle_for svc conv;
          allow = (case lifecycle of
              Active \<Rightarrow> True
            | Deleting \<Rightarrow> kind = UserMessage
            | Cancelling \<Rightarrow> kind \<in> {AssistantTextCreate, AssistantTextFlush, AssistantTextFinalize,
                AssistantThinkingFinalize, ToolCallPersist, AcpToolCallPersist, ToolGroupPersist,
                TerminalFinalize, ConversationFinished}
            | ShuttingDown \<Rightarrow> kind = UserMessage)
      in if allow then Allow else Skip lifecycle)"

definition allows :: "ConversationRuntimeStateService \<Rightarrow> string \<Rightarrow> RuntimeWriteKind \<Rightarrow> bool" where
  "allows svc conv kind \<longleftrightarrow> decide svc conv kind = Allow"

section \<open>The system of claims\<close>

text \<open>
  The service together with every claim handed out, in any interleaving of its operations. The
  critical sections cannot panic, so the mutex is never poisoned in these states.
\<close>

record TurnSystem =
  ts_service :: ConversationRuntimeStateService
  ts_claims :: "TurnClaim list"

inductive turn_step :: "TurnSystem \<Rightarrow> TurnSystem \<Rightarrow> bool" where
  claim: "try_claim_turn conv turn (ts_service y) = (Inr c, svc') \<Longrightarrow>
    turn_step y \<lparr>ts_service = svc', ts_claims = ts_claims y @ [c]\<rparr>"
| claim_rejected: "try_claim_turn conv turn (ts_service y) = (Inl e, svc') \<Longrightarrow>
    turn_step y (y\<lparr>ts_service := svc'\<rparr>)"
| release: "i < length (ts_claims y) \<Longrightarrow>
    release_inner True (ts_claims y ! i) (ts_service y) = (was_deleting, c', svc') \<Longrightarrow>
    turn_step y \<lparr>ts_service = svc', ts_claims = (ts_claims y)[i := c']\<rparr>"
| release_for: "i < length (ts_claims y) \<Longrightarrow>
    release_for_turn True turn (ts_claims y ! i) (ts_service y) = (was_deleting, c', svc') \<Longrightarrow>
    turn_step y \<lparr>ts_service = svc', ts_claims = (ts_claims y)[i := c']\<rparr>"
| mark_deleting: "turn_step y (y\<lparr>ts_service := snd (mark_deleting conv (ts_service y))\<rparr>)"
| clear_deleting: "turn_step y (y\<lparr>ts_service := clear_deleting conv (ts_service y)\<rparr>)"
| mark_cancelling: "turn_step y (y\<lparr>ts_service := mark_cancelling conv (ts_service y)\<rparr>)"
| clear_cancelling: "turn_step y (y\<lparr>ts_service := clear_cancelling conv (ts_service y)\<rparr>)"
| shut_down: "turn_step y (y\<lparr>ts_service := snd (mark_shutting_down (ts_service y))\<rparr>)"

definition turn_init :: "TurnSystem \<Rightarrow> bool" where
  "turn_init y \<longleftrightarrow> y = \<lparr>ts_service = new_runtime_state, ts_claims = []\<rparr>"

abbreviation turn_reach :: "TurnSystem \<Rightarrow> bool" where
  "turn_reach \<equiv> reach turn_init turn_step"

section \<open>The abstract lock\<close>

text \<open>
  What the service promises: per conversation at most one holder, that a closed conversation
  gets none, and that only its holder gives it back.
\<close>

inductive mutex_step :: "(string \<Rightarrow> bool) \<Rightarrow> (string \<Rightarrow> string option) \<Rightarrow> (string \<Rightarrow> string option) \<Rightarrow> bool"
  for closed where
  acquire: "h c = None \<Longrightarrow> \<not> closed c \<Longrightarrow> mutex_step closed h (h(c \<mapsto> t))"
| give_back: "h c = Some t \<Longrightarrow> mutex_step closed h (h(c := None))"
| stutter: "mutex_step closed h h"

definition holds :: "TurnSystem \<Rightarrow> nat \<Rightarrow> string \<Rightarrow> string \<Rightarrow> bool" where
  "holds y i c t \<longleftrightarrow> i < length (ts_claims y) \<and> \<not> tc_released (ts_claims y ! i)
     \<and> tc_conversation_id (ts_claims y ! i) = c \<and> tc_turn_id (ts_claims y ! i) = t"

abbreviation turns :: "TurnSystem \<Rightarrow> string \<Rightarrow> string option" where
  "turns y \<equiv> map_of (active_turns (rs_state (ts_service y)))"

definition turn_inv :: "TurnSystem \<Rightarrow> bool" where
  "turn_inv y \<longleftrightarrow> \<not> rs_poisoned (ts_service y) \<and> keyed (active_turns (rs_state (ts_service y)))
     \<and> (\<forall>c t. turns y c = Some t \<longleftrightarrow> (\<exists>i. holds y i c t))
     \<and> (\<forall>i j c t t'. holds y i c t \<and> holds y j c t' \<longrightarrow> i = j)"

lemma marks_keep_turns [simp]:
  "active_turns (rs_state (snd (mark_deleting c svc))) = active_turns (rs_state svc)"
  "active_turns (rs_state (clear_deleting c svc)) = active_turns (rs_state svc)"
  "active_turns (rs_state (mark_cancelling c svc)) = active_turns (rs_state svc)"
  "active_turns (rs_state (clear_cancelling c svc)) = active_turns (rs_state svc)"
  "active_turns (rs_state (snd (mark_shutting_down svc))) = active_turns (rs_state svc)"
  "rs_poisoned (snd (mark_deleting c svc)) = rs_poisoned svc"
  "rs_poisoned (clear_deleting c svc) = rs_poisoned svc"
  "rs_poisoned (mark_cancelling c svc) = rs_poisoned svc"
  "rs_poisoned (clear_cancelling c svc) = rs_poisoned svc"
  "rs_poisoned (snd (mark_shutting_down svc)) = rs_poisoned svc"
  by (simp_all add: mark_deleting_def clear_deleting_def mark_cancelling_def clear_cancelling_def
      mark_shutting_down_def)

lemma turn_system_eta [simp]: "\<lparr>ts_service = ts_service y, ts_claims = ts_claims y\<rparr> = y"
  by (cases y) simp

lemma turn_inv_service:
  assumes "turn_inv y" "active_turns (rs_state svc) = active_turns (rs_state (ts_service y))"
    "rs_poisoned svc = rs_poisoned (ts_service y)"
  shows "turn_inv (y\<lparr>ts_service := svc\<rparr>)"
  using assms by (simp add: turn_inv_def holds_def)

lemma try_claim_turn_Inr:
  "try_claim_turn conv turn svc = (Inr c, svc') \<Longrightarrow>
     c = \<lparr>tc_conversation_id = conv, tc_turn_id = turn, tc_released = False\<rparr>
     \<and> map_of (active_turns (rs_state svc)) conv = None
     \<and> active_turns (rs_state svc') = AList.update conv turn (active_turns (rs_state svc))
     \<and> \<not> shutting_down (rs_state svc) \<and> conv \<notin> deleting_conversations (rs_state svc)
     \<and> \<not> rs_poisoned svc \<and> \<not> rs_poisoned svc'"
  by (auto simp: try_claim_turn_def Let_def split: if_splits)

lemma try_claim_turn_Inl: "try_claim_turn conv turn svc = (Inl e, svc') \<Longrightarrow> svc' = svc"
  by (auto simp: try_claim_turn_def Let_def split: if_splits)

lemma holds_claim:
  "holds \<lparr>ts_service = svc', ts_claims = ts_claims y @ [\<lparr>tc_conversation_id = conv, tc_turn_id = turn, tc_released = False\<rparr>]\<rparr> i c t
   \<longleftrightarrow> holds y i c t \<or> i = length (ts_claims y) \<and> c = conv \<and> t = turn"
  by (auto simp: holds_def nth_append less_Suc_eq)

lemma claim_inv:
  assumes inv: "turn_inv y" and res: "try_claim_turn conv turn (ts_service y) = (Inr c, svc')"
  shows "turn_inv \<lparr>ts_service = svc', ts_claims = ts_claims y @ [c]\<rparr>"
proof -
  note c = try_claim_turn_Inr [OF res]
  have none: "\<not> holds y i conv t" for i t
    using inv c unfolding turn_inv_def by (metis option.distinct(1))
  show ?thesis
    using inv c none unfolding turn_inv_def
    by (auto simp: holds_claim update_conv') blast
qed

lemma release_live:
  assumes inv: "turn_inv y" and i: "i < length (ts_claims y)" "\<not> tc_released (ts_claims y ! i)"
  defines "c \<equiv> tc_conversation_id (ts_claims y ! i)"
  shows "release_inner True (ts_claims y ! i) (ts_service y) =
    (c \<in> deleting_conversations (rs_state (ts_service y)), (ts_claims y ! i)\<lparr>tc_released := True\<rparr>,
     snd (release_turn c (tc_turn_id (ts_claims y ! i)) (ts_service y)))
    \<and> turns y c = Some (tc_turn_id (ts_claims y ! i))"
proof -
  have "holds y i c (tc_turn_id (ts_claims y ! i))" using i by (simp add: holds_def c_def)
  then have "turns y c = Some (tc_turn_id (ts_claims y ! i))" using inv by (auto simp: turn_inv_def)
  with inv i show ?thesis
    by (simp add: release_inner_def release_turn_def c_def turn_inv_def Let_def)
qed

lemma holds_release:
  "i < length (ts_claims y) \<Longrightarrow>
   holds \<lparr>ts_service = svc', ts_claims = (ts_claims y)[i := (ts_claims y ! i)\<lparr>tc_released := True\<rparr>]\<rparr> j c t
   \<longleftrightarrow> holds y j c t \<and> j \<noteq> i"
  by (auto simp: holds_def nth_list_update)

lemma release_effect:
  assumes inv: "turn_inv y" and i: "i < length (ts_claims y)"
    and res: "release_inner True (ts_claims y ! i) (ts_service y) = (d, c', svc')"
  shows "tc_released (ts_claims y ! i) \<and> \<not> d \<and> c' = ts_claims y ! i \<and> svc' = ts_service y
    \<or> (\<exists>c t. holds y i c t \<and> turns y c = Some t \<and> c' = (ts_claims y ! i)\<lparr>tc_released := True\<rparr>
        \<and> (d \<longleftrightarrow> c \<in> deleting_conversations (rs_state (ts_service y)))
        \<and> svc' = (ts_service y)\<lparr>rs_state := free_conversation c (rs_state (ts_service y)),
             rs_release_notify := rs_release_notify (ts_service y) + 1\<rparr>)"
proof (cases "tc_released (ts_claims y ! i)")
  case True
  then show ?thesis using res by (simp add: release_inner_def)
next
  case False
  let ?c = "tc_conversation_id (ts_claims y ! i)" and ?t = "tc_turn_id (ts_claims y ! i)"
  from release_live [OF inv i False] res inv have "holds y i ?c ?t" "turns y ?c = Some ?t"
    and "(d, c', svc') = (?c \<in> deleting_conversations (rs_state (ts_service y)),
        (ts_claims y ! i)\<lparr>tc_released := True\<rparr>, snd (release_turn ?c ?t (ts_service y)))" and "\<not> rs_poisoned (ts_service y)"
    using i False by (simp_all add: holds_def turn_inv_def)
  then show ?thesis by (intro disjI2 exI [of _ ?c] exI [of _ ?t]) (simp add: release_turn_def Let_def)
qed

lemma release_inv:
  assumes inv: "turn_inv y" and i: "i < length (ts_claims y)"
    and res: "release_inner True (ts_claims y ! i) (ts_service y) = (d, c', svc')"
  shows "turn_inv \<lparr>ts_service = svc', ts_claims = (ts_claims y)[i := c']\<rparr>"
  using release_effect [OF assms]
proof (elim disjE exE conjE)
  fix c t
  assume c: "holds y i c t" "turns y c = Some t" "c' = (ts_claims y ! i)\<lparr>tc_released := True\<rparr>"
    and svc': "svc' = (ts_service y)\<lparr>rs_state := free_conversation c (rs_state (ts_service y)),
             rs_release_notify := rs_release_notify (ts_service y) + 1\<rparr>"
  have active: "turns y a = Some b \<longleftrightarrow> (\<exists>j. holds y j a b)"
    and uniq: "holds y j a b \<Longrightarrow> holds y k a b' \<Longrightarrow> j = k" for j k a b b'
    using inv unfolding turn_inv_def by blast+
  have conv: "holds y i a b \<Longrightarrow> a = c" for a b using c(1) by (simp add: holds_def)
  have "map_of (AList.delete c (active_turns (rs_state (ts_service y)))) a = Some b \<longleftrightarrow> (\<exists>j. holds y j a b \<and> j \<noteq> i)" for a b
  proof (cases "a = c")
    case True
    then show ?thesis using uniq [OF c(1)] by (auto simp: delete_conv')
  next
    case False
    then show ?thesis using conv [of a b] by (auto simp: delete_conv' active)
  qed
  with inv uniq show ?thesis
    unfolding turn_inv_def svc' c(3) by (simp add: holds_release [OF i]) blast
qed (use inv in simp)

lemma release_for_turn_cases:
  "release_for_turn alive turn claim svc = (d, c', svc') \<Longrightarrow>
   (c' = claim \<and> svc' = svc) \<or> release_inner alive claim svc = (d, c', svc')"
  by (auto simp: release_for_turn_def split: if_splits)

lemma turn_inv_step: "turn_inv y \<Longrightarrow> turn_step y z \<Longrightarrow> turn_inv z"
proof (erule turn_step.cases, goal_cases)
  case (4 i y turn d c' svc')
  then show ?case using release_for_turn_cases [OF 4(5)] release_inv [of y i] by auto
qed (auto intro: claim_inv release_inv turn_inv_service dest: try_claim_turn_Inl)

lemma turn_inv_init: "turn_init y \<Longrightarrow> turn_inv y"
  by (simp add: turn_init_def turn_inv_def new_runtime_state_def holds_def)

interpretation turn: machine turn_init turn_step turn_inv
  by unfold_locales (auto intro: turn_inv_init turn_inv_step)

section \<open>Properties\<close>

abbreviation conversation_closed :: "TurnSystem \<Rightarrow> string \<Rightarrow> bool" where
  "conversation_closed y c \<equiv> shutting_down (rs_state (ts_service y)) \<or> c \<in> deleting_conversations (rs_state (ts_service y))"

lemma release_step_mutex:
  assumes "turn_inv y" and "i < length (ts_claims y)"
    and "release_inner True (ts_claims y ! i) (ts_service y) = (d, c', svc')"
  shows "mutex_step closed (turns y) (map_of (active_turns (rs_state svc')))"
  using release_effect [OF assms]
  by (auto simp: delete_conv' intro: mutex_step.stutter mutex_step.give_back)

lemma turn_step_mutex:
  assumes inv: "turn_inv y" and step: "turn_step y z"
  shows "mutex_step (conversation_closed y) (turns y) (turns z)"
  using step
proof (cases rule: turn_step.cases)
  case (claim conv turn c svc')
  note c = try_claim_turn_Inr [OF claim(2)]
  then have "turns z = (turns y)(conv \<mapsto> turn)" using claim(1) by (simp add: update_conv')
  with c show ?thesis using mutex_step.acquire [of "turns y" conv "conversation_closed y" turn] by auto
next
  case (release i d c' svc')
  from release_step_mutex [OF inv release(2,3)] release(1) show ?thesis by simp
next
  case (release_for i turn d c' svc')
  from release_for_turn_cases [OF release_for(3)] show ?thesis
    using release_step_mutex [OF inv release_for(2)] release_for(1) by (auto intro: mutex_step.stutter)
qed (auto intro: mutex_step.stutter dest: try_claim_turn_Inl)

text \<open>
  C14: The turn slots of the conversations implement one lock per conversation: every step of
  a reachable system of claims is a step of the abstract lock (an acquire of a free, open
  conversation, a give-back or none), the active turn is the one of the only unreleased claim,
  and a turn that is gone had its claim released.
\<close>

theorem turn_claims_refine_a_mutex:
  assumes "turn_reach y" and "turn_step y z"
  shows "mutex_step (conversation_closed y) (turns y) (turns z)
    \<and> (turns y c = Some t \<longleftrightarrow> (\<exists>i. holds y i c t))
    \<and> (holds y i c t \<and> holds y j c t' \<longrightarrow> i = j)
    \<and> (holds y i c t \<and> turns z c \<noteq> Some t \<longrightarrow> \<not> holds z i c t)"
proof -
  from assms(1) have inv: "turn_inv y" by (rule turn.reach_inv)
  moreover from inv assms(2) have "turn_inv z" by (rule turn_inv_step)
  ultimately show ?thesis
    using turn_step_mutex [OF inv assms(2)] unfolding turn_inv_def by blast
qed

lemma shutdown_step:
  assumes inv: "turn_inv y" and down: "shutting_down (rs_state (ts_service y))" and step: "turn_step y z"
  shows "shutting_down (rs_state (ts_service z)) \<and> turns z \<subseteq>\<^sub>m turns y"
  using step
proof (cases rule: turn_step.cases)
  case (claim conv turn c svc')
  with try_claim_turn_Inr [OF claim(2)] down show ?thesis by simp
next
  case (release i d c' svc')
  with release_effect [OF inv release(2,3)] down show ?thesis by (auto simp: map_le_def delete_conv' split: if_splits)
next
  case (release_for i turn d c' svc')
  with release_for_turn_cases [OF release_for(3)] release_effect [OF inv release_for(2)] down
  show ?thesis by (auto simp: map_le_def delete_conv' split: if_splits)
qed (use down in \<open>auto simp: mark_deleting_def clear_deleting_def mark_cancelling_def clear_cancelling_def
       mark_shutting_down_def dest: try_claim_turn_Inl\<close>)

lemma shutdown_closed:
  assumes "turn_reach y" "shutting_down (rs_state (ts_service y))" "turn_step\<^sup>*\<^sup>* y z"
  shows "shutting_down (rs_state (ts_service z)) \<and> turns z \<subseteq>\<^sub>m turns y"
  by (rule turn.stable_from_reach [where P = "\<lambda>z. shutting_down (rs_state (ts_service z)) \<and> turns z \<subseteq>\<^sub>m turns y",
        OF assms(1,3)])
     (use assms(2) shutdown_step in \<open>auto intro: map_le_trans\<close>)

theorem shutdown_admits_no_turn:
  assumes "turn_reach y" "shutting_down (rs_state (ts_service y))" "turn_step\<^sup>*\<^sup>* y z"
  shows "(\<exists>e. try_claim_turn conv turn (ts_service z) = (Inl e, ts_service z))
    \<and> (active_turn_id_for (ts_service z) conv = Some t \<longrightarrow> active_turn_id_for (ts_service y) conv = Some t)
    \<and> (allows (ts_service z) conv kind \<longrightarrow> kind = UserMessage)"
proof -
  have down: "shutting_down (rs_state (ts_service z))" and le: "turns z \<subseteq>\<^sub>m turns y"
    using shutdown_closed [OF assms] by blast+
  have "\<not> rs_poisoned (ts_service y)" using turn.reach_inv [OF assms(1)] by (simp add: turn_inv_def)
  with down le show ?thesis
    by (auto simp: try_claim_turn_def Let_def active_turn_id_for_def allows_def decide_def lifecycle_for_def
        map_le_def dom_def split: if_splits)
qed

theorem deletion_is_handed_to_the_holder:
  assumes "turn_reach y" and "holds y i c t" and "is_deleting (ts_service y) c"
    and "release_inner True (ts_claims y ! i) (ts_service y) = (was_deleting, claim, svc)"
  shows "was_deleting \<and> \<not> is_claimed svc c \<and> \<not> is_deleting svc c \<and> \<not> is_cancelling svc c
    \<and> rs_release_notify svc = rs_release_notify (ts_service y) + 1
    \<and> release_inner True claim svc' = (False, claim, svc')"
proof -
  have inv: "turn_inv y" using assms(1) by (rule turn.reach_inv)
  have i: "i < length (ts_claims y)" "\<not> tc_released (ts_claims y ! i)" "tc_conversation_id (ts_claims y ! i) = c"
    using assms(2) by (auto simp: holds_def)
  with release_effect [OF inv i(1) assms(4)] assms(3) show ?thesis
    by (auto simp: holds_def is_deleting_def is_claimed_def is_cancelling_def release_inner_def delete_conv')
qed

theorem finished_turn_reopens_a_deleting_conversation:
  assumes "turn_reach y" and "holds y i c t" and "\<not> is_shutting_down (ts_service y)"
    and "mark_deleting c (ts_service y) = (had_active_turn, svc1)"
    and "release_inner True (ts_claims y ! i) svc1 = (was_deleting, claim, svc2)"
  shows "had_active_turn \<and> was_deleting \<and> (\<exists>claim2 svc3. try_claim_turn c t2 svc2 = (Inr claim2, svc3))"
proof -
  let ?z = "y\<lparr>ts_service := svc1\<rparr>"
  have z: "turn_reach ?z"
    using reach_step [OF assms(1) turn_step.mark_deleting [of y c]] assms(4) by simp
  have hz: "holds ?z i c t" using assms(2) by (simp add: holds_def)
  then have i: "i < length (ts_claims ?z)" "\<not> tc_released (ts_claims ?z ! i)" "tc_conversation_id (ts_claims ?z ! i) = c"
    by (auto simp: holds_def)
  have "turns y c = Some t" using turn.reach_inv [OF assms(1)] assms(2) by (auto simp: turn_inv_def)
  moreover have "release_inner True (ts_claims ?z ! i) (ts_service ?z) = (was_deleting, claim, svc2)"
    using assms(5) by simp
  note release_effect [OF turn.reach_inv [OF z] i(1) this]
  ultimately show ?thesis
    using i assms(3,4)
    by (auto simp: holds_def mark_deleting_def is_shutting_down_def try_claim_turn_def Let_def delete_conv' split: if_splits)
qed

section \<open>Example\<close>

definition demo_turn :: TurnSystem where
  "demo_turn = \<lparr>ts_service = snd (try_claim_turn ''c'' ''t1'' new_runtime_state),
     ts_claims = [\<lparr>tc_conversation_id = ''c'', tc_turn_id = ''t1'', tc_released = False\<rparr>]\<rparr>"

lemma demo_turn_reach: "turn_reach demo_turn"
proof -
  have "turn_reach \<lparr>ts_service = new_runtime_state, ts_claims = []\<rparr>"
    by (rule reach_init) (simp add: turn_init_def)
  moreover have "turn_step \<lparr>ts_service = new_runtime_state, ts_claims = []\<rparr> demo_turn"
    using turn_step.claim [of "''c''" "''t1''" "\<lparr>ts_service = new_runtime_state, ts_claims = []\<rparr>"]
    by (simp add: demo_turn_def try_claim_turn_def new_runtime_state_def)
  ultimately show ?thesis by (rule reach_step)
qed

lemma demo_turn_holds: "holds demo_turn 0 ''c'' ''t1''"
  by (simp add: holds_def demo_turn_def)

theorem turn_claims_refine_a_mutex_witness:
  "mutex_step (conversation_closed demo_turn) (turns demo_turn)
     (turns (demo_turn\<lparr>ts_service := mark_cancelling ''c'' (ts_service demo_turn)\<rparr>))"
  using turn_claims_refine_a_mutex [OF demo_turn_reach turn_step.mark_cancelling [of demo_turn "''c''"]] by blast

theorem shutdown_admits_no_turn_witness:
  "\<exists>e. try_claim_turn ''d'' ''t2'' (snd (mark_shutting_down (ts_service demo_turn))) =
     (Inl e, snd (mark_shutting_down (ts_service demo_turn)))"
proof -
  let ?y = "demo_turn\<lparr>ts_service := snd (mark_shutting_down (ts_service demo_turn))\<rparr>"
  have "turn_reach ?y" by (rule reach_step [OF demo_turn_reach turn_step.shut_down])
  moreover have "shutting_down (rs_state (ts_service ?y))"
    by (simp add: mark_shutting_down_def demo_turn_def try_claim_turn_def new_runtime_state_def)
  ultimately show ?thesis using shutdown_admits_no_turn [of ?y ?y "''d''" "''t2''"] by simp
qed

theorem deletion_is_handed_to_the_holder_witness:
  "fst (release_inner True (ts_claims demo_turn ! 0) (snd (mark_deleting ''c'' (ts_service demo_turn))))"
proof -
  let ?y = "demo_turn\<lparr>ts_service := snd (mark_deleting ''c'' (ts_service demo_turn))\<rparr>"
  have y: "turn_reach ?y" by (rule reach_step [OF demo_turn_reach turn_step.mark_deleting])
  moreover have "holds ?y 0 ''c'' ''t1''" using demo_turn_holds by (simp add: holds_def)
  moreover have "is_deleting (ts_service ?y) ''c''"
    by (simp add: is_deleting_def mark_deleting_def demo_turn_def try_claim_turn_def new_runtime_state_def)
  moreover obtain d c s where "release_inner True (ts_claims ?y ! 0) (ts_service ?y) = (d, c, s)"
    by (metis prod_cases3)
  ultimately show ?thesis using deletion_is_handed_to_the_holder [of ?y 0 "''c''" "''t1''"] by fastforce
qed

theorem finished_turn_reopens_a_deleting_conversation_witness:
  "\<exists>claim svc. try_claim_turn ''c'' ''t2''
     (snd (snd (release_inner True (ts_claims demo_turn ! 0) (snd (mark_deleting ''c'' (ts_service demo_turn)))))) =
     (Inr claim, svc)"
proof -
  have "\<not> is_shutting_down (ts_service demo_turn)"
    by (simp add: is_shutting_down_def demo_turn_def try_claim_turn_def new_runtime_state_def)
  then show ?thesis
    using finished_turn_reopens_a_deleting_conversation [OF demo_turn_reach demo_turn_holds, of _ _ _ _ _ "''t2''"]
    by (metis prod.exhaust_sel)
qed

theorem late_cancel_marks_the_next_turn:
  "let svc0 = ts_service demo_turn;
       (_, _, svc1) = release_inner True (ts_claims demo_turn ! 0) svc0;
       svc2 = mark_cancelling ''c'' svc1;
       (claimed, svc3) = try_claim_turn ''c'' ''t2'' svc2
   in cancel_applies svc0 ''c'' ''t1'' \<and> \<not> is_claimed svc2 ''c''
     \<and> \<not> cs_can_send_message (summary_from_parts svc2 ''c'' None False 0)
     \<and> isl claimed = False \<and> active_turn_id_for svc3 ''c'' = Some ''t2''
     \<and> \<not> allows svc3 ''c'' UserMessage"
  by code_simp

end
