(* ===== verification/Stream_Relay.thy ===== *)
theory Stream_Relay
  imports Conversation_Turns
begin

text \<open>
  The relay between a running agent and a conversation
  (\<open>crates/tjuaeui-conversation/src/stream_relay.rs\<close>) and the adapter through which it writes the
  messages (\<open>stream_persistence.rs\<close>).

  The relay runs concurrently with everything else that uses the conversation. What it reads from
  outside is therefore a function of time: a \<open>World\<close> gives for every tick the runtime state of the
  conversations, the clock, a fresh message id and whether the database serves a request, and every
  access to one of them takes a tick, so that two accesses may see different states. The messages
  table and the broadcasts are in the context \<open>RelayCtx\<close>. The regular expressions of the middleware,
  the skill loader and SQLite's \<open>json_patch\<close> are parameters. Values of type \<open>serde_json::Value\<close> and the payloads
  the relay only passes on are of a type parameter; log output has no model.
\<close>

section \<open>Events\<close>

datatype AgentErrorOwnership = OwnerTjuaeUI | UserAgent | UserLlmProvider | UnknownUpstream

datatype AgentErrorCode =
    TjuaeUIConversationBusy | TjuaeUIStreamBroken | TjuaeUIStateInconsistent | TjuaeUIPermissionError
  | TjuaeUIInternalError | WorkspacePathRuntimeUnavailable | UserAgentHandshakeFailed
  | UserAgentHandshakeTimeout | UserAgentAcpInitFailed | UserAgentProtocolMismatch | UserAgentNotInstalled
  | UserAgentStartupFailed | UserAgentOpenClawGatewayUnreachable | UserAgentDisconnected
  | UserAgentAuthRequired | UserAgentSessionNotFound | UserAgentNoPreviousSession
  | UserAgentProtocolParseError | UserAgentInvalidRequest | UserAgentResourceNotFound
  | UserAgentProtocolError | UserAgentCommandNotFound | UserAgentMissingEnv | UserAgentUnsupportedMethod
  | UserAgentInvalidParams | UserLlmProviderAuthFailed | UserLlmProviderAwsSsoExpired
  | UserLlmProviderPermissionDenied | UserLlmProviderBillingRequired | UserLlmProviderConfigError
  | UserLlmProviderModelNotFound | UserLlmProviderUnsupportedModel | UserLlmProviderEndpointNotFound
  | UserLlmProviderInvalidRequest | UserLlmProviderInvalidToolSchema | UserLlmProviderContextTooLarge
  | UserLlmProviderRateLimited | UserLlmProviderTimeout | UserLlmProviderNetworkError
  | UserLlmProviderEmptyResponse | UserLlmProviderGatewayError | UnknownUpstreamError

datatype AgentErrorResolutionKind =
    RetryKind | WaitForCurrentResponse | StartNewSession | ReconnectAgent | CheckAgentLogin
  | CheckAgentInstallation | CheckAgentVersion | CheckLocalCommand | CheckProviderCredentials
  | CheckProviderBilling | CheckProviderBaseUrl | ChangeModel | ReduceContext | SendFeedback

datatype AgentErrorResolutionTarget = ProviderSettings | AgentSettings | NewConversation | Feedback

record AgentStreamErrorData =
  ed_message :: string
  ed_code :: "AgentErrorCode option"
  ed_ownership :: "AgentErrorOwnership option"
  ed_detail :: "string option"
  ed_workspace_path :: "string option"
  ed_retryable :: "bool option"
  ed_feedback_recommended :: "bool option"
  ed_resolution :: "(AgentErrorResolutionKind \<times> AgentErrorResolutionTarget option) option"

record AgentSendError =
  se_stream_error :: AgentStreamErrorData

datatype TipType = TipError | TipInfo | TipSuccess | TipWarning

record 'j TipsEventData =
  tip_content :: string
  tip_type :: TipType
  tip_code :: "string option"
  tip_params :: "'j option"

datatype ToolCallStatus = ToolRunning | ToolCompleted | ToolError | ToolCanceled

record 'j ToolCallEventData =
  tcd_call_id :: string
  tcd_name :: string
  tcd_args :: 'j
  tcd_status :: ToolCallStatus
  tcd_input :: "'j option"
  tcd_output :: "string option"
  tcd_description :: "string option"

datatype AcpToolCallStatus = AcpPending | AcpInProgress | AcpCompleted | AcpFailed

text \<open>The fields of an ACP tool call that are only stored are one payload.\<close>

record 'j AcpToolCallEventData =
  acd_session_id :: string
  acd_tool_call_id :: string
  acd_status :: "AcpToolCallStatus option"
  acd_rest :: 'j

record ToolGroupEntry =
  tge_call_id :: string
  tge_name :: string
  tge_status :: ToolCallStatus
  tge_description :: "string option"

record ThinkingEventData =
  th_content :: string
  th_subject :: "string option"
  th_duration :: "u64 option"
  th_status :: "string option"

datatype 'j AgentStreamEvent =
    Start "string option"
  | Text string
  | Tips "'j TipsEventData"
  | ToolCall "'j ToolCallEventData"
  | AcpToolCall "'j AcpToolCallEventData"
  | ToolGroup "ToolGroupEntry list"
  | AgentStatus 'j
  | Thinking ThinkingEventData
  | Plan 'j
  | Permission 'j
  | AcpPermission 'j
  | SkillSuggest 'j
  | CronTrigger 'j
  | AcpModelInfo 'j
  | AcpModeInfo 'j
  | AcpConfigOption 'j
  | AcpSessionInfo 'j
  | AcpContextUsage 'j
  | AcpPromptHookWarning 'j
  | SlashCommandsUpdated 'j
  | AvailableCommands 'j
  | Finish "string option"
  | Error AgentStreamErrorData
  | System 'j
  | RequestTrace 'j
  | SessionAssigned string
  | SegmentBreak

section \<open>Outcome of a relay\<close>

record TurnAttemptSummary =
  saw_visible_output :: bool
  saw_tool_or_side_effect :: bool
  persisted_assistant_output :: bool
  terminal_error :: "AgentStreamErrorData option"
  terminal_error_deferred :: bool
  needs_auth :: bool

definition default_summary :: TurnAttemptSummary where
  "default_summary = \<lparr>saw_visible_output = False, saw_tool_or_side_effect = False,
     persisted_assistant_output = False, terminal_error = None, terminal_error_deferred = False,
     needs_auth = False\<rparr>"

definition safe_to_auto_replay :: "TurnAttemptSummary \<Rightarrow> bool" where
  "safe_to_auto_replay a \<longleftrightarrow>
     \<not> saw_visible_output a \<and> \<not> saw_tool_or_side_effect a \<and> \<not> persisted_assistant_output a"

definition merge_summary :: "TurnAttemptSummary \<Rightarrow> TurnAttemptSummary \<Rightarrow> TurnAttemptSummary" where
  "merge_summary self other =
     \<lparr>saw_visible_output = saw_visible_output self \<or> saw_visible_output other,
      saw_tool_or_side_effect = saw_tool_or_side_effect self \<or> saw_tool_or_side_effect other,
      persisted_assistant_output = persisted_assistant_output self \<or> persisted_assistant_output other,
      terminal_error = (if terminal_error other \<noteq> None then terminal_error other else terminal_error self),
      terminal_error_deferred = terminal_error_deferred self \<or> terminal_error_deferred other,
      needs_auth = needs_auth self \<or> needs_auth other\<rparr>"

datatype RelayTerminal = TerminalFinish | TerminalError "AgentErrorCode option" "bool option" | ChannelClosed

fun terminal_is_error :: "RelayTerminal \<Rightarrow> bool" where
  "terminal_is_error (TerminalError _ _) = True"
| "terminal_is_error _ = False"

fun terminal_code :: "RelayTerminal \<Rightarrow> AgentErrorCode option" where
  "terminal_code (TerminalError code _) = code"
| "terminal_code _ = None"

fun terminal_retryable :: "RelayTerminal \<Rightarrow> bool option" where
  "terminal_retryable (TerminalError _ retryable) = retryable"
| "terminal_retryable _ = None"

record RelayOutcome =
  ro_system_responses :: "string list"
  ro_terminal :: RelayTerminal
  ro_attempt :: TurnAttemptSummary

section \<open>Messages table, broadcasts and the world\<close>

datatype 'j MessageContent =
    TextContent string
  | ThinkingContent string int
  | ErrorTipContent AgentStreamErrorData
  | TipContent "'j TipsEventData"
  | ToolCallContent "'j ToolCallEventData"
  | AcpToolCallContent "'j AcpToolCallEventData"
  | ToolGroupContent "ToolGroupEntry list"
  | SendFailureContent "string option" AgentStreamErrorData

record 'j MessageRow =
  mr_id :: string
  mr_conversation_id :: string
  mr_msg_id :: "string option"
  mr_type :: string
  mr_content :: "'j MessageContent"
  mr_position :: "string option"
  mr_status :: "string option"
  mr_hidden :: bool
  mr_created_at :: int

record 'j MessageRowUpdate =
  mu_content :: "'j MessageContent option"
  mu_status :: "string option option"
  mu_hidden :: "bool option"

datatype 'j StreamPayload =
    Forward string "'j AgentStreamEvent"
  | FinalText string string bool
  | SystemResponse string string
  | TurnCompleted "ConversationRuntimeSummary option"
  | FailureTip "'j MessageRow"

record SendMessageData =
  sd_content :: string
  sd_msg_id :: string
  sd_turn_id :: "string option"
  sd_files :: "string list"
  sd_inject_skills :: "string list"

text \<open>What the relay and the turn orchestrator do to the outside, in order.\<close>

datatype 'j Effect =
    Broadcast "'j StreamPayload"
  | Sent SendMessageData
  | RecordedFailure string string
  | RecordedSuccess
  | KilledTask
  | ClearedPersistedModel
  | ClearedModelSeed
  | AnchorRefreshed
  | ClaimReleased bool

text \<open>The entries of the JSON object \<open>extra\<close> of a conversation that a turn reads or writes.\<close>

record ConversationExtra =
  ex_workspace :: "string option"
  ex_session_key :: "string option"
  ex_current_model_id :: "string option"

record 'j RelayCtx =
  cx_tick :: nat
  cx_messages :: "(string \<times> 'j MessageRow) list"
  cx_status :: "string option"
  cx_extra :: ConversationExtra
  cx_log :: "'j Effect list"

record 'j World =
  w_svc :: "nat \<Rightarrow> ConversationRuntimeStateService"
  w_db :: "nat \<Rightarrow> bool"
  w_now :: "nat \<Rightarrow> int"
  w_mint :: "nat \<Rightarrow> string"
  w_strip_think_tags :: "string \<Rightarrow> string"
  w_skill_captures :: "string \<Rightarrow> string list"
  w_load_skill_bodies :: "(string list \<Rightarrow> (string \<times> string) list) option"
  w_patch :: "'j MessageContent \<Rightarrow> 'j MessageContent \<Rightarrow> 'j MessageContent"
  w_patch_keep_status :: "'j MessageContent \<Rightarrow> 'j MessageContent \<Rightarrow> 'j MessageContent"

definition tick :: "'j RelayCtx \<Rightarrow> 'j RelayCtx" where
  "tick c = c\<lparr>cx_tick := Suc (cx_tick c)\<rparr>"

definition emit :: "'j Effect \<Rightarrow> 'j RelayCtx \<Rightarrow> 'j RelayCtx" where
  "emit e c = c\<lparr>cx_log := cx_log c @ [e]\<rparr>"

definition now_ms :: "'j World \<Rightarrow> 'j RelayCtx \<Rightarrow> int \<times> 'j RelayCtx" where
  "now_ms w c = (w_now w (cx_tick c), tick c)"

definition mint_msg_id :: "'j World \<Rightarrow> 'j RelayCtx \<Rightarrow> string \<times> 'j RelayCtx" where
  "mint_msg_id w c = (w_mint w (cx_tick c), tick c)"

text \<open>
  \<open>INSERT\<close> fails on a taken primary key or a missing conversation, \<open>UPDATE\<close> reports a missing row, and an upsert merges into
  an existing row (\<open>sqlite_conversation.rs\<close>).
\<close>

definition insert_message :: "'j World \<Rightarrow> 'j MessageRow \<Rightarrow> 'j RelayCtx \<Rightarrow> bool \<times> 'j RelayCtx" where
  "insert_message w row c =
     (if w_db w (cx_tick c) \<and> cx_status c \<noteq> None \<and> map_of (cx_messages c) (mr_id row) = None
      then (True, (tick c)\<lparr>cx_messages := cx_messages c @ [(mr_id row, row)]\<rparr>)
      else (False, tick c))"

definition apply_update :: "'j MessageRowUpdate \<Rightarrow> 'j MessageRow \<Rightarrow> 'j MessageRow" where
  "apply_update upd row = row\<lparr>
     mr_content := (case mu_content upd of Some x \<Rightarrow> x | None \<Rightarrow> mr_content row),
     mr_status := (case mu_status upd of Some x \<Rightarrow> x | None \<Rightarrow> mr_status row),
     mr_hidden := (case mu_hidden upd of Some x \<Rightarrow> x | None \<Rightarrow> mr_hidden row)\<rparr>"

definition update_message ::
  "'j World \<Rightarrow> string \<Rightarrow> 'j MessageRowUpdate \<Rightarrow> 'j RelayCtx \<Rightarrow> bool \<times> 'j RelayCtx" where
  "update_message w i upd c =
     (if mu_content upd = None \<and> mu_status upd = None \<and> mu_hidden upd = None then (True, tick c)
      else if w_db w (cx_tick c) \<and> map_of (cx_messages c) i \<noteq> None
      then (True, (tick c)\<lparr>cx_messages := AList.map_entry i (apply_update upd) (cx_messages c)\<rparr>)
      else (False, tick c))"

definition is_final_status :: "string option \<Rightarrow> bool" where
  "is_final_status s \<longleftrightarrow> s = Some ''finish'' \<or> s = Some ''error''"

definition merge_row :: "'j World \<Rightarrow> 'j MessageRow \<Rightarrow> 'j MessageRow \<Rightarrow> 'j MessageRow" where
  "merge_row w new old =
     (let late = is_final_status (mr_status old) \<and> mr_status new = Some ''work''
      in old\<lparr>
        mr_content := (if late then w_patch_keep_status w (mr_content old) (mr_content new)
                       else w_patch w (mr_content old) (mr_content new)),
        mr_status := (if late then mr_status old else mr_status new),
        mr_position := (case mr_position old of Some p \<Rightarrow> Some p | None \<Rightarrow> mr_position new),
        mr_hidden := mr_hidden new,
        mr_created_at := min (mr_created_at old) (mr_created_at new)\<rparr>)"

definition upsert_message :: "'j World \<Rightarrow> 'j MessageRow \<Rightarrow> 'j RelayCtx \<Rightarrow> bool \<times> 'j RelayCtx" where
  "upsert_message w row c =
     (if w_db w (cx_tick c) \<and> cx_status c \<noteq> None
      then (True, (tick c)\<lparr>cx_messages :=
              (if map_of (cx_messages c) (mr_id row) = None then cx_messages c @ [(mr_id row, row)]
               else AList.map_entry (mr_id row) (merge_row w row) (cx_messages c))\<rparr>)
      else (False, tick c))"

definition get_message_by_msg_id ::
  "'j World \<Rightarrow> string \<Rightarrow> string \<Rightarrow> string \<Rightarrow> 'j RelayCtx \<Rightarrow> 'j MessageRow option \<times> 'j RelayCtx" where
  "get_message_by_msg_id w conv msg_id typ c =
     ((if w_db w (cx_tick c)
       then find (\<lambda>row. mr_conversation_id row = conv \<and> mr_msg_id row = Some msg_id \<and> mr_type row = typ)
              (map snd (cx_messages c))
       else None), tick c)"

section \<open>Writing the messages\<close>

record StreamRelay =
  sr_conversation_id :: string
  sr_msg_id :: string
  sr_turn_id :: string
  sr_allowed_skill_names :: "string list"
  sr_has_runtime_state :: bool
  sr_has_persistence :: bool
  sr_complete_turn :: bool
  sr_defer_clean_terminal_errors :: bool

record TextSegmentState =
  ts_id :: string
  ts_buffer :: string
  ts_created_at :: int
  ts_record_created :: bool
  ts_flush_counter :: nat

record ThinkingSegmentState =
  hs_id :: string
  hs_buffer :: string
  hs_started_at :: int

record FinalTextOverride =
  fo_msg_id :: string
  fo_text :: string
  fo_hidden :: bool

definition allows_write :: "'j World \<Rightarrow> StreamRelay \<Rightarrow> RuntimeWriteKind \<Rightarrow> 'j RelayCtx \<Rightarrow> bool \<times> 'j RelayCtx" where
  "allows_write w r kind c =
     (\<not> sr_has_persistence r \<or> allows (w_svc w (cx_tick c)) (sr_conversation_id r) kind, tick c)"

definition left_row ::
  "StreamRelay \<Rightarrow> string \<Rightarrow> string option \<Rightarrow> string \<Rightarrow> 'j MessageContent \<Rightarrow> string \<Rightarrow> int \<Rightarrow> 'j MessageRow" where
  "left_row r i msg_id typ content status created_at =
     \<lparr>mr_id = i, mr_conversation_id = sr_conversation_id r, mr_msg_id = msg_id, mr_type = typ,
      mr_content = content, mr_position = Some ''left'', mr_status = Some status, mr_hidden = False,
      mr_created_at = created_at\<rparr>"

definition text_row :: "StreamRelay \<Rightarrow> TextSegmentState \<Rightarrow> string \<Rightarrow> 'j MessageRow" where
  "text_row r seg status =
     left_row r (ts_id seg) (Some (ts_id seg)) ''text'' (TextContent (ts_buffer seg)) status (ts_created_at seg)"

definition flush_text_segment ::
  "'j World \<Rightarrow> StreamRelay \<Rightarrow> TextSegmentState \<Rightarrow> 'j RelayCtx \<Rightarrow> TextSegmentState \<times> 'j RelayCtx" where
  "flush_text_segment w r seg c =
     (let (ok, c) = allows_write w r AssistantTextFlush c in
      if \<not> ok then (seg, c)
      else if ts_buffer seg = [] then (seg, c)
      else if ts_record_created seg
      then let (_, c) = update_message w (ts_id seg)
             \<lparr>mu_content = Some (TextContent (ts_buffer seg)), mu_status = Some (Some ''work''), mu_hidden = None\<rparr> c
           in (seg, c)
      else let (_, c) = insert_message w (text_row r seg ''work'') c
           in (seg\<lparr>ts_record_created := True\<rparr>, c))"

definition finalize_text_segment ::
  "'j World \<Rightarrow> StreamRelay \<Rightarrow> TextSegmentState \<Rightarrow> string \<Rightarrow> 'j RelayCtx \<Rightarrow> string option \<times> 'j RelayCtx" where
  "finalize_text_segment w r seg status c =
     (let (ok, c) = allows_write w r AssistantTextFinalize c in
      if \<not> ok then (None, c)
      else if ts_buffer seg = [] then (None, c)
      else let (stored, c) =
             (if ts_record_created seg
              then update_message w (ts_id seg)
                \<lparr>mu_content = Some (TextContent (ts_buffer seg)), mu_status = Some (Some status),
                 mu_hidden = Some False\<rparr> c
              else insert_message w (text_row r seg status) c)
           in (if stored then Some (ts_id seg) else None, c))"

definition hide_segment ::
  "'j World \<Rightarrow> string \<Rightarrow> string \<Rightarrow> FinalTextOverride list \<times> 'j RelayCtx \<Rightarrow> FinalTextOverride list \<times> 'j RelayCtx" where
  "hide_segment w status seg = (\<lambda>(overrides, c).
     let (_, c) = update_message w seg
           \<lparr>mu_content = None, mu_status = Some (Some status), mu_hidden = Some True\<rparr> c
     in (overrides @ [\<lparr>fo_msg_id = seg, fo_text = [], fo_hidden = True\<rparr>], c))"

definition show_segment :: "'j World \<Rightarrow> string \<Rightarrow> string \<Rightarrow> 'j RelayCtx \<Rightarrow> 'j RelayCtx" where
  "show_segment w status seg c =
     snd (update_message w seg \<lparr>mu_content = None, mu_status = Some (Some status), mu_hidden = Some False\<rparr> c)"

definition persist_final_text ::
  "'j World \<Rightarrow> StreamRelay \<Rightarrow> string list \<Rightarrow> string \<Rightarrow> string \<Rightarrow> bool \<Rightarrow> bool \<Rightarrow> 'j RelayCtx \<Rightarrow>
   FinalTextOverride list \<times> 'j RelayCtx" where
  "persist_final_text w r text_segments status final_text hidden rewrite_segments c =
     (let (ok, c) = allows_write w r TerminalFinalize c in
      if \<not> ok then ([], c)
      else case text_segments of
        primary_segment # rest \<Rightarrow>
          if rewrite_segments
          then let (_, c) = update_message w primary_segment
                     \<lparr>mu_content = Some (TextContent final_text), mu_status = Some (Some status),
                      mu_hidden = Some hidden\<rparr> c
               in fold (hide_segment w status) rest
                    ([\<lparr>fo_msg_id = primary_segment, fo_text = final_text, fo_hidden = hidden\<rparr>], c)
          else ([], fold (show_segment w status) text_segments c)
      | [] \<Rightarrow>
          if hidden then ([], c)
          else let (created_at, c) = now_ms w c;
                   (_, c) = insert_message w
                     (left_row r (sr_msg_id r) (Some (sr_msg_id r)) ''text'' (TextContent final_text) status created_at) c
               in ([], c))"

definition persist_error_tip :: "'j World \<Rightarrow> StreamRelay \<Rightarrow> AgentStreamErrorData \<Rightarrow> 'j RelayCtx \<Rightarrow> 'j RelayCtx" where
  "persist_error_tip w r data c =
     (let (ok, c) = allows_write w r TerminalFinalize c in
      if \<not> ok then c
      else let (i, c) = mint_msg_id w c; (created_at, c) = now_ms w c
           in snd (insert_message w (left_row r i None ''tips'' (ErrorTipContent data) ''error'' created_at) c))"

definition tip_status :: "TipType \<Rightarrow> string" where
  "tip_status t = (case t of TipError \<Rightarrow> ''error'' | _ \<Rightarrow> ''finish'')"

definition persist_tip :: "'j World \<Rightarrow> StreamRelay \<Rightarrow> 'j TipsEventData \<Rightarrow> 'j RelayCtx \<Rightarrow> 'j RelayCtx" where
  "persist_tip w r data c =
     (let (ok, c) = allows_write w r TerminalFinalize c in
      if \<not> ok then c
      else let (i, c) = mint_msg_id w c; (created_at, c) = now_ms w c
           in snd (insert_message w
                (left_row r i None ''tips'' (TipContent data) (tip_status (tip_type data)) created_at) c))"

definition persist_thinking_segment ::
  "'j World \<Rightarrow> StreamRelay \<Rightarrow> ThinkingSegmentState \<Rightarrow> int \<Rightarrow> 'j RelayCtx \<Rightarrow> 'j RelayCtx" where
  "persist_thinking_segment w r seg duration_ms c =
     (if hs_buffer seg = [] then c
      else let (ok, c) = allows_write w r AssistantThinkingFinalize c in
        if \<not> ok then c
        else snd (insert_message w (left_row r (hs_id seg) (Some (hs_id seg)) ''thinking''
               (ThinkingContent (hs_buffer seg) duration_ms) ''finish'' (hs_started_at seg)) c))"

definition tool_status :: "ToolCallStatus \<Rightarrow> string" where
  "tool_status s = (case s of
     ToolRunning \<Rightarrow> ''work'' | ToolCompleted \<Rightarrow> ''finish'' | ToolError \<Rightarrow> ''error'' | ToolCanceled \<Rightarrow> ''finish'')"

definition persist_tool_call :: "'j World \<Rightarrow> StreamRelay \<Rightarrow> 'j ToolCallEventData \<Rightarrow> 'j RelayCtx \<Rightarrow> 'j RelayCtx" where
  "persist_tool_call w r data c =
     (let (ok, c) = allows_write w r ToolCallPersist c in
      if \<not> ok then c
      else if trim (tcd_call_id data) = [] then c
      else let (created_at, c) = now_ms w c
           in snd (upsert_message w (left_row r (tcd_call_id data) (Some (tcd_call_id data)) ''tool_call''
                (ToolCallContent data) (tool_status (tcd_status data)) created_at) c))"

definition acp_tool_status :: "AcpToolCallStatus option \<Rightarrow> string" where
  "acp_tool_status s = (case s of
     Some AcpCompleted \<Rightarrow> ''finish'' | Some AcpFailed \<Rightarrow> ''error'' | _ \<Rightarrow> ''work'')"

definition persist_acp_tool_call ::
  "'j World \<Rightarrow> StreamRelay \<Rightarrow> 'j AcpToolCallEventData \<Rightarrow> 'j RelayCtx \<Rightarrow> 'j RelayCtx" where
  "persist_acp_tool_call w r data c =
     (let (ok, c) = allows_write w r AcpToolCallPersist c in
      if \<not> ok then c
      else let (created_at, c) = now_ms w c
           in snd (upsert_message w (left_row r (acd_tool_call_id data) (Some (acd_tool_call_id data))
                ''acp_tool_call'' (AcpToolCallContent data) (acp_tool_status (acd_status data)) created_at) c))"

definition persist_tool_group :: "'j World \<Rightarrow> StreamRelay \<Rightarrow> ToolGroupEntry list \<Rightarrow> 'j RelayCtx \<Rightarrow> 'j RelayCtx" where
  "persist_tool_group w r entries c =
     (let (ok, c) = allows_write w r ToolGroupPersist c in
      if \<not> ok then c
      else let all_done = list_all (\<lambda>e. tge_status e \<noteq> ToolRunning) entries;
               status = (if all_done then ''finish'' else ''work'');
               (group_id, c) = (case entries of e # _ \<Rightarrow> (tge_call_id e, c) | [] \<Rightarrow> mint_msg_id w c);
               (existing, c) = get_message_by_msg_id w (sr_conversation_id r) group_id ''tool_group'' c
           in if existing \<noteq> None
              then snd (update_message w group_id
                     \<lparr>mu_content = Some (ToolGroupContent entries), mu_status = Some (Some status), mu_hidden = None\<rparr> c)
              else let (created_at, c) = now_ms w c
                   in snd (insert_message w (left_row r group_id (Some group_id) ''tool_group''
                        (ToolGroupContent entries) status created_at) c))"

text \<open>\<open>RuntimeCompletionPublisher::publish\<close> and \<open>complete_conversation\<close>.\<close>

definition publish_completion ::
  "'j World \<Rightarrow> string \<Rightarrow> ConversationRuntimeSummary option \<Rightarrow> 'j RelayCtx \<Rightarrow> 'j RelayCtx" where
  "publish_completion w conv runtime c =
     (let allowed = allows (w_svc w (cx_tick c)) conv ConversationFinished; c = tick c in
      if \<not> allowed then c
      else let found = w_db w (cx_tick c) \<and> cx_status c \<noteq> None; c = tick c in
        if \<not> found then c
        else let updated = w_db w (cx_tick c); c = tick c in
          if \<not> updated then c
          else emit (Broadcast (TurnCompleted runtime)) (c\<lparr>cx_status := Some ''finished''\<rparr>))"

definition complete_conversation ::
  "'j World \<Rightarrow> StreamRelay \<Rightarrow> ConversationRuntimeSummary option \<Rightarrow> 'j RelayCtx \<Rightarrow> 'j RelayCtx" where
  "complete_conversation w r runtime c =
     (if sr_has_persistence r then publish_completion w (sr_conversation_id r) runtime c
      else let updated = w_db w (cx_tick c) \<and> cx_status c \<noteq> None; c = tick c;
               c = (if updated then c\<lparr>cx_status := Some ''finished''\<rparr> else c)
           in emit (Broadcast (TurnCompleted runtime)) c)"

section \<open>Middleware\<close>

definition detect_skill_load_requests :: "'j World \<Rightarrow> string \<Rightarrow> string list" where
  "detect_skill_load_requests w text =
     fold (\<lambda>cap names. let name = trim cap in if name = [] \<or> name \<in> set names then names else names @ [name])
       (w_skill_captures w text) []"

definition shared_load_skill_bodies ::
  "StreamRelay \<Rightarrow> (string list \<Rightarrow> (string \<times> string) list) \<Rightarrow> string list \<Rightarrow> (string \<times> string) list" where
  "shared_load_skill_bodies r load names =
     (if sr_allowed_skill_names r = [] then []
      else load (filter (\<lambda>name. name \<in> set (sr_allowed_skill_names r)) names))"

definition load_requested_skills :: "'j World \<Rightarrow> StreamRelay \<Rightarrow> string list \<Rightarrow> string list" where
  "load_requested_skills w r names =
     (if names = [] then []
      else case w_load_skill_bodies w of
        None \<Rightarrow> []
      | Some load \<Rightarrow> map (\<lambda>(name, body). ''[Skill: '' @ name @ '']'' @ [CHR 0x0A] @ body)
          (shared_load_skill_bodies r load names))"

definition process_final_text :: "'j World \<Rightarrow> StreamRelay \<Rightarrow> string \<Rightarrow> string \<times> string list" where
  "process_final_text w r text =
     (let cleaned = w_strip_think_tags w text
      in (cleaned, load_requested_skills w r (detect_skill_load_requests w cleaned)))"

section \<open>The relay loop\<close>

definition FLUSH_INTERVAL :: nat where
  "FLUSH_INTERVAL = 20"

record RelayState =
  rs_full_text_buffer :: string
  rs_text_segments :: "string list"
  rs_active_text :: "TextSegmentState option"
  rs_active_thinking :: "ThinkingSegmentState option"
  rs_used_primary :: bool
  rs_send_error_done :: bool
  rs_pending_send_error :: "AgentSendError option"
  rs_attempt :: TurnAttemptSummary

definition initial_relay_state :: "bool \<Rightarrow> RelayState" where
  "initial_relay_state has_send_error_rx =
     \<lparr>rs_full_text_buffer = [], rs_text_segments = [], rs_active_text = None, rs_active_thinking = None,
      rs_used_primary = False, rs_send_error_done = (\<not> has_send_error_rx), rs_pending_send_error = None,
      rs_attempt = default_summary\<rparr>"

definition relay_is_deleting :: "'j World \<Rightarrow> StreamRelay \<Rightarrow> 'j RelayCtx \<Rightarrow> bool \<times> 'j RelayCtx" where
  "relay_is_deleting w r c =
     (sr_has_runtime_state r \<and> is_deleting (w_svc w (cx_tick c)) (sr_conversation_id r), tick c)"

fun is_terminal_event :: "'j AgentStreamEvent \<Rightarrow> bool" where
  "is_terminal_event (Finish _) = True"
| "is_terminal_event (Error _) = True"
| "is_terminal_event _ = False"

fun terminal_from_event :: "'j AgentStreamEvent \<Rightarrow> RelayTerminal" where
  "terminal_from_event (Error data) = TerminalError (ed_code data) (ed_retryable data)"
| "terminal_from_event (Finish _) = TerminalFinish"
| "terminal_from_event _ = ChannelClosed"

definition mint_segment_msg_id ::
  "'j World \<Rightarrow> StreamRelay \<Rightarrow> RelayState \<Rightarrow> 'j RelayCtx \<Rightarrow> string \<times> RelayState \<times> 'j RelayCtx" where
  "mint_segment_msg_id w r st c =
     (if \<not> rs_used_primary st then (sr_msg_id r, st\<lparr>rs_used_primary := True\<rparr>, c)
      else let (i, c) = mint_msg_id w c in (i, st, c))"

definition forward :: "StreamRelay \<Rightarrow> 'j AgentStreamEvent \<Rightarrow> 'j RelayCtx \<Rightarrow> 'j RelayCtx" where
  "forward r ev = emit (Broadcast (Forward (sr_msg_id r) ev))"

definition forward_with_msg_id :: "string \<Rightarrow> 'j AgentStreamEvent \<Rightarrow> 'j RelayCtx \<Rightarrow> 'j RelayCtx" where
  "forward_with_msg_id i ev = emit (Broadcast (Forward i ev))"

definition send_thinking_done :: "string \<Rightarrow> int \<Rightarrow> 'j RelayCtx \<Rightarrow> 'j RelayCtx" where
  "send_thinking_done i duration =
     forward_with_msg_id i (Thinking \<lparr>th_content = [], th_subject = None, th_duration = Some (word_of_int duration),
       th_status = Some ''done''\<rparr>)"

definition complete_active_thinking ::
  "'j World \<Rightarrow> StreamRelay \<Rightarrow> RelayState \<times> 'j RelayCtx \<Rightarrow> RelayState \<times> 'j RelayCtx" where
  "complete_active_thinking w r = (\<lambda>(st, c).
     case rs_active_thinking st of
       None \<Rightarrow> (st, c)
     | Some segment \<Rightarrow>
         let (now, c) = now_ms w c;
             duration_ms = max 0 (now - hs_started_at segment);
             c = send_thinking_done (hs_id segment) duration_ms c
         in (st\<lparr>rs_active_thinking := None\<rparr>, persist_thinking_segment w r segment duration_ms c))"

definition close_active_text_segment ::
  "'j World \<Rightarrow> StreamRelay \<Rightarrow> string \<Rightarrow> RelayState \<times> 'j RelayCtx \<Rightarrow> RelayState \<times> 'j RelayCtx" where
  "close_active_text_segment w r status = (\<lambda>(st, c).
     case rs_active_text st of
       None \<Rightarrow> (st, c)
     | Some segment \<Rightarrow>
         let (stored, c) = finalize_text_segment w r segment status c;
             st = st\<lparr>rs_active_text := None\<rparr>
         in (case stored of
               Some i \<Rightarrow> (st\<lparr>rs_text_segments := rs_text_segments st @ [i]\<rparr>, c)
             | None \<Rightarrow> (st, c)))"

text \<open>Both open segments are closed, thinking first.\<close>

definition close_segments ::
  "'j World \<Rightarrow> StreamRelay \<Rightarrow> string \<Rightarrow> RelayState \<times> 'j RelayCtx \<Rightarrow> RelayState \<times> 'j RelayCtx" where
  "close_segments w r status x = close_active_text_segment w r status (complete_active_thinking w r x)"

definition send_overrides :: "FinalTextOverride list \<Rightarrow> 'j RelayCtx \<Rightarrow> 'j RelayCtx" where
  "send_overrides = fold (\<lambda>ov. emit (Broadcast (FinalText (fo_msg_id ov) (fo_text ov) (fo_hidden ov))))"

definition send_system_responses :: "'j World \<Rightarrow> string list \<Rightarrow> 'j RelayCtx \<Rightarrow> 'j RelayCtx" where
  "send_system_responses w =
     fold (\<lambda>response c. let (i, c) = mint_msg_id w c in emit (Broadcast (SystemResponse i response)) c)"

text \<open>\<open>finalize\<close>; the attempt of its outcome is set by the callers.\<close>

definition finalize ::
  "'j World \<Rightarrow> StreamRelay \<Rightarrow> string \<Rightarrow> string list \<Rightarrow> 'j AgentStreamEvent \<Rightarrow> RelayTerminal \<Rightarrow> 'j RelayCtx \<Rightarrow>
   RelayOutcome \<times> 'j RelayCtx" where
  "finalize w r text text_segments ev terminal c =
     (let outcome = \<lparr>ro_system_responses = [], ro_terminal = terminal, ro_attempt = default_summary\<rparr>;
          status = (case ev of Error _ \<Rightarrow> ''error'' | _ \<Rightarrow> ''finish'')
      in if text \<noteq> []
         then let (message, responses) = process_final_text w r text;
                  final_text = trim message;
                  hidden = (final_text = []);
                  rewrite_segments = (message \<noteq> text \<or> hidden);
                  (overrides, c) = persist_final_text w r text_segments status final_text hidden rewrite_segments c;
                  c = send_overrides overrides c;
                  c = send_system_responses w responses c
              in (outcome\<lparr>ro_system_responses := responses\<rparr>, c)
         else case ev of
           Error data \<Rightarrow> (outcome, persist_error_tip w r data c)
         | _ \<Rightarrow> (outcome, c))"

definition mark_visible :: "RelayState \<Rightarrow> RelayState" where
  "mark_visible st = st\<lparr>rs_attempt := (rs_attempt st)\<lparr>saw_visible_output := True\<rparr>\<rparr>"

definition mark_side_effect :: "RelayState \<Rightarrow> RelayState" where
  "mark_side_effect st = st\<lparr>rs_attempt := (rs_attempt st)\<lparr>saw_tool_or_side_effect := True\<rparr>\<rparr>"

text \<open>The end of the relay, on a terminal event and on a closed channel.\<close>

definition outcome_of ::
  "StreamRelay \<Rightarrow> 'j World \<Rightarrow> bool \<Rightarrow> RelayState \<Rightarrow> RelayOutcome \<times> 'j RelayCtx \<Rightarrow> RelayOutcome \<times> 'j RelayCtx" where
  "outcome_of r w deleting st = (\<lambda>(outcome, c).
     let attempt = (if rs_full_text_buffer st \<noteq> []
           then (rs_attempt st)\<lparr>persisted_assistant_output := True\<rparr> else rs_attempt st);
         c = (if sr_complete_turn r \<and> \<not> deleting then complete_conversation w r None c else c)
     in (outcome\<lparr>ro_attempt := attempt\<rparr>, c))"

definition defers_error :: "StreamRelay \<Rightarrow> RelayTerminal \<Rightarrow> TurnAttemptSummary \<Rightarrow> bool" where
  "defers_error r terminal attempt \<longleftrightarrow>
     sr_defer_clean_terminal_errors r
     \<and> (case terminal of TerminalError _ (Some True) \<Rightarrow> True | _ \<Rightarrow> False)
     \<and> terminal_code terminal \<noteq> Some UserLlmProviderModelNotFound
     \<and> safe_to_auto_replay attempt"

definition set_terminal_error :: "'j AgentStreamEvent \<Rightarrow> TurnAttemptSummary \<Rightarrow> TurnAttemptSummary" where
  "set_terminal_error ev attempt =
     (case ev of Error data \<Rightarrow> attempt\<lparr>terminal_error := Some data\<rparr> | _ \<Rightarrow> attempt)"

definition set_deferred_error :: "'j AgentStreamEvent \<Rightarrow> TurnAttemptSummary \<Rightarrow> TurnAttemptSummary" where
  "set_deferred_error ev attempt =
     (case ev of Error data \<Rightarrow> attempt\<lparr>terminal_error := Some data, terminal_error_deferred := True\<rparr> | _ \<Rightarrow> attempt)"

definition handle_terminal ::
  "'j World \<Rightarrow> StreamRelay \<Rightarrow> bool \<Rightarrow> 'j AgentStreamEvent \<Rightarrow> RelayState \<times> 'j RelayCtx \<Rightarrow> RelayOutcome \<times> 'j RelayCtx" where
  "handle_terminal w r deleting ev = (\<lambda>(st, c).
     let terminal = terminal_from_event ev
     in if defers_error r terminal (rs_attempt st)
        then (\<lparr>ro_system_responses = [], ro_terminal = terminal,
               ro_attempt = set_deferred_error ev (rs_attempt st)\<rparr>, c)
        else let (st, c) = (if deleting then (st, c)
                   else close_segments w r (case ev of Error _ \<Rightarrow> ''error'' | _ \<Rightarrow> ''finish'') (st, c));
                 c = forward r ev c;
                 st = st\<lparr>rs_attempt := set_terminal_error ev (rs_attempt st)\<rparr>;
                 (outcome, c) = (if deleting
                   then (\<lparr>ro_system_responses = [], ro_terminal = terminal, ro_attempt = rs_attempt st\<rparr>, c)
                   else finalize w r (rs_full_text_buffer st) (rs_text_segments st) ev terminal c)
             in outcome_of r w deleting st (outcome, c))"

definition handle_closed ::
  "'j World \<Rightarrow> StreamRelay \<Rightarrow> RelayState \<times> 'j RelayCtx \<Rightarrow> RelayOutcome \<times> 'j RelayCtx" where
  "handle_closed w r = (\<lambda>(st, c).
     let (deleting, c) = relay_is_deleting w r c;
         (st, c) = (if deleting then (st, c) else close_segments w r ''finish'' (st, c));
         (outcome, c) = (if deleting
           then (\<lparr>ro_system_responses = [], ro_terminal = ChannelClosed, ro_attempt = rs_attempt st\<rparr>, c)
           else finalize w r (rs_full_text_buffer st) (rs_text_segments st) (Finish None) ChannelClosed c)
     in outcome_of r w deleting st (outcome, c))"

definition open_text ::
  "'j World \<Rightarrow> StreamRelay \<Rightarrow> RelayState \<times> 'j RelayCtx \<Rightarrow> TextSegmentState \<times> RelayState \<times> 'j RelayCtx" where
  "open_text w r = (\<lambda>(st, c).
     case rs_active_text st of
       Some segment \<Rightarrow> (segment, st, c)
     | None \<Rightarrow>
         let (i, st, c) = mint_segment_msg_id w r st c; (created_at, c) = now_ms w c
         in (\<lparr>ts_id = i, ts_buffer = [], ts_created_at = created_at, ts_record_created = False,
              ts_flush_counter = 0\<rparr>, st, c))"

definition open_thinking ::
  "'j World \<Rightarrow> StreamRelay \<Rightarrow> RelayState \<times> 'j RelayCtx \<Rightarrow> ThinkingSegmentState \<times> RelayState \<times> 'j RelayCtx" where
  "open_thinking w r = (\<lambda>(st, c).
     case rs_active_thinking st of
       Some segment \<Rightarrow> (segment, st, c)
     | None \<Rightarrow>
         let (i, st, c) = mint_segment_msg_id w r st c; (started_at, c) = now_ms w c
         in (\<lparr>hs_id = i, hs_buffer = [], hs_started_at = started_at\<rparr>, st, c))"

definition handle_thinking ::
  "'j World \<Rightarrow> StreamRelay \<Rightarrow> ThinkingEventData \<Rightarrow> RelayState \<times> 'j RelayCtx \<Rightarrow> RelayState \<times> 'j RelayCtx" where
  "handle_thinking w r data x =
     (if th_status data = Some ''done'' then complete_active_thinking w r x
      else let (st, c) = close_active_text_segment w r ''finish'' x;
               st = (if th_content data \<noteq> [] then mark_visible st else st);
               (segment, st, c) = open_thinking w r (st, c);
               segment = segment\<lparr>hs_buffer := hs_buffer segment @ th_content data\<rparr>
           in (st\<lparr>rs_active_thinking := Some segment\<rparr>, forward_with_msg_id (hs_id segment) (Thinking data) c))"

definition handle_text ::
  "'j World \<Rightarrow> StreamRelay \<Rightarrow> string \<Rightarrow> RelayState \<times> 'j RelayCtx \<Rightarrow> RelayState \<times> 'j RelayCtx" where
  "handle_text w r content x =
     (let (st, c) = complete_active_thinking w r x;
          st = (if content \<noteq> [] then mark_visible st else st);
          (segment, st, c) = open_text w r (st, c);
          c = forward_with_msg_id (ts_id segment) (Text content) c;
          segment = segment\<lparr>ts_buffer := ts_buffer segment @ content,
            ts_flush_counter := ts_flush_counter segment + 1\<rparr>;
          st = st\<lparr>rs_full_text_buffer := rs_full_text_buffer st @ content\<rparr>;
          (segment, c) =
            (if FLUSH_INTERVAL \<le> ts_flush_counter segment
             then let (segment, c) = flush_text_segment w r segment c in (segment\<lparr>ts_flush_counter := 0\<rparr>, c)
             else (segment, c))
      in (st\<lparr>rs_active_text := Some segment\<rparr>, c))"

definition handle_tool ::
  "'j World \<Rightarrow> StreamRelay \<Rightarrow> 'j AgentStreamEvent \<Rightarrow> ('j RelayCtx \<Rightarrow> 'j RelayCtx) \<Rightarrow>
   RelayState \<times> 'j RelayCtx \<Rightarrow> RelayState \<times> 'j RelayCtx" where
  "handle_tool w r ev persist = (\<lambda>(st, c).
     let (st, c) = close_segments w r ''finish'' (mark_side_effect st, c)
     in (st, persist (forward r ev c)))"

definition handle_tips ::
  "'j World \<Rightarrow> StreamRelay \<Rightarrow> 'j TipsEventData \<Rightarrow> RelayState \<times> 'j RelayCtx \<Rightarrow> RelayState \<times> 'j RelayCtx" where
  "handle_tips w r data = (\<lambda>(st, c).
     let st = (if tip_type data = TipSuccess then mark_visible st else st);
         st = (if tip_code data = Some ''ACP_EMPTY_TURN_NEEDS_AUTH''
               then st\<lparr>rs_attempt := (rs_attempt st)\<lparr>needs_auth := True\<rparr>\<rparr> else st);
         c = forward r (Tips data) c
     in (st, if tip_type data \<noteq> TipError then persist_tip w r data c else c))"

text \<open>The events that do not end the relay.\<close>

definition handle_nonterminal ::
  "'j World \<Rightarrow> StreamRelay \<Rightarrow> 'j AgentStreamEvent \<Rightarrow> RelayState \<times> 'j RelayCtx \<Rightarrow> RelayState \<times> 'j RelayCtx" where
  "handle_nonterminal w r ev x =
     (case ev of
        SegmentBreak \<Rightarrow> close_segments w r ''finish'' x
      | Thinking data \<Rightarrow> handle_thinking w r data x
      | Text content \<Rightarrow> handle_text w r content x
      | ToolCall data \<Rightarrow> handle_tool w r ev (persist_tool_call w r data) x
      | AcpToolCall data \<Rightarrow> handle_tool w r ev (persist_acp_tool_call w r data) x
      | ToolGroup entries \<Rightarrow> handle_tool w r ev (persist_tool_group w r entries) x
      | Tips data \<Rightarrow> handle_tips w r data x
      | CronTrigger _ \<Rightarrow> (mark_side_effect (fst x), forward r ev (snd x))
      | Permission _ \<Rightarrow> (mark_side_effect (fst x), forward r ev (snd x))
      | AcpPermission _ \<Rightarrow> (mark_side_effect (fst x), forward r ev (snd x))
      | _ \<Rightarrow> (fst x, forward r ev (snd x)))"

definition handle_event ::
  "'j World \<Rightarrow> StreamRelay \<Rightarrow> 'j AgentStreamEvent \<Rightarrow> RelayState \<times> 'j RelayCtx \<Rightarrow>
   (RelayOutcome + RelayState) \<times> 'j RelayCtx" where
  "handle_event w r ev = (\<lambda>(st, c).
     let (deleting, c) = relay_is_deleting w r c
     in if is_terminal_event ev
        then let (outcome, c) = handle_terminal w r deleting ev (st, c) in (Inl outcome, c)
        else if deleting then (Inr st, c)
        else let (st, c) = handle_nonterminal w r ev (st, c) in (Inr st, c))"

text \<open>
  What the loop can be woken by: a result of the broadcast receiver (\<open>RecvEmpty\<close> is \<open>try_recv\<close>
  finding no event), or the end of the task that sends the message.
\<close>

datatype 'j RelayInput =
    RecvEvent "'j AgentStreamEvent"
  | RecvEmpty
  | RecvClosed
  | RecvLagged
  | SendFailed AgentSendError
  | SendErrorDropped

datatype 'j RecvResult = Received "'j AgentStreamEvent" | Closed | Lagged | Waiting

text \<open>
  The first half of an iteration: with a pending send error only events that are already there are
  taken before it; without one the loop waits, for both sources as long as the send task runs.
\<close>

definition recv_with_pending :: "AgentSendError \<Rightarrow> 'j RelayInput \<Rightarrow> RelayState \<Rightarrow> 'j RecvResult \<times> RelayState" where
  "recv_with_pending err inp st =
     (let taken = st\<lparr>rs_pending_send_error := None\<rparr> in
      case inp of
        RecvEvent ev \<Rightarrow> (Received ev, if is_terminal_event ev then taken else st)
      | RecvEmpty \<Rightarrow> (Received (Error (se_stream_error err)), taken)
      | RecvClosed \<Rightarrow> (Received (Error (se_stream_error err)), taken)
      | RecvLagged \<Rightarrow> (Lagged, taken)
      | _ \<Rightarrow> (Waiting, st))"

definition recv_result :: "'j RelayInput \<Rightarrow> RelayState \<Rightarrow> 'j RecvResult \<times> RelayState" where
  "recv_result inp st =
     (case rs_pending_send_error st of
        Some err \<Rightarrow> if rs_send_error_done st then recv_with_pending err inp st else (Waiting, st)
      | None \<Rightarrow>
          (case inp of
             RecvEvent ev \<Rightarrow> (Received ev, st)
           | RecvClosed \<Rightarrow> (Closed, st)
           | RecvLagged \<Rightarrow> (Lagged, st)
           | RecvEmpty \<Rightarrow> (Waiting, st)
           | SendFailed err \<Rightarrow>
               (Waiting, if rs_send_error_done st then st
                         else st\<lparr>rs_send_error_done := True, rs_pending_send_error := Some err\<rparr>)
           | SendErrorDropped \<Rightarrow> (Waiting, st\<lparr>rs_send_error_done := True\<rparr>)))"

definition relay_step ::
  "'j World \<Rightarrow> StreamRelay \<Rightarrow> 'j RelayInput \<Rightarrow> RelayState \<times> 'j RelayCtx \<Rightarrow>
   (RelayOutcome + RelayState) \<times> 'j RelayCtx" where
  "relay_step w r inp = (\<lambda>(st, c).
     case recv_result inp st of
       (Received ev, st) \<Rightarrow> handle_event w r ev (st, c)
     | (Closed, st) \<Rightarrow> let (outcome, c) = handle_closed w r (st, c) in (Inl outcome, c)
     | (Lagged, st) \<Rightarrow> (Inr st, c)
     | (Waiting, st) \<Rightarrow> (Inr st, c))"

text \<open>The loop over the inputs that arrive; \<open>Inr\<close> when they are used up before the relay ends.\<close>

fun relay_run ::
  "'j World \<Rightarrow> StreamRelay \<Rightarrow> 'j RelayInput list \<Rightarrow> RelayState \<times> 'j RelayCtx \<Rightarrow>
   (RelayOutcome + RelayState) \<times> 'j RelayCtx" where
  "relay_run w r [] (st, c) = (Inr st, c)"
| "relay_run w r (inp # inps) (st, c) =
     (case relay_step w r inp (st, c) of
        (Inl outcome, c) \<Rightarrow> (Inl outcome, c)
      | (Inr st, c) \<Rightarrow> relay_run w r inps (st, c))"

definition consume_with_send_error ::
  "'j World \<Rightarrow> StreamRelay \<Rightarrow> 'j RelayInput list \<Rightarrow> 'j RelayCtx \<Rightarrow> (RelayOutcome + RelayState) \<times> 'j RelayCtx" where
  "consume_with_send_error w r inputs c = relay_run w r inputs (initial_relay_state True, c)"

end
