(* ===== verification/Stream_Relay_End.thy ===== *)
theory Stream_Relay_End
  imports Stream_Relay
begin

text \<open>
  How a relay ends and what it has shown by then: an attempt whose summary is safe to replay has
  shown nothing but diagnostics and its end, a deferred error not even that; a terminal event or the
  end of the channel ends the relay in every state it can be in; and the error of a failed send ends
  it unless the receiver has lagged.
\<close>

section \<open>What a replay must not repeat\<close>

definition shows_output :: "'j AgentStreamEvent \<Rightarrow> bool" where
  "shows_output ev \<longleftrightarrow>
     (case ev of
        Text s \<Rightarrow> s \<noteq> []
      | Thinking d \<Rightarrow> th_content d \<noteq> []
      | Tips d \<Rightarrow> tip_type d = TipSuccess
      | ToolCall _ \<Rightarrow> True | AcpToolCall _ \<Rightarrow> True | ToolGroup _ \<Rightarrow> True
      | CronTrigger _ \<Rightarrow> True | Permission _ \<Rightarrow> True | AcpPermission _ \<Rightarrow> True
      | _ \<Rightarrow> False)"

fun quiet_effect :: "bool \<Rightarrow> 'j Effect \<Rightarrow> bool" where
  "quiet_effect t (Broadcast (Forward _ ev)) \<longleftrightarrow> \<not> shows_output ev \<and> (is_terminal_event ev \<longrightarrow> t)"
| "quiet_effect t (Broadcast (TurnCompleted _)) \<longleftrightarrow> t"
| "quiet_effect t (Broadcast (FailureTip _)) \<longleftrightarrow> t"
| "quiet_effect t (Broadcast _) \<longleftrightarrow> False"
| "quiet_effect t _ \<longleftrightarrow> True"

definition quiet_row :: "bool \<Rightarrow> 'j MessageRow \<Rightarrow> bool" where
  "quiet_row t row \<longleftrightarrow>
     (case mr_content row of
        TipContent d \<Rightarrow> tip_type d \<noteq> TipSuccess
      | ErrorTipContent _ \<Rightarrow> t
      | SendFailureContent _ _ \<Rightarrow> t
      | _ \<Rightarrow> False)"

text \<open>
  From one context to a later one nothing was shown but diagnostics: no output, tool or
  permission event, and no stored message but tips that report no success. Whether the end of the
  turn may have been shown (a terminal event, an error tip, the completion) is the first argument.
\<close>

definition quiet :: "bool \<Rightarrow> 'j RelayCtx \<Rightarrow> 'j RelayCtx \<Rightarrow> bool" where
  "quiet t c0 c \<longleftrightarrow>
     (\<exists>effs rows. cx_log c = cx_log c0 @ effs \<and> list_all (quiet_effect t) effs
        \<and> cx_messages c = cx_messages c0 @ rows \<and> list_all (quiet_row t \<circ> snd) rows
        \<and> (cx_status c = cx_status c0 \<or> t \<and> cx_status c0 \<noteq> None))"

lemma quiet_refl [simp]: "quiet t c c"
  by (simp add: quiet_def)

lemma quiet_trans: "quiet t a b \<Longrightarrow> quiet t b c \<Longrightarrow> quiet t a c"
  by (auto simp: quiet_def)

lemma tick_simps [simp]:
  "cx_log (tick c) = cx_log c" "cx_messages (tick c) = cx_messages c" "cx_status (tick c) = cx_status c"
  "cx_tick (tick c) = Suc (cx_tick c)"
  by (simp_all add: tick_def)

lemma emit_simps [simp]:
  "cx_log (emit e c) = cx_log c @ [e]" "cx_messages (emit e c) = cx_messages c" "cx_status (emit e c) = cx_status c"
  "cx_tick (emit e c) = cx_tick c"
  by (simp_all add: emit_def)

lemma quiet_tick [simp]: "quiet t c0 (tick c) \<longleftrightarrow> quiet t c0 c"
  by (simp add: quiet_def)

lemma quiet_emit: "quiet t c0 c \<Longrightarrow> quiet_effect t e \<Longrightarrow> quiet t c0 (emit e c)"
  by (auto simp: quiet_def)

lemma quiet_insert: "quiet t c0 c \<Longrightarrow> quiet_row t row \<Longrightarrow> quiet t c0 (snd (insert_message w row c))"
  by (auto simp: insert_message_def quiet_def)

lemmas quiet_intros = quiet_emit quiet_insert

text \<open>Nothing is buffered that could be shown later.\<close>

definition nothing_buffered :: "RelayState \<Rightarrow> bool" where
  "nothing_buffered st \<longleftrightarrow> rs_full_text_buffer st = [] \<and> rs_text_segments st = []
     \<and> (case rs_active_text st of None \<Rightarrow> True | Some s \<Rightarrow> ts_buffer s = [])
     \<and> (case rs_active_thinking st of None \<Rightarrow> True | Some s \<Rightarrow> hs_buffer s = [])"

definition honest :: "'j RelayCtx \<Rightarrow> RelayState \<times> 'j RelayCtx \<Rightarrow> bool" where
  "honest c0 x \<longleftrightarrow> (safe_to_auto_replay (rs_attempt (fst x)) \<longrightarrow> quiet False c0 (snd x) \<and> nothing_buffered (fst x))"

lemma marks_unsafe [simp]:
  "\<not> safe_to_auto_replay (rs_attempt (mark_visible st))" "\<not> safe_to_auto_replay (rs_attempt (mark_side_effect st))"
  by (simp_all add: safe_to_auto_replay_def mark_visible_def mark_side_effect_def)

lemma segments_keep_attempt [simp]:
  "rs_attempt (fst (complete_active_thinking w r x)) = rs_attempt (fst x)"
  "rs_attempt (fst (close_active_text_segment w r status x)) = rs_attempt (fst x)"
  "rs_attempt (fst (snd (open_text w r x))) = rs_attempt (fst x)"
  "rs_attempt (fst (snd (open_thinking w r x))) = rs_attempt (fst x)"
  by (simp_all add: complete_active_thinking_def close_active_text_segment_def open_text_def open_thinking_def
      mint_segment_msg_id_def Let_def split_def split: option.split)

lemma close_segments_keep_attempt [simp]: "rs_attempt (fst (close_segments w r status x)) = rs_attempt (fst x)"
  by (simp add: close_segments_def)

lemma complete_thinking_quiet:
  assumes "nothing_buffered (fst x)"
  shows "quiet t c0 (snd x) \<longrightarrow> quiet t c0 (snd (complete_active_thinking w r x))"
    and "nothing_buffered (fst (complete_active_thinking w r x))"
  using assms
  by (auto simp: complete_active_thinking_def nothing_buffered_def now_ms_def send_thinking_done_def
      forward_with_msg_id_def persist_thinking_segment_def shows_output_def Let_def split_def
      split: option.splits intro!: quiet_emit)

lemma close_text_quiet:
  assumes "nothing_buffered (fst x)"
  shows "quiet t c0 (snd x) \<longrightarrow> quiet t c0 (snd (close_active_text_segment w r status x))"
    and "nothing_buffered (fst (close_active_text_segment w r status x))"
  using assms
  by (auto simp: close_active_text_segment_def nothing_buffered_def finalize_text_segment_def allows_write_def
      Let_def split_def split: option.splits)

lemma honest_thinking: "honest c0 x \<Longrightarrow> honest c0 (complete_active_thinking w r x)"
  using complete_thinking_quiet [of x] by (simp add: honest_def)

lemma honest_close_text: "honest c0 x \<Longrightarrow> honest c0 (close_active_text_segment w r status x)"
  using close_text_quiet [of x] by (simp add: honest_def)

lemma honest_close: "honest c0 x \<Longrightarrow> honest c0 (close_segments w r status x)"
  by (simp add: close_segments_def honest_thinking honest_close_text)

lemma open_text_quiet:
  assumes "nothing_buffered (fst x)"
  shows "ts_buffer (fst (open_text w r x)) = []"
    and "nothing_buffered (fst (snd (open_text w r x)))"
    and "quiet t c0 (snd x) \<longrightarrow> quiet t c0 (snd (snd (open_text w r x)))"
  using assms
  by (auto simp: open_text_def nothing_buffered_def mint_segment_msg_id_def mint_msg_id_def now_ms_def
      Let_def split_def split: option.splits)

lemma open_thinking_quiet:
  assumes "nothing_buffered (fst x)"
  shows "hs_buffer (fst (open_thinking w r x)) = []"
    and "nothing_buffered (fst (snd (open_thinking w r x)))"
    and "quiet t c0 (snd x) \<longrightarrow> quiet t c0 (snd (snd (open_thinking w r x)))"
  using assms
  by (auto simp: open_thinking_def nothing_buffered_def mint_segment_msg_id_def mint_msg_id_def now_ms_def
      Let_def split_def split: option.splits)

lemma honest_handle_text:
  assumes "honest c0 x"
  shows "honest c0 (handle_text w r content x)"
proof (cases "content = []")
  case False
  then have "\<not> safe_to_auto_replay (rs_attempt (fst (handle_text w r content x)))"
    using segments_keep_attempt(3) marks_unsafe(1)
    by (simp add: handle_text_def Let_def split_def)
  then show ?thesis by (simp add: honest_def)
next
  case True
  note th = honest_thinking [OF assms, of w r]
  obtain st c where x: "complete_active_thinking w r x = (st, c)" by fastforce
  obtain seg st' c' where o: "open_text w r (st, c) = (seg, st', c')" by (metis prod_cases3)
  have att: "rs_attempt st' = rs_attempt st" using segments_keep_attempt(3) [of w r "(st, c)"] o by simp
  show ?thesis
    using open_text_quiet [where x = "(st, c)" and w = w and r = r] th o x True att
    by (auto simp: honest_def handle_text_def Let_def nothing_buffered_def flush_text_segment_def allows_write_def
        forward_with_msg_id_def shows_output_def split_def intro!: quiet_emit split: option.splits)
qed

lemma honest_handle_thinking:
  assumes "honest c0 x"
  shows "honest c0 (handle_thinking w r data x)"
proof (cases "th_status data = Some ''done'' \<or> th_content data \<noteq> []")
  case True
  then show ?thesis
    using honest_thinking [OF assms] segments_keep_attempt(4) marks_unsafe(1)
    by (auto simp: handle_thinking_def honest_def Let_def split_def)
next
  case False
  note cl = honest_close_text [OF assms, of w r "''finish''"]
  obtain st c where x: "close_active_text_segment w r ''finish'' x = (st, c)" by fastforce
  obtain seg st' c' where o: "open_thinking w r (st, c) = (seg, st', c')" by (metis prod_cases3)
  have att: "rs_attempt st' = rs_attempt st" using segments_keep_attempt(4) [of w r "(st, c)"] o by simp
  show ?thesis
    using open_thinking_quiet [where x = "(st, c)" and w = w and r = r] cl o x False att
    by (auto simp: honest_def handle_thinking_def Let_def nothing_buffered_def
        forward_with_msg_id_def shows_output_def intro!: quiet_emit)
qed

lemma honest_forward:
  "honest c0 (st, c) \<Longrightarrow> \<not> shows_output ev \<Longrightarrow> \<not> is_terminal_event ev \<Longrightarrow> honest c0 (st, forward r ev c)"
  by (simp add: honest_def forward_def quiet_emit)

lemma honest_handle_tips:
  assumes "honest c0 (st, c)"
  shows "honest c0 (handle_tips w r data (st, c))"
  using assms
  by (auto simp: honest_def handle_tips_def Let_def forward_def persist_tip_def allows_write_def mint_msg_id_def
      now_ms_def safe_to_auto_replay_def mark_visible_def nothing_buffered_def shows_output_def quiet_row_def
      left_row_def intro!: quiet_emit quiet_insert)

lemma honest_handle_tool: "honest c0 (handle_tool w r ev persist x)"
proof -
  have "rs_attempt (fst (handle_tool w r ev persist x)) = rs_attempt (mark_side_effect (fst x))"
    by (simp add: handle_tool_def Let_def split_def)
  then show ?thesis by (simp add: honest_def)
qed

lemma honest_nonterminal:
  assumes "honest c0 x" "\<not> is_terminal_event ev"
  shows "honest c0 (handle_nonterminal w r ev x)"
proof -
  obtain st c where x: "x = (st, c)" by fastforce
  show ?thesis
    using assms honest_close [of c0 x w r "''finish''"] honest_handle_tips [of c0 st c w r]
    by (cases ev) (simp_all add: handle_nonterminal_def honest_handle_text honest_handle_thinking honest_handle_tool
        honest_forward shows_output_def x, simp_all add: honest_def)
qed

lemma quiet_weaken: "quiet False c0 c \<Longrightarrow> quiet True c0 c"
proof -
  have eff: "quiet_effect False e \<Longrightarrow> quiet_effect True e" for e :: "'j Effect"
    by (induction "False" e rule: quiet_effect.induct) auto
  have row: "quiet_row False x \<Longrightarrow> quiet_row True x" for x :: "'j MessageRow"
    by (simp add: quiet_row_def split: MessageContent.splits)
  assume "quiet False c0 c"
  then show ?thesis unfolding quiet_def using eff row by (fastforce simp: list_all_iff)
qed

lemma marks_deferred [simp]:
  "terminal_error_deferred (rs_attempt (mark_visible st)) = terminal_error_deferred (rs_attempt st)"
  "terminal_error_deferred (rs_attempt (mark_side_effect st)) = terminal_error_deferred (rs_attempt st)"
  by (simp_all add: mark_visible_def mark_side_effect_def)

lemma nonterminal_deferred:
  "terminal_error_deferred (rs_attempt (fst (handle_nonterminal w r ev x))) = terminal_error_deferred (rs_attempt (fst x))"
  using segments_keep_attempt(3,4)
  by (cases ev) (simp_all add: handle_nonterminal_def handle_text_def handle_thinking_def handle_tool_def
      handle_tips_def Let_def split_def)

lemma quiet_error_tip: "quiet True c0 c \<Longrightarrow> quiet True c0 (persist_error_tip w r data c)"
  by (auto simp: persist_error_tip_def allows_write_def mint_msg_id_def now_ms_def Let_def quiet_row_def left_row_def
      intro!: quiet_insert)

lemma quiet_completion: "quiet True c0 c \<Longrightarrow> quiet True c0 (complete_conversation w r runtime c)"
  by (auto simp: complete_conversation_def publish_completion_def Let_def quiet_def)

lemma quiet_finalize:
  "quiet True c0 c \<Longrightarrow> quiet True c0 (snd (finalize w r [] segs ev terminal c))"
  by (simp add: finalize_def Let_def quiet_error_tip split: AgentStreamEvent.split)

lemma quiet_outcome:
  "quiet True c0 (snd oc) \<Longrightarrow> quiet True c0 (snd (outcome_of r w deleting st oc))"
  by (simp add: outcome_of_def Let_def split_def quiet_completion)

lemma outcome_attempt:
  "ro_attempt (fst (outcome_of r w deleting st oc)) =
     (if rs_full_text_buffer st \<noteq> [] then (rs_attempt st)\<lparr>persisted_assistant_output := True\<rparr> else rs_attempt st)"
  by (simp add: outcome_of_def Let_def split_def)

lemma set_terminal_error_safe [simp]:
  "safe_to_auto_replay (set_terminal_error ev a) = safe_to_auto_replay a"
  "terminal_error_deferred (set_terminal_error ev a) = terminal_error_deferred a"
  "safe_to_auto_replay (set_deferred_error ev a) = safe_to_auto_replay a"
  by (simp_all add: set_terminal_error_def set_deferred_error_def safe_to_auto_replay_def split: AgentStreamEvent.split)

lemma closed_attempt: "safe_to_auto_replay (a\<lparr>persisted_assistant_output := True\<rparr>) \<Longrightarrow> False"
  by (simp add: safe_to_auto_replay_def)

text \<open>The end of a relay: a deferred error was not shown, and a safe attempt showed only its end.\<close>

definition honest_outcome :: "'j RelayCtx \<Rightarrow> RelayOutcome \<times> 'j RelayCtx \<Rightarrow> bool" where
  "honest_outcome c0 oc \<longleftrightarrow>
     (terminal_error_deferred (ro_attempt (fst oc)) \<longrightarrow> quiet False c0 (snd oc)) \<and>
     (safe_to_auto_replay (ro_attempt (fst oc)) \<longrightarrow> quiet True c0 (snd oc))"

lemma finish_honest:
  assumes "\<not> terminal_error_deferred (rs_attempt st)"
    and "safe_to_auto_replay (rs_attempt st) \<longrightarrow> rs_full_text_buffer st = [] \<and> quiet True c0 c"
  shows "honest_outcome c0 (outcome_of r w deleting st (oc, c))"
    and "honest_outcome c0 (outcome_of r w deleting st
      (finalize w r (rs_full_text_buffer st) segs ev terminal c))"
  using assms closed_attempt
  by (auto simp: honest_outcome_def outcome_attempt safe_to_auto_replay_def intro!: quiet_outcome quiet_finalize)

lemma honest_safe:
  "honest c0 x \<Longrightarrow> safe_to_auto_replay (rs_attempt (fst x)) \<longrightarrow>
     rs_full_text_buffer (fst x) = [] \<and> quiet True c0 (snd x)"
  by (simp add: honest_def nothing_buffered_def quiet_weaken)

lemma quiet_forward_terminal: "quiet True c0 c \<Longrightarrow> is_terminal_event ev \<Longrightarrow> quiet True c0 (forward r ev c)"
  by (cases ev) (auto simp: forward_def shows_output_def intro: quiet_emit)

lemma honest_terminal:
  assumes "honest c0 (st, c)" "\<not> terminal_error_deferred (rs_attempt st)" "is_terminal_event ev"
  shows "honest_outcome c0 (handle_terminal w r deleting ev (st, c))"
proof (cases "defers_error r (terminal_from_event ev) (rs_attempt st)")
  case True
  then have "safe_to_auto_replay (rs_attempt st)" by (simp add: defers_error_def)
  then have "quiet False c0 c" using assms(1) by (simp add: honest_def)
  then show ?thesis using True by (simp add: handle_terminal_def Let_def honest_outcome_def quiet_weaken)
next
  case False
  define y where "y = (if deleting then (st, c) else close_segments w r (case ev of Error _ \<Rightarrow> ''error'' | _ \<Rightarrow> ''finish'') (st, c))"
  have y: "honest c0 y" "rs_attempt (fst y) = rs_attempt st"
    using assms(1) by (simp_all add: y_def honest_close)
  define st' where "st' = (fst y)\<lparr>rs_attempt := set_terminal_error ev (rs_attempt (fst y))\<rparr>"
  have safe: "\<not> terminal_error_deferred (rs_attempt st')"
    "safe_to_auto_replay (rs_attempt st') \<longrightarrow> rs_full_text_buffer st' = [] \<and> quiet True c0 (forward r ev (snd y))"
    using honest_safe [OF y(1)] quiet_forward_terminal [OF _ assms(3)] assms(2) y(2) by (auto simp: st'_def)
  have "handle_terminal w r deleting ev (st, c) = outcome_of r w deleting st'
    (if deleting
     then (\<lparr>ro_system_responses = [], ro_terminal = terminal_from_event ev, ro_attempt = rs_attempt st'\<rparr>, forward r ev (snd y))
     else finalize w r (rs_full_text_buffer st') (rs_text_segments st') ev (terminal_from_event ev) (forward r ev (snd y)))"
    using False by (auto simp: handle_terminal_def Let_def split_def y_def st'_def)
  then show ?thesis using finish_honest [OF safe] by simp
qed

lemma honest_closed:
  assumes "honest c0 (st, c)" "\<not> terminal_error_deferred (rs_attempt st)"
  shows "honest_outcome c0 (handle_closed w r (st, c))"
proof -
  have tc: "honest c0 (st, tick c)" using assms(1) by (simp add: honest_def)
  have safe: "\<not> terminal_error_deferred (rs_attempt (fst x)) \<and>
      (safe_to_auto_replay (rs_attempt (fst x)) \<longrightarrow> rs_full_text_buffer (fst x) = [] \<and> quiet True c0 (snd x))"
    if "x = (st, tick c) \<or> x = close_segments w r ''finish'' (st, tick c)" for x
    using that assms(2) honest_safe [OF tc] honest_safe [OF honest_close [OF tc, of w r "''finish''"]] by auto
  show ?thesis
    using safe [of "(st, tick c)"] safe [of "close_segments w r ''finish'' (st, tick c)"]
    by (auto simp: handle_closed_def relay_is_deleting_def Let_def split_def intro!: finish_honest)
qed

lemma recv_result_keeps:
  "rs_attempt (snd (recv_result inp st)) = rs_attempt st"
  "nothing_buffered (snd (recv_result inp st)) = nothing_buffered st"
  by (cases inp; cases "rs_pending_send_error st";
      simp add: recv_result_def recv_with_pending_def nothing_buffered_def Let_def)+

lemma honest_step:
  assumes "honest c0 (st, c)" "\<not> terminal_error_deferred (rs_attempt st)"
  shows "case relay_step w r inp (st, c) of
      (Inl outcome, c') \<Rightarrow> honest_outcome c0 (outcome, c')
    | (Inr st', c') \<Rightarrow> honest c0 (st', c') \<and> \<not> terminal_error_deferred (rs_attempt st')"
proof -
  obtain res st1 where res: "recv_result inp st = (res, st1)" by fastforce
  have att: "rs_attempt st1 = rs_attempt st" "nothing_buffered st1 = nothing_buffered st"
    using recv_result_keeps [of inp st] res by simp_all
  have st1: "honest c0 (st1, c)" "honest c0 (st1, tick c)" "\<not> terminal_error_deferred (rs_attempt st1)"
    using assms att by (simp_all add: honest_def)
  show ?thesis
  proof (cases res)
    case (Received ev)
    then show ?thesis
      using res st1 honest_terminal [OF st1(2,3), of ev w r True] honest_terminal [OF st1(2,3), of ev w r False]
        honest_nonterminal [OF st1(2), of ev w r]
        nonterminal_deferred [of w r ev "(st1, tick c)"]
      by (auto simp: relay_step_def handle_event_def relay_is_deleting_def Let_def split: prod.splits)
  next
    case Closed
    then show ?thesis
      using res honest_closed [OF st1(1,3), of w r] by (auto simp: relay_step_def Let_def split: prod.splits)
  qed (use res st1 in \<open>simp_all add: relay_step_def\<close>)
qed

lemma honest_run:
  assumes "honest c0 (st, c)" "\<not> terminal_error_deferred (rs_attempt st)"
    and "relay_run w r inputs (st, c) = (Inl outcome, c')"
  shows "honest_outcome c0 (outcome, c')"
  using assms
proof (induction inputs arbitrary: st c)
  case (Cons inp inputs)
  from honest_step [OF Cons.prems(1,2), of w r inp] Cons.prems(3) Cons.IH
  show ?case by (auto split: prod.splits sum.splits)
qed simp

lemma honest_initial: "honest c (initial_relay_state b, c)" "\<not> terminal_error_deferred (rs_attempt (initial_relay_state b))"
  by (simp_all add: honest_def initial_relay_state_def nothing_buffered_def default_summary_def)

section \<open>The end of a relay\<close>

lemma marks_pending [simp]:
  "rs_pending_send_error (mark_visible st) = rs_pending_send_error st"
  "rs_pending_send_error (mark_side_effect st) = rs_pending_send_error st"
  "rs_send_error_done (mark_visible st) = rs_send_error_done st"
  "rs_send_error_done (mark_side_effect st) = rs_send_error_done st"
  by (simp_all add: mark_visible_def mark_side_effect_def)

lemma segments_pending [simp]:
  "rs_pending_send_error (fst (complete_active_thinking w r x)) = rs_pending_send_error (fst x)"
  "rs_pending_send_error (fst (close_active_text_segment w r status x)) = rs_pending_send_error (fst x)"
  "rs_pending_send_error (fst (snd (open_text w r x))) = rs_pending_send_error (fst x)"
  "rs_pending_send_error (fst (snd (open_thinking w r x))) = rs_pending_send_error (fst x)"
  "rs_send_error_done (fst (complete_active_thinking w r x)) = rs_send_error_done (fst x)"
  "rs_send_error_done (fst (close_active_text_segment w r status x)) = rs_send_error_done (fst x)"
  "rs_send_error_done (fst (snd (open_text w r x))) = rs_send_error_done (fst x)"
  "rs_send_error_done (fst (snd (open_thinking w r x))) = rs_send_error_done (fst x)"
  by (simp_all add: complete_active_thinking_def close_active_text_segment_def open_text_def open_thinking_def
      mint_segment_msg_id_def Let_def split_def split: option.split)

lemma nonterminal_pending [simp]:
  "rs_pending_send_error (fst (handle_nonterminal w r ev x)) = rs_pending_send_error (fst x)"
  "rs_send_error_done (fst (handle_nonterminal w r ev x)) = rs_send_error_done (fst x)"
  by (cases ev; simp add: handle_nonterminal_def handle_text_def handle_thinking_def handle_tool_def
      handle_tips_def close_segments_def Let_def split_def)+

lemma event_nonterminal:
  assumes "\<not> is_terminal_event ev"
  shows "\<exists>st' c'. handle_event w r ev (st, c) = (Inr st', c')
    \<and> rs_pending_send_error st' = rs_pending_send_error st \<and> rs_send_error_done st' = rs_send_error_done st"
proof -
  obtain st' c' where nt: "handle_nonterminal w r ev (st, tick c) = (st', c')" by fastforce
  then show ?thesis
    using assms nonterminal_pending [of w r ev "(st, tick c)"]
    by (auto simp: handle_event_def relay_is_deleting_def Let_def)
qed

lemma event_terminal:
  assumes "is_terminal_event ev"
  shows "\<exists>outcome c'. handle_event w r ev (st, c) = (Inl outcome, c') \<and> ro_terminal outcome = terminal_from_event ev"
proof -
  have fin: "ro_terminal (fst (finalize w r buf segs ev terminal c)) = terminal" for buf segs terminal c
    by (simp add: finalize_def Let_def split_def split: AgentStreamEvent.split)
  have "ro_terminal (fst (handle_terminal w r deleting ev (st, c))) = terminal_from_event ev" for deleting c
    by (simp add: handle_terminal_def outcome_of_def fin Let_def split_def)
  then show ?thesis using assms by (auto simp: handle_event_def relay_is_deleting_def Let_def split_def)
qed

definition pending_ok :: "RelayState \<Rightarrow> bool" where
  "pending_ok st \<longleftrightarrow> (rs_pending_send_error st \<noteq> None \<longrightarrow> rs_send_error_done st)"

lemma pending_ok_step:
  assumes "pending_ok st" "relay_step w r inp (st, c) = (Inr st', c')"
  shows "pending_ok st'"
proof -
  obtain res st1 where res: "recv_result inp st = (res, st1)" by fastforce
  then have "pending_ok st1"
    using assms(1) by (auto simp: pending_ok_def recv_result_def recv_with_pending_def Let_def
        split: option.splits RelayInput.splits if_splits)
  then show ?thesis
    using assms(2) res event_nonterminal [of _ w r st1 c] event_terminal [of _ w r st1 c]
    by (cases res; cases "\<exists>ev. res = Received ev \<and> is_terminal_event ev")
      (fastforce simp: relay_step_def pending_ok_def Let_def split: prod.splits)+
qed

text \<open>What ends a relay: a terminal event of the agent, or the end of the channel.\<close>

definition ending_input :: "'j RelayInput \<Rightarrow> bool" where
  "ending_input inp \<longleftrightarrow> (case inp of RecvEvent ev \<Rightarrow> is_terminal_event ev | RecvClosed \<Rightarrow> True | _ \<Rightarrow> False)"

lemma step_ends:
  assumes "pending_ok st" "ending_input inp"
  shows "\<exists>outcome c'. relay_step w r inp (st, c) = (Inl outcome, c')"
proof -
  obtain res st1 where res: "recv_result inp st = (res, st1)" by fastforce
  have "res = Closed \<or> (\<exists>ev. res = Received ev \<and> is_terminal_event ev)"
    using assms res by (auto simp: ending_input_def recv_result_def recv_with_pending_def pending_ok_def Let_def
        split: RelayInput.splits option.splits)
  then show ?thesis
    using res event_terminal [of _ w r st1 c] by (fastforce simp: relay_step_def Let_def split_def)
qed

lemma run_ends:
  assumes "pending_ok st" "list_ex ending_input inputs"
  shows "\<exists>outcome c'. relay_run w r inputs (st, c) = (Inl outcome, c')"
  using assms
proof (induction inputs arbitrary: st c)
  case (Cons inp inputs)
  obtain res c1 where step: "relay_step w r inp (st, c) = (res, c1)" by fastforce
  show ?case
  proof (cases res)
    case (Inr st1)
    then have "\<not> ending_input inp" using step_ends [OF Cons.prems(1), of inp w r c] step by auto
    then show ?thesis
      using Cons.IH [OF pending_ok_step [OF Cons.prems(1)], of w r inp c st1 c1 c1] Cons.prems(2) step Inr by simp
  qed (use step in simp)
qed simp

lemma consume_ends:
  "list_ex ending_input inputs \<Longrightarrow> \<exists>outcome c'. consume_with_send_error w r inputs c = (Inl outcome, c')"
  unfolding consume_with_send_error_def by (intro run_ends) (simp_all add: pending_ok_def initial_relay_state_def)

lemma run_pending_ok:
  assumes "pending_ok st" "relay_run w r inputs (st, c) = (Inr st', c')"
  shows "pending_ok st'"
  using assms
proof (induction inputs arbitrary: st c)
  case (Cons inp inputs)
  obtain res c1 where step: "relay_step w r inp (st, c) = (res, c1)" by fastforce
  then obtain st1 where "res = Inr st1" using Cons.prems(2) by (cases res) auto
  with Cons step show ?case using pending_ok_step [OF Cons.prems(1), of w r inp c st1 c1] by simp
qed simp

lemma run_append:
  "relay_run w r (xs @ ys) x = (case relay_run w r xs x of
     (Inl outcome, c) \<Rightarrow> (Inl outcome, c) | (Inr st, c) \<Rightarrow> relay_run w r ys (st, c))"
  by (induction w r xs x rule: relay_run.induct) (auto split: prod.split sum.split)

text \<open>Events that do not end the turn leave a pending send error pending.\<close>

lemma run_pending:
  assumes "rs_pending_send_error st = Some err" "rs_send_error_done st" "list_all (\<lambda>ev. \<not> is_terminal_event ev) evs"
  shows "\<exists>st' c'. relay_run w r (map RecvEvent evs) (st, c) = (Inr st', c')
    \<and> rs_pending_send_error st' = Some err \<and> rs_send_error_done st'"
  using assms
proof (induction evs arbitrary: st c)
  case (Cons ev evs)
  then obtain st1 c1 where "handle_event w r ev (st, c) = (Inr st1, c1)"
      "rs_pending_send_error st1 = Some err" "rs_send_error_done st1"
    using event_nonterminal [of ev w r st c] by auto
  with Cons show ?case by (simp add: relay_step_def recv_result_def recv_with_pending_def)
qed simp

definition idle_input :: "'j RelayInput \<Rightarrow> bool" where
  "idle_input inp \<longleftrightarrow> (case inp of RecvEvent ev \<Rightarrow> \<not> is_terminal_event ev | RecvClosed \<Rightarrow> False | _ \<Rightarrow> True)"

text \<open>Without a pending error and after the send task the relay waits for the agent alone.\<close>

lemma run_waits:
  assumes "rs_pending_send_error st = None" "rs_send_error_done st" "list_all idle_input inputs"
  shows "\<exists>st' c'. relay_run w r inputs (st, c) = (Inr st', c')"
  using assms
proof (induction inputs arbitrary: st c)
  case (Cons inp inputs)
  have "\<exists>st1 c1. relay_step w r inp (st, c) = (Inr st1, c1) \<and> rs_pending_send_error st1 = None \<and> rs_send_error_done st1"
    using Cons.prems event_nonterminal [of _ w r st c]
    by (cases inp) (fastforce simp: relay_step_def recv_result_def idle_input_def)+
  then show ?case using Cons by fastforce
qed simp

section \<open>Properties\<close>

text \<open>
  An example: a world in which the database answers, no turn is tracked, the clock stands still,
  message ids are \<open>m\<close> with as many \<open>x\<close> as ticks have passed and the middleware changes nothing.
\<close>

definition demo_world :: "unit World" where
  "demo_world = \<lparr>w_svc = (\<lambda>_. new_runtime_state), w_db = (\<lambda>_. True), w_now = (\<lambda>_. 0),
     w_mint = (\<lambda>t. CHR ''m'' # replicate t CHR ''x''), w_strip_think_tags = id, w_skill_captures = (\<lambda>_. []),
     w_load_skill_bodies = None, w_patch = (\<lambda>_ new. new), w_patch_keep_status = (\<lambda>_ new. new)\<rparr>"

definition demo_relay :: StreamRelay where
  "demo_relay = \<lparr>sr_conversation_id = ''c1'', sr_msg_id = ''first'', sr_turn_id = ''t1'', sr_allowed_skill_names = [],
     sr_has_runtime_state = True, sr_has_persistence = True, sr_complete_turn = False,
     sr_defer_clean_terminal_errors = True\<rparr>"

definition demo_ctx :: "unit RelayCtx" where
  "demo_ctx = \<lparr>cx_tick = 0, cx_messages = [], cx_status = Some ''running'', cx_extra = \<lparr>ex_workspace = None, ex_session_key = None, ex_current_model_id = None\<rparr>, cx_log = []\<rparr>"

definition demo_error :: AgentStreamErrorData where
  "demo_error = \<lparr>ed_message = ''timeout'', ed_code = Some UserLlmProviderTimeout, ed_ownership = None, ed_detail = None,
     ed_workspace_path = None, ed_retryable = Some True, ed_feedback_recommended = None, ed_resolution = None\<rparr>"

lemma demo_started:
  "case consume_with_send_error demo_world demo_relay [RecvEvent (Start None)] demo_ctx of
     (Inr st, c1) \<Rightarrow> \<not> rs_send_error_done st | _ \<Rightarrow> False"
  by code_simp

theorem replay_safe_attempt_showed_nothing:
  assumes "consume_with_send_error w r inputs c = (Inl outcome, c')"
  shows "(terminal_error_deferred (ro_attempt outcome) \<longrightarrow> quiet False c c') \<and>
    (safe_to_auto_replay (ro_attempt outcome) \<longrightarrow> quiet True c c')"
  using honest_run [OF honest_initial(1) honest_initial(2) assms [unfolded consume_with_send_error_def]]
  by (simp add: honest_outcome_def)

theorem replay_safe_attempt_showed_nothing_witness:
  "quiet False demo_ctx (snd (consume_with_send_error demo_world demo_relay
     [RecvEvent (Start None), RecvEvent (Text []), RecvEvent (Error demo_error)] demo_ctx))"
proof -
  let ?run = "consume_with_send_error demo_world demo_relay
     [RecvEvent (Start None), RecvEvent (Text []), RecvEvent (Error demo_error)] demo_ctx"
  have "fst ?run = Inl \<lparr>ro_system_responses = [], ro_terminal = TerminalError (Some UserLlmProviderTimeout) (Some True),
     ro_attempt = default_summary\<lparr>terminal_error := Some demo_error, terminal_error_deferred := True\<rparr>\<rparr>"
    by code_simp
  with replay_safe_attempt_showed_nothing [of demo_world demo_relay
     "[RecvEvent (Start None), RecvEvent (Text []), RecvEvent (Error demo_error)]" demo_ctx _ "snd ?run"]
  show ?thesis by (metis prod.collapse RelayOutcome.select_convs(3) TurnAttemptSummary.select_convs(5)
        TurnAttemptSummary.update_convs(5) TurnAttemptSummary.surjective)
qed

theorem failed_send_ends_the_relay:
  assumes "consume_with_send_error w r earlier c = (Inr st, c1)" "\<not> rs_send_error_done st"
    and "list_all (\<lambda>ev. \<not> is_terminal_event ev) evs"
  shows "\<exists>outcome c'. consume_with_send_error w r (earlier @ SendFailed err # map RecvEvent evs @ [RecvEmpty]) c = (Inl outcome, c')
    \<and> ro_terminal outcome = TerminalError (ed_code (se_stream_error err)) (ed_retryable (se_stream_error err))"
proof -
  have "pending_ok st"
    using run_pending_ok [of "initial_relay_state True" w r earlier c st c1] assms(1)
    by (simp add: consume_with_send_error_def pending_ok_def initial_relay_state_def)
  then have none: "rs_pending_send_error st = None" using assms(2) by (auto simp: pending_ok_def)
  let ?st = "st\<lparr>rs_send_error_done := True, rs_pending_send_error := Some err\<rparr>"
  obtain st2 c2 where run: "relay_run w r (map RecvEvent evs) (?st, c1) = (Inr st2, c2)"
      "rs_pending_send_error st2 = Some err" "rs_send_error_done st2"
    using run_pending [of ?st err evs w r c1] assms(3) by auto
  have "relay_step w r (SendFailed err) (st, c1) = (Inr ?st, c1)"
    using none assms(2) by (simp add: relay_step_def recv_result_def)
  moreover obtain outcome c' where "handle_event w r (Error (se_stream_error err)) (st2\<lparr>rs_pending_send_error := None\<rparr>, c2) = (Inl outcome, c')"
      "ro_terminal outcome = TerminalError (ed_code (se_stream_error err)) (ed_retryable (se_stream_error err))"
    using event_terminal [of "Error (se_stream_error err)" w r "st2\<lparr>rs_pending_send_error := None\<rparr>" c2] by auto
  then have "relay_run w r [RecvEmpty] (st2, c2) = (Inl outcome, c')"
    using run by (simp add: relay_step_def recv_result_def recv_with_pending_def)
  ultimately show ?thesis
    using assms(1) run(1) \<open>ro_terminal outcome = _\<close>
    by (simp add: consume_with_send_error_def run_append)
qed

theorem failed_send_ends_the_relay_witness:
  "\<exists>outcome c'. consume_with_send_error demo_world demo_relay
      ([RecvEvent (Start None)] @ SendFailed \<lparr>se_stream_error = demo_error\<rparr> # map RecvEvent [Text ''a''] @ [RecvEmpty]) demo_ctx = (Inl outcome, c')
    \<and> ro_terminal outcome = TerminalError (Some UserLlmProviderTimeout) (Some True)"
proof -
  obtain st c1 where st: "consume_with_send_error demo_world demo_relay [RecvEvent (Start None)] demo_ctx = (Inr st, c1)"
    "\<not> rs_send_error_done st" using demo_started by (auto split: prod.splits sum.splits)
  show ?thesis
    using failed_send_ends_the_relay [OF st, of "[Text ''a'']" "\<lparr>se_stream_error = demo_error\<rparr>"] by (simp add: demo_error_def)
qed

text \<open>
  C37: A relay that lags at the moment it looks for a terminal event of the agent drops the
  failure of the send for good: it then waits for the agent alone.
\<close>

theorem lag_loses_the_send_error:
  assumes "consume_with_send_error w r earlier c = (Inr st, c1)" "\<not> rs_send_error_done st" "list_all idle_input later"
  shows "\<exists>st' c'. consume_with_send_error w r (earlier @ [SendFailed err, RecvLagged] @ later) c = (Inr st', c')"
proof -
  have "pending_ok st"
    using run_pending_ok [of "initial_relay_state True" w r earlier c st c1] assms(1)
    by (simp add: consume_with_send_error_def pending_ok_def initial_relay_state_def)
  then have none: "rs_pending_send_error st = None" using assms(2) by (auto simp: pending_ok_def)
  let ?st = "st\<lparr>rs_send_error_done := True\<rparr>"
  have "relay_run w r [SendFailed err, RecvLagged] (st, c1) = (Inr ?st, c1)"
    using none assms(2) by (simp add: relay_step_def recv_result_def recv_with_pending_def)
  moreover obtain st' c' where "relay_run w r later (?st, c1) = (Inr st', c')"
    using run_waits [of ?st later w r c1] none assms(3) by auto
  ultimately show ?thesis using assms(1)
    by (simp only: consume_with_send_error_def run_append prod.case sum.case) blast
qed

theorem lag_loses_the_send_error_witness:
  "\<exists>st' c'. consume_with_send_error demo_world demo_relay ([RecvEvent (Start None)]
     @ [SendFailed \<lparr>se_stream_error = demo_error\<rparr>, RecvLagged] @ [RecvEmpty, RecvEvent (Text ''late''), RecvEmpty]) demo_ctx = (Inr st', c')"
proof -
  obtain st c1 where st: "consume_with_send_error demo_world demo_relay [RecvEvent (Start None)] demo_ctx = (Inr st, c1)"
    "\<not> rs_send_error_done st" using demo_started by (auto split: prod.splits sum.splits)
  show ?thesis by (rule lag_loses_the_send_error [OF st]) (simp add: idle_input_def)
qed

end
