(* ===== verification/Stream_Relay_Text.thy ===== *)
theory Stream_Relay_Text
  imports Stream_Relay_End
begin

text \<open>
  The text of a turn: while the database answers and the conversation is neither deleted nor shut
  down, the text the agent streams is in the message table when the relay ends, in order and
  without repetition, as the middleware leaves it. The invariant relates the closed segments, the
  open segment and the rows of the table.
\<close>

section \<open>The streamed text is stored\<close>

definition row_ids :: "'j RelayCtx \<Rightarrow> string set" where
  "row_ids c = fst ` set (cx_messages c)"

lemma row_ids_cong [simp]: "row_ids (tick c) = row_ids c" "row_ids (emit e c) = row_ids c"
  by (simp_all add: row_ids_def)

type_synonym 'j text_view = "(string \<times> 'j MessageContent \<times> bool) list"

text \<open>The text messages that were added, with their content and whether they are hidden.\<close>

definition new_texts :: "'j RelayCtx \<Rightarrow> 'j RelayCtx \<Rightarrow> 'j text_view" where
  "new_texts c0 c = map (\<lambda>(i, row). (i, mr_content row, mr_hidden row))
     (filter (\<lambda>(i, row). i \<notin> row_ids c0 \<and> mr_type row = ''text'') (cx_messages c))"

fun shown_entry :: "string \<times> 'j MessageContent \<times> bool \<Rightarrow> string" where
  "shown_entry (_, TextContent s, False) = s"
| "shown_entry _ = []"

definition shown_text :: "'j RelayCtx \<Rightarrow> 'j RelayCtx \<Rightarrow> string" where
  "shown_text c0 c = concat (map shown_entry (new_texts c0 c))"

fun event_text :: "'j AgentStreamEvent \<Rightarrow> string" where
  "event_text (Text s) = s"
| "event_text _ = []"

definition streamed_text :: "'j AgentStreamEvent list \<Rightarrow> string" where
  "streamed_text evs = concat (map event_text evs)"

text \<open>What is to be shown of a streamed text: the text itself, or what the middleware leaves of it.\<close>

definition displayed_text :: "'j World \<Rightarrow> string \<Rightarrow> string" where
  "displayed_text w s =
     (if s = [] \<or> w_strip_think_tags w s = s \<and> trim s \<noteq> [] then s else trim (w_strip_think_tags w s))"

fun event_call_ids :: "'j AgentStreamEvent \<Rightarrow> string list" where
  "event_call_ids (ToolCall d) = [tcd_call_id d]"
| "event_call_ids (AcpToolCall d) = [acd_tool_call_id d]"
| "event_call_ids (ToolGroup (e # _)) = [tge_call_id e]"
| "event_call_ids _ = []"

text \<open>
  The database answers, the conversation is neither deleted nor shut down, and message ids are
  fresh: distinct from one another, from the stored ids and from the ids of tool calls.
\<close>

definition own_ids :: "'j World \<Rightarrow> StreamRelay \<Rightarrow> string set" where
  "own_ids w r = insert (sr_msg_id r) (range (w_mint w))"

definition calm :: "'j World \<Rightarrow> StreamRelay \<Rightarrow> 'j RelayCtx \<Rightarrow> bool" where
  "calm w r c0 \<longleftrightarrow>
     (\<forall>t. w_db w t) \<and> (\<forall>t. lifecycle_for (w_svc w t) (sr_conversation_id r) \<in> {Active, Cancelling}) \<and>
     inj (w_mint w) \<and> sr_msg_id r \<notin> range (w_mint w) \<and>
     cx_status c0 \<noteq> None \<and> keyed (cx_messages c0) \<and> row_ids c0 \<inter> own_ids w r = {}"

lemma calm_allows:
  assumes "calm w r c0"
    and "kind \<in> {AssistantTextFlush, AssistantTextFinalize, AssistantThinkingFinalize, TerminalFinalize,
      ToolCallPersist, AcpToolCallPersist, ToolGroupPersist}"
  shows "allows_write w r kind c = (True, tick c)"
proof -
  have "lifecycle_for (w_svc w (cx_tick c)) (sr_conversation_id r) \<in> {Active, Cancelling}"
    using assms(1) by (simp add: calm_def)
  then show ?thesis using assms(2) by (auto simp: allows_write_def allows_def decide_def Let_def)
qed

lemma calm_not_deleting:
  assumes "calm w r c0" shows "relay_is_deleting w r c = (False, tick c)"
proof -
  have "lifecycle_for (w_svc w (cx_tick c)) (sr_conversation_id r) \<in> {Active, Cancelling}"
    using assms(1) by (simp add: calm_def)
  then show ?thesis by (auto simp: relay_is_deleting_def is_deleting_def lifecycle_for_def split: if_splits)
qed

lemma calm_db [simp]: "calm w r c0 \<Longrightarrow> w_db w t"
  by (simp add: calm_def)

lemma map_entry_keyed: "keyed m \<Longrightarrow> AList.map_entry k f m = map (\<lambda>(i, v). (i, if i = k then f v else v)) m"
proof (induction m)
  case (Cons p m)
  obtain i v where p: "p = (i, v)" by fastforce
  have "map (\<lambda>(j, v). (j, if j = i then f v else v)) m = m" if "i \<notin> fst ` set m"
    using that by (induction m) auto
  with Cons p show ?case by (auto simp: keyed_def)
qed simp

lemma new_texts_insert:
  "new_texts c0 (c\<lparr>cx_messages := cx_messages c @ [(i, row)]\<rparr>) =
     new_texts c0 c @ (if i \<notin> row_ids c0 \<and> mr_type row = ''text''
       then [(i, mr_content row, mr_hidden row)] else [])"
  by (simp add: new_texts_def)

lemma new_texts_map_entry:
  assumes "keyed (cx_messages c)" "\<And>row. mr_type (f row) = mr_type row"
    and "\<And>row. (mr_content (f row), mr_hidden (f row)) = g (mr_content row) (mr_hidden row)"
  shows "new_texts c0 (c\<lparr>cx_messages := AList.map_entry i f (cx_messages c)\<rparr>) =
     map (\<lambda>(j, ct, h). if j = i then (j, g ct h) else (j, ct, h)) (new_texts c0 c)"
proof -
  have "map (\<lambda>(i, row). (i, mr_content row, mr_hidden row))
      (filter (\<lambda>(i, row). i \<notin> S \<and> mr_type row = ''text'') (map (\<lambda>(j, v). (j, if j = i then f v else v)) m)) =
    map (\<lambda>(j, ct, h). if j = i then (j, g ct h) else (j, ct, h))
      (map (\<lambda>(i, row). (i, mr_content row, mr_hidden row)) (filter (\<lambda>(i, row). i \<notin> S \<and> mr_type row = ''text'') m))" for m S
    using assms(2) by (induction m) (simp_all add: split_def flip: assms(3))
  then show ?thesis using assms(1) by (simp add: new_texts_def map_entry_keyed)
qed

lemma new_texts_other:
  assumes "keyed (cx_messages c)" "\<And>row. mr_type (f row) = mr_type row" "i \<notin> fst ` set (new_texts c0 c)"
  shows "new_texts c0 (c\<lparr>cx_messages := AList.map_entry i f (cx_messages c)\<rparr>) = new_texts c0 c"
proof -
  have "map (\<lambda>(i, row). (i, mr_content row, mr_hidden row))
      (filter (\<lambda>(i, row). i \<notin> S \<and> mr_type row = ''text'') (map (\<lambda>(j, v). (j, if j = i then f v else v)) m)) =
    map (\<lambda>(i, row). (i, mr_content row, mr_hidden row)) (filter (\<lambda>(i, row). i \<notin> S \<and> mr_type row = ''text'') m)"
    if "i \<notin> fst ` set (filter (\<lambda>(i, row). i \<notin> S \<and> mr_type row = ''text'') m)" for m S
    using that assms(2) by (induction m) (auto split: if_splits)
  moreover have "i \<notin> fst ` set (filter (\<lambda>(i, row). i \<notin> row_ids c0 \<and> mr_type row = ''text'') (cx_messages c))"
    using assms(3) by (force simp: new_texts_def image_image split_def)
  ultimately show ?thesis using assms(1) by (simp add: new_texts_def map_entry_keyed)
qed

lemma new_texts_cong [simp]:
  "new_texts c0 (tick c) = new_texts c0 c" "new_texts c0 (emit e c) = new_texts c0 c"
  by (simp_all add: new_texts_def)

text \<open>
  A step that stores other messages only, under the ids of tool calls or newly minted ones.
\<close>

definition frame :: "'j World \<Rightarrow> string set \<Rightarrow> 'j RelayCtx \<Rightarrow> 'j RelayCtx \<Rightarrow> 'j RelayCtx \<Rightarrow> bool" where
  "frame w K c0 c c' \<longleftrightarrow>
     (keyed (cx_messages c) \<longrightarrow> keyed (cx_messages c')) \<and> cx_status c' = cx_status c \<and> cx_tick c \<le> cx_tick c' \<and>
     new_texts c0 c' = new_texts c0 c \<and>
     row_ids c' \<subseteq> row_ids c \<union> K \<union> w_mint w ` {cx_tick c..<cx_tick c'}"

lemma frame_refl [simp]: "frame w K c0 c c"
  by (simp add: frame_def)

lemma frame_trans:
  assumes "frame w K c0 a b" "frame w K c0 b c"
  shows "frame w K c0 a c"
proof -
  have "w_mint w ` {cx_tick a..<cx_tick b} \<union> w_mint w ` {cx_tick b..<cx_tick c} = w_mint w ` {cx_tick a..<cx_tick c}"
    using assms by (simp add: frame_def ivl_disj_un_two(3) flip: image_Un)
  then show ?thesis using assms unfolding frame_def by (auto dest!: subsetD)
qed

lemma frame_tick: "frame w K c0 c c' \<Longrightarrow> frame w K c0 c (tick c')"
  by (auto simp: frame_def)

lemma frame_emit: "frame w K c0 c c' \<Longrightarrow> frame w K c0 c (emit e c')"
  by (simp add: frame_def)

lemma frame_insert:
  assumes "frame w K c0 c c'" "mr_type row \<noteq> ''text''" "mr_id row \<in> K \<union> w_mint w ` {cx_tick c..<cx_tick c'}"
  shows "frame w K c0 c (snd (insert_message w row c'))"
  using assms new_texts_insert [of c0 "tick c'" "mr_id row" row]
  by (auto simp: frame_def insert_message_def keyed_def map_of_eq_None_iff less_Suc_eq row_ids_def)

lemma frame_map_entry:
  assumes "frame w K c0 c c'" "keyed (cx_messages c)" "\<And>row. mr_type (f row) = mr_type row" "i \<notin> fst ` set (new_texts c0 c)"
  shows "frame w K c0 c ((tick c')\<lparr>cx_messages := AList.map_entry i f (cx_messages c')\<rparr>)"
proof -
  have "fst ` set (AList.map_entry i f m) = fst ` set m" for m
    by (metis list.set_map dom_map_entry)
  moreover have "new_texts c0 ((tick c')\<lparr>cx_messages := AList.map_entry i f (cx_messages c')\<rparr>) = new_texts c0 c'"
    using new_texts_other [of "tick c'" f i c0] assms by (simp add: frame_def)
  ultimately show ?thesis using assms(1,2) by (auto simp: frame_def less_Suc_eq row_ids_def)
qed

lemma frame_upsert:
  assumes "frame w K c0 c c'" "keyed (cx_messages c)" "mr_type row \<noteq> ''text''" "mr_id row \<in> K"
    and "fst ` set (new_texts c0 c) \<inter> K = {}"
  shows "frame w K c0 c (snd (upsert_message w row c'))"
proof -
  have type: "mr_type (merge_row w row old) = mr_type old" for old by (simp add: merge_row_def Let_def)
  have "frame w K c0 c ((tick c')\<lparr>cx_messages := cx_messages c' @ [(mr_id row, row)]\<rparr>)"
    if "map_of (cx_messages c') (mr_id row) = None"
    using that assms new_texts_insert [of c0 "tick c'" "mr_id row" row]
    by (auto simp: frame_def keyed_def map_of_eq_None_iff less_Suc_eq row_ids_def)
  then show ?thesis
    using frame_map_entry [OF assms(1,2) type] assms(1,4,5) by (auto simp: upsert_message_def frame_tick)
qed

lemma frame_update:
  assumes "frame w K c0 c c'" "keyed (cx_messages c)" "i \<notin> fst ` set (new_texts c0 c)"
  shows "frame w K c0 c (snd (update_message w i upd c'))"
  using frame_map_entry [OF assms(1,2), of "apply_update upd" i] assms(1,3)
  by (auto simp: update_message_def apply_update_def frame_tick)

lemma mint_in: "cx_tick c \<le> t \<Longrightarrow> t < cx_tick c' \<Longrightarrow> w_mint w t \<in> w_mint w ` {cx_tick c..<cx_tick c'}"
  by simp

lemma frame_tips:
  "frame w K c0 c (persist_tip w r data c)" "frame w K c0 c (persist_error_tip w r err c)"
  by (auto simp: persist_tip_def persist_error_tip_def allows_write_def mint_msg_id_def now_ms_def Let_def left_row_def
      intro!: frame_insert frame_tick)

lemma frame_tools:
  assumes "keyed (cx_messages c)" "fst ` set (new_texts c0 c) \<inter> K = {}"
  shows "tcd_call_id d \<in> K \<Longrightarrow> frame w K c0 c (persist_tool_call w r d c)"
    and "acd_tool_call_id a \<in> K \<Longrightarrow> frame w K c0 c (persist_acp_tool_call w r a c)"
  using assms
  by (auto simp: persist_tool_call_def persist_acp_tool_call_def allows_write_def now_ms_def Let_def left_row_def
      intro!: frame_upsert frame_tick)

lemma frame_group:
  assumes "keyed (cx_messages c)" "fst ` set (new_texts c0 c) \<inter> K = {}"
    and "row_ids c \<inter> w_mint w ` {cx_tick c..} = {}"
    and "set (event_call_ids (ToolGroup entries :: 'j AgentStreamEvent)) \<subseteq> K"
  shows "frame w K (c0 :: 'j RelayCtx) c (persist_tool_group w r entries c)"
proof -
  obtain g t where g: "(case entries of e # _ \<Rightarrow> (tge_call_id e, tick c) | [] \<Rightarrow> mint_msg_id w (tick c)) = (g, t)"
    by fastforce
  then have t: "frame w K c0 c t" "g \<in> K \<union> w_mint w ` {cx_tick c..<cx_tick t}"
    using assms(4) by (auto simp: mint_msg_id_def frame_tick split: list.splits)
  have dom: "fst ` set (new_texts c0 c) \<subseteq> row_ids c"
    by (force simp: new_texts_def row_ids_def)
  have "g \<notin> fst ` set (new_texts c0 c)"
  proof
    assume g: "g \<in> fst ` set (new_texts c0 c)"
    have "w_mint w ` {cx_tick c..<cx_tick t} \<subseteq> w_mint w ` {cx_tick c..}" by auto
    with g t(2) assms(2,3) dom show False by blast
  qed
  then show ?thesis
    using t assms(1)
    by (auto simp: persist_tool_group_def allows_write_def now_ms_def get_message_by_msg_id_def Let_def left_row_def g
        intro!: frame_update frame_insert frame_tick)
qed

text \<open>The text received so far is in the table, in the open segment or in both.\<close>

definition used_ids :: "'j World \<Rightarrow> StreamRelay \<Rightarrow> RelayState \<Rightarrow> 'j RelayCtx \<Rightarrow> string set" where
  "used_ids w r st c = (if rs_used_primary st then {sr_msg_id r} else {}) \<union> w_mint w ` {..<cx_tick c}"

definition open_buffer :: "RelayState \<Rightarrow> string" where
  "open_buffer st = (case rs_active_text st of None \<Rightarrow> [] | Some a \<Rightarrow> ts_buffer a)"

definition open_rows :: "'j World \<Rightarrow> StreamRelay \<Rightarrow> RelayState \<Rightarrow> 'j RelayCtx \<Rightarrow> (string \<times> string) list \<Rightarrow> 'j text_view \<Rightarrow> bool" where
  "open_rows w r st c segs rows \<longleftrightarrow>
     (case rs_active_text st of
        None \<Rightarrow> rows = []
      | Some a \<Rightarrow> ts_id a \<in> used_ids w r st c \<and> ts_id a \<notin> fst ` set segs \<and>
          (if ts_record_created a then ts_buffer a \<noteq> [] \<and> (\<exists>s. rows = [(ts_id a, TextContent s, False)])
           else rows = [] \<and> ts_id a \<notin> row_ids c))"

definition seg_rows :: "(string \<times> string) list \<Rightarrow> 'j text_view" where
  "seg_rows = map (\<lambda>(i, s). (i, TextContent s, False))"

definition ids_ok :: "'j World \<Rightarrow> StreamRelay \<Rightarrow> string set \<Rightarrow> 'j RelayCtx \<Rightarrow> RelayState \<times> 'j RelayCtx \<Rightarrow> bool" where
  "ids_ok w r K c0 = (\<lambda>(st, c).
     keyed (cx_messages c) \<and> cx_status c \<noteq> None \<and>
     row_ids c \<subseteq> row_ids c0 \<union> K \<union> used_ids w r st c \<and>
     (case rs_active_thinking st of None \<Rightarrow> True | Some h \<Rightarrow> hs_id h \<in> used_ids w r st c) \<and>
     (rs_active_text st = None \<or> rs_active_thinking st = None))"

definition text_ok :: "'j World \<Rightarrow> StreamRelay \<Rightarrow> 'j RelayCtx \<Rightarrow> RelayState \<times> 'j RelayCtx \<Rightarrow> bool" where
  "text_ok w r c0 = (\<lambda>(st, c).
     \<exists>segs rows. rs_text_segments st = map fst segs \<and> distinct (map fst segs) \<and> fst ` set segs \<subseteq> used_ids w r st c \<and>
       rs_full_text_buffer st = concat (map snd segs) @ open_buffer st \<and>
       new_texts c0 c = seg_rows segs @ rows \<and> open_rows w r st c segs rows)"

definition stored :: "'j World \<Rightarrow> StreamRelay \<Rightarrow> string set \<Rightarrow> 'j RelayCtx \<Rightarrow> RelayState \<times> 'j RelayCtx \<Rightarrow> bool" where
  "stored w r K c0 x \<longleftrightarrow> ids_ok w r K c0 x \<and> text_ok w r c0 x"

lemma stored_frame:
  assumes calm: "calm w r c0" "K \<inter> own_ids w r = {}" and "stored w r K c0 (st, c)" "frame w K c0 c c'"
  shows "stored w r K c0 (st, c')"
proof -
  have used: "used_ids w r st c \<subseteq> used_ids w r st c'" "w_mint w ` {cx_tick c..<cx_tick c'} \<subseteq> used_ids w r st c'"
    using assms(4) by (auto simp: used_ids_def frame_def)
  have new: "used_ids w r st c \<inter> (K \<union> w_mint w ` {cx_tick c..<cx_tick c'}) = {}"
    using calm by (auto simp: used_ids_def calm_def own_ids_def inj_eq split: if_splits)
  have "row_ids c' \<subseteq> row_ids c0 \<union> K \<union> used_ids w r st c'"
    using assms(3,4) used unfolding stored_def ids_ok_def frame_def by blast
  then have ids: "ids_ok w r K c0 (st, c')"
    using assms(3,4) used unfolding stored_def ids_ok_def frame_def
    by (simp split: option.splits) blast
  have "open_rows w r st c' segs rows" if "open_rows w r st c segs rows" for segs rows
    using that assms(4) used new by (auto simp: open_rows_def frame_def split: option.splits if_splits)
  moreover obtain segs rows where "rs_text_segments st = map fst segs" "distinct (map fst segs)"
      "fst ` set segs \<subseteq> used_ids w r st c" "rs_full_text_buffer st = concat (map snd segs) @ open_buffer st"
      "new_texts c0 c = seg_rows segs @ rows" "open_rows w r st c segs rows"
    using assms(3) by (auto simp: stored_def text_ok_def)
  ultimately have "text_ok w r c0 (st, c')"
    using assms(4) used(1) unfolding text_ok_def frame_def split_conv
    by (intro exI [where x = segs] exI [where x = rows] conjI) auto
  with ids show ?thesis by (simp add: stored_def)
qed

lemma used_ids_simps [simp]:
  "used_ids w r (st\<lparr>rs_attempt := a\<rparr>) c = used_ids w r st c"
  "used_ids w r (st\<lparr>rs_active_text := x\<rparr>) c = used_ids w r st c"
  "used_ids w r (st\<lparr>rs_active_thinking := h\<rparr>) c = used_ids w r st c"
  "used_ids w r (st\<lparr>rs_text_segments := l\<rparr>) c = used_ids w r st c"
  "used_ids w r (st\<lparr>rs_full_text_buffer := s\<rparr>) c = used_ids w r st c"
  "used_ids w r st (emit e c) = used_ids w r st c"
  by (simp_all add: used_ids_def)

lemma used_ids_tick: "used_ids w r st c \<subseteq> used_ids w r st (tick c)"
  by (auto simp: used_ids_def)

lemma used_ids_own: "used_ids w r st c \<subseteq> own_ids w r"
  by (auto simp: used_ids_def own_ids_def)

lemma stored_attempt [simp]: "stored w r K c0 (st\<lparr>rs_attempt := a\<rparr>, c) = stored w r K c0 (st, c)"
  by (simp add: stored_def ids_ok_def text_ok_def open_buffer_def open_rows_def cong: option.case_cong)

lemma stored_marks [simp]:
  "stored w r K c0 (mark_visible st, c) = stored w r K c0 (st, c)"
  "stored w r K c0 (mark_side_effect st, c) = stored w r K c0 (st, c)"
  by (simp_all add: mark_visible_def mark_side_effect_def)

lemma stored_no_text:
  assumes "stored w r K c0 (st, c)" "rs_active_text st = None" "keyed (cx_messages c')" "cx_status c' = cx_status c"
    and "new_texts c0 c' = new_texts c0 c" "cx_tick c \<le> cx_tick c'"
    and "row_ids c' \<subseteq> row_ids c \<union> used_ids w r st c'"
  shows "stored w r K c0 (st\<lparr>rs_active_thinking := None\<rparr>, c')"
proof -
  have used: "used_ids w r st c \<subseteq> used_ids w r st c'" using assms(6) by (auto simp: used_ids_def)
  have "ids_ok w r K c0 (st\<lparr>rs_active_thinking := None\<rparr>, c')"
    using assms used unfolding stored_def ids_ok_def split_conv by (simp split: option.splits) blast+
  moreover obtain segs where "rs_text_segments st = map fst segs" "distinct (map fst segs)"
      "fst ` set segs \<subseteq> used_ids w r st c" "rs_full_text_buffer st = concat (map snd segs)"
      "new_texts c0 c = seg_rows segs"
    using assms(1,2) by (auto simp: stored_def text_ok_def open_rows_def open_buffer_def)
  then have "text_ok w r c0 (st\<lparr>rs_active_thinking := None\<rparr>, c')"
    using used assms(2,5) unfolding text_ok_def split_conv
    by (intro exI [where x = segs] exI [where x = "[]"]) (auto simp: open_rows_def open_buffer_def)
  ultimately show ?thesis by (simp add: stored_def)
qed

lemma insert_ok:
  assumes "calm w r c0" "cx_status c \<noteq> None" "mr_id row \<notin> row_ids c"
  shows "insert_message w row c = (True, (tick c)\<lparr>cx_messages := cx_messages c @ [(mr_id row, row)]\<rparr>)"
  using assms by (simp add: insert_message_def row_ids_def map_of_eq_None_iff)

lemma insert_ids: "row_ids (c\<lparr>cx_messages := cx_messages c' @ [(i, row)]\<rparr>) = insert i (row_ids c')"
  by (auto simp: row_ids_def)

lemma stored_complete_thinking:
  assumes calm: "calm w r c0" and st: "stored w r K c0 x"
  shows "stored w r K c0 (complete_active_thinking w r x)
    \<and> rs_active_thinking (fst (complete_active_thinking w r x)) = None"
proof -
  obtain st c where x: "x = (st, c)" by fastforce
  show ?thesis
  proof (cases "rs_active_thinking st")
    case None
    then show ?thesis using st x by (simp add: complete_active_thinking_def)
  next
    case (Some h)
    have none: "rs_active_text st = None" and id: "hs_id h \<in> used_ids w r st c" and key: "keyed (cx_messages c)"
      using st x Some by (auto simp: stored_def ids_ok_def)
    obtain d where d: "complete_active_thinking w r x =
        (st\<lparr>rs_active_thinking := None\<rparr>, persist_thinking_segment w r h d (send_thinking_done (hs_id h) d (tick c)))"
      using x Some by (simp add: complete_active_thinking_def now_ms_def Let_def)
    define c1 where "c1 = send_thinking_done (hs_id h) d (tick c)"
    have c1: "cx_messages c1 = cx_messages c" "cx_status c1 = cx_status c" "cx_tick c1 = Suc (cx_tick c)"
        "new_texts c0 c1 = new_texts c0 c" "row_ids c1 = row_ids c"
      by (simp_all add: c1_def send_thinking_done_def forward_with_msg_id_def)
    have used: "used_ids w r st c \<subseteq> used_ids w r st c'" if "cx_tick c \<le> cx_tick c'" for c'
      using that by (auto simp: used_ids_def)
    let ?c = "persist_thinking_segment w r h d c1"
    have "keyed (cx_messages ?c) \<and> cx_status ?c = cx_status c \<and> new_texts c0 ?c = new_texts c0 c
        \<and> cx_tick c \<le> cx_tick ?c \<and> row_ids ?c \<subseteq> insert (hs_id h) (row_ids c)"
      using key c1 new_texts_insert [of c0 "tick (tick c1)"]
      by (auto simp: persist_thinking_segment_def calm_allows [OF calm] insert_message_def left_row_def insert_ids
          keyed_def map_of_eq_None_iff)
    then show ?thesis
      using stored_no_text [OF st [unfolded x] none, of ?c] used [of ?c] id d c1_def by auto
  qed
qed

text \<open>The open segment, taken apart and put together.\<close>

definition open_ok ::
  "'j World \<Rightarrow> StreamRelay \<Rightarrow> string set \<Rightarrow> 'j RelayCtx \<Rightarrow> RelayState \<Rightarrow> 'j RelayCtx \<Rightarrow> (string \<times> string) list \<Rightarrow> bool" where
  "open_ok w r K c0 st c segs \<longleftrightarrow>
     keyed (cx_messages c) \<and> cx_status c \<noteq> None \<and> row_ids c \<subseteq> row_ids c0 \<union> K \<union> used_ids w r st c \<and>
     rs_text_segments st = map fst segs \<and> distinct (map fst segs) \<and> fst ` set segs \<subseteq> used_ids w r st c"

lemma seg_rows_append [simp]: "seg_rows (xs @ ys) = seg_rows xs @ seg_rows ys" "seg_rows [(i, s)] = [(i, TextContent s, False)]"
  "seg_rows [] = []" "seg_rows ((i, s) # xs) = (i, TextContent s, False) # seg_rows xs" "length (seg_rows xs) = length xs"
  by (simp_all add: seg_rows_def)

definition open_seg ::
  "'j World \<Rightarrow> StreamRelay \<Rightarrow> 'j RelayCtx \<Rightarrow> RelayState \<Rightarrow> 'j RelayCtx \<Rightarrow> (string \<times> string) list \<Rightarrow> TextSegmentState \<Rightarrow> bool" where
  "open_seg w r c0 st c segs a \<longleftrightarrow>
     rs_full_text_buffer st = concat (map snd segs) @ ts_buffer a \<and> ts_id a \<in> used_ids w r st c \<and> ts_id a \<notin> fst ` set segs \<and>
     (if ts_record_created a then ts_buffer a \<noteq> [] \<and> (\<exists>s. new_texts c0 c = seg_rows segs @ [(ts_id a, TextContent s, False)])
      else new_texts c0 c = seg_rows segs \<and> ts_id a \<notin> row_ids c)"

lemma stored_openD:
  assumes "stored w r K c0 (st, c)" "rs_active_text st = Some a"
  shows "rs_active_thinking st = None" "\<exists>segs. open_ok w r K c0 st c segs \<and> open_seg w r c0 st c segs a"
proof -
  show "rs_active_thinking st = None" using assms by (auto simp: stored_def ids_ok_def)
  obtain segs rows where 1: "rs_text_segments st = map fst segs" "distinct (map fst segs)"
      "fst ` set segs \<subseteq> used_ids w r st c" "rs_full_text_buffer st = concat (map snd segs) @ open_buffer st"
      "new_texts c0 c = seg_rows segs @ rows" "open_rows w r st c segs rows"
    using assms(1) unfolding stored_def text_ok_def split_conv by blast
  have 2: "keyed (cx_messages c)" "cx_status c \<noteq> None" "row_ids c \<subseteq> row_ids c0 \<union> K \<union> used_ids w r st c"
    using assms(1) unfolding stored_def ids_ok_def split_conv by blast+
  have "open_seg w r c0 st c segs a"
    using 1(4-6) assms(2) by (auto simp: open_seg_def open_rows_def open_buffer_def split: if_splits)
  with 1 2 show "\<exists>segs. open_ok w r K c0 st c segs \<and> open_seg w r c0 st c segs a" unfolding open_ok_def by blast
qed

lemma stored_openI:
  assumes "rs_active_text st = Some a" "rs_active_thinking st = None" "open_ok w r K c0 st c segs" "open_seg w r c0 st c segs a"
  shows "stored w r K c0 (st, c)"
proof -
  define rows where "rows = drop (length segs) (new_texts c0 c)"
  have "new_texts c0 c = seg_rows segs @ rows" "open_rows w r st c segs rows"
    using assms(1,4) by (auto simp: open_seg_def open_rows_def rows_def split: if_splits)
  moreover have "rs_full_text_buffer st = concat (map snd segs) @ open_buffer st"
    using assms(1,4) by (simp add: open_seg_def open_buffer_def)
  ultimately have "text_ok w r c0 (st, c)"
    using assms(3) unfolding text_ok_def open_ok_def split_conv by blast
  moreover have "ids_ok w r K c0 (st, c)" using assms(2,3) by (simp add: ids_ok_def open_ok_def)
  ultimately show ?thesis by (simp add: stored_def)
qed

lemma stored_closed:
  "rs_active_text st = None \<Longrightarrow> rs_active_thinking st = None \<Longrightarrow>
   stored w r K c0 (st, c) \<longleftrightarrow>
   (\<exists>segs. open_ok w r K c0 st c segs \<and> rs_full_text_buffer st = concat (map snd segs) \<and> new_texts c0 c = seg_rows segs)"
  unfolding stored_def ids_ok_def text_ok_def open_rows_def open_ok_def split_conv
  by (auto simp: open_buffer_def)

lemma seg_rows_other:
  "i \<notin> fst ` set segs \<Longrightarrow> map (\<lambda>(j, ct, h). if j = i then (j, g ct h) else (j, ct, h)) (seg_rows segs) = seg_rows segs"
  unfolding seg_rows_def by (induction segs) auto

text \<open>Writing the open segment: an update of its row, or its first row.\<close>

lemma update_open:
  assumes "calm w r c0" "keyed (cx_messages c)" "new_texts c0 c = seg_rows segs @ [(i, TextContent s, False)]"
    and "i \<notin> fst ` set segs" "mu_content upd = Some (TextContent s')" "mu_hidden upd = None \<or> mu_hidden upd = Some False"
  shows "\<exists>c'. update_message w i upd c = (True, c') \<and> new_texts c0 c' = seg_rows segs @ [(i, TextContent s', False)]
    \<and> keyed (cx_messages c') \<and> cx_status c' = cx_status c \<and> row_ids c' = row_ids c \<and> cx_tick c' = Suc (cx_tick c)"
proof -
  have "i \<in> fst ` set (new_texts c0 c)" using assms(3) by force
  then have "i \<in> row_ids c" by (force simp: new_texts_def row_ids_def)
  then have "map_of (cx_messages c) i \<noteq> None" by (metis row_ids_def map_of_eq_None_iff)
  then have upd: "update_message w i upd c =
      (True, (tick c)\<lparr>cx_messages := AList.map_entry i (apply_update upd) (cx_messages c)\<rparr>)"
    using assms(1,5) by (simp add: update_message_def)
  have "new_texts c0 ((tick c)\<lparr>cx_messages := AList.map_entry i (apply_update upd) (cx_messages c)\<rparr>) =
      map (\<lambda>(j, ct, h). if j = i then (j, (TextContent s', case mu_hidden upd of Some x \<Rightarrow> x | None \<Rightarrow> h)) else (j, ct, h))
        (new_texts c0 c)"
    using new_texts_map_entry [of "tick c" "apply_update upd" "\<lambda>ct h. (TextContent s', case mu_hidden upd of Some x \<Rightarrow> x | None \<Rightarrow> h)" c0 i]
      assms(2,5) by (simp add: apply_update_def)
  also have "\<dots> = seg_rows segs @ [(i, TextContent s', False)]"
    using seg_rows_other [OF assms(4), of "\<lambda>ct h. (TextContent s', case mu_hidden upd of Some x \<Rightarrow> x | None \<Rightarrow> h)"] assms(3,6)
    by auto
  finally show ?thesis using upd assms(2) dom_map_entry [of i "apply_update upd" "cx_messages c"]
    by (simp add: row_ids_def)
qed

lemma insert_open:
  assumes "calm w r c0" "keyed (cx_messages c)" "cx_status c \<noteq> None" "ts_id a \<notin> row_ids c" "ts_id a \<in> own_ids w r"
  shows "\<exists>c'. insert_message w (text_row r a status) c = (True, c')
    \<and> new_texts c0 c' = new_texts c0 c @ [(ts_id a, TextContent (ts_buffer a), False)]
    \<and> keyed (cx_messages c') \<and> cx_status c' = cx_status c \<and> row_ids c' = insert (ts_id a) (row_ids c)
    \<and> cx_tick c' = Suc (cx_tick c)"
proof -
  have "ts_id a \<notin> row_ids c0" using assms(1,5) by (auto simp: calm_def)
  then show ?thesis
    using assms insert_ok [OF assms(1,3), of "text_row r a status"] new_texts_insert [of c0 "tick c" "ts_id a" "text_row r a status"]
    by (auto simp: text_row_def left_row_def insert_ids keyed_def row_ids_def)
qed

lemma open_ok_mono:
  assumes "open_ok w r K c0 st c segs" "keyed (cx_messages c')" "cx_status c' = cx_status c" "cx_tick c \<le> cx_tick c'"
    and "row_ids c' \<subseteq> row_ids c \<union> used_ids w r st c" "rs_used_primary st' = rs_used_primary st"
    and "rs_text_segments st' = rs_text_segments st"
  shows "open_ok w r K c0 st' c' segs"
proof -
  have "used_ids w r st c \<subseteq> used_ids w r st' c'" using assms(4,6) by (auto simp: used_ids_def)
  then show ?thesis using assms unfolding open_ok_def by auto
qed

lemma used_mono: "rs_used_primary st' = rs_used_primary st \<Longrightarrow> cx_tick c \<le> cx_tick c' \<Longrightarrow> i \<in> used_ids w r st c \<Longrightarrow> i \<in> used_ids w r st' c'"
  by (auto simp: used_ids_def)

lemma stored_close_text:
  assumes calm: "calm w r c0" and st: "stored w r K c0 x"
  shows "stored w r K c0 (close_active_text_segment w r status x)
    \<and> rs_active_text (fst (close_active_text_segment w r status x)) = None
    \<and> rs_active_thinking (fst (close_active_text_segment w r status x)) = rs_active_thinking (fst x)"
proof -
  obtain st c where x: "x = (st, c)" by fastforce
  show ?thesis
  proof (cases "rs_active_text st")
    case None
    then show ?thesis using st x by (simp add: close_active_text_segment_def)
  next
    case (Some a)
    note D = stored_openD [OF st [unfolded x] Some]
    obtain segs where ok: "open_ok w r K c0 st c segs" and seg: "open_seg w r c0 st c segs a" using D(2) by blast
    have own: "ts_id a \<in> own_ids w r" using seg used_ids_own [of w r st c] by (auto simp: open_seg_def)
    let ?t = "tick c"
    have t: "keyed (cx_messages ?t)" "cx_status ?t \<noteq> None" "new_texts c0 ?t = new_texts c0 c" using ok by (simp_all add: open_ok_def)
    show ?thesis
    proof (cases "ts_buffer a = []")
      case True
      then have "close_active_text_segment w r status x = (st\<lparr>rs_active_text := None\<rparr>, ?t)"
        using x Some by (simp add: close_active_text_segment_def finalize_text_segment_def calm_allows [OF calm] Let_def)
      moreover have "stored w r K c0 (st\<lparr>rs_active_text := None\<rparr>, ?t)"
        using seg True D(1) open_ok_mono [OF ok, of ?t "st\<lparr>rs_active_text := None\<rparr>"] t
        by (subst stored_closed) (auto simp: open_seg_def split: if_splits)
      ultimately show ?thesis using D(1) x by simp
    next
      case False
      obtain c' where c': "finalize_text_segment w r a status c = (Some (ts_id a), c')"
          "new_texts c0 c' = seg_rows (segs @ [(ts_id a, ts_buffer a)])" "keyed (cx_messages c')"
          "cx_status c' = cx_status c" "row_ids c' \<subseteq> insert (ts_id a) (row_ids c)" "cx_tick c \<le> cx_tick c'"
      proof (cases "ts_record_created a")
        case True
        then obtain s where "new_texts c0 ?t = seg_rows segs @ [(ts_id a, TextContent s, False)]"
          using seg t(3) by (auto simp: open_seg_def)
        from update_open [OF calm t(1) this, of "\<lparr>mu_content = Some (TextContent (ts_buffer a)), mu_status = Some (Some status), mu_hidden = Some False\<rparr>" "ts_buffer a"]
        show ?thesis using that seg False True
          by (auto simp: subset_insertI open_seg_def finalize_text_segment_def calm_allows [OF calm] Let_def)
      next
        case False
        with insert_open [OF calm t(1,2), of a status] own seg t(3) \<open>ts_buffer a \<noteq> []\<close> that
        show ?thesis by (auto simp: open_seg_def finalize_text_segment_def calm_allows [OF calm] Let_def)
      qed
      let ?st = "st\<lparr>rs_active_text := None, rs_text_segments := rs_text_segments st @ [ts_id a]\<rparr>"
      have "close_active_text_segment w r status x = (?st, c')"
        using x Some c'(1) by (simp add: close_active_text_segment_def Let_def)
      moreover have "open_ok w r K c0 ?st c' (segs @ [(ts_id a, ts_buffer a)])"
        using ok seg c' used_mono [of ?st st c c' _ w r] unfolding open_ok_def open_seg_def by auto
      then have "stored w r K c0 (?st, c')"
        using seg c'(2) D(1) by (subst stored_closed) (auto simp: open_seg_def)
      ultimately show ?thesis using D(1) x by simp
    qed
  qed
qed

lemma stored_close_segments:
  assumes "calm w r c0" "stored w r K c0 x"
  shows "stored w r K c0 (close_segments w r status x)"
    and "rs_active_text (fst (close_segments w r status x)) = None"
    and "rs_active_thinking (fst (close_segments w r status x)) = None"
  using stored_complete_thinking [OF assms] stored_close_text [OF assms(1), of K "complete_active_thinking w r x" status]
  by (simp_all add: close_segments_def)

lemma mint_fresh:
  assumes "calm w r c0" "K \<inter> own_ids w r = {}" "row_ids c \<subseteq> row_ids c0 \<union> K \<union> used_ids w r st c"
    and "mint_segment_msg_id w r st c = (i, st', c')"
  shows "i \<notin> row_ids c \<and> i \<notin> used_ids w r st c \<and> i \<in> used_ids w r st' (tick c')
    \<and> used_ids w r st c \<subseteq> used_ids w r st' (tick c') \<and> cx_messages c' = cx_messages c \<and> cx_status c' = cx_status c"
proof -
  have mint: "sr_msg_id r \<noteq> w_mint w t" "sr_msg_id r \<notin> w_mint w ` A" "w_mint w t \<notin> w_mint w ` {..<t}" for t A
    using assms(1) by (auto simp: calm_def inj_eq)
  have "i \<in> own_ids w r \<and> i \<notin> used_ids w r st c \<and> i \<in> used_ids w r st' (tick c')
      \<and> used_ids w r st c \<subseteq> used_ids w r st' (tick c') \<and> cx_messages c' = cx_messages c \<and> cx_status c' = cx_status c"
  proof (cases "rs_used_primary st")
    case True
    then have "i = w_mint w (cx_tick c)" "st' = st" "c' = tick c"
      using assms(4) by (auto simp: mint_segment_msg_id_def mint_msg_id_def)
    then show ?thesis using mint(3) [of "cx_tick c"] mint(1) [of "cx_tick c"] True
      by (auto simp: used_ids_def own_ids_def simp del: image_iff)
  next
    case False
    then have "i = sr_msg_id r" "st' = st\<lparr>rs_used_primary := True\<rparr>" "c' = c"
      using assms(4) by (auto simp: mint_segment_msg_id_def)
    then show ?thesis using mint(2) [of "{..<cx_tick c}"] False by (auto simp: used_ids_def own_ids_def)
  qed
  moreover have "row_ids c0 \<inter> own_ids w r = {}" using assms(1) by (simp add: calm_def)
  ultimately show ?thesis using assms(2,3) by blast
qed

lemma mint_keeps:
  "mint_segment_msg_id w r st c = (i, st', c') \<Longrightarrow> rs_text_segments st' = rs_text_segments st
     \<and> rs_full_text_buffer st' = rs_full_text_buffer st \<and> rs_active_text st' = rs_active_text st
     \<and> rs_active_thinking st' = rs_active_thinking st \<and> rs_attempt st' = rs_attempt st"
  by (auto simp: mint_segment_msg_id_def mint_msg_id_def split: if_splits)

lemma stored_open_text:
  assumes calm: "calm w r c0" "K \<inter> own_ids w r = {}" and st: "stored w r K c0 (st, c)" and th: "rs_active_thinking st = None"
    and res: "open_text w r (st, c) = (a, st', c')"
  shows "stored w r K c0 (st'\<lparr>rs_active_text := Some a\<rparr>, c')"
proof (cases "rs_active_text st")
  case None
  obtain i st1 c1 where m: "mint_segment_msg_id w r st c = (i, st1, c1)" by (metis prod_cases3)
  have res': "st' = st1" "c' = tick c1" "ts_id a = i" "ts_buffer a = []" "\<not> ts_record_created a"
    using res None m by (auto simp: open_text_def now_ms_def Let_def)
  obtain segs where ok: "open_ok w r K c0 st c segs" "rs_full_text_buffer st = concat (map snd segs)" "new_texts c0 c = seg_rows segs"
    using st unfolding stored_closed [OF None th] by blast
  note f = mint_fresh [OF calm _ m] mint_keeps [OF m]
  have dom: "row_ids c \<subseteq> row_ids c0 \<union> K \<union> used_ids w r st c" using ok(1) by (simp add: open_ok_def)
  have cong: "new_texts c0 (tick c1) = new_texts c0 c" "row_ids (tick c1) = row_ids c"
    using f dom by (simp_all add: new_texts_def row_ids_def)
  show ?thesis
  proof (rule stored_openI)
    show "open_ok w r K c0 (st'\<lparr>rs_active_text := Some a\<rparr>) c' segs"
      using ok(1) f dom cong unfolding open_ok_def by (auto simp: res')
    show "open_seg w r c0 (st'\<lparr>rs_active_text := Some a\<rparr>) c' segs a"
      using ok f dom cong unfolding open_ok_def open_seg_def by (auto simp: res')
  qed (use th f in \<open>simp_all add: res'\<close>)
next
  case (Some b)
  have "st\<lparr>rs_active_text := Some b\<rparr> = st" using Some by (cases st) simp
  moreover have "a = b" "st' = st" "c' = c" using res Some by (simp_all add: open_text_def)
  ultimately show ?thesis using st by simp
qed

lemma stored_append:
  assumes "stored w r K c0 (st\<lparr>rs_active_text := Some a\<rparr>, c)"
  shows "stored w r K c0 (st\<lparr>rs_full_text_buffer := rs_full_text_buffer st @ s,
    rs_active_text := Some (a\<lparr>ts_buffer := ts_buffer a @ s, ts_flush_counter := n\<rparr>)\<rparr>, c)"
proof -
  obtain segs where D: "rs_active_thinking st = None"
      "open_ok w r K c0 (st\<lparr>rs_active_text := Some a\<rparr>) c segs" "open_seg w r c0 (st\<lparr>rs_active_text := Some a\<rparr>) c segs a"
    using stored_openD [OF assms] by auto
  show ?thesis
    by (rule stored_openI [where segs = segs and a = "a\<lparr>ts_buffer := ts_buffer a @ s, ts_flush_counter := n\<rparr>"])
      (use D in \<open>simp_all add: open_ok_def open_seg_def\<close>)
qed

lemma stored_counter:
  "stored w r K c0 (st\<lparr>rs_active_text := Some (a\<lparr>ts_flush_counter := n\<rparr>)\<rparr>, c) = stored w r K c0 (st\<lparr>rs_active_text := Some a\<rparr>, c)"
  by (simp add: stored_def ids_ok_def text_ok_def open_buffer_def open_rows_def cong: option.case_cong)

lemma stored_flush:
  assumes calm: "calm w r c0" and st: "stored w r K c0 (st\<lparr>rs_active_text := Some a\<rparr>, c)"
    and res: "flush_text_segment w r a c = (a', c')"
  shows "stored w r K c0 (st\<lparr>rs_active_text := Some a'\<rparr>, c')"
proof -
  let ?st = "st\<lparr>rs_active_text := Some a\<rparr>"
  obtain segs where D: "rs_active_thinking st = None" "open_ok w r K c0 ?st c segs" "open_seg w r c0 ?st c segs a"
    using stored_openD [OF st] by auto
  have own: "ts_id a \<in> own_ids w r" using D(3) used_ids_own [of w r ?st c] by (auto simp: open_seg_def)
  let ?t = "tick c"
  have t: "keyed (cx_messages ?t)" "cx_status ?t \<noteq> None" "new_texts c0 ?t = new_texts c0 c" using D(2) by (simp_all add: open_ok_def)
  have "\<exists>s. ts_id a' = ts_id a \<and> ts_buffer a' = ts_buffer a \<and> (ts_buffer a = [] \<longrightarrow> a' = a)
      \<and> (ts_buffer a \<noteq> [] \<longrightarrow> ts_record_created a' \<and> new_texts c0 c' = seg_rows segs @ [(ts_id a, TextContent s, False)])
      \<and> (ts_buffer a = [] \<longrightarrow> c' = ?t) \<and> keyed (cx_messages c') \<and> cx_status c' = cx_status c
      \<and> row_ids c' \<subseteq> row_ids c \<union> {ts_id a} \<and> cx_tick c \<le> cx_tick c'"
  proof (cases "ts_buffer a = []")
    case True
    then show ?thesis using res t by (auto simp: flush_text_segment_def calm_allows [OF calm])
  next
    case False
    show ?thesis
    proof (cases "ts_record_created a")
      case True
      then obtain s where "new_texts c0 ?t = seg_rows segs @ [(ts_id a, TextContent s, False)]"
        using D(3) t(3) by (auto simp: open_seg_def)
      from update_open [OF calm t(1) this, of "\<lparr>mu_content = Some (TextContent (ts_buffer a)), mu_status = Some (Some ''work''), mu_hidden = None\<rparr>" "ts_buffer a"]
      show ?thesis using D(3) False True res
        by (auto simp: open_seg_def flush_text_segment_def calm_allows [OF calm] Let_def)
    next
      case nr: False
      with insert_open [OF calm t(1,2), of a "''work''"] own D(3) t(3) False res
      show ?thesis by (auto simp: open_seg_def flush_text_segment_def calm_allows [OF calm] Let_def)
    qed
  qed
  then obtain s where c': "ts_id a' = ts_id a" "ts_buffer a' = ts_buffer a" "ts_buffer a = [] \<Longrightarrow> a' = a"
      "ts_buffer a \<noteq> [] \<Longrightarrow> ts_record_created a' \<and> new_texts c0 c' = seg_rows segs @ [(ts_id a, TextContent s, False)]"
      "ts_buffer a = [] \<Longrightarrow> c' = ?t" "keyed (cx_messages c')" "cx_status c' = cx_status c"
      "row_ids c' \<subseteq> row_ids c \<union> {ts_id a}" "cx_tick c \<le> cx_tick c'" by blast
  have id: "ts_id a \<in> used_ids w r st c" using D(3) by (simp add: open_seg_def)
  show ?thesis
  proof (rule stored_openI [where segs = segs])
    show "open_ok w r K c0 (st\<lparr>rs_active_text := Some a'\<rparr>) c' segs"
      using c' id by (intro open_ok_mono [OF D(2)]) auto
    show "open_seg w r c0 (st\<lparr>rs_active_text := Some a'\<rparr>) c' segs a'"
      using D(3) c' used_mono [OF _ c'(9) id, of "st\<lparr>rs_active_text := Some a'\<rparr>"]
      by (cases "ts_buffer a = []") (auto simp: open_seg_def split: if_splits)
  qed (simp_all add: D(1))
qed

lemma stored_handle_text:
  assumes calm: "calm w r c0" "K \<inter> own_ids w r = {}" and st: "stored w r K c0 x"
  shows "stored w r K c0 (handle_text w r s x)"
proof -
  obtain st c where th: "complete_active_thinking w r x = (st, c)" by fastforce
  have st1: "stored w r K c0 (st, c)" "rs_active_thinking st = None"
    using stored_complete_thinking [OF calm(1) st] th by simp_all
  let ?st = "if s \<noteq> [] then mark_visible st else st"
  have st2: "stored w r K c0 (?st, c)" "rs_active_thinking ?st = None"
    using st1 by (auto simp: mark_visible_def)
  obtain a st' c' where o: "open_text w r (?st, c) = (a, st', c')" by (metis prod_cases3)
  note op = stored_open_text [OF calm st2 o]
  have "stored w r K c0 (st'\<lparr>rs_active_text := Some a\<rparr>, forward_with_msg_id (ts_id a) (Text s) c')"
    using stored_frame [OF calm op, of "forward_with_msg_id (ts_id a) (Text s) c'"]
    by (simp add: forward_with_msg_id_def frame_emit)
  note app = stored_append [OF this, where s = s and n = "ts_flush_counter a + 1"]
  let ?a = "a\<lparr>ts_buffer := ts_buffer a @ s, ts_flush_counter := ts_flush_counter a + 1\<rparr>"
  let ?f = "st'\<lparr>rs_full_text_buffer := rs_full_text_buffer st' @ s\<rparr>"
  obtain b d where fl: "flush_text_segment w r ?a (forward_with_msg_id (ts_id a) (Text s) c') = (b, d)" by fastforce
  have "stored w r K c0 (?f\<lparr>rs_active_text := Some (b\<lparr>ts_flush_counter := 0\<rparr>)\<rparr>, d)"
    using stored_flush [OF calm(1), where st = ?f and a = ?a and a' = b and c' = d] app fl by (simp add: stored_counter)
  then show ?thesis using th o fl app by (simp add: handle_text_def Let_def)
qed

lemma stored_set_thinking:
  assumes "stored w r K c0 (st, c)" "rs_active_text st = None" "hs_id h \<in> used_ids w r st c"
  shows "stored w r K c0 (st\<lparr>rs_active_thinking := Some h\<rparr>, c)"
  using assms unfolding stored_def ids_ok_def text_ok_def open_rows_def open_buffer_def split_conv
  by simp

lemma stored_use_primary:
  assumes "stored w r K c0 (st, c)" "rs_active_text st = None"
  shows "stored w r K c0 (st\<lparr>rs_used_primary := True\<rparr>, c)"
proof -
  have used: "used_ids w r st c \<subseteq> used_ids w r (st\<lparr>rs_used_primary := True\<rparr>) c" by (auto simp: used_ids_def)
  have "ids_ok w r K c0 (st\<lparr>rs_used_primary := True\<rparr>, c)"
    using assms used unfolding stored_def ids_ok_def split_conv by (simp split: option.splits) blast+
  moreover obtain segs rows where "rs_text_segments st = map fst segs" "distinct (map fst segs)"
      "fst ` set segs \<subseteq> used_ids w r st c" "rs_full_text_buffer st = concat (map snd segs) @ open_buffer st"
      "new_texts c0 c = seg_rows segs @ rows" "open_rows w r st c segs rows"
    using assms(1) unfolding stored_def text_ok_def split_conv by blast
  then have "text_ok w r c0 (st\<lparr>rs_used_primary := True\<rparr>, c)"
    using assms(2) used unfolding text_ok_def split_conv
    by (intro exI [where x = segs] exI [where x = rows]) (auto simp: open_rows_def open_buffer_def)
  ultimately show ?thesis by (simp add: stored_def)
qed

lemma stored_tick:
  "calm w r c0 \<Longrightarrow> K \<inter> own_ids w r = {} \<Longrightarrow> stored w r K c0 (st, c) \<Longrightarrow> stored w r K c0 (st, tick c)"
  using stored_frame [of w r c0 K st c "tick c"] by (simp add: frame_tick)

lemma stored_open_thinking:
  assumes calm: "calm w r c0" "K \<inter> own_ids w r = {}" and st: "stored w r K c0 (st, c)" and none: "rs_active_text st = None"
    and res: "open_thinking w r (st, c) = (h, st', c')"
  shows "stored w r K c0 (st', c') \<and> rs_active_text st' = None \<and> hs_id h \<in> used_ids w r st' c'"
proof (cases "rs_active_thinking st")
  case None
  obtain i st1 c1 where m: "mint_segment_msg_id w r st c = (i, st1, c1)" by (metis prod_cases3)
  have res': "st' = st1" "c' = tick c1" "hs_id h = i"
    using res None m by (auto simp: open_thinking_def now_ms_def Let_def)
  have "stored w r K c0 (st1, tick c1)"
    using m st none stored_use_primary [OF st none] stored_tick [OF calm]
    by (auto simp: mint_segment_msg_id_def mint_msg_id_def split: if_splits)
  moreover have "row_ids c \<subseteq> row_ids c0 \<union> K \<union> used_ids w r st c" using st by (simp add: stored_def ids_ok_def)
  ultimately show ?thesis using mint_fresh [OF calm _ m] mint_keeps [OF m] none by (simp add: res')
next
  case (Some h')
  then show ?thesis using st none res by (auto simp: open_thinking_def stored_def ids_ok_def)
qed

lemma stored_handle_thinking:
  assumes calm: "calm w r c0" "K \<inter> own_ids w r = {}" and st: "stored w r K c0 x"
  shows "stored w r K c0 (handle_thinking w r data x)"
proof (cases "th_status data = Some ''done''")
  case True
  then show ?thesis using stored_complete_thinking [OF calm(1) st] by (simp add: handle_thinking_def)
next
  case False
  obtain st c where cl: "close_active_text_segment w r ''finish'' x = (st, c)" by fastforce
  have st1: "stored w r K c0 (st, c)" "rs_active_text st = None"
    using stored_close_text [OF calm(1) st, of "''finish''"] cl by simp_all
  let ?st = "if th_content data \<noteq> [] then mark_visible st else st"
  have st2: "stored w r K c0 (?st, c)" "rs_active_text ?st = None"
    using st1 by (auto simp: mark_visible_def)
  obtain h st' c' where o: "open_thinking w r (?st, c) = (h, st', c')" by (metis prod_cases3)
  note op = stored_open_thinking [OF calm st2 o]
  let ?h = "h\<lparr>hs_buffer := hs_buffer h @ th_content data\<rparr>"
  have "stored w r K c0 (st'\<lparr>rs_active_thinking := Some ?h\<rparr>, c')"
    using op by (intro stored_set_thinking) simp_all
  then have "stored w r K c0 (st'\<lparr>rs_active_thinking := Some ?h\<rparr>, forward_with_msg_id (hs_id h) (Thinking data) c')"
    using stored_frame [OF calm, of _ c' "forward_with_msg_id (hs_id h) (Thinking data) c'"]
    by (simp add: forward_with_msg_id_def frame_emit)
  then show ?thesis using False cl o by (simp add: handle_thinking_def Let_def)
qed

lemma stored_ids:
  assumes calm: "calm w r c0" "K \<inter> own_ids w r = {}" and st: "stored w r K c0 (st, c)" "rs_active_text st = None"
  shows "keyed (cx_messages c)" "fst ` set (new_texts c0 c) \<inter> K = {}" "row_ids c \<inter> w_mint w ` {cx_tick c..} = {}"
proof -
  show "keyed (cx_messages c)" using st by (simp add: stored_def ids_ok_def)
  obtain segs where "fst ` set segs \<subseteq> used_ids w r st c" "new_texts c0 c = seg_rows segs"
    using st by (auto simp: stored_def text_ok_def open_rows_def)
  then have "fst ` set (new_texts c0 c) \<subseteq> used_ids w r st c" by (force simp: seg_rows_def)
  then show "fst ` set (new_texts c0 c) \<inter> K = {}" using calm(2) used_ids_own [of w r st c] by blast
  have "used_ids w r st c \<inter> w_mint w ` {cx_tick c..} = {}" "w_mint w ` {cx_tick c..} \<subseteq> own_ids w r"
    using calm(1) by (auto simp: used_ids_def own_ids_def calm_def inj_eq)
  moreover have "row_ids c \<subseteq> row_ids c0 \<union> K \<union> used_ids w r st c" using st by (simp add: stored_def ids_ok_def)
  moreover have "row_ids c0 \<inter> own_ids w r = {}" using calm(1) by (simp add: calm_def)
  ultimately show "row_ids c \<inter> w_mint w ` {cx_tick c..} = {}" using calm(2) by blast
qed

lemma stored_nonterminal:
  assumes calm: "calm w r c0" "K \<inter> own_ids w r = {}" and st: "stored w r K c0 x"
    and ev: "\<not> is_terminal_event ev" "set (event_call_ids ev) \<subseteq> K"
  shows "stored w r K c0 (handle_nonterminal w r ev x)"
proof -
  obtain st c where x: "x = (st, c)" by fastforce
  have fw: "stored w r K c0 (st, forward r ev c)"
    using stored_frame [OF calm, of st c "forward r ev c"] st x by (simp add: forward_def frame_emit)
  define y where "y = close_segments w r ''finish'' (mark_side_effect st, c)"
  have y: "stored w r K c0 (fst y, forward r ev (snd y))"
    using stored_frame [OF calm, of "fst y" "snd y" "forward r ev (snd y)"]
      stored_close_segments(1) [OF calm(1), of K "(mark_side_effect st, c)" "''finish''"] st x
    by (simp add: forward_def frame_emit y_def)
  have tool: "stored w r K c0 (handle_tool w r ev persist x)"
    if "frame w K c0 (forward r ev (snd y)) (persist (forward r ev (snd y)))" for persist
    using stored_frame [OF calm y that] by (simp add: handle_tool_def x y_def Let_def split_def)
  have own: "keyed (cx_messages (forward r ev (snd y)))" "fst ` set (new_texts c0 (forward r ev (snd y))) \<inter> K = {}"
      "row_ids (forward r ev (snd y)) \<inter> w_mint w ` {cx_tick (forward r ev (snd y))..} = {}"
    using stored_ids [OF calm y] stored_close_segments(2) [OF calm(1), of K "(mark_side_effect st, c)" "''finish''"] st x
    by (simp_all add: y_def)
  show ?thesis
  proof (cases ev)
    case (Tips data)
    then show ?thesis
      using stored_frame [OF calm fw frame_tips(1)] fw
      by (simp add: handle_nonterminal_def handle_tips_def x Let_def)
  next
    case (ToolGroup entries)
    then show ?thesis using tool frame_group [OF own] ev(2) by (simp add: handle_nonterminal_def)
  qed (use tool frame_tools [OF own(1,2)] ev fw stored_handle_text [OF calm st] stored_handle_thinking [OF calm st]
      stored_close_segments(1) [OF calm(1) st] x in \<open>simp_all add: handle_nonterminal_def\<close>)
qed

lemma full_text_segments [simp]:
  "rs_full_text_buffer (fst (complete_active_thinking w r x)) = rs_full_text_buffer (fst x)"
  "rs_full_text_buffer (fst (close_active_text_segment w r status x)) = rs_full_text_buffer (fst x)"
  "rs_full_text_buffer (fst (snd (open_text w r x))) = rs_full_text_buffer (fst x)"
  "rs_full_text_buffer (fst (snd (open_thinking w r x))) = rs_full_text_buffer (fst x)"
  "rs_full_text_buffer (mark_visible st) = rs_full_text_buffer st"
  "rs_full_text_buffer (mark_side_effect st) = rs_full_text_buffer st"
  by (simp_all add: complete_active_thinking_def close_active_text_segment_def open_text_def open_thinking_def
      mint_segment_msg_id_def mark_visible_def mark_side_effect_def Let_def split_def split: option.split)

lemma full_text_nonterminal:
  "rs_full_text_buffer (fst (handle_nonterminal w r ev x)) = rs_full_text_buffer (fst x) @ event_text ev"
  by (cases ev) (simp_all add: handle_nonterminal_def handle_text_def handle_thinking_def handle_tool_def
      handle_tips_def close_segments_def Let_def split_def)

definition live_relay :: "'j World \<Rightarrow> StreamRelay \<Rightarrow> string set \<Rightarrow> 'j RelayCtx \<Rightarrow> RelayState \<Rightarrow> 'j RelayCtx \<Rightarrow> bool" where
  "live_relay w r K c0 st c \<longleftrightarrow> stored w r K c0 (st, c) \<and> honest c0 (st, c) \<and> \<not> terminal_error_deferred (rs_attempt st)
     \<and> rs_pending_send_error st = None"

lemma run_stored:
  assumes calm: "calm w r c0" "K \<inter> own_ids w r = {}" and "live_relay w r K c0 st c"
    and "list_all (\<lambda>ev. \<not> is_terminal_event ev \<and> set (event_call_ids ev) \<subseteq> K) evs"
  shows "\<exists>st' c'. relay_run w r (map RecvEvent evs) (st, c) = (Inr st', c') \<and> live_relay w r K c0 st' c'
    \<and> rs_full_text_buffer st' = rs_full_text_buffer st @ streamed_text evs"
  using assms(3,4)
proof (induction evs arbitrary: st c)
  case Nil
  then show ?case by (simp add: streamed_text_def)
next
  case (Cons ev evs)
  then have live: "live_relay w r K c0 st c" and ev: "\<not> is_terminal_event ev" "set (event_call_ids ev) \<subseteq> K" by simp_all
  obtain st1 c1 where nt: "handle_nonterminal w r ev (st, tick c) = (st1, c1)" by fastforce
  have step: "relay_step w r (RecvEvent ev) (st, c) = (Inr st1, c1)"
    using live ev nt by (simp add: relay_step_def recv_result_def handle_event_def calm_not_deleting [OF calm(1)] live_relay_def)
  have "stored w r K c0 (st1, c1)"
    using stored_nonterminal [OF calm stored_tick [OF calm] ev, of st c] live nt by (simp add: live_relay_def)
  then have "live_relay w r K c0 st1 c1"
    using honest_step [of c0 st c w r "RecvEvent ev"] live step nonterminal_pending(1) [of w r ev "(st, tick c)"] nt
    by (simp add: live_relay_def)
  with Cons.IH [OF this] Cons.prems(2) step nt full_text_nonterminal [of w r ev "(st, tick c)"]
  show ?case by (auto simp: streamed_text_def)
qed

lemma update_view:
  assumes "calm w r c0" "keyed (cx_messages c)" "mu_status upd \<noteq> None"
  shows "new_texts c0 (snd (update_message w i upd c)) =
      map (\<lambda>(j, ct, h). if j = i then (j, (case mu_content upd of Some x \<Rightarrow> x | None \<Rightarrow> ct),
        (case mu_hidden upd of Some x \<Rightarrow> x | None \<Rightarrow> h)) else (j, ct, h)) (new_texts c0 c)"
    and "keyed (cx_messages (snd (update_message w i upd c)))"
proof -
  let ?g = "\<lambda>ct h. (case mu_content upd of Some x \<Rightarrow> x | None \<Rightarrow> ct, case mu_hidden upd of Some x \<Rightarrow> x | None \<Rightarrow> h)"
  have "map (\<lambda>(j, ct, h). if j = i then (j, ?g ct h) else (j, ct, h)) (new_texts c0 c) = new_texts c0 c"
    if "i \<notin> fst ` set (cx_messages c)"
    using that by (intro map_idI) (force simp: new_texts_def)
  moreover have "new_texts c0 ((tick c)\<lparr>cx_messages := AList.map_entry i (apply_update upd) (cx_messages c)\<rparr>) =
      map (\<lambda>(j, ct, h). if j = i then (j, ?g ct h) else (j, ct, h)) (new_texts c0 c)"
    using new_texts_map_entry [of "tick c" "apply_update upd" ?g c0 i] assms(2) by (simp add: apply_update_def)
  ultimately show "new_texts c0 (snd (update_message w i upd c)) =
      map (\<lambda>(j, ct, h). if j = i then (j, (case mu_content upd of Some x \<Rightarrow> x | None \<Rightarrow> ct),
        (case mu_hidden upd of Some x \<Rightarrow> x | None \<Rightarrow> h)) else (j, ct, h)) (new_texts c0 c)"
    using assms(1,3) by (auto simp: update_message_def map_of_eq_None_iff)
  show "keyed (cx_messages (snd (update_message w i upd c)))"
    using assms(2) by (simp add: update_message_def)
qed

lemma show_segments_view:
  assumes "calm w r c0" "keyed (cx_messages c)" "list_all (\<lambda>(i, ct, h). \<not> h) (new_texts c0 c)"
  shows "new_texts c0 (fold (show_segment w status) ids c) = new_texts c0 c"
  using assms(2,3)
proof (induction ids arbitrary: c)
  case (Cons i ids)
  have "new_texts c0 (show_segment w status i c) = new_texts c0 c"
    using Cons.prems update_view(1) [OF assms(1) Cons.prems(1), of "\<lparr>mu_content = None, mu_status = Some (Some status), mu_hidden = Some False\<rparr>" i]
    by (auto simp: show_segment_def list_all_iff intro!: map_idI)
  moreover have "keyed (cx_messages (show_segment w status i c))"
    using update_view(2) [OF assms(1) Cons.prems(1)] by (simp add: show_segment_def)
  ultimately show ?case using Cons by simp
qed simp

lemma hide_segments_view:
  assumes "calm w r c0" "keyed (cx_messages c)"
  shows "new_texts c0 (snd (fold (hide_segment w status) ids (ovs, c))) =
    map (\<lambda>(j, ct, h). (j, ct, h \<or> j \<in> set ids)) (new_texts c0 c)"
  using assms(2)
proof (induction ids arbitrary: c ovs)
  case Nil
  show ?case by (simp add: map_idI split_def)
next
  case (Cons i ids)
  let ?upd = "\<lparr>mu_content = None, mu_status = Some (Some status), mu_hidden = Some True\<rparr>"
  let ?c = "snd (update_message w i ?upd c)"
  have "hide_segment w status i (ovs, c) = (ovs @ [\<lparr>fo_msg_id = i, fo_text = [], fo_hidden = True\<rparr>], ?c)"
    by (simp add: hide_segment_def Let_def split_def)
  then show ?case
    using Cons.IH [of ?c] update_view [OF assms(1) Cons.prems, of ?upd i] by auto
qed

lemma shown_segs: "concat (map shown_entry (seg_rows segs)) = concat (map snd segs)"
  by (induction segs) (auto simp: seg_rows_def)

lemma seg_rows_visible: "list_all (\<lambda>(i, ct, h). \<not> h) (seg_rows segs)"
  by (induction segs) (auto simp: seg_rows_def)

lemma shown_hidden: "concat (map shown_entry (map (\<lambda>(j, ct, h). (j, ct, h \<or> j \<in> A)) (seg_rows segs))) =
   concat (map snd (filter (\<lambda>(j, s). j \<notin> A) segs))"
  by (induction segs) (auto simp: seg_rows_def)

lemma final_text_shown:
  assumes "calm w r c0" "keyed (cx_messages c)" "new_texts c0 c = seg_rows segs" "segs \<noteq> []" "distinct (map fst segs)"
    and "\<not> rewrite \<Longrightarrow> concat (map snd segs) = s" "rewrite \<Longrightarrow> s = final_text" "hidden \<longleftrightarrow> final_text = []"
  shows "shown_text c0 (snd (persist_final_text w r (map fst segs) status final_text hidden rewrite c)) = s"
proof -
  obtain i t rest where segs: "segs = (i, t) # rest" using assms(4) by (cases segs) auto
  have keyed: "keyed (cx_messages (tick c))" "new_texts c0 (tick c) = seg_rows segs" using assms(2,3) by simp_all
  show ?thesis
  proof (cases rewrite)
    case False
    have "new_texts c0 (fold (show_segment w status) (map fst segs) (tick c)) = seg_rows segs"
      using show_segments_view [OF assms(1) keyed(1), of status "map fst segs"] keyed(2) by (simp add: seg_rows_visible)
    then have "shown_text c0 (fold (show_segment w status) (map fst segs) (tick c)) = s"
      using assms(6) False by (simp add: shown_text_def shown_segs)
    then show ?thesis using False segs by (simp add: persist_final_text_def calm_allows [OF assms(1)])
  next
    case True
    let ?upd = "\<lparr>mu_content = Some (TextContent final_text), mu_status = Some (Some status), mu_hidden = Some hidden\<rparr>"
    let ?c = "snd (update_message w i ?upd (tick c))"
    note view = update_view [OF assms(1) keyed(1), of ?upd i]
    have i: "i \<notin> set (map fst rest)" using assms(5) segs by simp
    have "map (\<lambda>(j, ct, h). if j = i then (j, TextContent final_text, hidden) else (j, ct, h)) (seg_rows rest) = seg_rows rest"
      using seg_rows_other [of i rest "\<lambda>ct h. (TextContent final_text, hidden)"] i by simp
    moreover have "new_texts c0 ?c =
        map (\<lambda>(j, ct, h). if j = i then (j, TextContent final_text, hidden) else (j, ct, h)) (seg_rows segs)"
      unfolding view(1) [simplified] using keyed(2) by (intro map_cong) auto
    ultimately have c: "new_texts c0 ?c = (i, TextContent final_text, hidden) # seg_rows rest"
      using segs by simp
    have "concat (map shown_entry (map (\<lambda>(j, ct, h). (j, ct, h \<or> j \<in> set (map fst rest))) (seg_rows rest))) = []"
      unfolding shown_hidden by (force simp: filter_empty_conv)
    then have "shown_text c0 (snd (fold (hide_segment w status) (map fst rest)
        ([\<lparr>fo_msg_id = i, fo_text = final_text, fo_hidden = hidden\<rparr>], ?c))) = (if hidden then [] else final_text)"
      using hide_segments_view [OF assms(1), of ?c status "map fst rest"] view(2) c i
      by (simp add: shown_text_def)
    then show ?thesis
      using True segs assms(7,8)
      by (auto simp: persist_final_text_def calm_allows [OF assms(1)] Let_def split_def)
  qed
qed

lemma new_texts_sent [simp]:
  "new_texts c0 (send_overrides ovs c) = new_texts c0 c"
  "new_texts c0 (send_system_responses w rs c) = new_texts c0 c"
  "new_texts c0 (forward r ev c) = new_texts c0 c"
proof -
  show "new_texts c0 (send_overrides ovs c) = new_texts c0 c"
    unfolding send_overrides_def by (induction ovs arbitrary: c) simp_all
  show "new_texts c0 (send_system_responses w rs c) = new_texts c0 c"
    unfolding send_system_responses_def by (induction rs arbitrary: c) (simp_all add: mint_msg_id_def Let_def)
qed (simp add: forward_def)

lemma new_texts_outcome: "new_texts c0 (snd (outcome_of r w deleting st oc)) = new_texts c0 (snd oc)"
  by (simp add: outcome_of_def complete_conversation_def publish_completion_def Let_def split_def new_texts_def)

lemma finalize_shown:
  assumes calm: "calm w r c0" "K \<inter> own_ids w r = {}" and st: "stored w r K c0 (st, c)" "rs_active_text st = None" "rs_active_thinking st = None"
  shows "shown_text c0 (snd (finalize w r (rs_full_text_buffer st) (rs_text_segments st) ev terminal c))
    = displayed_text w (rs_full_text_buffer st)"
proof -
  obtain segs where segs: "open_ok w r K c0 st c segs" "rs_full_text_buffer st = concat (map snd segs)" "new_texts c0 c = seg_rows segs"
    using st unfolding stored_closed [OF st(2,3)] by blast
  have ok: "keyed (cx_messages c)" "rs_text_segments st = map fst segs" "distinct (map fst segs)"
    using segs(1) by (simp_all add: open_ok_def)
  show ?thesis
  proof (cases "rs_full_text_buffer st = []")
    case True
    have "new_texts c0 (snd (finalize w r [] (rs_text_segments st) ev terminal c)) = seg_rows segs"
      using frame_tips(2) [of w "{}" c0 c r] segs(3) by (simp add: finalize_def Let_def frame_def split: AgentStreamEvent.split)
    then have "shown_text c0 (snd (finalize w r [] (rs_text_segments st) ev terminal c)) = rs_full_text_buffer st"
      by (simp only: shown_text_def shown_segs segs(2))
    with True show ?thesis by (simp only: displayed_text_def simp_thms if_True)
  next
    case False
    define t where "t = rs_full_text_buffer st"
    define m where "m = w_strip_think_tags w t"
    have t: "concat (map snd segs) = t" "t \<noteq> []" using False segs(2) by (simp_all add: t_def)
    then have "segs \<noteq> []" by auto
    from final_text_shown [OF calm(1) ok(1) segs(3) this ok(3), of "m \<noteq> t \<or> trim m = []" "displayed_text w t" "trim m" "trim m = []"]
    have "shown_text c0 (snd (persist_final_text w r (map fst segs) status (trim m) (trim m = []) (m \<noteq> t \<or> trim m = []) c))
        = displayed_text w t" for status
      using t by (auto simp: displayed_text_def m_def)
    then show ?thesis
      using t(2) ok(2) unfolding t_def [symmetric]
      by (simp add: finalize_def process_final_text_def Let_def split_def shown_text_def m_def)
  qed
qed

lemma terminal_shown:
  assumes calm: "calm w r c0" "K \<inter> own_ids w r = {}" and live: "live_relay w r K c0 st c" and ev: "is_terminal_event ev"
  shows "\<exists>outcome c'. relay_step w r (RecvEvent ev) (st, c) = (Inl outcome, c')
    \<and> shown_text c0 c' = displayed_text w (rs_full_text_buffer st)"
proof -
  have st: "stored w r K c0 (st, tick c)" using live stored_tick [OF calm] by (simp add: live_relay_def)
  have step: "relay_step w r (RecvEvent ev) (st, c) =
      (Inl (fst (handle_terminal w r False ev (st, tick c))), snd (handle_terminal w r False ev (st, tick c)))"
    using live ev by (simp add: relay_step_def recv_result_def handle_event_def calm_not_deleting [OF calm(1)] live_relay_def split_def Let_def)
  have "shown_text c0 (snd (handle_terminal w r False ev (st, tick c))) = displayed_text w (rs_full_text_buffer st)"
  proof (cases "defers_error r (terminal_from_event ev) (rs_attempt st)")
    case True
    then have "nothing_buffered st" using live by (simp add: defers_error_def live_relay_def honest_def)
    then have none: "rs_full_text_buffer st = []" by (simp add: nothing_buffered_def)
    obtain segs rows where rows: "concat (map snd segs) @ open_buffer st = []" "new_texts c0 (tick c) = seg_rows segs @ rows"
        "open_rows w r st (tick c) segs rows"
      using st none by (auto simp: stored_def text_ok_def)
    then have "rows = []" by (auto simp: open_rows_def open_buffer_def split: option.splits if_splits)
    with rows have "shown_text c0 (tick c) = []" by (simp add: shown_text_def shown_segs)
    with none True show ?thesis by (simp add: handle_terminal_def Let_def displayed_text_def)
  next
    case False
    define y where "y = close_segments w r (case ev of Error _ \<Rightarrow> ''error'' | _ \<Rightarrow> ''finish'') (st, tick c)"
    have y: "stored w r K c0 (fst y, snd y)" "rs_active_text (fst y) = None" "rs_active_thinking (fst y) = None"
        "rs_full_text_buffer (fst y) = rs_full_text_buffer st"
      using stored_close_segments [OF calm(1) st] by (simp_all add: y_def close_segments_def)
    have "stored w r K c0 (fst y, forward r ev (snd y))"
      using stored_frame [OF calm y(1)] by (simp add: forward_def frame_emit)
    from finalize_shown [OF calm this y(2,3), of ev "terminal_from_event ev"] False y(4)
    show ?thesis by (simp add: handle_terminal_def Let_def split_def y_def shown_text_def new_texts_outcome)
  qed
  with step show ?thesis by blast
qed

lemma live_initial:
  assumes "calm w r c0" shows "live_relay w r K c0 (initial_relay_state True) c0"
proof -
  have "new_texts c0 c0 = []" by (force simp: new_texts_def row_ids_def filter_empty_conv)
  then have "stored w r K c0 (initial_relay_state True, c0)"
    using assms by (subst stored_closed) (auto simp: initial_relay_state_def open_ok_def calm_def intro!: exI [where x = "[]"])
  then show ?thesis using honest_initial(1) [of c0 True] honest_initial(2) [of True] by (simp add: live_relay_def initial_relay_state_def)
qed

section \<open>Properties of the stored text\<close>

definition demo_tool :: "unit ToolCallEventData" where
  "demo_tool = \<lparr>tcd_call_id = ''call'', tcd_name = ''ls'', tcd_args = (), tcd_status = ToolCompleted, tcd_input = None,
     tcd_output = None, tcd_description = None\<rparr>"

lemma demo_calm: "calm demo_world demo_relay demo_ctx"
proof -
  have "inj (\<lambda>t. CHR ''m'' # replicate t CHR ''x'')"
    by (rule injI) (metis length_Cons length_replicate nat.inject)
  then show ?thesis
    by (simp add: calm_def demo_world_def demo_relay_def demo_ctx_def new_runtime_state_def lifecycle_for_def
        is_shutting_down_def is_deleting_def is_cancelling_def keyed_def row_ids_def image_iff)
qed

text \<open>
  C4: While the writes of a relay are allowed and succeed and the ids it draws are fresh, the
  text of the messages the relay leaves visible is the text the agent streamed (or what the
  middleware leaves of it), however the stream was broken into segments by thinking, tool
  calls and segment breaks and however often it was flushed.
\<close>

theorem streamed_text_is_stored:
  assumes "calm w r c" "set (concat (map event_call_ids evs)) \<inter> own_ids w r = {}"
    and "list_all (\<lambda>ev. \<not> is_terminal_event ev) evs" "is_terminal_event ev"
  shows "\<exists>outcome c'. consume_with_send_error w r (map RecvEvent (evs @ [ev])) c = (Inl outcome, c')
    \<and> shown_text c c' = displayed_text w (streamed_text evs)"
proof -
  let ?K = "set (concat (map event_call_ids evs))"
  have ids: "list_all (\<lambda>ev. \<not> is_terminal_event ev \<and> set (event_call_ids ev) \<subseteq> ?K) evs"
    using assms(3) by (auto simp: list_all_iff)
  obtain st' c1 where run: "relay_run w r (map RecvEvent evs) (initial_relay_state True, c) = (Inr st', c1)"
      "live_relay w r ?K c st' c1" "rs_full_text_buffer st' = streamed_text evs"
    using run_stored [OF assms(1,2) live_initial [OF assms(1)] ids] by (auto simp: initial_relay_state_def)
  then show ?thesis
    using terminal_shown [OF assms(1,2) run(2) assms(4)]
    by (auto simp: consume_with_send_error_def run_append split: prod.splits)
qed

theorem streamed_text_is_stored_witness:
  "\<exists>outcome c'. consume_with_send_error demo_world demo_relay
      (map RecvEvent ([Text ''one '', ToolCall demo_tool, Text ''two''] @ [Finish None])) demo_ctx = (Inl outcome, c')
    \<and> shown_text demo_ctx c' = ''one two''"
proof -
  have "displayed_text demo_world (streamed_text [Text ''one '', ToolCall demo_tool, Text ''two'']) = ''one two''"
    by code_simp
  moreover have "set (concat (map event_call_ids [Text ''one '', ToolCall demo_tool, Text ''two''])) \<inter> own_ids demo_world demo_relay = {}"
    by (auto simp: demo_tool_def own_ids_def demo_world_def demo_relay_def)
  ultimately show ?thesis
    using streamed_text_is_stored [OF demo_calm, of "[Text ''one '', ToolCall demo_tool, Text ''two'']" "Finish None"] by simp
qed

end
