(* ===== verification/Turn_Orchestrator.thy ===== *)
theory Turn_Orchestrator
  imports Stream_Relay_Text
begin

text \<open>
  A turn of a conversation (\<open>crates/tjuaeui-conversation/src/turn_orchestrator.rs\<close>) with the
  policies it asks: whether the relay's outcome is continued, whether the attempt is replayed
  and whether the agent's task is evicted, and the failure tip it shows (\<open>message_persistence.rs\<close>).

  The agent is outside the model. What it does in a turn is an \<open>AgentWorld\<close>: for every attempt the
  result of building its task, and for every message sent in an attempt the answer to the required
  mode, what the relay receives and the session key afterwards. The classification of an
  \<open>AgentError\<close> into an \<open>AgentSendError\<close> and a top-level code belongs to the agent's side, so a
  failure carries its classification. The \<open>extra\<close> of a conversation is taken to be a JSON object. The
  task that sends a message runs beside the relay: the relay sees its failure as an input, and what it
  reports to the availability feedback is not in the log, which records the orchestrator's own effects.
\<close>

section \<open>Policies\<close>

datatype AgentType = Acp | A2a | OpenclawGateway | Nanobot | Remote | TjuaeCli | Gemini | Codex

datatype SessionRecoverySignal = CompactFailed | ResumeFailed

datatype TurnRecoveryDecision = NoRecovery | AutoReplayOnce bool "SessionRecoverySignal option"

definition provider_turn_codes :: "AgentErrorCode list" where
  "provider_turn_codes =
     [UserLlmProviderAuthFailed, UserLlmProviderAwsSsoExpired, UserLlmProviderPermissionDenied,
      UserLlmProviderBillingRequired, UserLlmProviderConfigError, UserLlmProviderModelNotFound,
      UserLlmProviderUnsupportedModel, UserLlmProviderEndpointNotFound, UserLlmProviderInvalidRequest,
      UserLlmProviderInvalidToolSchema, UserLlmProviderContextTooLarge, UserLlmProviderRateLimited,
      UserLlmProviderTimeout, UserLlmProviderNetworkError, UserLlmProviderEmptyResponse,
      UserLlmProviderGatewayError]"

definition is_provider_turn_error :: "AgentErrorCode option \<Rightarrow> RelayOutcome \<Rightarrow> bool" where
  "is_provider_turn_error error_code outcome \<longleftrightarrow>
     Option.bind (terminal_error (ro_attempt outcome)) ed_ownership = Some UserLlmProvider
     \<or> (case error_code of None \<Rightarrow> False | Some code \<Rightarrow> code \<in> set provider_turn_codes)"

definition classify_session_recovery_signal :: "RelayOutcome \<Rightarrow> SessionRecoverySignal option" where
  "classify_session_recovery_signal outcome =
     (case terminal_error (ro_attempt outcome) of
        None \<Rightarrow> None
      | Some data \<Rightarrow>
          let haystack = to_ascii_lowercase (ed_message data @ [CHR 0x0A]
                @ (case ed_detail data of Some d \<Rightarrow> d | None \<Rightarrow> []))
          in if contains haystack ''/responses/compact'' \<or> contains haystack ''remote compact failed''
             then Some CompactFailed
             else if contains haystack ''session/load'' \<or> contains haystack ''resume''
             then Some ResumeFailed
             else None)"

definition decide_recovery ::
  "AgentType \<Rightarrow> RelayOutcome \<Rightarrow> RuntimeLifecycleState \<Rightarrow> bool \<Rightarrow> TurnRecoveryDecision" where
  "decide_recovery agent_type outcome lifecycle already_replayed =
     (let error_code = terminal_code (ro_terminal outcome);
          retryable = terminal_retryable (ro_terminal outcome);
          safe = safe_to_auto_replay (ro_attempt outcome);
          signal = classify_session_recovery_signal outcome
      in if lifecycle = Active \<and> agent_type = Acp \<and> terminal_is_error (ro_terminal outcome)
            \<and> retryable = Some True \<and> error_code \<noteq> Some UserLlmProviderModelNotFound
            \<and> (signal \<noteq> None \<or> \<not> is_provider_turn_error error_code outcome)
            \<and> safe \<and> \<not> already_replayed
         then AutoReplayOnce safe signal else NoRecovery)"

datatype ContinuationStopReason = NoSystemResponses | TerminalNotFinish | LifecycleNotActive | LimitReached

datatype ContinuationDecision = Continue string nat | Stop ContinuationStopReason

definition MAX_SYSTEM_RESPONSE_CONTINUATIONS_PER_TURN :: nat where
  "MAX_SYSTEM_RESPONSE_CONTINUATIONS_PER_TURN = 4"

fun join_lines :: "string list \<Rightarrow> string" where
  "join_lines [] = []"
| "join_lines [s] = s"
| "join_lines (s # ss) = s @ CHR 0x0A # join_lines ss"

definition decide_continuation :: "nat \<Rightarrow> nat \<Rightarrow> RelayOutcome \<Rightarrow> RuntimeLifecycleState \<Rightarrow> ContinuationDecision" where
  "decide_continuation max_continuations count outcome lifecycle =
     (if lifecycle \<noteq> Active then Stop LifecycleNotActive
      else if terminal_is_error (ro_terminal outcome) then Stop TerminalNotFinish
      else if ro_system_responses outcome = [] then Stop NoSystemResponses
      else if max_continuations \<le> count then Stop LimitReached
      else Continue (join_lines (ro_system_responses outcome)) (count + 1))"

datatype AgentHealthAction = Keep | EvictAcpTask "AgentErrorCode option" "bool option" bool

definition decide_health :: "AgentType \<Rightarrow> RelayOutcome \<Rightarrow> RuntimeLifecycleState \<Rightarrow> AgentHealthAction" where
  "decide_health agent_type outcome lifecycle =
     (if lifecycle = Deleting \<or> lifecycle = ShuttingDown then Keep
      else if agent_type \<noteq> Acp \<or> \<not> terminal_is_error (ro_terminal outcome) then Keep
      else let error_code = terminal_code (ro_terminal outcome)
           in EvictAcpTask error_code (terminal_retryable (ro_terminal outcome))
                (error_code = Some UserLlmProviderModelNotFound))"

definition terminal_is_auth_failure :: "RelayOutcome \<Rightarrow> bool" where
  "terminal_is_auth_failure outcome \<longleftrightarrow>
     needs_auth (ro_attempt outcome)
     \<or> (case terminal_code (ro_terminal outcome) of
          Some code \<Rightarrow> code \<in> {UserAgentAuthRequired, UserLlmProviderAuthFailed, UserLlmProviderAwsSsoExpired}
        | None \<Rightarrow> False)"

section \<open>The outside of a turn\<close>

datatype AgentSessionKind = AcpSession "string option" "string option" | TjuaeCliSession

record RuntimeCapabilities =
  cap_context_version :: "u32 option"

text \<open>Of the session context the fields the turns and the tasks read; a team binding is only tested for presence.\<close>

record BuildTaskOptions =
  bo_kind :: AgentSessionKind
  bo_skills :: "string list"
  bo_conversation_id :: string
  bo_user_id :: string
  bo_runtime_env :: "(string \<times> string) list"
  bo_team :: bool
  bo_runtime_capabilities :: RuntimeCapabilities

text \<open>A failure of the agent with its message and its classification.\<close>

record AgentFailure =
  af_top_level_code :: string
  af_message :: string
  af_send_error :: AgentSendError

record AgentInstance =
  ai_agent_type :: AgentType
  ai_workspace :: string

datatype WorkspaceFailure = RepositoryFailed | ConversationVanished

record 'j AgentWorld =
  aw_build :: "nat \<Rightarrow> AgentFailure + AgentInstance"
  aw_workspace_error :: "WorkspaceFailure \<Rightarrow> AgentFailure"
  aw_mode_catalog :: "nat \<Rightarrow> nat \<Rightarrow> string list option"
  aw_set_mode :: "nat \<Rightarrow> nat \<Rightarrow> string \<Rightarrow> AgentFailure option"
  aw_inputs :: "nat \<Rightarrow> nat \<Rightarrow> 'j RelayInput list"
  aw_session_key :: "nat \<Rightarrow> nat \<Rightarrow> string option"
  aw_has_feedback :: bool
  aw_has_acp_session :: bool
  aw_task :: "ConversationStatus option \<times> bool \<times> nat"

record TurnStartInput =
  ti_user_id :: string
  ti_conversation_id :: string
  ti_content :: string
  ti_files :: "string list"
  ti_inject_skills :: "string list"
  ti_required_runtime_mode :: "string option"
  ti_build_options :: BuildTaskOptions
  ti_stored_workspace :: string
  ti_turn_id :: string
  ti_turn_claim :: TurnClaim

datatype ConversationTurnStatus = TurnCompletedOk | TurnFailed

record ConversationTurnResult =
  tr_status :: ConversationTurnStatus
  tr_error_message :: "string option"

record TurnAttemptResult =
  ar_outcome :: RelayOutcome
  ar_summary :: TurnAttemptSummary
  ar_agent_type :: AgentType

fun acp_backend_from_build_options :: "BuildTaskOptions \<Rightarrow> string option" where
  "acp_backend_from_build_options opts =
     (case bo_kind opts of AcpSession backend _ \<Rightarrow> backend | TjuaeCliSession \<Rightarrow> None)"

definition availability_agent_id :: "BuildTaskOptions \<Rightarrow> string option" where
  "availability_agent_id opts =
     (case bo_kind opts of
        AcpSession _ agent_id \<Rightarrow> (case agent_id of Some i \<Rightarrow> if i = [] then None else Some i | None \<Rightarrow> None)
      | TjuaeCliSession \<Rightarrow> None)"

section \<open>Effects of a turn\<close>

definition send_error_display_message :: "AgentSendError \<Rightarrow> string" where
  "send_error_display_message err =
     (case ed_detail (se_stream_error err) of Some d \<Rightarrow> d | None \<Rightarrow> ed_message (se_stream_error err))"

definition turn_attempt_error_message :: "TurnAttemptSummary \<Rightarrow> string option" where
  "turn_attempt_error_message summary =
     map_option (\<lambda>error.
       case ed_detail error of
         Some detail \<Rightarrow> if trim detail \<noteq> [] then detail else ed_message error
       | None \<Rightarrow> ed_message error) (terminal_error summary)"

definition record_agent_session_failure ::
  "'j AgentWorld \<Rightarrow> string option \<Rightarrow> string \<Rightarrow> string \<Rightarrow> 'j RelayCtx \<Rightarrow> 'j RelayCtx" where
  "record_agent_session_failure a agent_id code message c =
     (if agent_id \<noteq> None \<and> aw_has_feedback a then emit (RecordedFailure code message) c else c)"

definition record_agent_session_success :: "'j AgentWorld \<Rightarrow> string option \<Rightarrow> 'j RelayCtx \<Rightarrow> 'j RelayCtx" where
  "record_agent_session_success a agent_id c =
     (if agent_id \<noteq> None \<and> aw_has_feedback a then emit RecordedSuccess c else c)"

text \<open>Without a top-level code the tip shows the error's own code, as serde writes it.\<close>

fun error_code_name :: "AgentErrorCode \<Rightarrow> string" where
  "error_code_name TjuaeUIConversationBusy = ''TJUAE_CONVERSATION_BUSY''"
| "error_code_name TjuaeUIStreamBroken = ''TJUAE_STREAM_BROKEN''"
| "error_code_name TjuaeUIStateInconsistent = ''TJUAE_STATE_INCONSISTENT''"
| "error_code_name TjuaeUIPermissionError = ''TJUAE_PERMISSION_ERROR''"
| "error_code_name TjuaeUIInternalError = ''TJUAE_INTERNAL_ERROR''"
| "error_code_name WorkspacePathRuntimeUnavailable = ''WORKSPACE_PATH_RUNTIME_UNAVAILABLE''"
| "error_code_name UserAgentHandshakeFailed = ''USER_AGENT_HANDSHAKE_FAILED''"
| "error_code_name UserAgentHandshakeTimeout = ''USER_AGENT_HANDSHAKE_TIMEOUT''"
| "error_code_name UserAgentAcpInitFailed = ''USER_AGENT_ACP_INIT_FAILED''"
| "error_code_name UserAgentProtocolMismatch = ''USER_AGENT_PROTOCOL_MISMATCH''"
| "error_code_name UserAgentNotInstalled = ''USER_AGENT_NOT_INSTALLED''"
| "error_code_name UserAgentStartupFailed = ''USER_AGENT_STARTUP_FAILED''"
| "error_code_name UserAgentOpenClawGatewayUnreachable = ''USER_AGENT_OPENCLAW_GATEWAY_UNREACHABLE''"
| "error_code_name UserAgentDisconnected = ''USER_AGENT_DISCONNECTED''"
| "error_code_name UserAgentAuthRequired = ''USER_AGENT_AUTH_REQUIRED''"
| "error_code_name UserAgentSessionNotFound = ''USER_AGENT_SESSION_NOT_FOUND''"
| "error_code_name UserAgentNoPreviousSession = ''USER_AGENT_NO_PREVIOUS_SESSION''"
| "error_code_name UserAgentProtocolParseError = ''USER_AGENT_PROTOCOL_PARSE_ERROR''"
| "error_code_name UserAgentInvalidRequest = ''USER_AGENT_INVALID_REQUEST''"
| "error_code_name UserAgentResourceNotFound = ''USER_AGENT_RESOURCE_NOT_FOUND''"
| "error_code_name UserAgentProtocolError = ''USER_AGENT_PROTOCOL_ERROR''"
| "error_code_name UserAgentCommandNotFound = ''USER_AGENT_COMMAND_NOT_FOUND''"
| "error_code_name UserAgentMissingEnv = ''USER_AGENT_MISSING_ENV''"
| "error_code_name UserAgentUnsupportedMethod = ''USER_AGENT_UNSUPPORTED_METHOD''"
| "error_code_name UserAgentInvalidParams = ''USER_AGENT_INVALID_PARAMS''"
| "error_code_name UserLlmProviderAuthFailed = ''USER_LLM_PROVIDER_AUTH_FAILED''"
| "error_code_name UserLlmProviderAwsSsoExpired = ''USER_LLM_PROVIDER_AWS_SSO_EXPIRED''"
| "error_code_name UserLlmProviderPermissionDenied = ''USER_LLM_PROVIDER_PERMISSION_DENIED''"
| "error_code_name UserLlmProviderBillingRequired = ''USER_LLM_PROVIDER_BILLING_REQUIRED''"
| "error_code_name UserLlmProviderConfigError = ''USER_LLM_PROVIDER_CONFIG_ERROR''"
| "error_code_name UserLlmProviderModelNotFound = ''USER_LLM_PROVIDER_MODEL_NOT_FOUND''"
| "error_code_name UserLlmProviderUnsupportedModel = ''USER_LLM_PROVIDER_UNSUPPORTED_MODEL''"
| "error_code_name UserLlmProviderEndpointNotFound = ''USER_LLM_PROVIDER_ENDPOINT_NOT_FOUND''"
| "error_code_name UserLlmProviderInvalidRequest = ''USER_LLM_PROVIDER_INVALID_REQUEST''"
| "error_code_name UserLlmProviderInvalidToolSchema = ''USER_LLM_PROVIDER_INVALID_TOOL_SCHEMA''"
| "error_code_name UserLlmProviderContextTooLarge = ''USER_LLM_PROVIDER_CONTEXT_TOO_LARGE''"
| "error_code_name UserLlmProviderRateLimited = ''USER_LLM_PROVIDER_RATE_LIMITED''"
| "error_code_name UserLlmProviderTimeout = ''USER_LLM_PROVIDER_TIMEOUT''"
| "error_code_name UserLlmProviderNetworkError = ''USER_LLM_PROVIDER_NETWORK_ERROR''"
| "error_code_name UserLlmProviderEmptyResponse = ''USER_LLM_PROVIDER_EMPTY_RESPONSE''"
| "error_code_name UserLlmProviderGatewayError = ''USER_LLM_PROVIDER_GATEWAY_ERROR''"
| "error_code_name UnknownUpstreamError = ''UNKNOWN_UPSTREAM_ERROR''"

definition persist_send_failure_tip ::
  "'j World \<Rightarrow> string \<Rightarrow> AgentSendError \<Rightarrow> string option \<Rightarrow> 'j RelayCtx \<Rightarrow> 'j MessageRow option \<times> 'j RelayCtx" where
  "persist_send_failure_tip w conv err top_level_code c =
     (let allowed = allows (w_svc w (cx_tick c)) conv SendFailureTip; c = tick c in
      if \<not> allowed then (None, c)
      else let code = (case top_level_code of
                 Some t \<Rightarrow> Some t | None \<Rightarrow> map_option error_code_name (ed_code (se_stream_error err)));
               (i, c) = mint_msg_id w c;
               (created_at, c) = now_ms w c;
               row = \<lparr>mr_id = i, mr_conversation_id = conv, mr_msg_id = None, mr_type = ''tips'',
                 mr_content = SendFailureContent code (se_stream_error err), mr_position = Some ''center'',
                 mr_status = Some ''error'', mr_hidden = False, mr_created_at = created_at\<rparr>;
               (stored, c) = insert_message w row c
           in (if stored then Some row else None, c))"

definition persist_and_broadcast_send_failure_tip ::
  "'j World \<Rightarrow> string \<Rightarrow> AgentSendError \<Rightarrow> string option \<Rightarrow> 'j RelayCtx \<Rightarrow> 'j RelayCtx" where
  "persist_and_broadcast_send_failure_tip w conv err top_level_code c =
     (case persist_send_failure_tip w conv err top_level_code c of
        (None, c) \<Rightarrow> c
      | (Some row, c) \<Rightarrow> emit (Broadcast (FailureTip row)) c)"

definition clear_persisted_acp_model_after_model_not_found ::
  "'j World \<Rightarrow> 'j AgentWorld \<Rightarrow> string \<Rightarrow> AgentErrorCode option \<Rightarrow> 'j RelayCtx \<Rightarrow> 'j RelayCtx" where
  "clear_persisted_acp_model_after_model_not_found w a conv error_code c =
     (if error_code \<noteq> Some UserLlmProviderModelNotFound then c
      else let allowed = allows (w_svc w (cx_tick c)) conv AcpRecoveryCleanup; c = tick c in
        if \<not> allowed then c
        else let c = tick c; saved = w_db w (cx_tick c) \<and> aw_has_acp_session a; c = tick c
             in if saved then emit ClearedPersistedModel c else c)"

definition clear_conversation_model_seed_after_model_not_found ::
  "'j World \<Rightarrow> string \<Rightarrow> AgentErrorCode option \<Rightarrow> 'j RelayCtx \<Rightarrow> 'j RelayCtx" where
  "clear_conversation_model_seed_after_model_not_found w conv error_code c =
     (if error_code \<noteq> Some UserLlmProviderModelNotFound then c
      else let allowed = allows (w_svc w (cx_tick c)) conv AcpRecoveryCleanup; c = tick c in
        if \<not> allowed then c
        else let found = w_db w (cx_tick c) \<and> cx_status c \<noteq> None; c = tick c in
          if \<not> found then c
          else if ex_current_model_id (cx_extra c) = None then c
          else let updated = w_db w (cx_tick c); c = tick c in
            if \<not> updated then c
            else emit ClearedModelSeed (c\<lparr>cx_extra := (cx_extra c)\<lparr>ex_current_model_id := None\<rparr>\<rparr>))"

definition evict_acp_task_after_terminal_error ::
  "'j World \<Rightarrow> 'j AgentWorld \<Rightarrow> string \<Rightarrow> AgentType \<Rightarrow> RelayOutcome \<Rightarrow> 'j RelayCtx \<Rightarrow> bool \<times> 'j RelayCtx" where
  "evict_acp_task_after_terminal_error w a conv agent_type outcome c =
     (if agent_type \<noteq> Acp \<or> \<not> terminal_is_error (ro_terminal outcome) then (False, c)
      else let error_code = terminal_code (ro_terminal outcome);
               c = emit KilledTask c;
               c = clear_persisted_acp_model_after_model_not_found w a conv error_code c;
               c = clear_conversation_model_seed_after_model_not_found w conv error_code c
           in (True, c))"

definition maybe_persist_workspace ::
  "'j World \<Rightarrow> string \<Rightarrow> string \<Rightarrow> string \<Rightarrow> 'j RelayCtx \<Rightarrow> (WorkspaceFailure + unit) \<times> 'j RelayCtx" where
  "maybe_persist_workspace w conv stored_workspace resolved_workspace c =
     (if resolved_workspace = [] \<or> resolved_workspace = stored_workspace then (Inr (), c)
      else let allowed = allows (w_svc w (cx_tick c)) conv ResolvedWorkspace; c = tick c in
        if \<not> allowed then (Inr (), c)
        else let reachable = w_db w (cx_tick c); c = tick c in
          if \<not> reachable then (Inl RepositoryFailed, c)
          else if cx_status c = None then (Inl ConversationVanished, c)
          else let updated = w_db w (cx_tick c); c = tick c in
            if \<not> updated then (Inl RepositoryFailed, c)
            else (Inr (), c\<lparr>cx_extra := (cx_extra c)\<lparr>ex_workspace := Some resolved_workspace\<rparr>\<rparr>))"

definition persist_session_key :: "'j World \<Rightarrow> string \<Rightarrow> string \<Rightarrow> 'j RelayCtx \<Rightarrow> 'j RelayCtx" where
  "persist_session_key w conv session_key c =
     (let allowed = allows (w_svc w (cx_tick c)) conv SessionKey; c = tick c in
      if \<not> allowed then c
      else let found = w_db w (cx_tick c) \<and> cx_status c \<noteq> None; c = tick c in
        if \<not> found then c
        else if ex_session_key (cx_extra c) = Some session_key then c
        else let updated = w_db w (cx_tick c); c = tick c
             in if updated then c\<lparr>cx_extra := (cx_extra c)\<lparr>ex_session_key := Some session_key\<rparr>\<rparr> else c)"

section \<open>The required mode\<close>

definition CODEX_CANONICAL_FULL_ACCESS_MODE :: string where
  "CODEX_CANONICAL_FULL_ACCESS_MODE = ''agent-full-access''"

definition CODEX_LEGACY_FULL_ACCESS_MODE :: string where
  "CODEX_LEGACY_FULL_ACCESS_MODE = ''full-access''"

definition normalize_required_mode_for_catalog :: "string option \<Rightarrow> string \<Rightarrow> string list \<Rightarrow> string" where
  "normalize_required_mode_for_catalog backend mode available_ids =
     (if backend \<noteq> Some ''codex'' \<or> mode \<noteq> CODEX_CANONICAL_FULL_ACCESS_MODE then mode
      else let has_canonical = CODEX_CANONICAL_FULL_ACCESS_MODE \<in> set available_ids;
               has_legacy = CODEX_LEGACY_FULL_ACCESS_MODE \<in> set available_ids
           in if \<not> has_canonical \<and> has_legacy then CODEX_LEGACY_FULL_ACCESS_MODE else mode)"

definition resolve_required_runtime_mode :: "string list option \<Rightarrow> string option \<Rightarrow> string \<Rightarrow> string" where
  "resolve_required_runtime_mode catalog backend mode =
     (if backend \<noteq> Some ''codex'' \<or> mode \<noteq> CODEX_CANONICAL_FULL_ACCESS_MODE then mode
      else case catalog of
        None \<Rightarrow> mode
      | Some available_ids \<Rightarrow> normalize_required_mode_for_catalog backend mode available_ids)"

definition apply_required_runtime_mode ::
  "'j AgentWorld \<Rightarrow> nat \<Rightarrow> nat \<Rightarrow> string option \<Rightarrow> string \<Rightarrow> AgentFailure option" where
  "apply_required_runtime_mode a attempt i backend mode =
     aw_set_mode a attempt i (resolve_required_runtime_mode (aw_mode_catalog a attempt i) backend mode)"

text \<open>The mode to apply: a blank one is not required.\<close>

definition required_mode :: "TurnStartInput \<Rightarrow> string option" where
  "required_mode input =
     (case ti_required_runtime_mode input of
        Some mode \<Rightarrow> if trim mode = [] then None else Some (trim mode)
      | None \<Rightarrow> None)"

section \<open>An attempt\<close>

definition failed_turn :: "string \<Rightarrow> ConversationTurnResult" where
  "failed_turn message = \<lparr>tr_status = TurnFailed, tr_error_message = Some message\<rparr>"

definition relay_of :: "TurnStartInput \<Rightarrow> string \<Rightarrow> bool \<Rightarrow> StreamRelay" where
  "relay_of input msg_id defer =
     \<lparr>sr_conversation_id = ti_conversation_id input, sr_msg_id = msg_id, sr_turn_id = ti_turn_id input,
      sr_allowed_skill_names = bo_skills (ti_build_options input), sr_has_runtime_state = True,
      sr_has_persistence = True, sr_complete_turn = False, sr_defer_clean_terminal_errors = defer\<rparr>"

definition continuation_send :: "TurnStartInput \<Rightarrow> string \<Rightarrow> string \<Rightarrow> SendMessageData" where
  "continuation_send input content msg_id =
     \<lparr>sd_content = content, sd_msg_id = msg_id, sd_turn_id = Some (ti_turn_id input), sd_files = [],
      sd_inject_skills = []\<rparr>"

text \<open>
  One round of the send loop: the relay is set up, the mode applied, the message sent and the
  relay run to its end. \<open>None\<close> is a relay that still waits.
\<close>

definition send_round ::
  "'j World \<Rightarrow> 'j AgentWorld \<Rightarrow> TurnStartInput \<Rightarrow> nat \<Rightarrow> AgentType \<Rightarrow> bool \<Rightarrow> nat \<Rightarrow> SendMessageData \<Rightarrow> string \<Rightarrow>
   TurnAttemptSummary \<Rightarrow> 'j RelayCtx \<Rightarrow>
   (ConversationTurnResult + RuntimeLifecycleState \<times> RelayOutcome \<times> TurnAttemptSummary) option \<times> 'j RelayCtx" where
  "send_round w a input attempt agent_type defer_errors i send msg_id summary c =
     (let lifecycle = lifecycle_for (w_svc w (cx_tick c)) (ti_conversation_id input); c = tick c;
          defer = (defer_errors \<and> agent_type = Acp \<and> lifecycle = Active \<and> safe_to_auto_replay summary);
          refused = (case required_mode input of
            None \<Rightarrow> None
          | Some mode \<Rightarrow> apply_required_runtime_mode a attempt i
              (acp_backend_from_build_options (ti_build_options input)) mode)
      in case refused of
        Some failure \<Rightarrow>
          (Some (Inl (failed_turn (af_message failure))),
           persist_and_broadcast_send_failure_tip w (ti_conversation_id input) (af_send_error failure)
             (Some (af_top_level_code failure)) c)
      | None \<Rightarrow>
          (case consume_with_send_error w (relay_of input msg_id defer) (aw_inputs a attempt i) (emit (Sent send) c) of
             (Inr _, c) \<Rightarrow> (None, c)
           | (Inl outcome, c) \<Rightarrow>
               (Some (Inr (lifecycle, outcome, merge_summary summary (ro_attempt outcome))),
                case aw_session_key a attempt i of
                  Some key \<Rightarrow> persist_session_key w (ti_conversation_id input) key c
                | None \<Rightarrow> c)))"

function send_loop ::
  "'j World \<Rightarrow> 'j AgentWorld \<Rightarrow> TurnStartInput \<Rightarrow> nat \<Rightarrow> AgentType \<Rightarrow> bool \<Rightarrow> nat \<Rightarrow> SendMessageData \<Rightarrow> string \<Rightarrow>
   TurnAttemptSummary \<Rightarrow> 'j RelayCtx \<Rightarrow> (ConversationTurnResult + TurnAttemptResult) option \<times> 'j RelayCtx" where
  "send_loop w a input attempt agent_type defer_errors i send msg_id summary c =
     (case send_round w a input attempt agent_type defer_errors i send msg_id summary c of
        (None, c) \<Rightarrow> (None, c)
      | (Some (Inl result), c) \<Rightarrow> (Some (Inl result), c)
      | (Some (Inr (lifecycle, outcome, summary)), c) \<Rightarrow>
          (case decide_continuation MAX_SYSTEM_RESPONSE_CONTINUATIONS_PER_TURN i outcome lifecycle of
             Continue content next_count \<Rightarrow>
               let (next_id, c) = mint_msg_id w c
               in send_loop w a input attempt agent_type defer_errors next_count (continuation_send input content next_id)
                    next_id summary c
           | Stop _ \<Rightarrow>
               (Some (Inr \<lparr>ar_outcome = outcome, ar_summary = summary, ar_agent_type = agent_type\<rparr>), c)))"
  by pat_completeness auto
termination
  by (relation "measure (\<lambda>(w, a, input, attempt, agent_type, defer_errors, i, rest).
        MAX_SYSTEM_RESPONSE_CONTINUATIONS_PER_TURN - i)")
    (auto simp: decide_continuation_def split: if_splits)

definition run_attempt ::
  "'j World \<Rightarrow> 'j AgentWorld \<Rightarrow> TurnStartInput \<Rightarrow> nat \<Rightarrow> SendMessageData \<Rightarrow> string \<Rightarrow> bool \<Rightarrow> 'j RelayCtx \<Rightarrow>
   (ConversationTurnResult + TurnAttemptResult) option \<times> 'j RelayCtx" where
  "run_attempt w a input attempt send msg_id defer_errors c =
     (case aw_build a attempt of
        Inl failure \<Rightarrow>
          let err = af_send_error failure;
              code = (if ed_code (se_stream_error err) = Some UserAgentOpenClawGatewayUnreachable
                      then ''USER_AGENT_OPENCLAW_GATEWAY_UNREACHABLE'' else af_top_level_code failure);
              message = send_error_display_message err;
              c = record_agent_session_failure a (availability_agent_id (ti_build_options input))
                    ''session_build_failed'' message c;
              c = persist_and_broadcast_send_failure_tip w (ti_conversation_id input) err (Some code) c
          in (Some (Inl (failed_turn message)), c)
      | Inr agent \<Rightarrow>
          (case maybe_persist_workspace w (ti_conversation_id input) (ti_stored_workspace input) (ai_workspace agent) c of
             (Inl kind, c) \<Rightarrow>
               let failure = aw_workspace_error a kind;
                   c = persist_and_broadcast_send_failure_tip w (ti_conversation_id input) (af_send_error failure)
                         (Some (af_top_level_code failure)) c
               in (Some (Inl (failed_turn (af_message failure))), c)
           | (Inr _, c) \<Rightarrow>
               send_loop w a input attempt (ai_agent_type agent) defer_errors 0 send msg_id default_summary c))"

section \<open>The turn\<close>

text \<open>What remains of a turn after its last attempt: whether it failed, with which message, and the auth signal.\<close>

record TurnEnd =
  te_failed :: bool
  te_error_message :: "string option"
  te_auth_failure :: bool

function attempt_loop ::
  "'j World \<Rightarrow> 'j AgentWorld \<Rightarrow> TurnStartInput \<Rightarrow> SendMessageData \<Rightarrow> string \<Rightarrow> bool \<Rightarrow> bool \<Rightarrow> 'j RelayCtx \<Rightarrow>
   TurnEnd option \<times> 'j RelayCtx" where
  "attempt_loop w a input send msg_id replayed auth_failure c =
     (case run_attempt w a input (if replayed then 1 else 0) send msg_id (\<not> replayed) c of
        (None, c) \<Rightarrow> (None, c)
      | (Some (Inl result), c) \<Rightarrow>
          (Some \<lparr>te_failed = (tr_status result = TurnFailed), te_error_message = tr_error_message result,
             te_auth_failure = auth_failure\<rparr>, c)
      | (Some (Inr result), c) \<Rightarrow>
          let outcome = ar_outcome result;
              auth_failure = terminal_is_auth_failure outcome;
              lifecycle = lifecycle_for (w_svc w (cx_tick c)) (ti_conversation_id input); c = tick c
          in if \<not> terminal_is_error (ro_terminal outcome)
             then (Some \<lparr>te_failed = False, te_error_message = None, te_auth_failure = auth_failure\<rparr>, c)
             else
               let message = turn_attempt_error_message (ar_summary result)
               in (case decide_recovery (ar_agent_type result) (outcome\<lparr>ro_attempt := ar_summary result\<rparr>) lifecycle replayed of
                     AutoReplayOnce _ _ \<Rightarrow>
                       let (_, c) = evict_acp_task_after_terminal_error w a (ti_conversation_id input)
                             (ar_agent_type result) outcome c
                       in attempt_loop w a input send msg_id True auth_failure (emit AnchorRefreshed c)
                   | NoRecovery \<Rightarrow>
                       let c = (case (terminal_error_deferred (ro_attempt outcome), terminal_error (ro_attempt outcome)) of
                                  (True, Some data) \<Rightarrow> persist_and_broadcast_send_failure_tip w (ti_conversation_id input)
                                    \<lparr>se_stream_error = data\<rparr> None c
                                | _ \<Rightarrow> c);
                           c = (case decide_health (ar_agent_type result) outcome lifecycle of
                                  Keep \<Rightarrow> c
                                | EvictAcpTask _ _ _ \<Rightarrow> snd (evict_acp_task_after_terminal_error w a
                                    (ti_conversation_id input) (ar_agent_type result) outcome c))
                       in (Some \<lparr>te_failed = True, te_error_message = message, te_auth_failure = auth_failure\<rparr>, c)))"
  by pat_completeness auto
termination
  by (relation "measure (\<lambda>(w, a, input, send, msg_id, replayed, rest). if replayed then 0 else 1)")
    (auto simp: decide_recovery_def Let_def split: if_splits)

definition complete_released_turn ::
  "'j World \<Rightarrow> 'j AgentWorld \<Rightarrow> string \<Rightarrow> bool \<Rightarrow> 'j RelayCtx \<Rightarrow> 'j RelayCtx" where
  "complete_released_turn w a conv was_deleting c =
     (if was_deleting then c
      else let (task_status, has_task, pending_confirmations) = aw_task a;
               runtime = summary_from_parts (w_svc w (cx_tick c)) conv task_status has_task pending_confirmations
           in publish_completion w conv (Some runtime) (tick c))"

definition record_turn_feedback :: "'j AgentWorld \<Rightarrow> TurnStartInput \<Rightarrow> TurnEnd \<Rightarrow> 'j RelayCtx \<Rightarrow> 'j RelayCtx" where
  "record_turn_feedback a input e c =
     (let agent_id = availability_agent_id (ti_build_options input)
      in if te_auth_failure e
         then record_agent_session_failure a agent_id ''auth_required''
           (case te_error_message e of Some m \<Rightarrow> m | None \<Rightarrow> ''Agent requires sign-in to run.'') c
         else if \<not> te_failed e then record_agent_session_success a agent_id c
         else c)"

definition finish_turn ::
  "'j World \<Rightarrow> 'j AgentWorld \<Rightarrow> TurnStartInput \<Rightarrow> TurnEnd \<Rightarrow> 'j RelayCtx \<Rightarrow> ConversationTurnResult \<times> 'j RelayCtx" where
  "finish_turn w a input e c =
     (let c = record_turn_feedback a input e c;
          (was_deleting, _, _) = release_for_turn True (ti_turn_id input) (ti_turn_claim input) (w_svc w (cx_tick c));
          c = emit (ClaimReleased was_deleting) (tick c);
          c = complete_released_turn w a (ti_conversation_id input) was_deleting c
      in (\<lparr>tr_status = (if te_failed e then TurnFailed else TurnCompletedOk),
           tr_error_message = (if te_failed e then te_error_message e else None)\<rparr>, c))"

definition run_user_turn ::
  "'j World \<Rightarrow> 'j AgentWorld \<Rightarrow> TurnStartInput \<Rightarrow> 'j RelayCtx \<Rightarrow> ConversationTurnResult option \<times> 'j RelayCtx" where
  "run_user_turn w a input c =
     (let (msg_id, c) = mint_msg_id w c;
          send = \<lparr>sd_content = ti_content input, sd_msg_id = msg_id, sd_turn_id = Some (ti_turn_id input),
            sd_files = ti_files input, sd_inject_skills = ti_inject_skills input\<rparr>
      in case attempt_loop w a input send msg_id False False c of
        (None, c) \<Rightarrow> (None, c)
      | (Some e, c) \<Rightarrow> let (result, c) = finish_turn w a input e c in (Some result, c))"

declare send_loop.simps [simp del] attempt_loop.simps [simp del]

end
