(* ===== verification/Turn_Effects.thy ===== *)
theory Turn_Effects
  imports Turn_Orchestrator
begin

text \<open>
  What a turn does to the outside, as the effects in its log: which effects a relay, a round of an
  attempt and an attempt can have, how many messages are sent and how many replays started, that the
  loops end, and what an attempt that is safe to replay has done.
\<close>

section \<open>What the relay writes to the log\<close>

text \<open>A context whose log goes on from another's with effects of a kind only.\<close>

definition logs :: "('j Effect \<Rightarrow> bool) \<Rightarrow> 'j RelayCtx \<Rightarrow> 'j RelayCtx \<Rightarrow> bool" where
  "logs P c c' \<longleftrightarrow> (\<exists>es. cx_log c' = cx_log c @ es \<and> list_all P es)"

lemma logs_refl [simp]: "logs P c c"
  by (simp add: logs_def)

lemma logs_trans: "logs P a b \<Longrightarrow> logs P b c \<Longrightarrow> logs P a c"
  by (auto simp: logs_def)

lemma logs_same: "logs P c d \<Longrightarrow> cx_log c' = cx_log d \<Longrightarrow> logs P c c'"
  by (simp add: logs_def)

lemma logs_tick [simp]: "logs P c (tick d) = logs P c d" "logs P (tick c) d = logs P c d"
  by (simp_all add: logs_def)

lemma logs_emit: "logs P c d \<Longrightarrow> P e \<Longrightarrow> logs P c (emit e d)"
  by (auto simp: logs_def)

lemma logs_mono: "logs P c d \<Longrightarrow> (\<And>e. P e \<Longrightarrow> Q e) \<Longrightarrow> logs Q c d"
  by (auto simp: logs_def list_all_iff)

interpretation relay_log: extension "logs P" for P :: "'j Effect \<Rightarrow> bool"
  by unfold_locales (auto intro: logs_trans)

definition relay_effect :: "'j Effect \<Rightarrow> bool" where
  "relay_effect e \<longleftrightarrow> (case e of
     Broadcast (Forward _ _) \<Rightarrow> True | Broadcast (FinalText _ _ _) \<Rightarrow> True | Broadcast (SystemResponse _ _) \<Rightarrow> True | _ \<Rightarrow> False)"

lemma messages_log [simp]:
  "cx_log (snd (insert_message w row c)) = cx_log c" "cx_log (snd (update_message w i upd c)) = cx_log c"
  "cx_log (snd (upsert_message w row c)) = cx_log c" "cx_log (snd (get_message_by_msg_id w conv i t c)) = cx_log c"
  "cx_log (snd (mint_msg_id w c)) = cx_log c" "cx_log (snd (now_ms w c)) = cx_log c"
  "cx_log (snd (allows_write w r kind c)) = cx_log c"
  by (simp_all add: insert_message_def update_message_def upsert_message_def get_message_by_msg_id_def mint_msg_id_def
      now_ms_def allows_write_def)

lemma persist_log [simp]:
  "cx_log (snd (flush_text_segment w r seg c)) = cx_log c"
  "cx_log (snd (finalize_text_segment w r seg status c)) = cx_log c"
  "cx_log (persist_error_tip w r data c) = cx_log c" "cx_log (persist_tip w r tip c) = cx_log c"
  "cx_log (persist_thinking_segment w r hseg d c) = cx_log c" "cx_log (persist_tool_call w r tc c) = cx_log c"
  "cx_log (persist_acp_tool_call w r ac c) = cx_log c" "cx_log (persist_tool_group w r entries c) = cx_log c"
  "cx_log (show_segment w status i c) = cx_log c" "cx_log (snd (hide_segment w status i x)) = cx_log (snd x)"
  by (simp_all add: flush_text_segment_def finalize_text_segment_def persist_error_tip_def persist_tip_def
      persist_thinking_segment_def persist_tool_call_def persist_acp_tool_call_def persist_tool_group_def
      show_segment_def hide_segment_def Let_def split_def split: list.split)

lemma fold_log: "(\<And>x s. cx_log (g (f x s)) = cx_log (g s)) \<Longrightarrow> cx_log (g (fold f xs s)) = cx_log (g s)"
  by (induction xs arbitrary: s) simp_all

lemma final_text_log [simp]: "cx_log (snd (persist_final_text w r segs status t hidden rewrite c)) = cx_log c"
  using fold_log [of snd "hide_segment w status"] fold_log [of "\<lambda>c. c" "show_segment w status"]
  by (simp add: persist_final_text_def Let_def split_def split: list.split)

lemma segments_logs:
  "logs relay_effect (snd x) (snd (complete_active_thinking w r x))"
  "logs relay_effect (snd x) (snd (close_active_text_segment w r status x))"
  "logs relay_effect (snd x) (snd (snd (open_text w r x)))"
  "logs relay_effect (snd x) (snd (snd (open_thinking w r x)))"
  by (auto simp: complete_active_thinking_def close_active_text_segment_def open_text_def open_thinking_def logs_def
      relay_effect_def send_thinking_done_def forward_with_msg_id_def mint_segment_msg_id_def
      Let_def split_def split: option.split)

lemma close_segments_logs: "logs relay_effect (snd x) (snd (close_segments w r status x))"
  unfolding close_segments_def using segments_logs(1,2) logs_trans by blast

lemma forward_logs: "logs relay_effect c (forward_with_msg_id i ev c)" "logs relay_effect c (forward r ev c)"
  by (simp_all add: forward_with_msg_id_def forward_def logs_emit relay_effect_def)

lemma handle_text_logs: "logs relay_effect (snd x) (snd (handle_text w r s x))"
proof -
  obtain st c where a: "complete_active_thinking w r x = (st, c)" by fastforce
  define st1 where "st1 = (if s \<noteq> [] then mark_visible st else st)"
  obtain seg st2 c2 where b: "open_text w r (st1, c) = (seg, st2, c2)" by (metis prod_cases3)
  have "logs relay_effect (snd x) c" using segments_logs(1) [of x w r] a by simp
  moreover have "logs relay_effect c c2" using segments_logs(3) [of "(st1, c)" w r] b by simp
  moreover have "logs relay_effect c2 (forward_with_msg_id (ts_id seg) (Text s) c2)" by (rule forward_logs)
  moreover have "cx_log (snd (handle_text w r s x)) = cx_log (forward_with_msg_id (ts_id seg) (Text s) c2)"
    using b by (cases "s = []") (simp_all add: handle_text_def a st1_def Let_def split_def)
  ultimately show ?thesis by (metis logs_trans logs_same)
qed

lemma handle_thinking_logs: "logs relay_effect (snd x) (snd (handle_thinking w r d x))"
proof (cases "th_status d = Some ''done''")
  case False
  obtain st c where a: "close_active_text_segment w r ''finish'' x = (st, c)" by fastforce
  define st1 where "st1 = (if th_content d \<noteq> [] then mark_visible st else st)"
  obtain seg st2 c2 where b: "open_thinking w r (st1, c) = (seg, st2, c2)" by (metis prod_cases3)
  have "logs relay_effect (snd x) c" using segments_logs(2) [of x w r "''finish''"] a by simp
  moreover have "logs relay_effect c c2" using segments_logs(4) [of "(st1, c)" w r] b by simp
  moreover have "logs relay_effect c2 (snd (handle_thinking w r d x))"
    using False b forward_logs(1) by (simp add: handle_thinking_def a st1_def Let_def)
  ultimately show ?thesis by (metis logs_trans)
qed (simp add: handle_thinking_def segments_logs)

lemma nonterminal_logs: "logs relay_effect (snd x) (snd (handle_nonterminal w r ev x))"
proof -
  have tool: "logs relay_effect (snd x) (snd (handle_tool w r ev p x))" if "\<And>c. cx_log (p c) = cx_log c" for p
  proof -
    obtain st c where a: "close_segments w r ''finish'' (mark_side_effect (fst x), snd x) = (st, c)" by fastforce
    then have "logs relay_effect (snd x) c"
      using close_segments_logs [of "(mark_side_effect (fst x), snd x)" w r "''finish''"] by simp
    then have "logs relay_effect (snd x) (forward r ev c)" using forward_logs(2) logs_trans by blast
    then show ?thesis using that by (simp add: handle_tool_def split_def a logs_def)
  qed
  have tips: "logs relay_effect (snd x) (snd (handle_tips w r d x))" for d
    using forward_logs(2) [of "snd x" r "Tips d"] by (simp add: handle_tips_def split_def Let_def logs_def)
  show ?thesis
    using tool tips forward_logs(2) [of "snd x" r] close_segments_logs [of x w r "''finish''"] handle_text_logs [of x w r]
      handle_thinking_logs [of x w r]
    by (cases ev) (simp_all add: handle_nonterminal_def)
qed

lemma sent_logs:
  "logs relay_effect c (send_overrides ovs c)" "logs relay_effect c (send_system_responses w rs c)"
  unfolding send_overrides_def send_system_responses_def
  by (rule relay_log.fold_ext [where g = "\<lambda>c. c"]; simp add: logs_emit relay_effect_def mint_msg_id_def)+

lemma finalize_logs: "logs relay_effect c (snd (finalize w r buf segs ev terminal c))"
proof -
  have "logs relay_effect c (send_system_responses w rs (send_overrides ovs d))" if "cx_log d = cx_log c" for rs ovs d
    using that sent_logs(1) [of d ovs] sent_logs(2) [of "send_overrides ovs d" w rs] by (auto simp: logs_def)
  then show ?thesis
    by (auto simp: finalize_def Let_def split_def logs_same [OF logs_refl] split: AgentStreamEvent.split)
qed

text \<open>The relays of a turn leave its completion to the turn.\<close>

lemma outcome_logs: "\<not> sr_complete_turn r \<Longrightarrow> snd (outcome_of r w deleting st oc) = snd oc"
  by (simp add: outcome_of_def Let_def split_def)

lemma terminal_logs: "\<not> sr_complete_turn r \<Longrightarrow> logs relay_effect (snd x) (snd (handle_terminal w r deleting ev x))"
proof -
  assume r: "\<not> sr_complete_turn r"
  have fin: "logs relay_effect c0 (snd (finalize w r buf segs ev t (forward r ev c)))" if "logs relay_effect c0 c"
    for c0 c buf segs t
    by (rule logs_trans [OF logs_trans [OF that forward_logs(2)] finalize_logs])
  show ?thesis
    using fin [OF close_segments_logs [of x w r]] logs_trans [OF close_segments_logs [of x w r] forward_logs(2)]
      forward_logs(2) [of "snd x" r ev] r
    by (auto simp: handle_terminal_def Let_def split_def outcome_logs)
qed

lemma closed_logs: "\<not> sr_complete_turn r \<Longrightarrow> logs relay_effect (snd x) (snd (handle_closed w r x))"
proof -
  assume r: "\<not> sr_complete_turn r"
  have "logs relay_effect (snd x) (snd (close_segments w r ''finish'' (fst x, tick (snd x))))"
    using close_segments_logs [of "(fst x, tick (snd x))" w r "''finish''"] by simp
  then show ?thesis
    using finalize_logs logs_trans r
    by (fastforce simp: handle_closed_def relay_is_deleting_def Let_def split_def outcome_logs)
qed

lemma step_logs:
  assumes "\<not> sr_complete_turn r"
  shows "logs relay_effect (snd x) (snd (relay_step w r inp x))"
proof -
  have "logs relay_effect c (snd (handle_event w r ev (st, c)))" for ev st c
    using terminal_logs [OF assms, of "(st, tick c)" w] nonterminal_logs [of "(st, tick c)" w r ev]
    by (auto simp: handle_event_def relay_is_deleting_def Let_def split_def)
  then show ?thesis
    using closed_logs [OF assms, of "(st, snd x)" w for st]
    by (auto simp: relay_step_def Let_def split_def split: RecvResult.split prod.split)
qed

lemma run_logs: "\<not> sr_complete_turn r \<Longrightarrow> logs relay_effect (snd x) (snd (relay_run w r inputs x))"
proof (induction w r inputs x rule: relay_run.induct)
  case (2 w r inp inps st c)
  obtain res c1 where step: "relay_step w r inp (st, c) = (res, c1)" by fastforce
  have "logs relay_effect c c1" using step_logs [OF 2(2), of "(st, c)" w inp] step by simp
  then show ?case using 2 step logs_trans by (cases res) fastforce+
qed simp

section \<open>Effects of a turn\<close>

fun is_sent :: "'j Effect \<Rightarrow> bool" where
  "is_sent (Sent _) = True"
| "is_sent _ = False"

fun turn_effect :: "'j Effect \<Rightarrow> bool" where
  "turn_effect (ClaimReleased _) = False"
| "turn_effect (Broadcast (TurnCompleted _)) = False"
| "turn_effect _ = True"

text \<open>
  A stretch of a turn before its claim is released, with bounds on the messages it sends and on
  the replays it starts.
\<close>

definition stretch :: "nat \<Rightarrow> nat \<Rightarrow> 'j RelayCtx \<Rightarrow> 'j RelayCtx \<Rightarrow> bool" where
  "stretch n k c c' \<longleftrightarrow> (\<exists>es. cx_log c' = cx_log c @ es \<and> list_all turn_effect es \<and>
     length (filter is_sent es) \<le> n \<and> count_list es AnchorRefreshed \<le> k)"

lemma stretch_refl [simp]: "stretch n k c c"
  by (simp add: stretch_def)

lemma stretch_trans:
  assumes "stretch n k a b" "stretch m l b c" "n + m \<le> n'" "k + l \<le> k'"
  shows "stretch n' k' a c"
proof -
  obtain es where "cx_log b = cx_log a @ es" "list_all turn_effect es" "length (filter is_sent es) \<le> n"
      "count_list es AnchorRefreshed \<le> k"
    using assms(1) by (auto simp: stretch_def)
  moreover obtain fs where "cx_log c = cx_log b @ fs" "list_all turn_effect fs" "length (filter is_sent fs) \<le> m"
      "count_list fs AnchorRefreshed \<le> l"
    using assms(2) by (auto simp: stretch_def)
  ultimately show ?thesis
    using assms(3,4) unfolding stretch_def by (intro exI [where x = "es @ fs"]) simp
qed

lemma stretch_mono: "stretch n k a b \<Longrightarrow> n \<le> n' \<Longrightarrow> k \<le> k' \<Longrightarrow> stretch n' k' a b"
  using stretch_trans [of n k a b 0 0 b n' k'] by simp

lemma stretch_log: "stretch n k a b \<Longrightarrow> cx_log a' = cx_log a \<Longrightarrow> cx_log b' = cx_log b \<Longrightarrow> stretch n k a' b'"
  by (simp add: stretch_def)

lemma stretch_tick [simp]: "stretch n k a (tick b) = stretch n k a b" "stretch n k (tick a) b = stretch n k a b"
  by (simp_all add: stretch_def)

lemma stretch_same [simp]: "cx_log b = cx_log a \<Longrightarrow> stretch n k a b"
  by (simp add: stretch_def)

lemma stretch_emit:
  "stretch (if is_sent e then 1 else 0) (if e = AnchorRefreshed then 1 else 0) c (emit e c)" if "turn_effect e"
  using that by (auto simp: stretch_def)

lemma stretch_emit_after:
  "stretch n k c d \<Longrightarrow> turn_effect e \<Longrightarrow> \<not> is_sent e \<Longrightarrow> e \<noteq> AnchorRefreshed \<Longrightarrow> stretch n k c (emit e d)"
  using stretch_trans [OF _ stretch_emit, of n k c d e n k] by simp

lemma relay_stretch: "logs relay_effect c d \<Longrightarrow> stretch 0 0 c d"
proof -
  have "\<not> is_sent e \<and> turn_effect e \<and> e \<noteq> AnchorRefreshed" if "relay_effect e" for e :: "'j Effect"
    using that by (auto simp: relay_effect_def split: Effect.splits StreamPayload.splits)
  then have "length (filter is_sent es) = 0 \<and> count_list es AnchorRefreshed = 0 \<and> list_all turn_effect es"
    if "list_all relay_effect es" for es :: "'j Effect list"
    using that by (induction es) auto
  then show "logs relay_effect c d \<Longrightarrow> stretch 0 0 c d"
    by (fastforce simp: logs_def stretch_def)
qed

lemma tip_stretch: "stretch 0 0 c (persist_and_broadcast_send_failure_tip w conv err code c)"
  by (simp add: persist_and_broadcast_send_failure_tip_def persist_send_failure_tip_def mint_msg_id_def now_ms_def
      Let_def split_def stretch_emit_after)

lemma session_key_log [simp]: "cx_log (persist_session_key w conv key c) = cx_log c"
  by (simp add: persist_session_key_def Let_def)

lemma workspace_log [simp]: "cx_log (snd (maybe_persist_workspace w conv old resolved c)) = cx_log c"
  by (simp add: maybe_persist_workspace_def Let_def)

lemma evict_stretch: "stretch 0 0 c (snd (evict_acp_task_after_terminal_error w a conv t outcome c))"
proof -
  have seed: "stretch 0 0 d (clear_conversation_model_seed_after_model_not_found w conv code d)" for code d
    by (auto simp: clear_conversation_model_seed_after_model_not_found_def Let_def intro!: stretch_emit_after)
  have model: "stretch 0 0 d (clear_persisted_acp_model_after_model_not_found w a conv code d)" for code d
    by (auto simp: clear_persisted_acp_model_after_model_not_found_def Let_def intro!: stretch_emit_after)
  have "stretch 0 0 c (emit KilledTask c)" by (rule stretch_emit_after) simp_all
  then show ?thesis
    using stretch_trans [OF stretch_trans [OF _ model] seed, of 0 0 c "emit KilledTask c"]
    by (simp add: evict_acp_task_after_terminal_error_def Let_def)
qed

lemma send_round_stretch: "stretch 1 0 c (snd (send_round w a input k t df i send msg_id summary c))"
proof -
  have tip: "stretch 1 0 c (persist_and_broadcast_send_failure_tip w conv err code (tick c))" for conv err code
    using stretch_mono [OF tip_stretch [of "tick c" w conv err code], of 1 0] by simp
  let ?c = "emit (Sent send) (tick c)"
  have "stretch 1 0 c ?c" using stretch_emit [of "Sent send" "tick c"] by simp
  moreover have "stretch 0 0 ?c (snd (consume_with_send_error w (relay_of input msg_id d) inputs ?c))" for d inputs
    using run_logs [of "relay_of input msg_id d" "(initial_relay_state True, ?c)" w inputs]
    by (simp add: relay_of_def consume_with_send_error_def relay_stretch)
  ultimately have "stretch 1 0 c (snd (consume_with_send_error w (relay_of input msg_id d) inputs ?c))" for d inputs
    by (rule stretch_trans) simp_all
  then have sent: "stretch 1 0 c d" if "cx_log d = cx_log (snd (consume_with_send_error w (relay_of input msg_id d') inputs ?c))"
    for d' inputs d
    using that stretch_log by blast
  show ?thesis
    using tip sent by (auto simp: send_round_def Let_def split_def split: option.split sum.split)
qed

lemma continue_limit:
  "decide_continuation m i outcome lifecycle = Continue content j \<Longrightarrow> j = Suc i \<and> i < m \<and> ro_system_responses outcome \<noteq> []
     \<and> \<not> terminal_is_error (ro_terminal outcome)"
  by (auto simp: decide_continuation_def split: if_splits)

lemma send_loop_cases:
  assumes "send_round w a input k t df i send msg_id summary c = (res, c1)"
  obtains (waiting) "res = None" "send_loop w a input k t df i send msg_id summary c = (None, c1)"
  | (failed) e where "res = Some (Inl e)" "send_loop w a input k t df i send msg_id summary c = (Some (Inl e), c1)"
  | (stops) lc outcome sm where "res = Some (Inr (lc, outcome, sm))"
      "send_loop w a input k t df i send msg_id summary c =
        (Some (Inr \<lparr>ar_outcome = outcome, ar_summary = sm, ar_agent_type = t\<rparr>), c1)"
  | (continues) lc outcome sm content where "res = Some (Inr (lc, outcome, sm))" "i < 4" "ro_system_responses outcome \<noteq> []"
      "send_loop w a input k t df i send msg_id summary c = send_loop w a input k t df (Suc i)
        (continuation_send input content (w_mint w (cx_tick c1))) (w_mint w (cx_tick c1)) sm (tick c1)"
proof -
  consider "res = None" | e where "res = Some (Inl e)" | lc outcome sm where "res = Some (Inr (lc, outcome, sm))"
    by (metis not_None_eq old.sum.exhaust prod_cases3)
  then show thesis
  proof cases
    case (3 lc outcome sm)
    note loop = send_loop.simps [of w a input k t df i send msg_id summary c]
    show thesis
    proof (cases "decide_continuation MAX_SYSTEM_RESPONSE_CONTINUATIONS_PER_TURN i outcome lc")
      case (Continue content j)
      from continue_limit [OF this] have "j = Suc i" "i < 4" "ro_system_responses outcome \<noteq> []"
        by (simp_all add: MAX_SYSTEM_RESPONSE_CONTINUATIONS_PER_TURN_def)
      with that(4) [OF 3, of content] show thesis using assms 3 loop Continue by (simp add: mint_msg_id_def)
    next
      case (Stop reason)
      with that(3) [OF 3] show thesis using assms 3 loop by simp
    qed
  qed (use assms that(1,2) in \<open>simp_all add: send_loop.simps\<close>)
qed

text \<open>Induction over the rounds of an attempt: there are at most five.\<close>

lemma send_loop_rounds:
  assumes "\<And>i send msg_id summary c. (\<And>send' msg_id' summary' c'. i < 4 \<Longrightarrow> P (Suc i) send' msg_id' summary' c') \<Longrightarrow> P i send msg_id summary c"
  shows "P i send msg_id summary c"
proof (induction "4 - i" arbitrary: i send msg_id summary c rule: less_induct)
  case less
  show ?case by (rule assms) (rule less, simp)
qed

lemma send_loop_stretch:
  "i \<le> 4 \<Longrightarrow> stretch (5 - i) 0 c (snd (send_loop w a input k t df i send msg_id summary c))"
proof (induction i send msg_id summary c rule: send_loop_rounds)
  case (1 i send msg_id summary c)
  obtain res c1 where round: "send_round w a input k t df i send msg_id summary c = (res, c1)" by fastforce
  have first: "stretch 1 0 c c1" using send_round_stretch round by (metis snd_conv)
  then have one: "stretch (5 - i) 0 c c1" using 1(2) by (auto intro: stretch_mono)
  from round show ?case
  proof (cases rule: send_loop_cases)
    case (continues lc outcome sm content)
    let ?rest = "snd (send_loop w a input k t df (Suc i) (continuation_send input content (w_mint w (cx_tick c1)))
      (w_mint w (cx_tick c1)) sm (tick c1))"
    have "stretch (4 - i) 0 c1 ?rest"
      using 1(1) [OF continues(2), of "tick c1" "continuation_send input content (w_mint w (cx_tick c1))"] continues(2) by simp
    from stretch_trans [OF first this, of "5 - i" 0] show ?thesis using continues by simp
  qed (use one in simp_all)
qed

lemma run_attempt_stretch: "stretch 5 0 c (snd (run_attempt w a input k send msg_id df c))"
proof (cases "aw_build a k")
  case (Inl failure)
  have rec: "stretch 0 0 c (record_agent_session_failure a i code m c)" for i code m
    by (simp add: record_agent_session_failure_def stretch_emit_after)
  have "stretch 0 0 c (persist_and_broadcast_send_failure_tip w conv err top (record_agent_session_failure a i code m c))" for conv err top i code m
    by (rule stretch_trans [OF rec tip_stretch]) simp_all
  then show ?thesis
    using Inl stretch_mono [of 0 0 c _ 5 0] by (simp add: run_attempt_def Let_def)
next
  case (Inr agent)
  obtain res c1 where ws: "maybe_persist_workspace w (ti_conversation_id input) (ti_stored_workspace input) (ai_workspace agent) c = (res, c1)"
    by fastforce
  then have c1: "stretch 5 0 c d = stretch 5 0 c1 d" for d
    using workspace_log [of w "ti_conversation_id input" "ti_stored_workspace input" "ai_workspace agent" c] by (simp add: stretch_def)
  show ?thesis
    using Inr ws send_loop_stretch [of 0 c1] stretch_mono [OF tip_stretch, of 5 0 c1]
    by (cases res) (simp_all add: run_attempt_def c1 Let_def)
qed

text \<open>The ways an attempt ends, and what the turn does next.\<close>

definition attempt_summary_outcome :: "TurnAttemptResult \<Rightarrow> RelayOutcome" where
  "attempt_summary_outcome result = (ar_outcome result)\<lparr>ro_attempt := ar_summary result\<rparr>"

definition give_up ::
  "'j World \<Rightarrow> 'j AgentWorld \<Rightarrow> TurnStartInput \<Rightarrow> TurnAttemptResult \<Rightarrow> 'j RelayCtx \<Rightarrow> 'j RelayCtx" where
  "give_up w a input result c =
     (let outcome = ar_outcome result;
          lifecycle = lifecycle_for (w_svc w (cx_tick c)) (ti_conversation_id input); c = tick c;
          c = (case (terminal_error_deferred (ro_attempt outcome), terminal_error (ro_attempt outcome)) of
                 (True, Some data) \<Rightarrow> persist_and_broadcast_send_failure_tip w (ti_conversation_id input)
                   \<lparr>se_stream_error = data\<rparr> None c
               | _ \<Rightarrow> c)
      in (case decide_health (ar_agent_type result) outcome lifecycle of
            Keep \<Rightarrow> c
          | EvictAcpTask _ _ _ \<Rightarrow> snd (evict_acp_task_after_terminal_error w a
              (ti_conversation_id input) (ar_agent_type result) outcome c)))"

definition replay_ctx ::
  "'j World \<Rightarrow> 'j AgentWorld \<Rightarrow> TurnStartInput \<Rightarrow> TurnAttemptResult \<Rightarrow> 'j RelayCtx \<Rightarrow> 'j RelayCtx" where
  "replay_ctx w a input result c = emit AnchorRefreshed (snd (evict_acp_task_after_terminal_error w a
     (ti_conversation_id input) (ar_agent_type result) (ar_outcome result) (tick c)))"

definition replays :: "'j World \<Rightarrow> TurnStartInput \<Rightarrow> bool \<Rightarrow> TurnAttemptResult \<Rightarrow> 'j RelayCtx \<Rightarrow> bool" where
  "replays w input replayed result c \<longleftrightarrow>
     decide_recovery (ar_agent_type result) (attempt_summary_outcome result)
       (lifecycle_for (w_svc w (cx_tick c)) (ti_conversation_id input)) replayed \<noteq> NoRecovery"

lemmas attempt_defs = replays_def replay_ctx_def give_up_def attempt_summary_outcome_def

lemma replays_once: "replays w input replayed result c \<Longrightarrow> \<not> replayed"
  by (auto simp: replays_def decide_recovery_def Let_def split: if_splits)

lemma attempt_loop_cases:
  assumes "run_attempt w a input (if replayed then 1 else 0) send msg_id (\<not> replayed) c = (res, c1)"
  obtains (waiting) "res = None" "attempt_loop w a input send msg_id replayed auth c = (None, c1)"
  | (failed) e where "res = Some (Inl e)" "attempt_loop w a input send msg_id replayed auth c =
      (Some \<lparr>te_failed = (tr_status e = TurnFailed), te_error_message = tr_error_message e, te_auth_failure = auth\<rparr>, c1)"
  | (finished) result where "res = Some (Inr result)" "\<not> terminal_is_error (ro_terminal (ar_outcome result))"
      "attempt_loop w a input send msg_id replayed auth c = (Some \<lparr>te_failed = False, te_error_message = None,
        te_auth_failure = terminal_is_auth_failure (ar_outcome result)\<rparr>, tick c1)"
  | (replay) result where "res = Some (Inr result)" "\<not> replayed" "replays w input replayed result c1"
      "attempt_loop w a input send msg_id replayed auth c = attempt_loop w a input send msg_id True
        (terminal_is_auth_failure (ar_outcome result)) (replay_ctx w a input result c1)"
  | (gives_up) result where "res = Some (Inr result)" "terminal_is_error (ro_terminal (ar_outcome result))"
      "\<not> replays w input replayed result c1"
      "attempt_loop w a input send msg_id replayed auth c = (Some \<lparr>te_failed = True,
        te_error_message = turn_attempt_error_message (ar_summary result),
        te_auth_failure = terminal_is_auth_failure (ar_outcome result)\<rparr>, give_up w a input result c1)"
proof (cases res)
  case None
  show thesis by (rule that(1); (subst attempt_loop.simps)?; use assms None in \<open>simp add: attempt_defs Let_def split_def\<close>)
next
  case (Some r)
  show thesis
  proof (cases r)
    case (Inl e)
    show thesis by (rule that(2) [of e]; (subst attempt_loop.simps)?; use assms Some Inl in \<open>simp add: attempt_defs Let_def split_def\<close>)
  next
    case (Inr result)
    show thesis
    proof (cases "terminal_is_error (ro_terminal (ar_outcome result))")
      case False
      show thesis by (rule that(3) [of result]; (subst attempt_loop.simps)?; use assms Some Inr False in \<open>simp add: attempt_defs Let_def split_def\<close>)
    next
      case True
      show thesis
      proof (cases "decide_recovery (ar_agent_type result) (attempt_summary_outcome result)
          (lifecycle_for (w_svc w (cx_tick c1)) (ti_conversation_id input)) replayed")
        case NoRecovery
        show thesis by (rule that(5) [of result]; (subst attempt_loop.simps)?; use assms Some Inr True NoRecovery in \<open>simp add: attempt_defs Let_def split_def\<close>)
      next
        case (AutoReplayOnce x y)
        then have "\<not> replayed" using replays_once [of w input replayed result c1] by (simp add: replays_def)
        show thesis by (rule that(4) [of result]; (subst attempt_loop.simps)?; use assms Some Inr True AutoReplayOnce \<open>\<not> replayed\<close> in \<open>simp add: attempt_defs Let_def split_def\<close>)
      qed
    qed
  qed
qed

text \<open>There are at most two attempts.\<close>

lemma attempt_loop_ends:
  assumes "\<And>k df c. fst (run_attempt w a input k send msg_id df c) \<noteq> None"
  shows "fst (attempt_loop w a input send msg_id replayed auth c) \<noteq> None"
proof -
  have step: "fst (attempt_loop w a input send msg_id replayed auth c) \<noteq> None \<or>
      \<not> replayed \<and> (\<exists>auth' d. attempt_loop w a input send msg_id replayed auth c = attempt_loop w a input send msg_id True auth' d)"
    for replayed auth c
  proof -
    obtain res c1 where run: "run_attempt w a input (if replayed then 1 else 0) send msg_id (\<not> replayed) c = (res, c1)" by fastforce
    then have "res \<noteq> None" using assms by (metis fst_conv)
    with run show ?thesis by (cases rule: attempt_loop_cases [OF run, where auth = auth]) auto
  qed
  then show ?thesis by (metis (full_types))
qed

lemma give_up_stretch: "stretch 0 0 c (give_up w a input result c)"
proof -
  let ?tip = "case (terminal_error_deferred (ro_attempt (ar_outcome result)), terminal_error (ro_attempt (ar_outcome result))) of
      (True, Some data) \<Rightarrow> persist_and_broadcast_send_failure_tip w (ti_conversation_id input)
        \<lparr>se_stream_error = data\<rparr> None (tick c)
    | _ \<Rightarrow> tick c"
  have tip: "stretch 0 0 c ?tip"
    using tip_stretch [of "tick c"] by (auto split: option.split bool.split)
  have "stretch 0 0 c (snd (evict_acp_task_after_terminal_error w a conv t outcome ?tip))" for conv t outcome
    by (rule stretch_trans [OF tip evict_stretch]) simp_all
  with tip show ?thesis unfolding give_up_def Let_def by (simp split: AgentHealthAction.split)
qed

lemma replay_stretch: "stretch 0 1 c (replay_ctx w a input result c)"
proof -
  have "stretch 0 0 c (snd (evict_acp_task_after_terminal_error w a conv t outcome (tick c)))" for conv t outcome
    using evict_stretch [of "tick c"] by simp
  from stretch_trans [OF this stretch_emit [of AnchorRefreshed]] show ?thesis by (simp add: replay_ctx_def)
qed

lemma attempt_loop_stretch:
  "stretch (if replayed then 5 else 10) (if replayed then 0 else 1) c (snd (attempt_loop w a input send msg_id replayed auth c))"
proof -
  have one: "stretch 5 0 c (snd (attempt_loop w a input send msg_id replayed auth c)) \<or>
     \<not> replayed \<and> (\<exists>auth' d. stretch 5 1 c d \<and>
       attempt_loop w a input send msg_id replayed auth c = attempt_loop w a input send msg_id True auth' d)" for replayed auth c
  proof -
    obtain res c1 where run: "run_attempt w a input (if replayed then 1 else 0) send msg_id (\<not> replayed) c = (res, c1)" by fastforce
    have first: "stretch 5 0 c c1" using run_attempt_stretch run by (metis snd_conv)
    have last: "stretch 5 0 c (give_up w a input result c1)" "stretch 5 1 c (replay_ctx w a input result c1)" for result
      using stretch_trans [OF first give_up_stretch, of 5 0] stretch_trans [OF first replay_stretch, of 5 1] by simp_all
    show ?thesis using first last by (cases rule: attempt_loop_cases [OF run, where auth = auth]) auto
  qed
  have "stretch 5 0 c (snd (attempt_loop w a input send msg_id True auth c))" for auth c using one by blast
  then show ?thesis
    using one [of c replayed auth] stretch_mono [of 5 0 c _ 10 1] stretch_trans [of 5 1 c _ 5 0 _ 10 1] by (cases replayed) fastforce+
qed

lemma send_round_ends:
  "list_ex ending_input (aw_inputs a k i) \<Longrightarrow> fst (send_round w a input k t df i send msg_id summary c) \<noteq> None"
  using consume_ends [of "aw_inputs a k i" w]
  by (auto simp: send_round_def Let_def split_def split: option.splits sum.splits) (metis fst_conv sum.distinct(1))+

lemma send_loop_ends:
  assumes "\<And>k i. list_ex ending_input (aw_inputs a k i)"
  shows "fst (send_loop w a input k t df i send msg_id summary c) \<noteq> None"
proof (induction i send msg_id summary c rule: send_loop_rounds)
  case (1 i send msg_id summary c)
  obtain res c1 where round: "send_round w a input k t df i send msg_id summary c = (res, c1)" by fastforce
  then have "res \<noteq> None" using send_round_ends [OF assms] by (metis fst_conv)
  with round show ?case by (cases rule: send_loop_cases) (use 1 in auto)
qed

lemma run_attempt_ends:
  "(\<And>k i. list_ex ending_input (aw_inputs a k i)) \<Longrightarrow> fst (run_attempt w a input k send msg_id df c) \<noteq> None"
  using send_loop_ends [of a w input k] by (fastforce simp: run_attempt_def Let_def split: sum.split prod.split)

section \<open>Quiet attempts\<close>

lemma responses_persisted:
  assumes "relay_run w r inputs x = (Inl outcome, c')" "ro_system_responses outcome \<noteq> []"
  shows "persisted_assistant_output (ro_attempt outcome)"
proof -
  have fin: "buf \<noteq> []" if "ro_system_responses (fst (finalize w r buf segs ev t c)) \<noteq> []" for buf segs ev t c
    using that by (auto simp: finalize_def Let_def split: AgentStreamEvent.splits)
  have oc: "ro_system_responses (fst (outcome_of r w d st oc)) = ro_system_responses (fst oc)" for d st oc
    by (simp add: outcome_of_def Let_def split_def)
  have terminal: "persisted_assistant_output (ro_attempt (fst (handle_terminal w r d ev x)))"
    if "ro_system_responses (fst (handle_terminal w r d ev x)) \<noteq> []" for d ev x
    using that by (cases d; cases "defers_error r (terminal_from_event ev) (rs_attempt (fst x))")
      (auto simp: handle_terminal_def Let_def split_def oc outcome_attempt dest!: fin)
  have closed: "persisted_assistant_output (ro_attempt (fst (handle_closed w r x)))"
    if "ro_system_responses (fst (handle_closed w r x)) \<noteq> []" for x
    using that by (cases "fst (relay_is_deleting w r (snd x))")
      (auto simp: handle_closed_def Let_def split_def oc outcome_attempt dest!: fin)
  show ?thesis
    using assms
  proof (induction inputs arbitrary: x)
    case (Cons inp inputs)
    obtain st c where x: "x = (st, c)" by fastforce
    obtain res c1 where step: "relay_step w r inp (st, c) = (res, c1)" by fastforce
    show ?case
    proof (cases res)
      case (Inl oc)
      then have "oc = outcome" using Cons.prems x step by simp
      then show ?thesis
        using Inl step Cons.prems(2) terminal closed
        by (auto simp: relay_step_def handle_event_def Let_def split_def split: RecvResult.splits prod.splits if_splits)
    qed (use Cons x step in auto)
  next
    case Nil
    then show ?case by (cases x) simp
  qed
qed

lemma merge_safe [simp]: "safe_to_auto_replay (merge_summary x y) \<longleftrightarrow> safe_to_auto_replay x \<and> safe_to_auto_replay y"
  by (auto simp: safe_to_auto_replay_def merge_summary_def)

text \<open>A clean retryable error is deferred whenever the relay may defer it.\<close>

definition retryable_terminal :: "RelayTerminal \<Rightarrow> bool" where
  "retryable_terminal t \<longleftrightarrow> terminal_is_error t \<and> terminal_retryable t = Some True \<and> terminal_code t \<noteq> Some UserLlmProviderModelNotFound"

lemma finalize_terminal: "ro_terminal (fst (finalize w r buf segs ev t c)) = t"
  by (simp add: finalize_def Let_def split_def split: AgentStreamEvent.split)

lemma terminal_defers:
  assumes "sr_defer_clean_terminal_errors r" "oc = fst (handle_terminal w r d ev (st, c))"
    and "retryable_terminal (ro_terminal oc)" "safe_to_auto_replay (ro_attempt oc)"
  shows "terminal_error_deferred (ro_attempt oc)"
proof -
  have t: "ro_terminal oc = terminal_from_event ev"
    unfolding assms(2) by (simp add: handle_terminal_def outcome_of_def finalize_terminal Let_def split_def)
  then obtain data where ev: "ev = Error data"
    using assms(3) by (cases ev) (simp_all add: retryable_terminal_def)
  have "defers_error r (terminal_from_event ev) (rs_attempt st)"
  proof (rule ccontr)
    assume no: "\<not> defers_error r (terminal_from_event ev) (rs_attempt st)"
    then have "\<not> safe_to_auto_replay (rs_attempt st)"
      using assms(1,3) t by (auto simp: defers_error_def retryable_terminal_def ev split: option.splits bool.splits)
    then have "\<not> safe_to_auto_replay (ro_attempt oc)"
      unfolding assms(2) using no closed_attempt
      by (cases d) (auto simp: handle_terminal_def Let_def split_def outcome_attempt)
    with assms(4) show False by simp
  qed
  then show ?thesis unfolding assms(2) by (simp add: handle_terminal_def Let_def set_deferred_error_def ev)
qed

lemma run_defers:
  assumes "relay_run w r inputs x = (Inl outcome, c')" "sr_defer_clean_terminal_errors r"
    and "retryable_terminal (ro_terminal outcome)" "safe_to_auto_replay (ro_attempt outcome)"
  shows "terminal_error_deferred (ro_attempt outcome)"
  using assms(1)
proof (induction inputs arbitrary: x)
  case (Cons inp inputs)
  obtain st c where x: "x = (st, c)" by fastforce
  obtain res c1 where step: "relay_step w r inp (st, c) = (res, c1)" by fastforce
  show ?case
  proof (cases res)
    case (Inl oc)
    then have oc: "oc = outcome" using Cons.prems x step by simp
    have "ro_terminal (fst (handle_closed w r y)) = ChannelClosed" for y
      by (simp add: handle_closed_def outcome_of_def finalize_terminal Let_def split_def)
    then have "outcome \<noteq> fst (handle_closed w r y)" for y using assms(3) by (cases y) (auto simp: retryable_terminal_def)
    then show ?thesis
      using Inl step oc terminal_defers [OF assms(2) _ assms(3,4)]
      by (fastforce simp: relay_step_def handle_event_def Let_def split_def split: RecvResult.splits prod.splits if_splits)
  qed (use Cons x step in auto)
next
  case Nil
  then show ?case by (cases x) simp
qed

lemma round_result:
  assumes "send_round w a input k t df i send msg_id summary c = (Some (Inr (lc, outcome, sm)), c1)"
  obtains fe c2 where "consume_with_send_error w (relay_of input msg_id fe) (aw_inputs a k i) (emit (Sent send) (tick c)) = (Inl outcome, c2)"
    "sm = merge_summary summary (ro_attempt outcome)" "lc = lifecycle_for (w_svc w (cx_tick c)) (ti_conversation_id input)"
    "fe \<longleftrightarrow> df \<and> t = Acp \<and> lc = Active \<and> safe_to_auto_replay summary"
    "cx_log c1 = cx_log c2" "cx_messages c1 = cx_messages c2" "cx_status c1 = cx_status c2"
proof -
  have key: "cx_log (persist_session_key w conv y d) = cx_log d" "cx_messages (persist_session_key w conv y d) = cx_messages d"
    "cx_status (persist_session_key w conv y d) = cx_status d" for conv y d
    by (simp_all add: persist_session_key_def Let_def)
  show thesis
    using assms that key by (auto simp: send_round_def Let_def split: option.splits prod.splits sum.splits)
qed

lemma safe_send_loop:
  assumes "send_loop w a input k t df i send msg_id summary c = (Some (Inr result), c1)" "safe_to_auto_replay (ar_summary result)"
  shows "ar_agent_type result = t \<and> (\<exists>lc. send_round w a input k t df i send msg_id summary c =
    (Some (Inr (lc, ar_outcome result, ar_summary result)), c1)) \<and> safe_to_auto_replay summary"
  using assms
proof (induction i send msg_id summary c rule: send_loop_rounds)
  case (1 i send msg_id summary c)
  obtain res c2 where round: "send_round w a input k t df i send msg_id summary c = (res, c2)" by fastforce
  then show ?case
  proof (cases rule: send_loop_cases)
    case (stops lc outcome sm)
    then show ?thesis
      using 1(2,3) round by (auto elim!: round_result)
  next
    case (continues lc outcome sm content)
    with 1(2) have "safe_to_auto_replay sm" using 1(1) [OF continues(2) _ 1(3)] by metis
    moreover obtain fe c3 where "consume_with_send_error w (relay_of input msg_id fe) (aw_inputs a k i)
        (emit (Sent send) (tick c)) = (Inl outcome, c3)" "sm = merge_summary summary (ro_attempt outcome)"
      using round continues(1) round_result by metis
    ultimately have "safe_to_auto_replay (ro_attempt outcome)" "persisted_assistant_output (ro_attempt outcome)"
      using responses_persisted [OF _ continues(3)] by (auto simp: consume_with_send_error_def)
    then show ?thesis by (simp add: safe_to_auto_replay_def)
  qed (use 1 in auto)
qed

lemma quiet_cong:
  "cx_log c' = cx_log c \<Longrightarrow> cx_messages c' = cx_messages c \<Longrightarrow> cx_status c' = cx_status c \<Longrightarrow> quiet t c0 c' = quiet t c0 c"
  "cx_log d' = cx_log d \<Longrightarrow> cx_messages d' = cx_messages d \<Longrightarrow> cx_status d' = cx_status d \<Longrightarrow> quiet t d' c = quiet t d c"
  by (simp_all add: quiet_def)

lemma workspace_keeps:
  "cx_messages (snd (maybe_persist_workspace w conv old resolved c)) = cx_messages c"
  "cx_status (snd (maybe_persist_workspace w conv old resolved c)) = cx_status c"
  by (simp_all add: maybe_persist_workspace_def Let_def)

text \<open>An attempt that is safe to replay has sent one message and shown at most its end.\<close>

lemma safe_attempt:
  assumes "run_attempt w a input k send msg_id df c = (Some (Inr result), c1)" "safe_to_auto_replay (ar_summary result)"
  shows "quiet True c c1 \<and> (\<exists>es. cx_log c1 = cx_log c @ Sent send # es \<and> list_all relay_effect es) \<and>
    (df \<and> ar_agent_type result = Acp \<and> retryable_terminal (ro_terminal (ar_outcome result))
       \<and> (\<forall>t. lifecycle_for (w_svc w t) (ti_conversation_id input) = Active) \<longrightarrow> quiet False c c1)"
proof -
  obtain agent where agent: "aw_build a k = Inr agent"
    using assms(1) by (cases "aw_build a k") (simp_all add: run_attempt_def Let_def)
  obtain u c2 where ws: "maybe_persist_workspace w (ti_conversation_id input) (ti_stored_workspace input) (ai_workspace agent) c = (u, c2)"
    by fastforce
  have c2: "cx_log c2 = cx_log c" "cx_messages c2 = cx_messages c" "cx_status c2 = cx_status c"
    using ws workspace_log [of w "ti_conversation_id input" "ti_stored_workspace input" "ai_workspace agent" c]
      workspace_keeps [of w "ti_conversation_id input" "ti_stored_workspace input" "ai_workspace agent" c] by simp_all
  have loop: "send_loop w a input k (ai_agent_type agent) df 0 send msg_id default_summary c2 = (Some (Inr result), c1)"
    using assms(1) agent ws by (cases u) (simp_all add: run_attempt_def Let_def)
  obtain lc where t: "ar_agent_type result = ai_agent_type agent"
    and round: "send_round w a input k (ai_agent_type agent) df 0 send msg_id default_summary c2 =
      (Some (Inr (lc, ar_outcome result, ar_summary result)), c1)"
    using safe_send_loop [OF loop assms(2)] by auto
  let ?s = "emit (Sent send) (tick c2)"
  obtain fe c3 where r: "consume_with_send_error w (relay_of input msg_id fe) (aw_inputs a k 0) ?s = (Inl (ar_outcome result), c3)"
      "ar_summary result = merge_summary default_summary (ro_attempt (ar_outcome result))"
      "lc = lifecycle_for (w_svc w (cx_tick c2)) (ti_conversation_id input)"
      "fe \<longleftrightarrow> df \<and> ai_agent_type agent = Acp \<and> lc = Active \<and> safe_to_auto_replay default_summary"
      "cx_log c1 = cx_log c3" "cx_messages c1 = cx_messages c3" "cx_status c1 = cx_status c3"
    by (rule round_result [OF round])
  have safe: "safe_to_auto_replay (ro_attempt (ar_outcome result))" using assms(2) r(2) by simp
  have honest: "honest_outcome ?s (ar_outcome result, c3)"
    using honest_run [OF honest_initial r(1) [unfolded consume_with_send_error_def]] .
  have start: "quiet b c ?s" for b
    using quiet_emit [of b c "tick c2" "Sent send"] c2 quiet_cong(1) [of c2 c b c] by simp
  have c1: "quiet b c c1 = quiet b c c3" for b using r(5-7) by (rule quiet_cong(1))
  have "logs relay_effect ?s c3"
    using run_logs [of "relay_of input msg_id fe" "(initial_relay_state True, ?s)" w "aw_inputs a k 0"] r(1)
    by (simp add: consume_with_send_error_def relay_of_def)
  then have "\<exists>es. cx_log c1 = cx_log c @ Sent send # es \<and> list_all relay_effect es" using r(5) c2(1) by (auto simp: logs_def)
  moreover have "quiet True c c1"
    using c1 quiet_trans [OF start] honest safe by (simp add: honest_outcome_def)
  moreover have "quiet False c c1" if "df" "ar_agent_type result = Acp" "retryable_terminal (ro_terminal (ar_outcome result))"
      "\<forall>t. lifecycle_for (w_svc w t) (ti_conversation_id input) = Active"
  proof -
    have "fe" using that r(3,4) t by (simp add: safe_to_auto_replay_def default_summary_def)
    then have "terminal_error_deferred (ro_attempt (ar_outcome result))"
      using run_defers [OF r(1) [unfolded consume_with_send_error_def] _ that(3) safe] by (simp add: relay_of_def)
    then show ?thesis using c1 quiet_trans [OF start] honest by (simp add: honest_outcome_def)
  qed
  ultimately show ?thesis by blast
qed

end
