(* ===== verification/Turn_Message_Ids.thy ===== *)
theory Turn_Message_Ids
  imports Turn_Effects
begin

text \<open>
  The ids under which a turn stores messages: those that are given from outside and those minted so
  far. A newly minted id is therefore free.
\<close>

section \<open>The ids of the stored messages\<close>

text \<open>The ids a context may use: given ones, and those minted so far.\<close>

definition ids_so_far :: "'j World \<Rightarrow> string set \<Rightarrow> 'j RelayCtx \<Rightarrow> string set" where
  "ids_so_far w I c = I \<union> w_mint w ` {..<cx_tick c}"

lemma ids_so_far_simps [simp]:
  "ids_so_far w I (emit e c) = ids_so_far w I c"
  "ids_so_far w I (c\<lparr>cx_messages := m\<rparr>) = ids_so_far w I c"
  "ids_so_far w I (c\<lparr>cx_extra := x\<rparr>) = ids_so_far w I c"
  "ids_so_far w I (tick c) = insert (w_mint w (cx_tick c)) (ids_so_far w I c)"
  by (auto simp: ids_so_far_def lessThan_Suc)

lemma ids_so_far_mono: "cx_tick c \<le> cx_tick d \<Longrightarrow> ids_so_far w I c \<subseteq> ids_so_far w I d"
  by (auto simp: ids_so_far_def)

definition grows :: "'j World \<Rightarrow> string set \<Rightarrow> 'j RelayCtx \<Rightarrow> 'j RelayCtx \<Rightarrow> bool" where
  "grows w I c d \<longleftrightarrow> cx_tick c \<le> cx_tick d \<and> (row_ids c \<subseteq> ids_so_far w I c \<longrightarrow> row_ids d \<subseteq> ids_so_far w I d)
     \<and> (cx_status c \<noteq> None \<longrightarrow> cx_status d \<noteq> None)"

lemma grows_refl [simp]: "grows w I c c"
  by (simp add: grows_def)

lemma grows_trans: "grows w I a b \<Longrightarrow> grows w I b c \<Longrightarrow> grows w I a c"
  by (auto simp: grows_def)

interpretation id_growth: extension "grows w I" for w :: "'j World" and I
  by unfold_locales (auto intro: grows_trans)

lemma grows_tick: "grows w I c d \<Longrightarrow> grows w I c (tick d)"
  by (auto simp: grows_def)

lemma grows_emit: "grows w I c d \<Longrightarrow> grows w I c (emit e d)"
  by (simp add: grows_def)

lemma grows_insert: "grows w I c d \<Longrightarrow> mr_id row \<in> ids_so_far w I d \<Longrightarrow> grows w I c (snd (insert_message w row d))"
  by (auto simp: grows_def insert_message_def row_ids_def)

lemma row_ids_map_entry: "row_ids (c\<lparr>cx_messages := AList.map_entry i f (cx_messages d)\<rparr>) = row_ids d"
  unfolding row_ids_def by (metis RelayCtx.select_convs(2) RelayCtx.surjective RelayCtx.update_convs(2) dom_map_entry list.set_map)

lemma grows_update: "grows w I c d \<Longrightarrow> grows w I c (snd (update_message w i upd d))"
  by (auto simp: grows_def update_message_def row_ids_map_entry)

lemma grows_upsert: "grows w I c d \<Longrightarrow> mr_id row \<in> ids_so_far w I d \<Longrightarrow> grows w I c (snd (upsert_message w row d))"
  by (auto simp: grows_def upsert_message_def row_ids_map_entry insert_ids)

lemmas grows_intros = grows_tick grows_emit grows_insert grows_update grows_upsert

lemma grows_tips:
  "grows w I c (persist_tip w r tip c)" "grows w I c (persist_error_tip w r err c)"
  "grows w I c (persist_and_broadcast_send_failure_tip w conv serr code c)"
  by (auto simp: persist_tip_def persist_error_tip_def persist_and_broadcast_send_failure_tip_def
      persist_send_failure_tip_def allows_write_def mint_msg_id_def now_ms_def Let_def left_row_def split_def
      intro!: grows_intros)

lemma grows_tools:
  "tcd_call_id d \<in> I \<Longrightarrow> grows w I c (persist_tool_call w r d c)"
  "acd_tool_call_id a \<in> I \<Longrightarrow> grows w I c (persist_acp_tool_call w r a c)"
  "set (event_call_ids (ToolGroup entries :: 'j AgentStreamEvent)) \<subseteq> I \<Longrightarrow>
     grows w I (c :: 'j RelayCtx) (persist_tool_group w r entries c)"
proof -
  show "tcd_call_id d \<in> I \<Longrightarrow> grows w I c (persist_tool_call w r d c)"
    "acd_tool_call_id a \<in> I \<Longrightarrow> grows w I c (persist_acp_tool_call w r a c)"
    by (auto simp: persist_tool_call_def persist_acp_tool_call_def allows_write_def now_ms_def Let_def left_row_def
        ids_so_far_def intro!: grows_intros)
  assume e: "set (event_call_ids (ToolGroup entries :: 'j AgentStreamEvent)) \<subseteq> I"
  show "grows w I c (persist_tool_group w r entries c)"
  proof (cases entries)
    case Nil
    then show ?thesis
      by (auto simp: persist_tool_group_def allows_write_def now_ms_def mint_msg_id_def get_message_by_msg_id_def Let_def
          left_row_def intro!: grows_intros)
  next
    case (Cons x xs)
    then show ?thesis
      using e by (auto simp: persist_tool_group_def allows_write_def now_ms_def get_message_by_msg_id_def Let_def
          left_row_def ids_so_far_def intro!: grows_intros)
  qed
qed

text \<open>The ids of a relay's segments are known.\<close>

definition knows :: "'j World \<Rightarrow> string set \<Rightarrow> StreamRelay \<Rightarrow> 'j RelayCtx \<Rightarrow> RelayState \<times> 'j RelayCtx \<Rightarrow> bool" where
  "knows w I r c0 = (\<lambda>(st, c). grows w I c0 c \<and> sr_msg_id r \<in> ids_so_far w I c \<and>
     (case rs_active_text st of None \<Rightarrow> True | Some s \<Rightarrow> ts_id s \<in> ids_so_far w I c) \<and>
     (case rs_active_thinking st of None \<Rightarrow> True | Some h \<Rightarrow> hs_id h \<in> ids_so_far w I c))"

lemma knows_grow:
  assumes "knows w I r c0 (st, c)" "grows w I c d"
  shows "knows w I r c0 (st, d)"
proof -
  have "ids_so_far w I c \<subseteq> ids_so_far w I d" using assms(2) by (intro ids_so_far_mono) (simp add: grows_def)
  then show ?thesis using assms grows_trans unfolding knows_def by (auto split: option.splits)
qed

lemma knows_attempt [simp]:
  "knows w I r c0 (st\<lparr>rs_attempt := x\<rparr>, c) = knows w I r c0 (st, c)"
  "knows w I r c0 (st\<lparr>rs_used_primary := b\<rparr>, c) = knows w I r c0 (st, c)"
  "knows w I r c0 (mark_visible st, c) = knows w I r c0 (st, c)"
  "knows w I r c0 (mark_side_effect st, c) = knows w I r c0 (st, c)"
  by (simp_all add: knows_def mark_visible_def mark_side_effect_def)

lemma knows_thinking: "knows w I r c0 x \<Longrightarrow> knows w I r c0 (complete_active_thinking w r x)"
proof -
  assume k: "knows w I r c0 x"
  obtain st c where x: "x = (st, c)" by fastforce
  show ?thesis
  proof (cases "rs_active_thinking st")
    case (Some h)
    then have "hs_id h \<in> ids_so_far w I c" using k by (simp add: x knows_def)
    then have "grows w I c (persist_thinking_segment w r h d (send_thinking_done (hs_id h) d (tick c)))" for d
      by (auto simp: persist_thinking_segment_def send_thinking_done_def forward_with_msg_id_def allows_write_def left_row_def
          Let_def intro!: grows_intros)
    moreover have "knows w I r c0 (st\<lparr>rs_active_thinking := None\<rparr>, c)" using k by (simp add: x knows_def)
    ultimately show ?thesis
      using Some by (auto simp: complete_active_thinking_def x now_ms_def Let_def intro: knows_grow)
  qed (use k x in \<open>simp add: complete_active_thinking_def\<close>)
qed

lemma knows_close_text: "knows w I r c0 x \<Longrightarrow> knows w I r c0 (close_active_text_segment w r status x)"
proof -
  assume k: "knows w I r c0 x"
  obtain st c where x: "x = (st, c)" by fastforce
  show ?thesis
  proof (cases "rs_active_text st")
    case (Some s)
    then have "ts_id s \<in> ids_so_far w I c" using k by (simp add: x knows_def)
    then have "grows w I c (snd (finalize_text_segment w r s status c))"
      by (auto simp: finalize_text_segment_def allows_write_def text_row_def left_row_def
          Let_def split_def intro!: grows_intros)
    moreover have "knows w I r c0 (st\<lparr>rs_active_text := None\<rparr>, c)"
        "knows w I r c0 (st\<lparr>rs_active_text := None, rs_text_segments := l\<rparr>, d) = knows w I r c0 (st\<lparr>rs_active_text := None\<rparr>, d)" for l d
      using k by (simp_all add: x knows_def)
    ultimately show ?thesis
      using Some knows_grow by (auto simp: close_active_text_segment_def x Let_def split_def split: option.split)
  qed (use k x in \<open>simp add: close_active_text_segment_def\<close>)
qed

lemma knows_close: "knows w I r c0 x \<Longrightarrow> knows w I r c0 (close_segments w r status x)"
  by (simp add: close_segments_def knows_thinking knows_close_text)

lemma knows_mint:
  assumes "knows w I r c0 (st, c)" "mint_segment_msg_id w r st c = (i, st', c')"
  shows "knows w I r c0 (st', tick c')" "i \<in> ids_so_far w I (tick c')" "rs_active_text st' = rs_active_text st"
    "rs_active_thinking st' = rs_active_thinking st"
proof -
  have "knows w I r c0 (st, tick c)" "knows w I r c0 (st, tick (tick c))"
    using knows_grow [OF assms(1)] by (simp_all add: grows_tick)
  then show "knows w I r c0 (st', tick c')" "i \<in> ids_so_far w I (tick c')" "rs_active_text st' = rs_active_text st"
    "rs_active_thinking st' = rs_active_thinking st"
    using assms by (auto simp: mint_segment_msg_id_def mint_msg_id_def knows_def split: if_splits)
qed

lemma knows_open:
  assumes "knows w I r c0 (st, c)"
  shows "open_text w r (st, c) = (seg, st', c') \<Longrightarrow> knows w I r c0 (st', c') \<and> ts_id seg \<in> ids_so_far w I c'"
    and "open_thinking w r (st, c) = (hseg, st', c') \<Longrightarrow> knows w I r c0 (st', c') \<and> hs_id hseg \<in> ids_so_far w I c'"
  using assms knows_mint [OF assms]
  by (fastforce simp: open_text_def open_thinking_def now_ms_def knows_def Let_def split: option.splits prod.splits)+

lemma knows_handle_text: "knows w I r c0 x \<Longrightarrow> knows w I r c0 (handle_text w r s x)"
proof -
  assume k: "knows w I r c0 x"
  obtain st c where a: "complete_active_thinking w r x = (st, c)" by fastforce
  define st1 where "st1 = (if s \<noteq> [] then mark_visible st else st)"
  obtain seg st2 c2 where b: "open_text w r (st1, c) = (seg, st2, c2)" by (metis prod_cases3)
  have "knows w I r c0 (st1, c)" using knows_thinking [OF k] a by (simp add: st1_def)
  from knows_open(1) [OF this b] have k2: "knows w I r c0 (st2, c2)" "ts_id seg \<in> ids_so_far w I c2" by simp_all
  define c3 where "c3 = forward_with_msg_id (ts_id seg) (Text s) c2"
  define seg1 where "seg1 = seg\<lparr>ts_buffer := ts_buffer seg @ s, ts_flush_counter := ts_flush_counter seg + 1\<rparr>"
  have c3: "grows w I c2 c3" "ts_id seg1 \<in> ids_so_far w I c3"
    using k2(2) by (simp_all add: c3_def seg1_def forward_with_msg_id_def grows_emit)
  have fl: "grows w I c3 (snd (flush_text_segment w r seg1 c3))" "ts_id (fst (flush_text_segment w r seg1 c3)) = ts_id seg"
    using c3(2) by (auto simp: flush_text_segment_def allows_write_def text_row_def left_row_def seg1_def Let_def split_def
        intro!: grows_intros)
  have g: "grows w I c2 (snd (flush_text_segment w r seg1 c3))" using c3(1) fl(1) grows_trans by blast
  have set: "knows w I r c0 (st2\<lparr>rs_full_text_buffer := t, rs_active_text := Some s'\<rparr>, d)"
    if "grows w I c2 d" "ts_id s' = ts_id seg" for t s' d
  proof -
    have "knows w I r c0 (st2, d)" using knows_grow [OF k2(1) that(1)] .
    moreover have "ids_so_far w I c2 \<subseteq> ids_so_far w I d" using that(1) by (intro ids_so_far_mono) (simp add: grows_def)
    ultimately show ?thesis using that(2) k2(2) by (auto simp: knows_def)
  qed
  have "handle_text w r s x = (st2\<lparr>rs_full_text_buffer := rs_full_text_buffer st2 @ s, rs_active_text := Some seg1\<rparr>, c3)
    \<or> handle_text w r s x = (st2\<lparr>rs_full_text_buffer := rs_full_text_buffer st2 @ s,
         rs_active_text := Some ((fst (flush_text_segment w r seg1 c3))\<lparr>ts_flush_counter := 0\<rparr>)\<rparr>, snd (flush_text_segment w r seg1 c3))"
    using b by (cases "s = []") (simp_all add: handle_text_def a st1_def c3_def seg1_def Let_def split_def del: full_text_segments)
  then show ?thesis using set [OF c3(1)] set [OF g] fl(2) by (auto simp: seg1_def)
qed

lemma knows_handle_thinking: "knows w I r c0 x \<Longrightarrow> knows w I r c0 (handle_thinking w r d x)"
proof (cases "th_status d = Some ''done''")
  case False
  assume k: "knows w I r c0 x"
  obtain st c where a: "close_active_text_segment w r ''finish'' x = (st, c)" by fastforce
  define st1 where "st1 = (if th_content d \<noteq> [] then mark_visible st else st)"
  obtain seg st2 c2 where b: "open_thinking w r (st1, c) = (seg, st2, c2)" by (metis prod_cases3)
  have "knows w I r c0 (st1, c)" using knows_close_text [OF k, of "''finish''"] a by (simp add: st1_def)
  from knows_open(2) [OF this b] have k2: "knows w I r c0 (st2, c2)" "hs_id seg \<in> ids_so_far w I c2" by simp_all
  have "handle_thinking w r d x = (st2\<lparr>rs_active_thinking := Some (seg\<lparr>hs_buffer := hs_buffer seg @ th_content d\<rparr>)\<rparr>,
      forward_with_msg_id (hs_id seg) (Thinking d) c2)"
    using b False by (cases "th_content d = []") (simp_all add: handle_thinking_def a st1_def Let_def)
  then show ?thesis using k2 by (auto simp: knows_def forward_with_msg_id_def intro: grows_emit split: option.splits)
qed (simp add: handle_thinking_def knows_thinking)

lemma knows_forward: "knows w I r c0 (st, c) \<Longrightarrow> knows w I r c0 (st, forward r ev c)"
  by (erule knows_grow) (simp add: forward_def grows_emit)

lemma knows_nonterminal:
  assumes "knows w I r c0 x" "set (event_call_ids ev) \<subseteq> I"
  shows "knows w I r c0 (handle_nonterminal w r ev x)"
proof -
  obtain st c where x: "x = (st, c)" by fastforce
  have tool: "knows w I r c0 (handle_tool w r ev p x)" if "\<And>c. grows w I c (p c)" for p
  proof -
    obtain st1 c1 where cl: "close_segments w r ''finish'' (mark_side_effect st, c) = (st1, c1)" by fastforce
    have "knows w I r c0 (st1, c1)"
      using knows_close [of w I r c0 "(mark_side_effect st, c)" "''finish''"] assms(1) cl by (simp add: x)
    then have "knows w I r c0 (st1, p (forward r ev c1))" using knows_forward knows_grow that by blast
    then show ?thesis by (simp add: handle_tool_def x cl)
  qed
  have tips: "knows w I r c0 (handle_tips w r d x)" for d
    using knows_forward [OF assms(1) [unfolded x], of "Tips d"]
    by (auto simp: handle_tips_def x Let_def intro: knows_grow [OF _ grows_tips(1)])
  show ?thesis
    using assms tool tips grows_tools [of _ I w] knows_forward [OF assms(1) [unfolded x]]
    by (cases ev) (simp_all add: handle_nonterminal_def knows_handle_text knows_handle_thinking knows_close, simp_all add: x)
qed

lemma grows_finalize:
  assumes "sr_msg_id r \<in> ids_so_far w I c"
  shows "grows w I c (snd (finalize w r buf segs ev t c))"
proof -
  have shown: "grows w I c (show_segment w status i d)" if "grows w I c d" for c d status i
    using that by (simp add: show_segment_def grows_update)
  have folds: "grows w I c (fold (show_segment w status) xs d)" "grows w I c (snd (fold (hide_segment w status) xs (ovs, d)))"
    if "grows w I c d" for status xs ovs d
    using grows_trans [OF that id_growth.fold_ext [of w I "\<lambda>d. d" "show_segment w status", OF shown [OF grows_refl]]]
      grows_trans [OF that id_growth.fold_ext [of w I snd "hide_segment w status" "(ovs, d)" xs, simplified]]
    by (simp_all add: hide_segment_def Let_def split_def grows_update)
  have final: "grows w I c (snd (persist_final_text w r segs status ft hidden rewrite c))" for status ft hidden rewrite
    using assms by (auto simp: persist_final_text_def allows_write_def now_ms_def left_row_def Let_def split_def
        intro!: grows_intros folds shown split: list.split)
  have sent: "grows w I c (send_overrides ovs d)" if "grows w I c d" for ovs d
    unfolding send_overrides_def by (rule grows_trans [OF that id_growth.fold_ext [where g = "\<lambda>d. d"]]) (simp add: grows_emit)
  have responses: "grows w I c (send_system_responses w rs d)" if "grows w I c d" for rs d
    unfolding send_system_responses_def
    by (rule grows_trans [OF that id_growth.fold_ext [where g = "\<lambda>d. d"]]) (simp add: grows_emit grows_tick mint_msg_id_def)
  show ?thesis
    using responses [OF sent [OF final]] grows_tips(2) by (auto simp: finalize_def Let_def split_def split: AgentStreamEvent.split)
qed

lemma knows_msg_id: "knows w I r c0 (st, c) \<Longrightarrow> grows w I c0 c \<and> sr_msg_id r \<in> ids_so_far w I c"
  by (simp add: knows_def)

lemma knows_finalize:
  "knows w I r c0 (st, c) \<Longrightarrow> grows w I c0 (snd (finalize w r buf segs ev t c))"
  using knows_msg_id grows_finalize grows_trans by blast

lemma grows_event:
  assumes "\<not> sr_complete_turn r" "knows w I r c0 (st, c)"
  shows "grows w I c0 (snd (handle_terminal w r d ev (st, c)))" "grows w I c0 (snd (handle_closed w r (st, c)))"
proof -
  obtain st1 c1 where cl: "close_segments w r (case ev of Error _ \<Rightarrow> ''error'' | _ \<Rightarrow> ''finish'') (st, c) = (st1, c1)" by fastforce
  obtain st2 c2 where cl2: "close_segments w r ''finish'' (st, tick c) = (st2, c2)" by fastforce
  have k: "knows w I r c0 (st, tick c)" using knows_grow [OF assms(2)] by (simp add: grows_tick)
  have "knows w I r c0 (st1, c1)" "knows w I r c0 (st2, c2)"
    using knows_close [OF assms(2)] knows_close [OF k] cl cl2 by metis+
  then have "grows w I c0 (snd (finalize w r buf segs ev t (forward r ev c1)))" "grows w I c0 (snd (finalize w r buf segs ev' t c2))"
    for buf segs t ev'
    using knows_finalize [OF knows_forward [of w I r c0 st1 c1 ev]] knows_finalize [of w I r c0 st2 c2] by simp_all
  moreover have "grows w I c0 (forward r ev c)" using knows_msg_id [OF knows_forward [OF assms(2)]] by blast
  ultimately show "grows w I c0 (snd (handle_terminal w r d ev (st, c)))" "grows w I c0 (snd (handle_closed w r (st, c)))"
    using assms(1) knows_msg_id [OF assms(2)] knows_msg_id [OF k]
    by (auto simp: handle_terminal_def handle_closed_def relay_is_deleting_def cl cl2 Let_def split_def outcome_logs)
qed

lemma knows_event:
  assumes "\<not> sr_complete_turn r" "knows w I r c0 (st, c)" "\<not> is_terminal_event ev \<Longrightarrow> set (event_call_ids ev) \<subseteq> I"
  shows "case handle_event w r ev (st, c) of (Inl _, c2) \<Rightarrow> grows w I c0 c2 | (Inr st2, c2) \<Rightarrow> knows w I r c0 (st2, c2)"
proof -
  have k: "knows w I r c0 (st, tick c)" using knows_grow [OF assms(2)] by (simp add: grows_tick)
  obtain d where d: "relay_is_deleting w r c = (d, tick c)" by (simp add: relay_is_deleting_def)
  obtain oc c2 where t: "handle_terminal w r d ev (st, tick c) = (oc, c2)" by fastforce
  have "grows w I c0 c2" using grows_event(1) [OF assms(1) k, of d ev] t by simp
  then show ?thesis
    using k d t knows_nonterminal [OF k assms(3)] by (auto simp: handle_event_def Let_def split: prod.splits)
qed

definition input_call_ids :: "'j RelayInput \<Rightarrow> string set" where
  "input_call_ids inp = (case inp of RecvEvent ev \<Rightarrow> set (event_call_ids ev) | _ \<Rightarrow> {})"

lemma grows_run:
  assumes "\<not> sr_complete_turn r" "knows w I r c0 (st, c)" "list_all (\<lambda>inp. input_call_ids inp \<subseteq> I) inputs"
  shows "grows w I c0 (snd (relay_run w r inputs (st, c)))"
  using assms(2,3)
proof (induction inputs arbitrary: st c)
  case Nil
  then show ?case by (simp add: knows_def)
next
  case (Cons inp inputs)
  obtain res st1 where res: "recv_result inp st = (res, st1)" by fastforce
  have k1: "knows w I r c0 (st1, c)"
    using Cons.prems(1) res by (auto simp: recv_result_def recv_with_pending_def knows_def Let_def
        split: option.splits RelayInput.splits if_splits)
  have ids: "set (event_call_ids ev) \<subseteq> I" if "res = Received ev" "\<not> is_terminal_event ev" for ev
    using that Cons.prems(2) res by (auto simp: recv_result_def recv_with_pending_def input_call_ids_def Let_def
        split: option.splits RelayInput.splits if_splits)
  obtain out c2 where step: "relay_step w r inp (st, c) = (out, c2)" by fastforce
  have "case out of Inl _ \<Rightarrow> grows w I c0 c2 | Inr st2 \<Rightarrow> knows w I r c0 (st2, c2)"
    using step res k1 knows_event [OF assms(1) k1, of ev for ev] ids grows_event(2) [OF assms(1) k1]
    by (cases res) (fastforce simp: relay_step_def Let_def split: prod.splits sum.splits)+
  then show ?case using Cons step by (cases out) auto
qed

end
