(* ===== verification/Turn_Props.thy ===== *)
theory Turn_Props
  imports Turn_Message_Ids
begin

text \<open>
  The properties of a turn of a conversation: it ends and releases its claim once, an attempt is
  replayed only after showing nothing, and a turn that fails shows a failure.
\<close>

section \<open>Failures are shown\<close>

fun shows_failure :: "'j Effect \<Rightarrow> bool" where
  "shows_failure (Broadcast (Forward _ (Error _))) = True"
| "shows_failure (Broadcast (FailureTip _)) = True"
| "shows_failure _ = False"

definition failure_shown :: "'j RelayCtx \<Rightarrow> 'j RelayCtx \<Rightarrow> bool" where
  "failure_shown c c' \<longleftrightarrow> (\<exists>es. cx_log c' = cx_log c @ es \<and> list_ex shows_failure es)"

definition appends :: "'j RelayCtx \<Rightarrow> 'j RelayCtx \<Rightarrow> bool" where
  "appends c c' \<longleftrightarrow> (\<exists>es. cx_log c' = cx_log c @ es)"

lemma appends_refl [simp]: "appends c c"
  by (simp add: appends_def)

lemma appends_trans: "appends a b \<Longrightarrow> appends b c \<Longrightarrow> appends a c"
  by (auto simp: appends_def)

lemma appends_intros: "logs P c d \<Longrightarrow> appends c d" "stretch n k c d \<Longrightarrow> appends c d" "cx_log c = cx_log d \<Longrightarrow> appends c d"
  by (auto simp: logs_def stretch_def appends_def)

lemma failure_shown_after: "appends a b \<Longrightarrow> failure_shown b c \<Longrightarrow> failure_shown a c"
  by (auto simp: failure_shown_def appends_def)

lemma failure_shown_before: "failure_shown a b \<Longrightarrow> appends b c \<Longrightarrow> failure_shown a c"
  by (auto simp: failure_shown_def appends_def)

lemma terminal_shown_or_deferred:
  assumes "\<not> sr_complete_turn r" "\<not> terminal_error_deferred (rs_attempt st)"
    and "handle_terminal w r d ev (st, c) = (oc, c')" "terminal_is_error (ro_terminal oc)"
  shows "failure_shown c c' \<or> terminal_error_deferred (ro_attempt oc) \<and> terminal_error (ro_attempt oc) \<noteq> None"
proof -
  have "ro_terminal oc = terminal_from_event ev"
    using assms(3) by (auto simp: handle_terminal_def outcome_of_def finalize_terminal Let_def split_def split: if_splits)
  then obtain data where ev: "ev = Error data" using assms(4) by (cases ev) simp_all
  show ?thesis
  proof (cases "defers_error r (terminal_from_event ev) (rs_attempt st)")
    case True
    then show ?thesis using assms(3) by (auto simp: handle_terminal_def set_deferred_error_def ev Let_def)
  next
    case False
    obtain st1 c1 where cl: "(if d then (st, c) else close_segments w r ''error'' (st, c)) = (st1, c1)" by fastforce
    have "appends c c1" using cl close_segments_logs [of "(st, c)" w r "''error''"] appends_intros(1) by (cases d) auto
    moreover have "failure_shown c1 (forward r ev c1)" by (simp add: failure_shown_def forward_def ev)
    moreover have "appends (forward r ev c1) c'"
      using assms(1,3) False cl appends_intros(1) [OF finalize_logs]
      by (cases d) (auto simp: handle_terminal_def ev Let_def split_def outcome_logs dest!: arg_cong [where f = snd])
    ultimately show ?thesis using failure_shown_after failure_shown_before by blast
  qed
qed

lemma run_shows_error:
  assumes "\<not> sr_complete_turn r" "terminal_is_error (ro_terminal outcome)"
    and "relay_run w r inputs (st, c) = (Inl outcome, c')" "\<not> terminal_error_deferred (rs_attempt st)"
  shows "failure_shown c c' \<or> terminal_error_deferred (ro_attempt outcome) \<and> terminal_error (ro_attempt outcome) \<noteq> None"
  using assms(3,4)
proof (induction inputs arbitrary: st c)
  case (Cons inp inputs)
  obtain res c1 where step: "relay_step w r inp (st, c) = (res, c1)" by fastforce
  obtain rv st1 where rv: "recv_result inp st = (rv, st1)" by fastforce
  have st1: "\<not> terminal_error_deferred (rs_attempt st1)" using recv_result_keeps(1) [of inp st] rv Cons.prems(2) by simp
  have ap: "appends c c1" using appends_intros(1) [OF step_logs [OF assms(1), of "(st, c)" w inp]] step by simp
  show ?case
  proof (cases res)
    case (Inl oc)
    then have oc: "oc = outcome" "c1 = c'" using Cons.prems(1) step by simp_all
    have "ro_terminal (fst (handle_closed w r (st1, c))) = ChannelClosed"
      by (simp add: handle_closed_def outcome_of_def finalize_terminal Let_def split_def)
    then obtain ev where ev: "rv = Received ev" using step Inl rv oc assms(2)
      by (cases rv) (auto simp: relay_step_def Let_def split_def)
    then obtain d where "handle_terminal w r d ev (st1, tick c) = (outcome, c')"
      using step Inl rv oc by (auto simp: relay_step_def handle_event_def relay_is_deleting_def Let_def split: prod.splits if_splits)
    from terminal_shown_or_deferred [OF assms(1) st1 this assms(2)] show ?thesis by (simp add: failure_shown_def)
  next
    case (Inr st2)
    have nt: "\<not> terminal_error_deferred (rs_attempt st3)" if "handle_nonterminal w r ev (st1, tick c) = (st3, c3)" for ev st3 c3
      using nonterminal_deferred [of w r ev "(st1, tick c)"] st1 that by simp
    have "\<not> terminal_error_deferred (rs_attempt st2)"
      using step Inr rv st1 nt
      by (cases rv) (auto simp: relay_step_def handle_event_def relay_is_deleting_def Let_def split: prod.splits if_splits)
    then show ?thesis
      using Cons.IH [of st2 c1] Cons.prems(1) step Inr failure_shown_after [OF ap] by auto
  qed
qed simp

section \<open>Orderly turns\<close>

text \<open>
  The database answers, the conversation is active throughout, and message ids are fresh:
  distinct, and neither the ids of stored messages nor those of the agent's tool calls.
\<close>

definition given_ids :: "'j AgentWorld \<Rightarrow> 'j RelayCtx \<Rightarrow> string set" where
  "given_ids a c = row_ids c \<union> (\<Union>k i. \<Union> (input_call_ids ` set (aw_inputs a k i)))"

definition orderly :: "'j World \<Rightarrow> 'j AgentWorld \<Rightarrow> TurnStartInput \<Rightarrow> 'j RelayCtx \<Rightarrow> bool" where
  "orderly w a input c \<longleftrightarrow> (\<forall>t. w_db w t) \<and> (\<forall>t. lifecycle_for (w_svc w t) (ti_conversation_id input) = Active) \<and>
     inj (w_mint w) \<and> cx_status c \<noteq> None \<and> given_ids a c \<inter> range (w_mint w) = {}"

definition fresh :: "'j World \<Rightarrow> string set \<Rightarrow> 'j RelayCtx \<Rightarrow> bool" where
  "fresh w I c \<longleftrightarrow> row_ids c \<subseteq> ids_so_far w I c \<and> cx_status c \<noteq> None"

lemma fresh_grows: "fresh w I c \<Longrightarrow> grows w I c d \<Longrightarrow> fresh w I d"
  by (simp add: fresh_def grows_def)

lemma tip_shown:
  assumes "orderly w a input c0" "fresh w (given_ids a c0) c"
  shows "failure_shown c (persist_and_broadcast_send_failure_tip w (ti_conversation_id input) err code c)"
proof -
  have allowed: "allows (w_svc w t) (ti_conversation_id input) SendFailureTip" for t
    using assms(1) by (simp add: orderly_def allows_def decide_def)
  have "w_mint w (Suc (cx_tick c)) \<notin> row_ids c"
    using assms unfolding orderly_def fresh_def ids_so_far_def by (force simp: inj_eq)
  then have "map_of (cx_messages c) (w_mint w (Suc (cx_tick c))) = None" by (auto simp: row_ids_def map_of_eq_None_iff)
  then show ?thesis
    using assms allowed
    by (simp add: persist_and_broadcast_send_failure_tip_def persist_send_failure_tip_def mint_msg_id_def now_ms_def
        insert_message_def orderly_def fresh_def failure_shown_def Let_def)
qed

lemma grows_extra: "grows w I c d \<Longrightarrow> grows w I c (d\<lparr>cx_extra := x\<rparr>)"
  by (simp add: grows_def row_ids_def)

lemma turn_grows:
  "grows w I c (persist_session_key w conv key c)"
  "grows w I c (snd (maybe_persist_workspace w conv old resolved c))"
  "grows w I c (record_agent_session_failure a i code m c)"
proof -
  show "grows w I c (persist_session_key w conv key c)"
    by (simp add: persist_session_key_def Let_def grows_tick grows_extra)
  show "grows w I c (snd (maybe_persist_workspace w conv old resolved c))"
    by (simp add: maybe_persist_workspace_def Let_def grows_tick grows_extra)
qed (simp add: record_agent_session_failure_def grows_emit)

lemma grows_evict: "grows w I c (snd (evict_acp_task_after_terminal_error w a conv t outcome c))"
proof -
  have seed: "grows w I d (clear_conversation_model_seed_after_model_not_found w conv code d)" for code d
    by (simp add: clear_conversation_model_seed_after_model_not_found_def Let_def grows_tick grows_emit grows_extra)
  have model: "grows w I d (clear_persisted_acp_model_after_model_not_found w a conv code d)" for code d
    by (simp add: clear_persisted_acp_model_after_model_not_found_def Let_def grows_tick grows_emit)
  show ?thesis
    using grows_trans [OF grows_trans [OF grows_emit [OF grows_refl] model] seed]
    by (simp add: evict_acp_task_after_terminal_error_def Let_def)
qed

lemma given_inputs: "list_all (\<lambda>inp. input_call_ids inp \<subseteq> given_ids a c0) (aw_inputs a k i)"
  by (force simp: list_all_iff given_ids_def)

lemma grows_round:
  assumes "msg_id \<in> ids_so_far w (given_ids a c0) c"
  shows "grows w (given_ids a c0) c (snd (send_round w a input k t df i send msg_id summary c))"
proof -
  let ?I = "given_ids a c0"
  have relay: "grows w ?I c (snd (consume_with_send_error w (relay_of input msg_id fe) (aw_inputs a k i) (emit (Sent send) (tick c))))" for fe
    unfolding consume_with_send_error_def
    by (rule grows_run [OF _ _ given_inputs]) (use assms in \<open>simp_all add: relay_of_def knows_def initial_relay_state_def grows_emit grows_tick\<close>)
  have tip: "grows w ?I c (persist_and_broadcast_send_failure_tip w conv err code (tick c))" for conv err code
    by (rule grows_trans [OF grows_tick [OF grows_refl] grows_tips(3)])
  show ?thesis
    using relay tip grows_trans [OF relay turn_grows(1)]
    by (auto simp: send_round_def Let_def split_def split: option.split sum.split)
qed

text \<open>What is kept along an attempt: a failure was shown, or a deferred error is in the result.\<close>

fun accounted :: "'j RelayCtx \<Rightarrow> (ConversationTurnResult + TurnAttemptResult) option \<times> 'j RelayCtx \<Rightarrow> bool" where
  "accounted c (None, c') = True"
| "accounted c (Some (Inl _), c') = failure_shown c c'"
| "accounted c (Some (Inr result), c') =
     (terminal_is_error (ro_terminal (ar_outcome result)) \<longrightarrow> failure_shown c c' \<or>
        terminal_error_deferred (ro_attempt (ar_outcome result)) \<and> terminal_error (ro_attempt (ar_outcome result)) \<noteq> None)"

lemma accounted_after: "appends c d \<Longrightarrow> accounted d x \<Longrightarrow> accounted c x"
  by (cases "(d, x)" rule: accounted.cases) (auto intro: failure_shown_after)

lemma round_accounted:
  assumes "orderly w a input c0" "fresh w (given_ids a c0) c"
    and "send_round w a input k t df i send msg_id summary c = (res, c1)"
  shows "res = Some (Inl e) \<Longrightarrow> failure_shown c c1"
    and "res = Some (Inr (lc, outcome, sm)) \<Longrightarrow> terminal_is_error (ro_terminal outcome) \<Longrightarrow> failure_shown c c1 \<or>
      terminal_error_deferred (ro_attempt outcome) \<and> terminal_error (ro_attempt outcome) \<noteq> None"
proof -
  have "fresh w (given_ids a c0) (tick c)" using fresh_grows [OF assms(2)] by (simp add: grows_tick)
  from tip_shown [OF assms(1) this]
  show "res = Some (Inl e) \<Longrightarrow> failure_shown c c1"
    using assms(3) by (auto simp: send_round_def failure_shown_def Let_def split: option.splits prod.splits sum.splits)
  assume res: "res = Some (Inr (lc, outcome, sm))" and err: "terminal_is_error (ro_terminal outcome)"
  let ?s = "emit (Sent send) (tick c)"
  obtain fe c2 where r: "consume_with_send_error w (relay_of input msg_id fe) (aw_inputs a k i) ?s = (Inl outcome, c2)" "cx_log c1 = cx_log c2"
    using assms(3) res round_result by metis
  have "appends c ?s" by (simp add: appends_def)
  then show "failure_shown c c1 \<or> terminal_error_deferred (ro_attempt outcome) \<and> terminal_error (ro_attempt outcome) \<noteq> None"
    using run_shows_error [OF _ err r(1) [unfolded consume_with_send_error_def]] failure_shown_after [of c ?s c2] r(2)
    by (auto simp: relay_of_def initial_relay_state_def default_summary_def failure_shown_def)
qed

lemma loop_accounted:
  assumes "orderly w a input c0"
  shows "fresh w (given_ids a c0) c \<Longrightarrow> msg_id \<in> ids_so_far w (given_ids a c0) c \<Longrightarrow>
    accounted c (send_loop w a input k t df i send msg_id summary c) \<and>
    grows w (given_ids a c0) c (snd (send_loop w a input k t df i send msg_id summary c))"
proof (induction i send msg_id summary c rule: send_loop_rounds)
  case (1 i send msg_id summary c)
  obtain res c1 where round: "send_round w a input k t df i send msg_id summary c = (res, c1)" by fastforce
  have g: "grows w (given_ids a c0) c c1" using grows_round [OF 1(3)] round by (metis snd_conv)
  have ap: "appends c c1" using send_round_stretch round appends_intros(2) by (metis snd_conv)
  note acc = round_accounted [OF assms 1(2) round]
  from round show ?case
  proof (cases rule: send_loop_cases)
    case (continues lc outcome sm content)
    let ?id = "w_mint w (cx_tick c1)"
    let ?x = "send_loop w a input k t df (Suc i) (continuation_send input content ?id) ?id sm (tick c1)"
    have "fresh w (given_ids a c0) (tick c1)" using fresh_grows [OF 1(2)] g by (simp add: grows_tick)
    then have "accounted (tick c1) ?x" "grows w (given_ids a c0) (tick c1) (snd ?x)"
      using 1(1) [OF continues(2), of "tick c1" ?id] by auto
    moreover have "grows w (given_ids a c0) c (tick c1)" "appends c (tick c1)" using g ap by (simp_all add: grows_tick appends_def)
    ultimately show ?thesis using continues(4) accounted_after grows_trans by metis
  qed (use g acc in auto)
qed

lemma attempt_accounted:
  assumes "orderly w a input c0" "fresh w (given_ids a c0) c" "msg_id \<in> ids_so_far w (given_ids a c0) c"
  shows "accounted c (run_attempt w a input k send msg_id df c) \<and>
    grows w (given_ids a c0) c (snd (run_attempt w a input k send msg_id df c))"
proof (cases "aw_build a k")
  case (Inl failure)
  let ?rec = "record_agent_session_failure a (availability_agent_id (ti_build_options input)) ''session_build_failed''
    (send_error_display_message (af_send_error failure)) c"
  have "grows w (given_ids a c0) c ?rec" by (rule turn_grows)
  moreover from this have "failure_shown ?rec (persist_and_broadcast_send_failure_tip w (ti_conversation_id input) (af_send_error failure) code ?rec)" for code using tip_shown assms(1,2) fresh_grows by blast
  moreover have "appends c ?rec" by (auto simp: record_agent_session_failure_def appends_def)
  ultimately have "failure_shown c (persist_and_broadcast_send_failure_tip w (ti_conversation_id input) (af_send_error failure) code ?rec)" "grows w (given_ids a c0) c (persist_and_broadcast_send_failure_tip w (ti_conversation_id input) (af_send_error failure) code ?rec)" for code
    using failure_shown_after grows_trans grows_tips(3) by blast+
  then show ?thesis using Inl by (simp add: run_attempt_def Let_def)
next
  case (Inr agent)
  obtain res c1 where ws: "maybe_persist_workspace w (ti_conversation_id input) (ti_stored_workspace input) (ai_workspace agent) c = (res, c1)"
    by fastforce
  have g: "grows w (given_ids a c0) c c1" and ap: "appends c c1"
    using turn_grows(2) workspace_log appends_intros(3) ws by (metis snd_conv)+
  have f: "fresh w (given_ids a c0) c1" "msg_id \<in> ids_so_far w (given_ids a c0) c1"
    using fresh_grows [OF assms(2) g] assms(3) ids_so_far_mono [of c c1] g by (auto simp: grows_def)
  have loop: "accounted c1 x" "grows w (given_ids a c0) c1 (snd x)"
    if "x = send_loop w a input k t df 0 send msg_id default_summary c1" for t x
    using loop_accounted [OF assms(1) f] that by simp_all
  have tip: "failure_shown c1 (persist_and_broadcast_send_failure_tip w (ti_conversation_id input) err code c1)"
    "grows w (given_ids a c0) c1 (persist_and_broadcast_send_failure_tip w (ti_conversation_id input) err code c1)" for err code
    using tip_shown [OF assms(1) f(1)] grows_tips(3) by blast+
  have "accounted c1 (run_attempt w a input k send msg_id df c) \<and> grows w (given_ids a c0) c1 (snd (run_attempt w a input k send msg_id df c))"
    using Inr ws loop tip by (cases res) (simp_all add: run_attempt_def Let_def)
  then show ?thesis using accounted_after [OF ap] grows_trans [OF g] by blast
qed

lemma give_up_shows:
  assumes "orderly w a input c0" "fresh w (given_ids a c0) c"
    and "terminal_error_deferred (ro_attempt (ar_outcome result))" "terminal_error (ro_attempt (ar_outcome result)) \<noteq> None"
  shows "failure_shown c (give_up w a input result c)"
proof -
  obtain data where data: "terminal_error (ro_attempt (ar_outcome result)) = Some data" using assms(4) by blast
  let ?tip = "persist_and_broadcast_send_failure_tip w (ti_conversation_id input) \<lparr>se_stream_error = data\<rparr> None (tick c)"
  have "fresh w (given_ids a c0) (tick c)" using fresh_grows [OF assms(2)] by (simp add: grows_tick)
  then have "failure_shown c ?tip" using tip_shown [OF assms(1)] by (fastforce simp: failure_shown_def)
  moreover have "appends ?tip (snd (evict_acp_task_after_terminal_error w a conv t outcome ?tip))" for conv t outcome
    using evict_stretch appends_intros(2) by blast
  ultimately show ?thesis
    by (auto simp: give_up_def data assms(3) Let_def intro: failure_shown_before split: AgentHealthAction.split)
qed

lemma give_up_appends: "appends c (give_up w a input result c)"
  using give_up_stretch appends_intros(2) by blast

lemma loop_shows_failure:
  assumes "orderly w a input c0" "attempt_loop w a input send msg_id replayed auth c = (Some e, c')" "te_failed e"
    and "fresh w (given_ids a c0) c" "msg_id \<in> ids_so_far w (given_ids a c0) c"
  shows "failure_shown c c'"
proof -
  have step: "failure_shown c c' \<or> \<not> replayed \<and> (\<exists>auth' d. attempt_loop w a input send msg_id True auth' d = (Some e, c')
        \<and> grows w (given_ids a c0) c d \<and> appends c d)"
    if "attempt_loop w a input send msg_id replayed auth c = (Some e, c')" "fresh w (given_ids a c0) c"
      "msg_id \<in> ids_so_far w (given_ids a c0) c" for replayed auth c
  proof -
    obtain res c1 where run: "run_attempt w a input (if replayed then 1 else 0) send msg_id (\<not> replayed) c = (res, c1)" by fastforce
    have acc: "accounted c (res, c1)" and g: "grows w (given_ids a c0) c c1"
      using attempt_accounted [OF assms(1) that(2,3)] run by (metis, metis snd_conv)
    have ap: "appends c c1" using run_attempt_stretch run appends_intros(2) by (metis snd_conv)
    from run show ?thesis
    proof (cases rule: attempt_loop_cases [where auth = auth])
      case (replay result)
      have "grows w (given_ids a c0) c (tick c1)" using g by (rule grows_tick)
      then have "grows w (given_ids a c0) c (replay_ctx w a input result c1)"
        unfolding replay_ctx_def by (intro grows_emit) (rule grows_trans [OF _ grows_evict])
      moreover have "appends c (replay_ctx w a input result c1)"
        by (rule appends_trans [OF ap appends_intros(2) [OF replay_stretch]])
      ultimately show ?thesis using replay that(1) by auto
    next
      case (gives_up result)
      then have c': "c' = give_up w a input result c1" using that(1) by simp
      have "failure_shown c c1 \<or> failure_shown c1 c'"
        using acc gives_up c' give_up_shows [OF assms(1) fresh_grows [OF that(2) g]] by auto
      then show ?thesis using failure_shown_before failure_shown_after ap give_up_appends c' by metis
    qed (use that(1) acc assms(3) in auto)
  qed
  show ?thesis
  proof (rule ccontr)
    assume no: "\<not> failure_shown c c'"
    then obtain auth' d where d: "attempt_loop w a input send msg_id True auth' d = (Some e, c')"
        "grows w (given_ids a c0) c d" "appends c d"
      using step [OF assms(2,4,5)] by blast
    have "msg_id \<in> ids_so_far w (given_ids a c0) d"
      using assms(5) d(2) ids_so_far_mono [of c d] by (auto simp: grows_def)
    from step [OF d(1) fresh_grows [OF assms(4) d(2)] this] have "failure_shown d c'" by simp
    with d(3) no show False using failure_shown_after by blast
  qed
qed

section \<open>Properties\<close>

lemma finish_turn_form:
  assumes "finish_turn w a input e c1 = (result, c')"
  obtains c2 d where "stretch 0 0 c1 c2" "tr_status result = (if te_failed e then TurnFailed else TurnCompletedOk)"
    "c' = complete_released_turn w a (ti_conversation_id input) d (emit (ClaimReleased d) (tick c2))"
proof -
  have "stretch 0 0 c1 (record_turn_feedback a input e c1)"
    by (simp add: record_turn_feedback_def record_agent_session_failure_def record_agent_session_success_def Let_def stretch_emit_after)
  then show thesis using assms that by (auto simp: finish_turn_def Let_def split_def)
qed

lemma run_user_turn_form:
  assumes "run_user_turn w a input c = (Some result, c')"
  obtains msg_id send e c1 where "msg_id = w_mint w (cx_tick c)"
    "attempt_loop w a input send msg_id False False (tick c) = (Some e, c1)" "finish_turn w a input e c1 = (result, c')"
  using assms by (auto simp: run_user_turn_def mint_msg_id_def Let_def split: option.splits prod.splits)

lemma run_user_turn_ends:
  assumes "\<And>k i. list_ex ending_input (aw_inputs a k i)"
  shows "fst (run_user_turn w a input c) \<noteq> None"
proof -
  have "fst (attempt_loop w a input send msg_id False False (tick c)) \<noteq> None" for send msg_id
    by (rule attempt_loop_ends) (rule run_attempt_ends [OF assms])
  then show ?thesis
    by (auto simp: run_user_turn_def mint_msg_id_def Let_def split_def split: option.split)
qed

lemma completed_log:
  "\<exists>post. cx_log (complete_released_turn w a conv d c) = cx_log c @ post \<and>
     (post = [] \<or> \<not> d \<and> (\<exists>rt. post = [Broadcast (TurnCompleted rt)]))"
  by (auto simp: complete_released_turn_def publish_completion_def Let_def split_def)

text \<open>
  An example of an ACP agent without feedback, mode and workspace whose relays receive the given
  inputs.
\<close>

definition demo_start :: TurnStartInput where
  "demo_start = \<lparr>ti_user_id = ''u1'', ti_conversation_id = ''c1'', ti_content = ''hello'', ti_files = [], ti_inject_skills = [],
     ti_required_runtime_mode = None, ti_build_options = \<lparr>bo_kind = AcpSession (Some ''codex'') None,
       bo_skills = [''pdf''], bo_conversation_id = ''c1'', bo_user_id = ''u1'', bo_runtime_env = [], bo_team = False,
       bo_runtime_capabilities = \<lparr>cap_context_version = Some 2\<rparr>\<rparr>,
     ti_stored_workspace = [], ti_turn_id = ''t1'',
     ti_turn_claim = \<lparr>tc_conversation_id = ''c1'', tc_turn_id = ''t1'', tc_released = False\<rparr>\<rparr>"

definition demo_agent :: "unit RelayInput list \<Rightarrow> unit AgentWorld" where
  "demo_agent inputs = \<lparr>aw_build = (\<lambda>_. Inr \<lparr>ai_agent_type = Acp, ai_workspace = []\<rparr>),
     aw_workspace_error = (\<lambda>_. \<lparr>af_top_level_code = [], af_message = [], af_send_error = \<lparr>se_stream_error = demo_error\<rparr>\<rparr>),
     aw_mode_catalog = (\<lambda>_ _. None), aw_set_mode = (\<lambda>_ _ _. None), aw_inputs = (\<lambda>_ _. inputs),
     aw_session_key = (\<lambda>_ _. None), aw_has_feedback = False, aw_has_acp_session = False,
     aw_task = (None, False, 0)\<rparr>"

definition demo_crash :: AgentStreamErrorData where
  "demo_crash = demo_error\<lparr>ed_message := ''agent exited'', ed_code := Some UserAgentDisconnected\<rparr>"

text \<open>
  C3: A user turn ends when every relay it starts is given a terminal event or the end of its
  channel, whatever else happens: it sends at most ten messages (two attempts of at most
  five), replays at most once, releases its claim exactly once, and after that release does
  nothing but report the completion, and not even that when the conversation is being deleted.
\<close>

theorem turn_ends_and_releases_its_claim_once:
  assumes "\<And>k i. list_ex ending_input (aw_inputs a k i)"
  shows "\<exists>result c' pre post d. run_user_turn w a input c = (Some result, c') \<and>
    cx_log c' = cx_log c @ pre @ ClaimReleased d # post \<and> list_all turn_effect pre \<and>
    length (filter is_sent pre) \<le> 10 \<and> count_list pre AnchorRefreshed \<le> 1 \<and>
    (post = [] \<or> \<not> d \<and> (\<exists>rt. post = [Broadcast (TurnCompleted rt)]))"
proof -
  obtain result c' where turn: "run_user_turn w a input c = (Some result, c')"
    using run_user_turn_ends [OF assms, of w input c] by (metis eq_fst_iff option.exhaust)
  obtain msg_id send e c1 where loop: "attempt_loop w a input send msg_id False False (tick c) = (Some e, c1)"
      "finish_turn w a input e c1 = (result, c')" by (rule run_user_turn_form [OF turn])
  obtain c2 d where f: "stretch 0 0 c1 c2"
      "c' = complete_released_turn w a (ti_conversation_id input) d (emit (ClaimReleased d) (tick c2))"
    by (rule finish_turn_form [OF loop(2)])
  have "stretch 10 1 c c1" using attempt_loop_stretch [of False "tick c" w a input send msg_id False] loop(1) by simp
  then have "stretch 10 1 c c2" by (rule stretch_trans [OF _ f(1)]) simp_all
  then obtain pre where "cx_log c2 = cx_log c @ pre" "list_all turn_effect pre" "length (filter is_sent pre) \<le> 10"
      "count_list pre AnchorRefreshed \<le> 1" by (auto simp: stretch_def)
  moreover obtain post where "cx_log c' = cx_log c2 @ ClaimReleased d # post"
      "post = [] \<or> \<not> d \<and> (\<exists>rt. post = [Broadcast (TurnCompleted rt)])"
    using completed_log [of w a "ti_conversation_id input" d "emit (ClaimReleased d) (tick c2)"] f(2) by auto
  ultimately show ?thesis using turn by fastforce
qed

theorem turn_ends_and_releases_its_claim_once_witness:
  "\<exists>result c' pre post d. run_user_turn demo_world (demo_agent [RecvEvent (Text ''hi''), RecvEvent (Finish None)]) demo_start demo_ctx
      = (Some result, c') \<and> cx_log c' = cx_log demo_ctx @ pre @ ClaimReleased d # post \<and> list_all turn_effect pre \<and>
    length (filter is_sent pre) \<le> 10 \<and> count_list pre AnchorRefreshed \<le> 1 \<and>
    (post = [] \<or> \<not> d \<and> (\<exists>rt. post = [Broadcast (TurnCompleted rt)]))"
  by (rule turn_ends_and_releases_its_claim_once) (simp add: demo_agent_def ending_input_def)

text \<open>
  C8: A turn that ends as failed on an active conversation with a working database has
  broadcast the failure, as an error event or as a failure tip, on every path, an error that
  was deferred for a replay included.
\<close>

theorem failed_turn_is_never_silent:
  assumes "orderly w a input c" "run_user_turn w a input c = (Some result, c')" "tr_status result = TurnFailed"
  shows "\<exists>es. cx_log c' = cx_log c @ es \<and> list_ex shows_failure es"
proof -
  obtain msg_id send e c1 where loop: "msg_id = w_mint w (cx_tick c)"
      "attempt_loop w a input send msg_id False False (tick c) = (Some e, c1)" "finish_turn w a input e c1 = (result, c')"
    by (rule run_user_turn_form [OF assms(2)])
  obtain c2 d where f: "stretch 0 0 c1 c2" "tr_status result = (if te_failed e then TurnFailed else TurnCompletedOk)"
      "c' = complete_released_turn w a (ti_conversation_id input) d (emit (ClaimReleased d) (tick c2))"
    by (rule finish_turn_form [OF loop(3)])
  have "fresh w (given_ids a c) (tick c)"
    using assms(1) by (auto simp: fresh_def orderly_def ids_so_far_def given_ids_def)
  then have "failure_shown (tick c) c1"
    using loop_shows_failure [OF assms(1) loop(2)] loop(1) f(2) assms(3) by (simp split: if_splits)
  moreover have "appends c1 c'"
    using appends_intros(2) [OF f(1)] completed_log [of w a "ti_conversation_id input" d "emit (ClaimReleased d) (tick c2)"] f(3)
    by (auto simp: appends_def)
  ultimately have "failure_shown (tick c) c'" by (rule failure_shown_before)
  then show ?thesis by (simp add: failure_shown_def)
qed

lemma demo_orderly: "orderly demo_world (demo_agent inputs) demo_start demo_ctx" if "\<Union> (input_call_ids ` set inputs) = {}"
proof -
  have "inj (w_mint demo_world)" using demo_calm by (simp add: calm_def)
  then show ?thesis
    using that by (simp add: orderly_def given_ids_def row_ids_def demo_agent_def demo_ctx_def demo_world_def new_runtime_state_def
        lifecycle_for_def is_shutting_down_def is_deleting_def is_cancelling_def)
qed

theorem failed_turn_is_never_silent_witness:
  "\<exists>es. cx_log (snd (run_user_turn demo_world (demo_agent [RecvEvent (Error demo_error)]) demo_start demo_ctx)) = cx_log demo_ctx @ es
    \<and> list_ex shows_failure es"
proof -
  let ?run = "run_user_turn demo_world (demo_agent [RecvEvent (Error demo_error)]) demo_start demo_ctx"
  have "case fst ?run of Some result \<Rightarrow> tr_status result = TurnFailed | None \<Rightarrow> False" by code_simp
  then obtain result where run: "?run = (Some result, snd ?run)" "tr_status result = TurnFailed"
    by (cases ?run) (auto split: option.splits)
  show ?thesis
    by (rule failed_turn_is_never_silent [OF demo_orderly run]) (simp add: input_call_ids_def)
qed

text \<open>The example with a skill, and a cancellation from the second tick on, after the message was sent.\<close>

definition cancelled_world :: "unit World" where
  "cancelled_world = demo_world\<lparr>w_svc := (\<lambda>t. if t < 2 then new_runtime_state else mark_cancelling ''c1'' new_runtime_state),
     w_skill_captures := (\<lambda>_. [''pdf'']), w_load_skill_bodies := Some (map (\<lambda>name. (name, ''body'')))\<rparr>"

theorem cancelled_turn_sends_a_continuation:
  "filter is_sent (cx_log (snd (run_user_turn cancelled_world (demo_agent [RecvEvent (Text ''x''), RecvEvent (Finish None)]) demo_start demo_ctx))) =
     [Sent \<lparr>sd_content = ''hello'', sd_msg_id = ''m'', sd_turn_id = Some ''t1'', sd_files = [], sd_inject_skills = []\<rparr>,
      Sent \<lparr>sd_content = ''[Skill: pdf]'' @ [CHR 0x0A] @ ''body'', sd_msg_id = ''mxxxxxxxxxx'', sd_turn_id = Some ''t1'', sd_files = [],
        sd_inject_skills = []\<rparr>]"
  by code_simp

end
