(* ===== verification/Turn_Replay_Props.thy ===== *)
theory Turn_Replay_Props
  imports Turn_Props
begin

text \<open>
  The message of a turn is sent a second time only by a replay, and what the user has seen before a replay.
\<close>

section \<open>The messages a turn sends\<close>

text \<open>
  The effects of an attempt: the message comes first, if it is sent at all, and every further message has an
  id that was minted during the attempt.
\<close>

definition sends_first :: "'j World \<Rightarrow> SendMessageData \<Rightarrow> nat \<Rightarrow> 'j RelayCtx \<Rightarrow> 'j RelayCtx \<Rightarrow> bool" where
  "sends_first w send t c d \<longleftrightarrow> (\<exists>first rest. cx_log d = cx_log c @ first @ rest \<and> first \<in> {[], [Sent send]} \<and>
     (\<forall>m. Sent m \<in> set rest \<longrightarrow> (\<exists>t' \<ge> t. sd_msg_id m = w_mint w t')))"

lemma no_sent: "filter is_sent es = [] \<longleftrightarrow> (\<forall>m. Sent m \<notin> set es)"
  by (auto simp: filter_empty_conv) (metis is_sent.elims(2))

lemma silent_sends_first: "stretch 0 k c d \<Longrightarrow> sends_first w send t c d"
  by (force simp: stretch_def sends_first_def no_sent)

lemma sends_first_silent:
  assumes "sends_first w send t c d" and "stretch 0 k d e"
  shows "sends_first w send t c e"
proof -
  obtain first rest where "cx_log d = cx_log c @ first @ rest" "first \<in> {[], [Sent send]}"
    "\<forall>m. Sent m \<in> set rest \<longrightarrow> (\<exists>t' \<ge> t. sd_msg_id m = w_mint w t')"
    using assms(1) unfolding sends_first_def by blast
  moreover obtain es where "cx_log e = cx_log d @ es" "\<forall>m. Sent m \<notin> set es"
    using assms(2) unfolding stretch_def by (auto simp: no_sent)
  ultimately show ?thesis
    unfolding sends_first_def by (intro exI [of _ first] exI [of _ "rest @ es"]) auto
qed

lemma sends_first_log: "cx_log c' = cx_log c \<Longrightarrow> cx_log d' = cx_log d \<Longrightarrow> sends_first w send t c' d' = sends_first w send t c d"
  by (simp add: sends_first_def)

lemma round_sends:
  assumes "send_round w a input k t df i send msg_id summary c = (res, c1)"
  shows "sends_first w send n c c1"
proof -
  let ?s = "emit (Sent send) (tick c)"
  have "sends_first w send n c ?s"
    unfolding sends_first_def by (intro exI [of _ "[Sent send]"] exI [of _ "[]"]) simp
  moreover have "stretch 0 0 ?s (snd (consume_with_send_error w (relay_of input msg_id fe) inputs ?s))" for fe inputs
    using run_logs [of "relay_of input msg_id fe" "(initial_relay_state True, ?s)" w inputs]
    by (simp add: relay_of_def consume_with_send_error_def relay_stretch)
  ultimately have relay: "sends_first w send n c d" if "cx_log d = cx_log (snd (consume_with_send_error w (relay_of input msg_id fe) inputs ?s))" for d fe inputs
    using that sends_first_silent sends_first_log by blast
  have tip: "sends_first w send n c (persist_and_broadcast_send_failure_tip w conv err code (tick c))" for conv err code
    using silent_sends_first [OF tip_stretch [of "tick c" w conv err code]] by (simp add: sends_first_def)
  show ?thesis
    using assms tip relay by (auto simp: send_round_def Let_def split: option.splits sum.splits prod.splits) (metis session_key_log snd_conv)+
qed

lemma loop_sends:
  "msg_id \<in> ids_so_far w (given_ids a c0) c \<Longrightarrow>
   sends_first w send (cx_tick c) c (snd (send_loop w a input k t df i send msg_id summary c)) \<and>
   cx_tick c \<le> cx_tick (snd (send_loop w a input k t df i send msg_id summary c))"
proof (induction i send msg_id summary c rule: send_loop_rounds)
  case (1 i send msg_id summary c)
  obtain res c1 where round: "send_round w a input k t df i send msg_id summary c = (res, c1)" by fastforce
  have tick: "cx_tick c \<le> cx_tick c1" using grows_round [OF 1(2)] round by (metis snd_conv grows_def)
  note es = round_sends [OF round, of "cx_tick c"]
  from round show ?case
  proof (cases rule: send_loop_cases)
    case (continues lc outcome sm content)
    let ?id = "w_mint w (cx_tick c1)" and ?send = "continuation_send input content (w_mint w (cx_tick c1))"
    let ?x = "send_loop w a input k t df (Suc i) ?send ?id sm (tick c1)"
    have fs: "sends_first w ?send (Suc (cx_tick c1)) (tick c1) (snd ?x)" "Suc (cx_tick c1) \<le> cx_tick (snd ?x)"
      using 1(1) [OF continues(2), of ?id "tick c1" ?send sm] by simp_all
    obtain first rest where one: "cx_log c1 = cx_log c @ first @ rest" "first \<in> {[], [Sent send]}"
        "\<forall>m. Sent m \<in> set rest \<longrightarrow> (\<exists>t' \<ge> cx_tick c. sd_msg_id m = w_mint w t')"
      using es unfolding sends_first_def by blast
    obtain more others where two: "cx_log (snd ?x) = cx_log c1 @ more @ others" "more \<in> {[], [Sent ?send]}"
        "\<forall>m. Sent m \<in> set others \<longrightarrow> (\<exists>t' \<ge> Suc (cx_tick c1). sd_msg_id m = w_mint w t')"
      using fs(1) unfolding sends_first_def by auto
    have "\<exists>t' \<ge> cx_tick c. sd_msg_id m = w_mint w t'" if "Sent m \<in> set (rest @ more @ others)" for m
    proof -
      have "Sent m \<in> set rest \<or> m = ?send \<or> Sent m \<in> set others" using that two(2) by auto
      then consider "Sent m \<in> set rest" | "m = ?send" | "Sent m \<in> set others" by blast
      then show ?thesis
      proof cases
        case 2
        then show ?thesis using tick by (auto simp: continuation_send_def)
      next
        case 3
        then obtain t' where "t' \<ge> Suc (cx_tick c1)" "sd_msg_id m = w_mint w t'" using two(3) by blast
        then show ?thesis using tick by (intro exI [of _ t']) simp
      qed (use one(3) in blast)
    qed
    then have "sends_first w send (cx_tick c) c (snd ?x)"
      unfolding sends_first_def using one(1,2) two(1) by (intro exI [of _ first] exI [of _ "rest @ more @ others"]) simp
    then show ?thesis using continues(4) fs(2) tick by simp
  qed (use es tick in auto)
qed

lemma attempt_sends:
  assumes "msg_id \<in> ids_so_far w (given_ids a c0) c"
  shows "sends_first w send (cx_tick c) c (snd (run_attempt w a input k send msg_id df c)) \<and>
    cx_tick c \<le> cx_tick (snd (run_attempt w a input k send msg_id df c))"
proof (cases "aw_build a k")
  case (Inl failure)
  let ?rec = "record_agent_session_failure a (availability_agent_id (ti_build_options input)) ''session_build_failed''
    (send_error_display_message (af_send_error failure)) c"
  have rec: "stretch 0 0 c ?rec" "cx_tick ?rec = cx_tick c" by (simp_all add: record_agent_session_failure_def stretch_emit_after)
  have "sends_first w send (cx_tick c) c (persist_and_broadcast_send_failure_tip w conv err code ?rec)" for conv err code
    by (rule silent_sends_first [OF stretch_trans [OF rec(1) tip_stretch]]) simp_all
  moreover have "cx_tick c \<le> cx_tick (persist_and_broadcast_send_failure_tip w conv err code ?rec)" for conv err code
    using grows_tips(3) [of w "{}" ?rec conv err code] rec(2) by (simp add: grows_def)
  ultimately show ?thesis
    using Inl by (simp add: run_attempt_def Let_def)
next
  case (Inr agent)
  obtain res c1 where ws: "maybe_persist_workspace w (ti_conversation_id input) (ti_stored_workspace input) (ai_workspace agent) c = (res, c1)"
    by fastforce
  have c1: "cx_log c1 = cx_log c" "cx_tick c \<le> cx_tick c1"
    using workspace_log turn_grows(2) [of w "{}" c] ws by (metis snd_conv, metis snd_conv grows_def)
  have start: "sends_first w send (cx_tick c) c d" if "sends_first w send (cx_tick c1) c1 d" for d
    using that c1 unfolding sends_first_def by (metis le_trans)
  have id: "msg_id \<in> ids_so_far w (given_ids a c0) c1" using assms ids_so_far_mono [OF c1(2)] by blast
  have tip: "sends_first w send (cx_tick c1) c1 (persist_and_broadcast_send_failure_tip w conv err code c1)"
    "cx_tick c1 \<le> cx_tick (persist_and_broadcast_send_failure_tip w conv err code c1)" for conv err code
    using silent_sends_first [OF tip_stretch] grows_tips(3) [of w "{}" c1 conv err code] by (simp_all add: grows_def)
  show ?thesis
    using Inr ws start tip loop_sends [OF id] le_trans [OF c1(2)] by (cases res) (simp_all add: run_attempt_def Let_def)
qed

lemma last_attempt_sends:
  assumes "msg_id \<in> ids_so_far w (given_ids a c0) c"
    and "\<And>result c1. run_attempt w a input (if replayed then 1 else 0) send msg_id (\<not> replayed) c = (Some (Inr result), c1)
      \<Longrightarrow> \<not> replays w input replayed result c1"
  shows "sends_first w send (cx_tick c) c (snd (attempt_loop w a input send msg_id replayed auth c))"
proof -
  obtain res c1 where run: "run_attempt w a input (if replayed then 1 else 0) send msg_id (\<not> replayed) c = (res, c1)" by fastforce
  have c1: "sends_first w send (cx_tick c) c c1"
    using attempt_sends [OF assms(1), of send input _ "\<not> replayed"] run by (metis snd_conv)
  have "sends_first w send (cx_tick c) c (give_up w a input result c1)" "sends_first w send (cx_tick c) c (tick c1)" for result
    using sends_first_silent [OF c1 give_up_stretch] c1 by (simp_all add: sends_first_def)
  with c1 assms(2) run show ?thesis
    by (cases rule: attempt_loop_cases [OF run, where auth = auth]) auto
qed

lemma first_send_only:
  assumes "sends_first w send t c d" and "inj (w_mint w)" and "sd_msg_id send = w_mint w n" and "n < t"
  shows "\<exists>first rest. cx_log d = cx_log c @ first @ rest \<and> first \<in> {[], [Sent send]} \<and> Sent send \<notin> set rest"
  using assms unfolding sends_first_def by (metis injD leD)

definition finish_loop ::
  "'j World \<Rightarrow> 'j AgentWorld \<Rightarrow> TurnStartInput \<Rightarrow> TurnEnd option \<times> 'j RelayCtx \<Rightarrow> ConversationTurnResult option \<times> 'j RelayCtx" where
  "finish_loop w a input x =
     (case x of (None, c) \<Rightarrow> (None, c) | (Some e, c) \<Rightarrow> let (result, c) = finish_turn w a input e c in (Some result, c))"

definition turn_message :: "'j World \<Rightarrow> TurnStartInput \<Rightarrow> 'j RelayCtx \<Rightarrow> SendMessageData" where
  "turn_message w input c = \<lparr>sd_content = ti_content input, sd_msg_id = w_mint w (cx_tick c), sd_turn_id = Some (ti_turn_id input),
     sd_files = ti_files input, sd_inject_skills = ti_inject_skills input\<rparr>"

lemma run_user_turn_loop:
  "run_user_turn w a input c =
     finish_loop w a input (attempt_loop w a input (turn_message w input c) (w_mint w (cx_tick c)) False False (tick c))"
  by (simp add: run_user_turn_def finish_loop_def turn_message_def mint_msg_id_def)

lemma finish_loop_silent:
  "\<exists>ls. cx_log (snd (finish_loop w a input x)) = cx_log (snd x) @ ls \<and> (\<forall>m. Sent m \<notin> set ls)"
proof -
  obtain e c1 where x: "x = (e, c1)" by fastforce
  show ?thesis
  proof (cases e)
    case None
    then show ?thesis by (simp add: finish_loop_def x)
  next
    case (Some t)
    obtain result c' where fin: "finish_turn w a input t c1 = (result, c')" by fastforce
    obtain c2 d where f: "stretch 0 0 c1 c2" "c' = complete_released_turn w a (ti_conversation_id input) d (emit (ClaimReleased d) (tick c2))"
      by (rule finish_turn_form [OF fin])
    obtain post where "cx_log c' = cx_log c2 @ ClaimReleased d # post" "post = [] \<or> (\<exists>rt. post = [Broadcast (TurnCompleted rt)])"
      using completed_log [of w a "ti_conversation_id input" d "emit (ClaimReleased d) (tick c2)"] f(2) by auto
    moreover obtain es where "cx_log c2 = cx_log c1 @ es" "\<forall>m. Sent m \<notin> set es" using f(1) by (auto simp: stretch_def no_sent)
    ultimately show ?thesis using Some fin by (auto simp: finish_loop_def x)
  qed
qed

lemma count_again: "x \<in> set es \<Longrightarrow> 2 \<le> count_list (es @ x # fs) x"
  by (induction es) auto

lemma split_at_second:
  assumes "es @ x # fs = (x # zs) @ first @ ys" and "x \<in> set es" and "x \<notin> set zs" and "x \<notin> set ys" and "first \<in> {[], [x]}"
  shows "es = x # zs"
proof -
  have "count_list zs x = 0" "count_list ys x = 0" using assms(3,4) by (simp_all add: count_list_0_iff)
  then have "first = [x]" using assms(1,5) count_again [OF assms(2), of fs] by (auto simp: count_list_append)
  then have "es @ x # fs = (x # zs) @ x # ys" using assms(1) by simp
  then show ?thesis
    using assms(2-4) by (auto simp: append_eq_append_conv2 Cons_eq_append_conv append_eq_Cons_conv)
qed

lemma evict_log:
  "\<exists>es. cx_log (snd (evict_acp_task_after_terminal_error w a conv t outcome c)) = cx_log c @ es
     \<and> list_all (\<lambda>e. e \<in> {KilledTask, ClearedPersistedModel, ClearedModelSeed}) es
   \<and> cx_messages (snd (evict_acp_task_after_terminal_error w a conv t outcome c)) = cx_messages c
   \<and> cx_status (snd (evict_acp_task_after_terminal_error w a conv t outcome c)) = cx_status c
   \<and> cx_tick c \<le> cx_tick (snd (evict_acp_task_after_terminal_error w a conv t outcome c))"
  by (simp add: evict_acp_task_after_terminal_error_def clear_persisted_acp_model_after_model_not_found_def
      clear_conversation_model_seed_after_model_not_found_def Let_def)

lemma replay_ctx_facts:
  "quiet b c (replay_ctx w a input result c)" "cx_tick c \<le> cx_tick (replay_ctx w a input result c)"
  "\<exists>es. cx_log (replay_ctx w a input result c) = cx_log c @ es \<and> (\<forall>m. Sent m \<notin> set es)"
proof -
  define d where "d = snd (evict_acp_task_after_terminal_error w a (ti_conversation_id input) (ar_agent_type result) (ar_outcome result) (tick c))"
  obtain es where es: "cx_log d = cx_log c @ es" "list_all (\<lambda>e. e \<in> {KilledTask, ClearedPersistedModel, ClearedModelSeed}) es"
    "cx_messages d = cx_messages c" "cx_status d = cx_status c" "Suc (cx_tick c) \<le> cx_tick d"
    using evict_log [of w a "ti_conversation_id input" "ar_agent_type result" "ar_outcome result" "tick c"] by (auto simp: d_def)
  have "list_all (quiet_effect b) es" "\<forall>m. Sent m \<notin> set es" using es(2) by (auto simp: list_all_iff)
  then show "quiet b c (replay_ctx w a input result c)" "cx_tick c \<le> cx_tick (replay_ctx w a input result c)"
    "\<exists>es. cx_log (replay_ctx w a input result c) = cx_log c @ es \<and> (\<forall>m. Sent m \<notin> set es)"
    using es by (auto simp: replay_ctx_def d_def [symmetric] quiet_def)
qed

text \<open>The two ways a turn goes on after its first attempt.\<close>

lemma replays_facts:
  assumes "replays w input replayed result c"
  shows "safe_to_auto_replay (ar_summary result)" "ar_agent_type result = Acp" "retryable_terminal (ro_terminal (ar_outcome result))"
    "terminal_is_error (ro_terminal (ar_outcome result))"
  using assms by (auto simp: replays_def attempt_summary_outcome_def decide_recovery_def retryable_terminal_def Let_def split: if_splits)

lemma own_id: "cx_tick c < cx_tick e \<Longrightarrow> w_mint w (cx_tick c) \<in> ids_so_far w (given_ids a c) e"
  by (auto simp: ids_so_far_def)

lemma turn_without_replay:
  assumes "inj (w_mint w)" and "run_attempt w a input 0 (turn_message w input c) (w_mint w (cx_tick c)) True (tick c) = (res, c1)"
    and "\<And>result. res = Some (Inr result) \<Longrightarrow> \<not> replays w input False result c1"
  shows "\<exists>es. cx_log (snd (run_user_turn w a input c)) = cx_log c @ es \<and> count_list es (Sent (turn_message w input c)) \<le> 1"
proof -
  let ?m = "turn_message w input c" and ?id = "w_mint w (cx_tick c)"
  define loop where "loop = attempt_loop w a input ?m ?id False False (tick c)"
  have "sends_first w ?m (cx_tick (tick c)) (tick c) (snd loop)"
    unfolding loop_def by (rule last_attempt_sends [OF own_id]) (use assms in auto)
  then have "\<exists>first rest. cx_log (snd loop) = cx_log c @ first @ rest \<and> first \<in> {[], [Sent ?m]} \<and> Sent ?m \<notin> set rest"
    using first_send_only [OF _ assms(1), of ?m "cx_tick (tick c)" "tick c" "snd loop" "cx_tick c"] by (simp add: turn_message_def)
  then obtain first rest where sent: "cx_log (snd loop) = cx_log c @ first @ rest" "first \<in> {[], [Sent ?m]}" "count_list rest (Sent ?m) = 0"
    by (auto simp: count_list_0_iff)
  obtain ls where ls: "cx_log (snd (run_user_turn w a input c)) = cx_log (snd loop) @ ls" "count_list ls (Sent ?m) = 0"
    using finish_loop_silent [of w a input loop] by (auto simp: run_user_turn_loop loop_def count_list_0_iff)
  have "count_list (first @ rest @ ls) (Sent ?m) \<le> 1" using sent(2,3) ls(2) by (auto simp: count_list_append)
  then show ?thesis using sent(1) ls(1) by auto
qed

lemma turn_with_replay:
  assumes "inj (w_mint w)" and run: "run_attempt w a input 0 (turn_message w input c) (w_mint w (cx_tick c)) True (tick c) = (Some (Inr result), c1)"
    and replays: "replays w input False result c1"
  defines "d \<equiv> replay_ctx w a input result c1"
  shows "\<exists>es first rest. cx_log d = cx_log c @ Sent (turn_message w input c) # es \<and> (\<forall>m. Sent m \<notin> set es) \<and>
      cx_log (snd (run_user_turn w a input c)) = cx_log d @ first @ rest \<and> first \<in> {[], [Sent (turn_message w input c)]} \<and>
      Sent (turn_message w input c) \<notin> set rest"
    and "run_user_turn w a input c = finish_loop w a input
      (attempt_loop w a input (turn_message w input c) (w_mint w (cx_tick c)) True (terminal_is_auth_failure (ar_outcome result)) d)"
proof -
  let ?m = "turn_message w input c" and ?id = "w_mint w (cx_tick c)" and ?auth = "terminal_is_auth_failure (ar_outcome result)"
  define loop where "loop = attempt_loop w a input ?m ?id True ?auth d"
  have run': "run_attempt w a input (if False then 1 else 0) ?m ?id (\<not> False) (tick c) = (Some (Inr result), c1)" using run by simp
  have "attempt_loop w a input ?m ?id False False (tick c) = loop"
    by (cases rule: attempt_loop_cases [OF run', where auth = False]) (use replays replays_facts(4) [OF replays] in \<open>auto simp: loop_def d_def\<close>)
  then show turn: "run_user_turn w a input c = finish_loop w a input (attempt_loop w a input ?m ?id True ?auth d)"
    by (simp add: run_user_turn_loop loop_def)
  obtain ls where ls: "cx_log (snd (run_user_turn w a input c)) = cx_log (snd loop) @ ls" "Sent ?m \<notin> set ls"
    using finish_loop_silent [of w a input loop] by (auto simp: turn loop_def)
  obtain es1 where es1: "cx_log c1 = cx_log c @ Sent ?m # es1" "list_all relay_effect es1" using safe_attempt [OF run replays_facts(1) [OF replays]] by auto
  obtain es2 where es2: "cx_log d = cx_log c1 @ es2" "\<forall>m. Sent m \<notin> set es2" using replay_ctx_facts(3) [of w a input result c1] by (auto simp: d_def)
  have silent: "Sent m \<notin> set es1" for m using es1(2) by (auto simp: list_all_iff relay_effect_def)
  have "cx_tick c < cx_tick c1" using attempt_sends [OF own_id [of c "tick c" w a], of ?m input 0 True] run by simp
  then have tick: "cx_tick c < cx_tick d" using replay_ctx_facts(2) [of c1 w a input result] by (simp add: d_def)
  then have sent: "sends_first w ?m (cx_tick d) d (snd loop)"
    unfolding loop_def using last_attempt_sends [OF own_id [of c d w a], of input True ?m ?auth] replays_once by fastforce
  have "sd_msg_id ?m = w_mint w (cx_tick c)" by (simp add: turn_message_def)
  from first_send_only [OF sent assms(1) this tick]
  obtain first rest where "cx_log (snd loop) = cx_log d @ first @ rest" "first \<in> {[], [Sent ?m]}" "Sent ?m \<notin> set rest" by blast
  then show "\<exists>es first rest. cx_log d = cx_log c @ Sent ?m # es \<and> (\<forall>m. Sent m \<notin> set es) \<and>
      cx_log (snd (run_user_turn w a input c)) = cx_log d @ first @ rest \<and> first \<in> {[], [Sent ?m]} \<and> Sent ?m \<notin> set rest"
    using es1(1) es2 ls silent by (intro exI [of _ "es1 @ es2"] exI [of _ first] exI [of _ "rest @ ls"]) simp
qed

text \<open>
  C7: When the ids a turn draws are distinct, a turn sends its message a second time only by
  its replay, and only when the first attempt left nothing the user could act on: up to the
  second send the message was the only thing sent, and apart from the end of the attempt only
  diagnostics were broadcast or stored, no text, thinking, success tip, tool call or
  permission request; when the conversation stayed active, not even the end of the attempt was
  shown. From that point on the turn is the attempt loop entered as replayed.
\<close>

theorem message_is_repeated_only_when_nothing_was_shown:
  assumes mint: "inj (w_mint w)"
    and log: "cx_log (snd (run_user_turn w a input c)) = cx_log c @ es @ Sent (turn_message w input c) # fs"
    and again: "Sent (turn_message w input c) \<in> set es"
  shows "filter is_sent es = [Sent (turn_message w input c)] \<and>
    (\<exists>d auth. cx_log d = cx_log c @ es \<and> quiet True c d \<and>
    ((\<forall>t. lifecycle_for (w_svc w t) (ti_conversation_id input) = Active) \<longrightarrow> quiet False c d) \<and>
    run_user_turn w a input c =
      finish_loop w a input (attempt_loop w a input (turn_message w input c) (w_mint w (cx_tick c)) True auth d))"
proof -
  let ?m = "turn_message w input c"
  obtain res c1 where run: "run_attempt w a input 0 ?m (w_mint w (cx_tick c)) True (tick c) = (res, c1)" by fastforce
  have "\<exists>result. res = Some (Inr result) \<and> replays w input False result c1"
    using turn_without_replay [OF mint run] log count_again [OF again, of fs] by fastforce
  then obtain result where result: "res = Some (Inr result)" "replays w input False result c1" by blast
  let ?d = "replay_ctx w a input result c1"
  note turn = turn_with_replay [OF mint run [unfolded result(1)] result(2)]
  obtain es1 first rest where l: "cx_log ?d = cx_log c @ Sent ?m # es1" "\<forall>m. Sent m \<notin> set es1"
    "cx_log (snd (run_user_turn w a input c)) = cx_log ?d @ first @ rest" "first \<in> {[], [Sent ?m]}" "Sent ?m \<notin> set rest"
    using turn(1) by blast
  have es: "es = Sent ?m # es1"
    by (rule split_at_second [of es "Sent ?m" fs es1 first rest]) (use log l again in simp_all)
  have quiet: "quiet b c ?d" if "quiet b (tick c) c1" for b
    using that quiet_trans [OF _ replay_ctx_facts(1)] by (simp add: quiet_def)
  have "cx_log ?d = cx_log c @ es \<and> quiet True c ?d \<and>
      ((\<forall>t. lifecycle_for (w_svc w t) (ti_conversation_id input) = Active) \<longrightarrow> quiet False c ?d)"
    using l(1) \<open>es = Sent ?m # es1\<close> safe_attempt [OF run [unfolded result(1)] replays_facts(1) [OF result(2)]] replays_facts(2,3) [OF result(2)] quiet by blast
  moreover have "filter is_sent es1 = []" using l(2) by (simp add: no_sent)
  ultimately show ?thesis using turn(2) es by auto
qed

text \<open>An attempt with an agent that needs neither a workspace nor a mode begins with the message.\<close>

lemma attempt_begins:
  assumes "aw_build a k = Inr agent" "ai_workspace agent = []" "required_mode input = None"
  shows "appends (emit (Sent send) c) (snd (run_attempt w a input k send msg_id df c))"
proof -
  obtain res c1 where round: "send_round w a input k (ai_agent_type agent) df 0 send msg_id default_summary c = (res, c1)" by fastforce
  let ?s = "emit (Sent send) (tick c)"
  have "appends ?s (snd (consume_with_send_error w (relay_of input msg_id fe) inputs ?s))" for fe inputs
    using appends_intros(1) [OF run_logs, of "relay_of input msg_id fe" "(initial_relay_state True, ?s)" w inputs]
    by (simp add: relay_of_def consume_with_send_error_def)
  then have relay: "appends (emit (Sent send) c) d" if "cx_log d = cx_log (snd (consume_with_send_error w (relay_of input msg_id fe) inputs ?s))" for d fe inputs
    using that by (simp add: appends_def)
  have first: "appends (emit (Sent send) c) c1"
    using round assms(3) relay
    by (auto simp: send_round_def Let_def split: option.splits sum.splits prod.splits) (metis session_key_log snd_conv)+
  have later: "appends c1 (snd (send_loop w a input k t df (Suc 0) send' msg_id' summary (tick c1)))" for t send' msg_id' summary
    using appends_intros(2) [OF send_loop_stretch [of "Suc 0" "tick c1" w a input k t df send' msg_id' summary]]
    by (simp add: appends_def)
  have "appends c1 (snd (send_loop w a input k (ai_agent_type agent) df 0 send msg_id default_summary c))"
    by (cases rule: send_loop_cases [OF round]) (use later in simp_all)
  with first show ?thesis using assms(1,2) appends_trans by (auto simp: run_attempt_def maybe_persist_workspace_def)
qed

lemma last_attempt_begins:
  assumes "aw_build a 1 = Inr agent" "ai_workspace agent = []" "required_mode input = None"
  shows "appends (emit (Sent send) c) (snd (attempt_loop w a input send msg_id True auth c))"
proof -
  obtain res c1 where run: "run_attempt w a input (if True then 1 else 0) send msg_id (\<not> True) c = (res, c1)" by fastforce
  have c1: "appends (emit (Sent send) c) c1"
    using attempt_begins [OF assms, of send c w msg_id False] run by simp
  moreover have "appends (emit (Sent send) c) (tick c1)" using c1 by (simp add: appends_def)
  moreover have "appends (emit (Sent send) c) (give_up w a input result c1)" for result
    by (rule appends_trans [OF c1 give_up_appends])
  ultimately show ?thesis
    by (cases rule: attempt_loop_cases [OF run, where auth = auth]) simp_all
qed

theorem message_is_repeated_only_when_nothing_was_shown_witness:
  "\<exists>d auth es. cx_log d = cx_log demo_ctx @ Sent (turn_message demo_world demo_start demo_ctx) # es \<and>
    quiet False demo_ctx d \<and> run_user_turn demo_world (demo_agent [RecvEvent (Error demo_crash)]) demo_start demo_ctx =
      finish_loop demo_world (demo_agent [RecvEvent (Error demo_crash)]) demo_start (attempt_loop demo_world
        (demo_agent [RecvEvent (Error demo_crash)]) demo_start (turn_message demo_world demo_start demo_ctx) (w_mint demo_world (cx_tick demo_ctx)) True auth d)"
proof -
  let ?a = "demo_agent [RecvEvent (Error demo_crash)]" and ?m = "turn_message demo_world demo_start demo_ctx"
  let ?id = "w_mint demo_world (cx_tick demo_ctx)"
  let ?run = "run_attempt demo_world ?a demo_start 0 ?m ?id True (tick demo_ctx)"
  have mint: "inj (w_mint demo_world)" using demo_calm by (simp add: calm_def)
  have "case fst ?run of Some (Inr result) \<Rightarrow> replays demo_world demo_start False result (snd ?run) | _ \<Rightarrow> False"
    by code_simp
  then obtain result where run: "?run = (Some (Inr result), snd ?run)" "replays demo_world demo_start False result (snd ?run)"
    by (cases ?run) (auto split: option.splits sum.splits)
  define d where "d = replay_ctx demo_world ?a demo_start result (snd ?run)"
  define auth where "auth = terminal_is_auth_failure (ar_outcome result)"
  obtain es where es: "cx_log d = cx_log demo_ctx @ Sent ?m # es"
    and turn: "run_user_turn demo_world ?a demo_start demo_ctx = finish_loop demo_world ?a demo_start (attempt_loop demo_world ?a demo_start ?m ?id True auth d)"
    using turn_with_replay [OF mint run] unfolding d_def auth_def by blast
  have "appends (emit (Sent ?m) d) (snd (attempt_loop demo_world ?a demo_start ?m ?id True auth d))"
    by (rule last_attempt_begins) (auto simp: demo_agent_def demo_start_def required_mode_def)
  then obtain fs where "cx_log (snd (run_user_turn demo_world ?a demo_start demo_ctx)) = cx_log demo_ctx @ (Sent ?m # es) @ Sent ?m # fs"
    using finish_loop_silent [of demo_world ?a demo_start "attempt_loop demo_world ?a demo_start ?m ?id True auth d"] turn es by (auto simp: appends_def)
  moreover have "\<forall>t. lifecycle_for (w_svc demo_world t) (ti_conversation_id demo_start) = Active"
    by (simp add: demo_world_def new_runtime_state_def lifecycle_for_def is_shutting_down_def is_deleting_def is_cancelling_def)
  ultimately show ?thesis
    using message_is_repeated_only_when_nothing_was_shown [OF mint, of ?a demo_start demo_ctx "Sent ?m # es" fs] by auto
qed

end
