(* ===== verification/Auth_Limits.thy ===== *)
theory Auth_Limits
  imports Core_Prelude
begin

text \<open>
  The two in-memory guards of the authentication layer: the fixed-window rate limiter
  (\<open>crates/tjuaeui-auth/src/rate_limit.rs\<close>) and the one-time QR login tokens (\<open>qr_token.rs\<close>).
  A \<open>DashMap\<close> entry is locked while it is read and changed, so every operation is one step; the
  clock is an argument. Additions wrap, as in a release build.
\<close>

datatype AuthError =
    InvalidCredentials | WeakPassword string | InvalidUsername string | TokenExpired
  | TokenInvalid string | TokenBlacklisted | RateLimited | HashError string

section \<open>Rate limiter\<close>

record RateLimitEntry =
  re_count :: u32
  re_reset_time_ms :: u64

record RateLimiter =
  rl_entries :: "(string \<times> RateLimitEntry) list"
  rl_max_requests :: u32
  rl_window_ms :: u64

definition new_rate_limiter :: "u32 \<Rightarrow> u64 \<Rightarrow> RateLimiter" where
  "new_rate_limiter max_requests window_ms =
     \<lparr>rl_entries = [], rl_max_requests = max_requests, rl_window_ms = window_ms\<rparr>"

definition auth_limiter :: RateLimiter where
  "auth_limiter = new_rate_limiter 5 (15 * 60 * 1000)"

definition api_limiter :: RateLimiter where
  "api_limiter = new_rate_limiter 60 (60 * 1000)"

definition authenticated_action_limiter :: RateLimiter where
  "authenticated_action_limiter = new_rate_limiter 20 (60 * 1000)"

definition check_limit :: "u64 \<Rightarrow> string \<Rightarrow> RateLimiter \<Rightarrow> AuthError + unit" where
  "check_limit now key l =
     (case map_of (rl_entries l) key of
        Some entry \<Rightarrow>
          if now < re_reset_time_ms entry \<and> rl_max_requests l \<le> re_count entry then Inl RateLimited else Inr ()
      | None \<Rightarrow> Inr ())"

definition fresh_entry :: "u64 \<Rightarrow> RateLimiter \<Rightarrow> RateLimitEntry" where
  "fresh_entry now l = \<lparr>re_count = 0, re_reset_time_ms = now + rl_window_ms l\<rparr>"

definition current_entry :: "u64 \<Rightarrow> string \<Rightarrow> RateLimiter \<Rightarrow> RateLimitEntry" where
  "current_entry now key l =
     (let entry = or_default (fresh_entry now l) (map_of (rl_entries l) key)
      in if re_reset_time_ms entry \<le> now then fresh_entry now l else entry)"

definition put_entry :: "string \<Rightarrow> RateLimitEntry \<Rightarrow> RateLimiter \<Rightarrow> RateLimiter" where
  "put_entry key entry l = l\<lparr>rl_entries := AList.update key entry (rl_entries l)\<rparr>"

text \<open>Sums of 64-bit times wrap around, as in a release build; a debug build stops at an overflow.\<close>

definition check_and_increment :: "u64 \<Rightarrow> string \<Rightarrow> RateLimiter \<Rightarrow> (AuthError + unit) \<times> RateLimiter" where
  "check_and_increment now key l =
     (let entry = current_entry now key l
      in if rl_max_requests l \<le> re_count entry then (Inl RateLimited, put_entry key entry l)
         else (Inr (), put_entry key (entry\<lparr>re_count := re_count entry + 1\<rparr>) l))"

definition record_attempt :: "u64 \<Rightarrow> string \<Rightarrow> RateLimiter \<Rightarrow> RateLimiter" where
  "record_attempt now key l =
     (let entry = current_entry now key l in put_entry key (entry\<lparr>re_count := re_count entry + 1\<rparr>) l)"

definition cleanup_entries :: "u64 \<Rightarrow> RateLimiter \<Rightarrow> RateLimiter" where
  "cleanup_entries now l = l\<lparr>rl_entries := filter (\<lambda>(_, entry). now < re_reset_time_ms entry) (rl_entries l)\<rparr>"

text \<open>The login middleware: the limit is checked before the request, a failure recorded after it.\<close>

definition auth_middleware :: "u64 \<Rightarrow> u64 \<Rightarrow> bool \<Rightarrow> string \<Rightarrow> RateLimiter \<Rightarrow> (AuthError + unit) \<times> RateLimiter" where
  "auth_middleware now now' success ip l =
     (case check_limit now ip l of
        Inl e \<Rightarrow> (Inl e, l)
      | Inr _ \<Rightarrow> (Inr (), if success then l else record_attempt now' ip l))"

section \<open>QR tokens\<close>

definition QR_TOKEN_TTL_MS :: int where
  "QR_TOKEN_TTL_MS = 5 * 60 * 1000"

record QrTokenData =
  qt_created_at_ms :: int
  qt_used :: bool

type_synonym QrTokenStore = "(string \<times> QrTokenData) list"

definition hex_digit :: "nat \<Rightarrow> char" where
  "hex_digit n = ''0123456789abcdef'' ! n"

definition hex_byte :: "8 word \<Rightarrow> string" where
  "hex_byte b = [hex_digit (unat b div 16), hex_digit (unat b mod 16)]"

definition token_of :: "8 word list \<Rightarrow> string" where
  "token_of buf = concat (map hex_byte buf)"

definition generate_with_expiry :: "8 word list \<Rightarrow> int \<Rightarrow> QrTokenStore \<Rightarrow> (string \<times> int) \<times> QrTokenStore" where
  "generate_with_expiry buf now store =
     (let token = token_of buf
      in ((token, now + QR_TOKEN_TTL_MS), AList.update token \<lparr>qt_created_at_ms = now, qt_used = False\<rparr> store))"

definition validate_and_consume :: "int \<Rightarrow> string \<Rightarrow> QrTokenStore \<Rightarrow> (AuthError + unit) \<times> QrTokenStore" where
  "validate_and_consume now token store =
     (case map_of store token of
        None \<Rightarrow> (Inl (TokenInvalid ''Invalid QR token''), store)
      | Some entry \<Rightarrow>
          if qt_used entry then (Inl (TokenInvalid ''QR token already used''), store)
          else if i64_saturating_sub now (qt_created_at_ms entry) > QR_TOKEN_TTL_MS
          then (Inl (TokenInvalid ''QR token expired''), store)
          else (Inr (), AList.update token (entry\<lparr>qt_used := True\<rparr>) store))"

definition cleanup_tokens :: "int \<Rightarrow> QrTokenStore \<Rightarrow> QrTokenStore" where
  "cleanup_tokens now store =
     filter (\<lambda>(_, d). i64_saturating_sub now (qt_created_at_ms d) \<le> QR_TOKEN_TTL_MS) store"

section \<open>Runs of the rate limiter\<close>

datatype LimiterOp = Request string | Cleanup

text \<open>The requests a run of timed operations admits.\<close>

fun admitted :: "RateLimiter \<Rightarrow> (u64 \<times> LimiterOp) list \<Rightarrow> (u64 \<times> string) list" where
  "admitted l [] = []"
| "admitted l ((t, Request k) # ops) =
     (case check_and_increment t k l of
        (Inr _, l') \<Rightarrow> (t, k) # admitted l' ops
      | (Inl _, l') \<Rightarrow> admitted l' ops)"
| "admitted l ((t, Cleanup) # ops) = admitted (cleanup_entries t l) ops"

definition in_interval :: "u64 \<Rightarrow> u64 \<Rightarrow> u64 \<Rightarrow> bool" where
  "in_interval a w t \<longleftrightarrow> unat a \<le> unat t \<and> unat t < unat a + unat w"

definition admitted_for :: "string \<Rightarrow> u64 \<Rightarrow> RateLimiter \<Rightarrow> (u64 \<times> LimiterOp) list \<Rightarrow> nat" where
  "admitted_for key a l ops =
     length (filter (\<lambda>(t, k). k = key \<and> in_interval a (rl_window_ms l) t) (admitted l ops))"

definition entry_ok :: "string \<Rightarrow> RateLimiter \<Rightarrow> bool" where
  "entry_ok key l \<longleftrightarrow> keyed (rl_entries l) \<and>
     (\<forall>e. map_of (rl_entries l) key = Some e \<longrightarrow> re_count e \<le> rl_max_requests l)"

text \<open>What is left of the window of a key, and how many more requests it admits.\<close>

definition room :: "string \<Rightarrow> RateLimiter \<Rightarrow> nat" where
  "room key l = (case map_of (rl_entries l) key of
     None \<Rightarrow> unat (rl_max_requests l)
   | Some e \<Rightarrow> unat (rl_max_requests l) - unat (re_count e))"

lemma limiter_fields [simp]:
  "rl_window_ms (put_entry k e l) = rl_window_ms l" "rl_max_requests (put_entry k e l) = rl_max_requests l"
  "rl_window_ms (snd (check_and_increment t k l)) = rl_window_ms l"
  "rl_max_requests (snd (check_and_increment t k l)) = rl_max_requests l"
  "rl_window_ms (cleanup_entries t l) = rl_window_ms l"
  "rl_max_requests (cleanup_entries t l) = rl_max_requests l"
  by (simp_all add: put_entry_def check_and_increment_def cleanup_entries_def Let_def)

lemma put_entry_lookup [simp]:
  "map_of (rl_entries (put_entry k e l)) key = (if key = k then Some e else map_of (rl_entries l) key)"
  "keyed (rl_entries (put_entry k e l)) \<longleftrightarrow> keyed (AList.update k e (rl_entries l))"
  by (simp_all add: put_entry_def update_conv')

lemma current_entry_eq:
  "current_entry t k l = (case map_of (rl_entries l) k of
     Some e \<Rightarrow> if t < re_reset_time_ms e then e else fresh_entry t l
   | None \<Rightarrow> fresh_entry t l)"
  by (auto simp: current_entry_def Let_def not_le split: option.split)

lemma cleanup_lookup:
  "keyed (rl_entries l) \<Longrightarrow> map_of (rl_entries (cleanup_entries t l)) k =
     (case map_of (rl_entries l) k of None \<Rightarrow> None | Some e \<Rightarrow> if t < re_reset_time_ms e then Some e else None)"
  by (simp add: cleanup_entries_def map_of_filter_keyed)

lemma cleanup_keyed [simp]: "keyed (rl_entries l) \<Longrightarrow> keyed (rl_entries (cleanup_entries t l))"
  by (simp add: cleanup_entries_def)

section \<open>Cleaning up changes nothing\<close>

definition cleaned :: "u64 \<Rightarrow> RateLimiter \<Rightarrow> RateLimiter \<Rightarrow> bool" where
  "cleaned t l l' \<longleftrightarrow> keyed (rl_entries l) \<and> keyed (rl_entries l') \<and> rl_max_requests l' = rl_max_requests l
     \<and> rl_window_ms l' = rl_window_ms l
     \<and> (\<forall>k. map_of (rl_entries l') k = map_of (rl_entries l) k
          \<or> map_of (rl_entries l') k = None \<and> (\<exists>e. map_of (rl_entries l) k = Some e \<and> re_reset_time_ms e \<le> t))"

lemma cleaned_current: "cleaned t l l' \<Longrightarrow> t \<le> t' \<Longrightarrow> current_entry t' k l' = current_entry t' k l"
  unfolding cleaned_def current_entry_eq fresh_entry_def
  by (auto split: option.splits dest: spec [where x = k])

lemma cleaned_put: "cleaned t l l' \<Longrightarrow> t \<le> t' \<Longrightarrow> cleaned t' (put_entry k e l) (put_entry k e l')"
  by (auto simp: cleaned_def)

lemma cleaned_request:
  assumes "cleaned t l l'" "t \<le> t'"
  shows "fst (check_and_increment t' k l') = fst (check_and_increment t' k l)
    \<and> cleaned t' (snd (check_and_increment t' k l)) (snd (check_and_increment t' k l'))"
  using cleaned_current [OF assms, of k] cleaned_put [OF assms] assms(1)
  by (simp add: check_and_increment_def Let_def cleaned_def [of t])

lemma cleaned_cleanup: "cleaned t l l' \<Longrightarrow> t \<le> t' \<Longrightarrow> cleaned t' (cleanup_entries t' l) (cleanup_entries t' l')"
  unfolding cleaned_def
  by (auto simp: cleanup_lookup split: option.splits) (metis option.distinct(1) option.inject order.strict_trans1 not_le)+

lemma cleaned_admitted:
  "cleaned t l l' \<Longrightarrow> sorted (map fst ops) \<Longrightarrow> \<forall>x \<in> set ops. t \<le> fst x \<Longrightarrow> admitted l' ops = admitted l ops"
proof (induction l ops arbitrary: l' t rule: admitted.induct)
  case (2 l t' k ops)
  then have le: "t \<le> t'" and sorted: "sorted (map fst ops)" and all: "\<forall>x \<in> set ops. t' \<le> fst x" by auto
  note req = cleaned_request [OF 2(3) le, of k]
  obtain r m m' where m: "check_and_increment t' k l = (r, m)" "check_and_increment t' k l' = (r, m')"
    using req by (metis prod.collapse)
  with req have "cleaned t' m m'" by simp
  then show ?case
    using m 2(1,2) sorted all by (cases r) auto
next
  case (3 l t' ops)
  then have le: "t \<le> t'" and "sorted (map fst ops)" "\<forall>x \<in> set ops. t' \<le> fst x" by auto
  with 3(1) [OF cleaned_cleanup [OF 3(2) le]] show ?case by simp
qed simp

lemma cleanup_cleaned: "keyed (rl_entries l) \<Longrightarrow> cleaned t l (cleanup_entries t l)"
  by (auto simp: cleaned_def cleanup_lookup not_less split: option.splits)

section \<open>How many requests an interval admits\<close>

lemma admitted_times: "(t, k) \<in> set (admitted l ops) \<Longrightarrow> (t, Request k) \<in> set ops"
proof (induction l ops rule: admitted.induct)
  case (2 l t' k' ops)
  obtain r l' where res: "check_and_increment t' k' l = (r, l')" by fastforce
  with 2 show ?case by (cases r) auto
qed auto

lemma admitted_for_outside:
  assumes "\<And>x. x \<in> set ops \<Longrightarrow> \<not> in_interval a (rl_window_ms l) (fst x)"
  shows "admitted_for key a l ops = 0"
  using assms admitted_times [of _ _ l ops] by (force simp: admitted_for_def filter_empty_conv)

lemma admitted_for_Request:
  "admitted_for key a l ((t, Request k) # ops) =
     (if fst (check_and_increment t k l) = Inr () \<and> k = key \<and> in_interval a (rl_window_ms l) t then 1 else 0)
     + admitted_for key a (snd (check_and_increment t k l)) ops"
proof -
  obtain r l' where res: "check_and_increment t k l = (r, l')" by fastforce
  then have "rl_window_ms l' = rl_window_ms l" by (metis limiter_fields(3) snd_conv)
  with res show ?thesis by (cases r) (simp_all add: admitted_for_def)
qed

lemma admitted_for_Cleanup:
  "keyed (rl_entries l) \<Longrightarrow> sorted (map fst ((t, op) # ops)) \<Longrightarrow>
   admitted_for key a l ((t, Cleanup) # ops) = admitted_for key a l ops"
  by (simp add: admitted_for_def cleaned_admitted [OF cleanup_cleaned])

lemma request_other:
  "k \<noteq> key \<Longrightarrow> map_of (rl_entries (snd (check_and_increment t k l))) key = map_of (rl_entries l) key"
  by (simp add: check_and_increment_def Let_def)

lemma request_keyed [simp]: "keyed (rl_entries l) \<Longrightarrow> keyed (rl_entries (snd (check_and_increment t k l)))"
  by (simp add: check_and_increment_def Let_def)

lemma unat_inc: "c < m \<Longrightarrow> unat (c + 1) = unat c + 1 \<and> c + 1 \<le> m" for c m :: "'a::len word"
proof -
  assume "c < m"
  then have "unat c < unat m" by (simp add: word_less_nat_alt)
  moreover have "unat m < 2 ^ LENGTH('a)" by simp
  ultimately have "unat c + 1 < 2 ^ LENGTH('a)" by linarith
  then have "unat (c + 1) = unat c + 1" by (simp add: unat_word_ariths)
  with \<open>c < m\<close> show ?thesis by (simp add: word_less_nat_alt word_le_nat_alt)
qed

text \<open>A request of the key itself, by the entry it finds.\<close>

lemma request_same:
  fixes t :: u64
  assumes "entry_ok key l"
  defines "e \<equiv> current_entry t key l"
  shows "re_count e \<le> rl_max_requests l
    \<and> (fst (check_and_increment t key l) = Inr () \<longleftrightarrow> re_count e < rl_max_requests l)
    \<and> (\<exists>e'. map_of (rl_entries (snd (check_and_increment t key l))) key = Some e'
        \<and> re_reset_time_ms e' = re_reset_time_ms e
        \<and> unat (re_count e') = unat (re_count e) + (if re_count e < rl_max_requests l then 1 else 0)
        \<and> re_count e' \<le> rl_max_requests l)"
proof -
  have le: "re_count e \<le> rl_max_requests l"
    using assms by (auto simp: entry_ok_def current_entry_eq fresh_entry_def split: option.splits)
  then show ?thesis
    using unat_inc [of "re_count e" "rl_max_requests l"]
    by (auto simp: check_and_increment_def Let_def not_le e_def [symmetric])
qed

lemma entry_ok_request: "entry_ok key l \<Longrightarrow> entry_ok key (snd (check_and_increment t k l))"
  using request_same [of key l, where t = t] request_other [of k key t l]
  by (cases "k = key") (auto simp: entry_ok_def)

lemma room_le: "room key l \<le> unat (rl_max_requests l)"
  by (simp add: room_def split: option.split)

lemma full_window:
  assumes "entry_ok key l" and "map_of (rl_entries l) key = Some e"
    and "unat a + unat (rl_window_ms l) \<le> unat (re_reset_time_ms e)" and "sorted (map fst ops)"
  shows "admitted_for key a l ops \<le> unat (rl_max_requests l) - unat (re_count e)"
  using assms
proof (induction ops arbitrary: l e)
  case Nil
  then show ?case by (simp add: admitted_for_def)
next
  case (Cons x ops)
  obtain t op where x: "x = (t, op)" by (cases x)
  show ?case
  proof (cases "t < re_reset_time_ms e")
    case False
    then have "unat a + unat (rl_window_ms l) \<le> unat t" using Cons.prems(3) by (simp add: word_le_nat_alt not_less)
    then have "admitted_for key a l (x # ops) = 0"
      using Cons.prems(4) x by (intro admitted_for_outside) (auto simp: in_interval_def word_le_nat_alt)
    then show ?thesis by simp
  next
    case live: True
    show ?thesis
    proof (cases op)
      case Cleanup
      then show ?thesis
        using Cons.IH [OF Cons.prems(1-3)] Cons.prems(1,4) x admitted_for_Cleanup [of l t op ops key a]
        by (simp add: entry_ok_def)
    next
      case (Request k)
      let ?l = "snd (check_and_increment t k l)"
      show ?thesis
      proof (cases "k = key")
        case False
        then show ?thesis
          using Cons.IH [of ?l e] Cons.prems entry_ok_request x Request
          by (simp add: request_other admitted_for_Request)
      next
        case True
        have cur: "current_entry t key l = e" using live Cons.prems(2) by (simp add: current_entry_eq)
        obtain e' where e': "map_of (rl_entries ?l) key = Some e'" "re_reset_time_ms e' = re_reset_time_ms e"
            "unat (re_count e') = unat (re_count e) + (if re_count e < rl_max_requests l then 1 else 0)"
            "re_count e' \<le> rl_max_requests l"
          using request_same [OF Cons.prems(1), where t = t] True cur by auto
        have "admitted_for key a ?l ops \<le> unat (rl_max_requests l) - unat (re_count e')"
          using Cons.IH [of ?l e'] Cons.prems entry_ok_request [OF Cons.prems(1)] e' by simp
        then show ?thesis
          using request_same [OF Cons.prems(1), where t = t] e'(3,4) True cur x Request
          by (auto simp: admitted_for_Request word_less_nat_alt word_le_nat_alt split: if_splits)
      qed
    qed
  qed
qed

lemma room_other: "k \<noteq> key \<Longrightarrow> room key (snd (check_and_increment t k l)) = room key l"
  by (simp add: room_def request_other split: option.split)

text \<open>From a moment on: what is left of the current window, and then one more window.\<close>

lemma interval_from:
  assumes "entry_ok key l" "sorted (map fst ops)" "\<And>x. x \<in> set ops \<Longrightarrow> a \<le> fst x"
    and "\<And>x. x \<in> set ops \<Longrightarrow> unat (fst x) + unat (rl_window_ms l) < 2 ^ 64"
  shows "admitted_for key a l ops \<le> room key l + unat (rl_max_requests l)"
  using assms
proof (induction ops arbitrary: l)
  case Nil
  then show ?case by (simp add: admitted_for_def)
next
  case (Cons x ops)
  obtain t op where x: "x = (t, op)" by (cases x)
  show ?case
  proof (cases op)
    case Cleanup
    then show ?thesis
      using Cons.IH [OF Cons.prems(1)] Cons.prems x admitted_for_Cleanup [of l t op ops key a]
      by (simp add: entry_ok_def)
  next
    case (Request k)
    let ?l = "snd (check_and_increment t k l)"
    have ok: "entry_ok key ?l" by (rule entry_ok_request [OF Cons.prems(1)])
    have IH: "admitted_for key a ?l ops \<le> room key ?l + unat (rl_max_requests l)"
      using Cons.IH [OF ok] Cons.prems(2-4) by simp
    show ?thesis
    proof (cases "k = key")
      case False
      then show ?thesis using IH x Request by (simp add: room_other admitted_for_Request)
    next
      case True
      let ?e = "current_entry t key l"
      obtain e' where e': "map_of (rl_entries ?l) key = Some e'" "re_reset_time_ms e' = re_reset_time_ms ?e"
          "unat (re_count e') = unat (re_count ?e) + (if re_count ?e < rl_max_requests l then 1 else 0)"
          "re_count e' \<le> rl_max_requests l" "fst (check_and_increment t key l) = Inr () \<longleftrightarrow> re_count ?e < rl_max_requests l"
        using request_same [OF Cons.prems(1), where t = t] True by auto
      show ?thesis
      proof (cases "\<exists>e. map_of (rl_entries l) key = Some e \<and> t < re_reset_time_ms e")
        case live: True
        then have "room key l = unat (rl_max_requests l) - unat (re_count ?e)"
          by (auto simp: room_def current_entry_eq)
        then show ?thesis
          using IH e' x Request True
          by (auto simp: admitted_for_Request room_def word_less_nat_alt word_le_nat_alt split: if_splits)
      next
        case False
        then have fresh: "?e = fresh_entry t l" by (auto simp: current_entry_eq split: option.split)
        have "unat (t + rl_window_ms l) = unat t + unat (rl_window_ms l)"
          using Cons.prems(4) [of x] x by (simp add: unat_word_ariths)
        moreover have "unat a \<le> unat t" using Cons.prems(3) [of x] x by (simp add: word_le_nat_alt)
        ultimately have "admitted_for key a ?l ops \<le> unat (rl_max_requests l) - unat (re_count e')"
          using full_window [OF ok e'(1), of a ops] e'(2) fresh Cons.prems(2) by (simp add: fresh_entry_def)
        then show ?thesis
          using e' x Request True
          by (auto simp: admitted_for_Request word_less_nat_alt word_le_nat_alt split: if_splits)
      qed
    qed
  qed
qed

lemma any_interval:
  assumes "entry_ok key l" "sorted (map fst ops)"
    and "\<And>x. x \<in> set ops \<Longrightarrow> unat (fst x) + unat (rl_window_ms l) < 2 ^ 64"
  shows "admitted_for key a l ops \<le> 2 * unat (rl_max_requests l)"
  using assms
proof (induction ops arbitrary: l)
  case Nil
  then show ?case by (simp add: admitted_for_def)
next
  case (Cons x ops)
  obtain t op where x: "x = (t, op)" by (cases x)
  show ?case
  proof (cases "a \<le> t")
    case True
    then have "admitted_for key a l (x # ops) \<le> room key l + unat (rl_max_requests l)"
      using Cons.prems x by (intro interval_from) auto
    then show ?thesis using room_le [of key l] by simp
  next
    case False
    then have "\<not> in_interval a (rl_window_ms l) t" by (simp add: in_interval_def word_le_nat_alt)
    then show ?thesis
      using Cons.IH [OF Cons.prems(1)] Cons.IH [OF entry_ok_request [OF Cons.prems(1)]] Cons.prems x
        admitted_for_Cleanup [of l t op ops key a]
      by (cases op) (auto simp: admitted_for_Request entry_ok_def)
  qed
qed

section \<open>A refusal is earned\<close>

fun limiter_after :: "RateLimiter \<Rightarrow> (u64 \<times> LimiterOp) list \<Rightarrow> RateLimiter" where
  "limiter_after l [] = l"
| "limiter_after l ((t, Request k) # ops) = limiter_after (snd (check_and_increment t k l)) ops"
| "limiter_after l ((t, Cleanup) # ops) = limiter_after (cleanup_entries t l) ops"

lemma after_snoc:
  "limiter_after l (ops @ [(t, op)]) = (case op of
     Request k \<Rightarrow> snd (check_and_increment t k (limiter_after l ops)) | Cleanup \<Rightarrow> cleanup_entries t (limiter_after l ops))"
  by (induction l ops rule: limiter_after.induct) (simp_all split: LimiterOp.split)

lemma admitted_snoc:
  "admitted l (ops @ [(t, op)]) = admitted l ops @ (case op of
     Request k \<Rightarrow> (if fst (check_and_increment t k (limiter_after l ops)) = Inr () then [(t, k)] else []) | Cleanup \<Rightarrow> [])"
proof (induction l ops rule: limiter_after.induct)
  case (1 l)
  show ?case by (auto split: LimiterOp.split prod.split sum.split)
next
  case (2 l t' k ops)
  obtain r l' where res: "check_and_increment t' k l = (r, l')" by fastforce
  with 2 show ?case by (cases r) (simp_all split: LimiterOp.split)
qed (simp split: LimiterOp.split)

lemma limiter_after_fields [simp]:
  "rl_window_ms (limiter_after l ops) = rl_window_ms l" "rl_max_requests (limiter_after l ops) = rl_max_requests l"
  by (induction l ops rule: limiter_after.induct) simp_all

definition window_count :: "string \<Rightarrow> nat \<Rightarrow> (u64 \<times> string) list \<Rightarrow> nat" where
  "window_count key start adm = length (filter (\<lambda>(t, k). k = key \<and> start \<le> unat t) adm)"

lemma count_is_admitted:
  assumes "keyed (rl_entries l)" "map_of (rl_entries l) key = None" "sorted (map fst ops)"
    and "\<And>x. x \<in> set ops \<Longrightarrow> unat (fst x) + unat (rl_window_ms l) < 2 ^ 64"
  shows "keyed (rl_entries (limiter_after l ops)) \<and>
    (\<forall>e. map_of (rl_entries (limiter_after l ops)) key = Some e \<longrightarrow>
       (\<exists>x \<in> set ops. unat (re_reset_time_ms e) = unat (fst x) + unat (rl_window_ms l)
          \<and> unat (re_count e) \<le> window_count key (unat (fst x)) (admitted l ops)))"
  using assms(3,4)
proof (induction ops rule: rev_induct)
  case Nil
  then show ?case using assms(1,2) by simp
next
  case (snoc x ops)
  obtain t op where x: "x = (t, op)" by (cases x)
  let ?m = "limiter_after l ops"
  have IH: "keyed (rl_entries ?m)"
    "\<And>e. map_of (rl_entries ?m) key = Some e \<Longrightarrow>
       \<exists>y \<in> set ops. unat (re_reset_time_ms e) = unat (fst y) + unat (rl_window_ms l)
          \<and> unat (re_count e) \<le> window_count key (unat (fst y)) (admitted l ops)"
    using snoc by (auto simp: sorted_append)
  have no_wrap: "unat (t + rl_window_ms l) = unat t + unat (rl_window_ms l)"
    using snoc.prems(2) [of x] x by (simp add: unat_word_ariths)
  show ?case
  proof (cases op)
    case Cleanup
    then show ?thesis using IH x by (auto simp: after_snoc admitted_snoc cleanup_lookup split: option.splits if_splits)
  next
    case (Request k)
    show ?thesis
    proof (cases "k = key")
      case False
      then show ?thesis
        using IH x Request by (fastforce simp: after_snoc admitted_snoc request_other window_count_def)
    next
      case True
      let ?e = "current_entry t key ?m"
      have fresh_case: "?e = fresh_entry t ?m \<or> map_of (rl_entries ?m) key = Some ?e"
        by (auto simp: current_entry_eq split: option.split)
      obtain y where y: "y \<in> set (ops @ [x])" "unat (re_reset_time_ms ?e) = unat (fst y) + unat (rl_window_ms l)"
          "unat (re_count ?e) \<le> window_count key (unat (fst y)) (admitted l ops)"
        using fresh_case
      proof
        assume "?e = fresh_entry t ?m"
        then show thesis using that [of x] no_wrap x by (simp add: fresh_entry_def)
      next
        assume "map_of (rl_entries ?m) key = Some ?e"
        then show thesis using IH(2) that by auto
      qed
      have "unat (fst y) \<le> unat t" using y(1) snoc.prems(1) x by (auto simp: sorted_append word_le_nat_alt [symmetric])
      then have counted: "window_count key (unat (fst y)) (admitted l (ops @ [x])) =
          window_count key (unat (fst y)) (admitted l ops) + (if re_count ?e < rl_max_requests l then 1 else 0)"
        by (simp add: x Request True admitted_snoc window_count_def check_and_increment_def Let_def not_less)
      have "unat (re_count ?e + 1) = unat (re_count ?e) + 1" if "re_count ?e < rl_max_requests l"
        using unat_inc [OF that] by simp
      then have "re_reset_time_ms e = re_reset_time_ms ?e \<and>
          unat (re_count e) \<le> window_count key (unat (fst y)) (admitted l (ops @ [x]))"
        if "map_of (rl_entries (limiter_after l (ops @ [x]))) key = Some e" for e
        using that y(3) counted
        by (auto simp: x Request True after_snoc check_and_increment_def Let_def not_le split: if_splits)
      moreover have "keyed (rl_entries (limiter_after l (ops @ [x])))"
        using IH(1) by (simp add: x Request after_snoc)
      ultimately show ?thesis using y(1,2) by metis
    qed
  qed
qed

lemma window_count_mono: "n \<le> m \<Longrightarrow> window_count key m adm \<le> window_count key n adm"
  unfolding window_count_def by (induction adm) auto

lemma refused_iff:
  "fst (check_and_increment t k l) = Inl RateLimited \<longleftrightarrow> rl_max_requests l \<le> re_count (current_entry t k l)"
  by (simp add: check_and_increment_def Let_def)

section \<open>Runs of the token store\<close>

datatype QrOp = Generate "8 word list" | Validate string | Sweep

text \<open>The store after an operation, and after a run of timed operations.\<close>

definition qr_step :: "int \<times> QrOp \<Rightarrow> QrTokenStore \<Rightarrow> QrTokenStore" where
  "qr_step x store = (case snd x of
     Generate buf \<Rightarrow> snd (generate_with_expiry buf (fst x) store)
   | Validate token \<Rightarrow> snd (validate_and_consume (fst x) token store)
   | Sweep \<Rightarrow> cleanup_tokens (fst x) store)"

lemma qr_step_keyed [simp]: "keyed s \<Longrightarrow> keyed (qr_step x s)"
  by (simp add: qr_step_def generate_with_expiry_def validate_and_consume_def cleanup_tokens_def Let_def
      split: QrOp.split option.split)

lemma fold_qr_keyed [simp]: "keyed s \<Longrightarrow> keyed (fold qr_step ops s)"
  by (induction ops arbitrary: s) simp_all

lemma i64_saturating_sub_exact:
  "0 \<le> a \<Longrightarrow> 0 \<le> b \<Longrightarrow> a < 2 ^ 63 \<Longrightarrow> b < 2 ^ 63 \<Longrightarrow> i64_saturating_sub a b = a - b"
  by (simp add: i64_saturating_sub_def)

text \<open>A token that is not generated again: what later operations make of its entry.\<close>

lemma qr_step_lookup:
  assumes "keyed s" "\<And>buf. snd x = Generate buf \<Longrightarrow> token_of buf \<noteq> token"
  shows "map_of (qr_step x s) token = (case map_of s token of
      None \<Rightarrow> None
    | Some d \<Rightarrow>
        if snd x = Sweep \<and> i64_saturating_sub (fst x) (qt_created_at_ms d) > QR_TOKEN_TTL_MS then None
        else if snd x = Validate token \<and> i64_saturating_sub (fst x) (qt_created_at_ms d) \<le> QR_TOKEN_TTL_MS
        then Some (d\<lparr>qt_used := True\<rparr>) else Some d)"
  using assms
  by (auto simp: qr_step_def generate_with_expiry_def validate_and_consume_def cleanup_tokens_def Let_def
      update_conv' map_of_filter_keyed split: QrOp.split option.split)

lemma qr_run_lookup:
  assumes "keyed s" "map_of s token = Some d" "0 \<le> qt_created_at_ms d" "qt_created_at_ms d < 2 ^ 63"
    and "list_all (\<lambda>x. 0 \<le> fst x \<and> fst x < 2 ^ 63 \<and> fst x - qt_created_at_ms d \<le> QR_TOKEN_TTL_MS
           \<and> (case snd x of Generate buf \<Rightarrow> token_of buf \<noteq> token | _ \<Rightarrow> True)) ops"
  shows "map_of (fold qr_step ops s) token = Some (d\<lparr>qt_used := qt_used d \<or> Validate token \<in> snd ` set ops\<rparr>)"
  using assms
proof (induction ops arbitrary: s d)
  case (Cons x ops)
  have gen: "\<And>buf. snd x = Generate buf \<Longrightarrow> token_of buf \<noteq> token" using Cons.prems(5) by auto
  have in_time: "i64_saturating_sub (fst x) (qt_created_at_ms d) \<le> QR_TOKEN_TTL_MS"
    using Cons.prems(3-5) by (simp add: i64_saturating_sub_exact)
  let ?d = "if snd x = Validate token then d\<lparr>qt_used := True\<rparr> else d"
  have "map_of (qr_step x s) token = Some ?d"
    using qr_step_lookup [OF Cons.prems(1) gen] Cons.prems(2) in_time by auto
  then show ?case
    using Cons.IH [of "qr_step x s" ?d] Cons.prems by auto
qed simp

lemma qr_run_expired:
  assumes "keyed s" "map_of s token = None \<or> (\<exists>d. map_of s token = Some d \<and> qt_created_at_ms d = created)"
    and "list_all (\<lambda>x. case snd x of Generate buf \<Rightarrow> token_of buf \<noteq> token | _ \<Rightarrow> True) ops"
  shows "map_of (fold qr_step ops s) token = None
    \<or> (\<exists>d. map_of (fold qr_step ops s) token = Some d \<and> qt_created_at_ms d = created)"
  using assms
proof (induction ops arbitrary: s)
  case (Cons x ops)
  have gen: "\<And>buf. snd x = Generate buf \<Longrightarrow> token_of buf \<noteq> token" using Cons.prems(3) by auto
  have "map_of (qr_step x s) token = None
    \<or> (\<exists>d. map_of (qr_step x s) token = Some d \<and> qt_created_at_ms d = created)"
    using qr_step_lookup [OF Cons.prems(1) gen] Cons.prems(2) by (auto split: option.split)
  then show ?case using Cons.IH [of "qr_step x s"] Cons.prems by simp
qed simp

section \<open>The guards keep what they promise\<close>

text \<open>
  C31: Over any run of requests and clean-ups with a clock that does not go back and at whose
  times the end of a window is below 2^64 (no sum of a time and the window overflows), the
  limiter admits for one key at most twice its maximum within any interval of the window's
  length.
\<close>

theorem rate_limit_admits_at_most_two_windows:
  assumes "sorted (map fst ops)" "list_all (\<lambda>x. unat (fst x) + unat window_ms < 2 ^ 64) ops"
  shows "admitted_for key a (new_rate_limiter max_requests window_ms) ops \<le> 2 * unat max_requests"
  using any_interval [of key "new_rate_limiter max_requests window_ms" ops a] assms
  by (simp add: new_rate_limiter_def entry_ok_def list_all_iff)

theorem rate_limit_admits_at_most_two_windows_witness:
  "admitted_for ''ip'' 50 (new_rate_limiter 2 100)
     [(0, Request ''ip''), (90, Request ''ip''), (95, Request ''ip''), (100, Request ''ip''), (110, Request ''ip''),
      (120, Request ''ip'')] \<le> 4"
  using rate_limit_admits_at_most_two_windows [of
    "[(0, Request ''ip''), (90, Request ''ip''), (95, Request ''ip''), (100, Request ''ip''), (110, Request ''ip''),
      (120, Request ''ip'')]" 100 "''ip''" 50 2] by simp

theorem refusal_is_earned:
  assumes "sorted (map fst (ops @ [(t, Request key)]))"
    and "list_all (\<lambda>x. unat (fst x) + unat window_ms < 2 ^ 64) ops"
    and "0 < max_requests"
    and "fst (check_and_increment t key (limiter_after (new_rate_limiter max_requests window_ms) ops)) = Inl RateLimited"
  shows "unat max_requests \<le> window_count key (unat t + 1 - unat window_ms)
           (admitted (new_rate_limiter max_requests window_ms) ops)"
proof -
  let ?l = "new_rate_limiter max_requests window_ms"
  let ?e = "current_entry t key (limiter_after ?l ops)"
  have fields: "rl_max_requests ?l = max_requests" "rl_window_ms ?l = window_ms" "rl_entries ?l = []"
    by (simp_all add: new_rate_limiter_def)
  have full: "max_requests \<le> re_count ?e" using assms(4) by (simp add: refused_iff fields)
  then have "re_count ?e \<noteq> 0" using assms(3) by (metis not_le)
  then have e: "map_of (rl_entries (limiter_after ?l ops)) key = Some ?e" "t < re_reset_time_ms ?e"
    by (auto simp: current_entry_eq fresh_entry_def split: option.splits if_splits)
  then obtain x where x: "x \<in> set ops" "unat (re_reset_time_ms ?e) = unat (fst x) + unat window_ms"
      "unat (re_count ?e) \<le> window_count key (unat (fst x)) (admitted ?l ops)"
    using count_is_admitted [of ?l key ops] assms(1,2) by (auto simp: fields list_all_iff sorted_append)
  have "unat t + 1 - unat window_ms \<le> unat (fst x)" using e(2) x(2) by (simp add: word_less_nat_alt)
  from window_count_mono [OF this, of key] x(3) full show ?thesis
    by (simp add: word_le_nat_alt) (meson le_trans)
qed

theorem refusal_is_earned_witness:
  "unat (2 :: u32) \<le> window_count ''ip'' (unat (95 :: u64) + 1 - unat (100 :: u64))
     (admitted (new_rate_limiter 2 100) [(0, Request ''ip''), (90, Request ''ip'')])"
proof (rule refusal_is_earned)
  show "fst (check_and_increment 95 ''ip''
      (limiter_after (new_rate_limiter 2 100) [(0, Request ''ip''), (90, Request ''ip'')])) = Inl RateLimited"
    by (simp add: check_and_increment_def new_rate_limiter_def current_entry_eq fresh_entry_def put_entry_def Let_def)
qed simp_all

theorem failed_logins_are_limited_like_requests:
  assumes "0 < rl_max_requests l"
  shows "fst (auth_middleware t t False ip l) = fst (check_and_increment t ip l)
    \<and> map_of (rl_entries (snd (auth_middleware t t False ip l))) = map_of (rl_entries (snd (check_and_increment t ip l)))
    \<and> auth_middleware t t True ip l = (fst (check_and_increment t ip l), l)"
proof -
  have "check_limit t ip l = fst (check_and_increment t ip l)"
    using assms
    by (auto simp: check_limit_def check_and_increment_def Let_def current_entry_eq fresh_entry_def not_le
        split: option.split)
  moreover have "map_of (rl_entries l) = map_of (rl_entries (snd (check_and_increment t ip l)))"
    if "check_limit t ip l \<noteq> Inr ()"
    using that
    by (auto simp: check_limit_def check_and_increment_def Let_def current_entry_eq put_entry_def update_conv'
        fun_upd_idem split: option.splits if_splits)
  moreover have "record_attempt t ip l = snd (check_and_increment t ip l)" if "fst (check_and_increment t ip l) = Inr ()"
    using that by (simp add: record_attempt_def check_and_increment_def Let_def split: if_splits)
  ultimately show ?thesis
    by (cases "fst (check_and_increment t ip l)") (simp_all add: auth_middleware_def)
qed

theorem failed_logins_are_limited_like_requests_witness:
  "fst (auth_middleware 7 7 False ''ip'' auth_limiter) = fst (check_and_increment 7 ''ip'' auth_limiter)"
  using failed_logins_are_limited_like_requests [of auth_limiter 7 "''ip''"]
  by (simp add: auth_limiter_def new_rate_limiter_def)

theorem qr_token_logs_in_once:
  assumes "keyed store" "sorted (map fst ((t0, Generate buf) # mid @ [(t, Validate (token_of buf))]))"
    and "0 \<le> t0" "t < 2 ^ 63"
    and "list_all (\<lambda>x. case snd x of Generate buf' \<Rightarrow> token_of buf' \<noteq> token_of buf | _ \<Rightarrow> True) mid"
  shows "fst (validate_and_consume t (token_of buf) (fold qr_step ((t0, Generate buf) # mid) store)) = Inr ()
    \<longleftrightarrow> t - t0 \<le> QR_TOKEN_TTL_MS \<and> Validate (token_of buf) \<notin> snd ` set mid"
proof -
  let ?d = "\<lparr>qt_created_at_ms = t0, qt_used = False\<rparr>"
  let ?s = "qr_step (t0, Generate buf) store"
  have s: "keyed ?s" "map_of ?s (token_of buf) = Some ?d"
    using assms(1) by (simp_all add: qr_step_def generate_with_expiry_def Let_def update_conv')
  have times: "t0 \<le> t" "list_all (\<lambda>x. t0 \<le> fst x \<and> fst x \<le> t) mid"
    using assms(2) by (auto simp: list_all_iff sorted_append)
  show ?thesis
  proof (cases "t - t0 \<le> QR_TOKEN_TTL_MS")
    case True
    then have "list_all (\<lambda>x. 0 \<le> fst x \<and> fst x < 2 ^ 63 \<and> fst x - qt_created_at_ms ?d \<le> QR_TOKEN_TTL_MS
           \<and> (case snd x of Generate buf' \<Rightarrow> token_of buf' \<noteq> token_of buf | _ \<Rightarrow> True)) mid"
      using assms(3-5) times by (force simp: list_all_iff)
    then show ?thesis
      using qr_run_lookup [OF s] True assms(3,4) times(1)
      by (simp add: validate_and_consume_def i64_saturating_sub_exact)
  next
    case False
    then show ?thesis
      using qr_run_expired [OF s(1) _ assms(5), where created = t0] s(2) assms(3,4) times(1)
      by (auto simp: validate_and_consume_def i64_saturating_sub_exact split: if_splits)
  qed
qed

theorem qr_token_logs_in_once_witness:
  "fst (validate_and_consume 9 (token_of [171, 7]) (fold qr_step [(2, Generate [171, 7]), (5, Sweep)] [])) = Inr ()
   \<and> fst (validate_and_consume 9 (token_of [171, 7])
        (fold qr_step [(2, Generate [171, 7]), (5, Validate (token_of [171, 7]))] [])) \<noteq> Inr ()"
  using qr_token_logs_in_once [of "[]" 2 "[171, 7]" "[(5, Sweep)]" 9]
    qr_token_logs_in_once [of "[]" 2 "[171, 7]" "[(5, Validate (token_of [171, 7]))]" 9]
  by (simp add: QR_TOKEN_TTL_MS_def)

lemma hex_digit_inj: "m < 16 \<Longrightarrow> n < 16 \<Longrightarrow> hex_digit m = hex_digit n \<longleftrightarrow> m = n"
  unfolding hex_digit_def by (subst nth_eq_iff_index_eq) simp_all

lemma hex_byte_inj: "hex_byte b = hex_byte c \<longleftrightarrow> b = c"
proof -
  have "unat x div 16 < 16" for x :: "8 word"
    using unsigned_less [where ?'a = nat, of x] by (simp add: less_mult_imp_div_less)
  then have "hex_byte b = hex_byte c \<longleftrightarrow> unat b div 16 = unat c div 16 \<and> unat b mod 16 = unat c mod 16"
    by (simp add: hex_byte_def hex_digit_inj)
  also have "\<dots> \<longleftrightarrow> unat b = unat c" by (metis div_mult_mod_eq)
  finally show ?thesis by (metis unsigned_word_eqI)
qed

theorem tokens_determine_their_bytes:
  "length (token_of buf) = 2 * length buf \<and> (token_of buf = token_of buf' \<longleftrightarrow> buf = buf')"
proof -
  have len: "length (token_of xs) = 2 * length xs" for xs
    by (induction xs) (simp_all add: token_of_def hex_byte_def)
  have cons: "token_of (b # bs) = token_of (c # cs) \<longleftrightarrow> b = c \<and> token_of bs = token_of cs" for b c bs cs
    using hex_byte_inj [of b c] by (simp add: token_of_def hex_byte_def) blast
  have "token_of xs = token_of ys \<Longrightarrow> xs = ys" for xs ys
  proof (induction xs arbitrary: ys)
    case Nil
    then show ?case by (cases ys) (simp_all add: token_of_def hex_byte_def)
  next
    case (Cons x xs)
    then show ?case using len [of ys] len [of "x # xs"] cons by (cases ys) auto
  qed
  with len show ?thesis by blast
qed

end
