(* ===== verification/Agent_Tasks.thy ===== *)
theory Agent_Tasks
  imports Turn_Orchestrator Auth_Limits
begin

text \<open>
  The running agents of the conversations: the foreground leases
  (\<open>crates/tjuaeui-ai-agent/src/active_lease.rs\<close>), the tokens agents of a team authenticate with
  (\<open>runtime_token.rs\<close>), the task manager that builds, shares and kills agents (\<open>task_manager.rs\<close>), and
  the scan that kills idle ones (\<open>idle_scanner.rs\<close>, with the team's part in
  \<open>tjuaeui-team/src/service.rs\<close>).

  A task slot is a tokio \<open>OnceCell\<close> on the heap that the map of tasks and the calls in flight share;
  a slot is therefore an address. Of a cell the documentation is modelled: one caller at a time has the
  permit to initialise it, a failed or dropped initialisation leaves it empty for the next, and a value is
  set once. A call of \<open>get_or_build_task\<close> is a small state machine, with one state for every point
  at which other calls can run. The clock, the random bytes, the result of the factory, the result of
  killing an agent, and the type, status and last activity of an agent are arguments. SHA-256 is a parameter.
\<close>

section \<open>Foreground leases\<close>

definition ACTIVE_LEASE_TTL_MS :: TimestampMs where
  "ACTIVE_LEASE_TTL_MS = 90000"

record ActiveLeaseRegistry =
  al_leases :: "(string \<times> TimestampMs) list"
  al_ttl_ms :: TimestampMs

definition with_ttl_ms :: "TimestampMs \<Rightarrow> ActiveLeaseRegistry" where
  "with_ttl_ms ttl = \<lparr>al_leases = [], al_ttl_ms = ttl\<rparr>"

definition renew :: "TimestampMs \<Rightarrow> string \<Rightarrow> ActiveLeaseRegistry \<Rightarrow> TimestampMs \<times> ActiveLeaseRegistry" where
  "renew now conv reg =
     (let expires_at = i64_saturating_add now (al_ttl_ms reg)
      in (expires_at, reg\<lparr>al_leases := AList.update conv expires_at (al_leases reg)\<rparr>))"

definition renew_many ::
  "TimestampMs \<Rightarrow> string list \<Rightarrow> ActiveLeaseRegistry \<Rightarrow> (nat \<times> TimestampMs) \<times> ActiveLeaseRegistry" where
  "renew_many now convs reg =
     (let expires_at = i64_saturating_add now (al_ttl_ms reg)
      in ((length convs, expires_at),
          reg\<lparr>al_leases := fold (\<lambda>conv. AList.update conv expires_at) convs (al_leases reg)\<rparr>))"

text \<open>
  \<open>active_until\<close> reads the lease, and removes it in a second access when it has expired; the two
  accesses are \<open>lease_state\<close> and \<open>evict_lease\<close>.
\<close>

datatype LeaseState = NoLease | LeaseUntil TimestampMs | LeaseExpired

definition lease_state :: "TimestampMs \<Rightarrow> string \<Rightarrow> ActiveLeaseRegistry \<Rightarrow> LeaseState" where
  "lease_state now conv reg =
     (case map_of (al_leases reg) conv of
        None \<Rightarrow> NoLease
      | Some expires_at \<Rightarrow> if now < expires_at then LeaseUntil expires_at else LeaseExpired)"

definition evict_lease :: "string \<Rightarrow> ActiveLeaseRegistry \<Rightarrow> ActiveLeaseRegistry" where
  "evict_lease conv reg = reg\<lparr>al_leases := AList.delete conv (al_leases reg)\<rparr>"

definition active_until ::
  "TimestampMs \<Rightarrow> string \<Rightarrow> ActiveLeaseRegistry \<Rightarrow> TimestampMs option \<times> ActiveLeaseRegistry" where
  "active_until now conv reg =
     (case lease_state now conv reg of
        NoLease \<Rightarrow> (None, reg)
      | LeaseUntil expires_at \<Rightarrow> (Some expires_at, reg)
      | LeaseExpired \<Rightarrow> (None, evict_lease conv reg))"

section \<open>Runtime tokens\<close>

definition TEAM_RUNTIME_TOKEN_SESSION_GENERATION :: string where
  "TEAM_RUNTIME_TOKEN_SESSION_GENERATION = ''default''"

datatype RuntimeTokenScope = TeamContext | TeamCall

record RuntimeTokenClaims =
  rk_user_id :: string
  rk_conversation_id :: string
  rk_scopes :: "RuntimeTokenScope set"
  rk_issued_at :: int
  rk_session_generation :: string

datatype RuntimeTokenError =
    TokenMissing | TokenUnknown | UserMismatch | ConversationMismatch | ScopeMissing | GenerationMismatch

record RuntimeTokenEntry =
  te_token :: string
  te_claims :: RuntimeTokenClaims

type_synonym RuntimeTokenService = "(string \<times> RuntimeTokenEntry) list"

definition existing_token ::
  "string \<Rightarrow> string \<Rightarrow> string \<Rightarrow> RuntimeTokenScope set \<Rightarrow> RuntimeTokenService \<Rightarrow> RuntimeTokenEntry option" where
  "existing_token user conv generation scopes svc =
     find (\<lambda>e. rk_user_id (te_claims e) = user \<and> rk_conversation_id (te_claims e) = conv
             \<and> rk_session_generation (te_claims e) = generation \<and> scopes \<subseteq> rk_scopes (te_claims e))
          (map snd svc)"

definition invalidate_conversation :: "string \<Rightarrow> string \<Rightarrow> RuntimeTokenService \<Rightarrow> RuntimeTokenService" where
  "invalidate_conversation user conv svc =
     filter (\<lambda>(_, e). \<not> (rk_user_id (te_claims e) = user \<and> rk_conversation_id (te_claims e) = conv)) svc"

definition invalidate_conversation_id :: "string \<Rightarrow> RuntimeTokenService \<Rightarrow> RuntimeTokenService" where
  "invalidate_conversation_id conv svc = filter (\<lambda>(_, e). rk_conversation_id (te_claims e) \<noteq> conv) svc"

definition invalidate_generation :: "string \<Rightarrow> string \<Rightarrow> RuntimeTokenService \<Rightarrow> RuntimeTokenService" where
  "invalidate_generation conv generation svc =
     filter (\<lambda>(_, e). \<not> (rk_conversation_id (te_claims e) = conv
       \<and> rk_session_generation (te_claims e) = generation)) svc"

text \<open>\<open>generate_token\<close> is the hexadecimal text of the random bytes, as in the QR tokens.\<close>

definition issue_token ::
  "(string \<Rightarrow> string) \<Rightarrow> 8 word list \<Rightarrow> int \<Rightarrow> string \<Rightarrow> string \<Rightarrow> string \<Rightarrow> RuntimeTokenScope set
   \<Rightarrow> RuntimeTokenService \<Rightarrow> RuntimeTokenEntry \<times> RuntimeTokenService" where
  "issue_token token_hash buf now user conv generation scopes svc =
     (case existing_token user conv generation scopes svc of
        Some existing \<Rightarrow> (existing, svc)
      | None \<Rightarrow>
          let e = \<lparr>te_token = token_of buf,
                te_claims = \<lparr>rk_user_id = user, rk_conversation_id = conv, rk_scopes = scopes,
                  rk_issued_at = now, rk_session_generation = generation\<rparr>\<rparr>
          in (e, AList.update (token_hash (te_token e)) e (invalidate_conversation user conv svc)))"

definition validate_token ::
  "(string \<Rightarrow> string) \<Rightarrow> string option \<Rightarrow> string \<Rightarrow> string \<Rightarrow> RuntimeTokenScope \<Rightarrow> string
   \<Rightarrow> RuntimeTokenService \<Rightarrow> RuntimeTokenError + RuntimeTokenClaims" where
  "validate_token token_hash raw_token user conv scope generation svc =
     (case map_option trim raw_token of
        None \<Rightarrow> Inl TokenMissing
      | Some raw \<Rightarrow>
          if raw = [] then Inl TokenMissing
          else (case map_of svc (token_hash raw) of
                  None \<Rightarrow> Inl TokenUnknown
                | Some e \<Rightarrow>
                    let claims = te_claims e
                    in if rk_user_id claims \<noteq> user then Inl UserMismatch
                       else if rk_conversation_id claims \<noteq> conv then Inl ConversationMismatch
                       else if scope \<notin> rk_scopes claims then Inl ScopeMissing
                       else if rk_session_generation claims \<noteq> generation then Inl GenerationMismatch
                       else Inr claims))"

section \<open>The task manager\<close>

definition TJUAE_RUNTIME_TOKEN_ENV :: string where
  "TJUAE_RUNTIME_TOKEN_ENV = ''TJUAE_RUNTIME_TOKEN''"

definition satisfies :: "RuntimeCapabilities \<Rightarrow> RuntimeCapabilities \<Rightarrow> bool" where
  "satisfies actual requested =
     (case cap_context_version requested of
        Some version \<Rightarrow> (case cap_context_version actual of Some v \<Rightarrow> version \<le> v | None \<Rightarrow> False)
      | None \<Rightarrow> True)"

text \<open>An agent is a shared handle; its identity is a number.\<close>

record ManagedAgentTask =
  mt_agent :: nat
  mt_runtime_capabilities :: RuntimeCapabilities

record TaskSlot =
  oc_value :: "ManagedAgentTask option"
  oc_permit :: "nat option"

definition new_slot :: TaskSlot where
  "new_slot = \<lparr>oc_value = None, oc_permit = None\<rparr>"

record WorkerTaskManager =
  tm_tasks :: "(string \<times> nat) list"
  tm_slots :: "nat \<Rightarrow> TaskSlot"
  tm_next_slot :: nat
  tm_active_leases :: ActiveLeaseRegistry
  tm_runtime_token_service :: "RuntimeTokenService option"

definition new_task_manager :: "ActiveLeaseRegistry \<Rightarrow> RuntimeTokenService option \<Rightarrow> WorkerTaskManager" where
  "new_task_manager leases tokens = \<lparr>tm_tasks = [], tm_slots = (\<lambda>_. new_slot), tm_next_slot = 0,
     tm_active_leases = leases, tm_runtime_token_service = tokens\<rparr>"

definition initialised_managed_task :: "string \<Rightarrow> WorkerTaskManager \<Rightarrow> ManagedAgentTask option" where
  "initialised_managed_task conv m = Option.bind (map_of (tm_tasks m) conv) (\<lambda>slot. oc_value (tm_slots m slot))"

definition get_task :: "string \<Rightarrow> WorkerTaskManager \<Rightarrow> nat option" where
  "get_task conv m = map_option mt_agent (initialised_managed_task conv m)"

definition invalidate_runtime_tokens :: "string \<Rightarrow> WorkerTaskManager \<Rightarrow> WorkerTaskManager" where
  "invalidate_runtime_tokens conv m =
     m\<lparr>tm_runtime_token_service := map_option (invalidate_conversation_id conv) (tm_runtime_token_service m)\<rparr>"

definition refresh_runtime_token_for_new_task ::
  "(string \<Rightarrow> string) \<Rightarrow> 8 word list \<Rightarrow> int \<Rightarrow> BuildTaskOptions \<Rightarrow> WorkerTaskManager
   \<Rightarrow> BuildTaskOptions \<times> WorkerTaskManager" where
  "refresh_runtime_token_for_new_task token_hash buf now options m =
     (case (bo_team options, tm_runtime_token_service m) of
        (True, Some svc) \<Rightarrow>
          let (issue, svc) = issue_token token_hash buf now (bo_user_id options) (bo_conversation_id options)
                TEAM_RUNTIME_TOKEN_SESSION_GENERATION {TeamContext, TeamCall} svc
          in (options\<lparr>bo_runtime_env := filter (\<lambda>(key, _). key \<noteq> TJUAE_RUNTIME_TOKEN_ENV) (bo_runtime_env options)
                @ [(TJUAE_RUNTIME_TOKEN_ENV, te_token issue)]\<rparr>,
              m\<lparr>tm_runtime_token_service := Some svc\<rparr>)
      | _ \<Rightarrow> (options, m))"

definition active_count :: "WorkerTaskManager \<Rightarrow> nat" where
  "active_count m = length (filter (\<lambda>(_, slot). oc_value (tm_slots m slot) \<noteq> None) (tm_tasks m))"

text \<open>What \<open>kill\<close>, \<open>kill_and_wait\<close> and \<open>clear\<close> begin with: the slot leaves the map and its tokens are void.\<close>

definition remove_task :: "string \<Rightarrow> WorkerTaskManager \<Rightarrow> nat option \<times> WorkerTaskManager" where
  "remove_task conv m =
     (case map_of (tm_tasks m) conv of
        None \<Rightarrow> (None, m)
      | Some slot \<Rightarrow>
          (Some slot, invalidate_runtime_tokens conv (m\<lparr>tm_tasks := AList.delete conv (tm_tasks m)\<rparr>)))"

definition entry_slot :: "string \<Rightarrow> WorkerTaskManager \<Rightarrow> nat \<times> WorkerTaskManager" where
  "entry_slot conv m =
     (case map_of (tm_tasks m) conv of
        Some slot \<Rightarrow> (slot, m)
      | None \<Rightarrow> (tm_next_slot m, m\<lparr>tm_tasks := AList.update conv (tm_next_slot m) (tm_tasks m),
          tm_next_slot := tm_next_slot m + 1\<rparr>))"

definition upd_task_slot :: "nat \<Rightarrow> (TaskSlot \<Rightarrow> TaskSlot) \<Rightarrow> WorkerTaskManager \<Rightarrow> WorkerTaskManager" where
  "upd_task_slot slot f m = m\<lparr>tm_slots := (tm_slots m)(slot := f (tm_slots m slot))\<rparr>"

section \<open>Calls in flight\<close>

datatype TaskCall =
    NoCall
  | Checking string BuildTaskOptions
  | Rebuilding string BuildTaskOptions
  | TakingSlot string BuildTaskOptions
  | AwaitingSlot nat BuildTaskOptions
  | Initialising nat BuildTaskOptions
  | Built nat nat
  | BuildFailed AgentFailure
  | AwaitingKill nat
  | CallEnded

text \<open>
  The manager, the calls by their number, and the agents that were built and that the manager has not told to end.
  The list says what the manager has done, not which processes live: a session agent ignores \<open>kill\<close> and is reaped
  when the last handle to it is dropped, which is not modelled.
\<close>

record TaskSystem =
  sy_manager :: WorkerTaskManager
  sy_calls :: "nat \<Rightarrow> TaskCall"
  sy_unkilled :: "nat list"
  sy_next_agent :: nat

definition new_task_system :: "ActiveLeaseRegistry \<Rightarrow> RuntimeTokenService option \<Rightarrow> TaskSystem" where
  "new_task_system leases tokens = \<lparr>sy_manager = new_task_manager leases tokens, sy_calls = (\<lambda>_. NoCall),
     sy_unkilled = [], sy_next_agent = 0\<rparr>"

definition set_call :: "nat \<Rightarrow> TaskCall \<Rightarrow> TaskSystem \<Rightarrow> TaskSystem" where
  "set_call k c s = s\<lparr>sy_calls := (sy_calls s)(k := c)\<rparr>"

text \<open>The call \<open>agent.kill(reason)\<close>, whether the agent answers it with an error or not.\<close>

definition stop_agent :: "AgentFailure option \<Rightarrow> nat \<Rightarrow> TaskSystem \<Rightarrow> (AgentFailure + unit) \<times> TaskSystem" where
  "stop_agent failure agent s =
     (case failure of Some e \<Rightarrow> Inl e | None \<Rightarrow> Inr (), s\<lparr>sy_unkilled := removeAll agent (sy_unkilled s)\<rparr>)"

definition kill :: "AgentFailure option \<Rightarrow> string \<Rightarrow> TaskSystem \<Rightarrow> (AgentFailure + unit) \<times> TaskSystem" where
  "kill failure conv s =
     (case remove_task conv (sy_manager s) of
        (None, m) \<Rightarrow> (Inr (), s\<lparr>sy_manager := m\<rparr>)
      | (Some slot, m) \<Rightarrow>
          (case oc_value (tm_slots m slot) of
             Some managed \<Rightarrow> stop_agent failure (mt_agent managed) (s\<lparr>sy_manager := m\<rparr>)
           | None \<Rightarrow> (Inr (), s\<lparr>sy_manager := m\<rparr>)))"

text \<open>Up to the future that \<open>kill_and_wait\<close> returns; \<open>await_kill\<close> is that future on a slot that was empty.\<close>

definition kill_and_wait :: "AgentFailure option \<Rightarrow> nat \<Rightarrow> string \<Rightarrow> TaskSystem \<Rightarrow> TaskSystem" where
  "kill_and_wait failure k conv s =
     (case remove_task conv (sy_manager s) of
        (None, m) \<Rightarrow> set_call k CallEnded (s\<lparr>sy_manager := m\<rparr>)
      | (Some slot, m) \<Rightarrow>
          (case oc_value (tm_slots m slot) of
             Some managed \<Rightarrow> set_call k CallEnded (snd (stop_agent failure (mt_agent managed) (s\<lparr>sy_manager := m\<rparr>)))
           | None \<Rightarrow> set_call k (AwaitingKill slot) (s\<lparr>sy_manager := m\<rparr>)))"

definition await_kill :: "AgentFailure option \<Rightarrow> nat \<Rightarrow> TaskSystem \<Rightarrow> TaskSystem option" where
  "await_kill failure k s =
     (case sy_calls s k of
        AwaitingKill slot \<Rightarrow>
          (case (oc_value (tm_slots (sy_manager s) slot), oc_permit (tm_slots (sy_manager s) slot)) of
             (Some managed, _) \<Rightarrow> Some (set_call k CallEnded (snd (stop_agent failure (mt_agent managed) s)))
           | (None, None) \<Rightarrow> Some (set_call k CallEnded s)
           | (None, Some _) \<Rightarrow> None)
      | _ \<Rightarrow> None)"

text \<open>\<open>clear\<close>, one key at a time; the agents are killed without a reason.\<close>

definition clear_task :: "(nat \<Rightarrow> AgentFailure option) \<Rightarrow> string \<Rightarrow> TaskSystem \<Rightarrow> TaskSystem" where
  "clear_task failure conv s =
     (case remove_task conv (sy_manager s) of
        (None, m) \<Rightarrow> s\<lparr>sy_manager := m\<rparr>
      | (Some slot, m) \<Rightarrow>
          (case oc_value (tm_slots m slot) of
             Some managed \<Rightarrow> snd (stop_agent (failure (mt_agent managed)) (mt_agent managed) (s\<lparr>sy_manager := m\<rparr>))
           | None \<Rightarrow> s\<lparr>sy_manager := m\<rparr>))"

definition clear :: "(nat \<Rightarrow> AgentFailure option) \<Rightarrow> TaskSystem \<Rightarrow> TaskSystem" where
  "clear failure s = fold (clear_task failure) (map fst (tm_tasks (sy_manager s))) s"

definition on_conversation_deleted :: "AgentFailure option \<Rightarrow> string \<Rightarrow> TaskSystem \<Rightarrow> TaskSystem" where
  "on_conversation_deleted failure conv s = snd (kill failure conv s)"

text \<open>The parts of \<open>get_or_build_task\<close>, in their order.\<close>

definition check_capabilities :: "nat \<Rightarrow> TaskSystem \<Rightarrow> TaskSystem option" where
  "check_capabilities k s =
     (case sy_calls s k of
        Checking conv options \<Rightarrow>
          (case initialised_managed_task conv (sy_manager s) of
             Some existing \<Rightarrow>
               if \<not> satisfies (mt_runtime_capabilities existing) (bo_runtime_capabilities options)
               then Some (set_call k (Rebuilding conv options) s)
               else Some (set_call k (TakingSlot conv options) s)
           | None \<Rightarrow> Some (set_call k (TakingSlot conv options) s))
      | _ \<Rightarrow> None)"

definition rebuild ::
  "(string \<Rightarrow> string) \<Rightarrow> AgentFailure option \<Rightarrow> 8 word list \<Rightarrow> int \<Rightarrow> nat \<Rightarrow> TaskSystem \<Rightarrow> TaskSystem option" where
  "rebuild token_hash failure buf now k s =
     (case sy_calls s k of
        Rebuilding conv options \<Rightarrow>
          (case kill failure conv s of
             (Inl e, s) \<Rightarrow> Some (set_call k (BuildFailed e) s)
           | (Inr _, s) \<Rightarrow>
               let (options, m) = refresh_runtime_token_for_new_task token_hash buf now options (sy_manager s)
               in Some (set_call k (TakingSlot conv options) (s\<lparr>sy_manager := m\<rparr>)))
      | _ \<Rightarrow> None)"

definition take_slot :: "nat \<Rightarrow> TaskSystem \<Rightarrow> TaskSystem option" where
  "take_slot k s =
     (case sy_calls s k of
        TakingSlot conv options \<Rightarrow>
          let (slot, m) = entry_slot conv (sy_manager s)
          in Some (set_call k (AwaitingSlot slot options) (s\<lparr>sy_manager := m\<rparr>))
      | _ \<Rightarrow> None)"

definition begin_init :: "nat \<Rightarrow> TaskSystem \<Rightarrow> TaskSystem option" where
  "begin_init k s =
     (case sy_calls s k of
        AwaitingSlot slot options \<Rightarrow>
          (case (oc_value (tm_slots (sy_manager s) slot), oc_permit (tm_slots (sy_manager s) slot)) of
             (Some managed, _) \<Rightarrow> Some (set_call k (Built slot (mt_agent managed)) s)
           | (None, None) \<Rightarrow> Some (set_call k (Initialising slot options)
               (s\<lparr>sy_manager := upd_task_slot slot (\<lambda>c. c\<lparr>oc_permit := Some k\<rparr>) (sy_manager s)\<rparr>))
           | (None, Some _) \<Rightarrow> None)
      | _ \<Rightarrow> None)"

definition finish_init :: "AgentFailure option \<Rightarrow> nat \<Rightarrow> TaskSystem \<Rightarrow> TaskSystem option" where
  "finish_init failure k s =
     (case sy_calls s k of
        Initialising slot options \<Rightarrow>
          (case failure of
             Some e \<Rightarrow> Some (set_call k (BuildFailed e)
               (s\<lparr>sy_manager := upd_task_slot slot (\<lambda>c. c\<lparr>oc_permit := None\<rparr>) (sy_manager s)\<rparr>))
           | None \<Rightarrow>
               let agent = sy_next_agent s;
                   managed = \<lparr>mt_agent = agent, mt_runtime_capabilities = bo_runtime_capabilities options\<rparr>
               in Some (set_call k (Built slot agent)
                    (s\<lparr>sy_manager := upd_task_slot slot (\<lambda>_. \<lparr>oc_value = Some managed, oc_permit = None\<rparr>) (sy_manager s),
                       sy_unkilled := sy_unkilled s @ [agent], sy_next_agent := agent + 1\<rparr>)))
      | _ \<Rightarrow> None)"

text \<open>A caller may drop its future at any time; a permit it holds is given back.\<close>

definition drop_call :: "nat \<Rightarrow> TaskSystem \<Rightarrow> TaskSystem option" where
  "drop_call k s =
     (case sy_calls s k of
        NoCall \<Rightarrow> None
      | Initialising slot _ \<Rightarrow> Some (set_call k CallEnded
          (s\<lparr>sy_manager := upd_task_slot slot (\<lambda>c. c\<lparr>oc_permit := None\<rparr>) (sy_manager s)\<rparr>))
      | _ \<Rightarrow> Some (set_call k CallEnded s))"

datatype TaskOp =
    StartBuild nat string BuildTaskOptions
  | CheckCapabilities nat
  | Rebuild "AgentFailure option" "8 word list" int nat
  | TakeSlot nat
  | BeginInit nat
  | FinishInit "AgentFailure option" nat
  | DropCall nat
  | Kill "AgentFailure option" string
  | KillAndWait "AgentFailure option" nat string
  | AwaitKill "AgentFailure option" nat
  | ClearTask "AgentFailure option" string

text \<open>A new call takes a number that is not in use.\<close>

definition exec_op :: "(string \<Rightarrow> string) \<Rightarrow> TaskOp \<Rightarrow> TaskSystem \<Rightarrow> TaskSystem option" where
  "exec_op token_hash op s =
     (case op of
        StartBuild k conv options \<Rightarrow>
          if sy_calls s k = NoCall then Some (set_call k (Checking conv options) s) else None
      | CheckCapabilities k \<Rightarrow> check_capabilities k s
      | Rebuild failure buf now k \<Rightarrow> rebuild token_hash failure buf now k s
      | TakeSlot k \<Rightarrow> take_slot k s
      | BeginInit k \<Rightarrow> begin_init k s
      | FinishInit failure k \<Rightarrow> finish_init failure k s
      | DropCall k \<Rightarrow> drop_call k s
      | Kill failure conv \<Rightarrow> Some (snd (kill failure conv s))
      | KillAndWait failure k conv \<Rightarrow> if sy_calls s k = NoCall then Some (kill_and_wait failure k conv s) else None
      | AwaitKill failure k \<Rightarrow> await_kill failure k s
      | ClearTask failure conv \<Rightarrow> Some (clear_task (\<lambda>_. failure) conv s))"

fun exec_ops :: "(string \<Rightarrow> string) \<Rightarrow> TaskOp list \<Rightarrow> TaskSystem \<Rightarrow> TaskSystem option" where
  "exec_ops token_hash [] s = Some s"
| "exec_ops token_hash (op # ops) s = Option.bind (exec_op token_hash op s) (exec_ops token_hash ops)"

section \<open>Idle agents\<close>

record AgentView =
  av_agent_type :: AgentType
  av_status :: "ConversationStatus option"
  av_last_activity_at :: TimestampMs

definition idle_candidate :: "TimestampMs \<Rightarrow> TimestampMs \<Rightarrow> AgentView \<Rightarrow> bool" where
  "idle_candidate now threshold v \<longleftrightarrow>
     av_agent_type v = Acp \<and> av_status v \<in> {None, Some Finished}
     \<and> threshold < i64_saturating_sub now (av_last_activity_at v)"

fun collect_from ::
  "(nat \<Rightarrow> AgentView) \<Rightarrow> TimestampMs \<Rightarrow> (string \<Rightarrow> TimestampMs) \<Rightarrow> TimestampMs \<Rightarrow> (nat \<Rightarrow> TaskSlot)
   \<Rightarrow> (string \<times> nat) list \<Rightarrow> ActiveLeaseRegistry \<Rightarrow> string list \<times> ActiveLeaseRegistry" where
  "collect_from view now lease_now threshold slots [] reg = ([], reg)"
| "collect_from view now lease_now threshold slots ((conv, slot) # entries) reg =
     (case oc_value (slots slot) of
        None \<Rightarrow> collect_from view now lease_now threshold slots entries reg
      | Some managed \<Rightarrow>
          if \<not> idle_candidate now threshold (view (mt_agent managed))
          then collect_from view now lease_now threshold slots entries reg
          else (case active_until (lease_now conv) conv reg of
                  (Some _, reg) \<Rightarrow> collect_from view now lease_now threshold slots entries reg
                | (None, reg) \<Rightarrow>
                    let (ids, reg) = collect_from view now lease_now threshold slots entries reg
                    in (conv # ids, reg)))"

text \<open>The clock is read once for the activity and again for every lease.\<close>

definition collect_idle ::
  "(nat \<Rightarrow> AgentView) \<Rightarrow> TimestampMs \<Rightarrow> (string \<Rightarrow> TimestampMs) \<Rightarrow> TimestampMs \<Rightarrow> WorkerTaskManager
   \<Rightarrow> string list \<times> WorkerTaskManager" where
  "collect_idle view now lease_now threshold m =
     (let (ids, reg) = collect_from view now lease_now threshold (tm_slots m) (tm_tasks m) (tm_active_leases m)
      in (ids, m\<lparr>tm_active_leases := reg\<rparr>))"

text \<open>A team session as the clean-up sees it: the conversations of its agents, and whether a run is active.\<close>

record IdleTeam =
  it_team_id :: string
  it_conversations :: "string list"
  it_run_active :: bool

definition is_idle_collectable_team_member :: "AgentView \<Rightarrow> TimestampMs \<Rightarrow> TimestampMs \<Rightarrow> bool" where
  "is_idle_collectable_team_member v now threshold \<longleftrightarrow>
     av_status v \<in> {None, Some Pending, Some Finished}
     \<and> threshold < i64_saturating_sub now (av_last_activity_at v)"

fun any_lease ::
  "(string \<Rightarrow> TimestampMs) \<Rightarrow> string list \<Rightarrow> ActiveLeaseRegistry \<Rightarrow> bool \<times> ActiveLeaseRegistry" where
  "any_lease lease_now [] reg = (False, reg)"
| "any_lease lease_now (conv # convs) reg =
     (case active_until (lease_now conv) conv reg of
        (Some _, reg) \<Rightarrow> (True, reg)
      | (None, reg) \<Rightarrow> any_lease lease_now convs reg)"

fun idle_teams ::
  "(nat \<Rightarrow> AgentView) \<Rightarrow> TimestampMs \<Rightarrow> (string \<Rightarrow> TimestampMs) \<Rightarrow> TimestampMs \<Rightarrow> string list \<Rightarrow> IdleTeam list
   \<Rightarrow> WorkerTaskManager \<Rightarrow> string list \<times> IdleTeam list \<times> WorkerTaskManager" where
  "idle_teams view now lease_now threshold idle [] m = ([], [], m)"
| "idle_teams view now lease_now threshold idle (t # teams) m =
     (if \<not> list_ex (\<lambda>conv. conv \<in> set idle) (it_conversations t)
      then idle_teams view now lease_now threshold idle teams m
      else if it_run_active t
      then let (handled, cleanup, m) = idle_teams view now lease_now threshold idle teams m
           in (it_conversations t @ handled, cleanup, m)
      else
        let (leased, reg) = any_lease lease_now (it_conversations t) (tm_active_leases m);
            m = m\<lparr>tm_active_leases := reg\<rparr>;
            collectable = list_all (\<lambda>conv. case get_task conv m of
              Some agent \<Rightarrow> is_idle_collectable_team_member (view agent) now threshold | None \<Rightarrow> True) (it_conversations t);
            (handled, cleanup, m) = idle_teams view now lease_now threshold idle teams m
        in (it_conversations t @ handled, if \<not> leased \<and> collectable then t # cleanup else cleanup, m))"

text \<open>
  The conversations that are left to the scan, the teams whose session is stopped, and the conversations
  whose agents are killed, in order.
\<close>

definition cleanup_idle_team_runtime_tasks ::
  "(nat \<Rightarrow> AgentView) \<Rightarrow> TimestampMs \<Rightarrow> (string \<Rightarrow> TimestampMs) \<Rightarrow> TimestampMs \<Rightarrow> string list \<Rightarrow> IdleTeam list
   \<Rightarrow> WorkerTaskManager \<Rightarrow> string list \<times> string list \<times> string list \<times> WorkerTaskManager" where
  "cleanup_idle_team_runtime_tasks view now lease_now threshold idle teams m =
     (if idle = [] then ([], [], [], m)
      else let (handled, cleanup, m) = idle_teams view now lease_now threshold idle teams m
           in (filter (\<lambda>conv. conv \<notin> set handled) idle, map it_team_id cleanup,
               concat (map it_conversations cleanup), m))"

text \<open>One scan: the conversations whose agents are killed, the team's first.\<close>

definition scan_and_cleanup ::
  "(nat \<Rightarrow> AgentView) \<Rightarrow> TimestampMs \<Rightarrow> (string \<Rightarrow> TimestampMs) \<Rightarrow> (nat \<Rightarrow> AgentView) \<Rightarrow> TimestampMs
   \<Rightarrow> (string \<Rightarrow> TimestampMs) \<Rightarrow> TimestampMs \<Rightarrow> TimestampMs \<Rightarrow> IdleTeam list option \<Rightarrow> WorkerTaskManager
   \<Rightarrow> string list \<times> WorkerTaskManager" where
  "scan_and_cleanup view now lease_now view' now' lease_now' solo_threshold team_threshold coordinator m =
     (let (idle, m) = collect_idle view now lease_now solo_threshold m
      in if idle = [] then ([], m)
         else (case coordinator of
                 None \<Rightarrow> (idle, m)
               | Some teams \<Rightarrow>
                   let (rest, _, killed, m) =
                     cleanup_idle_team_runtime_tasks view' now' lease_now' team_threshold idle teams m
                   in (killed @ rest, m)))"

section \<open>Configuration of the scan\<close>

definition DEFAULT_SOLO_IDLE_TIMEOUT_SECS :: int where
  "DEFAULT_SOLO_IDLE_TIMEOUT_SECS = 10 * 60"

definition DEFAULT_TEAM_IDLE_TIMEOUT_SECS :: int where
  "DEFAULT_TEAM_IDLE_TIMEOUT_SECS = 30 * 60"

definition DEFAULT_SCAN_INTERVAL_SECS :: int where
  "DEFAULT_SCAN_INTERVAL_SECS = 60"

text \<open>
  \<open>str::parse\<close> for integers: an optional sign (a minus for signed types only), then one or more decimal digits,
  within the range of the type.
\<close>

definition parse_digits :: "string \<Rightarrow> int option" where
  "parse_digits s =
     (if s \<noteq> [] \<and> list_all (\<lambda>ch. 48 \<le> (of_char ch :: nat) \<and> (of_char ch :: nat) \<le> 57) s
      then Some (fold (\<lambda>ch acc. 10 * acc + (of_char ch - 48)) s 0) else None)"

definition parse_i64 :: "string \<Rightarrow> int option" where
  "parse_i64 s =
     (let n = (case s of
        CHR ''+'' # ds \<Rightarrow> parse_digits ds
      | CHR ''-'' # ds \<Rightarrow> map_option uminus (parse_digits ds)
      | _ \<Rightarrow> parse_digits s)
      in case n of Some v \<Rightarrow> if - (2 ^ 63) \<le> v \<and> v < 2 ^ 63 then Some v else None | None \<Rightarrow> None)"

definition parse_u64 :: "string \<Rightarrow> int option" where
  "parse_u64 s =
     (let n = (case s of CHR ''+'' # ds \<Rightarrow> parse_digits ds | _ \<Rightarrow> parse_digits s)
      in case n of Some v \<Rightarrow> if v < 2 ^ 64 then Some v else None | None \<Rightarrow> None)"

definition parse_positive_i64 :: "string option \<Rightarrow> int \<Rightarrow> int" where
  "parse_positive_i64 raw dflt =
     (case raw of
        None \<Rightarrow> dflt
      | Some value \<Rightarrow> (case parse_i64 (trim value) of
          Some parsed \<Rightarrow> if parsed > 0 then parsed else dflt | None \<Rightarrow> dflt))"

definition parse_positive_u64 :: "string option \<Rightarrow> int \<Rightarrow> int" where
  "parse_positive_u64 raw dflt =
     (case raw of
        None \<Rightarrow> dflt
      | Some value \<Rightarrow> (case parse_u64 (trim value) of
          Some parsed \<Rightarrow> if parsed > 0 then parsed else dflt | None \<Rightarrow> dflt))"

definition resolve_idle_config :: "string option \<Rightarrow> string option \<Rightarrow> string option \<Rightarrow> int \<times> int \<times> int" where
  "resolve_idle_config solo_raw team_raw scan_raw =
     (parse_positive_i64 solo_raw DEFAULT_SOLO_IDLE_TIMEOUT_SECS,
      parse_positive_i64 team_raw DEFAULT_TEAM_IDLE_TIMEOUT_SECS,
      parse_positive_u64 scan_raw DEFAULT_SCAN_INTERVAL_SECS)"

text \<open>\<open>threshold * 1000\<close> on \<open>i64\<close>, which wraps in a release build.\<close>

definition threshold_ms :: "int \<Rightarrow> TimestampMs" where
  "threshold_ms secs = sint (word_of_int secs * 1000 :: 64 word)"

end
