(* ===== verification/Agent_Task_Steps.thy ===== *)
theory Agent_Task_Steps
  imports Agent_Tasks
begin

text \<open>
  What the operations of the task manager keep in every interleaving of calls: the slots, the calls and the agents
  fit together; as long as no operation takes a slot away from a call that is to build in it, the agents that were not
  killed are the ones the manager knows; and an agent that is hidden from the manager stays hidden.
\<close>

section \<open>Well-formed task systems\<close>

definition slots_ok :: "WorkerTaskManager \<Rightarrow> bool" where
  "slots_ok m \<longleftrightarrow> keyed (tm_tasks m) \<and> distinct (map snd (tm_tasks m))
     \<and> (\<forall>slot \<in> snd ` set (tm_tasks m). slot < tm_next_slot m)
     \<and> (\<forall>slot. tm_next_slot m \<le> slot \<longrightarrow> tm_slots m slot = new_slot)
     \<and> (\<forall>slot. oc_value (tm_slots m slot) \<noteq> None \<longrightarrow> oc_permit (tm_slots m slot) = None)"

fun call_ok :: "WorkerTaskManager \<Rightarrow> nat \<Rightarrow> TaskCall \<Rightarrow> bool" where
  "call_ok m k (AwaitingSlot slot _) \<longleftrightarrow> slot < tm_next_slot m"
| "call_ok m k (Initialising slot _) \<longleftrightarrow> slot < tm_next_slot m \<and> oc_permit (tm_slots m slot) = Some k"
| "call_ok m k (Built slot agent) \<longleftrightarrow> (\<exists>managed. oc_value (tm_slots m slot) = Some managed \<and> mt_agent managed = agent)"
| "call_ok m k (AwaitingKill slot) \<longleftrightarrow> slot < tm_next_slot m \<and> slot \<notin> snd ` set (tm_tasks m)"
| "call_ok m k _ \<longleftrightarrow> True"

definition calls_ok :: "TaskSystem \<Rightarrow> bool" where
  "calls_ok s \<longleftrightarrow> (\<forall>k. call_ok (sy_manager s) k (sy_calls s k))
     \<and> (\<forall>slot k. oc_permit (tm_slots (sy_manager s) slot) = Some k \<longrightarrow> (\<exists>options. sy_calls s k = Initialising slot options))"

definition agent_in :: "WorkerTaskManager \<Rightarrow> nat \<Rightarrow> nat \<Rightarrow> bool" where
  "agent_in m slot agent \<longleftrightarrow> (\<exists>managed. oc_value (tm_slots m slot) = Some managed \<and> mt_agent managed = agent)"

definition agents_ok :: "TaskSystem \<Rightarrow> bool" where
  "agents_ok s \<longleftrightarrow> distinct (sy_unkilled s)
     \<and> (\<forall>agent \<in> set (sy_unkilled s). \<exists>slot. agent_in (sy_manager s) slot agent)
     \<and> (\<forall>slot agent. agent_in (sy_manager s) slot agent \<longrightarrow> agent < sy_next_agent s)
     \<and> (\<forall>slot slot' agent. agent_in (sy_manager s) slot agent \<and> agent_in (sy_manager s) slot' agent \<longrightarrow> slot = slot')"

definition task_inv :: "TaskSystem \<Rightarrow> bool" where
  "task_inv s \<longleftrightarrow> slots_ok (sy_manager s) \<and> calls_ok s \<and> agents_ok s"

lemmas task_inv_defs = task_inv_def slots_ok_def calls_ok_def agents_ok_def

text \<open>Only the slots matter to an agent, and to a call beside them that slots are not mapped again.\<close>

lemma call_ok_cong:
  assumes "tm_slots m' = tm_slots m" "tm_next_slot m \<le> tm_next_slot m'"
    and "snd ` set (tm_tasks m') \<subseteq> snd ` set (tm_tasks m) \<union> {tm_next_slot m..}" "call_ok m k c"
  shows "call_ok m' k c"
proof (cases c)
  case (AwaitingKill slot)
  with assms show ?thesis by auto
qed (use assms in auto)

lemma agent_in_cong: "tm_slots m' = tm_slots m \<Longrightarrow> agent_in m' = agent_in m"
  by (simp add: agent_in_def fun_eq_iff)

text \<open>A change of the calls that touches no permit.\<close>

lemma inv_set_call:
  assumes "task_inv s" "\<And>slot options. sy_calls s k \<noteq> Initialising slot options" "call_ok (sy_manager s) k c"
  shows "task_inv (set_call k c s)"
proof -
  have "calls_ok (set_call k c s)"
    using assms by (auto simp: task_inv_def calls_ok_def set_call_def; metis)
  then show ?thesis using assms(1) by (simp add: task_inv_def agents_ok_def set_call_def)
qed

lemma inv_manager:
  assumes "task_inv s" "slots_ok m" "tm_slots m = tm_slots (sy_manager s)" "tm_next_slot (sy_manager s) \<le> tm_next_slot m"
    and "snd ` set (tm_tasks m) \<subseteq> snd ` set (tm_tasks (sy_manager s)) \<union> {tm_next_slot (sy_manager s)..}"
  shows "task_inv (s\<lparr>sy_manager := m\<rparr>)"
  using assms call_ok_cong [of m "sy_manager s"] agent_in_cong [of m "sy_manager s"]
  by (auto simp: task_inv_def calls_ok_def agents_ok_def)

lemma inv_running:
  assumes "task_inv s" shows "task_inv (s\<lparr>sy_unkilled := removeAll agent (sy_unkilled s)\<rparr>)"
  using assms by (auto simp: task_inv_def calls_ok_def agents_ok_def distinct_removeAll)

lemma inv_stop_agent: "task_inv s \<Longrightarrow> task_inv (snd (stop_agent failure agent s))"
  by (auto simp: stop_agent_def inv_running split: option.splits)

lemma stop_agent_calls [simp]: "sy_calls (snd (stop_agent failure agent s)) = sy_calls s"
  "sy_manager (snd (stop_agent failure agent s)) = sy_manager s"
  by (auto simp: stop_agent_def split: option.splits)

lemma remove_task_slots [simp]:
  "tm_slots (snd (remove_task conv m)) = tm_slots m" "tm_next_slot (snd (remove_task conv m)) = tm_next_slot m"
  "tm_tasks (snd (remove_task conv m)) = AList.delete conv (tm_tasks m)"
  "fst (remove_task conv m) = map_of (tm_tasks m) conv"
  by (auto simp: remove_task_def invalidate_runtime_tokens_def map_of_eq_None_iff [symmetric]
      intro!: AList.delete_id [symmetric] split: option.splits)

lemma distinct_snd_delete: "distinct (map snd xs) \<Longrightarrow> distinct (map snd (AList.delete k xs))"
  by (induction xs) (auto simp: AList.delete_eq dest: set_mp)

lemma set_delete_subset: "set (AList.delete k xs) \<subseteq> set xs"
  by (auto simp: AList.delete_eq)

lemma update_absent: "map_of xs k = None \<Longrightarrow> AList.update k v xs = xs @ [(k, v)]"
  by (induction xs) (auto split: if_splits)

lemma slots_ok_remove: "slots_ok m \<Longrightarrow> slots_ok (snd (remove_task conv m))"
  by (auto simp: slots_ok_def distinct_snd_delete dest!: set_delete_subset [THEN subsetD])

lemma inv_remove: "task_inv s \<Longrightarrow> task_inv (s\<lparr>sy_manager := snd (remove_task conv (sy_manager s))\<rparr>)"
  using set_delete_subset [of conv "tm_tasks (sy_manager s)"]
  by (intro inv_manager) (auto simp: task_inv_def intro: slots_ok_remove intro: rev_image_eqI)

lemma slot_key:
  assumes "slots_ok m" "(c, slot) \<in> set (tm_tasks m)" "(c', slot) \<in> set (tm_tasks m)" shows "c = c'"
  using assms inj_onD [of snd "set (tm_tasks m)" "(c, slot)" "(c', slot)"] by (simp add: slots_ok_def distinct_map)

lemma deleted_slot:
  assumes "slots_ok m" "map_of (tm_tasks m) conv = Some slot"
  shows "slot \<notin> snd ` set (AList.delete conv (tm_tasks m))"
proof
  assume "slot \<in> snd ` set (AList.delete conv (tm_tasks m))"
  then obtain c where c: "(c, slot) \<in> set (tm_tasks m)" "c \<noteq> conv" by (auto simp: AList.delete_eq)
  moreover have "(conv, slot) \<in> set (tm_tasks m)" using assms(2) by (rule map_of_SomeD)
  ultimately show False using slot_key [OF assms(1)] by blast
qed

section \<open>Every operation keeps the system well formed\<close>

lemma remove_task_pair: "remove_task conv m = (map_of (tm_tasks m) conv, snd (remove_task conv m))"
  by (metis prod.collapse remove_task_slots(4))

lemma kill_eq:
  "snd (kill failure conv s) =
     (let s' = s\<lparr>sy_manager := snd (remove_task conv (sy_manager s))\<rparr>
      in case initialised_managed_task conv (sy_manager s) of
           Some managed \<Rightarrow> snd (stop_agent failure (mt_agent managed) s') | None \<Rightarrow> s')"
  unfolding kill_def by (subst remove_task_pair)
    (auto simp: initialised_managed_task_def Let_def split: option.splits)

lemma clear_task_eq: "clear_task (\<lambda>_. failure) conv s = snd (kill failure conv s)"
  by (auto simp: clear_task_def kill_def split: option.splits prod.splits)

lemma kill_and_wait_eq:
  "kill_and_wait failure k conv s = set_call k
     (case map_of (tm_tasks (sy_manager s)) conv of
        Some slot \<Rightarrow> if oc_value (tm_slots (sy_manager s) slot) = None then AwaitingKill slot else CallEnded
      | None \<Rightarrow> CallEnded) (snd (kill failure conv s))"
  unfolding kill_and_wait_def kill_def by (subst (1 2) remove_task_pair) (auto split: option.splits)

lemma inv_kill: "task_inv s \<Longrightarrow> task_inv (snd (kill failure conv s))"
  by (auto simp: kill_eq Let_def inv_remove inv_stop_agent split: option.splits)

lemma kill_slots [simp]:
  "sy_calls (snd (kill failure conv s)) = sy_calls s"
  "tm_slots (sy_manager (snd (kill failure conv s))) = tm_slots (sy_manager s)"
  "tm_next_slot (sy_manager (snd (kill failure conv s))) = tm_next_slot (sy_manager s)"
  "tm_tasks (sy_manager (snd (kill failure conv s))) = AList.delete conv (tm_tasks (sy_manager s))"
  by (auto simp: kill_eq Let_def split: option.splits)

lemma slot_bound: "slots_ok m \<Longrightarrow> map_of (tm_tasks m) conv = Some slot \<Longrightarrow> slot < tm_next_slot m"
  by (force simp: slots_ok_def dest: map_of_SomeD)

lemma inv_kill_and_wait:
  assumes "task_inv s" "sy_calls s k = NoCall" shows "task_inv (kill_and_wait failure k conv s)"
  unfolding kill_and_wait_eq
  by (rule inv_set_call) (use assms slot_bound [of "sy_manager s" conv] deleted_slot [of "sy_manager s" conv] in
    \<open>auto simp: inv_kill task_inv_def [of s] split: option.splits\<close>)

lemma inv_await_kill: "task_inv s \<Longrightarrow> await_kill failure k s = Some s' \<Longrightarrow> task_inv s'"
  by (auto simp: await_kill_def intro!: inv_set_call inv_stop_agent
      split: TaskCall.splits option.splits prod.splits)

lemma inv_check_capabilities: "task_inv s \<Longrightarrow> check_capabilities k s = Some s' \<Longrightarrow> task_inv s'"
  by (auto simp: check_capabilities_def intro!: inv_set_call split: TaskCall.splits option.splits if_splits)

lemma refresh_slots [simp]:
  "tm_slots (snd (refresh_runtime_token_for_new_task h buf now options m)) = tm_slots m"
  "tm_next_slot (snd (refresh_runtime_token_for_new_task h buf now options m)) = tm_next_slot m"
  "tm_tasks (snd (refresh_runtime_token_for_new_task h buf now options m)) = tm_tasks m"
  by (auto simp: refresh_runtime_token_for_new_task_def Let_def split: option.splits bool.splits prod.splits)

lemma slots_ok_refresh: "slots_ok m \<Longrightarrow> slots_ok (snd (refresh_runtime_token_for_new_task h buf now options m))"
  by (simp add: slots_ok_def)

lemma rebuild_cases:
  assumes "rebuild h failure buf now k s = Some s'"
  obtains conv options e where "sy_calls s k = Rebuilding conv options"
      "s' = set_call k (BuildFailed e) (snd (kill failure conv s))"
  | conv options options' m where "sy_calls s k = Rebuilding conv options"
      "m = snd (refresh_runtime_token_for_new_task h buf now options (sy_manager (snd (kill failure conv s))))"
      "s' = set_call k (TakingSlot conv options') ((snd (kill failure conv s))\<lparr>sy_manager := m\<rparr>)"
  using assms by (fastforce simp: rebuild_def Let_def split: TaskCall.splits prod.splits sum.splits)

lemma inv_rebuild:
  assumes "task_inv s" "rebuild h failure buf now k s = Some s'" shows "task_inv s'"
  using assms(2)
proof (cases rule: rebuild_cases)
  case (1 conv options e)
  then show ?thesis using inv_kill [OF assms(1)] by (auto intro!: inv_set_call)
next
  case (2 conv options options' m)
  have inv: "task_inv (snd (kill failure conv s))" by (rule inv_kill [OF assms(1)])
  then have "task_inv ((snd (kill failure conv s))\<lparr>sy_manager := m\<rparr>)"
    by (rule inv_manager) (use inv 2(2) in \<open>auto simp: task_inv_def intro: slots_ok_refresh\<close>)
  then show ?thesis using 2 by (auto intro!: inv_set_call)
qed

lemma entry_slot_ok:
  assumes "slots_ok m"
  shows "slots_ok (snd (entry_slot conv m))" "fst (entry_slot conv m) < tm_next_slot (snd (entry_slot conv m))"
    "tm_slots (snd (entry_slot conv m)) = tm_slots m" "tm_next_slot m \<le> tm_next_slot (snd (entry_slot conv m))"
    "map_of (tm_tasks (snd (entry_slot conv m))) conv = Some (fst (entry_slot conv m))"
    "snd ` set (tm_tasks (snd (entry_slot conv m))) \<subseteq> snd ` set (tm_tasks m) \<union> {tm_next_slot m..}"
proof -
  have "tm_next_slot m \<notin> snd ` set (tm_tasks m)" using assms by (auto simp: slots_ok_def)
  then show "slots_ok (snd (entry_slot conv m))" using assms
    by (auto simp: entry_slot_def slots_ok_def keyed_def update_absent less_Suc_eq map_of_eq_None_iff split: option.splits)
  show "fst (entry_slot conv m) < tm_next_slot (snd (entry_slot conv m))"
    using slot_bound [OF assms] by (auto simp: entry_slot_def split: option.splits)
qed (auto simp: entry_slot_def update_absent map_add_def split: option.splits)

lemma take_slot_cases:
  assumes "take_slot k s = Some s'"
  obtains conv options where "sy_calls s k = TakingSlot conv options"
      "s' = set_call k (AwaitingSlot (fst (entry_slot conv (sy_manager s))) options)
        (s\<lparr>sy_manager := snd (entry_slot conv (sy_manager s))\<rparr>)"
  using assms by (auto simp: take_slot_def Let_def split: TaskCall.splits prod.splits)

lemma inv_take_slot:
  assumes "task_inv s" "take_slot k s = Some s'" shows "task_inv s'"
proof -
  have ok: "slots_ok (sy_manager s)" using assms(1) by (simp add: task_inv_def)
  obtain conv options where call: "sy_calls s k = TakingSlot conv options"
      "s' = set_call k (AwaitingSlot (fst (entry_slot conv (sy_manager s))) options)
        (s\<lparr>sy_manager := snd (entry_slot conv (sy_manager s))\<rparr>)"
    by (rule take_slot_cases [OF assms(2)])
  have "task_inv (s\<lparr>sy_manager := snd (entry_slot conv (sy_manager s))\<rparr>)"
    by (rule inv_manager [OF assms(1)]) (rule entry_slot_ok [OF ok])+
  then show ?thesis using call entry_slot_ok(2) [OF ok] by (auto intro!: inv_set_call)
qed

text \<open>
  The steps that take a permit, give it back or set the value change one slot that has no value and
  whose permit is free or the call's.
\<close>

lemma calls_ok_slot:
  assumes "calls_ok s" "oc_value (tm_slots (sy_manager s) slot) = None" "oc_permit (tm_slots (sy_manager s) slot) \<in> {None, Some k}"
    and "\<And>slot' options. sy_calls s k = Initialising slot' options \<Longrightarrow> slot' = slot"
    and s': "sy_manager s' = upd_task_slot slot (\<lambda>_. cell) (sy_manager s)" "sy_calls s' = (sy_calls s)(k := c)"
    and "call_ok (sy_manager s') k c" "oc_permit cell = None \<or> oc_permit cell = Some k \<and> (\<exists>options. c = Initialising slot options)"
  shows "calls_ok s'"
proof -
  have "call_ok (sy_manager s') j (sy_calls s' j)" for j
  proof (cases "j = k")
    case False
    have "call_ok (sy_manager s) j (sy_calls s j)" using assms(1) by (simp add: calls_ok_def)
    with False assms(2,3) show ?thesis by (cases "sy_calls s j") (auto simp: s' upd_task_slot_def)
  qed (use assms in simp)
  moreover have "\<exists>options. sy_calls s' j = Initialising slot' options"
    if "oc_permit (tm_slots (sy_manager s') slot') = Some j" for slot' j
  proof (cases "slot' = slot")
    case True
    with that assms(8) show ?thesis by (auto simp: s' upd_task_slot_def)
  next
    case False
    with that have "oc_permit (tm_slots (sy_manager s) slot') = Some j" by (simp add: s' upd_task_slot_def)
    then obtain options where "sy_calls s j = Initialising slot' options"
      using assms(1) unfolding calls_ok_def by blast
    with False assms(4) show ?thesis by (auto simp: s')
  qed
  ultimately show ?thesis by (simp add: calls_ok_def)
qed

lemma slots_ok_slot:
  assumes "slots_ok m" "slot < tm_next_slot m" "oc_value cell \<noteq> None \<Longrightarrow> oc_permit cell = None"
  shows "slots_ok (upd_task_slot slot (\<lambda>_. cell) m)"
  using assms by (auto simp: slots_ok_def upd_task_slot_def)

text \<open>A permit is taken or given back: the value stays away.\<close>

definition permit_state :: "nat \<Rightarrow> TaskCall \<Rightarrow> nat \<Rightarrow> nat option \<Rightarrow> TaskSystem \<Rightarrow> TaskSystem" where
  "permit_state k c slot permit s =
     set_call k c (s\<lparr>sy_manager := upd_task_slot slot (\<lambda>c. c\<lparr>oc_permit := permit\<rparr>) (sy_manager s)\<rparr>)"

lemma inv_permit:
  assumes "task_inv s" "oc_value (tm_slots (sy_manager s) slot) = None" "oc_permit (tm_slots (sy_manager s) slot) \<in> {None, Some k}"
    and "\<And>slot' options. sy_calls s k = Initialising slot' options \<Longrightarrow> slot' = slot" "slot < tm_next_slot (sy_manager s)"
    and "permit = None \<and> c \<in> {CallEnded} \<union> range BuildFailed \<or> permit = Some k \<and> (\<exists>options. c = Initialising slot options)"
  shows "task_inv (permit_state k c slot permit s)" (is "task_inv ?s")
proof -
  let ?cell = "(tm_slots (sy_manager s) slot)\<lparr>oc_permit := permit\<rparr>"
  have m: "sy_manager ?s = upd_task_slot slot (\<lambda>_. ?cell) (sy_manager s)" "sy_calls ?s = (sy_calls s)(k := c)"
    by (simp_all add: permit_state_def set_call_def upd_task_slot_def)
  have "calls_ok ?s"
    by (rule calls_ok_slot [OF _ assms(2,3,4) m]) (use assms m in \<open>auto simp: task_inv_def upd_task_slot_def\<close>)
  moreover have "slots_ok (sy_manager ?s)"
    unfolding m by (rule slots_ok_slot) (use assms in \<open>auto simp: task_inv_def\<close>)
  moreover have "agent_in (sy_manager ?s) = agent_in (sy_manager s)"
    by (auto simp: agent_in_def m upd_task_slot_def fun_eq_iff)
  ultimately show ?thesis using assms(1)
    by (simp add: task_inv_def agents_ok_def) (simp add: permit_state_def set_call_def)
qed

lemma begin_init_cases:
  assumes "begin_init k s = Some s'"
  obtains slot options managed where "sy_calls s k = AwaitingSlot slot options"
      "oc_value (tm_slots (sy_manager s) slot) = Some managed" "s' = set_call k (Built slot (mt_agent managed)) s"
  | slot options where "sy_calls s k = AwaitingSlot slot options" "oc_value (tm_slots (sy_manager s) slot) = None"
      "oc_permit (tm_slots (sy_manager s) slot) = None" "s' = permit_state k (Initialising slot options) slot (Some k) s"
  using assms by (auto simp: begin_init_def permit_state_def split: TaskCall.splits option.splits)

lemma inv_begin_init:
  assumes "task_inv s" "begin_init k s = Some s'" shows "task_inv s'"
  using assms(2)
proof (cases rule: begin_init_cases)
  case (1 slot options managed)
  then show ?thesis using assms(1) by (auto intro!: inv_set_call)
next
  case (2 slot options)
  have "call_ok (sy_manager s) k (sy_calls s k)" using assms(1) by (simp add: task_inv_def calls_ok_def)
  then show ?thesis using 2 assms(1) by (auto intro!: inv_permit)
qed

lemma permit_holder:
  assumes "task_inv s" "sy_calls s k = Initialising slot options"
  shows "oc_permit (tm_slots (sy_manager s) slot) = Some k" "oc_value (tm_slots (sy_manager s) slot) = None"
    "slot < tm_next_slot (sy_manager s)"
proof -
  have "call_ok (sy_manager s) k (sy_calls s k)" using assms(1) by (simp add: task_inv_def calls_ok_def)
  with assms(2) show 1: "oc_permit (tm_slots (sy_manager s) slot) = Some k" "slot < tm_next_slot (sy_manager s)" by auto
  show "oc_value (tm_slots (sy_manager s) slot) = None"
    using 1 assms(1) by (metis option.distinct(1) slots_ok_def task_inv_def)
qed

lemma inv_release_permit:
  assumes "task_inv s" "sy_calls s k = Initialising slot options" "c \<in> {CallEnded} \<union> range BuildFailed"
  shows "task_inv (permit_state k c slot None s)"
  by (rule inv_permit) (use assms permit_holder [OF assms(1,2)] in auto)

lemma inv_drop_call: "task_inv s \<Longrightarrow> drop_call k s = Some s' \<Longrightarrow> task_inv s'"
  unfolding drop_call_def permit_state_def [symmetric]
  by (cases "sy_calls s k") (auto simp: inv_release_permit intro!: inv_set_call)

text \<open>The state after the factory has built an agent.\<close>

definition built_state :: "nat \<Rightarrow> nat \<Rightarrow> RuntimeCapabilities \<Rightarrow> TaskSystem \<Rightarrow> TaskSystem" where
  "built_state k slot caps s = set_call k (Built slot (sy_next_agent s))
     (s\<lparr>sy_manager := upd_task_slot slot (\<lambda>_. \<lparr>oc_value = Some \<lparr>mt_agent = sy_next_agent s, mt_runtime_capabilities = caps\<rparr>,
          oc_permit = None\<rparr>) (sy_manager s),
        sy_unkilled := sy_unkilled s @ [sy_next_agent s], sy_next_agent := sy_next_agent s + 1\<rparr>)"

lemma built_state_simps [simp]:
  "sy_calls (built_state k slot caps s) = (sy_calls s)(k := Built slot (sy_next_agent s))"
  "sy_manager (built_state k slot caps s) = upd_task_slot slot
     (\<lambda>_. \<lparr>oc_value = Some \<lparr>mt_agent = sy_next_agent s, mt_runtime_capabilities = caps\<rparr>, oc_permit = None\<rparr>) (sy_manager s)"
  "sy_unkilled (built_state k slot caps s) = sy_unkilled s @ [sy_next_agent s]"
  "sy_next_agent (built_state k slot caps s) = sy_next_agent s + 1"
  by (simp_all add: built_state_def set_call_def)

lemma agent_in_built:
  "agent_in (sy_manager (built_state k slot caps s)) slot' agent \<longleftrightarrow>
     (if slot' = slot then agent = sy_next_agent s else agent_in (sy_manager s) slot' agent)"
  by (auto simp: agent_in_def upd_task_slot_def)

lemma inv_built:
  assumes "task_inv s" "sy_calls s k = Initialising slot options"
  shows "task_inv (built_state k slot caps s)" (is "task_inv ?s")
proof -
  note p = permit_holder [OF assms]
  have "calls_ok ?s"
    by (rule calls_ok_slot [OF _ p(2) _ _ built_state_simps(2,1)]) (use assms p in \<open>auto simp: task_inv_def upd_task_slot_def\<close>)
  moreover have "slots_ok (sy_manager ?s)"
    unfolding built_state_simps by (rule slots_ok_slot) (use assms p in \<open>auto simp: task_inv_def\<close>)
  moreover have "agents_ok ?s"
  proof -
    have no: "\<not> agent_in (sy_manager s) slot agent" for agent using p(2) by (simp add: agent_in_def)
    have ok: "agents_ok s" using assms(1) by (simp add: task_inv_def)
    have "sy_next_agent s \<notin> set (sy_unkilled s)" using ok by (auto simp: agents_ok_def)
    moreover have "\<exists>slot'. agent_in (sy_manager ?s) slot' agent" if "agent \<in> set (sy_unkilled ?s)" for agent
      using that ok no unfolding agent_in_built agents_ok_def by (auto split: if_splits) metis
    moreover have "agent < sy_next_agent ?s" if "agent_in (sy_manager ?s) slot' agent" for slot' agent
      using that ok unfolding agent_in_built agents_ok_def by (auto split: if_splits simp: less_Suc_eq)
    moreover have "slot1 = slot2"
      if "agent_in (sy_manager ?s) slot1 agent" "agent_in (sy_manager ?s) slot2 agent" for slot1 slot2 agent
      using that ok unfolding agent_in_built agents_ok_def by (cases "slot1 = slot"; cases "slot2 = slot"; simp; blast)
    ultimately show ?thesis using ok unfolding agents_ok_def by auto
  qed
  ultimately show ?thesis by (simp add: task_inv_def)
qed

lemma finish_init_cases:
  assumes "finish_init failure k s = Some s'"
  obtains slot options e where "sy_calls s k = Initialising slot options"
      "s' = permit_state k (BuildFailed e) slot None s"
  | slot options where "sy_calls s k = Initialising slot options"
      "s' = built_state k slot (bo_runtime_capabilities options) s"
  using assms by (auto simp: finish_init_def built_state_def permit_state_def Let_def split: TaskCall.splits option.splits)

lemma inv_finish_init: "task_inv s \<Longrightarrow> finish_init failure k s = Some s' \<Longrightarrow> task_inv s'"
  by (erule finish_init_cases) (auto simp: inv_release_permit inv_built)

lemma inv_exec_op:
  assumes "task_inv s" "exec_op h op s = Some s'" shows "task_inv s'"
  using assms by (cases op)
    (auto simp: exec_op_def clear_task_eq intro!: inv_set_call split: if_splits
      intro: inv_check_capabilities inv_rebuild inv_take_slot inv_begin_init inv_finish_init inv_drop_call inv_kill
        inv_kill_and_wait inv_await_kill)

definition fresh_tasks :: "TaskSystem \<Rightarrow> bool" where
  "fresh_tasks s \<longleftrightarrow> (\<exists>leases tokens. s = new_task_system leases tokens)"

definition task_step :: "(string \<Rightarrow> string) \<Rightarrow> TaskSystem \<Rightarrow> TaskSystem \<Rightarrow> bool" where
  "task_step h s s' \<longleftrightarrow> (\<exists>op. exec_op h op s = Some s')"

interpretation tasks: machine fresh_tasks "task_step h" task_inv for h
proof
  fix s s'
  show "task_inv s" if "fresh_tasks s"
    using that by (auto simp: task_inv_defs fresh_tasks_def agent_in_def new_task_system_def new_task_manager_def new_slot_def)
  show "task_inv s'" if "task_inv s" "task_step h s s'"
    using that inv_exec_op unfolding task_step_def by blast
qed

section \<open>The manager knows the agents it has not killed\<close>

lemma get_task_iff: "get_task conv m = Some agent \<longleftrightarrow> (\<exists>slot. map_of (tm_tasks m) conv = Some slot \<and> agent_in m slot agent)"
  by (auto simp: get_task_def initialised_managed_task_def agent_in_def bind_eq_Some_conv)

lemma mapped_iff: "slots_ok m \<Longrightarrow> slot \<in> snd ` set (tm_tasks m) \<longleftrightarrow> (\<exists>conv. map_of (tm_tasks m) conv = Some slot)"
  by (force simp: slots_ok_def keyed_def dest: map_of_SomeD)

lemma same_slot:
  assumes "slots_ok m" "map_of (tm_tasks m) c = Some slot" "map_of (tm_tasks m) c' = Some slot" shows "c = c'"
  using slot_key [OF assms(1) map_of_SomeD [OF assms(2)] map_of_SomeD [OF assms(3)]] .

text \<open>
  A call builds in a slot, or waits for the slot to build in it. An operation is clean when it does not remove the
  task of such a slot as long as the slot has no agent.
\<close>

definition slot_in_use :: "nat \<Rightarrow> TaskSystem \<Rightarrow> bool" where
  "slot_in_use slot s \<longleftrightarrow> (\<exists>k options. sy_calls s k \<in> {AwaitingSlot slot options, Initialising slot options})"

definition removes_safely :: "string \<Rightarrow> TaskSystem \<Rightarrow> bool" where
  "removes_safely conv s \<longleftrightarrow>
     (case map_of (tm_tasks (sy_manager s)) conv of
        None \<Rightarrow> True
      | Some slot \<Rightarrow> oc_value (tm_slots (sy_manager s) slot) \<noteq> None \<or> \<not> slot_in_use slot s)"

definition clean_op :: "TaskOp \<Rightarrow> TaskSystem \<Rightarrow> bool" where
  "clean_op op s \<longleftrightarrow>
     (case op of
        Kill _ conv \<Rightarrow> removes_safely conv s
      | ClearTask _ conv \<Rightarrow> removes_safely conv s
      | KillAndWait _ _ conv \<Rightarrow> removes_safely conv s
      | Rebuild _ _ _ k \<Rightarrow> (case sy_calls s k of Rebuilding conv _ \<Rightarrow> removes_safely conv s | _ \<Rightarrow> True)
      | _ \<Rightarrow> True)"

fun call_known :: "WorkerTaskManager \<Rightarrow> TaskCall \<Rightarrow> bool" where
  "call_known m (AwaitingSlot slot _) \<longleftrightarrow> oc_value (tm_slots m slot) = None \<longrightarrow> slot \<in> snd ` set (tm_tasks m)"
| "call_known m (Initialising slot _) \<longleftrightarrow> oc_value (tm_slots m slot) = None \<longrightarrow> slot \<in> snd ` set (tm_tasks m)"
| "call_known m (AwaitingKill slot) \<longleftrightarrow> oc_value (tm_slots m slot) = None"
| "call_known m _ \<longleftrightarrow> True"

definition known :: "TaskSystem \<Rightarrow> bool" where
  "known s \<longleftrightarrow> (\<forall>k. call_known (sy_manager s) (sy_calls s k))
     \<and> (\<forall>agent. agent \<in> set (sy_unkilled s) \<longleftrightarrow> (\<exists>conv. get_task conv (sy_manager s) = Some agent))"

lemma known_call: "known s \<Longrightarrow> sy_calls s k = c \<Longrightarrow> call_known (sy_manager s) c"
  by (auto simp: known_def)

lemma known_set_call: "known s \<Longrightarrow> call_known (sy_manager s) c \<Longrightarrow> known (set_call k c s)"
  by (simp add: known_def set_call_def)

lemma call_known_cong:
  assumes "call_known m c" "\<And>slot. oc_value (tm_slots m' slot) = oc_value (tm_slots m slot)"
    and "snd ` set (tm_tasks m) \<subseteq> snd ` set (tm_tasks m')"
  shows "call_known m' c"
  using assms by (cases c) auto

lemma known_permit:
  assumes "known s" "call_known (sy_manager s) c" shows "known (permit_state k c slot permit s)"
proof -
  let ?m = "upd_task_slot slot (\<lambda>c. c\<lparr>oc_permit := permit\<rparr>) (sy_manager s)"
  have m: "oc_value (tm_slots ?m x) = oc_value (tm_slots (sy_manager s) x)" "tm_tasks ?m = tm_tasks (sy_manager s)"
    for x by (simp_all add: upd_task_slot_def)
  have calls: "call_known ?m c'" if "call_known (sy_manager s) c'" for c' by (rule call_known_cong [OF that]) (simp_all add: m)
  have "known (s\<lparr>sy_manager := ?m\<rparr>)"
    using assms(1) calls by (simp add: known_def get_task_def initialised_managed_task_def m)
  then show ?thesis unfolding permit_state_def by (rule known_set_call) (simp add: calls assms(2))
qed

lemma known_kill:
  assumes "task_inv s" "known s" "removes_safely conv s" shows "known (snd (kill failure conv s))"
proof -
  let ?m = "sy_manager s" and ?s = "snd (kill failure conv s)"
  have ok: "slots_ok ?m" using assms(1) by (simp add: task_inv_def)
  have get: "get_task c (sy_manager ?s) = Some agent \<longleftrightarrow> c \<noteq> conv \<and> get_task c ?m = Some agent" for c agent
    by (auto simp: get_task_iff agent_in_def AList.delete_conv' split: if_splits)
  have run: "agent \<in> set (sy_unkilled ?s) \<longleftrightarrow> agent \<in> set (sy_unkilled s) \<and> get_task conv ?m \<noteq> Some agent" for agent
    by (auto simp: kill_eq Let_def stop_agent_def get_task_def split: option.splits)
  have uniq: "c = conv" if "get_task conv ?m = Some agent" "get_task c ?m = Some agent" for c agent
    using that assms(1) same_slot [OF ok] unfolding get_task_iff task_inv_def agents_ok_def by metis
  have kept: "slot \<in> snd ` set (tm_tasks (sy_manager ?s))"
    if use: "slot_in_use slot s" "oc_value (tm_slots ?m slot) = None" "slot \<in> snd ` set (tm_tasks ?m)" for slot
  proof -
    obtain c where c: "map_of (tm_tasks ?m) c = Some slot" using use(3) mapped_iff [OF ok] by blast
    moreover have "c \<noteq> conv" using c use(1,2) assms(3) by (auto simp: removes_safely_def)
    ultimately have "map_of (tm_tasks (sy_manager ?s)) c = Some slot" by (simp add: AList.delete_conv')
    then show ?thesis by (auto dest: map_of_SomeD intro: rev_image_eqI)
  qed
  have "call_known (sy_manager ?s) (sy_calls ?s k)" for k
    using known_call [OF assms(2) refl, of k] kept by (cases "sy_calls s k") (auto simp: slot_in_use_def)
  moreover have "agent \<in> set (sy_unkilled ?s) \<longleftrightarrow> (\<exists>c. get_task c (sy_manager ?s) = Some agent)" for agent
    using assms(2) uniq unfolding run get known_def by metis
  ultimately show ?thesis unfolding known_def by simp
qed

lemma known_manager:
  assumes "known s" "tm_slots m = tm_slots (sy_manager s)" "tm_tasks m = tm_tasks (sy_manager s)"
  shows "known (s\<lparr>sy_manager := m\<rparr>)"
  using assms call_known_cong [of "sy_manager s" _ m] by (simp add: known_def get_task_def initialised_managed_task_def)

lemma known_take_slot:
  assumes "task_inv s" "known s" "take_slot k s = Some s'" shows "known s'"
proof -
  have ok: "slots_ok (sy_manager s)" using assms(1) by (simp add: task_inv_def)
  obtain conv options where s': "s' = set_call k (AwaitingSlot (fst (entry_slot conv (sy_manager s))) options)
        (s\<lparr>sy_manager := snd (entry_slot conv (sy_manager s))\<rparr>)"
    by (rule take_slot_cases [OF assms(3)])
  have "oc_value (tm_slots (sy_manager s) (tm_next_slot (sy_manager s))) = None"
    using ok by (simp add: slots_ok_def new_slot_def)
  then have "get_task c (snd (entry_slot conv (sy_manager s))) = get_task c (sy_manager s)" for c
    by (auto simp: entry_slot_def get_task_def initialised_managed_task_def AList.update_conv' split: option.splits)
  moreover have tasks: "snd ` set (tm_tasks (sy_manager s)) \<subseteq> snd ` set (tm_tasks (snd (entry_slot conv (sy_manager s))))"
    by (auto simp: entry_slot_def update_absent split: option.splits)
  moreover have "call_known (snd (entry_slot conv (sy_manager s))) c" if "call_known (sy_manager s) c" for c
    by (rule call_known_cong [OF that]) (use tasks entry_slot_ok(3) [OF ok] in simp_all)
  ultimately have "known (s\<lparr>sy_manager := snd (entry_slot conv (sy_manager s))\<rparr>)"
    using assms(2) by (simp add: known_def)
  moreover have "fst (entry_slot conv (sy_manager s)) \<in> snd ` set (tm_tasks (snd (entry_slot conv (sy_manager s))))"
    using map_of_SomeD [OF entry_slot_ok(5) [OF ok, of conv]] by (auto intro: rev_image_eqI)
  ultimately show ?thesis unfolding s' by (intro known_set_call) simp_all
qed

lemma known_built:
  assumes "task_inv s" "known s" "sy_calls s k = Initialising slot options" shows "known (built_state k slot caps s)"
proof -
  note p = permit_holder [OF assms(1,3)]
  have ok: "slots_ok (sy_manager s)" using assms(1) by (simp add: task_inv_def)
  have mapped: "slot \<in> snd ` set (tm_tasks (sy_manager s))" using known_call [OF assms(2,3)] p by simp
  then obtain c where c: "map_of (tm_tasks (sy_manager s)) c = Some slot" using mapped_iff [OF ok] by blast
  have tasks: "tm_tasks (sy_manager (built_state k slot caps s)) = tm_tasks (sy_manager s)" by (simp add: upd_task_slot_def)
  have get: "get_task conv (sy_manager (built_state k slot caps s)) = Some agent \<longleftrightarrow>
      (if conv = c then agent = sy_next_agent s else get_task conv (sy_manager s) = Some agent)" for conv agent
  proof (cases "conv = c")
    case True
    with c show ?thesis unfolding get_task_iff agent_in_built tasks by simp
  next
    case False
    then have "map_of (tm_tasks (sy_manager s)) conv \<noteq> Some slot" using c same_slot [OF ok] by blast
    with False show ?thesis unfolding get_task_iff agent_in_built tasks by auto
  qed
  have none: "get_task c (sy_manager s) = None" using c p(2) by (simp add: get_task_def initialised_managed_task_def)
  have "agent \<in> set (sy_unkilled (built_state k slot caps s)) \<longleftrightarrow>
      (\<exists>conv. get_task conv (sy_manager (built_state k slot caps s)) = Some agent)" for agent
    using assms(2) none unfolding get known_def by (cases "agent = sy_next_agent s") (auto, metis option.distinct(1))
  moreover have "call_known (sy_manager (built_state k slot caps s)) (sy_calls (built_state k slot caps s) j)" for j
  proof (cases "j = k")
    case False
    have "call_ok (sy_manager s) j (sy_calls s j)" using assms(1) by (simp add: task_inv_def calls_ok_def)
    then show ?thesis using False known_call [OF assms(2) refl, of j] mapped
      by (cases "sy_calls s j") (auto simp: upd_task_slot_def)
  qed simp
  ultimately show ?thesis unfolding known_def by blast
qed

lemma known_exec_op:
  assumes "task_inv s" "known s" "clean_op op s" "exec_op h op s = Some s'" shows "known s'"
proof (cases op)
  case (Rebuild failure buf now k)
  then have run: "rebuild h failure buf now k s = Some s'" using assms(4) by (simp add: exec_op_def)
  then show ?thesis
  proof (cases rule: rebuild_cases)
    case (1 conv options e)
    then show ?thesis using assms(1-3) Rebuild by (auto simp: clean_op_def intro!: known_set_call known_kill)
  next
    case (2 conv options options' m)
    then have "known (snd (kill failure conv s))" using assms(1-3) Rebuild by (auto simp: clean_op_def intro!: known_kill)
    then show ?thesis unfolding 2(3) using 2(2) by (intro known_set_call known_manager) auto
  qed
next
  case (FinishInit failure k)
  then have "finish_init failure k s = Some s'" using assms(4) by (simp add: exec_op_def)
  then show ?thesis by (cases rule: finish_init_cases) (auto simp: known_permit known_built assms(1,2))
next
  case (BeginInit k)
  then have "begin_init k s = Some s'" using assms(4) by (simp add: exec_op_def)
  then show ?thesis
    by (cases rule: begin_init_cases) (auto simp: assms(2) intro!: known_permit known_set_call dest: known_call [OF assms(2)])
next
  case (DropCall k)
  then show ?thesis using assms(2,4) unfolding exec_op_def drop_call_def permit_state_def [symmetric]
    by (cases "sy_calls s k") (auto intro!: known_set_call known_permit)
next
  case (KillAndWait failure k conv)
  then show ?thesis using assms
    by (auto simp: exec_op_def clean_op_def kill_and_wait_eq intro!: known_set_call known_kill split: if_splits option.splits)
next
  case (AwaitKill failure k)
  then obtain slot where call: "sy_calls s k = AwaitingKill slot" "await_kill failure k s = Some s'"
    using assms(4) by (auto simp: exec_op_def await_kill_def split: TaskCall.splits)
  then show ?thesis using known_call [OF assms(2) call(1)] assms(2)
    by (auto simp: await_kill_def intro!: known_set_call split: option.splits)
qed (use assms in \<open>auto simp: exec_op_def clean_op_def clear_task_eq check_capabilities_def known_kill
      intro!: known_set_call intro: known_take_slot split: if_splits TaskCall.splits option.splits\<close>)

definition clean_task_step :: "(string \<Rightarrow> string) \<Rightarrow> TaskSystem \<Rightarrow> TaskSystem \<Rightarrow> bool" where
  "clean_task_step h s s' \<longleftrightarrow> (\<exists>op. clean_op op s \<and> exec_op h op s = Some s')"

interpretation clean_tasks: machine fresh_tasks "clean_task_step h" "\<lambda>s. task_inv s \<and> known s" for h
proof
  fix s s'
  show "task_inv s \<and> known s" if "fresh_tasks s"
    using that tasks.init_inv [of s] by (auto simp: known_def fresh_tasks_def new_task_system_def new_task_manager_def
        get_task_def initialised_managed_task_def)
  show "task_inv s' \<and> known s'" if "task_inv s \<and> known s" "clean_task_step h s s'"
    using that inv_exec_op known_exec_op unfolding clean_task_step_def by blast
qed

section \<open>Agents the manager does not see\<close>

text \<open>The agent was not killed, its slot is not in the map, and no call waits to kill it.\<close>

definition lost :: "nat \<Rightarrow> nat \<Rightarrow> TaskSystem \<Rightarrow> bool" where
  "lost slot agent s \<longleftrightarrow> slot < tm_next_slot (sy_manager s) \<and> slot \<notin> snd ` set (tm_tasks (sy_manager s))
     \<and> agent_in (sy_manager s) slot agent \<and> agent \<in> set (sy_unkilled s) \<and> (\<forall>k. sy_calls s k \<noteq> AwaitingKill slot)"

lemma lost_set_call: "lost slot agent s \<Longrightarrow> c \<noteq> AwaitingKill slot \<Longrightarrow> lost slot agent (set_call k c s)"
  by (simp add: lost_def set_call_def)

lemma lost_stop:
  assumes "task_inv s" "lost slot agent s" "agent_in (sy_manager s) slot' agent'" "slot' \<noteq> slot"
  shows "lost slot agent (snd (stop_agent failure agent' s))"
proof -
  have "agent' \<noteq> agent" using assms unfolding task_inv_def agents_ok_def lost_def by metis
  then show ?thesis using assms(2) by (auto simp: stop_agent_def lost_def split: option.splits)
qed

lemma lost_kill:
  assumes "task_inv s" "lost slot agent s" shows "lost slot agent (snd (kill failure conv s))"
proof -
  let ?s = "s\<lparr>sy_manager := snd (remove_task conv (sy_manager s))\<rparr>"
  have inv: "task_inv ?s" by (rule inv_remove [OF assms(1)])
  have in_eq: "agent_in (snd (remove_task conv (sy_manager s))) = agent_in (sy_manager s)" by (rule agent_in_cong) simp
  have lost: "lost slot agent ?s"
    using assms(2) set_delete_subset [of conv "tm_tasks (sy_manager s)"] by (auto simp: lost_def in_eq intro: rev_image_eqI)
  show ?thesis
  proof (cases "initialised_managed_task conv (sy_manager s)")
    case None
    then show ?thesis using lost by (simp add: kill_eq Let_def)
  next
    case (Some managed)
    then obtain slot' where slot': "map_of (tm_tasks (sy_manager s)) conv = Some slot'"
        "agent_in (sy_manager s) slot' (mt_agent managed)"
      by (auto simp: initialised_managed_task_def agent_in_def bind_eq_Some_conv)
    then have "slot' \<noteq> slot" using assms(2) by (auto simp: lost_def dest!: map_of_SomeD intro: rev_image_eqI)
    then show ?thesis using lost_stop [OF inv lost, of slot' "mt_agent managed" failure] slot' Some
      by (simp add: kill_eq Let_def in_eq)
  qed
qed

lemma lost_manager:
  assumes "lost slot agent s" "tm_slots m = tm_slots (sy_manager s)" "tm_next_slot (sy_manager s) \<le> tm_next_slot m"
    and "snd ` set (tm_tasks m) \<subseteq> snd ` set (tm_tasks (sy_manager s)) \<union> {tm_next_slot (sy_manager s)..}"
  shows "lost slot agent (s\<lparr>sy_manager := m\<rparr>)"
  using assms agent_in_cong [OF assms(2)] by (auto simp: lost_def)

lemma lost_permit: "lost slot agent s \<Longrightarrow> c \<noteq> AwaitingKill slot \<Longrightarrow> lost slot agent (permit_state k c slot' permit s)"
  by (auto simp: lost_def permit_state_def set_call_def upd_task_slot_def agent_in_def)

lemma lost_built:
  assumes "task_inv s" "lost slot agent s" "sy_calls s k = Initialising slot' options"
  shows "lost slot agent (built_state k slot' caps s)"
proof -
  have "slot' \<noteq> slot" using permit_holder(2) [OF assms(1,3)] assms(2) by (auto simp: lost_def agent_in_def)
  then show ?thesis using assms(2) unfolding lost_def agent_in_built by (auto simp: upd_task_slot_def)
qed

lemma lost_await_kill:
  assumes "task_inv s" "lost slot agent s" "await_kill failure k s = Some s'" shows "lost slot agent s'"
proof -
  obtain slot' where call: "sy_calls s k = AwaitingKill slot'" using assms(3) by (auto simp: await_kill_def split: TaskCall.splits)
  then have "slot' \<noteq> slot" using assms(2) by (auto simp: lost_def)
  with call assms(3) show ?thesis
    by (auto simp: await_kill_def agent_in_def assms(2) split: option.splits
        intro!: lost_set_call lost_stop [OF assms(1,2), of slot'])
qed

lemma lost_rebuild:
  assumes "task_inv s" "lost slot agent s" "rebuild h failure buf now k s = Some s'" shows "lost slot agent s'"
  using assms(3)
proof (cases rule: rebuild_cases)
  case (1 conv options e)
  then show ?thesis using lost_kill [OF assms(1,2)] by (auto intro: lost_set_call)
next
  case (2 conv options options' m)
  then show ?thesis using lost_kill [OF assms(1,2)] by (auto intro!: lost_set_call lost_manager)
qed

lemma lost_kill_and_wait:
  assumes "task_inv s" "lost slot agent s" shows "lost slot agent (kill_and_wait failure k conv s)"
  unfolding kill_and_wait_eq
  by (rule lost_set_call [OF lost_kill [OF assms]]) (use assms(2) in \<open>auto simp: lost_def dest!: map_of_SomeD
      intro: rev_image_eqI split: option.splits\<close>)

lemma lost_exec_op:
  assumes "task_inv s" "lost slot agent s" "exec_op h op s = Some s'" shows "lost slot agent s'"
proof (cases op)
  case (TakeSlot k)
  then have "take_slot k s = Some s'" using assms(3) by (simp add: exec_op_def)
  moreover have "slots_ok (sy_manager s)" using assms(1) by (simp add: task_inv_def)
  ultimately show ?thesis
    by (elim take_slot_cases) (auto intro!: lost_set_call lost_manager assms(2) dest: entry_slot_ok entry_slot_ok(6) [THEN subsetD])
next
  case (FinishInit failure k)
  then have "finish_init failure k s = Some s'" using assms(3) by (simp add: exec_op_def)
  then show ?thesis by (cases rule: finish_init_cases) (auto simp: lost_permit lost_built assms(1,2))
next
  case (BeginInit k)
  then have "begin_init k s = Some s'" using assms(3) by (simp add: exec_op_def)
  then show ?thesis by (cases rule: begin_init_cases) (auto simp: lost_permit lost_set_call assms(2))
next
  case (DropCall k)
  then show ?thesis using assms(2,3) unfolding exec_op_def drop_call_def permit_state_def [symmetric]
    by (cases "sy_calls s k") (auto intro!: lost_set_call lost_permit)
next
  case (CheckCapabilities k)
  then show ?thesis using assms(2,3)
    by (auto simp: exec_op_def check_capabilities_def intro: lost_set_call split: if_splits TaskCall.splits option.splits)
next
  case (Rebuild failure buf now k)
  then show ?thesis using assms(3) lost_rebuild [OF assms(1,2)] by (simp add: exec_op_def)
next
  case (AwaitKill failure k)
  then show ?thesis using assms(3) lost_await_kill [OF assms(1,2)] by (simp add: exec_op_def)
next
  case (StartBuild k conv options)
  then show ?thesis using assms(2,3) by (auto simp: exec_op_def intro: lost_set_call split: if_splits)
qed (use assms(3) lost_kill [OF assms(1,2)] lost_kill_and_wait [OF assms(1,2)] in
    \<open>auto simp: exec_op_def clear_task_eq split: if_splits\<close>)

lemma lost_exec_ops:
  "task_inv s \<Longrightarrow> lost slot agent s \<Longrightarrow> exec_ops h ops s = Some s' \<Longrightarrow> lost slot agent s'"
  by (induction ops arbitrary: s) (auto simp: bind_eq_Some_conv intro: inv_exec_op lost_exec_op)

end
