(* ===== verification/Agent_Task_Props.thy ===== *)
theory Agent_Task_Props
  imports Agent_Task_Steps
begin

text \<open>
  The properties of the agent tasks: calls for one conversation share the agent one of them builds, the manager knows
  every agent it has not killed unless a slot is taken away from a build, and what becomes of the agent when it is.
\<close>

section \<open>Examples\<close>

definition demo_options :: "u32 option \<Rightarrow> BuildTaskOptions" where
  "demo_options v = \<lparr>bo_kind = TjuaeCliSession, bo_skills = [], bo_conversation_id = ''c'', bo_user_id = ''u'',
     bo_runtime_env = [], bo_team = False, bo_runtime_capabilities = \<lparr>cap_context_version = v\<rparr>\<rparr>"

definition demo_tasks :: TaskSystem where
  "demo_tasks = new_task_system (with_ttl_ms ACTIVE_LEASE_TTL_MS) None"

text \<open>Two calls for one conversation, the first of which builds the agent.\<close>

definition demo_two_calls :: "TaskOp list" where
  "demo_two_calls = [StartBuild 0 ''c'' (demo_options None), StartBuild 1 ''c'' (demo_options None), CheckCapabilities 0,
     CheckCapabilities 1, TakeSlot 0, TakeSlot 1, BeginInit 0, FinishInit None 0, BeginInit 1]"

lemma exec_ops_reach:
  "reach init (task_step h) s \<Longrightarrow> exec_ops h ops s = Some s' \<Longrightarrow> reach init (task_step h) s'"
proof (induction ops arbitrary: s)
  case (Cons op ops)
  then obtain t where "exec_op h op s = Some t" "exec_ops h ops t = Some s'" by (auto simp: bind_eq_Some_conv)
  then show ?case using Cons.IH [OF reach_step [OF Cons.prems(1)]] by (auto simp: task_step_def)
qed simp

lemma exec_ops_append: "exec_ops h (ops @ ops') s = Option.bind (exec_ops h ops s) (exec_ops h ops')"
  by (induction ops arbitrary: s) (auto split: Option.bind_splits)

text \<open>For the examples: the tasks that are removed have an agent.\<close>

definition removes_built :: "TaskOp \<Rightarrow> TaskSystem \<Rightarrow> bool" where
  "removes_built op s \<longleftrightarrow>
     (let has_agent = (\<lambda>conv. get_task conv (sy_manager s) \<noteq> None)
      in case op of
        Kill _ conv \<Rightarrow> has_agent conv
      | ClearTask _ conv \<Rightarrow> has_agent conv
      | KillAndWait _ _ conv \<Rightarrow> has_agent conv
      | Rebuild _ _ _ k \<Rightarrow> (case sy_calls s k of Rebuilding conv _ \<Rightarrow> has_agent conv | _ \<Rightarrow> True)
      | _ \<Rightarrow> True)"

lemma removes_built_clean: "removes_built op s \<Longrightarrow> clean_op op s"
proof -
  have "removes_safely conv s" if "get_task conv (sy_manager s) \<noteq> None" for conv
    using that by (auto simp: removes_safely_def get_task_def initialised_managed_task_def split: option.splits)
  then show "removes_built op s \<Longrightarrow> clean_op op s"
    by (auto simp: removes_built_def clean_op_def split: TaskOp.splits TaskCall.splits)
qed

fun clean_ops :: "(string \<Rightarrow> string) \<Rightarrow> TaskOp list \<Rightarrow> TaskSystem \<Rightarrow> bool" where
  "clean_ops h [] s \<longleftrightarrow> True"
| "clean_ops h (op # ops) s \<longleftrightarrow> removes_built op s \<and> (case exec_op h op s of Some s' \<Rightarrow> clean_ops h ops s' | None \<Rightarrow> True)"

lemma exec_ops_clean_reach:
  "reach init (clean_task_step h) s \<Longrightarrow> clean_ops h ops s \<Longrightarrow> exec_ops h ops s = Some s' \<Longrightarrow>
   reach init (clean_task_step h) s'"
proof (induction ops arbitrary: s)
  case (Cons op ops)
  then obtain t where "exec_op h op s = Some t" "exec_ops h ops t = Some s'" "clean_op op s" "clean_ops h ops t"
    by (auto simp: bind_eq_Some_conv removes_built_clean)
  then show ?case using Cons.IH [OF reach_step [OF Cons.prems(1)]] by (auto simp: clean_task_step_def)
qed simp

lemma demo_tasks_reach: "reach fresh_tasks r demo_tasks"
  by (rule reach_init) (auto simp: fresh_tasks_def demo_tasks_def)

section \<open>Builds\<close>

text \<open>An operation that removes the task of a conversation without waiting for it.\<close>

definition removes_task :: "string \<Rightarrow> TaskOp \<Rightarrow> TaskSystem \<Rightarrow> bool" where
  "removes_task conv op s \<longleftrightarrow>
     (case op of
        Kill _ c \<Rightarrow> c = conv
      | ClearTask _ c \<Rightarrow> c = conv
      | Rebuild _ _ _ k \<Rightarrow> (case sy_calls s k of Rebuilding c _ \<Rightarrow> c = conv | _ \<Rightarrow> False)
      | _ \<Rightarrow> False)"

definition takes_away :: "string \<Rightarrow> TaskOp \<Rightarrow> TaskSystem \<Rightarrow> bool" where
  "takes_away conv op s \<longleftrightarrow> removes_task conv op s \<or> (case op of KillAndWait _ _ c \<Rightarrow> c = conv | _ \<Rightarrow> False)"

fun undisturbed :: "(string \<Rightarrow> string) \<Rightarrow> string \<Rightarrow> TaskOp list \<Rightarrow> TaskSystem \<Rightarrow> bool" where
  "undisturbed h conv [] s \<longleftrightarrow> True"
| "undisturbed h conv (op # ops) s \<longleftrightarrow>
     \<not> takes_away conv op s \<and> (case exec_op h op s of Some s' \<Rightarrow> undisturbed h conv ops s' | None \<Rightarrow> True)"

lemma exec_op_keeps_entry:
  assumes "task_inv s" "exec_op h op s = Some s'" "\<not> takes_away conv op s" "map_of (tm_tasks (sy_manager s)) conv = Some slot"
  shows "map_of (tm_tasks (sy_manager s')) conv = Some slot"
proof -
  have kill: "map_of (tm_tasks (sy_manager (snd (kill failure c s)))) conv = Some slot" if "c \<noteq> conv" for c failure
    using that assms(4) by (simp add: AList.delete_conv')
  have entry: "map_of (tm_tasks (snd (entry_slot c (sy_manager s)))) conv = Some slot" for c
    using assms(4) by (auto simp: entry_slot_def update_absent split: option.splits)
  show ?thesis
  proof (cases op)
    case (Rebuild failure buf now k)
    then have "rebuild h failure buf now k s = Some s'" using assms(2) by (simp add: exec_op_def)
    then show ?thesis using assms(3) Rebuild kill
      by (cases rule: rebuild_cases) (auto simp: takes_away_def removes_task_def set_call_def)
  next
    case (TakeSlot k)
    then have "take_slot k s = Some s'" using assms(2) by (simp add: exec_op_def)
    then show ?thesis using entry by (cases rule: take_slot_cases) (auto simp: set_call_def)
  next
    case (BeginInit k)
    then have "begin_init k s = Some s'" using assms(2) by (simp add: exec_op_def)
    then show ?thesis using assms(4)
      by (cases rule: begin_init_cases) (auto simp: set_call_def permit_state_def upd_task_slot_def)
  next
    case (FinishInit failure k)
    then have "finish_init failure k s = Some s'" using assms(2) by (simp add: exec_op_def)
    then show ?thesis using assms(4)
      by (cases rule: finish_init_cases) (auto simp: set_call_def permit_state_def upd_task_slot_def)
  qed (use assms(2-4) kill in \<open>auto simp: exec_op_def takes_away_def removes_task_def clear_task_eq kill_and_wait_eq check_capabilities_def
      drop_call_def await_kill_def set_call_def upd_task_slot_def split: if_splits TaskCall.splits option.splits\<close>)
qed

text \<open>The call waits for the slot, builds in it or was answered from it, or it has ended.\<close>

fun holds_slot :: "nat \<Rightarrow> TaskCall \<Rightarrow> bool" where
  "holds_slot slot (AwaitingSlot slot' _) \<longleftrightarrow> slot' = slot"
| "holds_slot slot (Initialising slot' _) \<longleftrightarrow> slot' = slot"
| "holds_slot slot (Built slot' _) \<longleftrightarrow> slot' = slot"
| "holds_slot slot (BuildFailed _) \<longleftrightarrow> True"
| "holds_slot slot CallEnded \<longleftrightarrow> True"
| "holds_slot slot _ \<longleftrightarrow> False"

lemma exec_op_holds:
  assumes "exec_op h op s = Some s'" "holds_slot slot (sy_calls s k)" shows "holds_slot slot (sy_calls s' k)"
proof (cases op)
  case (Rebuild failure buf now j)
  then have "rebuild h failure buf now j s = Some s'" using assms(1) by (simp add: exec_op_def)
  then show ?thesis using assms(2) by (cases rule: rebuild_cases) (auto simp: set_call_def)
next
  case (TakeSlot j)
  then have "take_slot j s = Some s'" using assms(1) by (simp add: exec_op_def)
  then show ?thesis using assms(2) by (cases rule: take_slot_cases) (auto simp: set_call_def)
next
  case (BeginInit j)
  then have "begin_init j s = Some s'" using assms(1) by (simp add: exec_op_def)
  then show ?thesis using assms(2) by (cases rule: begin_init_cases) (auto simp: set_call_def permit_state_def)
next
  case (FinishInit failure j)
  then have "finish_init failure j s = Some s'" using assms(1) by (simp add: exec_op_def)
  then show ?thesis using assms(2) by (cases rule: finish_init_cases) (auto simp: set_call_def permit_state_def)
qed (use assms in \<open>auto simp: exec_op_def clear_task_eq kill_and_wait_eq check_capabilities_def drop_call_def await_kill_def
    set_call_def split: if_splits TaskCall.splits option.splits\<close>)

lemma exec_ops_holds:
  "exec_ops h ops s = Some s' \<Longrightarrow> holds_slot slot (sy_calls s k) \<Longrightarrow> holds_slot slot (sy_calls s' k)"
  by (induction ops arbitrary: s) (auto simp: bind_eq_Some_conv intro: exec_op_holds)

lemma exec_ops_keep_entry:
  "task_inv s \<Longrightarrow> exec_ops h ops s = Some s' \<Longrightarrow> undisturbed h conv ops s \<Longrightarrow>
   map_of (tm_tasks (sy_manager s)) conv = Some slot \<Longrightarrow> map_of (tm_tasks (sy_manager s')) conv = Some slot"
proof (induction ops arbitrary: s)
  case (Cons op ops)
  then obtain t where t: "exec_op h op s = Some t" "exec_ops h ops t = Some s'" "\<not> takes_away conv op s" "undisturbed h conv ops t"
    by (auto simp: bind_eq_Some_conv)
  show ?case
    by (rule Cons.IH [OF inv_exec_op [OF Cons.prems(1) t(1)] t(2,4) exec_op_keeps_entry [OF Cons.prems(1) t(1,3) Cons.prems(4)]])
qed simp

lemma take_slot_effect:
  assumes "task_inv s" "take_slot k s = Some s'" "sy_calls s k = TakingSlot conv options"
  obtains slot where "map_of (tm_tasks (sy_manager s')) conv = Some slot" "holds_slot slot (sy_calls s' k)"
    "\<And>slot'. map_of (tm_tasks (sy_manager s)) conv = Some slot' \<Longrightarrow> slot' = slot"
proof -
  have "slots_ok (sy_manager s)" using assms(1) by (simp add: task_inv_def)
  note entry = entry_slot_ok(5) [OF this, of conv]
  have s': "s' = set_call k (AwaitingSlot (fst (entry_slot conv (sy_manager s))) options) (s\<lparr>sy_manager := snd (entry_slot conv (sy_manager s))\<rparr>)"
    by (rule take_slot_cases [OF assms(2)]) (use assms(3) in simp)
  show thesis
    by (rule that [of "fst (entry_slot conv (sy_manager s))"]) (use entry in \<open>auto simp: s' set_call_def entry_slot_def split: option.splits\<close>)
qed

text \<open>
  C19: Calls of get_or_build_task for one conversation share its agent: when one call has
  looked up the slot and no operation removes the conversation's task until a second call
  looks it up, the two never build at the same time and are answered with the same agent, in
  every interleaving with other calls, failed builds, dropped calls and removals that follow;
  and as long as the task is not removed, the lookup returns that agent.
\<close>

theorem callers_share_the_agent:
  assumes "reach fresh_tasks (task_step h) s" "sy_calls s k = TakingSlot conv options"
    and "exec_ops h (TakeSlot k # between) s = Some t" "undisturbed h conv (TakeSlot k # between) s"
    and "sy_calls t k' = TakingSlot conv options'" "exec_ops h (TakeSlot k' # later) t = Some u"
  shows "(\<forall>slot slot' a a'. sy_calls u k = Built slot a \<and> sy_calls u k' = Built slot' a' \<longrightarrow> slot = slot' \<and> a = a')
    \<and> (\<forall>slot slot' o1 o2. \<not> (sy_calls u k = Initialising slot o1 \<and> sy_calls u k' = Initialising slot' o2))
    \<and> (\<forall>slot a. undisturbed h conv (TakeSlot k' # later) t \<and> (sy_calls u k = Built slot a \<or> sy_calls u k' = Built slot a) \<longrightarrow>
         get_task conv (sy_manager u) = Some a)"
proof -
  have inv: "task_inv s" by (rule tasks.reach_inv [OF assms(1)])
  obtain s1 where s1: "take_slot k s = Some s1" "exec_ops h between s1 = Some t" "undisturbed h conv between s1"
    using assms(3,4) by (auto simp: bind_eq_Some_conv exec_op_def)
  obtain t1 where t1: "take_slot k' t = Some t1" "exec_ops h later t1 = Some u"
    using assms(6) by (auto simp: bind_eq_Some_conv exec_op_def)
  obtain slot where slot: "map_of (tm_tasks (sy_manager s1)) conv = Some slot" "holds_slot slot (sy_calls s1 k)"
    by (rule take_slot_effect [OF inv s1(1) assms(2)])
  have reach: "reach fresh_tasks (task_step h) t" "reach fresh_tasks (task_step h) u"
    using exec_ops_reach assms(1,3,6) by blast+
  then have inv_t: "task_inv t" and inv_u: "task_inv u" using tasks.reach_inv by blast+
  have "task_inv s1" using inv_take_slot [OF inv s1(1)] .
  then have entry: "map_of (tm_tasks (sy_manager t)) conv = Some slot" using exec_ops_keep_entry [OF _ s1(2,3)] slot(1) by blast
  then have k': "map_of (tm_tasks (sy_manager t1)) conv = Some slot" "holds_slot slot (sy_calls t1 k')"
    using take_slot_effect [OF inv_t t1(1) assms(5)] by metis+
  have held: "holds_slot slot (sy_calls u k)" "holds_slot slot (sy_calls u k')"
    using exec_ops_holds [OF assms(6) exec_ops_holds [OF s1(2) slot(2)]] exec_ops_holds [OF t1(2) k'(2)] by blast+
  have "holds_slot slot (sy_calls t k)" by (rule exec_ops_holds [OF s1(2) slot(2)])
  then have "k \<noteq> k'" using assms(5) by auto
  have built: "agent_in (sy_manager u) x a" if "sy_calls u j = Built x a" for j x a
  proof -
    have "call_ok (sy_manager u) j (sy_calls u j)" using inv_u by (simp add: task_inv_def calls_ok_def)
    with that show ?thesis by (simp add: agent_in_def)
  qed
  have "x = x' \<and> a = a'" if "sy_calls u k = Built x a" "sy_calls u k' = Built x' a'" for x x' a a'
    using held that built [OF that(1)] built [OF that(2)] by (auto simp: agent_in_def)
  moreover have "\<not> (sy_calls u k = Initialising x o1 \<and> sy_calls u k' = Initialising x' o2)" for x x' o1 o2
    using held \<open>k \<noteq> k'\<close> permit_holder(1) [OF inv_u, of k x o1] permit_holder(1) [OF inv_u, of k' x' o2] by auto
  moreover have "get_task conv (sy_manager u) = Some a"
    if "undisturbed h conv (TakeSlot k' # later) t" "sy_calls u k = Built x a \<or> sy_calls u k' = Built x a" for x a
    using exec_ops_keep_entry [OF inv_t assms(6) that(1) entry] that(2) held built by (auto simp: get_task_iff)
  ultimately show ?thesis by blast
qed

definition demo_first_call :: "TaskOp list" where
  "demo_first_call = [StartBuild 0 ''c'' (demo_options None), StartBuild 1 ''c'' (demo_options None), CheckCapabilities 0,
     CheckCapabilities 1]"

text \<open>The second call builds the agent; the first is answered with it.\<close>

definition demo_second_call :: "TaskOp list" where
  "demo_second_call = [TakeSlot 1, BeginInit 1, FinishInit None 1, BeginInit 0]"

theorem callers_share_the_agent_witness:
  "map_option (\<lambda>s. get_task ''c'' (sy_manager s)) (exec_ops id (demo_first_call @ [TakeSlot 0] @ demo_second_call) demo_tasks) = Some (Some 0)"
proof -
  have "map_option (\<lambda>s. (sy_calls s 0, undisturbed id ''c'' [TakeSlot 0] s)) (exec_ops id demo_first_call demo_tasks) =
      Some (TakingSlot ''c'' (demo_options None), True)"
    by code_simp
  then obtain s where s: "exec_ops id demo_first_call demo_tasks = Some s" "sy_calls s 0 = TakingSlot ''c'' (demo_options None)"
    "undisturbed id ''c'' [TakeSlot 0] s" by auto
  have "map_option (\<lambda>t. (sy_calls t 1, undisturbed id ''c'' demo_second_call t)) (exec_ops id (demo_first_call @ [TakeSlot 0]) demo_tasks) =
      Some (TakingSlot ''c'' (demo_options None), True)"
    by code_simp
  then obtain t where t: "exec_ops id [TakeSlot 0] s = Some t" "sy_calls t 1 = TakingSlot ''c'' (demo_options None)"
    "undisturbed id ''c'' demo_second_call t" using s(1) by (auto simp: exec_ops_append)
  have "map_option (\<lambda>u. sy_calls u 0) (exec_ops id (demo_first_call @ [TakeSlot 0] @ demo_second_call) demo_tasks) = Some (Built 0 0)"
    by code_simp
  then obtain u where u: "exec_ops id demo_second_call t = Some u" "sy_calls u 0 = Built 0 0"
      "exec_ops id (demo_first_call @ [TakeSlot 0] @ demo_second_call) demo_tasks = Some u"
    unfolding exec_ops_append s(1) bind.simps t(1) by auto
  note demo_second_call_def [simp]
  have "get_task ''c'' (sy_manager u) = Some 0"
    using callers_share_the_agent [OF exec_ops_reach [OF demo_tasks_reach s(1)] s(2) t(1) s(3) t(2), of "tl demo_second_call" u] t(3) u(1,2)
    by simp
  then show ?thesis using u(3) by simp
qed

text \<open>The agents that were not killed, counted, in a well-formed system in which every one is known.\<close>

lemma known_count:
  assumes "task_inv s" "known s" shows "active_count (sy_manager s) = length (sy_unkilled s)"
proof -
  let ?m = "sy_manager s"
  let ?es = "filter (\<lambda>(_, slot). oc_value (tm_slots ?m slot) \<noteq> None) (tm_tasks ?m)"
  let ?f = "\<lambda>e. mt_agent (the (oc_value (tm_slots ?m (snd e))))"
  have ok: "slots_ok ?m" and dis: "distinct (sy_unkilled s)" using assms(1) by (auto simp: task_inv_def agents_ok_def)
  have in_slot: "agent_in ?m (snd e) (?f e)" if "e \<in> set ?es" for e using that by (auto simp: agent_in_def)
  have key: "map_of (tm_tasks ?m) (fst e) = Some (snd e)" if "e \<in> set (tm_tasks ?m)" for e
    using that ok by (cases e) (auto simp: slots_ok_def keyed_def)
  have inj: "inj_on ?f (set ?es)"
  proof (rule inj_onI)
    fix e e' assume e: "e \<in> set ?es" "e' \<in> set ?es" "?f e = ?f e'"
    have "snd e = snd e'"
      using in_slot [OF e(1)] in_slot [OF e(2)] e(3) assms(1) unfolding task_inv_def agents_ok_def by metis
    moreover have "map_of (tm_tasks ?m) (fst e) = Some (snd e)" "map_of (tm_tasks ?m) (fst e') = Some (snd e')"
      using e(1,2) by (auto intro!: key)
    ultimately have "fst e = fst e'" using same_slot [OF ok] by simp
    with \<open>snd e = snd e'\<close> show "e = e'" by (simp add: prod_eq_iff)
  qed
  have dist: "distinct ?es" using ok by (auto simp: slots_ok_def distinct_map)
  have "length ?es = card (?f ` set ?es)" unfolding card_image [OF inj] distinct_card [OF dist] ..
  also have "?f ` set ?es = set (sy_unkilled s)"
  proof (intro set_eqI iffI)
    fix a assume "a \<in> ?f ` set ?es"
    then obtain e where "e \<in> set ?es" "a = ?f e" by blast
    then show "a \<in> set (sy_unkilled s)" using in_slot [of e] key [of e] assms(2) unfolding known_def get_task_iff by auto
  next
    fix a assume "a \<in> set (sy_unkilled s)"
    then obtain conv slot where "map_of (tm_tasks ?m) conv = Some slot" "agent_in ?m slot a"
      using assms(2) unfolding known_def get_task_iff by blast
    then show "a \<in> ?f ` set ?es" by (intro image_eqI [of _ _ "(conv, slot)"]) (auto simp: agent_in_def dest: map_of_SomeD)
  qed
  finally show ?thesis using dis by (simp add: active_count_def distinct_card)
qed

text \<open>
  C9: The agents that were built and that the manager has not told to end are exactly the ones
  its lookup finds, each for one conversation only, and active_count is their number. This
  holds for every interleaving of calls, rebuilds, kills (failing ones included: an agent
  counts as told to end when kill is called on it), clears, failed builds and dropped calls in
  which no task is removed while its slot has no agent and a call builds in the slot or waits
  to build in it.
\<close>

theorem one_agent_per_conversation:
  assumes "reach fresh_tasks (clean_task_step h) s"
  shows "(\<forall>agent. agent \<in> set (sy_unkilled s) \<longleftrightarrow> (\<exists>conv. get_task conv (sy_manager s) = Some agent))
    \<and> (\<forall>conv conv' agent. get_task conv (sy_manager s) = Some agent \<and> get_task conv' (sy_manager s) = Some agent
         \<longrightarrow> conv = conv')
    \<and> active_count (sy_manager s) = length (sy_unkilled s)"
proof -
  have inv: "task_inv s" "known s" using clean_tasks.reach_inv [OF assms] by auto
  have "conv = conv'"
    if "get_task conv (sy_manager s) = Some agent" "get_task conv' (sy_manager s) = Some agent" for conv conv' agent
  proof -
    have "slots_ok (sy_manager s)" using inv(1) by (simp add: task_inv_def)
    then show ?thesis using that inv(1) same_slot unfolding get_task_iff task_inv_def agents_ok_def by metis
  qed
  then show ?thesis using inv known_count by (auto simp: known_def)
qed

theorem one_agent_per_conversation_witness:
  "map_option (\<lambda>s. active_count (sy_manager s)) (exec_ops id (demo_two_calls @ [Kill None ''c'']) demo_tasks) = Some 0"
proof -
  have "map_option sy_unkilled (exec_ops id (demo_two_calls @ [Kill None ''c'']) demo_tasks) = Some []" by code_simp
  then obtain s where s: "exec_ops id (demo_two_calls @ [Kill None ''c'']) demo_tasks = Some s" "sy_unkilled s = []" by auto
  have "clean_ops id (demo_two_calls @ [Kill None ''c'']) demo_tasks" by code_simp
  from one_agent_per_conversation [OF exec_ops_clean_reach [OF demo_tasks_reach this s(1)]] s
  show ?thesis by simp
qed

lemma removes_task_effect:
  assumes "removes_task conv op s" "exec_op h op s = Some s'" "task_inv s" "sy_calls s k = Initialising slot options"
    and "map_of (tm_tasks (sy_manager s)) conv = Some slot"
  shows "sy_calls s' k = Initialising slot options" "slot \<notin> snd ` set (tm_tasks (sy_manager s'))"
    "sy_next_agent s' = sy_next_agent s" "tm_next_slot (sy_manager s') = tm_next_slot (sy_manager s)"
    "\<forall>j. sy_calls s' j \<noteq> AwaitingKill slot"
proof -
  have ok: "slots_ok (sy_manager s)" using assms(3) by (simp add: task_inv_def)
  have no: "sy_calls s j \<noteq> AwaitingKill slot" for j
  proof
    assume c: "sy_calls s j = AwaitingKill slot"
    have "call_ok (sy_manager s) j (sy_calls s j)" using assms(3) by (simp add: task_inv_def calls_ok_def)
    with c map_of_SomeD [OF assms(5)] show False by (force simp: rev_image_eqI)
  qed
  have agent: "sy_next_agent (snd (kill failure conv s)) = sy_next_agent s" for failure
    by (auto simp: kill_eq Let_def stop_agent_def split: option.splits)
  have dels: "slot \<notin> snd ` set (AList.delete conv (tm_tasks (sy_manager s)))" by (rule deleted_slot [OF ok assms(5)])
  have "sy_calls s' k = Initialising slot options \<and> slot \<notin> snd ` set (tm_tasks (sy_manager s'))
    \<and> sy_next_agent s' = sy_next_agent s \<and> tm_next_slot (sy_manager s') = tm_next_slot (sy_manager s)
    \<and> (\<forall>j. sy_calls s' j \<noteq> AwaitingKill slot)"
  proof (cases op)
    case (Rebuild failure buf now j)
    then have "rebuild h failure buf now j s = Some s'" "j \<noteq> k" using assms(1,2,4) by (auto simp: exec_op_def removes_task_def)
    then show ?thesis using assms(1,4) agent dels no Rebuild
      by (cases rule: rebuild_cases) (auto simp: removes_task_def set_call_def)
  qed (use assms(1,2,4) agent dels no in \<open>auto simp: removes_task_def exec_op_def clear_task_eq\<close>)
  then show "sy_calls s' k = Initialising slot options" "slot \<notin> snd ` set (tm_tasks (sy_manager s'))"
    "sy_next_agent s' = sy_next_agent s" "tm_next_slot (sy_manager s') = tm_next_slot (sy_manager s)"
    "\<forall>j. sy_calls s' j \<noteq> AwaitingKill slot" by blast+
qed

text \<open>
  C35: When a kill, a clear or a capability rebuild removes the task of a conversation while a
  call builds an agent in its slot, the build succeeds outside the manager: whatever follows,
  no conversation's lookup finds the agent the call returns, and no operation of the manager
  calls kill on it; it is left to whoever holds it.
\<close>

theorem removal_during_a_build_hides_the_agent:
  assumes "reach fresh_tasks (task_step h) s" "sy_calls s k = Initialising slot options"
    and "map_of (tm_tasks (sy_manager s)) conv = Some slot" "removes_task conv op s"
    and "exec_ops h (op # FinishInit None k # later) s = Some s'"
  shows "sy_next_agent s \<in> set (sy_unkilled s') \<and> (\<forall>c. get_task c (sy_manager s') \<noteq> Some (sy_next_agent s))"
proof -
  have inv: "task_inv s" by (rule tasks.reach_inv [OF assms(1)])
  obtain s1 s2 where run: "exec_op h op s = Some s1" "exec_op h (FinishInit None k) s1 = Some s2" "exec_ops h later s2 = Some s'"
    using assms(5) by (auto simp: bind_eq_Some_conv)
  note e = removes_task_effect [OF assms(4) run(1) inv assms(2,3)]
  have s2: "s2 = built_state k slot (bo_runtime_capabilities options) s1"
    using run(2) e(1) by (auto simp: exec_op_def finish_init_def built_state_def Let_def)
  have inv2: "task_inv s2" using inv_exec_op [OF inv_exec_op [OF inv run(1)] run(2)] .
  have "slot < tm_next_slot (sy_manager s)" by (rule permit_holder(3) [OF inv assms(2)])
  then have "lost slot (sy_next_agent s) s2" using e unfolding lost_def s2 agent_in_built by (auto simp: upd_task_slot_def)
  then have lost: "lost slot (sy_next_agent s) s'" by (rule lost_exec_ops [OF inv2 _ run(3)])
  have "reach fresh_tasks (task_step h) s'" using exec_ops_reach [OF assms(1,5)] .
  then have inv': "task_inv s'" by (rule tasks.reach_inv)
  have "get_task c (sy_manager s') \<noteq> Some (sy_next_agent s)" for c
  proof
    assume "get_task c (sy_manager s') = Some (sy_next_agent s)"
    then obtain slot' where "map_of (tm_tasks (sy_manager s')) c = Some slot'" "agent_in (sy_manager s') slot' (sy_next_agent s)"
      by (auto simp: get_task_iff)
    moreover from this have "slot' = slot" using lost inv' unfolding lost_def task_inv_def agents_ok_def by blast
    ultimately show False using lost by (auto simp: lost_def dest!: map_of_SomeD intro: rev_image_eqI)
  qed
  then show ?thesis using lost by (simp add: lost_def)
qed

text \<open>
  Two callers that find the capabilities of the running agent too old both rebuild it: the second removes the
  slot in which the first builds.
\<close>

definition demo_rebuilds :: "TaskOp list" where
  "demo_rebuilds = [StartBuild 0 ''c'' (demo_options None), CheckCapabilities 0, TakeSlot 0, BeginInit 0, FinishInit None 0,
     StartBuild 1 ''c'' (demo_options (Some 2)), StartBuild 2 ''c'' (demo_options (Some 2)), CheckCapabilities 1, CheckCapabilities 2,
     Rebuild None [] 0 1, TakeSlot 1, BeginInit 1]"

theorem removal_during_a_build_hides_the_agent_witness:
  "case exec_ops id (demo_rebuilds @ Rebuild None [] 0 2 # FinishInit None 1 # [TakeSlot 2, BeginInit 2, FinishInit None 2]) demo_tasks of
     Some s' \<Rightarrow> 1 \<in> set (sy_unkilled s') \<and> (\<forall>c. get_task c (sy_manager s') \<noteq> Some 1)
   | None \<Rightarrow> False"
proof -
  have run: "map_option (\<lambda>s. (sy_calls s 1, map_of (tm_tasks (sy_manager s)) ''c'', removes_task ''c'' (Rebuild None [] 0 2) s, sy_next_agent s))
      (exec_ops id demo_rebuilds demo_tasks) = Some (Initialising 1 (demo_options (Some 2)), Some 1, True, 1)"
    by code_simp
  then obtain s where s: "exec_ops id demo_rebuilds demo_tasks = Some s" "sy_calls s 1 = Initialising 1 (demo_options (Some 2))"
      "map_of (tm_tasks (sy_manager s)) ''c'' = Some 1" "removes_task ''c'' (Rebuild None [] 0 2) s" "sy_next_agent s = 1" by auto
  have "exec_ops id (demo_rebuilds @ Rebuild None [] 0 2 # FinishInit None 1 # [TakeSlot 2, BeginInit 2, FinishInit None 2]) demo_tasks \<noteq> None"
    by code_simp
  then obtain s' where s': "exec_ops id (Rebuild None [] 0 2 # FinishInit None 1 # [TakeSlot 2, BeginInit 2, FinishInit None 2]) s = Some s'"
      "exec_ops id (demo_rebuilds @ Rebuild None [] 0 2 # FinishInit None 1 # [TakeSlot 2, BeginInit 2, FinishInit None 2]) demo_tasks = Some s'"
    by (auto simp: exec_ops_append s(1))
  from removal_during_a_build_hides_the_agent [OF exec_ops_reach [OF demo_tasks_reach s(1)] s(2-4) s'(1)] s'(2) s(5)
  show ?thesis by simp
qed

end
