(* ===== verification/Agent_Idle_Props.thy ===== *)
theory Agent_Idle_Props
  imports Agent_Task_Steps
begin

text \<open>
  What protects an agent from the idle scan and what does not: leases last their time and no shorter, the scan
  kills only idle agents without a lease, a timeout that is too large wraps around. And the runtime tokens: one that is issued
  opens its own conversation and no other, until the task of the conversation is removed.
\<close>

section \<open>Leases\<close>

datatype LeaseOp = Renew string | RenewMany "string list" | Lookup string

fun lease_step :: "TimestampMs \<times> LeaseOp \<Rightarrow> ActiveLeaseRegistry \<Rightarrow> ActiveLeaseRegistry" where
  "lease_step (now, Renew conv) reg = snd (renew now conv reg)"
| "lease_step (now, RenewMany convs) reg = snd (renew_many now convs reg)"
| "lease_step (now, Lookup conv) reg = snd (active_until now conv reg)"

fun renews :: "string \<Rightarrow> LeaseOp \<Rightarrow> bool" where
  "renews conv (Renew c) \<longleftrightarrow> c = conv"
| "renews conv (RenewMany cs) \<longleftrightarrow> conv \<in> set cs"
| "renews conv (Lookup _) \<longleftrightarrow> False"

definition last_renewal :: "string \<Rightarrow> (TimestampMs \<times> LeaseOp) list \<Rightarrow> TimestampMs option" where
  "last_renewal conv ops = map_option fst (find (\<lambda>(_, op). renews conv op) (rev ops))"

text \<open>The lease of a conversation after a run: the last renewal's, unless it was evicted, which only an expired one is.\<close>

definition lease_ok :: "string \<Rightarrow> TimestampMs \<Rightarrow> (TimestampMs \<times> LeaseOp) list \<Rightarrow> ActiveLeaseRegistry \<Rightarrow> bool" where
  "lease_ok conv ttl ops reg \<longleftrightarrow> al_ttl_ms reg = ttl \<and>
     (case map_of (al_leases reg) conv of
        Some e \<Rightarrow> map_option (\<lambda>t. i64_saturating_add t ttl) (last_renewal conv ops) = Some e
      | None \<Rightarrow> (case last_renewal conv ops of
          None \<Rightarrow> True | Some t \<Rightarrow> \<exists>x \<in> set ops. i64_saturating_add t ttl \<le> fst x))"

lemma map_of_fold_update:
  "map_of (fold (\<lambda>k. AList.update k v) ks m) k = (if k \<in> set ks then Some v else map_of m k)"
  by (induction ks arbitrary: m) (auto simp: AList.update_conv')

lemma last_renewal_snoc:
  "last_renewal conv (ops @ [(t, op)]) = (if renews conv op then Some t else last_renewal conv ops)"
  by (simp add: last_renewal_def)

lemma lease_ok_step:
  assumes "lease_ok conv ttl ops reg" shows "lease_ok conv ttl (ops @ [x]) (lease_step x reg)"
proof (cases "(x, reg)" rule: lease_step.cases)
  case (1 now c r)
  with assms show ?thesis
    by (auto simp: lease_ok_def last_renewal_snoc renew_def Let_def AList.update_conv' split: option.splits)
next
  case (2 now cs r)
  with assms show ?thesis
    by (auto simp: lease_ok_def last_renewal_snoc renew_many_def Let_def map_of_fold_update split: option.splits if_splits)
next
  case (3 now c r)
  with assms show ?thesis
    by (auto simp: lease_ok_def last_renewal_snoc active_until_def lease_state_def evict_lease_def AList.delete_conv'
        split: option.splits if_splits) force
qed

lemma lease_ok_run: "lease_ok conv ttl ops (fold lease_step ops (with_ttl_ms ttl))"
proof (induction ops rule: rev_induct)
  case Nil
  then show ?case by (simp add: lease_ok_def with_ttl_ms_def last_renewal_def)
next
  case (snoc x ops)
  then show ?case using lease_ok_step by simp
qed

theorem lease_lasts_its_time:
  assumes "\<And>x. x \<in> set ops \<Longrightarrow> fst x \<le> now"
  shows "fst (active_until now conv (fold lease_step ops (with_ttl_ms ttl))) =
    (case last_renewal conv ops of
       Some t \<Rightarrow> if now < i64_saturating_add t ttl then Some (i64_saturating_add t ttl) else None
     | None \<Rightarrow> None)"
  using lease_ok_run [of conv ttl ops] assms
  by (fastforce simp: lease_ok_def active_until_def lease_state_def split: option.splits)

theorem lease_lasts_its_time_witness:
  "fst (active_until 90500 ''a'' (fold lease_step [(0, Renew ''a''), (700, RenewMany [''b'', ''a'']), (90400, Lookup ''a'')]
     (with_ttl_ms ACTIVE_LEASE_TTL_MS))) = Some 90700"
  by (subst lease_lasts_its_time) (auto simp: last_renewal_def i64_saturating_add_def ACTIVE_LEASE_TTL_MS_def)

section \<open>The idle scan\<close>

text \<open>A lookup evicts expired leases only: a lease that is valid then is still there.\<close>

lemma active_until_keeps:
  assumes "map_of (al_leases reg) conv = Some e" "now' < e" "c = conv \<Longrightarrow> now \<le> now'"
  shows "map_of (al_leases (snd (active_until now c reg))) conv = Some e"
  using assms by (auto simp: active_until_def lease_state_def evict_lease_def AList.delete_conv' split: option.splits)

lemma active_until_valid: "map_of (al_leases reg) conv = Some e \<Longrightarrow> now < e \<Longrightarrow> fst (active_until now conv reg) = Some e"
  by (simp add: active_until_def lease_state_def)

lemma active_until_other: "c \<noteq> conv \<Longrightarrow> lease_state now conv (snd (active_until t c reg)) = lease_state now conv reg"
  by (auto simp: active_until_def lease_state_def evict_lease_def AList.delete_conv' split: option.splits)

lemma active_until_fst: "fst (active_until now conv reg) = (case lease_state now conv reg of LeaseUntil e \<Rightarrow> Some e | _ \<Rightarrow> None)"
  by (auto simp: active_until_def split: LeaseState.splits)

text \<open>Which conversations a scan collects.\<close>

lemma collect_from_iff:
  "keyed entries \<Longrightarrow> conv \<in> set (fst (collect_from view now lease_now threshold slots entries reg)) \<longleftrightarrow>
     (\<exists>slot managed. map_of entries conv = Some slot \<and> oc_value (slots slot) = Some managed
        \<and> idle_candidate now threshold (view (mt_agent managed)) \<and> fst (active_until (lease_now conv) conv reg) = None)"
proof (induction entries arbitrary: reg)
  case Nil
  then show ?case by simp
next
  case (Cons e entries)
  obtain c slot where e: "e = (c, slot)" by (cases e)
  have keyed: "keyed entries" "c \<notin> fst ` set entries" using Cons.prems e by (auto simp: keyed_def)
  obtain l reg' where au: "active_until (lease_now c) c reg = (l, reg')" by (cases "active_until (lease_now c) c reg")
  have other: "fst (active_until t conv reg') = fst (active_until t conv reg)" if "conv \<noteq> c" for t
    using active_until_other [of c conv t "lease_now c" reg] that au by (simp add: active_until_fst)
  have none: "map_of entries c = None" using keyed(2) by (simp add: map_of_eq_None_iff)
  show ?case
    using Cons.IH [OF keyed(1)] none other au
    by (cases "conv = c") (auto simp: e case_prod_beta Let_def split: option.splits)
qed

lemma collect_from_keeps:
  "map_of (al_leases reg) conv = Some e \<Longrightarrow> t < e \<Longrightarrow> lease_now conv \<le> t \<Longrightarrow>
   map_of (al_leases (snd (collect_from view now lease_now threshold slots entries reg))) conv = Some e"
proof (induction entries arbitrary: reg)
  case (Cons x entries)
  obtain c slot where x: "x = (c, slot)" by (cases x)
  obtain l reg' where au: "active_until (lease_now c) c reg = (l, reg')" by (cases "active_until (lease_now c) c reg")
  have "map_of (al_leases reg') conv = Some e"
    using active_until_keeps [of reg conv e t c "lease_now c"] Cons.prems au by auto
  then have "map_of (al_leases (snd (collect_from view now lease_now threshold slots entries reg'))) conv = Some e"
    using Cons.IH Cons.prems(2,3) by blast
  moreover have "map_of (al_leases (snd (collect_from view now lease_now threshold slots entries reg))) conv = Some e"
    using Cons.IH Cons.prems by blast
  ultimately show ?case by (simp add: x au case_prod_beta Let_def split: option.split)
qed simp

lemma any_lease_keeps:
  "map_of (al_leases reg) conv = Some e \<Longrightarrow> lease_now conv < e \<Longrightarrow>
   map_of (al_leases (snd (any_lease lease_now convs reg))) conv = Some e"
proof (induction convs arbitrary: reg)
  case (Cons c convs)
  obtain l reg' where au: "active_until (lease_now c) c reg = (l, reg')" by (cases "active_until (lease_now c) c reg")
  have "map_of (al_leases reg') conv = Some e"
    using active_until_keeps [of reg conv e "lease_now conv" c "lease_now c"] Cons.prems au by auto
  then show ?case using Cons.IH [of reg'] Cons.prems(2) by (simp add: au split: option.split)
qed simp

lemma any_lease_finds:
  "map_of (al_leases reg) conv = Some e \<Longrightarrow> lease_now conv < e \<Longrightarrow> conv \<in> set convs \<Longrightarrow> fst (any_lease lease_now convs reg)"
proof (induction convs arbitrary: reg)
  case (Cons c convs)
  obtain l reg' where au: "active_until (lease_now c) c reg = (l, reg')" by (cases "active_until (lease_now c) c reg")
  have "map_of (al_leases reg') conv = Some e"
    using active_until_keeps [of reg conv e "lease_now conv" c "lease_now c"] Cons.prems(1,2) au by auto
  then show ?case using Cons.IH [of reg'] Cons.prems active_until_valid [OF Cons.prems(1,2)] au
    by (cases "c = conv") (auto split: option.split)
qed simp

lemma get_task_leases [simp]: "get_task conv (m\<lparr>tm_active_leases := reg\<rparr>) = get_task conv m"
  by (simp add: get_task_def initialised_managed_task_def)

lemma idle_teams_Cons:
  "idle_teams view now lease_now threshold idle (t # teams) m =
     (let (leased, reg) = any_lease lease_now (it_conversations t) (tm_active_leases m);
          matched = list_ex (\<lambda>conv. conv \<in> set idle) (it_conversations t);
          m' = (if matched \<and> \<not> it_run_active t then m\<lparr>tm_active_leases := reg\<rparr> else m);
          collectable = list_all (\<lambda>conv. case get_task conv m of
            Some agent \<Rightarrow> is_idle_collectable_team_member (view agent) now threshold | None \<Rightarrow> True) (it_conversations t);
          rest = idle_teams view now lease_now threshold idle teams m'
      in (if matched then it_conversations t @ fst rest else fst rest,
          if matched \<and> \<not> it_run_active t \<and> \<not> leased \<and> collectable then t # fst (snd rest) else fst (snd rest), snd (snd rest)))"
  by (simp add: case_prod_beta Let_def)

text \<open>A team that is cleaned up has no run, no member with a lease, and no member at work.\<close>

lemma idle_teams_cleanup:
  assumes "t \<in> set (fst (snd (idle_teams view now lease_now threshold idle teams m)))" "conv \<in> set (it_conversations t)"
  shows "\<not> it_run_active t
    \<and> (\<forall>agent. get_task conv m = Some agent \<longrightarrow> is_idle_collectable_team_member (view agent) now threshold)
    \<and> \<not> (\<exists>e. map_of (al_leases (tm_active_leases m)) conv = Some e \<and> lease_now conv < e)"
  using assms
proof (induction teams arbitrary: m)
  case (Cons t' teams)
  obtain leased reg where any: "any_lease lease_now (it_conversations t') (tm_active_leases m) = (leased, reg)"
    by (cases "any_lease lease_now (it_conversations t') (tm_active_leases m)")
  define m' where "m' = (if list_ex (\<lambda>conv. conv \<in> set idle) (it_conversations t') \<and> \<not> it_run_active t'
    then m\<lparr>tm_active_leases := reg\<rparr> else m)"
  have keep: "map_of (al_leases (tm_active_leases m')) conv = Some e"
    if "map_of (al_leases (tm_active_leases m)) conv = Some e" "lease_now conv < e" for e
    using any_lease_keeps [of "tm_active_leases m" conv e lease_now "it_conversations t'"] that any by (simp add: m'_def)
  have get: "get_task conv m' = get_task conv m" by (simp add: m'_def)
  show ?case
  proof (cases "t \<in> set (fst (snd (idle_teams view now lease_now threshold idle teams m')))")
    case True
    from Cons.IH [OF this Cons.prems(2)] show ?thesis unfolding get using keep by blast
  next
    case False
    then have t: "t = t'" "\<not> leased" "\<not> it_run_active t'" "list_all (\<lambda>conv. case get_task conv m of
        Some agent \<Rightarrow> is_idle_collectable_team_member (view agent) now threshold | None \<Rightarrow> True) (it_conversations t')"
      using Cons.prems(1) any by (auto simp: idle_teams_Cons m'_def Let_def simp del: idle_teams.simps split: if_splits)
    have "\<not> (\<exists>e. map_of (al_leases (tm_active_leases m)) conv = Some e \<and> lease_now conv < e)"
      using any_lease_finds [of "tm_active_leases m" conv _ lease_now "it_conversations t'"] t(1,2) any Cons.prems(2) by auto
    then show ?thesis using t Cons.prems(2) by (auto simp: list_all_iff split: option.splits)
  qed
qed simp

text \<open>
  C22: The idle scan kills the task of a conversation only when the conversation has no lease
  that is valid at the time its lease is read, and its agent was idle past the timeout of solo
  agents or is a member of a team that was idle past the timeout of teams when it was looked
  at.
\<close>

theorem idle_scan_kills_only_idle_agents:
  assumes "slots_ok m" "\<And>c. lease_now c \<le> lease_now' c"
    and "conv \<in> set (fst (scan_and_cleanup view now lease_now view' now' lease_now' solo team coordinator m))"
  shows "\<not> (\<exists>e. map_of (al_leases (tm_active_leases m)) conv = Some e \<and> lease_now' conv < e)
    \<and> (\<forall>agent. get_task conv m = Some agent \<longrightarrow>
         idle_candidate now solo (view agent) \<or> is_idle_collectable_team_member (view' agent) now' team)"
proof -
  obtain idle m' where c: "collect_idle view now lease_now solo m = (idle, m')" by (cases "collect_idle view now lease_now solo m")
  have get: "get_task c' m' = get_task c' m" for c'
    using c by (auto simp: collect_idle_def case_prod_beta)
  have keep: "map_of (al_leases (tm_active_leases m')) conv = Some e"
    if "map_of (al_leases (tm_active_leases m)) conv = Some e" "lease_now' conv < e" for e
    using collect_from_keeps [of "tm_active_leases m" conv e "lease_now' conv" lease_now view now solo "tm_slots m" "tm_tasks m"]
      that assms(2) c
    by (auto simp: collect_idle_def case_prod_beta)
  have idle: "\<not> (\<exists>e. map_of (al_leases (tm_active_leases m)) conv = Some e \<and> lease_now' conv < e)
      \<and> (\<forall>agent. get_task conv m = Some agent \<longrightarrow> idle_candidate now solo (view agent))" if "conv \<in> set idle"
  proof -
    have "conv \<in> set (fst (collect_from view now lease_now solo (tm_slots m) (tm_tasks m) (tm_active_leases m)))"
      using c that by (auto simp: collect_idle_def case_prod_beta)
    then obtain slot managed where s: "map_of (tm_tasks m) conv = Some slot" "oc_value (tm_slots m slot) = Some managed"
        "idle_candidate now solo (view (mt_agent managed))" "fst (active_until (lease_now conv) conv (tm_active_leases m)) = None"
      using assms(1) collect_from_iff [of "tm_tasks m" conv] by (auto simp: slots_ok_def)
    moreover have "lease_now conv < e" if "lease_now' conv < e" for e using assms(2) [of conv] that by linarith
    ultimately show ?thesis
      by (auto simp: get_task_def initialised_managed_task_def active_until_valid)
  qed
  show ?thesis
  proof (cases "conv \<in> set idle")
    case False
    then obtain teams t where "t \<in> set (fst (snd (idle_teams view' now' lease_now' team idle teams m')))" "conv \<in> set (it_conversations t)"
      using assms(3) c by (cases coordinator)
        (auto simp: scan_and_cleanup_def cleanup_idle_team_runtime_tasks_def case_prod_beta Let_def split: if_splits)
    from idle_teams_cleanup [OF this] show ?thesis unfolding get using keep by blast
  qed (use idle in blast)
qed

text \<open>A conversation whose agent has been idle for an hour, and one that a client looks at.\<close>

definition demo_idle :: WorkerTaskManager where
  "demo_idle = (new_task_manager (snd (renew 3590000 ''b'' (with_ttl_ms ACTIVE_LEASE_TTL_MS))) None)
     \<lparr>tm_tasks := [(''a'', 0), (''b'', 1)], tm_next_slot := 2,
      tm_slots := (\<lambda>i. if i < 2 then \<lparr>oc_value = Some \<lparr>mt_agent = i, mt_runtime_capabilities = \<lparr>cap_context_version = None\<rparr>\<rparr>,
        oc_permit = None\<rparr> else new_slot)\<rparr>"

definition demo_view :: "nat \<Rightarrow> AgentView" where
  "demo_view _ = \<lparr>av_agent_type = Acp, av_status = Some Finished, av_last_activity_at = 0\<rparr>"

theorem idle_scan_kills_only_idle_agents_witness:
  "fst (scan_and_cleanup demo_view 3600000 (\<lambda>_. 3600000) demo_view 3600001 (\<lambda>_. 3600001) 600000 1800000 (Some []) demo_idle) = [''a'']
   \<and> get_task ''a'' demo_idle = Some 0
   \<and> (idle_candidate 3600000 600000 (demo_view 0) \<or> is_idle_collectable_team_member (demo_view 0) 3600001 1800000)"
proof -
  have agent: "get_task ''a'' demo_idle = Some 0" by code_simp
  have run: "fst (scan_and_cleanup demo_view 3600000 (\<lambda>_. 3600000) demo_view 3600001 (\<lambda>_. 3600001) 600000 1800000 (Some []) demo_idle)
    = [''a'']" by code_simp
  moreover have "slots_ok demo_idle" by (auto simp: slots_ok_def demo_idle_def keyed_def new_slot_def)
  ultimately show ?thesis
    using idle_scan_kills_only_idle_agents [of demo_idle "\<lambda>_. 3600000" "\<lambda>_. 3600001" "''a''" demo_view 3600000 demo_view 3600001
        600000 1800000 "Some []"] agent by simp
qed

section \<open>The configured timeouts\<close>

lemma parse_positive_i64_range: "0 < dflt \<Longrightarrow> dflt < 2 ^ 63 \<Longrightarrow> 0 < parse_positive_i64 raw dflt \<and> parse_positive_i64 raw dflt < 2 ^ 63"
  by (auto simp: parse_positive_i64_def parse_i64_def Let_def split: option.splits if_splits)

lemma threshold_ms_exact: "0 \<le> secs \<Longrightarrow> secs * 1000 < 2 ^ 63 \<Longrightarrow> threshold_ms secs = secs * 1000"
proof -
  assume "0 \<le> secs" "secs * 1000 < 2 ^ 63"
  moreover have "word_of_int secs * 1000 = (word_of_int (secs * 1000) :: 64 word)" by simp
  ultimately show ?thesis unfolding threshold_ms_def
    by (simp add: signed_take_bit_int_eq_self sint_sbintrunc' del: of_int_mult)
qed

theorem idle_timeouts_are_positive_but_wrap:
  "(case resolve_idle_config solo_raw team_raw scan_raw of (solo, team, scan) \<Rightarrow>
      0 < solo \<and> 0 < team \<and> 0 < scan
      \<and> (solo \<le> 9223372036854775 \<longrightarrow> threshold_ms solo = solo * 1000)
      \<and> (team \<le> 9223372036854775 \<longrightarrow> threshold_ms team = team * 1000))
   \<and> (case resolve_idle_config (Some ''9223372036854775807'') None None of (solo, _, _) \<Rightarrow>
        idle_candidate now (threshold_ms solo) \<lparr>av_agent_type = Acp, av_status = Some Finished, av_last_activity_at = now\<rparr>)"
proof -
  have solo: "0 < parse_positive_i64 solo_raw DEFAULT_SOLO_IDLE_TIMEOUT_SECS"
    using parse_positive_i64_range [of DEFAULT_SOLO_IDLE_TIMEOUT_SECS solo_raw] by (simp add: DEFAULT_SOLO_IDLE_TIMEOUT_SECS_def)
  have team: "0 < parse_positive_i64 team_raw DEFAULT_TEAM_IDLE_TIMEOUT_SECS"
    using parse_positive_i64_range [of DEFAULT_TEAM_IDLE_TIMEOUT_SECS team_raw] by (simp add: DEFAULT_TEAM_IDLE_TIMEOUT_SECS_def)
  have scan: "0 < parse_positive_u64 scan_raw DEFAULT_SCAN_INTERVAL_SECS"
    by (auto simp: parse_positive_u64_def DEFAULT_SCAN_INTERVAL_SECS_def split: option.splits)
  have "threshold_ms (fst (resolve_idle_config (Some ''9223372036854775807'') None None)) = - 1000" by code_simp
  then have "threshold_ms (parse_positive_i64 (Some ''9223372036854775807'') DEFAULT_SOLO_IDLE_TIMEOUT_SECS) = - 1000"
    by (simp add: resolve_idle_config_def)
  then show ?thesis using solo team scan
    by (simp add: resolve_idle_config_def threshold_ms_exact idle_candidate_def i64_saturating_sub_def)
qed

theorem idle_timeouts_are_positive_but_wrap_witness:
  "case resolve_idle_config (Some ''600'') None None of (solo, team, scan) \<Rightarrow>
     solo = 600 \<and> threshold_ms solo = 600000 \<and> threshold_ms team = team * 1000"
proof -
  have "case resolve_idle_config (Some ''600'') None None of (solo, team, scan) \<Rightarrow> solo = 600 \<and> team \<le> 9223372036854775" by code_simp
  then show ?thesis using idle_timeouts_are_positive_but_wrap [of "Some ''600''" None None 0] by (auto split: prod.splits)
qed

section \<open>Runtime tokens\<close>

lemma hex_digit_printable: "n < 16 \<Longrightarrow> hex_digit n \<in> set ''0123456789abcdef''"
  unfolding hex_digit_def by (rule nth_mem) simp

lemma token_of_printable: "set (token_of buf) \<subseteq> set ''0123456789abcdef''"
proof -
  have "unat b div 16 < 16" "unat b mod 16 < 16" for b :: "8 word"
    using unsigned_less [of b] by (auto intro: less_mult_imp_div_less)
  then have "set (hex_byte b) \<subseteq> set ''0123456789abcdef''" for b
    unfolding hex_byte_def using hex_digit_printable by (metis empty_set insert_subset list.simps(15) empty_subsetI)
  then show ?thesis unfolding token_of_def by fastforce
qed

lemma trim_token: "trim (token_of buf) = token_of buf"
proof -
  have "\<not> is_whitespace ch" if "ch \<in> set (token_of buf)" for ch
    using that token_of_printable [of buf] by (auto simp: is_whitespace_def)
  then have "dropWhile is_whitespace (token_of buf) = token_of buf" "dropWhile is_whitespace (rev (token_of buf)) = rev (token_of buf)"
    by (auto simp: dropWhile_eq_self_iff hd_rev)
  then show ?thesis by (simp add: trim_def)
qed

datatype TokenOp =
    Issue "8 word list" int string string string "RuntimeTokenScope set"
  | InvalidateConversation string string
  | InvalidateConversationId string
  | InvalidateGeneration string string

fun token_step :: "(string \<Rightarrow> string) \<Rightarrow> TokenOp \<Rightarrow> RuntimeTokenService \<Rightarrow> RuntimeTokenService" where
  "token_step h (Issue buf now user conv generation scopes) svc = snd (issue_token h buf now user conv generation scopes svc)"
| "token_step h (InvalidateConversation user conv) svc = invalidate_conversation user conv svc"
| "token_step h (InvalidateConversationId conv) svc = invalidate_conversation_id conv svc"
| "token_step h (InvalidateGeneration conv generation) svc = invalidate_generation conv generation svc"

text \<open>The random bytes are not empty (the code draws 32).\<close>

fun draws_bytes :: "TokenOp \<Rightarrow> bool" where
  "draws_bytes (Issue buf _ _ _ _ _) \<longleftrightarrow> buf \<noteq> []"
| "draws_bytes _ \<longleftrightarrow> True"

definition tokens_ok :: "(string \<Rightarrow> string) \<Rightarrow> RuntimeTokenService \<Rightarrow> bool" where
  "tokens_ok h svc \<longleftrightarrow> keyed svc
     \<and> (\<forall>(k, e) \<in> set svc. k = h (te_token e) \<and> (\<exists>buf. buf \<noteq> [] \<and> te_token e = token_of buf))"

lemma tokens_ok_filter: "tokens_ok h svc \<Longrightarrow> tokens_ok h (filter P svc)"
  by (auto simp: tokens_ok_def)

lemma tokens_ok_update:
  assumes "tokens_ok h svc" "te_token e = token_of buf" "buf \<noteq> []" shows "tokens_ok h (AList.update (h (te_token e)) e svc)"
proof -
  have "\<forall>x \<in> set (AList.update (h (te_token e)) e svc). x = (h (te_token e), e) \<or> x \<in> set svc"
    by (induction svc) auto
  then show ?thesis using assms by (fastforce simp: tokens_ok_def)
qed

lemma tokens_ok_issue: "tokens_ok h svc \<Longrightarrow> buf \<noteq> [] \<Longrightarrow> tokens_ok h (snd (issue_token h buf now user conv generation scopes svc))"
  by (auto simp: issue_token_def Let_def invalidate_conversation_def split: option.splits
      intro!: tokens_ok_update [where e = "\<lparr>te_token = token_of buf, te_claims = _\<rparr>", simplified] tokens_ok_filter)

lemma tokens_ok_run: "list_all draws_bytes ops \<Longrightarrow> tokens_ok h svc \<Longrightarrow> tokens_ok h (fold (token_step h) ops svc)"
proof (induction ops arbitrary: svc)
  case (Cons op ops)
  have "tokens_ok h (token_step h op svc)" using Cons.prems
    by (cases op) (auto simp: tokens_ok_issue invalidate_conversation_def invalidate_conversation_id_def invalidate_generation_def
        intro: tokens_ok_filter)
  with Cons show ?case by simp
qed simp

lemma issue_stores:
  assumes "tokens_ok h svc" "buf \<noteq> []" "issue_token h buf now user conv generation scopes svc = (e, svc')"
  shows "map_of svc' (h (te_token e)) = Some e" "rk_user_id (te_claims e) = user" "rk_conversation_id (te_claims e) = conv"
    "rk_session_generation (te_claims e) = generation" "scopes \<subseteq> rk_scopes (te_claims e)"
    "trim (te_token e) = te_token e" "te_token e \<noteq> []"
proof -
  have hex: "token_of b \<noteq> []" if "b \<noteq> []" for b using that by (cases b) (auto simp: token_of_def hex_byte_def)
  consider (old) "existing_token user conv generation scopes svc = Some e" "svc' = svc"
    | (new) "te_token e = token_of buf" "svc' = AList.update (h (te_token e)) e (invalidate_conversation user conv svc)"
      "te_claims e = \<lparr>rk_user_id = user, rk_conversation_id = conv, rk_scopes = scopes, rk_issued_at = now,
         rk_session_generation = generation\<rparr>"
    using assms(3) by (auto simp: issue_token_def Let_def split: option.splits)
  then have "map_of svc' (h (te_token e)) = Some e \<and> rk_user_id (te_claims e) = user \<and> rk_conversation_id (te_claims e) = conv
      \<and> rk_session_generation (te_claims e) = generation \<and> scopes \<subseteq> rk_scopes (te_claims e)
      \<and> (\<exists>b. b \<noteq> [] \<and> te_token e = token_of b)"
  proof cases
    case old
    then obtain k where k: "(k, e) \<in> set svc" and "rk_user_id (te_claims e) = user" "rk_conversation_id (te_claims e) = conv"
        "rk_session_generation (te_claims e) = generation" "scopes \<subseteq> rk_scopes (te_claims e)"
      by (auto simp: existing_token_def find_Some_iff in_set_conv_nth) (metis nth_mem prod.collapse)
    moreover have "k = h (te_token e)" "\<exists>b. b \<noteq> [] \<and> te_token e = token_of b" using k assms(1) by (auto simp: tokens_ok_def)
    ultimately show ?thesis using old(2) assms(1) by (auto simp: tokens_ok_def keyed_def)
  next
    case new
    then show ?thesis using assms(2) by (auto simp: AList.update_conv')
  qed
  then show "map_of svc' (h (te_token e)) = Some e" "rk_user_id (te_claims e) = user" "rk_conversation_id (te_claims e) = conv"
    "rk_session_generation (te_claims e) = generation" "scopes \<subseteq> rk_scopes (te_claims e)"
    "trim (te_token e) = te_token e" "te_token e \<noteq> []" using trim_token hex by (auto, metis)
qed

text \<open>The scopes of a stored token are the ones some request asked for.\<close>

definition asked_for :: "TokenOp set \<Rightarrow> RuntimeTokenClaims \<Rightarrow> bool" where
  "asked_for ops claims \<longleftrightarrow> (\<exists>buf. Issue buf (rk_issued_at claims) (rk_user_id claims) (rk_conversation_id claims)
     (rk_session_generation claims) (rk_scopes claims) \<in> ops)"

lemma token_step_asked_for:
  assumes "\<forall>(k, e) \<in> set svc. asked_for ops (te_claims e)"
  shows "\<forall>(k, e) \<in> set (token_step h op svc). asked_for (insert op ops) (te_claims e)"
proof -
  have kept: "\<forall>(k, e) \<in> set (filter P svc). asked_for (insert op ops) (te_claims e)" for P
    using assms by (auto simp: asked_for_def)
  show ?thesis
  proof (cases op)
    case (Issue buf now user conv generation scopes)
    have "x = (key, e) \<or> x \<in> set xs" if "x \<in> set (AList.update key e xs)" for x key e and xs :: RuntimeTokenService
      using that by (induction xs) (auto split: if_splits)
    then show ?thesis using Issue kept [of "\<lambda>_. True"] kept
      by (fastforce simp: issue_token_def Let_def invalidate_conversation_def asked_for_def split: option.splits)
  qed (use kept in \<open>simp_all add: invalidate_conversation_def invalidate_conversation_id_def invalidate_generation_def\<close>)
qed

lemma token_run_asked_for:
  "\<forall>(k, e) \<in> set svc. asked_for old (te_claims e) \<Longrightarrow>
   \<forall>(k, e) \<in> set (fold (token_step h) ops svc). asked_for (set ops \<union> old) (te_claims e)"
proof (induction ops arbitrary: svc old)
  case (Cons op ops)
  show ?case using Cons.IH [OF token_step_asked_for [OF Cons.prems], of h op] by (simp add: insert_commute)
qed simp

lemma issue_grants:
  assumes "issue_token h buf now user conv generation scopes (fold (token_step h) ops []) = (e, svc)"
  shows "rk_scopes (te_claims e) = scopes \<or>
    scopes \<subseteq> rk_scopes (te_claims e) \<and> (\<exists>buf' now'. Issue buf' now' user conv generation (rk_scopes (te_claims e)) \<in> set ops)"
proof (cases "existing_token user conv generation scopes (fold (token_step h) ops [])")
  case None
  then show ?thesis using assms by (auto simp: issue_token_def Let_def)
next
  case (Some old)
  then have "e = old" using assms by (simp add: issue_token_def)
  with Some obtain k where k: "(k, e) \<in> set (fold (token_step h) ops [])" and "rk_user_id (te_claims e) = user"
      "rk_conversation_id (te_claims e) = conv" "rk_session_generation (te_claims e) = generation" "scopes \<subseteq> rk_scopes (te_claims e)"
    by (auto simp: existing_token_def find_Some_iff in_set_conv_nth) (metis nth_mem prod.collapse)
  moreover have "asked_for (set ops) (te_claims e)" using k token_run_asked_for [of "[]" "{}" h ops] by auto
  ultimately show ?thesis unfolding asked_for_def by metis
qed

lemma validated_conversation:
  "validate_token h raw user conv scope generation svc = Inr claims \<Longrightarrow>
   \<exists>k e. map_of svc k = Some e \<and> te_claims e = claims \<and> rk_conversation_id claims = conv"
  by (auto simp: validate_token_def Let_def split: option.splits if_splits)

lemma invalidated_conversation: "validate_token h raw user conv scope generation (invalidate_conversation_id conv svc) \<noteq> Inr claims"
proof
  assume "validate_token h raw user conv scope generation (invalidate_conversation_id conv svc) = Inr claims"
  from validated_conversation [OF this] show False by (auto simp: invalidate_conversation_id_def dest!: map_of_SomeD)
qed

text \<open>
  C29: A runtime token that is issued validates for its user, conversation and generation
  only, and exactly for the scopes it was granted, which are the ones asked for; only when an
  earlier request for the same user, conversation and generation asked for these and more is
  that request's token given out again, with its scopes. Once the task of the conversation was
  killed no token validates for the conversation.
\<close>

theorem runtime_token_opens_its_conversation_only:
  assumes "list_all draws_bytes ops" "buf \<noteq> []"
    and "issue_token h buf now user conv generation scopes (fold (token_step h) ops []) = (e, svc)"
  shows "(\<exists>granted. (granted = scopes \<or> scopes \<subseteq> granted \<and> (\<exists>buf' now'. Issue buf' now' user conv generation granted \<in> set ops))
      \<and> (\<forall>u c scope g claims. validate_token h (Some (te_token e)) u c scope g svc = Inr claims \<longleftrightarrow>
           u = user \<and> c = conv \<and> g = generation \<and> scope \<in> granted \<and> claims = te_claims e))
    \<and> (\<forall>s failure raw u scope g claims. tm_runtime_token_service (sy_manager s) = Some svc
         \<and> map_of (tm_tasks (sy_manager s)) conv \<noteq> None \<longrightarrow>
         (\<exists>svc'. tm_runtime_token_service (sy_manager (snd (kill failure conv s))) = Some svc'
            \<and> validate_token h raw u conv scope g svc' \<noteq> Inr claims))"
proof -
  have "tokens_ok h (fold (token_step h) ops [])" by (rule tokens_ok_run [OF assms(1)]) (simp add: tokens_ok_def)
  note st = issue_stores [OF this assms(2,3)]
  have "validate_token h (Some (te_token e)) u c scope g svc = Inr claims \<longleftrightarrow>
      u = user \<and> c = conv \<and> g = generation \<and> scope \<in> rk_scopes (te_claims e) \<and> claims = te_claims e" for u c scope g claims
    using st by (auto simp: validate_token_def Let_def split: if_splits)
  moreover have "tm_runtime_token_service (sy_manager (snd (kill failure conv s))) = Some (invalidate_conversation_id conv svc)"
    if "tm_runtime_token_service (sy_manager s) = Some svc" "map_of (tm_tasks (sy_manager s)) conv \<noteq> None" for s failure
    using that by (auto simp: kill_eq Let_def remove_task_def invalidate_runtime_tokens_def split: option.splits)
  ultimately show ?thesis using issue_grants [OF assms(3)] invalidated_conversation
    by (intro conjI exI [of _ "rk_scopes (te_claims e)"]) auto
qed

theorem runtime_token_opens_its_conversation_only_witness:
  "case issue_token id [1, 2] 5 ''u'' ''c'' ''default'' {TeamCall} [] of (e, svc) \<Rightarrow>
     validate_token id (Some ''0102'') ''u'' ''c'' TeamCall ''default'' svc = Inr (te_claims e)
     \<and> validate_token id (Some ''0102'') ''u'' ''c'' TeamContext ''default'' svc \<noteq> Inr (te_claims e)"
proof -
  obtain e svc where i: "issue_token id [1, 2] 5 ''u'' ''c'' ''default'' {TeamCall} (fold (token_step id) [] []) = (e, svc)"
    by (cases "issue_token id [1, 2] 5 ''u'' ''c'' ''default'' {TeamCall} (fold (token_step id) [] [])")
  moreover have "te_token e = ''0102''"
    using i by (auto simp: issue_token_def existing_token_def Let_def token_of_def hex_byte_def hex_digit_def)
  ultimately show ?thesis
    using runtime_token_opens_its_conversation_only [of "[]" "[1, 2]" id 5 "''u''" "''c''" "''default''" "{TeamCall}" e svc] by simp
qed

end
