(* ===== verification/Team_Board.thy ===== *)
theory Team_Board
  imports Core_Prelude "HOL-Library.Multiset"
begin

text \<open>
  The task board and the mailbox of a team (\<open>crates/tjuaeui-team/src/task_board.rs\<close>, \<open>mailbox.rs\<close>), with the statements of
  \<open>tjuaeui-db/src/repository/sqlite_team.rs\<close> they run.

  The two tables are association lists by primary key, in the order of insertion. A statement or a transaction
  takes one tick, at which the database may fail (\<open>tw_db\<close>) and the clock is read (\<open>tw_now\<close>); an error
  ends the operation where it happened, with what was written until then. The list columns, JSON text in the
  database, are lists; a sort by time keeps the order of insertion among equal times, which SQL leaves open.
  JSON values are of a type parameter. Fresh ids are arguments.
\<close>

section \<open>Fallible operations on the database\<close>

text \<open>The errors of the database that these statements return: of a query, and of a row that is not there.\<close>

datatype DbError = Query | NotFound string

datatype MailboxMessageType = Message | IdleNotification | ShutdownRequest

datatype BoardError =
    TaskNotFound string
  | InvalidRequest MailboxMessageType
  | BlockedTaskNotFound string
  | Database DbError

record TeamWorld =
  tw_db :: "nat \<Rightarrow> bool"
  tw_now :: "nat \<Rightarrow> TimestampMs"

text \<open>Rust's \<open>?\<close>: an error ends the operation.\<close>

definition and_then :: "('e + 'a) \<times> 's \<Rightarrow> ('a \<Rightarrow> 's \<Rightarrow> ('e + 'b) \<times> 's) \<Rightarrow> ('e + 'b) \<times> 's" where
  "and_then r f = (case r of (Inl e, s) \<Rightarrow> (Inl e, s) | (Inr a, s) \<Rightarrow> f a s)"

fun for_each :: "('x \<Rightarrow> 's \<Rightarrow> ('e + unit) \<times> 's) \<Rightarrow> 'x list \<Rightarrow> 's \<Rightarrow> ('e + unit) \<times> 's" where
  "for_each f [] s = (Inr (), s)"
| "for_each f (x # xs) s = and_then (f x s) (\<lambda>_. for_each f xs)"

section \<open>Rows\<close>

datatype TaskStatus = TaskPending | TaskInProgress | TaskCompleted | TaskDeleted

fun task_status_name :: "TaskStatus \<Rightarrow> string" where
  "task_status_name TaskPending = ''pending''"
| "task_status_name TaskInProgress = ''in_progress''"
| "task_status_name TaskCompleted = ''completed''"
| "task_status_name TaskDeleted = ''deleted''"

definition parse_task_status :: "string \<Rightarrow> TaskStatus option" where
  "parse_task_status s =
     (if s = ''pending'' then Some TaskPending else if s = ''in_progress'' then Some TaskInProgress
      else if s = ''completed'' then Some TaskCompleted else if s = ''deleted'' then Some TaskDeleted else None)"

record 'j TeamTaskRow =
  tt_id :: string
  tt_team_id :: string
  tt_subject :: string
  tt_description :: "string option"
  tt_status :: string
  tt_owner :: "string option"
  tt_blocked_by :: "string list"
  tt_blocks :: "string list"
  tt_metadata :: "'j option"
  tt_created_at :: TimestampMs
  tt_updated_at :: TimestampMs

record 'j TeamTask =
  tk_id :: string
  tk_team_id :: string
  tk_subject :: string
  tk_description :: "string option"
  tk_status :: TaskStatus
  tk_owner :: "string option"
  tk_blocked_by :: "string list"
  tk_blocks :: "string list"
  tk_metadata :: "'j option"
  tk_created_at :: TimestampMs
  tk_updated_at :: TimestampMs

text \<open>\<open>TeamTask::from_row\<close>: a status that is none counts as pending.\<close>

definition task_from_row :: "'j TeamTaskRow \<Rightarrow> 'j TeamTask" where
  "task_from_row row =
     \<lparr>tk_id = tt_id row, tk_team_id = tt_team_id row, tk_subject = tt_subject row, tk_description = tt_description row,
      tk_status = (case parse_task_status (tt_status row) of Some st \<Rightarrow> st | None \<Rightarrow> TaskPending),
      tk_owner = tt_owner row, tk_blocked_by = tt_blocked_by row, tk_blocks = tt_blocks row,
      tk_metadata = tt_metadata row, tk_created_at = tt_created_at row, tk_updated_at = tt_updated_at row\<rparr>"

fun message_type_name :: "MailboxMessageType \<Rightarrow> string" where
  "message_type_name Message = ''message''"
| "message_type_name IdleNotification = ''idle_notification''"
| "message_type_name ShutdownRequest = ''shutdown_request''"

definition parse_message_type :: "string \<Rightarrow> MailboxMessageType option" where
  "parse_message_type s =
     (if s = ''message'' then Some Message else if s = ''idle_notification'' then Some IdleNotification
      else if s = ''shutdown_request'' then Some ShutdownRequest else None)"

record MailboxMessageRow =
  mb_id :: string
  mb_team_id :: string
  mb_to_agent_id :: string
  mb_from_agent_id :: string
  mb_msg_type :: string
  mb_content :: string
  mb_summary :: "string option"
  mb_files :: "string list option"
  mb_read :: bool
  mb_created_at :: TimestampMs

record MailboxMessage =
  mm_id :: string
  mm_team_id :: string
  mm_to_agent_id :: string
  mm_from_agent_id :: string
  mm_msg_type :: MailboxMessageType
  mm_content :: string
  mm_summary :: "string option"
  mm_files :: "string list option"
  mm_read :: bool
  mm_created_at :: TimestampMs

definition message_from_row :: "MailboxMessageRow \<Rightarrow> MailboxMessage option" where
  "message_from_row row =
     map_option (\<lambda>msg_type. \<lparr>mm_id = mb_id row, mm_team_id = mb_team_id row, mm_to_agent_id = mb_to_agent_id row,
         mm_from_agent_id = mb_from_agent_id row, mm_msg_type = msg_type, mm_content = mb_content row,
         mm_summary = mb_summary row, mm_files = (if mb_files row = Some [] then None else mb_files row),
         mm_read = mb_read row, mm_created_at = mb_created_at row\<rparr>)
       (parse_message_type (mb_msg_type row))"

record 'j TeamDb =
  td_tasks :: "(string \<times> 'j TeamTaskRow) list"
  td_mailbox :: "(string \<times> MailboxMessageRow) list"
  td_tick :: nat

section \<open>Statements\<close>

text \<open>A statement that runs at the current tick.\<close>

definition query ::
  "TeamWorld \<Rightarrow> (TimestampMs \<Rightarrow> 'j TeamDb \<Rightarrow> (BoardError + 'a) \<times> 'j TeamDb) \<Rightarrow> 'j TeamDb
   \<Rightarrow> (BoardError + 'a) \<times> 'j TeamDb" where
  "query w stmt d =
     (let d' = d\<lparr>td_tick := Suc (td_tick d)\<rparr>
      in if tw_db w (td_tick d) then stmt (tw_now w (td_tick d)) d' else (Inl (Database Query), d'))"

definition repo_find_task_by_id ::
  "TeamWorld \<Rightarrow> string \<Rightarrow> string \<Rightarrow> 'j TeamDb \<Rightarrow> (BoardError + 'j TeamTaskRow option) \<times> 'j TeamDb" where
  "repo_find_task_by_id w team task_id =
     query w (\<lambda>_ d. (Inr (case map_of (td_tasks d) task_id of
         Some row \<Rightarrow> if tt_team_id row = team then Some row else None | None \<Rightarrow> None), d))"

definition repo_create_task :: "TeamWorld \<Rightarrow> 'j TeamTaskRow \<Rightarrow> 'j TeamDb \<Rightarrow> (BoardError + unit) \<times> 'j TeamDb" where
  "repo_create_task w row =
     query w (\<lambda>_ d. if map_of (td_tasks d) (tt_id row) = None
       then (Inr (), d\<lparr>td_tasks := td_tasks d @ [(tt_id row, row)]\<rparr>) else (Inl (Database Query), d))"

record 'j UpdateTaskParams =
  up_status :: "string option"
  up_description :: "string option"
  up_owner :: "string option"
  up_blocked_by :: "string list option"
  up_metadata :: "'j option"

definition set_task_columns :: "TimestampMs \<Rightarrow> 'j UpdateTaskParams \<Rightarrow> 'j TeamTaskRow \<Rightarrow> 'j TeamTaskRow" where
  "set_task_columns now p row = row
     \<lparr>tt_status := (case up_status p of Some v \<Rightarrow> v | None \<Rightarrow> tt_status row),
      tt_description := (case up_description p of Some v \<Rightarrow> Some v | None \<Rightarrow> tt_description row),
      tt_owner := (case up_owner p of Some v \<Rightarrow> Some v | None \<Rightarrow> tt_owner row),
      tt_blocked_by := (case up_blocked_by p of Some v \<Rightarrow> v | None \<Rightarrow> tt_blocked_by row),
      tt_metadata := (case up_metadata p of Some v \<Rightarrow> Some v | None \<Rightarrow> tt_metadata row),
      tt_updated_at := now\<rparr>"

text \<open>An update of one row by its key, which fails when there is none.\<close>

definition update_row ::
  "TeamWorld \<Rightarrow> string \<Rightarrow> (TimestampMs \<Rightarrow> 'j TeamTaskRow \<Rightarrow> 'j TeamTaskRow) \<Rightarrow> 'j TeamDb
   \<Rightarrow> (BoardError + unit) \<times> 'j TeamDb" where
  "update_row w task_id f =
     query w (\<lambda>now d. if map_of (td_tasks d) task_id = None then (Inl (Database (NotFound task_id)), d)
       else (Inr (), d\<lparr>td_tasks := AList.map_entry task_id (f now) (td_tasks d)\<rparr>))"

definition repo_update_task ::
  "TeamWorld \<Rightarrow> string \<Rightarrow> 'j UpdateTaskParams \<Rightarrow> 'j TeamDb \<Rightarrow> (BoardError + unit) \<times> 'j TeamDb" where
  "repo_update_task w task_id p d =
     (if up_status p = None \<and> up_description p = None \<and> up_owner p = None \<and> up_blocked_by p = None \<and> up_metadata p = None
      then (Inr (), d)
      else update_row w task_id (\<lambda>now. set_task_columns now p) d)"

definition append_to_blocks :: "TeamWorld \<Rightarrow> string \<Rightarrow> string \<Rightarrow> 'j TeamDb \<Rightarrow> (BoardError + unit) \<times> 'j TeamDb" where
  "append_to_blocks w task_id blocked_task_id =
     update_row w task_id (\<lambda>now row. row
       \<lparr>tt_blocks := (if blocked_task_id \<in> set (tt_blocks row) then tt_blocks row else tt_blocks row @ [blocked_task_id]),
        tt_updated_at := now\<rparr>)"

definition remove_from_blocked_by ::
  "TeamWorld \<Rightarrow> string \<Rightarrow> string \<Rightarrow> 'j TeamDb \<Rightarrow> (BoardError + unit) \<times> 'j TeamDb" where
  "remove_from_blocked_by w task_id unblocked_task_id =
     update_row w task_id (\<lambda>now row. row
       \<lparr>tt_blocked_by := filter (\<lambda>i. i \<noteq> unblocked_task_id) (tt_blocked_by row), tt_updated_at := now\<rparr>)"

definition repo_list_tasks :: "TeamWorld \<Rightarrow> string \<Rightarrow> 'j TeamDb \<Rightarrow> (BoardError + 'j TeamTaskRow list) \<times> 'j TeamDb" where
  "repo_list_tasks w team =
     query w (\<lambda>_ d. (Inr (sort_key tt_created_at (filter (\<lambda>row. tt_team_id row = team) (map snd (td_tasks d)))), d))"

definition delete_tasks_by_team :: "TeamWorld \<Rightarrow> string \<Rightarrow> 'j TeamDb \<Rightarrow> (BoardError + unit) \<times> 'j TeamDb" where
  "delete_tasks_by_team w team =
     query w (\<lambda>_ d. (Inr (), d\<lparr>td_tasks := filter (\<lambda>(_, row). tt_team_id row \<noteq> team) (td_tasks d)\<rparr>))"

section \<open>The task board\<close>

record 'j TaskUpdate =
  tu_status :: "TaskStatus option"
  tu_description :: "string option"
  tu_owner :: "string option"
  tu_blocked_by :: "string list option"
  tu_metadata :: "'j option"

definition check_dependency :: "TeamWorld \<Rightarrow> string \<Rightarrow> string \<Rightarrow> 'j TeamDb \<Rightarrow> (BoardError + unit) \<times> 'j TeamDb" where
  "check_dependency w team dep_id d =
     and_then (repo_find_task_by_id w team dep_id d)
       (\<lambda>dep d. if dep = None then (Inl (BlockedTaskNotFound dep_id), d) else (Inr (), d))"

definition new_task_row ::
  "string \<Rightarrow> TimestampMs \<Rightarrow> string \<Rightarrow> string \<Rightarrow> string option \<Rightarrow> string option \<Rightarrow> string list \<Rightarrow> 'j TeamTaskRow" where
  "new_task_row task_id now team subject description owner blocked_by =
     \<lparr>tt_id = task_id, tt_team_id = team, tt_subject = subject, tt_description = description,
      tt_status = task_status_name TaskPending, tt_owner = owner, tt_blocked_by = blocked_by, tt_blocks = [],
      tt_metadata = None, tt_created_at = now, tt_updated_at = now\<rparr>"

definition create_task ::
  "TeamWorld \<Rightarrow> string \<Rightarrow> TimestampMs \<Rightarrow> string \<Rightarrow> string \<Rightarrow> string option \<Rightarrow> string option \<Rightarrow> string list \<Rightarrow> 'j TeamDb
   \<Rightarrow> (BoardError + 'j TeamTask) \<times> 'j TeamDb" where
  "create_task w task_id now team subject description owner blocked_by d =
     and_then (for_each (check_dependency w team) blocked_by d) (\<lambda>_ d.
       let row = new_task_row task_id now team subject description owner blocked_by
       in and_then (repo_create_task w row d) (\<lambda>_ d.
            and_then (for_each (\<lambda>dep_id. append_to_blocks w dep_id task_id) blocked_by d) (\<lambda>_ d.
              (Inr (task_from_row row), d))))"

definition check_unblocks :: "TeamWorld \<Rightarrow> string \<Rightarrow> 'j TeamTaskRow \<Rightarrow> 'j TeamDb \<Rightarrow> (BoardError + unit) \<times> 'j TeamDb" where
  "check_unblocks w completed_task_id completed_row =
     for_each (\<lambda>downstream_id. remove_from_blocked_by w downstream_id completed_task_id) (tt_blocks completed_row)"

definition params_of :: "'j TaskUpdate \<Rightarrow> 'j UpdateTaskParams" where
  "params_of u = \<lparr>up_status = map_option task_status_name (tu_status u), up_description = tu_description u,
     up_owner = tu_owner u, up_blocked_by = tu_blocked_by u, up_metadata = tu_metadata u\<rparr>"

definition update_task ::
  "TeamWorld \<Rightarrow> string \<Rightarrow> string \<Rightarrow> 'j TaskUpdate \<Rightarrow> 'j TeamDb \<Rightarrow> (BoardError + 'j TeamTask) \<times> 'j TeamDb" where
  "update_task w team task_id u d =
     and_then (repo_find_task_by_id w team task_id d) (\<lambda>found d.
       case found of
         None \<Rightarrow> (Inl (TaskNotFound task_id), d)
       | Some existing \<Rightarrow>
           and_then (repo_update_task w task_id (params_of u) d) (\<lambda>_ d.
             and_then (if tu_status u = Some TaskCompleted then check_unblocks w task_id existing d else (Inr (), d)) (\<lambda>_ d.
               and_then (repo_find_task_by_id w team task_id d) (\<lambda>updated d.
                 case updated of
                   None \<Rightarrow> (Inl (TaskNotFound task_id), d)
                 | Some row \<Rightarrow> (Inr (task_from_row row), d)))))"

definition list_tasks :: "TeamWorld \<Rightarrow> string \<Rightarrow> 'j TeamDb \<Rightarrow> (BoardError + 'j TeamTask list) \<times> 'j TeamDb" where
  "list_tasks w team d = and_then (repo_list_tasks w team d) (\<lambda>rows d. (Inr (map task_from_row rows), d))"

section \<open>The mailbox\<close>

definition is_unread :: "string \<Rightarrow> string \<Rightarrow> MailboxMessageRow \<Rightarrow> bool" where
  "is_unread team agent row \<longleftrightarrow> mb_team_id row = team \<and> mb_to_agent_id row = agent \<and> \<not> mb_read row"

definition select_unread :: "string \<Rightarrow> string \<Rightarrow> 'j TeamDb \<Rightarrow> MailboxMessageRow list" where
  "select_unread team agent d = sort_key mb_created_at (filter (is_unread team agent) (map snd (td_mailbox d)))"

definition set_read :: "(MailboxMessageRow \<Rightarrow> bool) \<Rightarrow> 'j TeamDb \<Rightarrow> 'j TeamDb" where
  "set_read P d = d\<lparr>td_mailbox := map (\<lambda>(i, row). (i, if P row then row\<lparr>mb_read := True\<rparr> else row)) (td_mailbox d)\<rparr>"

definition repo_write_message :: "TeamWorld \<Rightarrow> MailboxMessageRow \<Rightarrow> 'j TeamDb \<Rightarrow> (BoardError + unit) \<times> 'j TeamDb" where
  "repo_write_message w row =
     query w (\<lambda>_ d. if map_of (td_mailbox d) (mb_id row) = None
       then (Inr (), d\<lparr>td_mailbox := td_mailbox d @ [(mb_id row, row)]\<rparr>) else (Inl (Database Query), d))"

definition repo_read_unread_and_mark ::
  "TeamWorld \<Rightarrow> string \<Rightarrow> string \<Rightarrow> 'j TeamDb \<Rightarrow> (BoardError + MailboxMessageRow list) \<times> 'j TeamDb" where
  "repo_read_unread_and_mark w team agent =
     query w (\<lambda>_ d. let rows = select_unread team agent d
       in (Inr rows, if rows = [] then d else set_read (is_unread team agent) d))"

definition repo_peek_unread ::
  "TeamWorld \<Rightarrow> string \<Rightarrow> string \<Rightarrow> 'j TeamDb \<Rightarrow> (BoardError + MailboxMessageRow list) \<times> 'j TeamDb" where
  "repo_peek_unread w team agent = query w (\<lambda>_ d. (Inr (select_unread team agent d), d))"

text \<open>\<open>slice::chunks\<close>\<close>

fun chunks :: "nat \<Rightarrow> 'a list \<Rightarrow> 'a list list" where
  "chunks n xs = (if xs = [] \<or> n = 0 then [] else take n xs # chunks n (drop n xs))"

declare chunks.simps [simp del]

definition repo_mark_read_batch :: "TeamWorld \<Rightarrow> string list \<Rightarrow> 'j TeamDb \<Rightarrow> (BoardError + unit) \<times> 'j TeamDb" where
  "repo_mark_read_batch w ids d =
     (if ids = [] then (Inr (), d)
      else for_each (\<lambda>chunk. query w (\<lambda>_ d. (Inr (), set_read (\<lambda>row. mb_id row \<in> set chunk) d))) (chunks 500 ids) d)"

text \<open>A negative limit is none in SQLite.\<close>

definition repo_get_history ::
  "TeamWorld \<Rightarrow> string \<Rightarrow> string \<Rightarrow> int option \<Rightarrow> 'j TeamDb \<Rightarrow> (BoardError + MailboxMessageRow list) \<times> 'j TeamDb" where
  "repo_get_history w team agent limit =
     query w (\<lambda>_ d. let rows = sort_key mb_created_at
         (filter (\<lambda>row. mb_team_id row = team \<and> mb_to_agent_id row = agent) (map snd (td_mailbox d)))
       in (Inr (case limit of Some n \<Rightarrow> if n < 0 then rows else take (nat n) rows | None \<Rightarrow> rows), d))"

definition delete_mailbox_by_team :: "TeamWorld \<Rightarrow> string \<Rightarrow> 'j TeamDb \<Rightarrow> (BoardError + unit) \<times> 'j TeamDb" where
  "delete_mailbox_by_team w team =
     query w (\<lambda>_ d. (Inr (), d\<lparr>td_mailbox := filter (\<lambda>(_, row). mb_team_id row \<noteq> team) (td_mailbox d)\<rparr>))"

definition write_with_files ::
  "TeamWorld \<Rightarrow> string \<Rightarrow> TimestampMs \<Rightarrow> string \<Rightarrow> string \<Rightarrow> string \<Rightarrow> MailboxMessageType \<Rightarrow> string \<Rightarrow> string option
   \<Rightarrow> string list option \<Rightarrow> 'j TeamDb \<Rightarrow> (BoardError + MailboxMessage) \<times> 'j TeamDb" where
  "write_with_files w msg_id now team to_agent from_agent msg_type content summary files d =
     (let row = \<lparr>mb_id = msg_id, mb_team_id = team, mb_to_agent_id = to_agent, mb_from_agent_id = from_agent,
           mb_msg_type = message_type_name msg_type, mb_content = content, mb_summary = summary,
           mb_files = (if files = Some [] then None else files), mb_read = False, mb_created_at = now\<rparr>
      in and_then (repo_write_message w row d) (\<lambda>_ d.
           (case message_from_row row of Some m \<Rightarrow> Inr m | None \<Rightarrow> Inl (InvalidRequest msg_type), d)))"

definition write_message ::
  "TeamWorld \<Rightarrow> string \<Rightarrow> TimestampMs \<Rightarrow> string \<Rightarrow> string \<Rightarrow> string \<Rightarrow> MailboxMessageType \<Rightarrow> string \<Rightarrow> string option
   \<Rightarrow> 'j TeamDb \<Rightarrow> (BoardError + MailboxMessage) \<times> 'j TeamDb" where
  "write_message w msg_id now team to_agent from_agent msg_type content summary =
     write_with_files w msg_id now team to_agent from_agent msg_type content summary None"

definition read_unread :: "TeamWorld \<Rightarrow> string \<Rightarrow> string \<Rightarrow> 'j TeamDb \<Rightarrow> (BoardError + MailboxMessage list) \<times> 'j TeamDb" where
  "read_unread w team agent d =
     and_then (repo_read_unread_and_mark w team agent d) (\<lambda>rows d. (Inr (List.map_filter message_from_row rows), d))"

definition peek_unread :: "TeamWorld \<Rightarrow> string \<Rightarrow> string \<Rightarrow> 'j TeamDb \<Rightarrow> (BoardError + MailboxMessage list) \<times> 'j TeamDb" where
  "peek_unread w team agent d =
     and_then (repo_peek_unread w team agent d) (\<lambda>rows d. (Inr (List.map_filter message_from_row rows), d))"

definition mark_read_batch :: "TeamWorld \<Rightarrow> string list \<Rightarrow> 'j TeamDb \<Rightarrow> (BoardError + unit) \<times> 'j TeamDb" where
  "mark_read_batch w ids d = repo_mark_read_batch w ids d"

fun collect_unread :: "TeamWorld \<Rightarrow> string \<Rightarrow> string list \<Rightarrow> 'j TeamDb \<Rightarrow> (BoardError + string list) \<times> 'j TeamDb" where
  "collect_unread w team [] d = (Inr [], d)"
| "collect_unread w team (agent # agents) d =
     and_then (peek_unread w team agent d) (\<lambda>unread d.
       and_then (collect_unread w team agents d) (\<lambda>ids d. (Inr (map mm_id unread @ ids), d)))"

definition mark_all_unread_for_agents_read ::
  "TeamWorld \<Rightarrow> string \<Rightarrow> string list \<Rightarrow> 'j TeamDb \<Rightarrow> (BoardError + nat) \<times> 'j TeamDb" where
  "mark_all_unread_for_agents_read w team agents d =
     and_then (collect_unread w team agents d) (\<lambda>ids d.
       and_then (if ids = [] then (Inr (), d) else mark_read_batch w ids d) (\<lambda>_ d. (Inr (length ids), d)))"

definition get_history ::
  "TeamWorld \<Rightarrow> string \<Rightarrow> string \<Rightarrow> int option \<Rightarrow> 'j TeamDb \<Rightarrow> (BoardError + MailboxMessage list) \<times> 'j TeamDb" where
  "get_history w team agent limit d =
     and_then (repo_get_history w team agent limit d) (\<lambda>rows d. (Inr (List.map_filter message_from_row rows), d))"

definition has_unread :: "TeamWorld \<Rightarrow> string \<Rightarrow> string \<Rightarrow> 'j TeamDb \<Rightarrow> (BoardError + bool) \<times> 'j TeamDb" where
  "has_unread w team agent d =
     and_then (repo_get_history w team agent None d) (\<lambda>rows d. (Inr (list_ex (\<lambda>row. \<not> mb_read row) rows), d))"

lemma and_then_simps [simp]:
  "and_then (Inl e, s) f = (Inl e, s)" "and_then (Inr a, s) f = f a s"
  by (simp_all add: and_then_def)

end
