(* ===== verification/Team_Board_Props.thy ===== *)
theory Team_Board_Props
  imports Team_Board
begin

text \<open>
  The properties of the task board and the mailbox of a team: tasks never wait for one another in a circle,
  completing a task unblocks the tasks that were created to wait for it and not those that were updated to, every message is delivered
  once, and marking messages in chunks marks them all.
\<close>

lemma and_then_keeps:
  assumes "P (snd r)" "\<And>a s. r = (Inr a, s) \<Longrightarrow> P s \<Longrightarrow> P (snd (f a s))" shows "P (snd (and_then r f))"
  using assms by (cases r; cases "fst r") (auto simp: and_then_def)

lemma for_each_keeps: "P s \<Longrightarrow> (\<And>x s. x \<in> set xs \<Longrightarrow> P s \<Longrightarrow> P (snd (f x s))) \<Longrightarrow> P (snd (for_each f xs s))"
proof (induction xs arbitrary: s)
  case (Cons x xs)
  have "P (snd (f x s))" by (rule Cons.prems(2)) (simp_all add: Cons.prems(1))
  then show ?case unfolding for_each.simps by (rule and_then_keeps) (rule Cons.IH, simp_all add: Cons.prems(2))
qed simp

section \<open>Tasks wait in the order of their creation\<close>

definition position :: "'a list \<Rightarrow> 'a \<Rightarrow> nat" where
  "position ks a = length (takeWhile (\<lambda>x. x \<noteq> a) ks)"

lemma position_append: "a \<in> set ks \<Longrightarrow> position (ks @ ks') a = position ks a"
  by (simp add: position_def)

lemma position_less: "a \<in> set ks \<Longrightarrow> position ks a < length ks"
  by (induction ks) (auto simp: position_def)

lemma position_new: "a \<notin> set ks \<Longrightarrow> position (ks @ [a]) a = length ks"
  by (induction ks) (auto simp: position_def)

definition order_ok :: "'j TeamDb \<Rightarrow> bool" where
  "order_ok d \<longleftrightarrow> keyed (td_tasks d) \<and>
     (\<forall>t row dep. map_of (td_tasks d) t = Some row \<and> dep \<in> set (tt_blocked_by row) \<longrightarrow>
        map_of (td_tasks d) dep \<noteq> None \<and> position (map fst (td_tasks d)) dep < position (map fst (td_tasks d)) t)"

lemma order_ok_tick [simp]: "order_ok (d\<lparr>td_tick := n\<rparr>) = order_ok d"
  by (simp add: order_ok_def)

lemma order_ok_cong:
  assumes "td_tasks d' = td_tasks d" "order_ok d" shows "order_ok d'"
  using assms(2) unfolding order_ok_def assms(1) .

lemma query_keeps:
  assumes "P (d\<lparr>td_tick := Suc (td_tick d)\<rparr>)" "\<And>now d'. P d' \<Longrightarrow> P (snd (stmt now d'))"
  shows "P (snd (query w stmt d))"
  using assms by (simp add: query_def Let_def)

lemma map_entry_keys [simp]: "map fst (AList.map_entry k f xs) = map fst xs"
  by (induction xs) auto

lemma order_ok_map_entry:
  assumes "order_ok d" "\<And>row. set (tt_blocked_by (f row)) \<subseteq> set (tt_blocked_by row)"
  shows "order_ok (d\<lparr>td_tasks := AList.map_entry k f (td_tasks d)\<rparr>)"
  using assms by (fastforce simp: order_ok_def map_of_map_entry split: option.splits if_splits)

lemma order_ok_update_row:
  assumes "order_ok d" "\<And>now row. set (tt_blocked_by (f now row)) \<subseteq> set (tt_blocked_by row)"
  shows "order_ok (snd (update_row w k f d))"
  unfolding update_row_def by (rule query_keeps) (use assms in \<open>auto intro: order_ok_map_entry\<close>)

lemma find_keeps: "order_ok d \<Longrightarrow> order_ok (snd (repo_find_task_by_id w team k d))"
  unfolding repo_find_task_by_id_def by (rule query_keeps) auto

lemma tasks_find [simp]: "td_tasks (snd (repo_find_task_by_id w team k d)) = td_tasks d"
  by (simp add: repo_find_task_by_id_def query_def Let_def)

lemma check_dependency_tasks: "td_tasks (snd (check_dependency w team dep d)) = td_tasks d"
  unfolding check_dependency_def by (rule and_then_keeps [where P = "\<lambda>x. td_tasks x = td_tasks d"]) auto

lemma check_dependency_found:
  "check_dependency w team dep d = (Inr u, d') \<Longrightarrow> \<exists>row. map_of (td_tasks d) dep = Some row \<and> tt_team_id row = team"
  by (auto simp: check_dependency_def repo_find_task_by_id_def query_def Let_def and_then_def
      split: if_splits option.splits sum.splits prod.splits)

lemma check_dependencies:
  assumes "for_each (check_dependency w team) deps d = (Inr u, d')"
  shows "td_tasks d' = td_tasks d" "\<forall>dep \<in> set deps. \<exists>row. map_of (td_tasks d) dep = Some row \<and> tt_team_id row = team"
proof -
  have "td_tasks d' = td_tasks d \<and> (\<forall>dep \<in> set deps. \<exists>row. map_of (td_tasks d) dep = Some row \<and> tt_team_id row = team)"
    using assms
  proof (induction deps arbitrary: d)
    case (Cons dep deps)
    then obtain v d1 where 1: "check_dependency w team dep d = (Inr v, d1)" "for_each (check_dependency w team) deps d1 = (Inr u, d')"
      by (auto simp: and_then_def split: sum.splits prod.splits)
    then show ?case using Cons.IH [OF 1(2)] check_dependency_found [OF 1(1)] check_dependency_tasks [of w team dep d] by auto
  qed simp
  then show "td_tasks d' = td_tasks d" "\<forall>dep \<in> set deps. \<exists>row. map_of (td_tasks d) dep = Some row \<and> tt_team_id row = team" by auto
qed

lemma order_ok_create_row:
  assumes "order_ok d" "\<forall>dep \<in> set (tt_blocked_by row). map_of (td_tasks d) dep \<noteq> None"
  shows "order_ok (snd (repo_create_task w row d))"
proof -
  let ?ks = "map fst (td_tasks d)"
  have "order_ok (d\<lparr>td_tasks := td_tasks d @ [(tt_id row, row)]\<rparr>)" if new: "map_of (td_tasks d) (tt_id row) = None"
  proof -
    have notin: "tt_id row \<notin> set ?ks" using new by (simp add: map_of_eq_None_iff)
    have look: "map_of (td_tasks d @ [(tt_id row, row)]) k = (if k = tt_id row then Some row else map_of (td_tasks d) k)" for k
      using new by (auto simp: map_add_def split: option.splits)
    have old: "position (?ks @ [tt_id row]) k = position ?ks k" "position ?ks k < length ?ks" "k \<noteq> tt_id row"
      if "map_of (td_tasks d) k \<noteq> None" for k
    proof -
      have "k \<in> set ?ks" using that by (simp add: map_of_eq_None_iff)
      then show "position (?ks @ [tt_id row]) k = position ?ks k" "position ?ks k < length ?ks" "k \<noteq> tt_id row"
        using notin by (auto simp only: position_append position_less)
    qed
    have "map_of (td_tasks d) dep \<noteq> None \<and> position (?ks @ [tt_id row]) dep < position (?ks @ [tt_id row]) t"
      if r: "map_of (td_tasks d @ [(tt_id row, row)]) t = Some r" "dep \<in> set (tt_blocked_by r)" for t r dep
    proof (cases "t = tt_id row")
      case True
      with r assms(2) have dep: "map_of (td_tasks d) dep \<noteq> None" by (simp add: look del: map_of_append)
      then show ?thesis using old [OF dep] position_new [OF notin] True by simp
    next
      case False
      with r have t: "map_of (td_tasks d) t = Some r" by (simp add: look del: map_of_append)
      with r(2) assms(1) have "map_of (td_tasks d) dep \<noteq> None" "position ?ks dep < position ?ks t" by (auto simp: order_ok_def)
      then show ?thesis using old [of dep] old [of t] t by simp
    qed
    note waits = this
    have "keyed (td_tasks d @ [(tt_id row, row)])" using assms(1) notin by (simp add: order_ok_def keyed_def)
    moreover have "map_of (td_tasks d @ [(tt_id row, row)]) dep \<noteq> None" if "map_of (td_tasks d) dep \<noteq> None" for dep
      using that unfolding look by simp
    ultimately show ?thesis unfolding order_ok_def using waits by (simp del: map_of_append not_None_eq) blast
  qed
  then have "order_ok (d\<lparr>td_tick := n, td_tasks := td_tasks d @ [(tt_id row, row)]\<rparr>)" if "map_of (td_tasks d) (tt_id row) = None" for n
    by (rule order_ok_cong [rotated]) (use that in simp_all)
  then show ?thesis using assms(1) by (simp add: repo_create_task_def query_def Let_def)
qed

definition board_step :: "TeamWorld \<Rightarrow> 'j TeamDb \<Rightarrow> 'j TeamDb \<Rightarrow> bool" where
  "board_step w d d' \<longleftrightarrow>
     (\<exists>task_id now team subject description owner blocked_by.
        d' = snd (create_task w task_id now team subject description owner blocked_by d))
     \<or> (\<exists>team task_id u. tu_blocked_by u = None \<and> d' = snd (update_task w team task_id u d))"

lemmas order_ok_and_then = and_then_keeps [where P = order_ok]
lemmas order_ok_for_each = for_each_keeps [where P = order_ok]

lemma order_ok_create_task:
  assumes "order_ok d" shows "order_ok (snd (create_task w task_id now team subject description owner blocked_by d))"
  unfolding create_task_def Let_def
proof (rule and_then_keeps)
  show "order_ok (snd (for_each (check_dependency w team) blocked_by d))"
    by (rule order_ok_for_each [OF assms]) (rule order_ok_cong [OF check_dependency_tasks])
  fix u d1 assume 1: "for_each (check_dependency w team) blocked_by d = (Inr u, d1)" "order_ok d1"
  let ?row = "new_task_row task_id now team subject description owner blocked_by"
  have "order_ok (snd (repo_create_task w ?row d1))"
    by (rule order_ok_create_row [OF 1(2)]) (use check_dependencies [OF 1(1)] in \<open>auto simp: new_task_row_def\<close>)
  then show "order_ok (snd (and_then (repo_create_task w ?row d1) (\<lambda>_ d.
      and_then (for_each (\<lambda>dep_id. append_to_blocks w dep_id task_id) blocked_by d) (\<lambda>_ d. (Inr (task_from_row ?row), d)))))"
    unfolding append_to_blocks_def by (intro order_ok_and_then order_ok_for_each order_ok_update_row) auto
qed

lemma order_ok_update_task:
  assumes "order_ok d" "tu_blocked_by u = None" shows "order_ok (snd (update_task w team task_id u d))"
proof -
  have "order_ok (snd (repo_update_task w task_id (params_of u) d'))" if "order_ok d'" for d'
    using that assms(2) by (auto simp: repo_update_task_def set_task_columns_def params_of_def intro!: order_ok_update_row)
  moreover have "order_ok (snd (check_unblocks w task_id row d'))" if "order_ok d'" for row d'
    unfolding check_unblocks_def remove_from_blocked_by_def
    by (intro order_ok_for_each order_ok_update_row) (use that in auto)
  ultimately show ?thesis unfolding update_task_def
    by (auto intro!: order_ok_and_then find_keeps assms(1) split: option.split)
qed

interpretation board: machine "\<lambda>d. td_tasks d = []" "board_step w" order_ok for w
proof
  fix d d' :: "'j TeamDb"
  show "order_ok d" if "td_tasks d = []" using that by (simp add: order_ok_def)
  show "order_ok d'" if "order_ok d" "board_step w d d'"
    using that order_ok_create_task order_ok_update_task unfolding board_step_def by blast
qed

text \<open>The tasks a task waits for.\<close>

definition waits_for :: "'j TeamDb \<Rightarrow> (string \<times> string) set" where
  "waits_for d = {(dep, t). \<exists>row. map_of (td_tasks d) t = Some row \<and> dep \<in> set (tt_blocked_by row)}"

text \<open>
  C15: As long as no update sets the dependencies of a task, tasks never wait for one another
  in a circle and every task that is waited for exists, whatever statements of the creations
  and updates the database refuses.
\<close>

theorem tasks_never_wait_in_a_circle:
  assumes "reach (\<lambda>d. td_tasks d = []) (board_step w) d"
  shows "acyclic (waits_for d) \<and> (\<forall>dep t. (dep, t) \<in> waits_for d \<longrightarrow> map_of (td_tasks d) dep \<noteq> None)"
proof -
  have ok: "order_ok d" by (rule board.reach_inv [OF assms])
  then have "waits_for d \<subseteq> measure (position (map fst (td_tasks d)))" by (auto simp: waits_for_def order_ok_def)
  then have "acyclic (waits_for d)" by (meson acyclic_subset wf_acyclic wf_measure)
  then show ?thesis using ok by (auto simp: waits_for_def order_ok_def)
qed

definition demo_team_world :: TeamWorld where
  "demo_team_world = \<lparr>tw_db = (\<lambda>_. True), tw_now = int\<rparr>"

definition demo_board :: "unit TeamDb" where
  "demo_board = snd (create_task demo_team_world ''b'' 2 ''t1'' ''second'' None None [''a'']
     (snd (create_task demo_team_world ''a'' 1 ''t1'' ''first'' None None [] \<lparr>td_tasks = [], td_mailbox = [], td_tick = 0\<rparr>)))"

lemma demo_board_reach: "reach (\<lambda>d. td_tasks d = []) (board_step demo_team_world) demo_board"
  unfolding demo_board_def
  by (rule reach_step [OF reach_step [OF reach_init]]; (unfold board_step_def, blast)?) simp

theorem tasks_never_wait_in_a_circle_witness:
  "acyclic (waits_for demo_board) \<and> (''a'', ''b'') \<in> waits_for demo_board"
proof -
  have "map_option tt_blocked_by (map_of (td_tasks demo_board) ''b'') = Some [''a'']" by code_simp
  then show ?thesis using tasks_never_wait_in_a_circle [OF demo_board_reach] by (auto simp: waits_for_def)
qed

section \<open>Completing a task\<close>

text \<open>A row without the time of its last update.\<close>

definition core :: "'j TeamTaskRow \<Rightarrow> 'j TeamTaskRow" where
  "core row = row\<lparr>tt_updated_at := 0\<rparr>"

lemma core_simps [simp]:
  "tt_blocked_by (core row) = tt_blocked_by row" "tt_blocks (core row) = tt_blocks row" "tt_team_id (core row) = tt_team_id row"
  "core (row\<lparr>tt_updated_at := n\<rparr>) = core row" "tt_id (core row) = tt_id row"
  by (simp_all add: core_def)

lemma new_task_row_simps [simp]:
  "tt_id (new_task_row task_id now team subject description owner blocked_by) = task_id"
  "tt_blocked_by (new_task_row task_id now team subject description owner blocked_by) = blocked_by"
  "tt_blocks (new_task_row task_id now team subject description owner blocked_by) = []"
  by (simp_all add: new_task_row_def)

definition db_works :: "TeamWorld \<Rightarrow> bool" where
  "db_works w \<longleftrightarrow> (\<forall>t. tw_db w t)"

definition core_of :: "'j TeamDb \<Rightarrow> string \<Rightarrow> 'j TeamTaskRow option" where
  "core_of d k = map_option core (map_of (td_tasks d) k)"

lemma core_of_tick [simp]: "core_of (d\<lparr>td_tick := n\<rparr>) = core_of d"
  by (simp add: core_of_def fun_eq_iff)

lemma core_of_None: "core_of d k = None \<longleftrightarrow> map_of (td_tasks d) k = None"
  by (simp add: core_of_def)

text \<open>An update of a row that is there, and a loop of them.\<close>

lemma update_row_works:
  assumes "db_works w" "core_of d k \<noteq> None" "\<And>now row. core (f now row) = g (core row)"
  obtains d' where "update_row w k f d = (Inr (), d')" "core_of d' = (core_of d)(k := map_option g (core_of d k))"
    "map fst (td_tasks d') = map fst (td_tasks d)"
proof
  let ?d = "d\<lparr>td_tasks := AList.map_entry k (f (tw_now w (td_tick d))) (td_tasks d), td_tick := Suc (td_tick d)\<rparr>"
  show "update_row w k f d = (Inr (), ?d)"
    using assms(1,2) by (auto simp: update_row_def query_def db_works_def core_of_None Let_def)
  show "core_of ?d = (core_of d)(k := map_option g (core_of d k))"
    by (auto simp: core_of_def fun_eq_iff map_of_map_entry option.map_comp comp_def assms(3) split: option.splits)
qed simp

lemma for_each_update_row:
  assumes "db_works w" "\<And>k. k \<in> set ks \<Longrightarrow> core_of d k \<noteq> None" "\<And>now row. core (f now row) = g (core row)" "\<And>r. g (g r) = g r"
  obtains d' where "for_each (\<lambda>k. update_row w k f) ks d = (Inr (), d')"
    "core_of d' = (\<lambda>k. if k \<in> set ks then map_option g (core_of d k) else core_of d k)"
    "map fst (td_tasks d') = map fst (td_tasks d)"
proof -
  have "\<exists>d'. for_each (\<lambda>k. update_row w k f) ks d = (Inr (), d')
    \<and> core_of d' = (\<lambda>k. if k \<in> set ks then map_option g (core_of d k) else core_of d k)
    \<and> map fst (td_tasks d') = map fst (td_tasks d)"
    using assms(2)
  proof (induction ks arbitrary: d)
    case (Cons k ks)
    obtain d1 where d1: "update_row w k f d = (Inr (), d1)" "core_of d1 = (core_of d)(k := map_option g (core_of d k))"
        "map fst (td_tasks d1) = map fst (td_tasks d)"
      by (rule update_row_works [where w = w and d = d and k = k and f = f and g = g]) (use assms(1,3) Cons.prems in auto)
    have "core_of d1 j \<noteq> None" if "j \<in> set ks" for j using Cons.prems [of j] Cons.prems [of k] that by (auto simp: d1(2))
    from Cons.IH [OF this] obtain d' where d': "for_each (\<lambda>k. update_row w k f) ks d1 = (Inr (), d')"
        "core_of d' = (\<lambda>j. if j \<in> set ks then map_option g (core_of d1 j) else core_of d1 j)"
        "map fst (td_tasks d') = map fst (td_tasks d1)" by blast
    have "core_of d' = (\<lambda>j. if j \<in> set (k # ks) then map_option g (core_of d j) else core_of d j)"
      by (auto simp: d'(2) d1(2) fun_eq_iff option.map_comp comp_def assms(4))
    then show ?case using d1(1,3) d'(1,3) by auto
  qed auto
  then show thesis using that by blast
qed

lemma find_works:
  assumes "db_works w"
  shows "repo_find_task_by_id w team k d = (Inr (case map_of (td_tasks d) k of
     Some row \<Rightarrow> if tt_team_id row = team then Some row else None | None \<Rightarrow> None), d\<lparr>td_tick := Suc (td_tick d)\<rparr>)"
  using assms by (simp add: repo_find_task_by_id_def query_def db_works_def Let_def)

text \<open>
  Both sides of a dependency: what a task waits for lists it among the tasks it blocks, and those exist.
\<close>

definition blocks_exist :: "(string \<Rightarrow> 'j TeamTaskRow option) \<Rightarrow> bool" where
  "blocks_exist c \<longleftrightarrow> (\<forall>t row x. c t = Some row \<and> x \<in> set (tt_blocks row) \<longrightarrow> c x \<noteq> None)"

definition linked :: "(string \<Rightarrow> 'j TeamTaskRow option) \<Rightarrow> bool" where
  "linked c \<longleftrightarrow> blocks_exist c \<and>
     (\<forall>t row dep. c t = Some row \<and> dep \<in> set (tt_blocked_by row) \<longrightarrow> (\<exists>drow. c dep = Some drow \<and> t \<in> set (tt_blocks drow)))"

text \<open>What an update leaves of a row, and that it does, for a task that is there.\<close>

definition after_update :: "'j TaskUpdate \<Rightarrow> string \<Rightarrow> string list \<Rightarrow> string \<Rightarrow> 'j TeamTaskRow \<Rightarrow> 'j TeamTaskRow" where
  "after_update u k blocks j row =
     (let row = (if j = k then core (set_task_columns 0 (params_of u) row) else row)
      in if tu_status u = Some TaskCompleted \<and> j \<in> set blocks
         then row\<lparr>tt_blocked_by := filter (\<lambda>i. i \<noteq> k) (tt_blocked_by row)\<rparr> else row)"

lemma after_update_simps [simp]:
  "tt_blocks (after_update u k blocks j row) = tt_blocks row"
  "tt_blocked_by (after_update u k blocks j row) =
     (let deps = (if j = k then (case tu_blocked_by u of Some v \<Rightarrow> v | None \<Rightarrow> tt_blocked_by row) else tt_blocked_by row)
      in if tu_status u = Some TaskCompleted \<and> j \<in> set blocks then filter (\<lambda>i. i \<noteq> k) deps else deps)"
  "tt_status (after_update u k blocks j row) =
     (if j = k then (case tu_status u of Some v \<Rightarrow> task_status_name v | None \<Rightarrow> tt_status row) else tt_status row)"
  by (auto simp: after_update_def Let_def set_task_columns_def params_of_def core_def split: option.split)

lemma update_task_works:
  assumes "db_works w" "blocks_exist (core_of d)" "core_of d k = Some row0" "tt_team_id row0 = team"
  obtains row d' where "update_task w team k u d = (Inr (task_from_row row), d')" "core_of d' k = Some (core row)"
    "\<And>j. core_of d' j = map_option (after_update u k (tt_blocks row0) j) (core_of d j)"
proof -
  let ?g = "\<lambda>row. core (set_task_columns 0 (params_of u) row)"
  let ?h = "\<lambda>row. row\<lparr>tt_blocked_by := filter (\<lambda>i. i \<noteq> k) (tt_blocked_by row)\<rparr>"
  have step: "core (set_task_columns now (params_of u) row) = ?g (core row)" for now row
    by (auto simp: set_task_columns_def core_def split: option.split)
  obtain row where row: "map_of (td_tasks d) k = Some row" "core row = row0" using assms(3) by (auto simp: core_of_def)
  obtain d1 where d1: "repo_update_task w k (params_of u) (d\<lparr>td_tick := Suc (td_tick d)\<rparr>) = (Inr (), d1)"
      "core_of d1 = (core_of d)(k := map_option ?g (core_of d k))"
  proof (cases "up_status (params_of u) = None \<and> up_description (params_of u) = None \<and> up_owner (params_of u) = None
      \<and> up_blocked_by (params_of u) = None \<and> up_metadata (params_of u) = None")
    case True
    then have "?g row0 = row0" using row(2) by (auto simp: set_task_columns_def core_def)
    then have "core_of d = (core_of d)(k := map_option ?g (core_of d k))" by (simp add: assms(3) fun_upd_idem)
    then show thesis using True that [of "d\<lparr>td_tick := Suc (td_tick d)\<rparr>"] by (simp add: repo_update_task_def)
  next
    case False
    obtain d1 where "update_row w k (\<lambda>now. set_task_columns now (params_of u)) (d\<lparr>td_tick := Suc (td_tick d)\<rparr>) = (Inr (), d1)"
        "core_of d1 = (core_of (d\<lparr>td_tick := Suc (td_tick d)\<rparr>))(k := map_option ?g (core_of (d\<lparr>td_tick := Suc (td_tick d)\<rparr>) k))"
      by (rule update_row_works [where w = w and k = k and g = ?g and f = "\<lambda>now. set_task_columns now (params_of u)"
            and d = "d\<lparr>td_tick := Suc (td_tick d)\<rparr>"])
        (use assms(1,3) step in auto)
    then show thesis using False that by (auto simp: repo_update_task_def)
  qed
  have blocks: "core_of d1 x \<noteq> None" if "x \<in> set (tt_blocks row)" for x
  proof -
    have "x \<in> set (tt_blocks row0)" using that row(2) by auto
    then have "core_of d x \<noteq> None" using assms(2,3) unfolding blocks_exist_def by blast
    then show ?thesis using assms(3) by (simp add: d1(2))
  qed
  obtain d2 where d2: "(if tu_status u = Some TaskCompleted then check_unblocks w k row d1 else (Inr (), d1)) = (Inr (), d2)"
      "core_of d2 = (\<lambda>j. if tu_status u = Some TaskCompleted \<and> j \<in> set (tt_blocks row) then map_option ?h (core_of d1 j) else core_of d1 j)"
  proof (cases "tu_status u = Some TaskCompleted")
    case True
    obtain d2 where "for_each (\<lambda>i. update_row w i (\<lambda>now row. row\<lparr>tt_blocked_by := filter (\<lambda>i. i \<noteq> k) (tt_blocked_by row),
          tt_updated_at := now\<rparr>)) (tt_blocks row) d1 = (Inr (), d2)"
        "core_of d2 = (\<lambda>j. if j \<in> set (tt_blocks row) then map_option ?h (core_of d1 j) else core_of d1 j)"
      by (rule for_each_update_row [where w = w and d = d1 and ks = "tt_blocks row" and g = ?h
            and f = "\<lambda>now row. row\<lparr>tt_blocked_by := filter (\<lambda>i. i \<noteq> k) (tt_blocked_by row), tt_updated_at := now\<rparr>"])
        (use assms(1) blocks in \<open>auto simp: core_def\<close>)
    then show thesis using True that by (simp add: check_unblocks_def remove_from_blocked_by_def)
  qed (use that in auto)
  have "core_of d2 k \<noteq> None" using assms(3) by (auto simp: d2(2) d1(2))
  then obtain row2 where row2: "map_of (td_tasks d2) k = Some row2" by (auto simp: core_of_None)
  have "tt_team_id row2 = team"
  proof -
    have "map_option tt_team_id (core_of d2 k) = Some (tt_team_id row0)"
      using assms(3) unfolding d2(2) d1(2) by (simp add: set_task_columns_def)
    then show ?thesis using assms(4) row2 by (simp add: core_of_def)
  qed
  then have run: "update_task w team k u d = (Inr (task_from_row row2), d2\<lparr>td_tick := Suc (td_tick d2)\<rparr>)"
    using row assms(4) row2 d1(1) d2(1) by (auto simp: update_task_def find_works [OF assms(1)])
  show thesis
  proof (rule that [OF run])
    show "core_of (d2\<lparr>td_tick := Suc (td_tick d2)\<rparr>) k = Some (core row2)"
      using row2 by (simp add: core_of_def)
    fix j
    have "tt_blocks row = tt_blocks row0" using row(2) by auto
    then show "core_of (d2\<lparr>td_tick := Suc (td_tick d2)\<rparr>) j = map_option (after_update u k (tt_blocks row0) j) (core_of d j)"
      by (cases "core_of d j") (auto simp: d2(2) d1(2) after_update_def Let_def)
  qed
qed

lemma check_dependencies_tasks: "td_tasks (snd (for_each (check_dependency w team) deps d)) = td_tasks d"
  by (rule for_each_keeps [where P = "\<lambda>x. td_tasks x = td_tasks d"]) (simp_all add: check_dependency_tasks)

lemma core_of_cong: "td_tasks d' = td_tasks d \<Longrightarrow> core_of d' = core_of d"
  by (simp add: core_of_def fun_eq_iff)

text \<open>What the creation of a task leaves: nothing, or the new task, listed by the tasks it waits for.\<close>

definition with_task :: "'j TeamTaskRow \<Rightarrow> (string \<Rightarrow> 'j TeamTaskRow option) \<Rightarrow> string \<Rightarrow> 'j TeamTaskRow option" where
  "with_task row c j = (if j \<in> set (tt_blocked_by row)
     then map_option (\<lambda>r. r\<lparr>tt_blocks := (if tt_id row \<in> set (tt_blocks r) then tt_blocks r else tt_blocks r @ [tt_id row])\<rparr>) (c j)
     else if j = tt_id row then Some row else c j)"

lemma create_task_works:
  fixes d :: "'j TeamDb"
  assumes "db_works w"
  shows "core_of (snd (create_task w task_id now team subject description owner blocked_by d)) = core_of d
    \<or> core_of d task_id = None \<and> (\<forall>dep \<in> set blocked_by. core_of d dep \<noteq> None)
      \<and> core_of (snd (create_task w task_id now team subject description owner blocked_by d))
        = with_task (core (new_task_row task_id now team subject description owner blocked_by)) (core_of d)"
proof -
  let ?row = "new_task_row task_id now team subject description owner blocked_by :: 'j TeamTaskRow"
  let ?link = "\<lambda>r. r\<lparr>tt_blocks := (if task_id \<in> set (tt_blocks r) then tt_blocks r else tt_blocks r @ [task_id])\<rparr>"
  let ?checked = "for_each (check_dependency w team) blocked_by d"
  show ?thesis
  proof (cases "fst ?checked")
    case (Inl e)
    then have "snd (create_task w task_id now team subject description owner blocked_by d) = snd ?checked"
      by (cases ?checked) (simp add: create_task_def)
    then show ?thesis using core_of_cong [OF check_dependencies_tasks] by metis
  next
    case (Inr u)
    then obtain d1 where d1: "?checked = (Inr u, d1)" by (cases ?checked) simp
    note tasks = check_dependencies [OF d1]
    have deps: "\<forall>dep \<in> set blocked_by. core_of d dep \<noteq> None" using tasks(2) by (auto simp: core_of_None)
    show ?thesis
    proof (cases "map_of (td_tasks d) task_id")
      case None
      let ?d2 = "d1\<lparr>td_tick := Suc (td_tick d1), td_tasks := td_tasks d @ [(task_id, ?row)]\<rparr>"
      have d2: "repo_create_task w ?row d1 = (Inr (), ?d2)"
        using None tasks(1) assms by (simp add: repo_create_task_def query_def db_works_def Let_def new_task_row_def)
      have core2: "core_of ?d2 = (core_of d)(task_id := Some (core ?row))"
        using None by (auto simp: core_of_def fun_eq_iff map_add_def split: option.splits)
      obtain d' where d': "for_each (\<lambda>k. update_row w k (\<lambda>now row. row
            \<lparr>tt_blocks := (if task_id \<in> set (tt_blocks row) then tt_blocks row else tt_blocks row @ [task_id]),
             tt_updated_at := now\<rparr>)) blocked_by ?d2 = (Inr (), d')"
          "core_of d' = (\<lambda>k. if k \<in> set blocked_by then map_option ?link (core_of ?d2 k) else core_of ?d2 k)"
        by (rule for_each_update_row [where w = w and d = ?d2 and ks = blocked_by and g = ?link and f = "\<lambda>now row. row
            \<lparr>tt_blocks := (if task_id \<in> set (tt_blocks row) then tt_blocks row else tt_blocks row @ [task_id]),
             tt_updated_at := now\<rparr>"])
          (use assms deps core2 in \<open>auto simp: core_def\<close>)
      have "snd (create_task w task_id now team subject description owner blocked_by d) = d'"
        using d1 d2 d'(1) by (simp add: create_task_def append_to_blocks_def)
      moreover have "core_of d' = with_task (core ?row) (core_of d)"
        using deps None by (auto simp: d'(2) core2 with_task_def fun_eq_iff core_of_None cong: if_cong)
      ultimately show ?thesis using deps None by (simp add: core_of_None)
    next
      case (Some r)
      then have "snd (create_task w task_id now team subject description owner blocked_by d) = d1\<lparr>td_tick := Suc (td_tick d1)\<rparr>"
        using d1 tasks(1) assms
        by (simp add: create_task_def repo_create_task_def query_def db_works_def Let_def new_task_row_def)
      then show ?thesis using core_of_cong [OF tasks(1)] by simp
    qed
  qed
qed

lemma with_task_old:
  assumes "c (tt_id row) = None" "c j = Some r"
  obtains r' where "with_task row c j = Some r'" "tt_blocked_by r' = tt_blocked_by r"
    "set (tt_blocks r') = set (tt_blocks r) \<union> (if j \<in> set (tt_blocked_by row) then {tt_id row} else {})"
proof -
  have "j \<noteq> tt_id row" using assms by auto
  then have "\<exists>r'. with_task row c j = Some r' \<and> tt_blocked_by r' = tt_blocked_by r
      \<and> set (tt_blocks r') = set (tt_blocks r) \<union> (if j \<in> set (tt_blocked_by row) then {tt_id row} else {})"
    using assms(2) by (auto simp: with_task_def)
  then show thesis using that by blast
qed

lemma linked_with_task:
  assumes "linked c" "c (tt_id row) = None" "\<forall>dep \<in> set (tt_blocked_by row). c dep \<noteq> None" "tt_blocks row = []"
  shows "linked (with_task row c)"
proof -
  let ?c = "with_task row c"
  have new: "?c (tt_id row) = Some row" using assms(2,3) by (auto simp: with_task_def)
  have cases: "t = tt_id row \<and> r' = row \<or> (\<exists>r. c t = Some r \<and> tt_blocked_by r' = tt_blocked_by r
      \<and> set (tt_blocks r') = set (tt_blocks r) \<union> (if t \<in> set (tt_blocked_by row) then {tt_id row} else {}))"
    if "?c t = Some r'" for t r'
  proof (cases "c t")
    case None
    then show ?thesis using that by (auto simp: with_task_def split: if_splits)
  next
    case (Some r)
    then show ?thesis using with_task_old [OF assms(2) Some] that by (metis option.inject)
  qed
  have "?c x \<noteq> None" if x: "?c t = Some r'" "x \<in> set (tt_blocks r')" for t r' x
  proof (cases "x = tt_id row")
    case False
    then obtain r where "c t = Some r" "x \<in> set (tt_blocks r)"
      using cases [OF x(1)] x(2) assms(4) by (auto split: if_splits)
    then have "c x \<noteq> None" using assms(1) unfolding linked_def blocks_exist_def by blast
    then show ?thesis using False by (auto simp: with_task_def)
  qed (simp add: new)
  moreover have "\<exists>drow. ?c dep = Some drow \<and> t \<in> set (tt_blocks drow)" if dep: "?c t = Some r'" "dep \<in> set (tt_blocked_by r')" for t r' dep
    using cases [OF dep(1)]
  proof (elim disjE exE conjE)
    assume t: "t = tt_id row" "r' = row"
    with dep(2) assms(3) obtain r where "c dep = Some r" by blast
    then obtain r2 where "?c dep = Some r2"
        "set (tt_blocks r2) = set (tt_blocks r) \<union> (if dep \<in> set (tt_blocked_by row) then {tt_id row} else {})"
      by (rule with_task_old [where c = c and row = row, OF assms(2)]) blast
    then show ?thesis using dep(2) t by auto
  next
    fix r assume r: "c t = Some r" "tt_blocked_by r' = tt_blocked_by r"
    with dep(2) assms(1) obtain dr where "c dep = Some dr" "t \<in> set (tt_blocks dr)" unfolding linked_def by metis
    moreover from this(1) obtain r2 where "?c dep = Some r2"
        "set (tt_blocks r2) = set (tt_blocks dr) \<union> (if dep \<in> set (tt_blocked_by row) then {tt_id row} else {})"
      by (rule with_task_old [where c = c and row = row, OF assms(2)]) blast
    ultimately show ?thesis by auto
  qed
  ultimately show ?thesis unfolding linked_def blocks_exist_def by blast
qed

lemma linked_fewer:
  assumes "linked c"
    "\<And>j. c' j = None \<longleftrightarrow> c j = None"
    "\<And>j r r'. c j = Some r \<Longrightarrow> c' j = Some r' \<Longrightarrow> set (tt_blocked_by r') \<subseteq> set (tt_blocked_by r) \<and> tt_blocks r' = tt_blocks r"
  shows "linked c'"
proof -
  have old: "\<exists>r. c j = Some r \<and> set (tt_blocked_by r') \<subseteq> set (tt_blocked_by r) \<and> tt_blocks r' = tt_blocks r" if "c' j = Some r'" for j r'
    using assms(2) [of j] assms(3) [of j "the (c j)" r'] that by (cases "c j") auto
  have new: "\<exists>r'. c' j = Some r' \<and> tt_blocks r' = tt_blocks r" if "c j = Some r" for j r
    using assms(2) [of j] assms(3) [of j r] that by (cases "c' j") auto
  have "c' x \<noteq> None" if "c' t = Some r'" "x \<in> set (tt_blocks r')" for t r' x
    using old [OF that(1)] that(2) assms(1,2) unfolding linked_def blocks_exist_def by metis
  moreover have "\<exists>drow. c' dep = Some drow \<and> t \<in> set (tt_blocks drow)" if t: "c' t = Some r'" "dep \<in> set (tt_blocked_by r')" for t r' dep
  proof -
    obtain r where "c t = Some r" "dep \<in> set (tt_blocked_by r)" using old [OF t(1)] t(2) by blast
    then obtain dr where "c dep = Some dr" "t \<in> set (tt_blocks dr)" using assms(1) unfolding linked_def by blast
    then show ?thesis using new by metis
  qed
  ultimately show ?thesis unfolding linked_def blocks_exist_def by blast
qed

lemma linked_update_task:
  assumes "db_works w" "linked (core_of d)" "tu_blocked_by u = None"
  shows "linked (core_of (snd (update_task w team k u d)))"
proof (cases "\<exists>row0. core_of d k = Some row0 \<and> tt_team_id row0 = team")
  case True
  then obtain row0 where row0: "core_of d k = Some row0" "tt_team_id row0 = team" by blast
  have "blocks_exist (core_of d)" using assms(2) by (simp add: linked_def)
  then obtain row d' where d': "update_task w team k u d = (Inr (task_from_row row), d')"
    "\<And>j. core_of d' j = map_option (after_update u k (tt_blocks row0) j) (core_of d j)"
    by (rule update_task_works [OF assms(1) _ row0, where u = u]) blast
  have "linked (core_of d')"
    by (rule linked_fewer [OF assms(2)]) (use assms(3) in \<open>auto simp: d'(2) Let_def split: if_splits\<close>)
  then show ?thesis by (simp add: d'(1))
next
  case False
  then have "update_task w team k u d = (Inl (TaskNotFound k), d\<lparr>td_tick := Suc (td_tick d)\<rparr>)"
    by (auto simp: update_task_def find_works [OF assms(1)] core_of_def split: option.split)
  then show ?thesis using assms(2) by simp
qed

interpretation linked_board:
  machine "\<lambda>d. td_tasks d = []" "\<lambda>d d'. db_works w \<and> board_step w d d'" "\<lambda>d. linked (core_of d)" for w
proof
  fix d d' :: "'j TeamDb"
  show "linked (core_of d)" if "td_tasks d = []" using that by (simp add: linked_def blocks_exist_def core_of_def)
  show "linked (core_of d')" if "linked (core_of d)" "db_works w \<and> board_step w d d'"
  proof -
    have "linked (core_of (snd (create_task w task_id now team subject description owner blocked_by d)))"
      for task_id now team subject description owner blocked_by
      using create_task_works [of w task_id now team subject description owner blocked_by d] that
      by (auto intro!: linked_with_task)
    then show ?thesis using that linked_update_task [of w d] unfolding board_step_def by blast
  qed
qed

text \<open>
  C18: On a board whose dependencies come from the creation of tasks, with a working database,
  an update that completes a task succeeds, returns it as completed, takes it out of what
  every other task waits for, leaves all other dependencies and changes no other status.
\<close>

theorem completing_a_task_unblocks:
  assumes "db_works w" "reach (\<lambda>d. td_tasks d = []) (\<lambda>d d'. db_works w \<and> board_step w d d') d"
    and "map_of (td_tasks d) k = Some row" "tt_team_id row = team" "tu_status u = Some TaskCompleted" "tu_blocked_by u = None"
  shows "\<exists>task d'. update_task w team k u d = (Inr task, d') \<and> tk_status task = TaskCompleted
    \<and> (\<forall>j. map_option tt_blocked_by (map_of (td_tasks d') j)
          = map_option (\<lambda>r. filter (\<lambda>i. i \<noteq> k) (tt_blocked_by r)) (map_of (td_tasks d) j))
    \<and> (\<forall>j. j \<noteq> k \<longrightarrow> map_option tt_status (map_of (td_tasks d') j) = map_option tt_status (map_of (td_tasks d) j))"
proof -
  have linked: "linked (core_of d)" by (rule linked_board.reach_inv [OF assms(2)])
  have row: "core_of d k = Some (core row)" "tt_team_id (core row) = team" using assms(3,4) by (simp_all add: core_of_def)
  have "blocks_exist (core_of d)" using linked by (simp add: linked_def)
  then obtain row' d' where run: "update_task w team k u d = (Inr (task_from_row row'), d')" "core_of d' k = Some (core row')"
    and d': "\<And>j. core_of d' j = map_option (after_update u k (tt_blocks (core row)) j) (core_of d j)"
    by (rule update_task_works [OF assms(1) _ row, where u = u]) blast
  have look: "map_option tt_blocked_by (map_of (td_tasks x) j) = map_option tt_blocked_by (core_of x j)"
      "map_option tt_status (map_of (td_tasks x) j) = map_option tt_status (core_of x j)" for x :: "'a TeamDb" and j
    by (simp_all add: core_of_def option.map_comp comp_def core_def)
  have "k \<notin> set (tt_blocked_by r)" if "core_of d j = Some r" "j \<notin> set (tt_blocks row)" for j r
    using linked row(1) that unfolding linked_def by (metis core_simps(2) option.inject)
  then have "map_option tt_blocked_by (core_of d' j) = map_option (\<lambda>r. filter (\<lambda>i. i \<noteq> k) (tt_blocked_by r)) (core_of d j)" for j
    using assms(5,6) unfolding d'
    by (cases "core_of d j") (fastforce simp: Let_def intro: filter_True [symmetric])+
  moreover have "map_option tt_status (core_of d' j) = map_option tt_status (core_of d j)" if "j \<noteq> k" for j
    using that unfolding d' by (cases "core_of d j") (auto simp: Let_def)
  moreover have "map_option (\<lambda>r. filter (\<lambda>i. i \<noteq> k) (tt_blocked_by r)) (map_of (td_tasks d) j)
      = map_option (\<lambda>r. filter (\<lambda>i. i \<noteq> k) (tt_blocked_by r)) (core_of d j)" for j
    by (simp add: core_of_def option.map_comp comp_def)
  moreover have "tk_status (task_from_row row') = TaskCompleted"
  proof -
    have "map_option tt_status (core_of d' k) = Some ''completed''"
      using assms(5) row(1) unfolding d' by simp
    then have "tt_status row' = ''completed''" using run(2) by (simp add: core_def)
    then show ?thesis by (simp add: task_from_row_def parse_task_status_def)
  qed
  ultimately show ?thesis using run(1) by (simp add: look)
qed

definition demo_complete :: "unit TaskUpdate" where
  "demo_complete = \<lparr>tu_status = Some TaskCompleted, tu_description = None, tu_owner = None, tu_blocked_by = None, tu_metadata = None\<rparr>"

lemma demo_works: "db_works demo_team_world"
  by (simp add: db_works_def demo_team_world_def)

lemma demo_board_works: "reach (\<lambda>d. td_tasks d = []) (\<lambda>d d'. db_works demo_team_world \<and> board_step demo_team_world d d') demo_board"
  unfolding demo_board_def
  by (rule reach_step [OF reach_step [OF reach_init]]; (unfold board_step_def, use demo_works in blast)?) simp

theorem completing_a_task_unblocks_witness:
  "\<exists>task d'. update_task demo_team_world ''t1'' ''a'' demo_complete demo_board = (Inr task, d') \<and> tk_status task = TaskCompleted
    \<and> map_option tt_blocked_by (map_of (td_tasks demo_board) ''b'') = Some [''a'']
    \<and> map_option tt_blocked_by (map_of (td_tasks d') ''b'') = Some []"
proof -
  obtain row where row: "map_of (td_tasks demo_board) ''a'' = Some row" "tt_team_id row = ''t1''"
  proof -
    have "map_option tt_team_id (map_of (td_tasks demo_board) ''a'') = Some ''t1''" by code_simp
    then show thesis using that by auto
  qed
  have b: "map_option tt_blocked_by (map_of (td_tasks demo_board) ''b'') = Some [''a'']" by code_simp
  then have "map_option (\<lambda>r. filter (\<lambda>i. i \<noteq> ''a'') (tt_blocked_by r)) (map_of (td_tasks demo_board) ''b'') = Some []" by auto
  then show ?thesis
    using completing_a_task_unblocks [OF demo_works demo_board_works row, of demo_complete] b
    by (metis TaskUpdate.simps(1,4) demo_complete_def)
qed

text \<open>
  C36: A dependency a task is given by an update is not recorded with the task it waits for:
  when that task completes, the first one still waits for it.
\<close>

theorem dependency_set_by_an_update_is_not_lifted:
  assumes "db_works w" "reach (\<lambda>d. td_tasks d = []) (\<lambda>d d'. db_works w \<and> board_step w d d') d"
    and "map_of (td_tasks d) a = Some arow" "tt_team_id arow = team" "map_of (td_tasks d) b = Some brow" "tt_team_id brow = team"
    and "a \<noteq> b" "b \<notin> set (tt_blocks arow)" "tu_status ub = None" "tu_blocked_by ub = Some [a]"
    and "tu_status ua = Some TaskCompleted" "tu_blocked_by ua = None"
  shows "\<exists>tb d1 ta d2. update_task w team b ub d = (Inr tb, d1) \<and> update_task w team a ua d1 = (Inr ta, d2)
    \<and> map_option tt_status (map_of (td_tasks d2) a) = Some ''completed''
    \<and> map_option tt_blocked_by (map_of (td_tasks d2) b) = Some [a]"
proof -
  have ex: "blocks_exist (core_of d)" using linked_board.reach_inv [OF assms(2)] by (simp add: linked_def)
  have b: "core_of d b = Some (core brow)" "tt_team_id (core brow) = team" using assms(5,6) by (simp_all add: core_of_def)
  obtain rb d1 where run1: "update_task w team b ub d = (Inr (task_from_row rb), d1)"
    and d1: "\<And>j. core_of d1 j = map_option (after_update ub b (tt_blocks (core brow)) j) (core_of d j)"
    by (rule update_task_works [OF assms(1) ex b, where u = ub]) blast
  have a: "core_of d1 a = Some (core arow)" "tt_team_id (core arow) = team"
    unfolding d1 using assms(3,4,7,9) by (simp_all add: core_of_def after_update_def)
  have "blocks_exist (core_of d1)" using ex unfolding blocks_exist_def d1 by auto
  then obtain ra d2 where run2: "update_task w team a ua d1 = (Inr (task_from_row ra), d2)"
    and d2: "\<And>j. core_of d2 j = map_option (after_update ua a (tt_blocks (core arow)) j) (core_of d1 j)"
    by (rule update_task_works [OF assms(1) _ a, where u = ua]) blast
  have "map_option tt_status (core_of d2 a) = Some ''completed''" using a(1) assms(11) by (simp add: d2)
  moreover have "map_option tt_blocked_by (core_of d2 b) = Some [a]"
    using assms(7-11) b(1) by (simp add: d2 d1 Let_def)
  moreover have "map_option tt_status (core_of d2 a) = map_option tt_status (map_of (td_tasks d2) a)"
    "map_option tt_blocked_by (core_of d2 b) = map_option tt_blocked_by (map_of (td_tasks d2) b)"
    by (simp_all add: core_of_def option.map_comp comp_def core_def)
  ultimately show ?thesis using run1 run2 by auto
qed

text \<open>On the demonstration board, where the second task was created to wait for the first: now the first waits for the second.\<close>

theorem dependency_set_by_an_update_is_not_lifted_witness:
  "\<exists>tb d1 ta d2. update_task demo_team_world ''t1'' ''a'' (demo_complete\<lparr>tu_status := None, tu_blocked_by := Some [''b'']\<rparr>) demo_board = (Inr tb, d1)
    \<and> update_task demo_team_world ''t1'' ''b'' demo_complete d1 = (Inr ta, d2)
    \<and> map_option tt_blocked_by (map_of (td_tasks d2) ''a'') = Some [''b'']"
proof -
  have rows: "map_option (\<lambda>r. (tt_team_id r, tt_blocks r)) (map_of (td_tasks demo_board) ''a'') = Some (''t1'', [''b''])"
    "map_option (\<lambda>r. (tt_team_id r, tt_blocks r)) (map_of (td_tasks demo_board) ''b'') = Some (''t1'', [])" by code_simp+
  then obtain ra rb where r: "map_of (td_tasks demo_board) ''a'' = Some ra" "tt_team_id ra = ''t1''"
    "map_of (td_tasks demo_board) ''b'' = Some rb" "tt_team_id rb = ''t1''" "tt_blocks rb = []" by auto
  show ?thesis
    using dependency_set_by_an_update_is_not_lifted [OF demo_works demo_board_works r(3,4) r(1,2),
        of "demo_complete\<lparr>tu_status := None, tu_blocked_by := Some [''b'']\<rparr>" demo_complete] r(5)
    by (fastforce simp: demo_complete_def)
qed

end
