(* ===== verification/Team_Mailbox_Props.thy ===== *)
theory Team_Mailbox_Props
  imports Team_Board
begin

text \<open>
  The properties of the mailbox of a team: every message that was written is delivered once and unchanged, in the
  order of time within a delivery, whatever statements the database refuses, and marking messages in chunks marks
  them all.
\<close>

section \<open>Runs of the mailbox\<close>

datatype mail_op =
    MailWrite string TimestampMs string string string MailboxMessageType string "string option" "string list option"
  | MailRead string string

text \<open>What was written, what was delivered and to whom, and the database after the operations.\<close>

fun mail_run :: "TeamWorld \<Rightarrow> mail_op list \<Rightarrow> 'j TeamDb
    \<Rightarrow> MailboxMessage list \<times> (string \<times> string \<times> MailboxMessage list) list \<times> 'j TeamDb" where
  "mail_run w [] d = ([], [], d)"
| "mail_run w (MailWrite i now team to_agent from_agent msg_type content summary files # ops) d =
     (case write_with_files w i now team to_agent from_agent msg_type content summary files d of
        (Inr m, d) \<Rightarrow> (case mail_run w ops d of (written, delivered, d) \<Rightarrow> (m # written, delivered, d))
      | (Inl _, d) \<Rightarrow> mail_run w ops d)"
| "mail_run w (MailRead team agent # ops) d =
     (case read_unread w team agent d of
        (Inr ms, d) \<Rightarrow> (case mail_run w ops d of (written, delivered, d) \<Rightarrow> (written, (team, agent, ms) # delivered, d))
      | (Inl _, d) \<Rightarrow> mail_run w ops d)"

definition unread_messages :: "'j TeamDb \<Rightarrow> MailboxMessage multiset" where
  "unread_messages d = mset (List.map_filter message_from_row (filter (\<lambda>row. \<not> mb_read row) (map snd (td_mailbox d))))"

definition delivered_messages :: "(string \<times> string \<times> MailboxMessage list) list \<Rightarrow> MailboxMessage multiset" where
  "delivered_messages ds = mset (concat (map (\<lambda>(_, _, ms). ms) ds))"

lemma mset_map_filter: "mset (List.map_filter f xs) = image_mset (\<lambda>x. the (f x)) (filter_mset (\<lambda>x. f x \<noteq> None) (mset xs))"
  by (induction xs) (auto split: option.split)

lemma parse_message_type_name [simp]: "parse_message_type (message_type_name t) = Some t"
  by (cases t) (simp_all add: parse_message_type_def)

lemma write_outcome:
  "case write_with_files w i now team to_agent from_agent msg_type content summary files d of
     (Inr m, d') \<Rightarrow> \<exists>row. message_from_row row = Some m \<and> \<not> mb_read row \<and> mb_id row = i \<and> map_of (td_mailbox d) i = None
        \<and> td_mailbox d' = td_mailbox d @ [(i, row)]
   | (Inl _, d') \<Rightarrow> td_mailbox d' = td_mailbox d"
  by (auto simp: write_with_files_def repo_write_message_def query_def Let_def and_then_def message_from_row_def
      split: if_splits)

definition read_mail :: "(MailboxMessageRow \<Rightarrow> bool) \<Rightarrow> (string \<times> MailboxMessageRow) list \<Rightarrow> (string \<times> MailboxMessageRow) list" where
  "read_mail P = map (\<lambda>(i, row). (i, if P row then row\<lparr>mb_read := True\<rparr> else row))"

lemma set_read_mailbox [simp]: "td_mailbox (set_read P d) = read_mail P (td_mailbox d)"
  by (simp add: set_read_def read_mail_def)

lemma read_mail_none: "(\<And>i row. (i, row) \<in> set xs \<Longrightarrow> \<not> P row) \<Longrightarrow> read_mail P xs = xs"
  by (auto simp: read_mail_def intro: map_idI)

lemma set_select_unread: "row \<in> set (select_unread team agent d) \<longleftrightarrow> row \<in> snd ` set (td_mailbox d) \<and> is_unread team agent row"
  by (auto simp: select_unread_def)

lemma in_map_filter: "m \<in> set (List.map_filter f xs) \<longleftrightarrow> (\<exists>x \<in> set xs. f x = Some m)"
  by (force simp: map_filter_def)

lemma read_outcome:
  "case read_unread w team agent d of
     (Inr ms, d') \<Rightarrow> ms = List.map_filter message_from_row (select_unread team agent d)
        \<and> td_mailbox d' = read_mail (is_unread team agent) (td_mailbox d)
   | (Inl _, d') \<Rightarrow> td_mailbox d' = td_mailbox d"
proof -
  have "read_mail (is_unread team agent) (td_mailbox d) = td_mailbox d" if "select_unread team agent d = []"
    using that set_select_unread [of _ team agent d] by (intro read_mail_none) (force)
  then show ?thesis
    by (auto simp: read_unread_def repo_read_unread_and_mark_def query_def Let_def and_then_def select_unread_def)
qed

lemma unread_after_read:
  assumes "td_mailbox d' = read_mail (is_unread team agent) (td_mailbox d)"
  shows "unread_messages d = mset (List.map_filter message_from_row (select_unread team agent d)) + unread_messages d'"
proof -
  have "filter (\<lambda>row. \<not> mb_read row) (map snd (read_mail (is_unread team agent) xs))
      = filter (\<lambda>row. \<not> mb_read row \<and> \<not> is_unread team agent row) (map snd xs)" for xs
    by (induction xs) (auto simp: read_mail_def is_unread_def split: if_splits)
  moreover have "mset (filter (\<lambda>row. \<not> mb_read row) xs)
      = mset (filter (is_unread team agent) xs) + mset (filter (\<lambda>row. \<not> mb_read row \<and> \<not> is_unread team agent row) xs)" for xs
    by (induction xs) (auto simp: is_unread_def)
  ultimately show ?thesis by (simp add: unread_messages_def mset_map_filter assms select_unread_def del: mset_filter)
qed

lemma delivery_facts:
  assumes "ms = List.map_filter message_from_row (select_unread team agent d)"
  shows "sorted (map mm_created_at ms)" "m \<in> set ms \<Longrightarrow> mm_team_id m = team \<and> mm_to_agent_id m = agent"
proof -
  have "map mm_created_at (List.map_filter message_from_row xs) = map mb_created_at (filter (\<lambda>x. message_from_row x \<noteq> None) xs)" for xs
    by (induction xs) (auto simp: message_from_row_def)
  moreover have "sorted (map mb_created_at (filter (\<lambda>x. message_from_row x \<noteq> None) (select_unread team agent d)))"
    by (simp add: select_unread_def sorted_filter)
  ultimately show "sorted (map mm_created_at ms)" by (simp add: assms)
  show "mm_team_id m = team \<and> mm_to_agent_id m = agent" if "m \<in> set ms"
    using that by (auto simp: assms in_map_filter set_select_unread is_unread_def message_from_row_def)
qed

text \<open>
  C11: Whatever writes and reads of the mailbox follow one another, and whichever statements
  the database refuses, what was unread before and what was written is what was delivered and
  what is unread: no message is lost, changed or delivered twice; a delivery holds messages of
  its team and agent only, in the order of time.
\<close>

theorem every_message_is_delivered_once:
  assumes "mail_run w ops d = (written, delivered, d')"
  shows "unread_messages d + mset written = delivered_messages delivered + unread_messages d'
    \<and> (\<forall>(team, agent, ms) \<in> set delivered. sorted (map mm_created_at ms) \<and> (\<forall>m \<in> set ms. mm_team_id m = team \<and> mm_to_agent_id m = agent))"
  using assms
proof (induction ops arbitrary: d written delivered)
  case Nil
  then show ?case by (auto simp: delivered_messages_def)
next
  case (Cons oper ops)
  show ?case
  proof (cases oper)
    case (MailWrite i now team to_agent from_agent msg_type content summary files)
    obtain r d1 where r: "write_with_files w i now team to_agent from_agent msg_type content summary files d = (r, d1)" by fastforce
    note out = write_outcome [where w = w and i = i and now = now and team = team and to_agent = to_agent and from_agent = from_agent
        and msg_type = msg_type and content = content and summary = summary and files = files and d = d, unfolded r]
    show ?thesis
    proof (cases r)
      case (Inl e)
      then have "unread_messages d1 = unread_messages d" using out by (simp add: unread_messages_def)
      then show ?thesis using Cons.IH [of d1] Cons.prems MailWrite r Inl by simp
    next
      case (Inr m)
      with out have "unread_messages d1 = unread_messages d + {#m#}" by (auto simp: unread_messages_def map_filter_def)
      then show ?thesis using Cons.IH [of d1] Cons.prems MailWrite r Inr by (auto split: prod.splits)
    qed
  next
    case (MailRead team agent)
    obtain r d1 where r: "read_unread w team agent d = (r, d1)" by fastforce
    note out = read_outcome [where w = w and team = team and agent = agent and d = d, unfolded r]
    show ?thesis
    proof (cases r)
      case (Inl e)
      then have "unread_messages d1 = unread_messages d" using out by (simp add: unread_messages_def)
      then show ?thesis using Cons.IH [of d1] Cons.prems MailRead r Inl by simp
    next
      case (Inr ms)
      then have ms: "ms = List.map_filter message_from_row (select_unread team agent d)"
        and "td_mailbox d1 = read_mail (is_unread team agent) (td_mailbox d)" using out by simp_all
      then have "unread_messages d = mset ms + unread_messages d1" by (simp add: unread_after_read)
      then show ?thesis using Cons.IH [of d1] Cons.prems MailRead r Inr delivery_facts [OF ms]
        by (auto simp: delivered_messages_def split: prod.splits)
    qed
  qed
qed

definition demo_mail :: "mail_op list" where
  "demo_mail = [MailWrite ''m1'' 5 ''t1'' ''bob'' ''ann'' Message ''hello'' None (Some []),
     MailWrite ''m1'' 6 ''t1'' ''bob'' ''ann'' Message ''again'' None None,
     MailWrite ''m2'' 3 ''t1'' ''bob'' ''ann'' IdleNotification ''idle'' None None,
     MailRead ''t1'' ''bob'', MailRead ''t1'' ''bob'']"

definition demo_mail_world :: TeamWorld where
  "demo_mail_world = \<lparr>tw_db = (\<lambda>_. True), tw_now = int\<rparr>"

definition no_mail :: "unit TeamDb" where
  "no_mail = \<lparr>td_tasks = [], td_mailbox = [], td_tick = 0\<rparr>"

text \<open>Two messages written, a third refused for its id; one delivery of both, by time, and one of none.\<close>

theorem every_message_is_delivered_once_witness:
  "\<exists>written delivered d'. mail_run demo_mail_world demo_mail no_mail = (written, delivered, d')
    \<and> map mm_id written = [''m1'', ''m2''] \<and> map (\<lambda>(_, _, ms). map mm_id ms) delivered = [[''m2'', ''m1''], []]
    \<and> mset written = delivered_messages delivered + unread_messages d'"
proof -
  obtain written delivered d' where run: "mail_run demo_mail_world demo_mail no_mail = (written, delivered, d')" by (metis prod_cases3)
  have "map mm_id (fst (mail_run demo_mail_world demo_mail no_mail)) = [''m1'', ''m2'']"
    "map (\<lambda>(_, _, ms). map mm_id ms) (fst (snd (mail_run demo_mail_world demo_mail no_mail))) = [[''m2'', ''m1''], []]"
    by code_simp+
  then show ?thesis
    using run every_message_is_delivered_once [OF run] by (auto simp: unread_messages_def no_mail_def)
qed

section \<open>Marking everything as read\<close>

text \<open>The mailbox holds its rows by their ids, and only types of messages that can be read.\<close>

definition mail_ok :: "'j TeamDb \<Rightarrow> bool" where
  "mail_ok d \<longleftrightarrow> distinct (map fst (td_mailbox d))
     \<and> (\<forall>(i, row) \<in> set (td_mailbox d). mb_id row = i \<and> message_from_row row \<noteq> None)"

lemma mail_ok_read_mail: "mail_ok d \<Longrightarrow> td_mailbox d' = read_mail P (td_mailbox d) \<Longrightarrow> mail_ok d'"
  by (auto simp: mail_ok_def read_mail_def comp_def case_prod_beta message_from_row_def)

lemma mail_ok_run: "mail_ok d \<Longrightarrow> mail_ok (snd (snd (mail_run w ops d)))"
proof (induction ops arbitrary: d)
  case (Cons oper ops)
  show ?case
  proof (cases oper)
    case (MailWrite i now team to_agent from_agent msg_type content summary files)
    obtain r d1 where r: "write_with_files w i now team to_agent from_agent msg_type content summary files d = (r, d1)" by fastforce
    note out = write_outcome [where w = w and i = i and now = now and team = team and to_agent = to_agent and from_agent = from_agent
        and msg_type = msg_type and content = content and summary = summary and files = files and d = d, unfolded r]
    have "mail_ok d1" using out Cons.prems by (cases r) (auto simp: mail_ok_def map_of_eq_None_iff)
    from Cons.IH [OF this] show ?thesis using MailWrite r by (cases r) (auto split: prod.splits)
  next
    case (MailRead team agent)
    obtain r d1 where r: "read_unread w team agent d = (r, d1)" by fastforce
    note out = read_outcome [where w = w and team = team and agent = agent and d = d, unfolded r]
    have "mail_ok d1"
    proof (cases r)
      case (Inl e)
      then show ?thesis using out Cons.prems by (simp add: mail_ok_def)
    next
      case (Inr ms)
      then show ?thesis using out Cons.prems mail_ok_read_mail [of d d1] by simp
    qed
    from Cons.IH [OF this] show ?thesis using MailRead r by (cases r) (auto split: prod.splits)
  qed
qed simp

lemma concat_chunks: "0 < n \<Longrightarrow> concat (chunks n xs) = xs"
  by (induction n xs rule: chunks.induct) (subst chunks.simps, auto)

lemma read_mail_twice: "read_mail Q (read_mail P xs) = read_mail (\<lambda>row. P row \<or> Q row) xs"
  if "\<And>row. Q (row\<lparr>mb_read := True\<rparr>) = Q row"
  using that by (auto simp: read_mail_def)

lemma mark_chunks:
  assumes "\<And>t. tw_db w t"
  shows "\<exists>d'. for_each (\<lambda>chunk. query w (\<lambda>_ d. (Inr (), set_read (\<lambda>row. mb_id row \<in> set chunk) d))) cs d = (Inr (), d')
    \<and> td_mailbox d' = read_mail (\<lambda>row. mb_id row \<in> set (concat cs)) (td_mailbox d)"
proof (induction cs arbitrary: d)
  case Nil
  then show ?case by (simp add: read_mail_none)
next
  case (Cons c cs)
  obtain d' where "for_each (\<lambda>chunk. query w (\<lambda>_ d. (Inr (), set_read (\<lambda>row. mb_id row \<in> set chunk) d))) cs
        (set_read (\<lambda>row. mb_id row \<in> set c) (d\<lparr>td_tick := Suc (td_tick d)\<rparr>)) = (Inr (), d')"
      "td_mailbox d' = read_mail (\<lambda>row. mb_id row \<in> set (concat cs)) (read_mail (\<lambda>row. mb_id row \<in> set c) (td_mailbox d))"
    using Cons.IH [of "set_read (\<lambda>row. mb_id row \<in> set c) (d\<lparr>td_tick := Suc (td_tick d)\<rparr>)"] by auto
  then show ?case using assms by (auto simp: query_def [of w _ d] Let_def read_mail_twice)
qed

lemma peek_works:
  assumes "\<And>t. tw_db w t"
  shows "peek_unread w team agent d = (Inr (List.map_filter message_from_row (select_unread team agent d)), d\<lparr>td_tick := Suc (td_tick d)\<rparr>)"
  using assms by (simp add: peek_unread_def repo_peek_unread_def query_def Let_def select_unread_def)

lemma select_unread_tick [simp]: "select_unread team agent (d\<lparr>td_tick := n\<rparr>) = select_unread team agent d"
  by (simp add: select_unread_def)

lemma unread_ids:
  assumes "mail_ok d"
  shows "map mm_id (List.map_filter message_from_row (select_unread team agent d)) = map mb_id (select_unread team agent d)"
proof -
  have "map mm_id (List.map_filter message_from_row rows) = map mb_id rows" if "\<forall>row \<in> set rows. message_from_row row \<noteq> None" for rows
    using that by (induction rows) (auto simp: message_from_row_def)
  moreover have "\<forall>row \<in> set (select_unread team agent d). message_from_row row \<noteq> None"
    using assms unfolding mail_ok_def by (fastforce simp: set_select_unread)
  ultimately show ?thesis by blast
qed

lemma collect_works:
  assumes "\<And>t. tw_db w t" "mail_ok d"
  shows "\<exists>n. collect_unread w team agents d = (Inr (concat (map (\<lambda>a. map mb_id (select_unread team a d)) agents)), d\<lparr>td_tick := n\<rparr>)"
  using assms(2)
proof (induction agents arbitrary: d)
  case Nil
  have "d = d\<lparr>td_tick := td_tick d\<rparr>" by simp
  then show ?case by (metis collect_unread.simps(1) concat.simps(1) list.map(1))
next
  case (Cons a agents)
  have "mail_ok (d\<lparr>td_tick := Suc (td_tick d)\<rparr>)" using Cons.prems by (simp add: mail_ok_def)
  from Cons.IH [OF this] show ?case by (auto simp: peek_works [OF assms(1)] unread_ids [OF Cons.prems])
qed

lemma unread_of_ids:
  assumes "mail_ok d" "(i, row) \<in> set (td_mailbox d)"
  shows "mb_id row \<in> (\<Union>a \<in> set agents. mb_id ` set (select_unread team a d))
    \<longleftrightarrow> mb_team_id row = team \<and> mb_to_agent_id row \<in> set agents \<and> \<not> mb_read row"
proof -
  have "row' = row" if row': "row' \<in> snd ` set (td_mailbox d)" "mb_id row' = mb_id row" for row'
  proof -
    obtain j where j: "(j, row') \<in> set (td_mailbox d)" using row'(1) by force
    have key: "mb_id r = l" if "(l, r) \<in> set (td_mailbox d)" for l r using that assms(1) by (auto simp: mail_ok_def)
    have "j = i" using key [OF j] key [OF assms(2)] row'(2) by simp
    moreover have "distinct (map fst (td_mailbox d))" using assms(1) by (simp add: mail_ok_def)
    ultimately show ?thesis using j assms(2) eq_key_imp_eq_value by fastforce
  qed
  note same = this
  have row: "row \<in> snd ` set (td_mailbox d)" using assms(2) by force
  show ?thesis
  proof
    assume "mb_id row \<in> (\<Union>a \<in> set agents. mb_id ` set (select_unread team a d))"
    then obtain a row' where "a \<in> set agents" "row' \<in> set (select_unread team a d)" "mb_id row' = mb_id row" by auto
    then show "mb_team_id row = team \<and> mb_to_agent_id row \<in> set agents \<and> \<not> mb_read row"
      using same [of row'] unfolding set_select_unread by (simp add: is_unread_def)
  next
    assume "mb_team_id row = team \<and> mb_to_agent_id row \<in> set agents \<and> \<not> mb_read row"
    then have "row \<in> set (select_unread team (mb_to_agent_id row) d)" "mb_to_agent_id row \<in> set agents"
      using row unfolding set_select_unread by (simp_all add: is_unread_def)
    then show "mb_id row \<in> (\<Union>a \<in> set agents. mb_id ` set (select_unread team a d))" by blast
  qed
qed

theorem marking_reads_the_mail_of_the_agents:
  assumes "td_mailbox d0 = []" "d = snd (snd (mail_run w ops d0))" "\<And>t. tw_db w' t"
  shows "\<exists>d'. mark_all_unread_for_agents_read w' team agents d = (Inr (sum_list (map (\<lambda>a. length (select_unread team a d)) agents)), d')
    \<and> td_mailbox d' = map (\<lambda>(i, row).
        (i, if mb_team_id row = team \<and> mb_to_agent_id row \<in> set agents then row\<lparr>mb_read := True\<rparr> else row)) (td_mailbox d)"
proof -
  have ok: "mail_ok d" unfolding assms(2) by (rule mail_ok_run) (simp add: mail_ok_def assms(1))
  define ids where "ids = concat (map (\<lambda>a. map mb_id (select_unread team a d)) agents)"
  obtain n where n: "collect_unread w' team agents d = (Inr ids, d\<lparr>td_tick := n\<rparr>)"
    using collect_works [OF assms(3) ok] unfolding ids_def by blast
  obtain d' where d': "(if ids = [] then (Inr (), d\<lparr>td_tick := n\<rparr>) else mark_read_batch w' ids (d\<lparr>td_tick := n\<rparr>)) = (Inr (), d')"
      "td_mailbox d' = read_mail (\<lambda>row. mb_id row \<in> set ids) (td_mailbox d)"
  proof (cases "ids = []")
    case True
    then show thesis using that [of "d\<lparr>td_tick := n\<rparr>"] by (simp add: read_mail_none)
  next
    case False
    then show thesis using mark_chunks [OF assms(3), of "chunks 500 ids" "d\<lparr>td_tick := n\<rparr>"] that
      by (auto simp: mark_read_batch_def repo_mark_read_batch_def concat_chunks)
  qed
  have "set ids = (\<Union>a \<in> set agents. mb_id ` set (select_unread team a d))" by (simp add: ids_def)
  then have "(if mb_id row \<in> set ids then row\<lparr>mb_read := True\<rparr> else row)
      = (if mb_team_id row = team \<and> mb_to_agent_id row \<in> set agents then row\<lparr>mb_read := True\<rparr> else row)"
    if "(i, row) \<in> set (td_mailbox d)" for i row
    using unread_of_ids [OF ok that, where agents = agents and team = team] by auto
  then have "td_mailbox d' = map (\<lambda>(i, row).
        (i, if mb_team_id row = team \<and> mb_to_agent_id row \<in> set agents then row\<lparr>mb_read := True\<rparr> else row)) (td_mailbox d)"
    unfolding d'(2) read_mail_def by auto
  moreover have "length ids = sum_list (map (\<lambda>a. length (select_unread team a d)) agents)"
    by (simp add: ids_def length_concat comp_def)
  ultimately show ?thesis using n d'(1) by (simp add: mark_all_unread_for_agents_read_def)
qed

text \<open>The two messages of the demonstration, before they are delivered.\<close>

theorem marking_reads_the_mail_of_the_agents_witness:
  "\<exists>d'. mark_all_unread_for_agents_read demo_mail_world ''t1'' [''ann'', ''bob''] (snd (snd (mail_run demo_mail_world (take 3 demo_mail) no_mail)))
      = (Inr 2, d') \<and> map (\<lambda>(i, row). (i, mb_read row)) (td_mailbox d') = [(''m1'', True), (''m2'', True)]"
proof -
  let ?d = "snd (snd (mail_run demo_mail_world (take 3 demo_mail) no_mail))"
  have "sum_list (map (\<lambda>a. length (select_unread ''t1'' a ?d)) [''ann'', ''bob'']) = 2"
    "map (\<lambda>(i, row). (i, mb_read (if mb_team_id row = ''t1'' \<and> mb_to_agent_id row \<in> set [''ann'', ''bob''] then row\<lparr>mb_read := True\<rparr> else row)))
      (td_mailbox ?d) = [(''m1'', True), (''m2'', True)]" by code_simp+
  then show ?thesis
    using marking_reads_the_mail_of_the_agents [of no_mail ?d demo_mail_world "take 3 demo_mail" demo_mail_world "''t1''" "[''ann'', ''bob'']"]
    by (auto simp: no_mail_def demo_mail_world_def comp_def case_prod_beta)
qed

end
