(* ===== verification/Team_Member_Runtime.thy ===== *)
theory Team_Member_Runtime
  imports Core_Prelude
begin

text \<open>
  The registry of the runtimes of the members of a team (\<open>crates/tjuaeui-team/src/member_runtime.rs\<close>): which
  member is being attached, is ready, has failed or is being removed, under the lock of the entries.

  A watch channel is a cell with its current signal; a sender is the number of its cell, held by the entries. A
  waiter reads its cell, and is answered that the session stopped when the cell is pending and no entry
  holds its sender any more. Operation ids are \<open>u64\<close> and wrap around. A poisoned lock is taken over, so
  every operation goes through. \<open>owns_attach\<close> reads the stop flag before it takes the lock; as \<open>stop\<close> empties the
  entries under the lock, this is the same as reading both at once.
\<close>

record MemberRuntimeFailure =
  mf_classification :: string
  mf_public_reason :: string

datatype AttachOutcome = Ready | Failed MemberRuntimeFailure | Removed | SessionStopped

datatype AttachSignal = Pending | Terminal AttachOutcome

record AttachWaiter =
  aw_operation_id :: u64
  aw_channel :: nat

record AttachLease =
  al_session_generation :: string
  al_agent_id :: string
  al_waiter :: AttachWaiter

record RemoveLease =
  rl_session_generation :: string
  rl_agent_id :: string
  rl_operation_id :: u64

datatype ReserveAttach =
    StartAttach AttachLease
  | JoinAttach AttachWaiter
  | AlreadyReady
  | ReserveRemoving AttachWaiter
  | ReserveStopped

datatype BeginRemove =
    StartRemove RemoveLease
  | JoinRemove AttachWaiter
  | RemoveAbsent
  | RemoveStopped

datatype MemberRuntimeSnapshot =
    SnapAbsent
  | SnapAttaching u64
  | SnapReady
  | SnapFailed u64 MemberRuntimeFailure
  | SnapRemoving u64
  | SnapStopped

datatype MemberRuntimeEntry =
    EntryAttaching u64 nat
  | EntryReady
  | EntryFailed u64 MemberRuntimeFailure nat
  | EntryRemoving u64 nat

record MemberRuntimeRegistry =
  mr_session_generation :: string
  mr_next_operation_id :: u64
  mr_entries :: "(string \<times> MemberRuntimeEntry) list"
  mr_stopped :: bool
  mr_channels :: "nat \<Rightarrow> AttachSignal"
  mr_next_channel :: nat

definition new_registry :: "string \<Rightarrow> MemberRuntimeRegistry" where
  "new_registry generation = \<lparr>mr_session_generation = generation, mr_next_operation_id = 1, mr_entries = [],
     mr_stopped = False, mr_channels = (\<lambda>_. Pending), mr_next_channel = 0\<rparr>"

section \<open>Waiting\<close>

fun entry_sender :: "MemberRuntimeEntry \<Rightarrow> nat option" where
  "entry_sender (EntryAttaching _ ch) = Some ch"
| "entry_sender EntryReady = None"
| "entry_sender (EntryFailed _ _ ch) = Some ch"
| "entry_sender (EntryRemoving _ ch) = Some ch"

definition has_sender :: "MemberRuntimeRegistry \<Rightarrow> nat \<Rightarrow> bool" where
  "has_sender r ch \<longleftrightarrow> list_ex (\<lambda>(_, e). entry_sender e = Some ch) (mr_entries r)"

text \<open>What \<open>AttachWaiter::wait\<close> returns when it looks at the registry's channels now; it waits on at \<open>None\<close>.\<close>

definition wait_outcome :: "MemberRuntimeRegistry \<Rightarrow> AttachWaiter \<Rightarrow> AttachOutcome option" where
  "wait_outcome r w =
     (case mr_channels r (aw_channel w) of
        Terminal outcome \<Rightarrow> Some outcome
      | Pending \<Rightarrow> if has_sender r (aw_channel w) then None else Some SessionStopped)"

section \<open>Operations\<close>

definition next_operation_id :: "MemberRuntimeRegistry \<Rightarrow> u64 \<times> MemberRuntimeRegistry" where
  "next_operation_id r = (mr_next_operation_id r, r\<lparr>mr_next_operation_id := mr_next_operation_id r + 1\<rparr>)"

definition watch_channel :: "MemberRuntimeRegistry \<Rightarrow> nat \<times> MemberRuntimeRegistry" where
  "watch_channel r = (mr_next_channel r, r\<lparr>mr_channels := (mr_channels r)(mr_next_channel r := Pending),
     mr_next_channel := Suc (mr_next_channel r)\<rparr>)"

definition send_replace :: "nat \<Rightarrow> AttachSignal \<Rightarrow> MemberRuntimeRegistry \<Rightarrow> MemberRuntimeRegistry" where
  "send_replace ch sig r = r\<lparr>mr_channels := (mr_channels r)(ch := sig)\<rparr>"

definition insert_entry :: "string \<Rightarrow> MemberRuntimeEntry \<Rightarrow> MemberRuntimeRegistry \<Rightarrow> MemberRuntimeRegistry" where
  "insert_entry agent e r = r\<lparr>mr_entries := AList.update agent e (mr_entries r)\<rparr>"

definition start_attach :: "string \<Rightarrow> MemberRuntimeRegistry \<Rightarrow> ReserveAttach \<times> MemberRuntimeRegistry" where
  "start_attach agent r =
     (let (operation_id, r) = next_operation_id r; (ch, r) = watch_channel r
      in (StartAttach \<lparr>al_session_generation = mr_session_generation r, al_agent_id = agent,
            al_waiter = \<lparr>aw_operation_id = operation_id, aw_channel = ch\<rparr>\<rparr>,
          insert_entry agent (EntryAttaching operation_id ch) r))"

definition reserve_attach :: "string \<Rightarrow> bool \<Rightarrow> MemberRuntimeRegistry \<Rightarrow> ReserveAttach \<times> MemberRuntimeRegistry" where
  "reserve_attach agent retry_failed r =
     (if mr_stopped r then (ReserveStopped, r)
      else case map_of (mr_entries r) agent of
          Some (EntryAttaching op ch) \<Rightarrow> (JoinAttach \<lparr>aw_operation_id = op, aw_channel = ch\<rparr>, r)
        | Some EntryReady \<Rightarrow> (AlreadyReady, r)
        | Some (EntryFailed op failure ch) \<Rightarrow>
            if \<not> retry_failed then (JoinAttach \<lparr>aw_operation_id = op, aw_channel = ch\<rparr>, r) else start_attach agent r
        | Some (EntryRemoving op ch) \<Rightarrow> (ReserveRemoving \<lparr>aw_operation_id = op, aw_channel = ch\<rparr>, r)
        | None \<Rightarrow> start_attach agent r)"

definition reserve_repair :: "string \<Rightarrow> MemberRuntimeRegistry \<Rightarrow> ReserveAttach \<times> MemberRuntimeRegistry" where
  "reserve_repair agent r =
     (if mr_stopped r then (ReserveStopped, r)
      else case map_of (mr_entries r) agent of
          Some (EntryAttaching op ch) \<Rightarrow> (JoinAttach \<lparr>aw_operation_id = op, aw_channel = ch\<rparr>, r)
        | Some EntryReady \<Rightarrow> start_attach agent r
        | Some (EntryFailed op failure ch) \<Rightarrow> (JoinAttach \<lparr>aw_operation_id = op, aw_channel = ch\<rparr>, r)
        | Some (EntryRemoving op ch) \<Rightarrow> (ReserveRemoving \<lparr>aw_operation_id = op, aw_channel = ch\<rparr>, r)
        | None \<Rightarrow> start_attach agent r)"

definition owns_attach :: "MemberRuntimeRegistry \<Rightarrow> AttachLease \<Rightarrow> bool" where
  "owns_attach r l \<longleftrightarrow> al_session_generation l = mr_session_generation r \<and> \<not> mr_stopped r \<and>
     (case map_of (mr_entries r) (al_agent_id l) of
        Some (EntryAttaching op ch) \<Rightarrow> op = aw_operation_id (al_waiter l)
      | _ \<Rightarrow> False)"

definition commit_ready :: "AttachLease \<Rightarrow> MemberRuntimeRegistry \<Rightarrow> bool \<times> MemberRuntimeRegistry" where
  "commit_ready l r =
     (if al_session_generation l \<noteq> mr_session_generation r then (False, r)
      else if mr_stopped r then (False, r)
      else case map_of (mr_entries r) (al_agent_id l) of
          Some (EntryAttaching op ch) \<Rightarrow>
            if op \<noteq> aw_operation_id (al_waiter l) then (False, r)
            else (True, send_replace ch (Terminal Ready) (insert_entry (al_agent_id l) EntryReady r))
        | _ \<Rightarrow> (False, r))"

definition commit_failed :: "AttachLease \<Rightarrow> MemberRuntimeFailure \<Rightarrow> MemberRuntimeRegistry \<Rightarrow> bool \<times> MemberRuntimeRegistry" where
  "commit_failed l failure r =
     (if al_session_generation l \<noteq> mr_session_generation r then (False, r)
      else if mr_stopped r then (False, r)
      else case map_of (mr_entries r) (al_agent_id l) of
          Some (EntryAttaching op ch) \<Rightarrow>
            if op \<noteq> aw_operation_id (al_waiter l) then (False, r)
            else (True, send_replace ch (Terminal (Failed failure))
              (insert_entry (al_agent_id l) (EntryFailed (aw_operation_id (al_waiter l)) failure ch) r))
        | _ \<Rightarrow> (False, r))"

definition begin_remove :: "string \<Rightarrow> MemberRuntimeRegistry \<Rightarrow> BeginRemove \<times> MemberRuntimeRegistry" where
  "begin_remove agent r =
     (if mr_stopped r then (RemoveStopped, r)
      else case map_of (mr_entries r) agent of
          Some (EntryRemoving op ch) \<Rightarrow> (JoinRemove \<lparr>aw_operation_id = op, aw_channel = ch\<rparr>, r)
        | None \<Rightarrow> (RemoveAbsent, r)
        | Some previous \<Rightarrow>
            let cancelled = (case previous of EntryAttaching _ ch \<Rightarrow> Some ch | _ \<Rightarrow> None);
                (operation_id, r) = next_operation_id r;
                (ch, r) = watch_channel r;
                r = insert_entry agent (EntryRemoving operation_id ch) r;
                r = (case cancelled of Some tx \<Rightarrow> send_replace tx (Terminal Removed) r | None \<Rightarrow> r)
            in (StartRemove \<lparr>rl_session_generation = mr_session_generation r, rl_agent_id = agent,
                  rl_operation_id = operation_id\<rparr>, r))"

definition finish_remove :: "RemoveLease \<Rightarrow> MemberRuntimeRegistry \<Rightarrow> bool \<times> MemberRuntimeRegistry" where
  "finish_remove l r =
     (if rl_session_generation l \<noteq> mr_session_generation r then (False, r)
      else if mr_stopped r then (False, r)
      else case map_of (mr_entries r) (rl_agent_id l) of
          Some (EntryRemoving op ch) \<Rightarrow>
            if op \<noteq> rl_operation_id l then (False, r)
            else (True, send_replace ch (Terminal Removed) (r\<lparr>mr_entries := AList.delete (rl_agent_id l) (mr_entries r)\<rparr>))
        | _ \<Rightarrow> (False, r))"

definition restore_attach_required_after_remove_persist_error ::
  "RemoveLease \<Rightarrow> MemberRuntimeFailure \<Rightarrow> MemberRuntimeRegistry \<Rightarrow> bool \<times> MemberRuntimeRegistry" where
  "restore_attach_required_after_remove_persist_error l failure r =
     (if rl_session_generation l \<noteq> mr_session_generation r then (False, r)
      else if mr_stopped r then (False, r)
      else case map_of (mr_entries r) (rl_agent_id l) of
          Some (EntryRemoving op ch) \<Rightarrow>
            if op \<noteq> rl_operation_id l then (False, r)
            else (True, send_replace ch (Terminal (Failed failure))
              (insert_entry (rl_agent_id l) (EntryFailed (rl_operation_id l) failure ch) r))
        | _ \<Rightarrow> (False, r))"

definition member_snapshot :: "MemberRuntimeRegistry \<Rightarrow> string \<Rightarrow> MemberRuntimeSnapshot" where
  "member_snapshot r agent =
     (if mr_stopped r then SnapStopped
      else case map_of (mr_entries r) agent of
          None \<Rightarrow> SnapAbsent
        | Some (EntryAttaching op ch) \<Rightarrow> SnapAttaching op
        | Some EntryReady \<Rightarrow> SnapReady
        | Some (EntryFailed op failure ch) \<Rightarrow> SnapFailed op failure
        | Some (EntryRemoving op ch) \<Rightarrow> SnapRemoving op)"

fun stop_entry :: "MemberRuntimeEntry \<Rightarrow> MemberRuntimeRegistry \<Rightarrow> MemberRuntimeRegistry" where
  "stop_entry (EntryAttaching _ ch) r = send_replace ch (Terminal SessionStopped) r"
| "stop_entry (EntryRemoving _ ch) r = send_replace ch (Terminal SessionStopped) r"
| "stop_entry EntryReady r = r"
| "stop_entry (EntryFailed _ _ ch) r = r"

definition registry_stop :: "MemberRuntimeRegistry \<Rightarrow> bool \<times> MemberRuntimeRegistry" where
  "registry_stop r =
     (if mr_stopped r then (False, r)
      else (True, fold stop_entry (map snd (mr_entries r)) (r\<lparr>mr_stopped := True, mr_entries := []\<rparr>)))"

section \<open>Members of a running session\<close>

text \<open>
  The registry with the leases it has handed out, and the operations on it: with leases that were handed out, or
  that a registry of another generation did. A lease can be used any number of times.
\<close>

record MemberSystem =
  ms_registry :: MemberRuntimeRegistry
  ms_attach_leases :: "AttachLease list"
  ms_remove_leases :: "RemoveLease list"

datatype MemberOp =
    OpReserve string bool
  | OpRepair string
  | OpCommitReady AttachLease
  | OpCommitFailed AttachLease MemberRuntimeFailure
  | OpBeginRemove string
  | OpFinishRemove RemoveLease
  | OpRestore RemoveLease MemberRuntimeFailure
  | OpStop

definition attach_usable :: "MemberSystem \<Rightarrow> AttachLease \<Rightarrow> bool" where
  "attach_usable s l \<longleftrightarrow> l \<in> set (ms_attach_leases s) \<or> al_session_generation l \<noteq> mr_session_generation (ms_registry s)"

definition remove_usable :: "MemberSystem \<Rightarrow> RemoveLease \<Rightarrow> bool" where
  "remove_usable s l \<longleftrightarrow> l \<in> set (ms_remove_leases s) \<or> rl_session_generation l \<noteq> mr_session_generation (ms_registry s)"

definition reserved :: "MemberSystem \<Rightarrow> ReserveAttach \<times> MemberRuntimeRegistry \<Rightarrow> MemberSystem" where
  "reserved s out = (case out of (a, r) \<Rightarrow> s\<lparr>ms_registry := r,
     ms_attach_leases := (case a of StartAttach l \<Rightarrow> l # ms_attach_leases s | _ \<Rightarrow> ms_attach_leases s)\<rparr>)"

fun member_op :: "MemberOp \<Rightarrow> MemberSystem \<Rightarrow> MemberSystem option" where
  "member_op (OpReserve agent retry) s = Some (reserved s (reserve_attach agent retry (ms_registry s)))"
| "member_op (OpRepair agent) s = Some (reserved s (reserve_repair agent (ms_registry s)))"
| "member_op (OpCommitReady l) s =
     (if attach_usable s l then Some (s\<lparr>ms_registry := snd (commit_ready l (ms_registry s))\<rparr>) else None)"
| "member_op (OpCommitFailed l failure) s =
     (if attach_usable s l then Some (s\<lparr>ms_registry := snd (commit_failed l failure (ms_registry s))\<rparr>) else None)"
| "member_op (OpBeginRemove agent) s =
     (case begin_remove agent (ms_registry s) of (b, r) \<Rightarrow> Some (s\<lparr>ms_registry := r,
        ms_remove_leases := (case b of StartRemove l \<Rightarrow> l # ms_remove_leases s | _ \<Rightarrow> ms_remove_leases s)\<rparr>))"
| "member_op (OpFinishRemove l) s =
     (if remove_usable s l then Some (s\<lparr>ms_registry := snd (finish_remove l (ms_registry s))\<rparr>) else None)"
| "member_op (OpRestore l failure) s =
     (if remove_usable s l then Some (s\<lparr>ms_registry :=
        snd (restore_attach_required_after_remove_persist_error l failure (ms_registry s))\<rparr>) else None)"
| "member_op OpStop s = Some (s\<lparr>ms_registry := snd (registry_stop (ms_registry s))\<rparr>)"

definition new_members :: "MemberSystem \<Rightarrow> bool" where
  "new_members s \<longleftrightarrow> (\<exists>generation. s = \<lparr>ms_registry = new_registry generation, ms_attach_leases = [], ms_remove_leases = []\<rparr>)"

definition member_step :: "MemberSystem \<Rightarrow> MemberSystem \<Rightarrow> bool" where
  "member_step s s' \<longleftrightarrow> (\<exists>op. member_op op s = Some s')"

end
