(* ===== verification/Team_Member_Props.thy ===== *)
theory Team_Member_Props
  imports Team_Member_Runtime
begin

text \<open>
  The properties of the registry of member runtimes: a lease can be committed exactly while its waiters
  wait, at most one for each member; every waiter gets one outcome, which lasts; and the
  members go through the states of their lifecycle.
\<close>

section \<open>Moves\<close>

text \<open>The changes the operations make, each with the condition under which it is made.\<close>

definition alloc :: "MemberRuntimeRegistry \<Rightarrow> MemberRuntimeRegistry" where
  "alloc r = r\<lparr>mr_next_operation_id := mr_next_operation_id r + 1,
     mr_channels := (mr_channels r)(mr_next_channel r := Pending), mr_next_channel := Suc (mr_next_channel r)\<rparr>"

definition lease_for :: "MemberRuntimeRegistry \<Rightarrow> string \<Rightarrow> AttachLease" where
  "lease_for r agent = \<lparr>al_session_generation = mr_session_generation r, al_agent_id = agent,
     al_waiter = \<lparr>aw_operation_id = mr_next_operation_id r, aw_channel = mr_next_channel r\<rparr>\<rparr>"

fun settled :: "MemberRuntimeEntry option \<Rightarrow> bool" where
  "settled (Some EntryReady) = True"
| "settled (Some (EntryFailed _ _ _)) = True"
| "settled _ = False"

definition attachable :: "MemberRuntimeEntry option \<Rightarrow> bool" where
  "attachable e \<longleftrightarrow> e = None \<or> settled e"

inductive registry_move :: "AttachLease list \<Rightarrow> MemberRuntimeRegistry \<Rightarrow> AttachLease list \<Rightarrow> MemberRuntimeRegistry \<Rightarrow> bool" where
  Stay: "registry_move ls r ls r"
| Attach: "\<not> mr_stopped r \<Longrightarrow> attachable (map_of (mr_entries r) agent) \<Longrightarrow>
    registry_move ls r (lease_for r agent # ls)
      (insert_entry agent (EntryAttaching (mr_next_operation_id r) (mr_next_channel r)) (alloc r))"
| Resolve: "\<not> mr_stopped r \<Longrightarrow> map_of (mr_entries r) agent = Some (EntryAttaching op ch) \<Longrightarrow>
    out = Ready \<and> e = EntryReady \<or> (\<exists>f. out = Failed f \<and> e = EntryFailed op f ch) \<Longrightarrow>
    registry_move ls r ls (send_replace ch (Terminal out) (insert_entry agent e r))"
| Cancel: "\<not> mr_stopped r \<Longrightarrow> map_of (mr_entries r) agent = Some (EntryAttaching op ch) \<Longrightarrow>
    registry_move ls r ls (send_replace ch (Terminal Removed)
      (insert_entry agent (EntryRemoving (mr_next_operation_id r) (mr_next_channel r)) (alloc r)))"
| Remove: "\<not> mr_stopped r \<Longrightarrow> settled (map_of (mr_entries r) agent) \<Longrightarrow>
    registry_move ls r ls (insert_entry agent (EntryRemoving (mr_next_operation_id r) (mr_next_channel r)) (alloc r))"
| Finish: "\<not> mr_stopped r \<Longrightarrow> map_of (mr_entries r) agent = Some (EntryRemoving op ch) \<Longrightarrow>
    registry_move ls r ls (send_replace ch (Terminal Removed) (r\<lparr>mr_entries := AList.delete agent (mr_entries r)\<rparr>))"
| Restore: "\<not> mr_stopped r \<Longrightarrow> map_of (mr_entries r) agent = Some (EntryRemoving op ch) \<Longrightarrow>
    registry_move ls r ls (send_replace ch (Terminal (Failed f)) (insert_entry agent (EntryFailed op f ch) r))"
| Stop: "\<not> mr_stopped r \<Longrightarrow>
    registry_move ls r ls (fold stop_entry (map snd (mr_entries r)) (r\<lparr>mr_stopped := True, mr_entries := []\<rparr>))"

lemma start_attach_eq:
  "start_attach agent r = (StartAttach (lease_for r agent),
     insert_entry agent (EntryAttaching (mr_next_operation_id r) (mr_next_channel r)) (alloc r))"
  by (simp add: start_attach_def next_operation_id_def watch_channel_def alloc_def lease_for_def Let_def)

lemma reserve_cases:
  assumes "out = reserve_attach agent retry r \<or> out = reserve_repair agent r"
  shows "(\<not> mr_stopped r \<and> out = start_attach agent r
      \<and> attachable (map_of (mr_entries r) agent))
    \<or> snd out = r \<and> (\<forall>l. fst out \<noteq> StartAttach l)"
proof (cases "mr_stopped r")
  case True
  then show ?thesis using assms by (auto simp: reserve_attach_def reserve_repair_def)
next
  case False
  then show ?thesis
    using assms by (cases "map_of (mr_entries r) agent" rule: settled.cases; cases retry)
      (auto simp: reserve_attach_def reserve_repair_def attachable_def)
qed

lemma reserved_move:
  assumes "out = reserve_attach agent retry (ms_registry s) \<or> out = reserve_repair agent (ms_registry s)" "s' = reserved s out"
  shows "registry_move (ms_attach_leases s) (ms_registry s) (ms_attach_leases s') (ms_registry s')"
  using reserve_cases [OF assms(1)]
proof (elim disjE conjE)
  assume "\<not> mr_stopped (ms_registry s)" "out = start_attach agent (ms_registry s)"
    "attachable (map_of (mr_entries (ms_registry s)) agent)"
  then show ?thesis using Attach [of "ms_registry s" agent] by (simp add: assms(2) reserved_def start_attach_eq)
next
  assume "snd out = ms_registry s" "\<forall>l. fst out \<noteq> StartAttach l"
  then have "ms_registry s' = ms_registry s" "ms_attach_leases s' = ms_attach_leases s"
    by (auto simp: assms(2) reserved_def split: prod.splits ReserveAttach.splits)
  then show ?thesis by (simp add: Stay)
qed

lemma step_move:
  assumes "member_step s s'"
  shows "registry_move (ms_attach_leases s) (ms_registry s) (ms_attach_leases s') (ms_registry s')"
proof -
  let ?r = "ms_registry s"
  obtain op where op: "member_op op s = Some s'" using assms by (auto simp: member_step_def)
  have stay: ?thesis if "ms_attach_leases s' = ms_attach_leases s" "ms_registry s' = ?r" unfolding that by (rule Stay)
  show ?thesis
  proof (cases op)
    case (OpReserve agent retry)
    then show ?thesis using op reserved_move [OF disjI1 [OF refl]] by auto
  next
    case (OpRepair agent)
    then show ?thesis using op reserved_move [OF disjI2 [OF refl]] by auto
  next
    case (OpCommitReady l)
    then show ?thesis using op stay Resolve [of ?r "al_agent_id l" _ _ Ready EntryReady]
      by (auto simp: commit_ready_def split: if_splits option.splits MemberRuntimeEntry.splits)
  next
    case (OpCommitFailed l f)
    then show ?thesis using op stay Resolve [of ?r "al_agent_id l" _ _ "Failed f"]
      by (auto simp: commit_failed_def split: if_splits option.splits MemberRuntimeEntry.splits)
  next
    case (OpBeginRemove agent)
    then show ?thesis using op stay Cancel [of ?r agent] Remove [of ?r agent]
      by (auto simp: begin_remove_def Let_def next_operation_id_def watch_channel_def alloc_def [symmetric]
          split: if_splits option.splits MemberRuntimeEntry.splits)
  next
    case (OpFinishRemove l)
    then show ?thesis using op stay Finish [of ?r "rl_agent_id l"]
      by (auto simp: finish_remove_def split: if_splits option.splits MemberRuntimeEntry.splits)
  next
    case (OpRestore l f)
    then show ?thesis using op stay Restore [of ?r "rl_agent_id l"]
      by (auto simp: restore_attach_required_after_remove_persist_error_def split: if_splits option.splits MemberRuntimeEntry.splits)
  next
    case OpStop
    then show ?thesis using op stay Stop [of ?r] by (auto simp: registry_stop_def split: if_splits)
  qed
qed

section \<open>The invariant\<close>

text \<open>
  The operation of every entry has the id and the channel of the same allocation; an operation that runs has a
  pending channel, a failed one the failure; no two members share a channel, and a pending channel
  belongs to an operation that runs.
\<close>

definition entry_ok :: "MemberRuntimeRegistry \<Rightarrow> MemberRuntimeEntry \<Rightarrow> bool" where
  "entry_ok r e \<longleftrightarrow>
     (case e of
        EntryAttaching op ch \<Rightarrow> op = of_nat (Suc ch) \<and> ch < mr_next_channel r \<and> mr_channels r ch = Pending
      | EntryReady \<Rightarrow> True
      | EntryFailed op f ch \<Rightarrow> op = of_nat (Suc ch) \<and> ch < mr_next_channel r \<and> mr_channels r ch = Terminal (Failed f)
      | EntryRemoving op ch \<Rightarrow> op = of_nat (Suc ch) \<and> ch < mr_next_channel r \<and> mr_channels r ch = Pending)"

definition entries_ok :: "MemberRuntimeRegistry \<Rightarrow> bool" where
  "entries_ok r \<longleftrightarrow> (\<forall>a e. map_of (mr_entries r) a = Some e \<longrightarrow> entry_ok r e)"

definition channels_ok :: "MemberRuntimeRegistry \<Rightarrow> bool" where
  "channels_ok r \<longleftrightarrow>
     (\<forall>a b e e' ch. map_of (mr_entries r) a = Some e \<and> map_of (mr_entries r) b = Some e'
        \<and> entry_sender e = Some ch \<and> entry_sender e' = Some ch \<longrightarrow> a = b)
     \<and> (\<forall>ch < mr_next_channel r. mr_channels r ch = Pending \<longrightarrow>
          (\<exists>a e. map_of (mr_entries r) a = Some e \<and> entry_sender e = Some ch))"

definition lease_ok :: "MemberRuntimeRegistry \<Rightarrow> AttachLease \<Rightarrow> bool" where
  "lease_ok r l \<longleftrightarrow> al_session_generation l = mr_session_generation r
     \<and> aw_operation_id (al_waiter l) = of_nat (Suc (aw_channel (al_waiter l)))
     \<and> aw_channel (al_waiter l) < mr_next_channel r
     \<and> (\<forall>a e. map_of (mr_entries r) a = Some e \<and> entry_sender e = Some (aw_channel (al_waiter l)) \<longrightarrow>
          a = al_agent_id l \<and> (\<forall>op ch. e \<noteq> EntryRemoving op ch))"

definition leases_ok :: "AttachLease list \<Rightarrow> MemberRuntimeRegistry \<Rightarrow> bool" where
  "leases_ok ls r \<longleftrightarrow> distinct (map (\<lambda>l. aw_channel (al_waiter l)) ls) \<and> (\<forall>l \<in> set ls. lease_ok r l)"

definition registry_inv :: "AttachLease list \<Rightarrow> MemberRuntimeRegistry \<Rightarrow> bool" where
  "registry_inv ls r \<longleftrightarrow> keyed (mr_entries r) \<and> mr_next_operation_id r = of_nat (Suc (mr_next_channel r))
     \<and> (mr_stopped r \<longrightarrow> mr_entries r = []) \<and> entries_ok r \<and> channels_ok r \<and> leases_ok ls r"

lemmas registry_simps = insert_entry_def send_replace_def alloc_def lease_for_def alist_simps

text \<open>What stopping leaves: the pending channels of the entries answered, all else as it was.\<close>

lemma stop_entries:
  "fold stop_entry es r = r\<lparr>mr_channels := (\<lambda>ch.
     if \<exists>op. EntryAttaching op ch \<in> set es \<or> EntryRemoving op ch \<in> set es then Terminal SessionStopped else mr_channels r ch)\<rparr>"
proof (induction es arbitrary: r)
  case (Cons e es)
  show ?case by (cases e) (auto simp: Cons.IH send_replace_def fun_eq_iff)
qed simp

lemma sender_below:
  assumes "entries_ok r" "map_of (mr_entries r) a = Some e" "entry_sender e = Some ch" shows "ch < mr_next_channel r"
  using assms by (cases e) (force simp: entries_ok_def entry_ok_def)+

lemma pending_entry:
  assumes "registry_inv ls r" "ch < mr_next_channel r" "mr_channels r ch = Pending"
  shows "\<exists>a op. map_of (mr_entries r) a \<in> {Some (EntryAttaching op ch), Some (EntryRemoving op ch)}"
proof -
  obtain a e where e: "map_of (mr_entries r) a = Some e" "entry_sender e = Some ch"
    using assms unfolding registry_inv_def channels_ok_def by blast
  moreover have "entry_ok r e" using assms(1) e(1) by (auto simp: registry_inv_def entries_ok_def)
  ultimately show ?thesis using assms(3) by (cases e) (auto simp: entry_ok_def)
qed

text \<open>A move that gives a member an entry without touching the channels of the others.\<close>

lemma entries_ok_insert:
  assumes "entries_ok r" "entry_ok r' e" "mr_next_channel r \<le> mr_next_channel r'" "mr_entries r' = AList.update a e (mr_entries r)"
    and "\<And>b e ch. b \<noteq> a \<Longrightarrow> map_of (mr_entries r) b = Some e \<Longrightarrow> entry_sender e = Some ch \<Longrightarrow> mr_channels r' ch = mr_channels r ch"
  shows "entries_ok r'"
  unfolding entries_ok_def
proof (intro allI impI)
  fix b e' assume b: "map_of (mr_entries r') b = Some e'"
  show "entry_ok r' e'"
  proof (cases "b = a")
    case True
    then show ?thesis using b assms(2,4) by (simp add: update_conv')
  next
    case False
    then have old: "map_of (mr_entries r) b = Some e'" using b assms(4) by (simp add: update_conv')
    then have "entry_ok r e'" using assms(1) by (simp add: entries_ok_def)
    then show ?thesis using assms(3) assms(5) [OF False old] by (cases e') (auto simp: entry_ok_def)
  qed
qed

lemma inv_update:
  assumes inv: "registry_inv ls r" "\<not> mr_stopped r"
    and r': "mr_entries r' = AList.update a e (mr_entries r)" "mr_next_operation_id r' = of_nat (Suc (mr_next_channel r'))"
      "mr_next_channel r \<le> mr_next_channel r'" "\<not> mr_stopped r'" "mr_session_generation r' = mr_session_generation r"
    and e: "entry_ok r' e"
    and sender: "\<And>ch. entry_sender e = Some ch \<Longrightarrow> mr_next_channel r \<le> ch
        \<or> (\<exists>e0. map_of (mr_entries r) a = Some e0 \<and> entry_sender e0 = Some ch) \<and> (\<forall>op c. e \<noteq> EntryRemoving op c)"
    and others: "\<And>ch. ch < mr_next_channel r \<Longrightarrow> mr_channels r' ch \<noteq> mr_channels r ch \<Longrightarrow>
        \<exists>e0. map_of (mr_entries r) a = Some e0 \<and> entry_sender e0 = Some ch"
    and pending: "\<And>ch. ch < mr_next_channel r' \<Longrightarrow> mr_channels r' ch = Pending \<Longrightarrow> entry_sender e \<noteq> Some ch \<Longrightarrow>
        ch < mr_next_channel r \<and> mr_channels r ch = Pending \<and> (\<forall>e0. map_of (mr_entries r) a = Some e0 \<longrightarrow> entry_sender e0 \<noteq> Some ch)"
  shows "registry_inv ls r'"
proof -
  have ok: "keyed (mr_entries r)" "entries_ok r" "channels_ok r" "leases_ok ls r" using inv(1) by (auto simp: registry_inv_def)
  have look: "map_of (mr_entries r') b = (if b = a then Some e else map_of (mr_entries r) b)" for b
    by (simp add: r'(1) update_conv')
  have uniq: "b = c" if "map_of (mr_entries r) b = Some x" "map_of (mr_entries r) c = Some y"
      "entry_sender x = Some ch" "entry_sender y = Some ch" for b c x y ch
    using ok(3) that unfolding channels_ok_def by blast
  have new: "entry_sender e \<noteq> Some ch" if "b \<noteq> a" "map_of (mr_entries r) b = Some x" "entry_sender x = Some ch" for b x ch
  proof
    assume "entry_sender e = Some ch"
    from sender [OF this] sender_below [OF ok(2) that(2,3)] uniq [OF that(2) _ that(3)] that(1) show False by auto
  qed
  have "entries_ok r'"
  proof (rule entries_ok_insert [OF ok(2) e r'(3,1)])
    fix b x ch assume b: "b \<noteq> a" "map_of (mr_entries r) b = Some x" "entry_sender x = Some ch"
    show "mr_channels r' ch = mr_channels r ch"
      using others [of ch] sender_below [OF ok(2) b(2,3)] uniq [OF b(2) _ b(3)] b(1) by blast
  qed
  moreover have "channels_ok r'"
    unfolding channels_ok_def
  proof (intro conjI allI impI)
    fix b c x y ch assume h: "map_of (mr_entries r') b = Some x \<and> map_of (mr_entries r') c = Some y
      \<and> entry_sender x = Some ch \<and> entry_sender y = Some ch"
    then show "b = c" using uniq [of b x c y ch] new [of b x ch] new [of c y ch] by (auto simp: look split: if_splits)
  next
    fix ch assume ch: "ch < mr_next_channel r'" "mr_channels r' ch = Pending"
    show "\<exists>b x. map_of (mr_entries r') b = Some x \<and> entry_sender x = Some ch"
    proof (cases "entry_sender e = Some ch")
      case True
      then show ?thesis using look [of a] by auto
    next
      case False
      note p = pending [OF ch False]
      then obtain b x where "map_of (mr_entries r) b = Some x" "entry_sender x = Some ch"
        using ok(3) unfolding channels_ok_def by blast
      moreover from this p have "b \<noteq> a" by auto
      ultimately show ?thesis using look [of b] by auto
    qed
  qed
  moreover have "leases_ok ls r'"
    unfolding leases_ok_def lease_ok_def
  proof (intro conjI ballI allI impI)
    fix l assume l: "l \<in> set ls"
    let ?ch = "aw_channel (al_waiter l)"
    have old: "?ch < mr_next_channel r" "al_session_generation l = mr_session_generation r"
        "\<And>b x. map_of (mr_entries r) b = Some x \<Longrightarrow> entry_sender x = Some ?ch \<Longrightarrow> b = al_agent_id l \<and> (\<forall>op ch. x \<noteq> EntryRemoving op ch)"
      using ok(4) l unfolding leases_ok_def lease_ok_def by blast+
    show "al_session_generation l = mr_session_generation r'" "?ch < mr_next_channel r'" using old(1,2) r'(3,5) by auto
    fix b x assume b: "map_of (mr_entries r') b = Some x \<and> entry_sender x = Some ?ch"
    show "b = al_agent_id l"
    proof (cases "b = a")
      case True
      then have "entry_sender e = Some ?ch" using b look [of a] by auto
      from sender [OF this] old(1) old(3) [of a] True show ?thesis by auto
    qed (use b look [of b] old(3) [of b x] in auto)
    show "x \<noteq> EntryRemoving op ch" for op ch
    proof (cases "b = a")
      case True
      then have "entry_sender e = Some ?ch" "x = e" using b look [of a] by auto
      with sender [of ?ch] old(1) show ?thesis by auto
    qed (use b look [of b] old(3) [of b x] in auto)
  qed (use ok(4) in \<open>auto simp: leases_ok_def lease_ok_def\<close>)
  ultimately show ?thesis using ok(1) r' by (simp add: registry_inv_def)
qed

lemma inv_lease_for:
  assumes "registry_inv ls r'" "\<forall>l \<in> set ls. aw_channel (al_waiter l) < mr_next_channel r"
    "mr_next_channel r' = Suc (mr_next_channel r)" "mr_session_generation r' = mr_session_generation r"
    "mr_next_operation_id r = of_nat (Suc (mr_next_channel r))"
    "map_of (mr_entries r') agent = Some (EntryAttaching (mr_next_operation_id r) (mr_next_channel r))"
  shows "registry_inv (lease_for r agent # ls) r'"
proof -
  have "\<forall>a e. map_of (mr_entries r') a = Some e \<and> entry_sender e = Some (mr_next_channel r) \<longrightarrow>
      a = agent \<and> (\<forall>op ch. e \<noteq> EntryRemoving op ch)"
    using assms(1,6) unfolding registry_inv_def channels_ok_def by (metis MemberRuntimeEntry.distinct(5) entry_sender.simps(1) option.inject)
  then have "lease_ok r' (lease_for r agent)" using assms(3-5) by (simp add: lease_ok_def lease_for_def) blast
  then show ?thesis using assms(1,2) by (auto simp: registry_inv_def leases_ok_def lease_for_def)
qed

lemma inv_delete:
  assumes inv: "registry_inv ls r" "\<not> mr_stopped r" "map_of (mr_entries r) a = Some (EntryRemoving op ch)"
  shows "registry_inv ls (send_replace ch (Terminal Removed) (r\<lparr>mr_entries := AList.delete a (mr_entries r)\<rparr>))" (is "registry_inv ls ?r")
proof -
  have ok: "keyed (mr_entries r)" "entries_ok r" "channels_ok r" "leases_ok ls r" using inv(1) by (auto simp: registry_inv_def)
  have look: "map_of (mr_entries ?r) b = (if b = a then None else map_of (mr_entries r) b)" for b
    by (simp add: send_replace_def delete_conv')
  have other: "entry_sender e \<noteq> Some ch" if "b \<noteq> a" "map_of (mr_entries r) b = Some e" for b e
    using ok(3) inv(3) that unfolding channels_ok_def by (metis entry_sender.simps(4))
  have "entries_ok ?r"
    unfolding entries_ok_def
  proof (intro allI impI)
    fix b e assume "map_of (mr_entries ?r) b = Some e"
    then have b: "b \<noteq> a" "map_of (mr_entries r) b = Some e" by (auto simp: look split: if_splits)
    have "entry_ok r e" using ok(2) b(2) by (simp add: entries_ok_def)
    then show "entry_ok ?r e" using other [OF b] by (cases e) (auto simp: entry_ok_def send_replace_def)
  qed
  moreover have "channels_ok ?r"
    unfolding channels_ok_def
  proof (intro conjI allI impI)
    fix c assume "c < mr_next_channel ?r" "mr_channels ?r c = Pending"
    then have c: "c < mr_next_channel r" "mr_channels r c = Pending" "c \<noteq> ch" by (auto simp: send_replace_def split: if_splits)
    then obtain b e where "map_of (mr_entries r) b = Some e" "entry_sender e = Some c" using ok(3) unfolding channels_ok_def by blast
    moreover from this c(3) inv(3) have "b \<noteq> a" by auto
    ultimately show "\<exists>b e. map_of (mr_entries ?r) b = Some e \<and> entry_sender e = Some c" using look [of b] by auto
  qed (use ok(3) in \<open>auto simp: look channels_ok_def split: if_splits\<close>)
  moreover have "lease_ok ?r l" if "lease_ok r l" for l
    using that unfolding lease_ok_def look by (auto simp: send_replace_def split: if_splits)
  then have "leases_ok ls ?r" using ok(4) by (simp add: leases_ok_def)
  ultimately show ?thesis using inv(1) by (auto simp: registry_inv_def send_replace_def)
qed

lemma inv_stop:
  assumes "registry_inv ls r"
  shows "registry_inv ls (fold stop_entry (map snd (mr_entries r)) (r\<lparr>mr_stopped := True, mr_entries := []\<rparr>))" (is "registry_inv ls ?r")
proof -
  have "mr_channels ?r ch \<noteq> Pending" if "ch < mr_next_channel r" for ch
  proof (cases "mr_channels r ch")
    case Pending
    from pending_entry [OF assms that Pending] obtain a op where
      "map_of (mr_entries r) a \<in> {Some (EntryAttaching op ch), Some (EntryRemoving op ch)}" by blast
    then have "EntryAttaching op ch \<in> set (map snd (mr_entries r)) \<or> EntryRemoving op ch \<in> set (map snd (mr_entries r))"
      by (auto dest!: map_of_SomeD intro: rev_image_eqI)
    then show ?thesis unfolding stop_entries by auto
  qed (simp add: stop_entries)
  then show ?thesis using assms
    by (auto simp: stop_entries registry_inv_def entries_ok_def channels_ok_def leases_ok_def lease_ok_def)
qed

lemma settled_not_pending:
  assumes "registry_inv ls r" "settled (map_of (mr_entries r) a)" "map_of (mr_entries r) a = Some e" "entry_sender e = Some ch"
  shows "mr_channels r ch \<noteq> Pending"
proof -
  have "entry_ok r e" using assms(1,3) by (auto simp: registry_inv_def entries_ok_def)
  then show ?thesis using assms(2-4) by (cases e) (auto simp: entry_ok_def)
qed

lemma sender_pending:
  assumes "registry_inv ls r" "map_of (mr_entries r) a = Some e" "e = EntryAttaching op ch \<or> e = EntryRemoving op ch"
  shows "op = of_nat (Suc ch) \<and> ch < mr_next_channel r \<and> mr_channels r ch = Pending"
proof -
  have "entry_ok r e" using assms(1,2) by (auto simp: registry_inv_def entries_ok_def)
  then show ?thesis using assms(3) by (auto simp: entry_ok_def)
qed

lemma inv_move:
  assumes "registry_move ls r ls' r'" "registry_inv ls r" shows "registry_inv ls' r'"
  using assms
proof (induction rule: registry_move.induct)
  case (Attach r agent ls)
  have op: "mr_next_operation_id r = of_nat (Suc (mr_next_channel r))" using Attach.prems by (simp add: registry_inv_def)
  have failed: "mr_channels r ch \<noteq> Pending" if "map_of (mr_entries r) agent = Some e" "entry_sender e = Some ch" for e ch
    by (rule settled_not_pending [OF Attach.prems _ that]) (use Attach.hyps(2) that(1) in \<open>simp add: attachable_def\<close>)
  show ?case
  proof (rule inv_lease_for)
    show "registry_inv ls (insert_entry agent (EntryAttaching (mr_next_operation_id r) (mr_next_channel r)) (alloc r))"
      by (rule inv_update [OF Attach.prems Attach.hyps(1), where a = agent and e = "EntryAttaching (mr_next_operation_id r) (mr_next_channel r)"])
        (use op Attach.hyps failed in \<open>auto simp: insert_entry_def alloc_def entry_ok_def less_Suc_eq split: if_splits\<close>)
  qed (use op Attach.prems in \<open>auto simp: insert_entry_def alloc_def registry_inv_def leases_ok_def lease_ok_def update_conv'\<close>)
next
  case (Resolve r agent op ch out e ls)
  note p = sender_pending [OF Resolve.prems Resolve.hyps(2), of op ch]
  show ?case
    by (rule inv_update [OF Resolve.prems Resolve.hyps(1), where a = agent and e = e])
      (use p Resolve in \<open>auto simp: insert_entry_def send_replace_def entry_ok_def registry_inv_def split: if_splits\<close>)
next
  case (Cancel r agent op ch ls)
  note p = sender_pending [OF Cancel.prems Cancel.hyps(2), of op ch]
  have id: "mr_next_operation_id r = of_nat (Suc (mr_next_channel r))" using Cancel.prems by (simp add: registry_inv_def)
  show ?case
    by (rule inv_update [OF Cancel.prems Cancel.hyps(1), where a = agent and e = "EntryRemoving (mr_next_operation_id r) (mr_next_channel r)"])
      (use p id Cancel.hyps in \<open>auto simp: insert_entry_def send_replace_def alloc_def entry_ok_def less_Suc_eq split: if_splits\<close>)
next
  case (Remove r agent ls)
  have id: "mr_next_operation_id r = of_nat (Suc (mr_next_channel r))" using Remove.prems by (simp add: registry_inv_def)
  have failed: "mr_channels r ch \<noteq> Pending" if "map_of (mr_entries r) agent = Some e" "entry_sender e = Some ch" for e ch
    by (rule settled_not_pending [OF Remove.prems Remove.hyps(2) that])
  show ?case
    by (rule inv_update [OF Remove.prems Remove.hyps(1), where a = agent and e = "EntryRemoving (mr_next_operation_id r) (mr_next_channel r)"])
      (use id failed Remove.hyps in \<open>auto simp: insert_entry_def alloc_def entry_ok_def less_Suc_eq split: if_splits\<close>)
next
  case (Restore r agent op ch ls f)
  note p = sender_pending [OF Restore.prems Restore.hyps(2), of op ch]
  show ?case
    by (rule inv_update [OF Restore.prems Restore.hyps(1), where a = agent and e = "EntryFailed op f ch"])
      (use p Restore in \<open>auto simp: insert_entry_def send_replace_def entry_ok_def registry_inv_def split: if_splits\<close>)
qed (simp_all add: inv_delete inv_stop)

definition member_inv :: "MemberSystem \<Rightarrow> bool" where
  "member_inv s \<longleftrightarrow> registry_inv (ms_attach_leases s) (ms_registry s)"

interpretation members: machine new_members member_step member_inv
proof
  show "member_inv s" if "new_members s" for s
    using that by (auto simp: new_members_def member_inv_def registry_inv_def new_registry_def entries_ok_def channels_ok_def leases_ok_def)
  show "member_inv s'" if "member_inv s" "member_step s s'" for s s'
    using inv_move [OF step_move [OF that(2)]] that(1) by (simp add: member_inv_def)
qed

section \<open>Leases and waiters\<close>

text \<open>A waiter of an operation that was started waits exactly while the channel is pending.\<close>

lemma waits_iff:
  assumes "registry_inv ls r" "aw_channel w < mr_next_channel r"
  shows "wait_outcome r w = (case mr_channels r (aw_channel w) of Pending \<Rightarrow> None | Terminal out \<Rightarrow> Some out)"
proof (cases "mr_channels r (aw_channel w)")
  case Pending
  from pending_entry [OF assms Pending] obtain a op where
    "map_of (mr_entries r) a \<in> {Some (EntryAttaching op (aw_channel w)), Some (EntryRemoving op (aw_channel w))}" by blast
  then have "\<exists>e. (a, e) \<in> set (mr_entries r) \<and> entry_sender e = Some (aw_channel w)" by (auto dest!: map_of_SomeD)
  then have "has_sender r (aw_channel w)" by (auto simp: has_sender_def list_ex_iff)
  then show ?thesis using Pending by (simp add: wait_outcome_def)
qed (simp add: wait_outcome_def)

lemma operation_ids_differ:
  assumes "of_nat (Suc m) = (of_nat (Suc n) :: u64)" "m < k" "n < k" "k < 2 ^ 64" shows "m = n"
proof -
  have "take_bit 64 (Suc m) = take_bit 64 (Suc n)" using assms(1) word_of_nat_eq_iff [where 'a = 64, of "Suc m" "Suc n"] by (simp del: of_nat_Suc)
  moreover have "Suc m < 2 ^ 64" "Suc n < 2 ^ 64" using assms(2-4) by linarith+
  ultimately show ?thesis using take_bit_nat_eq_self [of "Suc m" 64] take_bit_nat_eq_self [of "Suc n" 64] by linarith
qed

lemma owns_iff_pending:
  assumes "registry_inv ls r" "mr_next_channel r < 2 ^ 64" "l \<in> set ls"
  shows "owns_attach r l \<longleftrightarrow> mr_channels r (aw_channel (al_waiter l)) = Pending"
proof
  let ?ch = "aw_channel (al_waiter l)"
  have ok: "lease_ok r l" using assms(1,3) by (auto simp: registry_inv_def leases_ok_def)
  show "mr_channels r ?ch = Pending" if "owns_attach r l"
  proof -
    obtain ch where e: "map_of (mr_entries r) (al_agent_id l) = Some (EntryAttaching (aw_operation_id (al_waiter l)) ch)"
      using \<open>owns_attach r l\<close> by (auto simp: owns_attach_def split: option.splits MemberRuntimeEntry.splits)
    note p = sender_pending [OF assms(1) e disjI1 [OF refl]]
    then have "of_nat (Suc ch) = (of_nat (Suc ?ch) :: u64)" using ok by (simp add: lease_ok_def del: of_nat_Suc)
    moreover have "?ch < mr_next_channel r" using ok by (simp add: lease_ok_def)
    ultimately show ?thesis using operation_ids_differ [of ch ?ch "mr_next_channel r"] p assms(2) by simp
  qed
  show "owns_attach r l" if "mr_channels r ?ch = Pending"
  proof -
    obtain a op where a: "map_of (mr_entries r) a \<in> {Some (EntryAttaching op ?ch), Some (EntryRemoving op ?ch)}"
      using pending_entry [OF assms(1) _ \<open>mr_channels r ?ch = Pending\<close>] ok by (auto simp: lease_ok_def)
    have sent: "a = al_agent_id l \<and> (\<forall>op ch. e \<noteq> EntryRemoving op ch)"
      if "map_of (mr_entries r) a = Some e" "entry_sender e = Some ?ch" for e
      using ok that unfolding lease_ok_def by blast
    have "a = al_agent_id l" "map_of (mr_entries r) a = Some (EntryAttaching op ?ch)"
      using a sent [of "EntryAttaching op ?ch"] sent [of "EntryRemoving op ?ch"] by auto
    moreover from this have "op = aw_operation_id (al_waiter l)"
      using sender_pending [OF assms(1) _ disjI1 [OF refl]] ok by (simp add: lease_ok_def)
    moreover have "\<not> mr_stopped r" using assms(1) calculation(2) by (auto simp: registry_inv_def)
    ultimately show ?thesis using ok by (simp add: owns_attach_def lease_ok_def)
  qed
qed

lemma commits_iff_owns: "fst (commit_ready l r) \<longleftrightarrow> owns_attach r l" "fst (commit_failed l f r) \<longleftrightarrow> owns_attach r l"
  by (auto simp: commit_ready_def commit_failed_def owns_attach_def split: option.split MemberRuntimeEntry.split)

text \<open>
  C10: In every reachable state of a team's member registry with fewer than 2^64 operations,
  an attach lease that was issued can be committed, as ready or as failed, exactly while the
  ones who wait for it wait, and at most one issued lease of a member can.
\<close>

theorem lease_commits_while_its_waiters_wait:
  assumes "reach new_members member_step s" "mr_next_channel (ms_registry s) < 2 ^ 64" "l \<in> set (ms_attach_leases s)"
  shows "(fst (commit_ready l (ms_registry s)) \<longleftrightarrow> wait_outcome (ms_registry s) (al_waiter l) = None)
    \<and> (fst (commit_failed l failure (ms_registry s)) \<longleftrightarrow> wait_outcome (ms_registry s) (al_waiter l) = None)
    \<and> (\<forall>l' \<in> set (ms_attach_leases s). al_agent_id l' = al_agent_id l \<and> wait_outcome (ms_registry s) (al_waiter l) = None
         \<and> wait_outcome (ms_registry s) (al_waiter l') = None \<longrightarrow> l' = l)"
proof -
  let ?r = "ms_registry s" and ?ls = "ms_attach_leases s"
  have inv: "registry_inv ?ls ?r" using members.reach_inv [OF assms(1)] by (simp add: member_inv_def)
  have waits: "wait_outcome ?r (al_waiter k) = None \<longleftrightarrow> owns_attach ?r k" if "k \<in> set ?ls" for k
  proof -
    have "aw_channel (al_waiter k) < mr_next_channel ?r" using inv that by (auto simp: registry_inv_def leases_ok_def lease_ok_def)
    then show ?thesis using owns_iff_pending [OF inv assms(2) that] waits_iff [OF inv, of "al_waiter k"]
      by (simp split: AttachSignal.split)
  qed
  have "l' = l" if l': "l' \<in> set ?ls" "al_agent_id l' = al_agent_id l" "owns_attach ?r l" "owns_attach ?r l'" for l'
  proof -
    have "lease_ok ?r l" "lease_ok ?r l'" using inv assms(3) l'(1) by (auto simp: registry_inv_def leases_ok_def)
    moreover have "aw_operation_id (al_waiter l) = aw_operation_id (al_waiter l')"
      using l'(2-4) by (auto simp: owns_attach_def split: option.splits MemberRuntimeEntry.splits)
    ultimately have "aw_channel (al_waiter l) = aw_channel (al_waiter l')"
      using operation_ids_differ assms(2) unfolding lease_ok_def by metis
    moreover have "distinct (map (\<lambda>l. aw_channel (al_waiter l)) ?ls)" using inv by (simp add: registry_inv_def leases_ok_def)
    ultimately show ?thesis using l'(1) assms(3) by (auto simp: distinct_map dest: inj_onD)
  qed
  then show ?thesis using waits assms(3) by (auto simp: commits_iff_owns)
qed

section \<open>Outcomes\<close>

lemma move_keeps_outcome:
  assumes "registry_move ls r ls' r'" "registry_inv ls r" "ch < mr_next_channel r" "mr_channels r ch = Terminal out"
  shows "ch < mr_next_channel r' \<and> mr_channels r' ch = Terminal out"
  using assms
proof (induction rule: registry_move.induct)
  case (Stop r ls)
  have "EntryAttaching op ch \<notin> snd ` set (mr_entries r)" "EntryRemoving op ch \<notin> snd ` set (mr_entries r)" for op
  proof -
    have keyed: "keyed (mr_entries r)" using Stop.prems(1) by (simp add: registry_inv_def)
    show "EntryAttaching op ch \<notin> snd ` set (mr_entries r)" "EntryRemoving op ch \<notin> snd ` set (mr_entries r)"
      using Stop.prems sender_pending [OF Stop.prems(1)] values_iff [OF keyed] by (metis AttachSignal.distinct(1) image_set)+
  qed
  then show ?case using Stop.prems by (auto simp: stop_entries)
qed (use sender_pending in \<open>fastforce simp: insert_entry_def send_replace_def alloc_def\<close>)+

text \<open>Waiters are told that the session stopped only when it did.\<close>

definition stops_honestly :: "MemberRuntimeRegistry \<Rightarrow> bool" where
  "stops_honestly r \<longleftrightarrow> mr_stopped r \<or> (\<forall>ch. mr_channels r ch \<noteq> Terminal SessionStopped)"

lemma stops_honestly_move: "registry_move ls r ls' r' \<Longrightarrow> stops_honestly r \<Longrightarrow> stops_honestly r'"
  by (induction rule: registry_move.induct)
    (auto simp: stops_honestly_def insert_entry_def send_replace_def alloc_def stop_entries)

interpretation honest_members: machine new_members member_step "\<lambda>s. stops_honestly (ms_registry s)"
proof
  show "stops_honestly (ms_registry s)" if "new_members s" for s
    using that by (auto simp: new_members_def stops_honestly_def new_registry_def)
  show "stops_honestly (ms_registry s')" if "stops_honestly (ms_registry s)" "member_step s s'" for s s'
    using stops_honestly_move [OF step_move [OF that(2)] that(1)] .
qed

lemma reach_steps: "member_step\<^sup>*\<^sup>* s t \<Longrightarrow> reach new_members member_step s \<Longrightarrow> reach new_members member_step t"
  by (induction rule: rtranclp_induct) (auto intro: reach_step)

text \<open>
  C23: An outcome that was given to the ones who wait for an attach or a removal never changes
  again, whatever follows; it is SessionStopped only when the registry was stopped, and once
  it was stopped nobody waits.
\<close>

theorem waiters_get_one_lasting_outcome:
  assumes "reach new_members member_step s" "member_step\<^sup>*\<^sup>* s t" "aw_channel w < mr_next_channel (ms_registry s)"
  shows "(\<forall>out. wait_outcome (ms_registry s) w = Some out \<longrightarrow> wait_outcome (ms_registry t) w = Some out)
    \<and> (wait_outcome (ms_registry t) w = Some SessionStopped \<longrightarrow> mr_stopped (ms_registry t))
    \<and> (mr_stopped (ms_registry t) \<longrightarrow> wait_outcome (ms_registry t) w \<noteq> None)"
proof -
  let ?ch = "aw_channel w"
  have t: "reach new_members member_step t" by (rule reach_steps [OF assms(2,1)])
  have inv: "registry_inv (ms_attach_leases u) (ms_registry u)" if "reach new_members member_step u" for u
    using members.reach_inv [OF that] by (simp add: member_inv_def)
  have below: "?ch < mr_next_channel (ms_registry t)"
    by (rule members.stable_from_reach [OF assms(1,2), where P = "\<lambda>u. ?ch < mr_next_channel (ms_registry u)"])
      (use assms(3) step_move in \<open>auto elim!: registry_move.cases simp: insert_entry_def send_replace_def alloc_def stop_entries dest!: step_move\<close>)
  have "wait_outcome (ms_registry t) w = Some out" if "wait_outcome (ms_registry s) w = Some out" for out
  proof -
    have "mr_channels (ms_registry s) ?ch = Terminal out"
      using that waits_iff [OF inv [OF assms(1)] assms(3)] by (auto split: AttachSignal.splits)
    then have "?ch < mr_next_channel (ms_registry t) \<and> mr_channels (ms_registry t) ?ch = Terminal out"
      by (intro members.stable_from_reach [OF assms(1,2), where P = "\<lambda>u. ?ch < mr_next_channel (ms_registry u) \<and> mr_channels (ms_registry u) ?ch = Terminal out"])
        (use assms(3) in \<open>auto simp: member_inv_def dest!: move_keeps_outcome [OF step_move]\<close>)
    then show ?thesis using waits_iff [OF inv [OF t] below] by simp
  qed
  moreover have "mr_stopped (ms_registry t)" if "wait_outcome (ms_registry t) w = Some SessionStopped"
    using that waits_iff [OF inv [OF t] below] honest_members.reach_inv [OF t] by (auto simp: stops_honestly_def split: AttachSignal.splits)
  moreover have "wait_outcome (ms_registry t) w \<noteq> None" if "mr_stopped (ms_registry t)"
    using pending_entry [OF inv [OF t] below] inv [OF t] that waits_iff [OF inv [OF t] below]
    by (auto simp: registry_inv_def split: AttachSignal.splits)
  ultimately show ?thesis by blast
qed

section \<open>The lifecycle of a member\<close>

inductive member_life :: "MemberRuntimeSnapshot \<Rightarrow> MemberRuntimeSnapshot \<Rightarrow> bool" where
  "member_life SnapAbsent (SnapAttaching op)"
| "member_life SnapReady (SnapAttaching op)"
| "member_life (SnapFailed op f) (SnapAttaching op')"
| "member_life (SnapAttaching op) SnapReady"
| "member_life (SnapAttaching op) (SnapFailed op f)"
| "member_life (SnapAttaching op) (SnapRemoving op')"
| "member_life SnapReady (SnapRemoving op)"
| "member_life (SnapFailed op f) (SnapRemoving op')"
| "member_life (SnapRemoving op) SnapAbsent"
| "member_life (SnapRemoving op) (SnapFailed op f)"

inductive_simps member_life_simps [simp]:
  "member_life SnapAbsent t" "member_life SnapReady t" "member_life (SnapFailed op f) t"
  "member_life (SnapAttaching op) t" "member_life (SnapRemoving op) t" "member_life SnapStopped t"

lemma settled_life:
  "settled e \<Longrightarrow> (\<exists>op. e = Some EntryReady \<or> (\<exists>f ch. e = Some (EntryFailed op f ch)))"
  by (cases e rule: settled.cases) auto

lemma move_life:
  assumes "registry_move ls r ls' r'"
  shows "(\<exists>a. (member_snapshot r' a = member_snapshot r a \<or> member_life (member_snapshot r a) (member_snapshot r' a))
      \<and> (\<forall>b. b \<noteq> a \<longrightarrow> member_snapshot r' b = member_snapshot r b))
    \<or> \<not> mr_stopped r \<and> (\<forall>a. member_snapshot r' a = SnapStopped)"
  using assms
proof (induction rule: registry_move.induct)
  case (Attach r agent ls)
  then show ?case
    by (intro disjI1 exI [of _ agent])
      (auto simp: member_snapshot_def registry_simps attachable_def dest!: settled_life)
next
  case (Resolve r agent op ch out e ls)
  then show ?case by (intro disjI1 exI [of _ agent]) (auto simp: member_snapshot_def registry_simps)
next
  case (Cancel r agent op ch ls)
  then show ?case by (intro disjI1 exI [of _ agent]) (auto simp: member_snapshot_def registry_simps)
next
  case (Remove r agent ls)
  then show ?case by (intro disjI1 exI [of _ agent]) (auto simp: member_snapshot_def registry_simps dest!: settled_life)
next
  case (Finish r agent op ch ls)
  then show ?case by (intro disjI1 exI [of _ agent]) (auto simp: member_snapshot_def registry_simps)
next
  case (Restore r agent op ch ls f)
  then show ?case by (intro disjI1 exI [of _ agent]) (auto simp: member_snapshot_def registry_simps)
qed (auto simp: member_snapshot_def stop_entries)

text \<open>
  C20: Every step of a reachable member registry changes the state of at most one member,
  along the lifecycle of a member (absent, attaching, ready, failed, removing), or stops the
  registry and all members with it.
\<close>

theorem members_follow_their_lifecycle:
  assumes "member_step s s'"
  shows "(\<exists>a. (member_snapshot (ms_registry s') a = member_snapshot (ms_registry s) a
          \<or> member_life (member_snapshot (ms_registry s) a) (member_snapshot (ms_registry s') a))
      \<and> (\<forall>b. b \<noteq> a \<longrightarrow> member_snapshot (ms_registry s') b = member_snapshot (ms_registry s) b))
    \<or> \<not> mr_stopped (ms_registry s) \<and> (\<forall>a. member_snapshot (ms_registry s') a = SnapStopped)"
  by (rule move_life [OF step_move [OF assms]])

section \<open>Examples\<close>

primrec member_ops :: "MemberOp list \<Rightarrow> MemberSystem \<Rightarrow> MemberSystem option" where
  "member_ops [] s = Some s"
| "member_ops (op # ops) s = (case member_op op s of None \<Rightarrow> None | Some s' \<Rightarrow> member_ops ops s')"

lemma member_ops_steps: "member_ops ops s = Some t \<Longrightarrow> member_step\<^sup>*\<^sup>* s t"
proof (induction ops arbitrary: s)
  case (Cons op ops)
  then obtain s' where "member_op op s = Some s'" "member_ops ops s' = Some t" by (auto split: option.splits)
  then show ?case using Cons.IH by (auto simp: member_step_def intro: converse_rtranclp_into_rtranclp)
qed simp

lemma member_ops_append: "member_ops (xs @ ys) s = (case member_ops xs s of None \<Rightarrow> None | Some t \<Rightarrow> member_ops ys t)"
  by (induction xs arbitrary: s) (auto split: option.split)

definition demo_members :: MemberSystem where
  "demo_members = \<lparr>ms_registry = new_registry ''g'', ms_attach_leases = [], ms_remove_leases = []\<rparr>"

definition demo_lease :: AttachLease where
  "demo_lease = \<lparr>al_session_generation = ''g'', al_agent_id = ''ann'', al_waiter = \<lparr>aw_operation_id = 1, aw_channel = 0\<rparr>\<rparr>"

lemma demo_members_reach: "reach new_members member_step demo_members"
  by (rule reach_init) (auto simp: new_members_def demo_members_def)

text \<open>A member is removed while it is being attached: the lease can no longer be committed, and a second attach waits its turn.\<close>

theorem lease_commits_while_its_waiters_wait_witness:
  "case member_ops [OpReserve ''ann'' False, OpReserve ''ann'' False, OpBeginRemove ''ann''] demo_members of
     Some s \<Rightarrow> ms_attach_leases s = [demo_lease] \<and> wait_outcome (ms_registry s) (al_waiter demo_lease) = Some Removed
       \<and> \<not> fst (commit_ready demo_lease (ms_registry s))
   | None \<Rightarrow> False"
proof -
  have "map_option (\<lambda>s. (ms_attach_leases s, wait_outcome (ms_registry s) (al_waiter demo_lease), mr_next_channel (ms_registry s)))
      (member_ops [OpReserve ''ann'' False, OpReserve ''ann'' False, OpBeginRemove ''ann''] demo_members)
    = Some ([demo_lease], Some Removed, 2)" by code_simp
  then obtain s where s: "member_ops [OpReserve ''ann'' False, OpReserve ''ann'' False, OpBeginRemove ''ann''] demo_members = Some s"
    "ms_attach_leases s = [demo_lease]" "wait_outcome (ms_registry s) (al_waiter demo_lease) = Some Removed"
    "mr_next_channel (ms_registry s) = 2" by auto
  have "reach new_members member_step s" by (rule reach_steps [OF member_ops_steps [OF s(1)] demo_members_reach])
  from lease_commits_while_its_waiters_wait [OF this, of demo_lease] s show ?thesis by auto
qed

text \<open>A failure is what a waiter still sees after the member was attached again and the session has stopped.\<close>

definition demo_failure :: MemberRuntimeFailure where
  "demo_failure = \<lparr>mf_classification = ''spawn'', mf_public_reason = ''no program''\<rparr>"

theorem waiters_get_one_lasting_outcome_witness:
  "map_option (\<lambda>t. wait_outcome (ms_registry t) (al_waiter demo_lease))
     (member_ops [OpReserve ''ann'' False, OpCommitFailed demo_lease demo_failure, OpReserve ''ann'' True, OpStop] demo_members)
   = Some (Some (Failed demo_failure))"
proof -
  have "map_option (\<lambda>s. (wait_outcome (ms_registry s) (al_waiter demo_lease), mr_next_channel (ms_registry s),
        member_ops [OpReserve ''ann'' True, OpStop] s \<noteq> None))
      (member_ops [OpReserve ''ann'' False, OpCommitFailed demo_lease demo_failure] demo_members)
    = Some (Some (Failed demo_failure), 1, True)" by code_simp
  then obtain s t where s: "member_ops [OpReserve ''ann'' False, OpCommitFailed demo_lease demo_failure] demo_members = Some s"
      "wait_outcome (ms_registry s) (al_waiter demo_lease) = Some (Failed demo_failure)" "mr_next_channel (ms_registry s) = 1"
    and t: "member_ops [OpReserve ''ann'' True, OpStop] s = Some t" by auto
  have "reach new_members member_step s" by (rule reach_steps [OF member_ops_steps [OF s(1)] demo_members_reach])
  from waiters_get_one_lasting_outcome [OF this member_ops_steps [OF t], of "al_waiter demo_lease"] s
  have "wait_outcome (ms_registry t) (al_waiter demo_lease) = Some (Failed demo_failure)" by (simp add: demo_lease_def)
  moreover have "member_ops [OpReserve ''ann'' False, OpCommitFailed demo_lease demo_failure, OpReserve ''ann'' True, OpStop] demo_members = Some t"
    using s(1) t member_ops_append [of "[OpReserve ''ann'' False, OpCommitFailed demo_lease demo_failure]" "[OpReserve ''ann'' True, OpStop]" demo_members]
    by simp
  ultimately show ?thesis by simp
qed

theorem members_follow_their_lifecycle_witness:
  "case member_op (OpReserve ''ann'' False) demo_members of
     Some s' \<Rightarrow> member_snapshot (ms_registry demo_members) ''ann'' = SnapAbsent
       \<and> member_life SnapAbsent (member_snapshot (ms_registry s') ''ann'')
   | None \<Rightarrow> False"
proof -
  have "map_option (\<lambda>s'. (member_snapshot (ms_registry demo_members) ''ann'', member_snapshot (ms_registry s') ''ann'', mr_stopped (ms_registry s')))
      (member_op (OpReserve ''ann'' False) demo_members) = Some (SnapAbsent, SnapAttaching 1, False)" by code_simp
  then obtain s' where s': "member_op (OpReserve ''ann'' False) demo_members = Some s'"
    "member_snapshot (ms_registry demo_members) ''ann'' = SnapAbsent" "member_snapshot (ms_registry s') ''ann'' = SnapAttaching 1"
    "\<not> mr_stopped (ms_registry s')" by (auto simp del: member_op.simps)
  have "member_step demo_members s'" using s'(1) unfolding member_step_def by blast
  from members_follow_their_lifecycle [OF this] s'(2-4) have "member_life SnapAbsent (member_snapshot (ms_registry s') ''ann'')"
    by (metis MemberRuntimeSnapshot.distinct(1,17))
  then show ?thesis using s'(1,2) by simp
qed

end
