(* ===== verification/Acp_Catalog.thy ===== *)
theory Acp_Catalog
  imports Core_Prelude
begin

text \<open>
  The options an ACP agent advertises and the catalogs made of them: merging and reading config options
  (\<open>crates/tjuaeui-ai-agent/src/manager/acp/config_option_catalog.rs\<close>), the snapshot shown to the
  user and the way a value is set (\<open>config_options.rs\<close>), and the names of modes (\<open>mode_normalize.rs\<close>).

  The data types of the ACP library have the fields the code reads. Where the library's enumerations are open, one constructor
  stands for the variants the code does not name; a category without a name of its own is identified
  by the text \<open>Debug\<close> prints for it.
\<close>

section \<open>The data types of the protocol\<close>

datatype SessionConfigOptionCategory = Mode | Model | ThoughtLevel | OtherCategory string

record SessionConfigSelectOption =
  so_value :: string
  so_name :: string
  so_description :: "string option"

datatype SessionConfigSelectOptions =
    Ungrouped "SessionConfigSelectOption list"
  | Grouped "SessionConfigSelectOption list list"
  | OtherOptions

record SessionConfigSelect =
  sel_current_value :: string
  sel_options :: SessionConfigSelectOptions

datatype SessionConfigKind = Select SessionConfigSelect | OtherKind

record SessionConfigOption =
  co_id :: string
  co_name :: string
  co_description :: "string option"
  co_category :: "SessionConfigOptionCategory option"
  co_kind :: SessionConfigKind

record SessionMode =
  sm_id :: string
  sm_name :: string
  sm_description :: "string option"

record SessionModeState =
  current_mode_id :: string
  available_modes :: "SessionMode list"

record ModelInfo =
  mi_model_id :: string
  mi_name :: string
  mi_description :: "string option"

record SessionModelState =
  current_model_id :: string
  available_models :: "ModelInfo list"

section \<open>Catalogs from config options\<close>

fun select_from_kind :: "SessionConfigKind \<Rightarrow> SessionConfigSelect option" where
  "select_from_kind (Select select) = Some select"
| "select_from_kind OtherKind = None"

definition find_select ::
  "SessionConfigOption list \<Rightarrow> string list \<Rightarrow> SessionConfigOptionCategory \<Rightarrow> SessionConfigSelect option" where
  "find_select options ids category =
     (case find_map (\<lambda>opt. if co_category opt = Some category then select_from_kind (co_kind opt) else None) options of
        Some select \<Rightarrow> Some select
      | None \<Rightarrow> find_map (\<lambda>opt. if co_id opt \<notin> set ids then None else select_from_kind (co_kind opt)) options)"

fun flatten_select_options :: "SessionConfigSelectOptions \<Rightarrow> SessionConfigSelectOption list" where
  "flatten_select_options (Ungrouped options) = options"
| "flatten_select_options (Grouped groups) = concat groups"
| "flatten_select_options OtherOptions = []"

definition non_empty_or_first :: "string \<Rightarrow> string \<Rightarrow> string" where
  "non_empty_or_first current first = (if current = [] then first else current)"

definition derive_modes_from_config_options :: "SessionConfigOption list \<Rightarrow> SessionModeState option" where
  "derive_modes_from_config_options options =
     (case find_select options [''mode'', ''modes''] Mode of
        None \<Rightarrow> None
      | Some select \<Rightarrow>
          (case map (\<lambda>opt. \<lparr>sm_id = so_value opt, sm_name = so_name opt, sm_description = so_description opt\<rparr>)
              (flatten_select_options (sel_options select)) of
             [] \<Rightarrow> None
           | mode # modes \<Rightarrow> Some \<lparr>current_mode_id = non_empty_or_first (sel_current_value select) (sm_id mode),
               available_modes = mode # modes\<rparr>))"

definition derive_models_from_config_options :: "SessionConfigOption list \<Rightarrow> SessionModelState option" where
  "derive_models_from_config_options options =
     (case find_select options [''model'', ''models''] Model of
        None \<Rightarrow> None
      | Some select \<Rightarrow>
          (case map (\<lambda>opt. \<lparr>mi_model_id = so_value opt, mi_name = so_name opt, mi_description = so_description opt\<rparr>)
              (flatten_select_options (sel_options select)) of
             [] \<Rightarrow> None
           | model # models \<Rightarrow> Some \<lparr>current_model_id = non_empty_or_first (sel_current_value select) (mi_model_id model),
               available_models = model # models\<rparr>))"

fun merge_option :: "SessionConfigOption \<Rightarrow> SessionConfigOption list \<Rightarrow> SessionConfigOption list" where
  "merge_option opt [] = [opt]"
| "merge_option opt (existing # merged) =
     (if co_id existing = co_id opt then opt # merged else existing # merge_option opt merged)"

definition merge_config_options ::
  "SessionConfigOption list option \<Rightarrow> SessionConfigOption list \<Rightarrow> SessionConfigOption list" where
  "merge_config_options existing incoming =
     (case existing of None \<Rightarrow> incoming | Some existing \<Rightarrow> fold merge_option incoming existing)"

section \<open>The snapshot of the config options\<close>

record AcpConfigSelectOptionDto =
  ds_value :: string
  ds_name :: "string option"
  ds_label :: "string option"
  ds_description :: "string option"

record AcpConfigOptionDto =
  dt_id :: string
  dt_name :: "string option"
  dt_label :: "string option"
  dt_description :: "string option"
  dt_category :: "string option"
  dt_option_type :: string
  dt_current_value :: "string option"
  dt_options :: "AcpConfigSelectOptionDto list"

datatype ConfigOptionOrigin = Real | SyntheticLegacyMode | SyntheticLegacyModel

record ConfigSnapshot =
  cs_options :: "AcpConfigOptionDto list"
  cs_option_origins :: "ConfigOptionOrigin list"

record ConfigSupplementSummary =
  su_mode :: bool
  su_model :: bool

text \<open>Lower case is that of ASCII; the code's also maps letters outside ASCII, which only a category unknown to the program could have.\<close>

fun category_to_api :: "SessionConfigOptionCategory \<Rightarrow> string" where
  "category_to_api Mode = ''mode''"
| "category_to_api Model = ''model''"
| "category_to_api ThoughtLevel = ''thought_level''"
| "category_to_api (OtherCategory debug) = to_ascii_lowercase debug"

definition dto_from_select_option :: "SessionConfigSelectOption \<Rightarrow> AcpConfigSelectOptionDto" where
  "dto_from_select_option opt =
     \<lparr>ds_value = so_value opt, ds_name = Some (so_name opt), ds_label = None, ds_description = so_description opt\<rparr>"

definition dto_from_sdk_option :: "SessionConfigOption \<Rightarrow> AcpConfigOptionDto" where
  "dto_from_sdk_option opt =
     (let (option_type, current_value, options) =
        (case co_kind opt of
           Select select \<Rightarrow> (''select'', Some (sel_current_value select),
             map dto_from_select_option (flatten_select_options (sel_options select)))
         | OtherKind \<Rightarrow> (''string'', None, []))
      in \<lparr>dt_id = co_id opt, dt_name = Some (co_name opt), dt_label = None, dt_description = co_description opt,
          dt_category = map_option category_to_api (co_category opt), dt_option_type = option_type,
          dt_current_value = current_value, dt_options = options\<rparr>)"

definition dto_from_modes :: "SessionModeState \<Rightarrow> AcpConfigOptionDto" where
  "dto_from_modes modes =
     \<lparr>dt_id = ''mode'', dt_name = Some ''Mode'', dt_label = None, dt_description = None, dt_category = Some ''mode'',
      dt_option_type = ''select'', dt_current_value = Some (current_mode_id modes),
      dt_options = map (\<lambda>m. \<lparr>ds_value = sm_id m, ds_name = Some (sm_name m), ds_label = None,
        ds_description = sm_description m\<rparr>) (available_modes modes)\<rparr>"

definition dto_from_models :: "SessionModelState \<Rightarrow> AcpConfigOptionDto" where
  "dto_from_models models =
     \<lparr>dt_id = ''model'', dt_name = Some ''Model'', dt_label = None, dt_description = None, dt_category = Some ''model'',
      dt_option_type = ''select'', dt_current_value = Some (current_model_id models),
      dt_options = map (\<lambda>m. \<lparr>ds_value = mi_model_id m, ds_name = Some (mi_name m), ds_label = None,
        ds_description = mi_description m\<rparr>) (available_models models)\<rparr>"

definition real_option_matches_category_or_id :: "SessionConfigOption \<Rightarrow> SessionConfigOptionCategory \<Rightarrow> string \<Rightarrow> bool" where
  "real_option_matches_category_or_id opt category option_id \<longleftrightarrow> co_category opt = Some category \<or> co_id opt = option_id"

definition supplement_summary_for_real_options ::
  "SessionConfigOption list \<Rightarrow> SessionModeState option \<Rightarrow> SessionModelState option \<Rightarrow> ConfigSupplementSummary" where
  "supplement_summary_for_real_options options modes models =
     \<lparr>su_mode = \<not> list_ex (\<lambda>opt. real_option_matches_category_or_id opt Mode ''mode'') options
        \<and> (case modes of Some m \<Rightarrow> available_modes m \<noteq> [] | None \<Rightarrow> False),
      su_model = \<not> list_ex (\<lambda>opt. real_option_matches_category_or_id opt Model ''model'') options
        \<and> (case models of Some m \<Rightarrow> available_models m \<noteq> [] | None \<Rightarrow> False)\<rparr>"

definition from_real_options :: "SessionConfigOption list \<Rightarrow> ConfigSnapshot" where
  "from_real_options options = \<lparr>cs_options = map dto_from_sdk_option options, cs_option_origins = replicate (length options) Real\<rparr>"

definition push_option :: "AcpConfigOptionDto \<Rightarrow> ConfigOptionOrigin \<Rightarrow> ConfigSnapshot \<Rightarrow> ConfigSnapshot" where
  "push_option dto origin s = \<lparr>cs_options = cs_options s @ [dto], cs_option_origins = cs_option_origins s @ [origin]\<rparr>"

definition from_legacy_catalogs :: "SessionModeState option \<Rightarrow> SessionModelState option \<Rightarrow> ConfigSnapshot" where
  "from_legacy_catalogs modes models =
     (let s = \<lparr>cs_options = [], cs_option_origins = []\<rparr>;
          s = (case modes of Some m \<Rightarrow> push_option (dto_from_modes m) SyntheticLegacyMode s | None \<Rightarrow> s)
      in case models of Some m \<Rightarrow> push_option (dto_from_models m) SyntheticLegacyModel s | None \<Rightarrow> s)"

definition from_real_options_with_runtime_supplements ::
  "SessionConfigOption list \<Rightarrow> SessionModeState option \<Rightarrow> SessionModelState option \<Rightarrow> ConfigSnapshot" where
  "from_real_options_with_runtime_supplements options modes models =
     (let summary = supplement_summary_for_real_options options modes models;
          s = from_real_options options;
          s = (case (su_mode summary, modes) of (True, Some m) \<Rightarrow> push_option (dto_from_modes m) SyntheticLegacyMode s | _ \<Rightarrow> s)
      in case (su_model summary, models) of (True, Some m) \<Rightarrow> push_option (dto_from_models m) SyntheticLegacyModel s | _ \<Rightarrow> s)"

definition option_current :: "ConfigSnapshot \<Rightarrow> string \<Rightarrow> string option" where
  "option_current s option_id = Option.bind (find (\<lambda>opt. dt_id opt = option_id) (cs_options s)) dt_current_value"

definition selectable_values :: "ConfigSnapshot \<Rightarrow> string \<Rightarrow> string list" where
  "selectable_values s option_id =
     (case find (\<lambda>opt. dt_id opt = option_id) (cs_options s) of Some opt \<Rightarrow> map ds_value (dt_options opt) | None \<Rightarrow> [])"

definition observed_matches :: "ConfigSnapshot \<Rightarrow> string \<Rightarrow> string \<Rightarrow> bool" where
  "observed_matches s option_id requested \<longleftrightarrow> option_current s option_id = Some requested"

datatype ConfigSetPath = ConfigOption string | LegacyMode | LegacyModel

datatype ConfigSetPathError = OptionNotFound | ValueNotSelectable

definition position_of :: "('a \<Rightarrow> bool) \<Rightarrow> 'a list \<Rightarrow> nat" where
  "position_of P xs = length (takeWhile (\<lambda>x. \<not> P x) xs)"

definition resolve_set_path :: "ConfigSnapshot \<Rightarrow> string \<Rightarrow> string \<Rightarrow> ConfigSetPathError + ConfigSetPath" where
  "resolve_set_path s option_id requested =
     (case find (\<lambda>opt. dt_id opt = option_id) (cs_options s) of
        None \<Rightarrow> Inl OptionNotFound
      | Some opt \<Rightarrow>
          if dt_options opt \<noteq> [] \<and> \<not> list_ex (\<lambda>o1. ds_value o1 = requested) (dt_options opt) then Inl ValueNotSelectable
          else let index = position_of (\<lambda>opt. dt_id opt = option_id) (cs_options s)
            in case (if index < length (cs_option_origins s) then cs_option_origins s ! index else Real) of
                 Real \<Rightarrow> Inr (ConfigOption (dt_id opt))
               | SyntheticLegacyMode \<Rightarrow> Inr LegacyMode
               | SyntheticLegacyModel \<Rightarrow> Inr LegacyModel)"

section \<open>Names of modes\<close>

record AgentMetadata =
  md_backend :: "string option"
  md_yolo_id :: "string option"

definition CODEX_CANONICAL_FULL_ACCESS_MODE :: string where
  "CODEX_CANONICAL_FULL_ACCESS_MODE = ''agent-full-access''"

definition CODEX_LEGACY_FULL_ACCESS_MODE :: string where
  "CODEX_LEGACY_FULL_ACCESS_MODE = ''full-access''"

definition is_codex :: "AgentMetadata \<Rightarrow> bool" where
  "is_codex md \<longleftrightarrow> md_backend md = Some ''codex''"

definition is_codex_full_access_semantic_value :: "string \<Rightarrow> bool" where
  "is_codex_full_access_semantic_value mode \<longleftrightarrow>
     mode \<in> {CODEX_CANONICAL_FULL_ACCESS_MODE, CODEX_LEGACY_FULL_ACCESS_MODE, ''yolo''}"

definition normalize_requested_mode :: "AgentMetadata \<Rightarrow> string \<Rightarrow> string" where
  "normalize_requested_mode md mode =
     (let trimmed = trim mode
      in if trimmed = [] then []
         else if is_codex md \<and> is_codex_full_access_semantic_value trimmed
         then (case md_yolo_id md of Some y \<Rightarrow> y | None \<Rightarrow> CODEX_CANONICAL_FULL_ACCESS_MODE)
         else (case (trimmed = ''yolo'', md_yolo_id md) of
             (True, Some native) \<Rightarrow> native
           | _ \<Rightarrow> if is_codex md \<and> trimmed \<in> {''default'', ''autoEdit''} then ''auto'' else trimmed))"

definition normalize_requested_mode_for_available_values :: "AgentMetadata \<Rightarrow> string \<Rightarrow> string list \<Rightarrow> string" where
  "normalize_requested_mode_for_available_values md mode available =
     (if is_codex md \<and> is_codex_full_access_semantic_value (trim mode) \<and> CODEX_CANONICAL_FULL_ACCESS_MODE \<in> set available
      then CODEX_CANONICAL_FULL_ACCESS_MODE
      else if is_codex md \<and> is_codex_full_access_semantic_value (trim mode) \<and> CODEX_LEGACY_FULL_ACCESS_MODE \<in> set available
      then CODEX_LEGACY_FULL_ACCESS_MODE
      else normalize_requested_mode md mode)"

end
