(* ===== verification/Acp_Session.thy ===== *)
theory Acp_Session
  imports Acp_Catalog
begin

text \<open>
  The aggregate of one ACP session (\<open>crates/tjuaeui-ai-agent/src/manager/acp/session.rs\<close>): what the user
  wants, what the agent reported last and what it offers; the notifications of the agent
  (\<open>agent_event_tracker.rs\<close>) and the loop that brings the agent in line with the user
  (\<open>agent_reconcile.rs\<close>).

  Context usage, capabilities, authentication methods and commands are values of the ACP library of one type
  parameter. \<open>set_session_id\<close> is the release build, in which reassigning another id is ignored. The replies of the agent and the
  notifications that arrive while the loop waits for one are functions of the number of the request.
\<close>

type_synonym ModeId = string
type_synonym ModelId = string
type_synonym ConfigKey = string
type_synonym ConfigValue = string
type_synonym Selections = "(string \<times> string) list"

section \<open>State\<close>

record PendingStartupConfigSeed =
  ps_category :: SessionConfigOptionCategory
  ps_value :: ConfigValue

datatype PendingStartupConfigSeedResult =
    Applied SessionConfigOptionCategory ConfigKey
  | OptionNotAdvertised SessionConfigOptionCategory
  | ValueNotSelectableFor SessionConfigOptionCategory

record Desired =
  ds_mode_id :: "ModeId option"
  ds_model_id :: "ModelId option"
  ds_config_selections :: Selections
  ds_pending_startup_config :: "PendingStartupConfigSeed list"

record Observed =
  ob_mode_id :: "ModeId option"
  ob_model_id :: "ModelId option"
  ob_config_current :: Selections

record 'j Advertised =
  ad_modes :: "SessionModeState option"
  ad_models :: "SessionModelState option"
  ad_config_options :: "SessionConfigOption list option"
  ad_context_usage :: "'j option"
  ad_agent_capabilities :: "'j option"
  ad_auth_methods :: "'j list option"
  ad_available_commands :: "'j list option"

record CatalogPreloadSummary =
  pl_mode_preloaded :: bool
  pl_model_preloaded :: bool
  pl_mode_catalog_count :: nat
  pl_model_catalog_count :: nat

datatype AgentKillReason =
    IdleTimeout | AgentErrorRecovery | TeamMcpRebuild | TeamDeleted | ConversationDeleted | UserCancelTimeout
  | RuntimeCapabilityChanged

datatype CloseReason =
    UserCancel
  | Killed "AgentKillReason option"
  | ProcessExited "int option" "string option" string
  | Failed string

datatype 'j AcpSessionEvent =
    SessionOpened
  | SessionAssigned string
  | DesiredModeChanged ModeId
  | DesiredModelChanged ModelId
  | DesiredConfigChanged Selections
  | ObservedModeSynced ModeId
  | ObservedModelSynced ModelId
  | ObservedConfigSynced Selections
  | ObservedContextUsageChanged 'j

record 'j AcpSession =
  se_session_id :: "string option"
  se_opened :: bool
  se_desired :: Desired
  se_observed :: Observed
  se_advertised :: "'j Advertised"
  se_config_set_in_flight :: bool
  se_pending_events :: "'j AcpSessionEvent list"
  se_pending_session_new_prelude :: bool
  se_last_close_reason :: "CloseReason option"

definition new_session :: "ModeId option \<Rightarrow> ModelId option \<Rightarrow> Selections \<Rightarrow> 'j AcpSession" where
  "new_session initial_mode initial_model selections =
     \<lparr>se_session_id = None, se_opened = False,
      se_desired = \<lparr>ds_mode_id = initial_mode, ds_model_id = initial_model, ds_config_selections = selections,
        ds_pending_startup_config = []\<rparr>,
      se_observed = \<lparr>ob_mode_id = None, ob_model_id = None, ob_config_current = []\<rparr>,
      se_advertised = \<lparr>ad_modes = None, ad_models = None, ad_config_options = None, ad_context_usage = None,
        ad_agent_capabilities = None, ad_auth_methods = None, ad_available_commands = None\<rparr>,
      se_config_set_in_flight = False, se_pending_events = [], se_pending_session_new_prelude = False,
      se_last_close_reason = None\<rparr>"

definition emit :: "'j AcpSessionEvent \<Rightarrow> 'j AcpSession \<Rightarrow> 'j AcpSession" where
  "emit ev s = s\<lparr>se_pending_events := se_pending_events s @ [ev]\<rparr>"

definition upd_desired :: "(Desired \<Rightarrow> Desired) \<Rightarrow> 'j AcpSession \<Rightarrow> 'j AcpSession" where
  "upd_desired f s = s\<lparr>se_desired := f (se_desired s)\<rparr>"

definition upd_observed :: "(Observed \<Rightarrow> Observed) \<Rightarrow> 'j AcpSession \<Rightarrow> 'j AcpSession" where
  "upd_observed f s = s\<lparr>se_observed := f (se_observed s)\<rparr>"

definition upd_advertised :: "('j Advertised \<Rightarrow> 'j Advertised) \<Rightarrow> 'j AcpSession \<Rightarrow> 'j AcpSession" where
  "upd_advertised f s = s\<lparr>se_advertised := f (se_advertised s)\<rparr>"

section \<open>Identity and lifecycle\<close>

definition try_begin_config_set :: "'j AcpSession \<Rightarrow> bool \<times> 'j AcpSession" where
  "try_begin_config_set s =
     (if \<not> se_config_set_in_flight s then (True, s\<lparr>se_config_set_in_flight := True\<rparr>) else (False, s))"

definition drop_config_set_guard :: "'j AcpSession \<Rightarrow> 'j AcpSession" where
  "drop_config_set_guard s = s\<lparr>se_config_set_in_flight := False\<rparr>"

definition set_session_id :: "string \<Rightarrow> 'j AcpSession \<Rightarrow> 'j AcpSession" where
  "set_session_id sid s =
     (if se_session_id s \<noteq> None then s else emit (SessionAssigned sid) (s\<lparr>se_session_id := Some sid\<rparr>))"

definition clear_session_id :: "'j AcpSession \<Rightarrow> 'j AcpSession" where
  "clear_session_id s = s\<lparr>se_session_id := None, se_opened := False, se_last_close_reason := None\<rparr>"

definition record_close_reason :: "CloseReason option \<Rightarrow> 'j AcpSession \<Rightarrow> 'j AcpSession" where
  "record_close_reason reason s = s\<lparr>se_last_close_reason := reason\<rparr>"

definition take_close_reason :: "'j AcpSession \<Rightarrow> CloseReason option \<times> 'j AcpSession" where
  "take_close_reason s = (se_last_close_reason s, s\<lparr>se_last_close_reason := None\<rparr>)"

definition mark_opened :: "'j AcpSession \<Rightarrow> 'j AcpSession" where
  "mark_opened s = (if \<not> se_opened s then emit SessionOpened (s\<lparr>se_opened := True\<rparr>) else s)"

definition mark_pending_session_new_prelude :: "'j AcpSession \<Rightarrow> 'j AcpSession" where
  "mark_pending_session_new_prelude s = s\<lparr>se_pending_session_new_prelude := True\<rparr>"

definition take_pending_session_new_prelude :: "'j AcpSession \<Rightarrow> bool \<times> 'j AcpSession" where
  "take_pending_session_new_prelude s = (se_pending_session_new_prelude s, s\<lparr>se_pending_session_new_prelude := False\<rparr>)"

section \<open>What the user wants\<close>

definition is_mode_valid :: "'j AcpSession \<Rightarrow> string \<Rightarrow> bool" where
  "is_mode_valid s mode \<longleftrightarrow>
     (case ad_modes (se_advertised s) of
        None \<Rightarrow> True
      | Some modes \<Rightarrow> available_modes modes = [] \<or> list_ex (\<lambda>m. sm_id m = mode) (available_modes modes))"

definition is_model_valid :: "'j AcpSession \<Rightarrow> string \<Rightarrow> bool" where
  "is_model_valid s model \<longleftrightarrow>
     (case ad_models (se_advertised s) of
        None \<Rightarrow> True
      | Some models \<Rightarrow> available_models models = [] \<or> list_ex (\<lambda>m. mi_model_id m = model) (available_models models))"

definition can_select_model :: "'j AcpSession \<Rightarrow> string \<Rightarrow> bool" where
  "can_select_model s model \<longleftrightarrow> model \<noteq> [] \<and> is_model_valid s model"

definition can_select_mode :: "'j AcpSession \<Rightarrow> string \<Rightarrow> bool" where
  "can_select_mode s mode \<longleftrightarrow> mode \<noteq> [] \<and> is_mode_valid s mode"

definition set_desired_mode :: "ModeId \<Rightarrow> 'j AcpSession \<Rightarrow> bool \<times> 'j AcpSession" where
  "set_desired_mode mode s =
     (if mode = [] then (False, s)
      else if \<not> is_mode_valid s mode then (False, s)
      else if ds_mode_id (se_desired s) = Some mode then (False, s)
      else (True, emit (DesiredModeChanged mode) (upd_desired (\<lambda>d. d\<lparr>ds_mode_id := Some mode\<rparr>) s)))"

definition set_desired_model :: "ModelId \<Rightarrow> 'j AcpSession \<Rightarrow> bool \<times> 'j AcpSession" where
  "set_desired_model model s =
     (if model = [] then (False, s)
      else if \<not> is_model_valid s model then (False, s)
      else if ds_model_id (se_desired s) = Some model then (False, s)
      else (True, emit (DesiredModelChanged model) (upd_desired (\<lambda>d. d\<lparr>ds_model_id := Some model\<rparr>) s)))"

definition clear_invalid_desired_model :: "'j AcpSession \<Rightarrow> ModelId option \<times> 'j AcpSession" where
  "clear_invalid_desired_model s =
     (case ds_model_id (se_desired s) of
        None \<Rightarrow> (None, s)
      | Some model \<Rightarrow>
          if is_model_valid s model then (None, s) else (Some model, upd_desired (\<lambda>d. d\<lparr>ds_model_id := None\<rparr>) s))"

definition clear_invalid_desired_mode :: "'j AcpSession \<Rightarrow> ModeId option \<times> 'j AcpSession" where
  "clear_invalid_desired_mode s =
     (case ds_mode_id (se_desired s) of
        None \<Rightarrow> (None, s)
      | Some mode \<Rightarrow>
          if is_mode_valid s mode then (None, s) else (Some mode, upd_desired (\<lambda>d. d\<lparr>ds_mode_id := None\<rparr>) s))"

definition set_desired_config :: "ConfigKey \<Rightarrow> ConfigValue \<Rightarrow> 'j AcpSession \<Rightarrow> 'j AcpSession" where
  "set_desired_config key val s =
     (let changed = (map_of (ds_config_selections (se_desired s)) key \<noteq> Some val);
          s = upd_desired (\<lambda>d. d\<lparr>ds_config_selections := AList.update key val (ds_config_selections d)\<rparr>) s
      in if changed then emit (DesiredConfigChanged (ds_config_selections (se_desired s))) s else s)"

definition seed_pending_startup_config :: "SessionConfigOptionCategory \<Rightarrow> ConfigValue \<Rightarrow> 'j AcpSession \<Rightarrow> 'j AcpSession" where
  "seed_pending_startup_config category val s =
     (if val = [] then s
      else if list_ex (\<lambda>seed. ps_category seed = category \<and> ps_value seed = val) (ds_pending_startup_config (se_desired s)) then s
      else upd_desired (\<lambda>d. d\<lparr>ds_pending_startup_config :=
        ds_pending_startup_config d @ [\<lparr>ps_category = category, ps_value = val\<rparr>]\<rparr>) s)"

fun config_option_aliases_for_category :: "SessionConfigOptionCategory \<Rightarrow> string list" where
  "config_option_aliases_for_category Mode = [''mode'', ''modes'']"
| "config_option_aliases_for_category Model = [''model'', ''models'']"
| "config_option_aliases_for_category ThoughtLevel =
     [''thought_level'', ''reasoning_effort'', ''effort'', ''thinking_budget'', ''thinking'']"
| "config_option_aliases_for_category (OtherCategory _) = []"

definition select_option_for_startup_seed ::
  "SessionConfigOption list \<Rightarrow> SessionConfigOptionCategory \<Rightarrow> SessionConfigOption option" where
  "select_option_for_startup_seed options category =
     (case find (\<lambda>opt. co_category opt = Some category) options of
        Some opt \<Rightarrow> Some opt
      | None \<Rightarrow> find (\<lambda>opt. co_id opt \<in> set (config_option_aliases_for_category category)) options)"

fun select_option_values :: "SessionConfigKind \<Rightarrow> string list" where
  "select_option_values (Select select) = map so_value (flatten_select_options (sel_options select))"
| "select_option_values OtherKind = []"

definition select_option_contains_value :: "SessionConfigKind \<Rightarrow> string \<Rightarrow> bool" where
  "select_option_contains_value kind val \<longleftrightarrow>
     (case kind of
        Select select \<Rightarrow> list_ex (\<lambda>opt. so_value opt = val) (flatten_select_options (sel_options select))
      | OtherKind \<Rightarrow> False)"

fun clear_legacy_desired_for_config_category :: "SessionConfigOptionCategory \<Rightarrow> 'j AcpSession \<Rightarrow> 'j AcpSession" where
  "clear_legacy_desired_for_config_category Mode s = upd_desired (\<lambda>d. d\<lparr>ds_mode_id := None\<rparr>) s"
| "clear_legacy_desired_for_config_category Model s = upd_desired (\<lambda>d. d\<lparr>ds_model_id := None\<rparr>) s"
| "clear_legacy_desired_for_config_category _ s = s"

definition handle_unresolved_startup_config_seed :: "PendingStartupConfigSeed \<Rightarrow> bool \<Rightarrow> 'j AcpSession \<Rightarrow> 'j AcpSession" where
  "handle_unresolved_startup_config_seed seed option_was_advertised s =
     (case ps_category seed of
        ThoughtLevel \<Rightarrow> if \<not> option_was_advertised then seed_pending_startup_config ThoughtLevel (ps_value seed) s else s
      | OtherCategory _ \<Rightarrow> s
      | category \<Rightarrow> if \<not> option_was_advertised then s else clear_legacy_desired_for_config_category category s)"

definition resolve_seed ::
  "(string \<Rightarrow> string list \<Rightarrow> string) \<Rightarrow> PendingStartupConfigSeed \<Rightarrow> 'j AcpSession
   \<Rightarrow> PendingStartupConfigSeedResult \<times> 'j AcpSession" where
  "resolve_seed mode_normalizer seed s =
     (case Option.bind (ad_config_options (se_advertised s)) (\<lambda>options. select_option_for_startup_seed options (ps_category seed)) of
        None \<Rightarrow> (OptionNotAdvertised (ps_category seed), handle_unresolved_startup_config_seed seed False s)
      | Some opt \<Rightarrow>
          let resolved = (if ps_category seed = Mode then mode_normalizer (ps_value seed) (select_option_values (co_kind opt))
                else ps_value seed)
          in if \<not> select_option_contains_value (co_kind opt) resolved
             then (ValueNotSelectableFor (ps_category seed), handle_unresolved_startup_config_seed seed True s)
             else (Applied (ps_category seed) (co_id opt),
               set_desired_config (co_id opt) resolved (clear_legacy_desired_for_config_category (ps_category seed) s)))"

fun resolve_seeds ::
  "(string \<Rightarrow> string list \<Rightarrow> string) \<Rightarrow> PendingStartupConfigSeed list \<Rightarrow> 'j AcpSession
   \<Rightarrow> PendingStartupConfigSeedResult list \<times> 'j AcpSession" where
  "resolve_seeds mode_normalizer [] s = ([], s)"
| "resolve_seeds mode_normalizer (seed # seeds) s =
     (let (result, s) = resolve_seed mode_normalizer seed s; (results, s) = resolve_seeds mode_normalizer seeds s
      in (result # results, s))"

definition resolve_pending_startup_config_seeds_with_mode_normalizer ::
  "(string \<Rightarrow> string list \<Rightarrow> string) \<Rightarrow> 'j AcpSession \<Rightarrow> PendingStartupConfigSeedResult list \<times> 'j AcpSession" where
  "resolve_pending_startup_config_seeds_with_mode_normalizer mode_normalizer s =
     resolve_seeds mode_normalizer (ds_pending_startup_config (se_desired s))
       (upd_desired (\<lambda>d. d\<lparr>ds_pending_startup_config := []\<rparr>) s)"

section \<open>What the agent reports\<close>

definition apply_observed_mode :: "ModeId \<Rightarrow> 'j AcpSession \<Rightarrow> 'j AcpSession" where
  "apply_observed_mode mode s =
     (let changed = (ob_mode_id (se_observed s) \<noteq> Some mode);
          available = (case ad_modes (se_advertised s) of Some m \<Rightarrow> available_modes m | None \<Rightarrow> []);
          s = upd_observed (\<lambda>ob. ob\<lparr>ob_mode_id := Some mode\<rparr>) s;
          s = upd_advertised (\<lambda>a. a\<lparr>ad_modes := Some \<lparr>current_mode_id = mode, available_modes = available\<rparr>\<rparr>) s
      in if changed then emit (ObservedModeSynced mode) s else s)"

definition apply_observed_model :: "ModelId \<Rightarrow> 'j AcpSession \<Rightarrow> 'j AcpSession" where
  "apply_observed_model model s =
     (let changed = (ob_model_id (se_observed s) \<noteq> Some model);
          available = (case ad_models (se_advertised s) of Some m \<Rightarrow> available_models m | None \<Rightarrow> []);
          s = upd_observed (\<lambda>ob. ob\<lparr>ob_model_id := Some model\<rparr>) s;
          s = upd_advertised (\<lambda>a. a\<lparr>ad_models := Some \<lparr>current_model_id = model, available_models = available\<rparr>\<rparr>) s
      in if changed then emit (ObservedModelSynced model) s else s)"

definition confirm_mode :: "ModeId \<Rightarrow> 'j AcpSession \<Rightarrow> 'j AcpSession" where
  "confirm_mode mode s = apply_observed_mode mode (upd_desired (\<lambda>d. d\<lparr>ds_mode_id := Some mode\<rparr>) s)"

definition confirm_model :: "ModelId \<Rightarrow> 'j AcpSession \<Rightarrow> 'j AcpSession" where
  "confirm_model model s = apply_observed_model model (upd_desired (\<lambda>d. d\<lparr>ds_model_id := Some model\<rparr>) s)"

definition apply_observed_config :: "ConfigKey \<Rightarrow> ConfigValue \<Rightarrow> 'j AcpSession \<Rightarrow> 'j AcpSession" where
  "apply_observed_config key val s =
     (let changed = (map_of (ob_config_current (se_observed s)) key \<noteq> Some val);
          s = upd_observed (\<lambda>ob. ob\<lparr>ob_config_current := AList.update key val (ob_config_current ob)\<rparr>) s
      in if changed then emit (ObservedConfigSynced (ob_config_current (se_observed s))) s else s)"

definition preserve_existing_mode_catalog_if_empty :: "'j AcpSession \<Rightarrow> SessionModeState \<Rightarrow> SessionModeState" where
  "preserve_existing_mode_catalog_if_empty s modes =
     (case ad_modes (se_advertised s) of
        Some existing \<Rightarrow> if available_modes modes = [] \<and> available_modes existing \<noteq> []
          then modes\<lparr>available_modes := available_modes existing\<rparr> else modes
      | None \<Rightarrow> modes)"

definition preserve_existing_model_catalog_if_empty :: "'j AcpSession \<Rightarrow> SessionModelState \<Rightarrow> SessionModelState" where
  "preserve_existing_model_catalog_if_empty s models =
     (case ad_models (se_advertised s) of
        Some existing \<Rightarrow> if available_models models = [] \<and> available_models existing \<noteq> []
          then models\<lparr>available_models := available_models existing\<rparr> else models
      | None \<Rightarrow> models)"

definition apply_advertised_modes :: "SessionModeState \<Rightarrow> 'j AcpSession \<Rightarrow> 'j AcpSession" where
  "apply_advertised_modes modes s =
     (let modes = preserve_existing_mode_catalog_if_empty s modes;
          new_id = current_mode_id modes;
          changed = (ob_mode_id (se_observed s) \<noteq> Some new_id);
          s = upd_observed (\<lambda>ob. ob\<lparr>ob_mode_id := Some new_id\<rparr>) s;
          s = upd_advertised (\<lambda>a. a\<lparr>ad_modes := Some modes\<rparr>) s
      in if changed then emit (ObservedModeSynced new_id) s else s)"

definition apply_advertised_models :: "SessionModelState \<Rightarrow> 'j AcpSession \<Rightarrow> 'j AcpSession" where
  "apply_advertised_models models s =
     (let models = preserve_existing_model_catalog_if_empty s models;
          new_id = current_model_id models;
          changed = (ob_model_id (se_observed s) \<noteq> Some new_id);
          s = upd_observed (\<lambda>ob. ob\<lparr>ob_model_id := Some new_id\<rparr>) s;
          s = upd_advertised (\<lambda>a. a\<lparr>ad_models := Some models\<rparr>) s
      in if changed then emit (ObservedModelSynced new_id) s else s)"

definition preserve_desired_model_in_catalog :: "'j AcpSession \<Rightarrow> SessionModelState \<Rightarrow> SessionModelState" where
  "preserve_desired_model_in_catalog s models =
     (case ds_model_id (se_desired s) of
        None \<Rightarrow> models
      | Some desired \<Rightarrow>
          if current_model_id models = desired then models
          else if list_ex (\<lambda>m. mi_model_id m = desired) (available_models models)
          then \<lparr>current_model_id = desired, available_models = available_models models\<rparr>
          else models)"

fun extract_config_current_value :: "SessionConfigKind \<Rightarrow> string option" where
  "extract_config_current_value (Select sel) = Some (sel_current_value sel)"
| "extract_config_current_value OtherKind = None"

fun observe_options :: "SessionConfigOption list \<Rightarrow> Selections \<Rightarrow> bool \<times> Selections" where
  "observe_options [] current = (False, current)"
| "observe_options (opt # options) current =
     (case extract_config_current_value (co_kind opt) of
        None \<Rightarrow> observe_options options current
      | Some val \<Rightarrow>
          let (changed, current') = observe_options options (AList.update (co_id opt) val current)
          in (changed \<or> map_of current (co_id opt) \<noteq> Some val, current'))"

definition apply_advertised_config_options :: "SessionConfigOption list \<Rightarrow> 'j AcpSession \<Rightarrow> 'j AcpSession" where
  "apply_advertised_config_options options s =
     (let options = merge_config_options (ad_config_options (se_advertised s)) options;
          s = (case derive_modes_from_config_options options of Some modes \<Rightarrow> apply_advertised_modes modes s | None \<Rightarrow> s);
          s = (case derive_models_from_config_options options of
                 Some models \<Rightarrow> apply_advertised_models (preserve_desired_model_in_catalog s models) s | None \<Rightarrow> s);
          (changed, current) = observe_options options (ob_config_current (se_observed s));
          s = upd_observed (\<lambda>ob. ob\<lparr>ob_config_current := current\<rparr>) s;
          s = upd_advertised (\<lambda>a. a\<lparr>ad_config_options := Some options\<rparr>) s
      in if changed then emit (ObservedConfigSynced (ob_config_current (se_observed s))) s else s)"

definition apply_advertised_capabilities :: "'j \<Rightarrow> 'j AcpSession \<Rightarrow> 'j AcpSession" where
  "apply_advertised_capabilities caps = upd_advertised (\<lambda>a. a\<lparr>ad_agent_capabilities := Some caps\<rparr>)"

definition apply_advertised_auth_methods :: "'j list \<Rightarrow> 'j AcpSession \<Rightarrow> 'j AcpSession" where
  "apply_advertised_auth_methods methods = upd_advertised (\<lambda>a. a\<lparr>ad_auth_methods := Some methods\<rparr>)"

definition apply_advertised_commands :: "'j list \<Rightarrow> 'j AcpSession \<Rightarrow> 'j AcpSession" where
  "apply_advertised_commands commands = upd_advertised (\<lambda>a. a\<lparr>ad_available_commands := Some commands\<rparr>)"

definition apply_context_usage :: "'j \<Rightarrow> 'j AcpSession \<Rightarrow> 'j AcpSession" where
  "apply_context_usage usage s =
     (let changed = (ad_context_usage (se_advertised s) \<noteq> Some usage);
          s = upd_advertised (\<lambda>a. a\<lparr>ad_context_usage := Some usage\<rparr>) s
      in if changed then emit (ObservedContextUsageChanged usage) s else s)"

definition config_snapshot :: "'j AcpSession \<Rightarrow> ConfigSnapshot" where
  "config_snapshot s =
     (case ad_config_options (se_advertised s) of
        Some options \<Rightarrow> from_real_options_with_runtime_supplements options (ad_modes (se_advertised s)) (ad_models (se_advertised s))
      | None \<Rightarrow> from_legacy_catalogs (ad_modes (se_advertised s)) (ad_models (se_advertised s)))"

section \<open>Preloading\<close>

record 'j PersistedSessionState =
  pe_current_mode_id :: "ModeId option"
  pe_current_model_id :: "ModelId option"
  pe_config_selections :: Selections
  pe_context_usage :: "'j option"

definition preload_persisted :: "'j PersistedSessionState \<Rightarrow> 'j AcpSession \<Rightarrow> 'j AcpSession" where
  "preload_persisted st s =
     (let s = (case pe_current_mode_id st of
            Some mode \<Rightarrow>
              let available = (case ad_modes (se_advertised s) of Some m \<Rightarrow> available_modes m | None \<Rightarrow> [])
              in upd_observed (\<lambda>ob. ob\<lparr>ob_mode_id := Some mode\<rparr>) (upd_advertised (\<lambda>a. a\<lparr>ad_modes :=
                   Some \<lparr>current_mode_id = mode, available_modes = available\<rparr>\<rparr>) s)
          | None \<Rightarrow> s);
          s = (case pe_current_model_id st of
            Some model \<Rightarrow>
              let available = (case ad_models (se_advertised s) of Some m \<Rightarrow> available_models m | None \<Rightarrow> [])
              in upd_observed (\<lambda>ob. ob\<lparr>ob_model_id := Some model\<rparr>) (upd_advertised (\<lambda>a. a\<lparr>ad_models :=
                   Some \<lparr>current_model_id = model, available_models = available\<rparr>\<rparr>) s)
          | None \<Rightarrow> s);
          s = (if pe_config_selections st \<noteq> [] then upd_observed (\<lambda>ob. ob\<lparr>ob_config_current := pe_config_selections st\<rparr>) s else s)
      in case pe_context_usage st of
           Some usage \<Rightarrow> upd_advertised (\<lambda>a. a\<lparr>ad_context_usage := Some usage\<rparr>) s
         | None \<Rightarrow> s)"

definition mode_catalog_with_session_current :: "'j AcpSession \<Rightarrow> SessionModeState \<Rightarrow> SessionModeState" where
  "mode_catalog_with_session_current s modes =
     (case (case ob_mode_id (se_observed s) of Some m \<Rightarrow> Some m | None \<Rightarrow> ds_mode_id (se_desired s)) of
        Some current \<Rightarrow> if list_ex (\<lambda>m. sm_id m = current) (available_modes modes) then modes\<lparr>current_mode_id := current\<rparr> else modes
      | None \<Rightarrow> modes)"

definition model_catalog_with_session_current :: "'j AcpSession \<Rightarrow> SessionModelState \<Rightarrow> SessionModelState" where
  "model_catalog_with_session_current s models =
     (case (case ob_model_id (se_observed s) of Some m \<Rightarrow> Some m | None \<Rightarrow> ds_model_id (se_desired s)) of
        Some current \<Rightarrow> if list_ex (\<lambda>m. mi_model_id m = current) (available_models models)
          then models\<lparr>current_model_id := current\<rparr> else models
      | None \<Rightarrow> models)"

definition preload_advertised_catalogs ::
  "SessionModeState option \<Rightarrow> SessionModelState option \<Rightarrow> 'j AcpSession \<Rightarrow> CatalogPreloadSummary \<times> 'j AcpSession" where
  "preload_advertised_catalogs modes models s =
     (let summary = \<lparr>pl_mode_preloaded = False, pl_model_preloaded = False, pl_mode_catalog_count = 0, pl_model_catalog_count = 0\<rparr>;
          (summary, s) = (case modes of
              Some modes \<Rightarrow>
                if available_modes modes \<noteq> []
                   \<and> (case ad_modes (se_advertised s) of None \<Rightarrow> True | Some existing \<Rightarrow> available_modes existing = [])
                then (summary\<lparr>pl_mode_preloaded := True, pl_mode_catalog_count := length (available_modes modes)\<rparr>,
                  upd_advertised (\<lambda>a. a\<lparr>ad_modes := Some (mode_catalog_with_session_current s modes)\<rparr>) s)
                else (summary, s)
            | None \<Rightarrow> (summary, s))
      in case models of
           Some models \<Rightarrow>
             if available_models models \<noteq> []
                \<and> (case ad_models (se_advertised s) of None \<Rightarrow> True | Some existing \<Rightarrow> available_models existing = [])
             then (summary\<lparr>pl_model_preloaded := True, pl_model_catalog_count := length (available_models models)\<rparr>,
               upd_advertised (\<lambda>a. a\<lparr>ad_models := Some (model_catalog_with_session_current s models)\<rparr>) s)
             else (summary, s)
         | None \<Rightarrow> (summary, s))"

section \<open>Reconciling\<close>

datatype ReconcileAction = SetMode ModeId | SetModel ModelId | SetConfigOption ConfigKey ConfigValue

definition plan_reconcile :: "'j AcpSession \<Rightarrow> ReconcileAction list" where
  "plan_reconcile s =
     (case ds_mode_id (se_desired s) of
        Some mode \<Rightarrow> if ob_mode_id (se_observed s) \<noteq> Some mode then [SetMode mode] else []
      | None \<Rightarrow> [])
     @ (case ds_model_id (se_desired s) of
        Some model \<Rightarrow> if ob_model_id (se_observed s) \<noteq> Some model then [SetModel model] else []
      | None \<Rightarrow> [])
     @ map (\<lambda>(key, val). SetConfigOption key val)
         (filter (\<lambda>(key, val). map_of (ob_config_current (se_observed s)) key \<noteq> Some val) (ds_config_selections (se_desired s)))"

definition drain_events :: "'j AcpSession \<Rightarrow> 'j AcpSessionEvent list \<times> 'j AcpSession" where
  "drain_events s = (se_pending_events s, s\<lparr>se_pending_events := []\<rparr>)"

text \<open>
  A notification of the agent, as \<open>apply_event_to_session\<close> takes it in, with an arm for each event it matches. ACP has no notification
  for \<open>ModelInfoUpdate\<close>: \<open>translate.rs\<close> does not produce that event, and no theorem relies on one.
\<close>

datatype 'j SessionUpdate =
    ModeInfo SessionModeState
  | CurrentMode ModeId
  | ModelInfoUpdate SessionModelState
  | ConfigOptions "SessionConfigOption list"
  | ContextUsage 'j
  | AvailableCommands "'j list"

fun apply_event_to_session :: "'j SessionUpdate \<Rightarrow> 'j AcpSession \<Rightarrow> 'j AcpSession" where
  "apply_event_to_session (ModeInfo update) s = apply_advertised_modes update s"
| "apply_event_to_session (CurrentMode mode) s = apply_observed_mode mode s"
| "apply_event_to_session (ModelInfoUpdate update) s = apply_advertised_models update s"
| "apply_event_to_session (ConfigOptions update) s = apply_advertised_config_options update s"
| "apply_event_to_session (ContextUsage usage) s = apply_context_usage usage s"
| "apply_event_to_session (AvailableCommands commands) s = apply_advertised_commands commands s"

datatype AcpError =
    SpawnFailed string
  | StartupCrash "int option" "string option" string
  | Disconnected "int option" "string option" string
  | AuthRequired
  | ProtocolParseError string
  | InvalidRequest string
  | SessionNotFound string
  | ResourceNotFound "string option" string
  | MethodNotFound string
  | InvalidParams string
  | AgentInternal string int "string option"
  | OtherProtocolError int string "string option"
  | NotConnected
  | InitTimeout u64
  | RequestTimeout string u64

fun is_acp_session_not_found :: "AcpError \<Rightarrow> bool" where
  "is_acp_session_not_found (SessionNotFound _) = True"
| "is_acp_session_not_found _ = False"

definition is_missing_resumed_session :: "AcpError \<Rightarrow> string \<Rightarrow> bool" where
  "is_missing_resumed_session err resumed_session_id \<longleftrightarrow>
     is_acp_session_not_found err
     \<or> (case err of ResourceNotFound (Some resource) _ \<Rightarrow> resource = resumed_session_id | _ \<Rightarrow> False)"

text \<open>
  The requests, and the agent: its reply to a request, with the options it returns for a config option, and the
  notifications that are taken in while the request is under way.
\<close>

datatype AcpRequest = ReqSetMode string | ReqSetModel string | ReqSetConfigOption string string

record 'j AcpAgent =
  ag_reply :: "nat \<Rightarrow> AcpRequest \<Rightarrow> AcpError + SessionConfigOption list"
  ag_updates :: "nat \<Rightarrow> AcpRequest \<Rightarrow> 'j SessionUpdate list"

record 'j Reconciler =
  rc_session :: "'j AcpSession"
  rc_requests :: "AcpRequest list"
  rc_sent_events :: "'j AcpSessionEvent list"

definition commit_session_changes :: "'j Reconciler \<Rightarrow> 'j Reconciler" where
  "commit_session_changes r =
     (let (events, s) = drain_events (rc_session r) in r\<lparr>rc_session := s, rc_sent_events := rc_sent_events r @ events\<rparr>)"

definition take_updates :: "'j SessionUpdate list \<Rightarrow> 'j Reconciler \<Rightarrow> 'j Reconciler" where
  "take_updates us r =
     fold (\<lambda>u r. commit_session_changes (r\<lparr>rc_session := apply_event_to_session u (rc_session r)\<rparr>)) us r"

definition request :: "'j AcpAgent \<Rightarrow> AcpRequest \<Rightarrow> 'j Reconciler \<Rightarrow> (AcpError + SessionConfigOption list) \<times> 'j Reconciler" where
  "request agent req r =
     (let n = length (rc_requests r)
      in (ag_reply agent n req, take_updates (ag_updates agent n req) (r\<lparr>rc_requests := rc_requests r @ [req]\<rparr>)))"

definition MAX_RECONCILE_ACTIONS :: nat where
  "MAX_RECONCILE_ACTIONS = 8"

definition normalizer :: "AgentMetadata \<Rightarrow> string \<Rightarrow> string list \<Rightarrow> string" where
  "normalizer md = normalize_requested_mode_for_available_values md"

definition plan_session :: "AgentMetadata \<Rightarrow> 'j AcpSession \<Rightarrow> ReconcileAction list \<times> 'j AcpSession" where
  "plan_session md s =
     (let (_, s) = resolve_pending_startup_config_seeds_with_mode_normalizer (normalizer md) s;
          (_, s) = clear_invalid_desired_mode s;
          (_, s) = clear_invalid_desired_model s
      in (plan_reconcile s, s))"

text \<open>
  One action: \<open>Inl\<close> an error that ends the loop, otherwise the actions that replace the rest, if any.
\<close>

fun reconcile_action ::
  "'j AcpAgent \<Rightarrow> AgentMetadata \<Rightarrow> ReconcileAction \<Rightarrow> 'j Reconciler
   \<Rightarrow> (AcpError + ReconcileAction list option) \<times> 'j Reconciler" where
  "reconcile_action agent md (SetMode mode) r =
     (let normalized = normalizer md mode (selectable_values (config_snapshot (rc_session r)) ''mode'')
      in if normalized = [] then (Inr None, r)
         else case request agent (ReqSetMode normalized) r of
             (Inl e, r) \<Rightarrow> (if is_acp_session_not_found e then Inl e else Inr None, r)
           | (Inr _, r) \<Rightarrow> (Inr None, r))"
| "reconcile_action agent md (SetModel model) r =
     (case request agent (ReqSetModel model) r of
        (Inl e, r) \<Rightarrow> (if is_acp_session_not_found e then Inl e else Inr None, r)
      | (Inr _, r) \<Rightarrow> (Inr None, r))"
| "reconcile_action agent md (SetConfigOption key val) r =
     (let resolved = (if key = ''mode''
            then normalizer md val (selectable_values (config_snapshot (rc_session r)) ''mode'') else trim val);
          r = (if key = ''mode'' \<and> resolved \<noteq> val then r\<lparr>rc_session := set_desired_config key resolved (rc_session r)\<rparr> else r)
      in case request agent (ReqSetConfigOption key resolved) r of
           (Inl e, r) \<Rightarrow> (if is_acp_session_not_found e then Inl e else Inr None, r)
         | (Inr options, r) \<Rightarrow>
             let (followup, s) = plan_session md (apply_advertised_config_options options (rc_session r))
             in (Inr (Some (filter (\<lambda>a. a \<noteq> SetConfigOption key val) followup)), commit_session_changes (r\<lparr>rc_session := s\<rparr>)))"

function reconcile_loop ::
  "'j AcpAgent \<Rightarrow> AgentMetadata \<Rightarrow> nat \<Rightarrow> ReconcileAction list \<Rightarrow> 'j Reconciler \<Rightarrow> (AcpError + unit) \<times> 'j Reconciler" where
  "reconcile_loop agent md executed [] r = (Inr (), r)"
| "reconcile_loop agent md executed (action # actions) r =
     (if executed + 1 > MAX_RECONCILE_ACTIONS then (Inr (), r)
      else case reconcile_action agent md action r of
          (Inl e, r) \<Rightarrow> (Inl e, r)
        | (Inr None, r) \<Rightarrow> reconcile_loop agent md (executed + 1) actions r
        | (Inr (Some followup), r) \<Rightarrow> reconcile_loop agent md (executed + 1) followup r)"
  by pat_completeness auto
termination
  by (relation "measure (\<lambda>(agent, md, executed, actions, r). MAX_RECONCILE_ACTIONS - executed)") auto

definition reconcile_session :: "'j AcpAgent \<Rightarrow> AgentMetadata \<Rightarrow> 'j Reconciler \<Rightarrow> (AcpError + unit) \<times> 'j Reconciler" where
  "reconcile_session agent md r =
     (let (actions, s) = plan_session md (rc_session r)
      in reconcile_loop agent md 0 actions (r\<lparr>rc_session := s\<rparr>))"

end
