(* ===== verification/Acp_Session_Sync.thy ===== *)
theory Acp_Session_Sync
  imports Acp_Session
begin

text \<open>
  The persistence of what an ACP session reported (\<open>crates/tjuaeui-ai-agent/src/persistence/acp_session_sync.rs\<close>, with
  the statements of \<open>tjuaeui-db/src/repository/sqlite_acp_session.rs\<close>): a consumer gathers the events of a session and
  writes them after a pause of half a second.

  The table is an association list by conversation. The \<open>runtime\<close> object of a row's JSON is a record of its four fields,
  JSON text is the value it encodes, and rows hold JSON that this code wrote; the columns that are not read back here are left out. Each access of the database succeeds or
  fails by an argument. The consumer is a step for each input: an event at its time, the end of the pause, the end of the channel.
\<close>

section \<open>Rows\<close>

record 'j RuntimeState =
  rt_current_mode_id :: "string option"
  rt_current_model_id :: "string option"
  rt_config_selections :: "Selections option"
  rt_context_usage :: "'j option"

record 'j AcpSessionRow =
  ar_session_id :: "string option"
  ar_runtime :: "'j RuntimeState"

type_synonym 'j AcpSessionTable = "(string \<times> 'j AcpSessionRow) list"

record 'j SaveRuntimeStateParams =
  sp_current_mode_id :: "string option option"
  sp_current_model_id :: "string option option"
  sp_config_selections_json :: "Selections option option"
  sp_context_usage_json :: "'j option option"

definition params_is_empty :: "'j SaveRuntimeStateParams \<Rightarrow> bool" where
  "params_is_empty p \<longleftrightarrow> sp_current_mode_id p = None \<and> sp_current_model_id p = None
     \<and> sp_config_selections_json p = None \<and> sp_context_usage_json p = None"

definition create_row :: "bool \<Rightarrow> string \<Rightarrow> 'j AcpSessionTable \<Rightarrow> bool \<times> 'j AcpSessionTable" where
  "create_row ok conv db =
     (if \<not> ok \<or> map_of db conv \<noteq> None then (False, db)
      else (True, db @ [(conv, \<lparr>ar_session_id = None, ar_runtime = \<lparr>rt_current_mode_id = None, rt_current_model_id = None,
        rt_config_selections = None, rt_context_usage = None\<rparr>\<rparr>)]))"

text \<open>The updates return whether a row was changed; \<open>None\<close> is an error.\<close>

definition update_session_id :: "bool \<Rightarrow> string \<Rightarrow> string \<Rightarrow> 'j AcpSessionTable \<Rightarrow> bool option \<times> 'j AcpSessionTable" where
  "update_session_id ok conv sid db =
     (if \<not> ok then (None, db)
      else (Some (map_of db conv \<noteq> None), AList.map_entry conv (\<lambda>row. row\<lparr>ar_session_id := Some sid\<rparr>) db))"

definition repo_clear_session_id :: "bool \<Rightarrow> string \<Rightarrow> 'j AcpSessionTable \<Rightarrow> bool option \<times> 'j AcpSessionTable" where
  "repo_clear_session_id ok conv db =
     (if \<not> ok then (None, db)
      else (Some (map_of db conv \<noteq> None), AList.map_entry conv (\<lambda>row. row\<lparr>ar_session_id := None\<rparr>) db))"

definition delete_row :: "bool \<Rightarrow> string \<Rightarrow> 'j AcpSessionTable \<Rightarrow> bool option \<times> 'j AcpSessionTable" where
  "delete_row ok conv db = (if \<not> ok then (None, db) else (Some (map_of db conv \<noteq> None), AList.delete conv db))"

definition load_runtime_state :: "bool \<Rightarrow> string \<Rightarrow> 'j AcpSessionTable \<Rightarrow> 'j RuntimeState option option" where
  "load_runtime_state ok conv db = (if \<not> ok then None else Some (map_option ar_runtime (map_of db conv)))"

definition merge_runtime :: "'j SaveRuntimeStateParams \<Rightarrow> 'j RuntimeState \<Rightarrow> 'j RuntimeState" where
  "merge_runtime p rt =
     \<lparr>rt_current_mode_id = (case sp_current_mode_id p of Some v \<Rightarrow> v | None \<Rightarrow> rt_current_mode_id rt),
      rt_current_model_id = (case sp_current_model_id p of Some v \<Rightarrow> v | None \<Rightarrow> rt_current_model_id rt),
      rt_config_selections = (case sp_config_selections_json p of Some v \<Rightarrow> v | None \<Rightarrow> rt_config_selections rt),
      rt_context_usage = (case sp_context_usage_json p of Some v \<Rightarrow> v | None \<Rightarrow> rt_context_usage rt)\<rparr>"

definition save_runtime_state ::
  "bool \<Rightarrow> string \<Rightarrow> 'j SaveRuntimeStateParams \<Rightarrow> 'j AcpSessionTable \<Rightarrow> bool option \<times> 'j AcpSessionTable" where
  "save_runtime_state ok conv p db =
     (if params_is_empty p then (Some True, db)
      else if \<not> ok then (None, db)
      else case map_of db conv of
          None \<Rightarrow> (Some False, db)
        | Some row \<Rightarrow> (Some True, AList.map_entry conv (\<lambda>row. row\<lparr>ar_runtime := merge_runtime p (ar_runtime row)\<rparr>) db))"

section \<open>Loading\<close>

definition load_snapshot_state :: "bool \<Rightarrow> string \<Rightarrow> 'j AcpSessionTable \<Rightarrow> 'j PersistedSessionState option" where
  "load_snapshot_state ok conv db =
     (case load_runtime_state ok conv db of
        Some (Some row) \<Rightarrow> Some \<lparr>pe_current_mode_id = rt_current_mode_id row, pe_current_model_id = rt_current_model_id row,
          pe_config_selections = (case rt_config_selections row of Some m \<Rightarrow> m | None \<Rightarrow> []),
          pe_context_usage = rt_context_usage row\<rparr>
      | _ \<Rightarrow> None)"

definition load_session_id :: "bool \<Rightarrow> string \<Rightarrow> 'j AcpSessionTable \<Rightarrow> string option" where
  "load_session_id ok conv db = (if \<not> ok then None else Option.bind (map_of db conv) ar_session_id)"

section \<open>The consumer\<close>

definition DEBOUNCE_WINDOW :: int where
  "DEBOUNCE_WINDOW = 500"

record 'j PendingUpdate =
  pu_current_mode_id :: "string option option"
  pu_current_model_id :: "string option option"
  pu_config_selections_json :: "Selections option option"
  pu_context_usage_json :: "'j option option"

definition no_update :: "'j PendingUpdate" where
  "no_update = \<lparr>pu_current_mode_id = None, pu_current_model_id = None, pu_config_selections_json = None,
     pu_context_usage_json = None\<rparr>"

definition pending_is_empty :: "'j PendingUpdate \<Rightarrow> bool" where
  "pending_is_empty p \<longleftrightarrow> pu_current_mode_id p = None \<and> pu_current_model_id p = None
     \<and> pu_config_selections_json p = None \<and> pu_context_usage_json p = None"

definition as_save_params :: "'j PendingUpdate \<Rightarrow> 'j SaveRuntimeStateParams" where
  "as_save_params p = \<lparr>sp_current_mode_id = pu_current_mode_id p, sp_current_model_id = pu_current_model_id p,
     sp_config_selections_json = pu_config_selections_json p, sp_context_usage_json = pu_context_usage_json p\<rparr>"

fun merge_from_domain_event :: "'j AcpSessionEvent \<Rightarrow> 'j PendingUpdate \<Rightarrow> bool \<times> 'j PendingUpdate" where
  "merge_from_domain_event (ObservedModeSynced mode) p = (True, p\<lparr>pu_current_mode_id := Some (Some mode)\<rparr>)"
| "merge_from_domain_event (ObservedModelSynced model) p = (True, p\<lparr>pu_current_model_id := Some (Some model)\<rparr>)"
| "merge_from_domain_event (ObservedConfigSynced selections) p = (True, p\<lparr>pu_config_selections_json := Some (Some selections)\<rparr>)"
| "merge_from_domain_event (ObservedContextUsageChanged usage) p = (True, p\<lparr>pu_context_usage_json := Some (Some usage)\<rparr>)"
| "merge_from_domain_event _ p = (False, p)"

definition flush :: "bool \<Rightarrow> string \<Rightarrow> 'j PendingUpdate \<Rightarrow> 'j AcpSessionTable \<Rightarrow> 'j PendingUpdate \<times> 'j AcpSessionTable" where
  "flush ok conv p db =
     (if pending_is_empty p then (p, db) else (no_update, snd (save_runtime_state ok conv (as_save_params p) db)))"

record 'j Consumer =
  cn_pending :: "'j PendingUpdate"
  cn_flush_at :: "int option"

definition new_consumer :: "'j Consumer" where
  "new_consumer = \<lparr>cn_pending = no_update, cn_flush_at = None\<rparr>"

text \<open>The three ways the loop of \<open>domain_event_consumer\<close> goes on.\<close>

definition consume_event ::
  "bool \<Rightarrow> int \<Rightarrow> string \<Rightarrow> 'j AcpSessionEvent \<Rightarrow> 'j Consumer \<Rightarrow> 'j AcpSessionTable \<Rightarrow> 'j Consumer \<times> 'j AcpSessionTable" where
  "consume_event ok now conv ev c db =
     (case ev of
        SessionAssigned sid \<Rightarrow> (c, snd (update_session_id ok conv sid db))
      | _ \<Rightarrow> (let (merged, p) = merge_from_domain_event ev (cn_pending c)
              in (c\<lparr>cn_pending := p, cn_flush_at := (if merged then Some (now + DEBOUNCE_WINDOW) else cn_flush_at c)\<rparr>, db)))"

definition consume_pause ::
  "bool \<Rightarrow> int \<Rightarrow> string \<Rightarrow> 'j Consumer \<Rightarrow> 'j AcpSessionTable \<Rightarrow> 'j Consumer \<times> 'j AcpSessionTable" where
  "consume_pause ok now conv c db =
     (case cn_flush_at c of
        Some deadline \<Rightarrow>
          if deadline \<le> now then (let (p, db) = flush ok conv (cn_pending c) db in (\<lparr>cn_pending = p, cn_flush_at = None\<rparr>, db))
          else (c, db)
      | None \<Rightarrow> (c, db))"

definition consume_closed :: "bool \<Rightarrow> string \<Rightarrow> 'j Consumer \<Rightarrow> 'j AcpSessionTable \<Rightarrow> 'j Consumer \<times> 'j AcpSessionTable" where
  "consume_closed ok conv c db = (let (p, db) = flush ok conv (cn_pending c) db in (c\<lparr>cn_pending := p\<rparr>, db))"

section \<open>A session, its channel and its consumer\<close>

text \<open>
  The mutations of the aggregate after it was preloaded, the sending of its events and what the
  consumer does, in any order.
\<close>

datatype 'j SessionOp =
    DoSetSessionId string | DoClearSessionId | DoRecordCloseReason "CloseReason option" | DoTakeCloseReason
  | DoMarkOpened | DoMarkPrelude | DoTakePrelude | DoBeginConfigSet | DoDropConfigSet
  | DoSetDesiredMode ModeId | DoSetDesiredModel ModelId | DoClearInvalidMode | DoClearInvalidModel
  | DoSetDesiredConfig ConfigKey ConfigValue | DoSeed SessionConfigOptionCategory ConfigValue
  | DoResolveSeeds "string \<Rightarrow> string list \<Rightarrow> string"
  | DoObserveMode ModeId | DoObserveModel ModelId | DoConfirmMode ModeId | DoConfirmModel ModelId
  | DoObserveConfig ConfigKey ConfigValue | DoAdvertiseModes SessionModeState | DoAdvertiseModels SessionModelState
  | DoAdvertiseOptions "SessionConfigOption list" | DoCapabilities 'j | DoAuthMethods "'j list" | DoCommands "'j list"
  | DoContextUsage 'j | DoPreloadCatalogs "SessionModeState option" "SessionModelState option"

fun session_op :: "'j SessionOp \<Rightarrow> 'j AcpSession \<Rightarrow> 'j AcpSession" where
  "session_op (DoSetSessionId sid) s = set_session_id sid s"
| "session_op DoClearSessionId s = clear_session_id s"
| "session_op (DoRecordCloseReason reason) s = record_close_reason reason s"
| "session_op DoTakeCloseReason s = snd (take_close_reason s)"
| "session_op DoMarkOpened s = mark_opened s"
| "session_op DoMarkPrelude s = mark_pending_session_new_prelude s"
| "session_op DoTakePrelude s = snd (take_pending_session_new_prelude s)"
| "session_op DoBeginConfigSet s = snd (try_begin_config_set s)"
| "session_op DoDropConfigSet s = drop_config_set_guard s"
| "session_op (DoSetDesiredMode mode) s = snd (set_desired_mode mode s)"
| "session_op (DoSetDesiredModel model) s = snd (set_desired_model model s)"
| "session_op DoClearInvalidMode s = snd (clear_invalid_desired_mode s)"
| "session_op DoClearInvalidModel s = snd (clear_invalid_desired_model s)"
| "session_op (DoSetDesiredConfig key val) s = set_desired_config key val s"
| "session_op (DoSeed category val) s = seed_pending_startup_config category val s"
| "session_op (DoResolveSeeds f) s = snd (resolve_pending_startup_config_seeds_with_mode_normalizer f s)"
| "session_op (DoObserveMode mode) s = apply_observed_mode mode s"
| "session_op (DoObserveModel model) s = apply_observed_model model s"
| "session_op (DoConfirmMode mode) s = confirm_mode mode s"
| "session_op (DoConfirmModel model) s = confirm_model model s"
| "session_op (DoObserveConfig key val) s = apply_observed_config key val s"
| "session_op (DoAdvertiseModes modes) s = apply_advertised_modes modes s"
| "session_op (DoAdvertiseModels models) s = apply_advertised_models models s"
| "session_op (DoAdvertiseOptions options) s = apply_advertised_config_options options s"
| "session_op (DoCapabilities caps) s = apply_advertised_capabilities caps s"
| "session_op (DoAuthMethods methods) s = apply_advertised_auth_methods methods s"
| "session_op (DoCommands commands) s = apply_advertised_commands commands s"
| "session_op (DoContextUsage usage) s = apply_context_usage usage s"
| "session_op (DoPreloadCatalogs modes models) s = snd (preload_advertised_catalogs modes models s)"

record 'j SyncSystem =
  sy_session :: "'j AcpSession"
  sy_channel :: "'j AcpSessionEvent list"
  sy_consumer :: "'j Consumer"
  sy_table :: "'j AcpSessionTable"

datatype 'j SyncStep = Mutate "'j SessionOp" | Commit | Receive bool int | Pause bool int

fun sync_step :: "string \<Rightarrow> 'j SyncStep \<Rightarrow> 'j SyncSystem \<Rightarrow> 'j SyncSystem" where
  "sync_step conv (Mutate op) y = y\<lparr>sy_session := session_op op (sy_session y)\<rparr>"
| "sync_step conv Commit y =
     (let (events, s) = drain_events (sy_session y) in y\<lparr>sy_session := s, sy_channel := sy_channel y @ events\<rparr>)"
| "sync_step conv (Receive ok now) y =
     (case sy_channel y of
        [] \<Rightarrow> y
      | ev # events \<Rightarrow> (let (c, db) = consume_event ok now conv ev (sy_consumer y) (sy_table y)
          in y\<lparr>sy_channel := events, sy_consumer := c, sy_table := db\<rparr>))"
| "sync_step conv (Pause ok now) y =
     (let (c, db) = consume_pause ok now conv (sy_consumer y) (sy_table y) in y\<lparr>sy_consumer := c, sy_table := db\<rparr>)"

text \<open>The session ends: its last events are sent and received, then the consumer sees the end of the channel.\<close>

fun receive_all :: "string \<Rightarrow> bool \<Rightarrow> int \<Rightarrow> 'j AcpSessionEvent list \<Rightarrow> 'j Consumer \<Rightarrow> 'j AcpSessionTable
    \<Rightarrow> 'j Consumer \<times> 'j AcpSessionTable" where
  "receive_all conv ok now [] c db = (c, db)"
| "receive_all conv ok now (ev # events) c db = (let (c, db) = consume_event ok now conv ev c db in receive_all conv ok now events c db)"

definition session_ends :: "string \<Rightarrow> bool \<Rightarrow> int \<Rightarrow> 'j SyncSystem \<Rightarrow> 'j AcpSessionTable" where
  "session_ends conv ok now y =
     (let y = sync_step conv Commit y;
          (c, db) = receive_all conv ok now (sy_channel y) (sy_consumer y) (sy_table y)
      in snd (consume_closed ok conv c db))"

definition restored_session :: "string \<Rightarrow> 'j AcpSessionTable \<Rightarrow> 'j AcpSession \<Rightarrow> 'j AcpSession" where
  "restored_session conv db s = (case load_snapshot_state True conv db of Some st \<Rightarrow> preload_persisted st s | None \<Rightarrow> s)"

end
