(* ===== verification/Acp_Session_Props.thy ===== *)
theory Acp_Session_Props
  imports Acp_Session_Sync
begin

text \<open>
  What the persistence of an ACP session guarantees: the events a session emits tell all that changed in what it
  observed, the consumer writes what the events tell, and a new session that loads the row observes the
  same. A failed write is not repeated.
\<close>

section \<open>The events tell what changed\<close>

definition observed_state :: "'j AcpSession \<Rightarrow> 'j PersistedSessionState" where
  "observed_state s =
     \<lparr>pe_current_mode_id = ob_mode_id (se_observed s), pe_current_model_id = ob_model_id (se_observed s),
      pe_config_selections = ob_config_current (se_observed s), pe_context_usage = ad_context_usage (se_advertised s)\<rparr>"

fun project :: "'j AcpSessionEvent \<Rightarrow> 'j PersistedSessionState \<Rightarrow> 'j PersistedSessionState" where
  "project (ObservedModeSynced mode) st = st\<lparr>pe_current_mode_id := Some mode\<rparr>"
| "project (ObservedModelSynced model) st = st\<lparr>pe_current_model_id := Some model\<rparr>"
| "project (ObservedConfigSynced selections) st = st\<lparr>pe_config_selections := selections\<rparr>"
| "project (ObservedContextUsageChanged usage) st = st\<lparr>pe_context_usage := Some usage\<rparr>"
| "project _ st = st"

fun assigned :: "'j AcpSessionEvent \<Rightarrow> string option \<Rightarrow> string option" where
  "assigned (SessionAssigned sid) _ = Some sid"
| "assigned _ sid = sid"

text \<open>
  The session got from \<open>s\<close> to \<open>s'\<close> emitting events that tell the change of its observed state, and its id unless it was cleared.
\<close>

definition tracks :: "'j AcpSession \<Rightarrow> 'j AcpSession \<Rightarrow> bool" where
  "tracks s s' \<longleftrightarrow>
     (\<exists>evs. se_pending_events s' = se_pending_events s @ evs \<and> observed_state s' = fold project evs (observed_state s)
        \<and> se_session_id s' \<in> {None, fold assigned evs (se_session_id s)})"

lemma assigned_mono: "i \<in> {None, j} \<Longrightarrow> fold assigned evs i \<in> {None, fold assigned evs j}"
proof (induction evs arbitrary: i j)
  case Nil
  then show ?case by simp
next
  case (Cons ev evs)
  have "assigned ev i \<in> {None, assigned ev j}" using Cons.prems by (cases ev) auto
  then show ?case using Cons.IH by simp
qed

lemma tracks_trans:
  assumes "tracks a b" and "tracks b c"
  shows "tracks a c"
proof -
  obtain e1 e2 where
    e1: "se_pending_events b = se_pending_events a @ e1" "observed_state b = fold project e1 (observed_state a)"
      "se_session_id b \<in> {None, fold assigned e1 (se_session_id a)}"
    and e2: "se_pending_events c = se_pending_events b @ e2" "observed_state c = fold project e2 (observed_state b)"
      "se_session_id c \<in> {None, fold assigned e2 (se_session_id b)}"
    using assms unfolding tracks_def by blast
  then have "se_session_id c \<in> {None, fold assigned (e1 @ e2) (se_session_id a)}"
    using assigned_mono [OF e1(3), of e2] by auto
  with e1(1,2) e2(1,2) show ?thesis unfolding tracks_def by (intro exI [of _ "e1 @ e2"]) simp
qed

lemma tracks_refl: "tracks s s"
  unfolding tracks_def by (intro exI [of _ "[]"]) simp

interpretation tracking: extension tracks
  by unfold_locales (auto intro: tracks_refl tracks_trans)

text \<open>A change of what the events do not tell, and a change with the event that tells it.\<close>

lemma tracks_silent:
  "se_pending_events s' = se_pending_events s \<Longrightarrow> observed_state s' = observed_state s \<Longrightarrow>
   se_session_id s' \<in> {None, se_session_id s} \<Longrightarrow> tracks s s'"
  unfolding tracks_def by (intro exI [of _ "[]"]) simp

lemma tracks_emit:
  "se_pending_events s' = se_pending_events s \<Longrightarrow> observed_state s' = project ev (observed_state s) \<Longrightarrow>
   se_session_id s' \<in> {None, assigned ev (se_session_id s)} \<Longrightarrow> tracks s (emit ev s')"
  unfolding tracks_def emit_def observed_state_def by (intro exI [of _ "[ev]"]) simp

lemma tracks_if_changed:
  "se_pending_events s' = se_pending_events s \<Longrightarrow> observed_state s' = project ev (observed_state s) \<Longrightarrow>
   (\<not> changed \<Longrightarrow> observed_state s' = observed_state s) \<Longrightarrow> se_session_id s' = se_session_id s \<Longrightarrow>
   (\<And>i. assigned ev i = i) \<Longrightarrow> tracks s (if changed then emit ev s' else s')"
  by (simp add: tracks_emit tracks_silent)

lemmas session_upd_defs = upd_desired_def upd_observed_def upd_advertised_def observed_state_def

lemma observe_options_same: "\<not> fst (observe_options options current) \<Longrightarrow> snd (observe_options options current) = current"
  by (induction options current rule: observe_options.induct) (auto simp: update_same split: option.splits prod.splits)

lemma tracks_desired: "tracks s (upd_desired f s)"
  by (rule tracks_silent) (simp_all add: session_upd_defs)

lemma tracks_emit_desired:
  "(\<And>st. project ev st = st) \<Longrightarrow> (\<And>i. assigned ev i = i) \<Longrightarrow> tracks s (emit ev (upd_desired f s))"
  by (rule tracks_emit) (simp_all add: session_upd_defs)

lemma tracks_set_desired_config: "tracks s (set_desired_config key val s)"
  unfolding set_desired_config_def Let_def by (auto intro: tracks_desired tracks_emit_desired)

lemma tracks_seed: "tracks s (seed_pending_startup_config category val s)"
  unfolding seed_pending_startup_config_def by (auto intro: tracks_desired tracks_refl)

lemma tracks_clear_legacy: "tracks s (clear_legacy_desired_for_config_category category s)"
  by (cases "(category, s)" rule: clear_legacy_desired_for_config_category.cases)
    (auto intro: tracks_desired tracks_refl)

lemma tracks_resolve_seed: "tracks s (snd (resolve_seed f seed s))"
  unfolding resolve_seed_def handle_unresolved_startup_config_seed_def Let_def
  by (auto intro: tracks_refl tracks_seed tracks_desired tracks_set_desired_config
      tracks_trans [OF tracks_desired tracks_set_desired_config]
      split: option.splits SessionConfigOptionCategory.splits)

lemma tracks_resolve_seeds: "tracks s (snd (resolve_seeds f seeds s))"
proof (induction seeds arbitrary: s)
  case Nil
  then show ?case by (simp add: tracks_refl)
next
  case (Cons seed seeds)
  show ?case
    using tracks_trans [OF tracks_resolve_seed Cons.IH, of s f seed] by (simp add: split_beta Let_def)
qed

lemma tracks_observed_mode: "tracks s (apply_observed_mode mode s)"
  unfolding apply_observed_mode_def Let_def
  by (rule tracks_if_changed) (simp_all add: session_upd_defs)

lemma tracks_observed_model: "tracks s (apply_observed_model model s)"
  unfolding apply_observed_model_def Let_def
  by (rule tracks_if_changed) (simp_all add: session_upd_defs)

lemma tracks_advertised_modes: "tracks s (apply_advertised_modes modes s)"
  unfolding apply_advertised_modes_def Let_def
  by (rule tracks_if_changed) (simp_all add: session_upd_defs)

lemma tracks_advertised_models: "tracks s (apply_advertised_models models s)"
  unfolding apply_advertised_models_def Let_def
  by (rule tracks_if_changed) (simp_all add: session_upd_defs)

lemma tracks_observed_config: "tracks s (apply_observed_config key val s)"
  unfolding apply_observed_config_def Let_def
  by (rule tracks_if_changed) (simp_all add: session_upd_defs update_same)

lemma tracks_context_usage: "tracks s (apply_context_usage usage s)"
  unfolding apply_context_usage_def Let_def
  by (rule tracks_if_changed) (simp_all add: session_upd_defs)

lemma tracks_advertised_config_options: "tracks s (apply_advertised_config_options options s)"
proof -
  define opts where "opts = merge_config_options (ad_config_options (se_advertised s)) options"
  define s1 where "s1 = (case derive_modes_from_config_options opts of Some modes \<Rightarrow> apply_advertised_modes modes s | None \<Rightarrow> s)"
  define s2 where "s2 = (case derive_models_from_config_options opts of
      Some models \<Rightarrow> apply_advertised_models (preserve_desired_model_in_catalog s1 models) s1 | None \<Rightarrow> s1)"
  obtain changed current where obs: "observe_options opts (ob_config_current (se_observed s2)) = (changed, current)"
    by (cases "observe_options opts (ob_config_current (se_observed s2))")
  define s3 where "s3 = upd_advertised (\<lambda>a. a\<lparr>ad_config_options := Some opts\<rparr>) (upd_observed (\<lambda>ob. ob\<lparr>ob_config_current := current\<rparr>) s2)"
  have result: "apply_advertised_config_options options s =
      (if changed then emit (ObservedConfigSynced (ob_config_current (se_observed s3))) s3 else s3)"
    unfolding apply_advertised_config_options_def Let_def
      opts_def [symmetric] s1_def [symmetric] s2_def [symmetric] obs prod.case s3_def [symmetric] by (rule refl)
  have "tracks s s2"
    unfolding s2_def s1_def
    by (auto intro: tracks_refl tracks_trans tracks_advertised_modes tracks_advertised_models split: option.splits)
  moreover have "tracks s2 (apply_advertised_config_options options s)"
    using observe_options_same [of opts "ob_config_current (se_observed s2)"] obs unfolding result
    by (intro tracks_if_changed) (auto simp: session_upd_defs s3_def)
  ultimately show ?thesis by (rule tracks_trans)
qed

lemma tracks_preload_catalogs: "tracks s (snd (preload_advertised_catalogs modes models s))"
  unfolding preload_advertised_catalogs_def Let_def
  by (auto intro!: tracks_silent simp: session_upd_defs split: option.splits prod.splits if_splits)

lemma tracks_session_op: "tracks s (session_op op s)"
proof (cases op)
  case (DoResolveSeeds f)
  then show ?thesis
    using tracks_trans [OF tracks_desired tracks_resolve_seeds]
    by (simp add: resolve_pending_startup_config_seeds_with_mode_normalizer_def)
next
  case (DoConfirmMode mode)
  then show ?thesis using tracks_trans [OF tracks_desired tracks_observed_mode] by (simp add: confirm_mode_def)
next
  case (DoConfirmModel model)
  then show ?thesis using tracks_trans [OF tracks_desired tracks_observed_model] by (simp add: confirm_model_def)
next
  case (DoSetSessionId sid)
  then show ?thesis
    by (auto intro!: tracks_emit tracks_refl simp: set_session_id_def observed_state_def)
next
  case DoMarkOpened
  then show ?thesis by (auto intro!: tracks_emit tracks_refl simp: mark_opened_def observed_state_def)
next
  case (DoSetDesiredMode mode)
  then show ?thesis by (auto intro: tracks_emit_desired tracks_refl simp: set_desired_mode_def)
next
  case (DoSetDesiredModel model)
  then show ?thesis by (auto intro: tracks_emit_desired tracks_refl simp: set_desired_model_def)
next
  case DoClearInvalidMode
  then show ?thesis by (auto intro: tracks_desired tracks_refl simp: clear_invalid_desired_mode_def split: option.split)
next
  case DoClearInvalidModel
  then show ?thesis by (auto intro: tracks_desired tracks_refl simp: clear_invalid_desired_model_def split: option.split)
qed (auto intro!: tracks_silent simp: session_upd_defs clear_session_id_def record_close_reason_def take_close_reason_def
    mark_pending_session_new_prelude_def take_pending_session_new_prelude_def try_begin_config_set_def drop_config_set_guard_def
    apply_advertised_capabilities_def apply_advertised_auth_methods_def apply_advertised_commands_def
    tracks_set_desired_config tracks_seed tracks_observed_mode tracks_observed_model tracks_observed_config
    tracks_advertised_modes tracks_advertised_models tracks_advertised_config_options tracks_context_usage
    tracks_preload_catalogs)

section \<open>The consumer writes what the events tell\<close>

definition row_state :: "'j RuntimeState \<Rightarrow> 'j PersistedSessionState" where
  "row_state rt =
     \<lparr>pe_current_mode_id = rt_current_mode_id rt, pe_current_model_id = rt_current_model_id rt,
      pe_config_selections = (case rt_config_selections rt of Some m \<Rightarrow> m | None \<Rightarrow> []), pe_context_usage = rt_context_usage rt\<rparr>"

definition written :: "'j PendingUpdate \<Rightarrow> 'j RuntimeState \<Rightarrow> 'j RuntimeState" where
  "written p rt = merge_runtime (as_save_params p) rt"

lemma load_snapshot_state_row: "load_snapshot_state True conv db = map_option (row_state \<circ> ar_runtime) (map_of db conv)"
  by (simp add: load_snapshot_state_def load_runtime_state_def row_state_def split: option.split)

lemma written_nothing: "pending_is_empty p \<Longrightarrow> written p rt = rt"
  by (cases rt) (simp add: written_def merge_runtime_def as_save_params_def pending_is_empty_def)

lemma written_event: "row_state (written (snd (merge_from_domain_event ev p)) rt) = project ev (row_state (written p rt))"
  by (cases ev) (simp_all add: written_def merge_runtime_def as_save_params_def row_state_def)

lemma flush_writes:
  "flush True conv p db = (no_update, db') \<Longrightarrow> map_of db conv = Some row \<Longrightarrow>
   map_of db' = (map_of db)(conv \<mapsto> row\<lparr>ar_runtime := written p (ar_runtime row)\<rparr>)"
  by (auto simp: flush_def save_runtime_state_def params_is_empty_def as_save_params_def pending_is_empty_def map_of_map_entry
      written_def merge_runtime_def fun_upd_idem split: if_splits)

lemma pending_no_update [simp]: "pending_is_empty no_update"
  by (simp add: pending_is_empty_def no_update_def)

lemma pending_empty_iff: "pending_is_empty p \<longleftrightarrow> p = no_update"
  by (cases p) (simp add: pending_is_empty_def no_update_def)

lemma flush_clears: "fst (flush ok conv p db) = no_update"
  by (simp add: flush_def pending_empty_iff)

text \<open>
  What is still to be told: the events the session holds and those in the channel, on top of what the consumer holds and the row.
\<close>

definition in_step :: "string \<Rightarrow> 'j AcpSessionTable \<Rightarrow> 'j SyncSystem \<Rightarrow> bool" where
  "in_step conv db0 y \<longleftrightarrow>
     (\<exists>row. map_of (sy_table y) conv = Some row
        \<and> observed_state (sy_session y) = fold project (sy_channel y @ se_pending_events (sy_session y))
            (row_state (written (cn_pending (sy_consumer y)) (ar_runtime row)))
        \<and> se_session_id (sy_session y) \<in> {None, fold assigned (sy_channel y @ se_pending_events (sy_session y)) (ar_session_id row)})
     \<and> (\<forall>other. other \<noteq> conv \<longrightarrow> map_of (sy_table y) other = map_of db0 other)"

fun db_works :: "'j SyncStep \<Rightarrow> bool" where
  "db_works (Receive ok _) \<longleftrightarrow> ok"
| "db_works (Pause ok _) \<longleftrightarrow> ok"
| "db_works _ \<longleftrightarrow> True"

lemma in_step_mutate: "in_step conv db0 y \<Longrightarrow> tracks (sy_session y) s' \<Longrightarrow> in_step conv db0 (y\<lparr>sy_session := s'\<rparr>)"
  unfolding in_step_def tracks_def
  using assigned_mono by fastforce

lemma in_step_commit: "in_step conv db0 y \<Longrightarrow> in_step conv db0 (sync_step conv Commit y)"
  by (simp add: in_step_def drain_events_def observed_state_def)

lemma consume_event_tells:
  assumes "map_of db conv = Some row" and "consume_event True now conv ev c db = (c', db')"
  shows "\<exists>row'. map_of db' = (map_of db)(conv \<mapsto> row')
    \<and> row_state (written (cn_pending c') (ar_runtime row')) = project ev (row_state (written (cn_pending c) (ar_runtime row)))
    \<and> ar_session_id row' = assigned ev (ar_session_id row)"
proof (cases ev)
  case (SessionAssigned sid)
  with assms show ?thesis by (auto simp: consume_event_def update_session_id_def map_of_map_entry)
qed (use assms written_event [of ev "cn_pending c" "ar_runtime row"] in
    \<open>auto simp: consume_event_def fun_upd_idem intro!: exI [of _ row]\<close>)

lemma receive_all_tells:
  assumes "map_of db conv = Some row" and "receive_all conv True now evs c db = (c', db')"
  shows "\<exists>row'. map_of db' = (map_of db)(conv \<mapsto> row')
    \<and> row_state (written (cn_pending c') (ar_runtime row')) = fold project evs (row_state (written (cn_pending c) (ar_runtime row)))
    \<and> ar_session_id row' = fold assigned evs (ar_session_id row)"
  using assms
proof (induction evs arbitrary: row c db)
  case Nil
  then show ?case by (auto simp: fun_upd_idem intro!: exI [of _ row])
next
  case (Cons ev evs)
  obtain c1 db1 where step: "consume_event True now conv ev c db = (c1, db1)" by fastforce
  obtain row1 where row1: "map_of db1 = (map_of db)(conv \<mapsto> row1)"
      "row_state (written (cn_pending c1) (ar_runtime row1)) = project ev (row_state (written (cn_pending c) (ar_runtime row)))"
      "ar_session_id row1 = assigned ev (ar_session_id row)"
    using consume_event_tells [OF Cons.prems(1) step] by blast
  from Cons.IH [of db1 row1 c1] row1 Cons.prems(2) step show ?case by fastforce
qed

lemma in_step_receive:
  assumes "in_step conv db0 y"
  shows "in_step conv db0 (sync_step conv (Receive True now) y)"
proof (cases "sy_channel y")
  case Nil
  with assms show ?thesis by simp
next
  case (Cons ev events)
  obtain c' db' where step: "consume_event True now conv ev (sy_consumer y) (sy_table y) = (c', db')" by fastforce
  obtain row where row: "map_of (sy_table y) conv = Some row" using assms unfolding in_step_def by blast
  with consume_event_tells [OF row step] assms Cons step show ?thesis by (auto simp: in_step_def)
qed

lemma in_step_pause:
  assumes "in_step conv db0 y"
  shows "in_step conv db0 (sync_step conv (Pause True now) y)"
proof -
  obtain row where row: "map_of (sy_table y) conv = Some row" using assms unfolding in_step_def by blast
  obtain db' where f: "flush True conv (cn_pending (sy_consumer y)) (sy_table y) = (no_update, db')"
    using flush_clears by (metis prod.collapse)
  from flush_writes [OF f row] f row assms show ?thesis
    by (auto simp: in_step_def consume_pause_def written_nothing split: option.split)
qed

lemma in_step_sync_step: "in_step conv db0 y \<Longrightarrow> db_works x \<Longrightarrow> in_step conv db0 (sync_step conv x y)"
  by (cases x) (simp_all add: in_step_commit in_step_receive in_step_pause in_step_mutate tracks_session_op
      del: sync_step.simps(2-4))

lemma in_step_steps: "in_step conv db0 y \<Longrightarrow> list_all db_works steps \<Longrightarrow> in_step conv db0 (fold (sync_step conv) steps y)"
  by (induction steps arbitrary: y) (simp_all add: in_step_sync_step)

lemma session_ends_in_step:
  assumes "in_step conv db0 y"
  shows "\<exists>row. map_of (session_ends conv True now y) = (map_of db0)(conv \<mapsto> row)
    \<and> row_state (ar_runtime row) = observed_state (sy_session y) \<and> se_session_id (sy_session y) \<in> {None, ar_session_id row}"
proof -
  define y1 where "y1 = sync_step conv Commit y"
  have y1: "in_step conv db0 y1" "observed_state (sy_session y1) = observed_state (sy_session y)"
      "se_session_id (sy_session y1) = se_session_id (sy_session y)" "se_pending_events (sy_session y1) = []"
    using in_step_commit [OF assms] by (simp_all add: y1_def drain_events_def observed_state_def)
  obtain row where row: "map_of (sy_table y1) conv = Some row" using y1(1) unfolding in_step_def by blast
  obtain c db where r: "receive_all conv True now (sy_channel y1) (sy_consumer y1) (sy_table y1) = (c, db)" by fastforce
  obtain row1 where row1: "map_of db = (map_of (sy_table y1))(conv \<mapsto> row1)"
      "row_state (written (cn_pending c) (ar_runtime row1))
        = fold project (sy_channel y1) (row_state (written (cn_pending (sy_consumer y1)) (ar_runtime row)))"
      "ar_session_id row1 = fold assigned (sy_channel y1) (ar_session_id row)"
    using receive_all_tells [OF row r] by blast
  obtain db' where f: "flush True conv (cn_pending c) db = (no_update, db')"
    using flush_clears by (metis prod.collapse)
  have db': "session_ends conv True now y = db'"
    using r f unfolding session_ends_def y1_def [symmetric] Let_def by (simp add: consume_closed_def)
  have "map_of db conv = Some row1" using row1(1) by simp
  note written = flush_writes [OF f this]
  have "map_of db' = (map_of db0)(conv \<mapsto> row1\<lparr>ar_runtime := written (cn_pending c) (ar_runtime row1)\<rparr>)"
    using written row1(1) y1(1) unfolding in_step_def by (auto simp: fun_eq_iff)
  then show ?thesis
    unfolding db' using row row1(2,3) y1 unfolding in_step_def by auto
qed

section \<open>Properties\<close>

lemma preload_new_session: "observed_state (preload_persisted st (new_session mode model selections)) = st"
  by (cases st) (auto simp: preload_persisted_def new_session_def session_upd_defs Let_def split: option.split)

lemma restored_new_session:
  "map_of db conv = Some row \<Longrightarrow> observed_state (restored_session conv db (new_session mode model selections)) = row_state (ar_runtime row)"
  by (simp add: restored_session_def load_snapshot_state_row preload_new_session)

lemma preload_keeps:
  "se_pending_events (preload_persisted st s) = se_pending_events s" "se_session_id (preload_persisted st s) = se_session_id s"
  by (simp_all add: preload_persisted_def session_upd_defs Let_def split: option.split)

definition started :: "string \<Rightarrow> 'j AcpSessionTable \<Rightarrow> ModeId option \<Rightarrow> ModelId option \<Rightarrow> Selections \<Rightarrow> 'j SyncSystem" where
  "started conv db mode model selections =
     \<lparr>sy_session = restored_session conv db (new_session mode model selections), sy_channel = [],
      sy_consumer = new_consumer, sy_table = db\<rparr>"

lemma started_in_step: "map_of db conv = Some row \<Longrightarrow> in_step conv db (started conv db mode model selections)"
  by (auto simp: in_step_def started_def restored_new_session new_consumer_def written_nothing)
    (simp_all add: restored_session_def load_snapshot_state_row preload_keeps new_session_def)

text \<open>
  C12: A session that was loaded from its row, whatever operations, notifications, deliveries
  and pauses follow with a working database, leaves a row from which a new session observes
  the same mode, model, config values and context usage when its channel is closed; the row
  has the session's id if it has one, and the rows of other conversations are untouched.
\<close>

theorem observed_state_survives_a_restart:
  assumes "map_of db conv \<noteq> None" and "list_all db_works steps"
  shows "let y = fold (sync_step conv) steps (started conv db mode model selections);
             db' = session_ends conv True now y
         in observed_state (restored_session conv db' (new_session mode' model' selections')) = observed_state (sy_session y)
            \<and> se_session_id (sy_session y) \<in> {None, load_session_id True conv db'}
            \<and> (\<forall>other. other \<noteq> conv \<longrightarrow> map_of db' other = map_of db other)"
proof -
  define y where "y = fold (sync_step conv) steps (started conv db mode model selections)"
  have "in_step conv db y"
    using assms started_in_step in_step_steps unfolding y_def by blast
  from session_ends_in_step [OF this, of now] show ?thesis
    unfolding y_def [symmetric] Let_def by (auto simp: restored_new_session load_session_id_def)
qed

definition example_row :: "nat AcpSessionRow" where
  "example_row = \<lparr>ar_session_id = None, ar_runtime = \<lparr>rt_current_mode_id = None, rt_current_model_id = Some ''m1'',
     rt_config_selections = None, rt_context_usage = None\<rparr>\<rparr>"

definition example_steps :: "nat SyncStep list" where
  "example_steps = [Mutate (DoObserveMode ''plan''), Mutate (DoSetSessionId ''s1''), Commit, Receive True 0,
     Mutate (DoObserveConfig ''effort'' ''high''), Pause True 600, Mutate (DoContextUsage 7)]"

definition example_restart :: "nat SyncSystem" where
  "example_restart = fold (sync_step ''c'') example_steps (started ''c'' [(''c'', example_row)] None None [])"

theorem observed_state_survives_a_restart_witness:
  "observed_state (restored_session ''c'' (session_ends ''c'' True 900 example_restart) (new_session None None []))
     = observed_state (sy_session example_restart)
   \<and> ob_mode_id (se_observed (sy_session example_restart)) = Some ''plan''
   \<and> load_session_id True ''c'' (session_ends ''c'' True 900 example_restart) = Some ''s1''"
proof -
  have works: "list_all db_works example_steps" and row: "map_of [(''c'', example_row)] ''c'' \<noteq> None"
    by (simp_all add: example_steps_def)
  have "ob_mode_id (se_observed (sy_session example_restart)) = Some ''plan''"
      and "se_session_id (sy_session example_restart) = Some ''s1''"
    by code_simp+
  with observed_state_survives_a_restart [OF row works, of None None "[]" 900 None None "[]"]
  show ?thesis unfolding example_restart_def [symmetric] Let_def by auto
qed
















end
