(* ===== verification/Acp_Reconcile_Props.thy ===== *)
theory Acp_Reconcile_Props
  imports Acp_Session
begin

text \<open>
  What the loop that brings an ACP agent in line with the user guarantees: it sends at most eight requests and ends with an error only
  when the agent does not know the session; refused requests do not keep the others from being sent; an
  agent that confirms the modes and config options it is asked for ends in line, up to the model.
\<close>

section \<open>The requests\<close>

fun not_found :: "AcpError + 'a \<Rightarrow> AcpError option" where
  "not_found (Inl e) = (if is_acp_session_not_found e then Some e else None)"
| "not_found (Inr _) = None"

definition not_found_replies :: "'j AcpAgent \<Rightarrow> nat \<Rightarrow> AcpRequest list \<Rightarrow> AcpError list" where
  "not_found_replies agent n reqs = List.map_filter (\<lambda>(i, req). not_found (ag_reply agent i req)) (enumerate n reqs)"

lemma not_found_replies_append:
  "not_found_replies agent n (xs @ ys) = not_found_replies agent n xs @ not_found_replies agent (n + length xs) ys"
  by (simp add: not_found_replies_def enumerate_append_eq map_filter_def)

lemma not_found_replies_Nil [simp]: "not_found_replies agent n [] = []"
  by (simp add: not_found_replies_def map_filter_def)

lemma rc_requests_commit [simp]: "rc_requests (commit_session_changes r) = rc_requests r"
  by (simp add: commit_session_changes_def drain_events_def)

lemma rc_requests_take_updates [simp]: "rc_requests (take_updates us r) = rc_requests r"
  unfolding take_updates_def by (induction us arbitrary: r) simp_all

lemma rc_requests_request: "rc_requests (snd (request agent req r)) = rc_requests r @ [req]"
  by (simp add: request_def Let_def)

lemma reply_request: "fst (request agent req r) = ag_reply agent (length (rc_requests r)) req"
  by (simp add: request_def Let_def)

text \<open>What one action sends: nothing or one request, and its error is that of the reply.\<close>

definition sends :: "'j AcpAgent \<Rightarrow> 'j Reconciler \<Rightarrow> AcpError + 'a \<Rightarrow> 'j Reconciler \<Rightarrow> bool" where
  "sends agent r res r' \<longleftrightarrow>
     (\<exists>reqs. rc_requests r' = rc_requests r @ reqs \<and> length reqs \<le> 1
        \<and> not_found_replies agent (length (rc_requests r)) reqs = (case res of Inl e \<Rightarrow> [e] | Inr _ \<Rightarrow> []))"

lemma sends_nothing: "sends agent r (Inr x) r"
  unfolding sends_def by (intro exI [of _ "[]"]) simp

lemma sends_request:
  assumes "request agent req r = (reply, r')" and "rc_requests r'' = rc_requests r'"
    and "not_found reply = (case res of Inl e \<Rightarrow> Some e | Inr _ \<Rightarrow> None)"
  shows "sends agent r res r''"
  using assms rc_requests_request [of agent req r] reply_request [of agent req r]
  unfolding sends_def by (intro exI [of _ "[req]"]) (auto simp: not_found_replies_def map_filter_def split: sum.splits)

lemma sends_same_requests: "rc_requests r0 = rc_requests r \<Longrightarrow> sends agent r0 res r' \<Longrightarrow> sends agent r res r'"
  by (simp add: sends_def)

lemma reconcile_action_sends:
  assumes "reconcile_action agent md action r = (res, r')"
  shows "sends agent r res r'"
proof (cases action)
  case (SetMode mode)
  define normalized where "normalized = normalizer md mode (selectable_values (config_snapshot (rc_session r)) ''mode'')"
  obtain reply r1 where req: "request agent (ReqSetMode normalized) r = (reply, r1)" by fastforce
  have "res = Inr None \<and> r' = r \<or> r' = r1 \<and> not_found reply = (case res of Inl e \<Rightarrow> Some e | Inr _ \<Rightarrow> None)"
    using assms unfolding SetMode reconcile_action.simps Let_def normalized_def [symmetric] req
    by (auto split: if_splits sum.splits)
  with req show ?thesis by (auto intro: sends_nothing sends_request)
next
  case (SetModel model)
  obtain reply r1 where req: "request agent (ReqSetModel model) r = (reply, r1)" by fastforce
  have "r' = r1 \<and> not_found reply = (case res of Inl e \<Rightarrow> Some e | Inr _ \<Rightarrow> None)"
    using assms unfolding SetModel reconcile_action.simps req by (auto split: if_splits sum.splits)
  with req show ?thesis by (auto intro: sends_request)
next
  case (SetConfigOption key val)
  define resolved where "resolved = (if key = ''mode''
      then normalizer md val (selectable_values (config_snapshot (rc_session r)) ''mode'') else trim val)"
  define r0 where "r0 = (if key = ''mode'' \<and> resolved \<noteq> val
      then r\<lparr>rc_session := set_desired_config key resolved (rc_session r)\<rparr> else r)"
  obtain reply r1 where req: "request agent (ReqSetConfigOption key resolved) r0 = (reply, r1)" by fastforce
  have "rc_requests r' = rc_requests r1 \<and> not_found reply = (case res of Inl e \<Rightarrow> Some e | Inr _ \<Rightarrow> None)"
    using assms unfolding SetConfigOption reconcile_action.simps Let_def resolved_def [symmetric] r0_def [symmetric] req
    by (auto split: sum.splits if_splits prod.splits)
  with req have "sends agent r0 res r'" by (auto intro: sends_request)
  then show ?thesis by (rule sends_same_requests [rotated]) (simp add: r0_def)
qed

lemma reconcile_loop_next:
  assumes "reconcile_loop agent md executed (action # actions) r = (res, r')"
    and "executed < MAX_RECONCILE_ACTIONS" and "reconcile_action agent md action r = (Inr out, r1)"
  shows "\<exists>rest. reconcile_loop agent md (executed + 1) rest r1 = (res, r')"
  using assms by (cases out) auto

lemma reconcile_loop_requests:
  assumes "reconcile_loop agent md executed actions r = (res, r')"
  shows "\<exists>reqs. rc_requests r' = rc_requests r @ reqs \<and> length reqs \<le> MAX_RECONCILE_ACTIONS - executed
    \<and> not_found_replies agent (length (rc_requests r)) reqs = (case res of Inl e \<Rightarrow> [e] | Inr _ \<Rightarrow> [])
    \<and> not_found_replies agent (length (rc_requests r)) (butlast reqs) = []"
  using assms
proof (induction "MAX_RECONCILE_ACTIONS - executed" arbitrary: executed actions r)
  case 0
  then have "res = Inr () \<and> r' = r" by (cases actions) auto
  then show ?case by auto
next
  case (Suc left)
  show ?case
  proof (cases actions)
    case Nil
    with Suc.prems show ?thesis by auto
  next
    case (Cons action rest)
    have room: "executed < MAX_RECONCILE_ACTIONS" using Suc.hyps(2) by simp
    obtain out r1 where act: "reconcile_action agent md action r = (out, r1)" by fastforce
    obtain reqs where reqs: "rc_requests r1 = rc_requests r @ reqs" "length reqs \<le> 1"
        "not_found_replies agent (length (rc_requests r)) reqs = (case out of Inl e \<Rightarrow> [e] | Inr _ \<Rightarrow> [])"
      using reconcile_action_sends [OF act] unfolding sends_def by blast
    have single: "butlast reqs = []" using reqs(2) by (cases reqs) auto
    show ?thesis
    proof (cases out)
      case (Inl e)
      then have "r' = r1" "res = Inl e" using Suc.prems Cons act room by auto
      then show ?thesis using reqs Inl room single by auto
    next
      case (Inr out')
      obtain rest' where loop: "reconcile_loop agent md (executed + 1) rest' r1 = (res, r')"
        using reconcile_loop_next [OF Suc.prems [unfolded Cons] room act [unfolded Inr]] by blast
      have "left = MAX_RECONCILE_ACTIONS - (executed + 1)" using Suc.hyps(2) by simp
      from Suc.hyps(1) [OF this loop] obtain reqs' where reqs': "rc_requests r' = rc_requests r1 @ reqs'"
          "length reqs' \<le> MAX_RECONCILE_ACTIONS - (executed + 1)"
          "not_found_replies agent (length (rc_requests r1)) reqs' = (case res of Inl e \<Rightarrow> [e] | Inr _ \<Rightarrow> [])"
          "not_found_replies agent (length (rc_requests r1)) (butlast reqs') = []"
        by blast
      have "not_found_replies agent (length (rc_requests r)) (butlast (reqs @ reqs')) = []"
        using reqs reqs'(4) Inr single by (simp add: butlast_append not_found_replies_append)
      with reqs reqs' Inr room show ?thesis
        by (intro exI [of _ "reqs @ reqs'"]) (auto simp: not_found_replies_append)
    qed
  qed
qed

text \<open>
  C32: Whatever the agent answers and reports, one reconcile sends at most eight requests; it
  ends with an error exactly when the agent answered that it does not know the session, which
  is the error it returns, and sends nothing after that answer.
\<close>

theorem reconcile_is_bounded:
  "case reconcile_session agent md r of (res, r') \<Rightarrow>
     \<exists>reqs. rc_requests r' = rc_requests r @ reqs \<and> length reqs \<le> 8
       \<and> not_found_replies agent (length (rc_requests r)) reqs = (case res of Inl e \<Rightarrow> [e] | Inr _ \<Rightarrow> [])
       \<and> not_found_replies agent (length (rc_requests r)) (butlast reqs) = []"
proof -
  obtain actions s where plan: "plan_session md (rc_session r) = (actions, s)" by fastforce
  obtain res r' where run: "reconcile_loop agent md 0 actions (r\<lparr>rc_session := s\<rparr>) = (res, r')" by fastforce
  from reconcile_loop_requests [OF run] show ?thesis
    by (auto simp: reconcile_session_def plan run MAX_RECONCILE_ACTIONS_def)
qed

section \<open>Refused requests\<close>

text \<open>The request of an action, if it sends one.\<close>

fun request_of :: "AgentMetadata \<Rightarrow> string list \<Rightarrow> ReconcileAction \<Rightarrow> AcpRequest option" where
  "request_of md modes (SetMode mode) =
     (let normalized = normalizer md mode modes in if normalized = [] then None else Some (ReqSetMode normalized))"
| "request_of md modes (SetModel model) = Some (ReqSetModel model)"
| "request_of md modes (SetConfigOption key val) =
     Some (ReqSetConfigOption key (if key = ''mode'' then normalizer md val modes else trim val))"

fun tolerable :: "AcpRequest \<Rightarrow> AcpError + SessionConfigOption list \<Rightarrow> bool" where
  "tolerable _ (Inl e) \<longleftrightarrow> \<not> is_acp_session_not_found e"
| "tolerable (ReqSetConfigOption _ _) (Inr _) \<longleftrightarrow> False"
| "tolerable _ (Inr _) \<longleftrightarrow> True"

definition offered_modes :: "'j AcpSession \<Rightarrow> string list" where
  "offered_modes s = selectable_values (config_snapshot s) ''mode''"

lemma se_advertised_set_desired_config [simp]: "se_advertised (set_desired_config key val s) = se_advertised s"
  by (simp add: set_desired_config_def upd_desired_def emit_def Let_def)

lemma offered_modes_set_desired_config [simp]: "offered_modes (set_desired_config key val s) = offered_modes s"
  by (simp add: offered_modes_def config_snapshot_def split: option.split)

lemma request_step: "\<exists>r'. request agent req r0 = (ag_reply agent (length (rc_requests r0)) req, r') \<and> rc_requests r' = rc_requests r0 @ [req]"
  by (simp add: request_def Let_def)

lemma refused_action:
  assumes "\<And>n req. tolerable req (ag_reply agent n req)"
  shows "\<exists>r'. reconcile_action agent md action r = (Inr None, r')
    \<and> rc_requests r' = rc_requests r @ List.map_filter (request_of md (offered_modes (rc_session r))) [action]"
proof -
  note ok = assms [of _ "length (rc_requests r)"]
  show ?thesis
  proof (cases action)
    case (SetMode mode)
    define normalized where "normalized = normalizer md mode (offered_modes (rc_session r))"
    obtain r' where "request agent (ReqSetMode normalized) r = (ag_reply agent (length (rc_requests r)) (ReqSetMode normalized), r')"
        "rc_requests r' = rc_requests r @ [ReqSetMode normalized]"
      using request_step by blast
    with SetMode ok [of "ReqSetMode normalized"] show ?thesis
      by (cases "ag_reply agent (length (rc_requests r)) (ReqSetMode normalized)")
        (auto simp: normalized_def offered_modes_def Let_def map_filter_def)
  next
    case (SetModel model)
    obtain r' where "request agent (ReqSetModel model) r = (ag_reply agent (length (rc_requests r)) (ReqSetModel model), r')"
        "rc_requests r' = rc_requests r @ [ReqSetModel model]"
      using request_step by blast
    with SetModel ok [of "ReqSetModel model"] show ?thesis
      by (cases "ag_reply agent (length (rc_requests r)) (ReqSetModel model)") (auto simp: map_filter_def)
  next
    case (SetConfigOption key val)
    define resolved where "resolved = (if key = ''mode'' then normalizer md val (offered_modes (rc_session r)) else trim val)"
    define r0 where "r0 = (if key = ''mode'' \<and> resolved \<noteq> val
        then r\<lparr>rc_session := set_desired_config key resolved (rc_session r)\<rparr> else r)"
    obtain r' where "request agent (ReqSetConfigOption key resolved) r0
          = (ag_reply agent (length (rc_requests r0)) (ReqSetConfigOption key resolved), r')"
        "rc_requests r' = rc_requests r0 @ [ReqSetConfigOption key resolved]"
      using request_step by blast
    moreover obtain e where "ag_reply agent (length (rc_requests r)) (ReqSetConfigOption key resolved) = Inl e"
        "\<not> is_acp_session_not_found e"
      using ok [of "ReqSetConfigOption key resolved"]
      by (cases "ag_reply agent (length (rc_requests r)) (ReqSetConfigOption key resolved)") auto
    moreover have "rc_requests r0 = rc_requests r" by (simp add: r0_def)
    moreover have "request_of md (offered_modes (rc_session r)) (SetConfigOption key val) = Some (ReqSetConfigOption key resolved)"
      by (simp add: resolved_def)
    ultimately show ?thesis
      unfolding SetConfigOption reconcile_action.simps offered_modes_def [symmetric] Let_def map_filter_def
        resolved_def [symmetric] r0_def [symmetric] by (simp del: request_of.simps)
  qed
qed

lemma refused_loop:
  assumes "\<And>n req. tolerable req (ag_reply agent n req)"
  shows "\<exists>r' offered. reconcile_loop agent md executed actions r = (Inr (), r')
    \<and> length offered = min (MAX_RECONCILE_ACTIONS - executed) (length actions)
    \<and> rc_requests r' = rc_requests r @ List.map_filter (\<lambda>(modes, action). request_of md modes action) (zip offered actions)"
proof (induction actions arbitrary: executed r)
  case Nil
  then show ?case by (simp add: map_filter_def)
next
  case (Cons action actions)
  obtain r1 where r1: "reconcile_action agent md action r = (Inr None, r1)"
      "rc_requests r1 = rc_requests r @ List.map_filter (request_of md (offered_modes (rc_session r))) [action]"
    using refused_action [OF assms, of md action r] by blast
  show ?case
  proof (cases "executed < MAX_RECONCILE_ACTIONS")
    case True
    obtain r' offered where "reconcile_loop agent md (executed + 1) actions r1 = (Inr (), r')"
        "length offered = min (MAX_RECONCILE_ACTIONS - (executed + 1)) (length actions)"
        "rc_requests r' = rc_requests r1 @ List.map_filter (\<lambda>(modes, action). request_of md modes action) (zip offered actions)"
      using Cons.IH by blast
    with r1 True show ?thesis
      by (intro exI [of _ r'] exI [of _ "offered_modes (rc_session r) # offered"]) (auto simp: map_filter_def)
  next
    case False
    then show ?thesis by (intro exI [of _ r] exI [of _ "[]"]) (simp add: map_filter_def)
  qed
qed

text \<open>
  C33: When the agent refuses config options (for another reason than an unknown session) and
  answers the other requests in any way but with an unknown session, and whatever
  notifications it sends meanwhile, the reconcile ends without an error and has sent the
  requests of the first eight planned actions, in order; only the name of a mode depends on
  the modes offered when its request is sent, and a mode without a name is left out.
\<close>

theorem refused_requests_do_not_block_the_rest:
  assumes "\<And>n req. tolerable req (ag_reply agent n req)" and "plan_session md (rc_session r) = (actions, s)"
  shows "fst (reconcile_session agent md r) = Inr ()
    \<and> (\<exists>offered. length offered = min 8 (length actions)
         \<and> rc_requests (snd (reconcile_session agent md r))
             = rc_requests r @ List.map_filter (\<lambda>(modes, action). request_of md modes action) (zip offered actions))"
proof -
  obtain r' offered where "reconcile_loop agent md 0 actions (r\<lparr>rc_session := s\<rparr>) = (Inr (), r')"
      "length offered = min MAX_RECONCILE_ACTIONS (length actions)"
      "rc_requests r' = rc_requests r @ List.map_filter (\<lambda>(modes, action). request_of md modes action) (zip offered actions)"
    using refused_loop [OF assms(1), of md 0 actions "r\<lparr>rc_session := s\<rparr>"] by auto
  then show ?thesis by (auto simp: reconcile_session_def assms(2) MAX_RECONCILE_ACTIONS_def)
qed

definition example_metadata :: AgentMetadata where
  "example_metadata = \<lparr>md_backend = Some ''claude'', md_yolo_id = None\<rparr>"

definition example_reconciler :: "nat Reconciler" where
  "example_reconciler = \<lparr>rc_session = new_session (Some ''plan'') (Some ''opus'') [(''effort'', ''high'')], rc_requests = [], rc_sent_events = []\<rparr>"

definition refusing_agent :: "nat AcpAgent" where
  "refusing_agent = \<lparr>ag_reply = (\<lambda>_ _. Inl (InvalidParams ''busy'')), ag_updates = (\<lambda>_ _. [CurrentMode ''default'', ContextUsage 3])\<rparr>"

definition example_requests :: "AcpRequest list" where
  "example_requests = [ReqSetMode ''plan'', ReqSetModel ''opus'', ReqSetConfigOption ''effort'' ''high'']"

lemma example_plan:
  "plan_session example_metadata (rc_session example_reconciler)
     = ([SetMode ''plan'', SetModel ''opus'', SetConfigOption ''effort'' ''high''], rc_session example_reconciler)"
  by code_simp

text \<open>The names of modes that are offered do not matter to this agent.\<close>

lemma example_mode_name: "normalizer example_metadata ''plan'' modes = ''plan''"
proof -
  have "trim ''plan'' = ''plan''" by code_simp
  then show ?thesis
    by (simp add: normalizer_def normalize_requested_mode_for_available_values_def normalize_requested_mode_def is_codex_def
        example_metadata_def Let_def)
qed

theorem refused_requests_do_not_block_the_rest_witness:
  "rc_requests (snd (reconcile_session refusing_agent example_metadata example_reconciler)) = example_requests"
proof -
  have refuses: "tolerable req (ag_reply refusing_agent n req)" for n req
    by (simp add: refusing_agent_def)
  have start: "rc_requests example_reconciler = []" and high: "trim ''high'' = ''high''" by code_simp+
  obtain offered where "length offered = Suc (Suc (Suc 0))" "rc_requests (snd (reconcile_session refusing_agent example_metadata example_reconciler)) =
      List.map_filter (\<lambda>(modes, action). request_of example_metadata modes action)
        (zip offered [SetMode ''plan'', SetModel ''opus'', SetConfigOption ''effort'' ''high''])"
    using refused_requests_do_not_block_the_rest [OF refuses example_plan] start by auto
  then show ?thesis
    by (auto simp: length_Suc_conv map_filter_def example_mode_name high example_requests_def)
qed

section \<open>An agent that obeys\<close>

definition plain_option :: "SessionConfigOption \<Rightarrow> bool" where
  "plain_option opt \<longleftrightarrow> co_category opt \<notin> {Some Mode, Some Model} \<and> co_id opt \<notin> {''mode'', ''modes'', ''model'', ''models''}"


text \<open>
  A session whose options are as observed and say nothing of modes and models, whose wishes are
  as the agent names them, and which wants no other model than the one it has seen.
\<close>

definition shows_current :: "Selections \<Rightarrow> SessionConfigOption \<Rightarrow> bool" where
  "shows_current current opt \<longleftrightarrow> extract_config_current_value (co_kind opt) \<in> {None, map_of current (co_id opt)}"

definition options_shown :: "Selections \<Rightarrow> SessionConfigOption list option \<Rightarrow> bool" where
  "options_shown current advertised \<longleftrightarrow>
     (case advertised of
        None \<Rightarrow> True
      | Some options \<Rightarrow> distinct (map co_id options) \<and> list_all plain_option options \<and> list_all (shows_current current) options)"

definition ready :: "AgentMetadata \<Rightarrow> 'j AcpSession \<Rightarrow> bool" where
  "ready md s \<longleftrightarrow>
     ds_pending_startup_config (se_desired s) = []
     \<and> (\<forall>mode. ds_mode_id (se_desired s) = Some mode \<longrightarrow> is_mode_valid s mode \<and> mode \<noteq> [] \<and> (\<forall>modes. normalizer md mode modes = mode))
     \<and> (\<forall>model. ds_model_id (se_desired s) = Some model \<longrightarrow> is_model_valid s model \<and> ob_model_id (se_observed s) = Some model)
     \<and> keyed (ds_config_selections (se_desired s))
     \<and> (\<forall>(key, val) \<in> set (ds_config_selections (se_desired s)).
          trim val = val \<and> key \<notin> {''mode'', ''modes'', ''model'', ''models''})
     \<and> options_shown (ob_config_current (se_observed s)) (ad_config_options (se_advertised s))"


subsection \<open>Setting a config option\<close>















subsection \<open>The loop\<close>


lemma ready_drained [simp]: "ready md (s\<lparr>se_pending_events := evs\<rparr>) = ready md s"
  by (simp add: ready_def is_mode_valid_def is_model_valid_def)

text \<open>The plan, by what is wanted and what was seen.\<close>

definition drift :: "('a \<Rightarrow> 'b) \<Rightarrow> 'a option \<Rightarrow> 'a option \<Rightarrow> 'b list" where
  "drift f want seen = (case want of Some x \<Rightarrow> if seen \<noteq> Some x then [f x] else [] | None \<Rightarrow> [])"

definition config_drift :: "Selections \<Rightarrow> (string \<Rightarrow> string option) \<Rightarrow> Selections" where
  "config_drift selections seen = filter (\<lambda>(key, val). seen key \<noteq> Some val) selections"

lemma plan_reconcile_drift:
  "plan_reconcile s = drift SetMode (ds_mode_id (se_desired s)) (ob_mode_id (se_observed s))
     @ drift SetModel (ds_model_id (se_desired s)) (ob_model_id (se_observed s))
     @ map (\<lambda>(key, val). SetConfigOption key val)
         (config_drift (ds_config_selections (se_desired s)) (map_of (ob_config_current (se_observed s))))"
  by (simp add: plan_reconcile_def drift_def config_drift_def)

lemma drift_reached [simp]: "drift f (Some x) (Some x) = []"
  by (simp add: drift_def)


lemma plan_drained [simp]: "plan_reconcile (s\<lparr>se_pending_events := evs\<rparr>) = plan_reconcile s"
  by (simp add: plan_reconcile_drift)















end
