(* ===== verification/Cron_Runs.thy ===== *)
theory Cron_Runs
  imports Core_Prelude
begin

text \<open>
  Scheduled jobs (\<open>crates/tjuaeui-cron\<close>): the jobs and their schedules (\<open>types.rs\<close>, \<open>scheduler.rs\<close>), the table of
  the runs, through which several processes agree who runs an occurrence (\<open>tjuaeui-db/src/repository/sqlite_cron.rs\<close>).

  The tables are association lists, by id and by job and occurrence. A row of a job is the job it encodes, without the
  columns' text forms; rows hold what this code wrote, so they parse. A statement succeeds or fails by an argument; \<open>None\<close> is an
  error. The cron and time zone libraries are a parameter.
\<close>

section \<open>Jobs\<close>

datatype CronSchedule =
    At int "string option"
  | Every int "string option"
  | Cron string "string option" "string option"

datatype ExecutionMode = Existing | NewConversation

datatype CreatedBy = User | Agent

datatype JobStatus = JobOk | JobError | JobSkipped | JobMissed

record ProviderWithModel =
  pm_provider_id :: string
  pm_model :: string
  pm_use_model :: "string option"

record CronAgentConfig =
  cg_name :: string
  cg_cli_path :: "string option"
  cg_is_preset :: "bool option"
  cg_assistant_id :: "string option"
  cg_custom_agent_id :: "string option"
  cg_mode :: "string option"
  cg_model_id :: "string option"
  cg_model :: "ProviderWithModel option"
  cg_config_options :: "(string \<times> string) list option"
  cg_workspace :: "string option"

record CronJob =
  cj_id :: string
  cj_name :: string
  cj_enabled :: bool
  cj_schedule :: CronSchedule
  cj_message :: string
  cj_execution_mode :: ExecutionMode
  cj_agent_config :: "CronAgentConfig option"
  cj_conversation_id :: string
  cj_conversation_title :: "string option"
  cj_agent_type :: string
  cj_created_by :: CreatedBy
  cj_skill_content :: "string option"
  cj_description :: "string option"
  cj_created_at :: int
  cj_updated_at :: int
  cj_next_run_at :: "int option"
  cj_last_run_at :: "int option"
  cj_last_status :: "JobStatus option"
  cj_last_error :: "string option"
  cj_run_count :: int
  cj_retry_count :: int
  cj_max_retries :: int
  cj_queue_enabled :: bool

text \<open>A row does not have the agent type.\<close>

definition cron_job_to_row :: "CronJob \<Rightarrow> CronJob" where
  "cron_job_to_row job = job\<lparr>cj_agent_type := []\<rparr>"

section \<open>Schedules\<close>

text \<open>
  The library: whether an expression and a time zone parse, and the first time after a given one that an
  expression names.
\<close>

record CronLib =
  cl_schedule :: "string \<Rightarrow> bool"
  cl_timezone :: "string \<Rightarrow> bool"
  cl_after :: "string \<Rightarrow> string option \<Rightarrow> int \<Rightarrow> int option"

text \<open>The errors of a schedule, without the texts of the libraries.\<close>

datatype CronError = InvalidCronExpression string | InvalidTimezone string | InvalidSchedule

fun count_fields :: "bool \<Rightarrow> string \<Rightarrow> nat" where
  "count_fields inside [] = 0"
| "count_fields inside (c # cs) =
     (if is_whitespace c then count_fields False cs else (if inside then 0 else 1) + count_fields True cs)"

definition normalize_cron_expr :: "string \<Rightarrow> string" where
  "normalize_cron_expr expr =
     (let trimmed = trim expr in if count_fields False trimmed = 5 then ''0 '' @ trimmed else trimmed)"

definition validate_cron_expression :: "CronLib \<Rightarrow> string \<Rightarrow> CronError + unit" where
  "validate_cron_expression lib expr =
     (if cl_schedule lib (normalize_cron_expr expr) then Inr () else Inl (InvalidCronExpression expr))"

definition validate_timezone :: "CronLib \<Rightarrow> string \<Rightarrow> CronError + unit" where
  "validate_timezone lib tz = (if cl_timezone lib tz then Inr () else Inl (InvalidTimezone tz))"

definition compute_cron_next_run :: "CronLib \<Rightarrow> string \<Rightarrow> string option \<Rightarrow> int \<Rightarrow> int option" where
  "compute_cron_next_run lib expr tz now =
     (let normalized = normalize_cron_expr expr
      in if \<not> cl_schedule lib normalized then None
         else case tz of
             Some z \<Rightarrow> if \<not> cl_timezone lib z then None else cl_after lib normalized (Some z) now
           | None \<Rightarrow> cl_after lib normalized None now)"

definition i64_wrap :: "int \<Rightarrow> int" where
  "i64_wrap x = (x + 2 ^ 63) mod 2 ^ 64 - 2 ^ 63"

definition i64_checked :: "int \<Rightarrow> int option" where
  "i64_checked x = (if - (2 ^ 63) \<le> x \<and> x < 2 ^ 63 then Some x else None)"

fun compute_next_run :: "CronLib \<Rightarrow> CronSchedule \<Rightarrow> int \<Rightarrow> int option" where
  "compute_next_run lib (At at_ms _) now = Some at_ms"
| "compute_next_run lib (Every every_ms _) now = (if every_ms \<le> 0 then None else Some (i64_wrap (now + every_ms)))"
| "compute_next_run lib (Cron expr tz _) now = compute_cron_next_run lib expr tz now"

fun compute_next_run_after_occurrence :: "CronLib \<Rightarrow> CronSchedule \<Rightarrow> int \<Rightarrow> int \<Rightarrow> int option" where
  "compute_next_run_after_occurrence lib (At _ _) scheduled_at now = None"
| "compute_next_run_after_occurrence lib (Every every_ms _) scheduled_at now =
     (if every_ms \<le> 0 then None
      else let elapsed = i64_saturating_sub now scheduled_at;
               steps = i64_wrap (elapsed div every_ms + 1)
        in Option.bind (i64_checked (steps * every_ms)) (\<lambda>d. i64_checked (scheduled_at + d)))"
| "compute_next_run_after_occurrence lib (Cron expr tz _) scheduled_at now =
     compute_cron_next_run lib expr tz (max now scheduled_at)"

fun validate_schedule :: "CronLib \<Rightarrow> CronSchedule \<Rightarrow> CronError + unit" where
  "validate_schedule lib (At _ _) = Inr ()"
| "validate_schedule lib (Every every_ms _) = (if every_ms \<le> 0 then Inl InvalidSchedule else Inr ())"
| "validate_schedule lib (Cron expr tz _) =
     (if trim expr = [] then Inr ()
      else case validate_cron_expression lib expr of
          Inl e \<Rightarrow> Inl e
        | Inr _ \<Rightarrow> (case tz of Some z \<Rightarrow> validate_timezone lib z | None \<Rightarrow> Inr ()))"

section \<open>The tables\<close>

datatype RunStatus = Running | Retrying | RunOk | RunError | RunSkipped

record CronRun =
  rn_status :: RunStatus
  rn_owner_id :: "string option"
  rn_lease_until :: "int option"
  rn_conversation_id :: "string option"
  rn_error :: "string option"
  rn_started_at :: "int option"
  rn_finished_at :: "int option"
  rn_created_at :: int
  rn_updated_at :: int

type_synonym Occurrence = "string \<times> int"

record CronDb =
  cd_jobs :: "(string \<times> CronJob) list"
  cd_runs :: "(Occurrence \<times> CronRun) list"

datatype CronRunClaimResult = Claimed | Duplicate | QueueBusy

record ClaimCronRunParams =
  cp_job_id :: string
  cp_scheduled_at :: int
  cp_owner_id :: string
  cp_now :: int
  cp_lease_until :: int
  cp_queue_enabled :: bool

record FinishCronRunParams =
  fp_job_id :: string
  fp_scheduled_at :: int
  fp_owner_id :: string
  fp_status :: RunStatus
  fp_conversation_id :: "string option"
  fp_error :: "string option"
  fp_finished_at :: int

record RecoverableCronRun =
  rr_scheduled_at :: int
  rr_wake_at :: int

definition upd_runs :: "((Occurrence \<times> CronRun) list \<Rightarrow> (Occurrence \<times> CronRun) list) \<Rightarrow> CronDb \<Rightarrow> CronDb" where
  "upd_runs f d = d\<lparr>cd_runs := f (cd_runs d)\<rparr>"

definition is_active :: "CronRun \<Rightarrow> bool" where
  "is_active run \<longleftrightarrow> rn_status run \<in> {Running, Retrying}"

definition expired :: "int \<Rightarrow> CronRun \<Rightarrow> bool" where
  "expired now run \<longleftrightarrow> (case rn_lease_until run of Some lease \<Rightarrow> lease \<le> now | None \<Rightarrow> False)"

definition has_active_run :: "string \<Rightarrow> int \<Rightarrow> CronDb \<Rightarrow> bool" where
  "has_active_run job_id now d \<longleftrightarrow>
     list_ex (\<lambda>(k, run). fst k = job_id \<and> is_active run \<and> (case rn_lease_until run of Some lease \<Rightarrow> lease > now | None \<Rightarrow> False)) (cd_runs d)"

definition new_run :: "ClaimCronRunParams \<Rightarrow> CronRun" where
  "new_run p = \<lparr>rn_status = Running, rn_owner_id = Some (cp_owner_id p), rn_lease_until = Some (cp_lease_until p),
     rn_conversation_id = None, rn_error = None, rn_started_at = Some (cp_now p), rn_finished_at = None,
     rn_created_at = cp_now p, rn_updated_at = cp_now p\<rparr>"

definition skipped_run :: "ClaimCronRunParams \<Rightarrow> CronRun" where
  "skipped_run p = \<lparr>rn_status = RunSkipped, rn_owner_id = None, rn_lease_until = None, rn_conversation_id = None, rn_error = None,
     rn_started_at = None, rn_finished_at = Some (cp_now p), rn_created_at = cp_now p, rn_updated_at = cp_now p\<rparr>"

text \<open>
  The transaction of a claim. A run is inserted only for a job that exists (a foreign key).
\<close>

definition claim_run :: "bool \<Rightarrow> ClaimCronRunParams \<Rightarrow> CronDb \<Rightarrow> CronRunClaimResult option \<times> CronDb" where
  "claim_run ok p d =
     (let k = (cp_job_id p, cp_scheduled_at p)
      in if \<not> ok then (None, d)
         else case map_of (cd_runs d) k of
             Some run \<Rightarrow>
               if is_active run \<and> expired (cp_now p) run
               then (Some Claimed, upd_runs (AList.map_entry k (\<lambda>run. run\<lparr>rn_status := Running, rn_owner_id := Some (cp_owner_id p),
                   rn_lease_until := Some (cp_lease_until p),
                   rn_started_at := (case rn_started_at run of Some t \<Rightarrow> Some t | None \<Rightarrow> Some (cp_now p)),
                   rn_finished_at := None, rn_error := None, rn_updated_at := cp_now p\<rparr>)) d)
               else (Some Duplicate, d)
           | None \<Rightarrow>
               if map_of (cd_jobs d) (cp_job_id p) = None then (None, d)
               else if cp_queue_enabled p \<and> has_active_run (cp_job_id p) (cp_now p) d
               then (Some QueueBusy, upd_runs (\<lambda>runs. runs @ [(k, skipped_run p)]) d)
               else (Some Claimed, upd_runs (\<lambda>runs. runs @ [(k, new_run p)]) d))"

definition owned_by :: "string \<Rightarrow> CronRun \<Rightarrow> bool" where
  "owned_by owner run \<longleftrightarrow> rn_status run = Running \<and> rn_owner_id run = Some owner"

text \<open>An update of the run that is running and owned, with whether a row was changed.\<close>

definition update_owned :: "Occurrence \<Rightarrow> string \<Rightarrow> (CronRun \<Rightarrow> CronRun) \<Rightarrow> CronDb \<Rightarrow> bool \<times> CronDb" where
  "update_owned k owner f d =
     (case map_of (cd_runs d) k of
        Some run \<Rightarrow> if owned_by owner run then (True, upd_runs (AList.map_entry k f) d) else (False, d)
      | None \<Rightarrow> (False, d))"

definition renew_run_lease :: "bool \<Rightarrow> string \<Rightarrow> int \<Rightarrow> string \<Rightarrow> int \<Rightarrow> int \<Rightarrow> CronDb \<Rightarrow> bool option \<times> CronDb" where
  "renew_run_lease ok job_id scheduled_at owner lease_until updated_at d =
     (if \<not> ok then (None, d)
      else let (changed, d) = update_owned (job_id, scheduled_at) owner
            (\<lambda>run. run\<lparr>rn_lease_until := Some lease_until, rn_updated_at := updated_at\<rparr>) d
        in (Some changed, d))"

definition defer_run :: "bool \<Rightarrow> string \<Rightarrow> int \<Rightarrow> string \<Rightarrow> int \<Rightarrow> int \<Rightarrow> CronDb \<Rightarrow> bool option \<times> CronDb" where
  "defer_run ok job_id scheduled_at owner retry_at updated_at d =
     (if \<not> ok then (None, d)
      else let (changed, d) = update_owned (job_id, scheduled_at) owner
            (\<lambda>run. run\<lparr>rn_status := Retrying, rn_owner_id := None, rn_lease_until := Some retry_at, rn_updated_at := updated_at\<rparr>) d
        in (Some changed, d))"

definition finish_run :: "bool \<Rightarrow> FinishCronRunParams \<Rightarrow> CronDb \<Rightarrow> bool option \<times> CronDb" where
  "finish_run ok p d =
     (if \<not> ok then (None, d)
      else let (changed, d) = update_owned (fp_job_id p, fp_scheduled_at p) (fp_owner_id p)
            (\<lambda>run. run\<lparr>rn_status := fp_status p, rn_conversation_id := fp_conversation_id p, rn_error := fp_error p,
               rn_lease_until := None, rn_finished_at := Some (fp_finished_at p), rn_updated_at := fp_finished_at p\<rparr>) d
        in (Some changed, d))"

definition cleanup_runs_before :: "bool \<Rightarrow> int \<Rightarrow> CronDb \<Rightarrow> nat option \<times> CronDb" where
  "cleanup_runs_before ok cutoff d =
     (let old = (\<lambda>(k :: Occurrence, run). rn_status run \<in> {RunOk, RunError, RunSkipped}
            \<and> (case rn_finished_at run of Some t \<Rightarrow> t < cutoff | None \<Rightarrow> False))
      in if \<not> ok then (None, d) else (Some (length (filter old (cd_runs d))), upd_runs (filter (\<lambda>x. \<not> old x)) d))"

definition get_recoverable_run :: "bool \<Rightarrow> string \<Rightarrow> int \<Rightarrow> CronDb \<Rightarrow> RecoverableCronRun option option" where
  "get_recoverable_run ok job_id now d =
     (if \<not> ok then None
      else case sort_key (\<lambda>(k, lease). lease) (List.map_filter (\<lambda>(k, run). if fst k = job_id \<and> is_active run
              then map_option (\<lambda>lease. (snd k, lease)) (rn_lease_until run) else None) (cd_runs d)) of
          [] \<Rightarrow> Some None
        | (scheduled_at, lease) # _ \<Rightarrow> Some (Some \<lparr>rr_scheduled_at = scheduled_at, rr_wake_at = max lease now\<rparr>))"

subsection \<open>The table of jobs\<close>

record UpdateCronJobParams =
  up_name :: "string option"
  up_enabled :: "bool option"
  up_schedule :: "CronSchedule option"
  up_payload_message :: "string option"
  up_execution_mode :: "ExecutionMode option"
  up_agent_config :: "CronAgentConfig option option"
  up_conversation_id :: "string option"
  up_conversation_title :: "string option option"
  up_skill_content :: "string option option"
  up_description :: "string option option"
  up_next_run_at :: "int option option"
  up_last_run_at :: "int option option"
  up_last_status :: "JobStatus option option"
  up_last_error :: "string option option"
  up_run_count :: "int option"
  up_retry_count :: "int option"
  up_queue_enabled :: "bool option"

definition no_params :: UpdateCronJobParams where
  "no_params = \<lparr>up_name = None, up_enabled = None, up_schedule = None, up_payload_message = None, up_execution_mode = None,
     up_agent_config = None, up_conversation_id = None, up_conversation_title = None, up_skill_content = None,
     up_description = None, up_next_run_at = None, up_last_run_at = None, up_last_status = None, up_last_error = None,
     up_run_count = None, up_retry_count = None, up_queue_enabled = None\<rparr>"

definition set_columns :: "UpdateCronJobParams \<Rightarrow> CronJob \<Rightarrow> CronJob" where
  "set_columns p job = job\<lparr>
     cj_name := or_default (cj_name job) (up_name p),
     cj_enabled := or_default (cj_enabled job) (up_enabled p),
     cj_schedule := or_default (cj_schedule job) (up_schedule p),
     cj_message := or_default (cj_message job) (up_payload_message p),
     cj_execution_mode := or_default (cj_execution_mode job) (up_execution_mode p),
     cj_agent_config := or_default (cj_agent_config job) (up_agent_config p),
     cj_conversation_id := or_default (cj_conversation_id job) (up_conversation_id p),
     cj_conversation_title := or_default (cj_conversation_title job) (up_conversation_title p),
     cj_skill_content := or_default (cj_skill_content job) (up_skill_content p),
     cj_description := or_default (cj_description job) (up_description p),
     cj_next_run_at := or_default (cj_next_run_at job) (up_next_run_at p),
     cj_last_run_at := or_default (cj_last_run_at job) (up_last_run_at p),
     cj_last_status := or_default (cj_last_status job) (up_last_status p),
     cj_last_error := or_default (cj_last_error job) (up_last_error p),
     cj_run_count := or_default (cj_run_count job) (up_run_count p),
     cj_retry_count := or_default (cj_retry_count job) (up_retry_count p),
     cj_queue_enabled := or_default (cj_queue_enabled job) (up_queue_enabled p)\<rparr>"

text \<open>Whether the statement succeeded; an update of a job that is not there is an error.\<close>

definition update_job_row :: "bool \<Rightarrow> int \<Rightarrow> string \<Rightarrow> UpdateCronJobParams \<Rightarrow> CronDb \<Rightarrow> bool \<times> CronDb" where
  "update_job_row ok now job_id p d =
     (if p = no_params then (True, d)
      else if \<not> ok \<or> map_of (cd_jobs d) job_id = None then (False, d)
      else (True, d\<lparr>cd_jobs := AList.map_entry job_id (\<lambda>job. (set_columns p job)\<lparr>cj_updated_at := now\<rparr>) (cd_jobs d)\<rparr>))"

definition insert_job :: "bool \<Rightarrow> CronJob \<Rightarrow> CronDb \<Rightarrow> bool \<times> CronDb" where
  "insert_job ok job d =
     (if \<not> ok \<or> map_of (cd_jobs d) (cj_id job) \<noteq> None then (False, d)
      else (True, d\<lparr>cd_jobs := cd_jobs d @ [(cj_id job, cron_job_to_row job)]\<rparr>))"

text \<open>The runs of a deleted job go with it.\<close>

definition delete_job :: "bool \<Rightarrow> string \<Rightarrow> CronDb \<Rightarrow> bool \<times> CronDb" where
  "delete_job ok job_id d =
     (if \<not> ok \<or> map_of (cd_jobs d) job_id = None then (False, d)
      else (True, d\<lparr>cd_jobs := AList.delete job_id (cd_jobs d), cd_runs := filter (\<lambda>(k, run). fst k \<noteq> job_id) (cd_runs d)\<rparr>))"

definition get_by_id :: "bool \<Rightarrow> string \<Rightarrow> CronDb \<Rightarrow> CronJob option option" where
  "get_by_id ok job_id d = (if \<not> ok then None else Some (map_of (cd_jobs d) job_id))"

definition list_enabled :: "bool \<Rightarrow> CronDb \<Rightarrow> CronJob list option" where
  "list_enabled ok d = (if \<not> ok then None else Some (sort_key cj_created_at (filter cj_enabled (map snd (cd_jobs d)))))"

definition list_by_conversation :: "bool \<Rightarrow> string \<Rightarrow> CronDb \<Rightarrow> CronJob list option" where
  "list_by_conversation ok conversation_id d =
     (if \<not> ok then None
      else Some (sort_key cj_created_at (filter (\<lambda>job. cj_conversation_id job = conversation_id) (map snd (cd_jobs d)))))"

end
