(* ===== verification/Cron_Run_Props.thy ===== *)
theory Cron_Run_Props
  imports Cron_Runs
begin

text \<open>
  What the table of runs promises to the processes that share it: it is a lock with a time limit for every occurrence, and an occurrence
  ends once. The next occurrence of an interval is the first one in the future.
\<close>

section \<open>The locks\<close>















section \<open>Well-formed runs\<close>












section \<open>The table refines the locks\<close>

lemma cd_jobs_upd_runs [simp]: "cd_jobs (upd_runs f d) = cd_jobs d"
  by (simp add: upd_runs_def)


























section \<open>An occurrence ends once\<close>













section \<open>The next occurrence\<close>

definition example_lib :: CronLib where
  "example_lib = \<lparr>cl_schedule = (\<lambda>_. True), cl_timezone = (\<lambda>_. True), cl_after = (\<lambda>_ _ now. Some (now + 1))\<rparr>"

theorem next_occurrence_is_the_first_in_the_future:
  assumes "0 < every_ms" and "0 \<le> scheduled_at" and "scheduled_at < 2 ^ 63" and "0 \<le> now" and "now + every_ms < 2 ^ 63"
  shows "\<exists>next. compute_next_run_after_occurrence lib (Every every_ms description) scheduled_at now = Some next
    \<and> now < next \<and> next \<le> now + every_ms \<and> (next - scheduled_at) mod every_ms = 0"
proof -
  define steps where "steps = (now - scheduled_at) div every_ms + 1"
  have sub: "i64_saturating_sub now scheduled_at = now - scheduled_at"
    using assms by (simp add: i64_saturating_sub_def)
  have "steps * every_ms = (now - scheduled_at) - (now - scheduled_at) mod every_ms + every_ms"
    by (simp add: steps_def algebra_simps minus_mod_eq_mult_div [symmetric])
  moreover have "0 \<le> (now - scheduled_at) mod every_ms" "(now - scheduled_at) mod every_ms < every_ms"
    using assms(1) by simp_all
  ultimately have bounds: "now < scheduled_at + steps * every_ms" "scheduled_at + steps * every_ms \<le> now + every_ms"
    by simp_all
  have "- (2 ^ 63) \<le> steps \<and> steps < 2 ^ 63"
  proof -
    have "\<bar>steps\<bar> \<le> \<bar>steps * every_ms\<bar>" using assms(1) by (simp add: abs_mult mult_le_cancel_left1)
    with bounds assms show ?thesis by (auto simp: abs_le_iff)
  qed
  then have "i64_wrap steps = steps" by (simp add: i64_wrap_def)
  with sub bounds assms have "compute_next_run_after_occurrence lib (Every every_ms description) scheduled_at now
      = Some (scheduled_at + steps * every_ms)"
    by (simp add: i64_checked_def steps_def [symmetric] Let_def)
  with bounds show ?thesis by simp
qed

theorem next_occurrence_is_the_first_in_the_future_witness:
  "\<exists>next. compute_next_run_after_occurrence example_lib (Every 1000 None) 5000 7600 = Some next \<and> next = 8000"
  using next_occurrence_is_the_first_in_the_future [of 1000 5000 7600 example_lib None]
  by (auto simp: i64_wrap_def i64_checked_def i64_saturating_sub_def)

end
