(* ===== verification/Spec2Isabelle.thy ===== *)
theory Spec2Isabelle
  imports Session_Props Team_Run_Props Extension_Dependency_Props Turn_Replay_Props
    Agent_Task_Props Agent_Idle_Props Team_Board_Props Team_Mailbox_Props Team_Member_Props
    Acp_Session_Props Acp_Reconcile_Props Cron_Run_Props
begin

text \<open>
  Verification of the core logic of TjuaeCore, the Rust backend of a desktop application that runs
  coding agents: it keeps conversations, drives agent processes for them, lets several agents
  work as a team and serves the state of all that to a user interface.

  \<^bold>\<open>The parts of the program and how they work together.\<close>
  A message of a user claims the conversation for a turn (\<open>tjuaeui-conversation\<close>,
  \<open>runtime_state.rs\<close>). The turn orchestrator (\<open>turn_orchestrator.rs\<close>) obtains an agent for the
  conversation, sends the message and starts a stream relay (\<open>stream_relay.rs\<close>), which reads the
  agent's events, broadcasts them and stores them as messages through the persistence adapter
  (\<open>stream_persistence.rs\<close>); the policies beside it decide whether a failed attempt is replayed
  and whether the turn goes on. The agent comes from the task manager (\<open>tjuaeui-ai-agent\<close>, \<open>task_manager.rs\<close>),
  which builds one for each conversation and gives it a token; a scan kills the agents that are idle, unless a
  lease protects their conversation. What the user wants of an ACP agent, what the agent reported and what it offers is
  one aggregate (\<open>manager/acp/session.rs\<close>); a reconcile loop asks the agent for what differs, and a consumer of the
  aggregate's events writes what was reported to the database for the next start. Below, the session layer (\<open>tjuaeui-session\<close>) folds the events of one
  agent process into a session state and pushes snapshots of it. Above, a team
  (\<open>tjuaeui-team\<close>) has slots, each with an agent: a coordinator queues work for the slots and hands it
  out in batches, a run manager keeps the status of the team run the work belongs to, and a registry says which members
  are attached, are being attached or removed, and lets others wait for it; the agents of a team share a board of tasks that wait
  for one another and write each other messages. The
  extension registry (\<open>tjuaeui-extension\<close>) computes the order in which extensions are loaded, and
  the login (\<open>tjuaeui-auth\<close>) is guarded by a rate limiter and one-time tokens. Jobs that run at set times
  (\<open>tjuaeui-cron\<close>) claim each of their occurrences in a table of runs, so that of several processes one runs it.

  \<^bold>\<open>Theories.\<close>
  \<^item> \<open>Core_Prelude\<close>: the integers of the sources as words with Rust's saturating arithmetic,
    association lists for the hash maps (\<open>AList\<close>, with the invariant \<open>keyed\<close>), the parts of Rust's string
    functions the code uses, and three locales: \<open>machine\<close> (an initial predicate, a step relation and an
    invariant they establish and keep, with reachability), \<open>absorbing_store\<close> (a keyed store in
    which a terminal status stays) and \<open>extension\<close> (a preorder on states that folds keep).
  \<^item> \<open>Session_Event\<close>, \<open>Session_State\<close>, \<open>Session_Reducer\<close>, \<open>Session_Orchestrator\<close>: one theory for
    each of \<open>event.rs\<close>, \<open>state.rs\<close>, \<open>reducer.rs\<close> and \<open>backend/orchestrator.rs\<close>. The reducer is one
    definition for each arm of \<open>step\<close>; the orchestrator is a record of the loop's state, its caches
    and its channels, with \<open>fold_one\<close> as the loop's body. \<open>Session_Props\<close> has the properties, over all
    states that commands and events reach (interpretations \<open>orch\<close>, \<open>foreground\<close>, \<open>background\<close>).
  \<^item> \<open>Team_Work_Model\<close> (\<open>work_source.rs\<close>, \<open>work_coordinator/model.rs\<close>), \<open>Team_Coordinator\<close>
    (\<open>work_coordinator/coordinator.rs\<close>, \<open>snapshot.rs\<close>): the coordinator's state and every operation; an
    \<open>expect\<close> that fails is \<open>None\<close>, and the calls of the causality port are returned with the new state,
    as the code makes them after it dropped the lock. \<open>Team_Work_Invariant\<close> and \<open>Team_Coordinator_Steps\<close>
    hold the invariant and that every operation keeps it, \<open>Team_System\<close> the interleavings of the
    operations with the delivery of their port calls (interpretation \<open>team\<close>), \<open>Team_Work_Props\<close> the properties.
  \<^item> \<open>Team_Run_Manager\<close> (\<open>team_run/manager.rs\<close>): the run record, its events and payloads. The locale
    \<open>run_causality_port\<close> states what the coordinator relies on; the manager interprets it. \<open>Team_Run_Props\<close>
    has the properties of the two together.
  \<^item> \<open>Extension_Dependency\<close> (\<open>dependency.rs\<close>), \<open>Extension_Dependency_Props\<close>: Kahn's algorithm and the
    depth-first search for cycles as the code runs them, on association lists; the semver library is
    a parameter.
  \<^item> \<open>Auth_Limits\<close> (\<open>rate_limit.rs\<close>, \<open>qr_token.rs\<close>): both guards with the clock and the random bytes as arguments.
  \<^item> \<open>Conversation_Turns\<close> (\<open>runtime_state.rs\<close>, \<open>runtime_persistence.rs\<close>): the claims of turns, the marks of
    cancellation, deletion and shutdown, the poisoned lock included, and the write policy.
  \<^item> \<open>Stream_Relay\<close> (\<open>stream_relay.rs\<close>, \<open>stream_persistence.rs\<close> and the statements of
    \<open>sqlite_conversation.rs\<close> they run): the relay as a step per input that arrives, an event, an
    empty or closed channel, a lag or the failure of the send. What other tasks may change meanwhile, the runtime
    state, the clock, fresh ids and whether the database answers, is a \<open>World\<close>: a function of a tick
    that every access advances, so that a theorem covers every interleaving. \<open>Stream_Relay_End\<close> shows how a relay
    ends and what it has shown by then, \<open>Stream_Relay_Text\<close> that the text of a turn is stored.
  \<^item> \<open>Turn_Orchestrator\<close> (\<open>turn_orchestrator.rs\<close>, the recovery, continuation and health policies,
    \<open>acp_error_recovery.rs\<close>, \<open>message_persistence.rs\<close>): a user turn from its claim to its completion. What an
    agent does in each round of each attempt is a parameter (\<open>AgentWorld\<close>). \<open>Turn_Effects\<close> and \<open>Turn_Message_Ids\<close>
    hold the effects and the message ids of a turn (interpretations \<open>relay_log\<close>, \<open>id_growth\<close>),
    \<open>Turn_Props\<close> and \<open>Turn_Replay_Props\<close> (when a message is sent again) the properties.
  \<^item> \<open>Agent_Tasks\<close> (\<open>active_lease.rs\<close>, \<open>runtime_token.rs\<close>, \<open>task_manager.rs\<close>, \<open>idle_scanner.rs\<close>, the idle
    clean-up of the team's \<open>service.rs\<close>): a call of \<open>get_or_build_task\<close> is a program with the points at which other calls
    may run, a slot is a cell with a permit, as \<open>OnceCell\<close> has it, and the system counts the
    agents that were built and that the manager has not told to end. Whether an agent lives is not modelled: one that is dropped
    by its last holder ends by itself. \<open>Agent_Task_Steps\<close> holds the invariant and that every operation keeps it
    (interpretations \<open>tasks\<close> and, without removals during a build, \<open>clean_tasks\<close>), \<open>Agent_Task_Props\<close> and
    \<open>Agent_Idle_Props\<close> the properties of tasks, and of leases, the idle scan and tokens.
  \<^item> \<open>Team_Board\<close> (\<open>task_board.rs\<close>, \<open>mailbox.rs\<close>, the statements of \<open>sqlite_team.rs\<close>): the two tables as
    association lists, a statement as a step at which the database may fail. \<open>Team_Board_Props\<close> (interpretations \<open>board\<close>
    and, with a working database, \<open>linked_board\<close>) and \<open>Team_Mailbox_Props\<close> have the properties.
  \<^item> \<open>Team_Member_Runtime\<close> (\<open>member_runtime.rs\<close>): the registry of member runtimes with its leases and watch channels,
    and the system of all operations with leases that were issued. \<open>Team_Member_Props\<close> has the properties
    (interpretations \<open>members\<close> and, with fewer operations than ids, \<open>honest_members\<close>).
  \<^item> \<open>Acp_Catalog\<close> (\<open>config_option_catalog.rs\<close>, \<open>config_options.rs\<close>, \<open>mode_normalize.rs\<close>), \<open>Acp_Session\<close>
    (\<open>session.rs\<close>, \<open>agent_event_tracker.rs\<close>, \<open>agent_reconcile.rs\<close>), \<open>Acp_Session_Sync\<close> (\<open>acp_session_sync.rs\<close> and the
    statements of \<open>sqlite_acp_session.rs\<close>): the aggregate with every mutation, the reconcile loop
    against an agent that is a parameter (its replies and the notifications it sends before them), and the consumer as a step per input.
    \<open>Acp_Session_Props\<close> has the properties of the aggregate with its consumer (interpretation \<open>tracking\<close>),
    \<open>Acp_Reconcile_Props\<close> those of the loop.
  \<^item> \<open>Cron_Runs\<close> (the schedules of \<open>scheduler.rs\<close> and the statements of \<open>sqlite_cron.rs\<close>), \<open>Cron_Run_Props\<close>: the tables of
    jobs and of their runs as association lists, a statement as a step that may fail; the table of runs refines a lock with a time
    limit for every occurrence (interpretation \<open>tables\<close>). The cron expression and time zone libraries are a parameter.

  \<^bold>\<open>What the theorems show.\<close>
  For the team: work is never lost, duplicated or revived, no operation panics, the queues are served by
  priority and in order, and every slot with work is given some; cancelling and stopping end what they
  should. For sessions: the snapshot a client holds is never stale, a late result of a cancelled
  turn changes nothing, and the loss of a process ends all activity. For
  conversations: the claims are a lock for each conversation, a turn ends and releases its claim
  once, streamed text is stored, the message of a turn is sent again only when nothing was shown of the first attempt, and a failed turn is
  shown as failed. For agents: calls for one conversation that
  no removal separates get the same agent, the agents the manager has not told to end are the ones it finds unless a task was removed while a call
  was to build in its slot, a token opens its conversation for the scopes that were asked for, and the idle scan spares what is busy or leased. For the tasks and messages of a team: no circle of waiting
  tasks, the completion of a task frees what waits for it, every message is delivered once; a lease to attach a member can be
  committed exactly while somebody waits for it, and the members follow their lifecycle. For ACP sessions: what the agent reported
  survives a restart, and a reconcile is bounded, is not stopped by refusals and, up to the model, brings an agent in line that confirms what it
  is asked for. For scheduled jobs: of the processes that claim an occurrence one at a time holds it, and an occurrence ends once. For extensions: the load order is total and puts dependencies first, and cycles are found
  exactly when they exist. For logins: the bounds on admitted requests and that a token is good for one login.
  Several theorems state behaviour that deviates from what the code intends; each describes a schedule
  or an input that leads to it.

  \<^bold>\<open>Loops, bounds and fuel.\<close>
  No definition uses fuel. Loops over data are structural recursion; Kahn's algorithm ends because every
  step takes a node out of the graph, the depth-first search because every call visits a new node,
  the reconcile loop because it counts its actions up to eight,
  the rounds of an attempt because the continuation count is bounded by four, the attempts because
  a turn is replayed at most once. The relay and the session loop wait for inputs: they are
  functions of the list of the inputs that arrived, and a result that says that they wait for more. Counters of the
  code are words of their width where they can overflow, and naturals where the code only
  compares them to small constants.

  \<^bold>\<open>Not modelled.\<close>
  The wire adapters of the agent programs (\<open>codex_conn.rs\<close>, \<open>claude_conn.rs\<close>, \<open>acp_conn.rs\<close>), which
  translate JSON of external programs; HTTP routes, SQL beyond the tables of
  messages, tasks, mail, ACP sessions and scheduled jobs, the timers and the execution of scheduled jobs, process and file I/O,
  prompt texts; log output; the classification of agent errors (\<open>send_error.rs\<close>), whose result a turn only
  passes on; the periodic tasks that call the clean-ups; JSON values, which are a type parameter.
\<close>

end
